(* ===== verification/Sim_Prelude.thy ===== *)
theory Sim_Prelude
  imports Main "HOL-Library.Word" "HOL-Library.List_Lexorder" "HOL-Library.Char_ord"
begin

text \<open>
  Shared vocabulary of the development: the identifier type, the three-valued logic of the SQL
  conditions that the program builds, the row operations (select, update, delete) that its SQL
  statements denote, the choice of the first row in an ORDER BY, and strict row orders as a locale.
  Nothing here is specific to one component.
\<close>

section \<open>Named collections and basic types\<close>

named_theorems sql_simps \<open>equations that evaluate SQL conditions on concrete rows\<close>
named_theorems caps_simps \<open>unfolding rules of the capability computations\<close>

type_synonym id = "64 word"
type_synonym u8 = "8 word"
type_synonym datetime = string

text \<open>Errors as values: a C++ exception is an \<open>Inl\<close>, a normal return an \<open>Inr\<close>.\<close>

datatype exn =
    Bad_optional_access
  | Throw string
  | Throw_assert string
  | Deadlock
  | Terminate

type_synonym 'a res = "exn + 'a"

definition bind_res :: "'a res \<Rightarrow> ('a \<Rightarrow> 'b res) \<Rightarrow> 'b res" where
  "bind_res r f = (case r of Inl e \<Rightarrow> Inl e | Inr x \<Rightarrow> f x)"

lemma bind_res_simps [simp]:
  "bind_res (Inl e) f = Inl e"
  "bind_res (Inr x) f = f x"
  by (simp_all add: bind_res_def)

lemma bind_res_eq_Inr: "bind_res r f = Inr y \<longleftrightarrow> (\<exists>x. r = Inr x \<and> f x = Inr y)"
  by (cases r) auto

text \<open>\<open>std::optional::value()\<close>: throws when empty.\<close>

definition value_of :: "'a option \<Rightarrow> 'a res" where
  "value_of x = (case x of None \<Rightarrow> Inl Bad_optional_access | Some v \<Rightarrow> Inr v)"

lemma value_of_simps [simp]:
  "value_of None = Inl Bad_optional_access"
  "value_of (Some v) = Inr v"
  by (simp_all add: value_of_def)

lemma value_of_eq_Inr [simp]: "value_of x = Inr v \<longleftrightarrow> x = Some v"
  by (cases x) auto

section \<open>SQL conditions: three-valued logic\<close>

text \<open>
  A SQL condition is TRUE, FALSE or NULL. A row passes a WHERE only when the condition is TRUE.
  The connectives follow Kleene's tables; a comparison with NULL is NULL.
\<close>

type_synonym sqlbool = "bool option"

definition sql_not :: "sqlbool \<Rightarrow> sqlbool" where
  "sql_not a = map_option Not a"

definition sql_and :: "sqlbool \<Rightarrow> sqlbool \<Rightarrow> sqlbool" where
  "sql_and a b =
     (if a = Some False \<or> b = Some False then Some False
      else if a = None \<or> b = None then None
      else Some True)"

definition sql_or :: "sqlbool \<Rightarrow> sqlbool \<Rightarrow> sqlbool" where
  "sql_or a b =
     (if a = Some True \<or> b = Some True then Some True
      else if a = None \<or> b = None then None
      else Some False)"

definition sql_eq :: "'a option \<Rightarrow> 'a \<Rightarrow> sqlbool" where
  "sql_eq x v = map_option (\<lambda>y. y = v) x"

definition sql_in :: "'a option \<Rightarrow> 'a list \<Rightarrow> sqlbool" where
  "sql_in x vs = map_option (\<lambda>y. y \<in> set vs) x"

definition sql_true :: "sqlbool \<Rightarrow> bool" where
  "sql_true c \<longleftrightarrow> c = Some True"

lemma sql_const [simp, sql_simps]:
  "sql_not (Some p) = Some (\<not> p)"
  "sql_not None = None"
  "sql_and (Some p) (Some q) = Some (p \<and> q)"
  "sql_or (Some p) (Some q) = Some (p \<or> q)"
  "sql_and (Some False) c = Some False"
  "sql_and c (Some False) = Some False"
  "sql_and (Some True) c = c"
  "sql_and c (Some True) = c"
  "sql_or (Some True) c = Some True"
  "sql_or c (Some True) = Some True"
  "sql_or (Some False) c = c"
  "sql_or c (Some False) = c"
  "sql_and None None = None"
  "sql_or None None = None"
  by (cases c; auto simp: sql_not_def sql_and_def sql_or_def)+

lemma sql_cmp [simp, sql_simps]:
  "sql_eq (Some x) v = Some (x = v)"
  "sql_eq None v = None"
  "sql_in (Some x) vs = Some (x \<in> set vs)"
  "sql_in None vs = None"
  by (simp_all add: sql_eq_def sql_in_def)

lemma sql_true_simps [simp, sql_simps]:
  "sql_true (Some p) = p"
  "\<not> sql_true None"
  "sql_true (sql_and a b) \<longleftrightarrow> sql_true a \<and> sql_true b"
  "sql_true (sql_or a b) \<longleftrightarrow> sql_true a \<or> sql_true b"
  by (auto simp: sql_true_def sql_and_def sql_or_def)

section \<open>Rows: update, delete, first in an ORDER BY\<close>

definition update_where :: "('r \<Rightarrow> bool) \<Rightarrow> ('r \<Rightarrow> 'r) \<Rightarrow> 'r list \<Rightarrow> 'r list" where
  "update_where p f rs = map (\<lambda>r. if p r then f r else r) rs"

definition delete_where :: "('r \<Rightarrow> bool) \<Rightarrow> 'r list \<Rightarrow> 'r list" where
  "delete_where p rs = filter (\<lambda>r. \<not> p r) rs"

text \<open>\<open>SELECT ... ORDER BY ... LIMIT 1\<close>: the first row in the strict order \<open>lt\<close>.\<close>

fun first_by :: "('r \<Rightarrow> 'r \<Rightarrow> bool) \<Rightarrow> 'r list \<Rightarrow> 'r option" where
  "first_by lt [] = None"
| "first_by lt (r # rs) =
     (case first_by lt rs of None \<Rightarrow> Some r | Some b \<Rightarrow> if lt b r then Some b else Some r)"

lemma update_where_Nil [simp]: "update_where p f [] = []"
  and update_where_Cons [simp]:
    "update_where p f (r # rs) = (if p r then f r else r) # update_where p f rs"
  by (simp_all add: update_where_def)

lemma length_update_where [simp]: "length (update_where p f rs) = length rs"
  by (simp add: update_where_def)

lemma set_update_where: "set (update_where p f rs) = (\<lambda>r. if p r then f r else r) ` set rs"
  by (simp add: update_where_def)

lemma map_update_where_frame:
  assumes "\<And>r. g (f r) = g r"
  shows "map g (update_where p f rs) = map g rs"
  by (simp add: update_where_def assms)

lemma update_where_none: "(\<And>r. r \<in> set rs \<Longrightarrow> \<not> p r) \<Longrightarrow> update_where p f rs = rs"
  by (induction rs) (auto simp: update_where_def)

lemma set_delete_where [simp]: "set (delete_where p rs) = {r \<in> set rs. \<not> p r}"
  by (auto simp: delete_where_def)

lemma delete_where_Nil [simp]: "delete_where p [] = []"
  and delete_where_Cons [simp]:
    "delete_where p (r # rs) = (if p r then delete_where p rs else r # delete_where p rs)"
  by (simp_all add: delete_where_def)

lemma distinct_map_delete_where [intro]:
  "distinct (map f rs) \<Longrightarrow> distinct (map f (delete_where p rs))"
  by (simp add: delete_where_def distinct_map_filter)

lemma first_by_None [simp]: "first_by lt rs = None \<longleftrightarrow> rs = []"
  by (cases rs) (auto split: option.splits if_splits)

lemma first_by_mem: "first_by lt rs = Some b \<Longrightarrow> b \<in> set rs"
  by (induction rs arbitrary: b) (auto split: option.splits if_splits)

lemma distinct_key_eq: "distinct (map k rs) \<Longrightarrow> r \<in> set rs \<Longrightarrow> r' \<in> set rs \<Longrightarrow> k r = k r' \<Longrightarrow> r = r'"
  by (auto simp: distinct_map dest: inj_onD)

section \<open>Strict row orders\<close>

text \<open>
  The contract of an ORDER BY whose last key is unique: a strict order that is total on rows
  with different keys. The choice of the first row is then a function of the set of rows.
\<close>

locale row_order =
  fixes lt :: "'r \<Rightarrow> 'r \<Rightarrow> bool"
    and key :: "'r \<Rightarrow> 'k"
  assumes lt_irrefl: "\<not> lt r r"
    and lt_trans: "lt a b \<Longrightarrow> lt b c \<Longrightarrow> lt a c"
    and lt_total: "key a \<noteq> key b \<Longrightarrow> lt a b \<or> lt b a"
begin

lemma lt_asym: "lt a b \<Longrightarrow> \<not> lt b a"
  using lt_irrefl lt_trans by blast

lemma lt_not_lt_trans: "lt a b \<Longrightarrow> \<not> lt c b \<Longrightarrow> key b \<noteq> key c \<Longrightarrow> lt a c"
  using lt_total lt_trans by metis

lemma first_by_least:
  assumes "distinct (map key rs)" and "first_by lt rs = Some b" and "r \<in> set rs" and "r \<noteq> b"
  shows "lt b r"
  using assms
proof (induction rs arbitrary: b)
  case Nil
  then show ?case by simp
next
  case (Cons x xs)
  show ?case
  proof (cases "first_by lt xs")
    case None
    then show ?thesis using Cons.prems by auto
  next
    case (Some y)
    have y: "y \<in> set xs" using Some by (rule first_by_mem)
    have key: "key x \<noteq> key y" using Cons.prems(1) y by auto
    show ?thesis
    proof (cases "lt y x")
      case True
      then show ?thesis using Cons Some by (auto split: if_splits)
    next
      case False
      then have b: "b = x" and xy: "lt x y" using Cons.prems Some key lt_total by auto
      have "r \<in> set xs" using Cons.prems b by simp
      then have "r = y \<or> lt y r" using Cons.IH Cons.prems(1) Some by auto
      then show ?thesis using b xy lt_trans by blast
    qed
  qed
qed

lemma first_by_iff:
  assumes "distinct (map key rs)"
  shows "first_by lt rs = Some b \<longleftrightarrow> b \<in> set rs \<and> (\<forall>r \<in> set rs. r \<noteq> b \<longrightarrow> lt b r)"
proof
  assume b: "first_by lt rs = Some b"
  show "b \<in> set rs \<and> (\<forall>r \<in> set rs. r \<noteq> b \<longrightarrow> lt b r)"
    by (simp add: first_by_mem [OF b] first_by_least [OF assms b])
next
  assume b: "b \<in> set rs \<and> (\<forall>r \<in> set rs. r \<noteq> b \<longrightarrow> lt b r)"
  then have "b \<in> set rs" by (rule conjunct1)
  then have "rs \<noteq> []" by (cases rs) simp_all
  then have "first_by lt rs \<noteq> None" using first_by_None by metis
  then obtain c where c: "first_by lt rs = Some c" by blast
  have cm: "c \<in> set rs" using c by (rule first_by_mem)
  have "c = b"
  proof (rule ccontr)
    assume ne: "c \<noteq> b"
    have "lt b c" using b cm ne by blast
    moreover have "lt c b" by (rule first_by_least [OF assms c]) (use b ne in auto)
    ultimately show False using lt_asym by blast
  qed
  with c show "first_by lt rs = Some b" by simp
qed

end

section \<open>NULLs in an ORDER BY\<close>

text \<open>NULL sorts before every value, so it comes last in a descending order.\<close>

definition null_less :: "'a::linorder option \<Rightarrow> 'a option \<Rightarrow> bool" where
  "null_less a b =
     (case b of None \<Rightarrow> False | Some y \<Rightarrow> (case a of None \<Rightarrow> True | Some x \<Rightarrow> x < y))"

lemma null_less_simps [simp]:
  "\<not> null_less a None"
  "null_less None (Some y)"
  "null_less (Some x) (Some y) = (x < y)"
  by (simp_all add: null_less_def)

lemma null_less_irrefl [simp]: "\<not> null_less a a"
  by (cases a) auto

lemma null_less_trans: "null_less a b \<Longrightarrow> null_less b c \<Longrightarrow> null_less a c"
  by (cases a; cases b; cases c) auto

lemma null_less_total: "a \<noteq> b \<Longrightarrow> null_less a b \<or> null_less b a"
  by (cases a; cases b) (auto simp: neq_iff)

end
