(* ===== verification/Sim_Types.thy ===== *)
theory Sim_Types
  imports Sim_Prelude
begin

text \<open>
  The data of the program: the enums that ENUM_WITH_STRING_CONVERSIONS declares (with their
  underlying integers and their string forms), the rows of the database tables as records, the
  priorities of jobs, and the session of a web request.
\<close>

section \<open>Enums with their integers and strings\<close>

text \<open>\<open>User::Type\<close>\<close>

datatype user_type =
    User_ADMIN
  | User_TEACHER
  | User_NORMAL

fun user_type_to_int :: "user_type \<Rightarrow> u8" where
  "user_type_to_int User_ADMIN = 0"
| "user_type_to_int User_TEACHER = 1"
| "user_type_to_int User_NORMAL = 2"

fun user_type_to_str :: "user_type \<Rightarrow> string" where
  "user_type_to_str User_ADMIN = ''admin''"
| "user_type_to_str User_TEACHER = ''teacher''"
| "user_type_to_str User_NORMAL = ''normal''"

definition user_type_from_str :: "string \<Rightarrow> user_type option" where
  "user_type_from_str s =
     (if s = ''admin'' then Some User_ADMIN
      else if s = ''teacher'' then Some User_TEACHER
      else if s = ''normal'' then Some User_NORMAL
      else None)"

lemma user_type_to_int_inj [simp]: "user_type_to_int x = user_type_to_int y \<longleftrightarrow> x = y"
  by (cases x; cases y) simp_all

lemma user_type_from_to_str [simp]: "user_type_from_str (user_type_to_str x) = Some x"
  by (cases x) (simp_all add: user_type_from_str_def)

lemma user_type_from_str_SomeD: "user_type_from_str s = Some x \<Longrightarrow> s = user_type_to_str x"
  by (auto simp: user_type_from_str_def split: if_splits)

instantiation user_type :: linorder
begin

definition less_eq_user_type :: "user_type \<Rightarrow> user_type \<Rightarrow> bool" where
  "less_eq_user_type x y \<longleftrightarrow> user_type_to_int x \<le> user_type_to_int y"

definition less_user_type :: "user_type \<Rightarrow> user_type \<Rightarrow> bool" where
  "less_user_type x y \<longleftrightarrow> user_type_to_int x < user_type_to_int y"

instance
  by standard (auto simp: less_eq_user_type_def less_user_type_def order_less_le dest: order.antisym)

end

lemmas user_type_ord = less_eq_user_type_def less_user_type_def

text \<open>\<open>ContestUser::Mode\<close>\<close>

datatype contest_user_mode =
    CONTESTANT
  | MODERATOR
  | OWNER

fun contest_user_mode_to_int :: "contest_user_mode \<Rightarrow> u8" where
  "contest_user_mode_to_int CONTESTANT = 0"
| "contest_user_mode_to_int MODERATOR = 1"
| "contest_user_mode_to_int OWNER = 2"

fun contest_user_mode_to_str :: "contest_user_mode \<Rightarrow> string" where
  "contest_user_mode_to_str CONTESTANT = ''contestant''"
| "contest_user_mode_to_str MODERATOR = ''moderator''"
| "contest_user_mode_to_str OWNER = ''owner''"

definition contest_user_mode_from_str :: "string \<Rightarrow> contest_user_mode option" where
  "contest_user_mode_from_str s =
     (if s = ''contestant'' then Some CONTESTANT
      else if s = ''moderator'' then Some MODERATOR
      else if s = ''owner'' then Some OWNER
      else None)"

lemma contest_user_mode_to_int_inj [simp]: "contest_user_mode_to_int x = contest_user_mode_to_int y \<longleftrightarrow> x = y"
  by (cases x; cases y) simp_all

lemma contest_user_mode_from_to_str [simp]: "contest_user_mode_from_str (contest_user_mode_to_str x) = Some x"
  by (cases x) (simp_all add: contest_user_mode_from_str_def)

lemma contest_user_mode_from_str_SomeD: "contest_user_mode_from_str s = Some x \<Longrightarrow> s = contest_user_mode_to_str x"
  by (auto simp: contest_user_mode_from_str_def split: if_splits)

instantiation contest_user_mode :: linorder
begin

definition less_eq_contest_user_mode :: "contest_user_mode \<Rightarrow> contest_user_mode \<Rightarrow> bool" where
  "less_eq_contest_user_mode x y \<longleftrightarrow> contest_user_mode_to_int x \<le> contest_user_mode_to_int y"

definition less_contest_user_mode :: "contest_user_mode \<Rightarrow> contest_user_mode \<Rightarrow> bool" where
  "less_contest_user_mode x y \<longleftrightarrow> contest_user_mode_to_int x < contest_user_mode_to_int y"

instance
  by standard (auto simp: less_eq_contest_user_mode_def less_contest_user_mode_def order_less_le dest: order.antisym)

end

lemmas contest_user_mode_ord = less_eq_contest_user_mode_def less_contest_user_mode_def

text \<open>\<open>Problem::Visibility\<close>\<close>

datatype visibility =
    PUBLIC
  | PRIVATE
  | CONTEST_ONLY

fun visibility_to_int :: "visibility \<Rightarrow> u8" where
  "visibility_to_int PUBLIC = 1"
| "visibility_to_int PRIVATE = 2"
| "visibility_to_int CONTEST_ONLY = 3"

fun visibility_to_str :: "visibility \<Rightarrow> string" where
  "visibility_to_str PUBLIC = ''public''"
| "visibility_to_str PRIVATE = ''private''"
| "visibility_to_str CONTEST_ONLY = ''contest_only''"

definition visibility_from_str :: "string \<Rightarrow> visibility option" where
  "visibility_from_str s =
     (if s = ''public'' then Some PUBLIC
      else if s = ''private'' then Some PRIVATE
      else if s = ''contest_only'' then Some CONTEST_ONLY
      else None)"

lemma visibility_to_int_inj [simp]: "visibility_to_int x = visibility_to_int y \<longleftrightarrow> x = y"
  by (cases x; cases y) simp_all

lemma visibility_from_to_str [simp]: "visibility_from_str (visibility_to_str x) = Some x"
  by (cases x) (simp_all add: visibility_from_str_def)

lemma visibility_from_str_SomeD: "visibility_from_str s = Some x \<Longrightarrow> s = visibility_to_str x"
  by (auto simp: visibility_from_str_def split: if_splits)

text \<open>\<open>ContestProblem::MethodOfChoosingFinalSubmission\<close>\<close>

datatype final_method =
    LATEST_COMPILING
  | HIGHEST_SCORE

fun final_method_to_int :: "final_method \<Rightarrow> u8" where
  "final_method_to_int LATEST_COMPILING = 0"
| "final_method_to_int HIGHEST_SCORE = 1"

fun final_method_to_str :: "final_method \<Rightarrow> string" where
  "final_method_to_str LATEST_COMPILING = ''latest_compiling''"
| "final_method_to_str HIGHEST_SCORE = ''highest_score''"

definition final_method_from_str :: "string \<Rightarrow> final_method option" where
  "final_method_from_str s =
     (if s = ''latest_compiling'' then Some LATEST_COMPILING
      else if s = ''highest_score'' then Some HIGHEST_SCORE
      else None)"

lemma final_method_to_int_inj [simp]: "final_method_to_int x = final_method_to_int y \<longleftrightarrow> x = y"
  by (cases x; cases y) simp_all

lemma final_method_from_to_str [simp]: "final_method_from_str (final_method_to_str x) = Some x"
  by (cases x) (simp_all add: final_method_from_str_def)

lemma final_method_from_str_SomeD: "final_method_from_str s = Some x \<Longrightarrow> s = final_method_to_str x"
  by (auto simp: final_method_from_str_def split: if_splits)

text \<open>\<open>ContestProblem::ScoreRevealing\<close>\<close>

datatype score_revealing =
    Reveal_NONE
  | ONLY_SCORE
  | SCORE_AND_FULL_STATUS

fun score_revealing_to_int :: "score_revealing \<Rightarrow> u8" where
  "score_revealing_to_int Reveal_NONE = 0"
| "score_revealing_to_int ONLY_SCORE = 1"
| "score_revealing_to_int SCORE_AND_FULL_STATUS = 2"

fun score_revealing_to_str :: "score_revealing \<Rightarrow> string" where
  "score_revealing_to_str Reveal_NONE = ''none''"
| "score_revealing_to_str ONLY_SCORE = ''only_score''"
| "score_revealing_to_str SCORE_AND_FULL_STATUS = ''score_and_full_status''"

definition score_revealing_from_str :: "string \<Rightarrow> score_revealing option" where
  "score_revealing_from_str s =
     (if s = ''none'' then Some Reveal_NONE
      else if s = ''only_score'' then Some ONLY_SCORE
      else if s = ''score_and_full_status'' then Some SCORE_AND_FULL_STATUS
      else None)"

lemma score_revealing_to_int_inj [simp]: "score_revealing_to_int x = score_revealing_to_int y \<longleftrightarrow> x = y"
  by (cases x; cases y) simp_all

lemma score_revealing_from_to_str [simp]: "score_revealing_from_str (score_revealing_to_str x) = Some x"
  by (cases x) (simp_all add: score_revealing_from_str_def)

lemma score_revealing_from_str_SomeD: "score_revealing_from_str s = Some x \<Longrightarrow> s = score_revealing_to_str x"
  by (auto simp: score_revealing_from_str_def split: if_splits)

text \<open>\<open>Submission::Type\<close>\<close>

datatype submission_type =
    Sub_NORMAL
  | Sub_IGNORED
  | Sub_PROBLEM_SOLUTION

fun submission_type_to_int :: "submission_type \<Rightarrow> u8" where
  "submission_type_to_int Sub_NORMAL = 0"
| "submission_type_to_int Sub_IGNORED = 2"
| "submission_type_to_int Sub_PROBLEM_SOLUTION = 3"

fun submission_type_to_str :: "submission_type \<Rightarrow> string" where
  "submission_type_to_str Sub_NORMAL = ''normal''"
| "submission_type_to_str Sub_IGNORED = ''ignored''"
| "submission_type_to_str Sub_PROBLEM_SOLUTION = ''problem_solution''"

definition submission_type_from_str :: "string \<Rightarrow> submission_type option" where
  "submission_type_from_str s =
     (if s = ''normal'' then Some Sub_NORMAL
      else if s = ''ignored'' then Some Sub_IGNORED
      else if s = ''problem_solution'' then Some Sub_PROBLEM_SOLUTION
      else None)"

lemma submission_type_to_int_inj [simp]: "submission_type_to_int x = submission_type_to_int y \<longleftrightarrow> x = y"
  by (cases x; cases y) simp_all

lemma submission_type_from_to_str [simp]: "submission_type_from_str (submission_type_to_str x) = Some x"
  by (cases x) (simp_all add: submission_type_from_str_def)

lemma submission_type_from_str_SomeD: "submission_type_from_str s = Some x \<Longrightarrow> s = submission_type_to_str x"
  by (auto simp: submission_type_from_str_def split: if_splits)

text \<open>\<open>Submission::Status\<close>\<close>

datatype submission_status =
    Sub_OK
  | Sub_WA
  | Sub_TLE
  | Sub_MLE
  | Sub_OLE
  | Sub_RTE
  | Sub_PENDING
  | Sub_COMPILATION_ERROR
  | Sub_CHECKER_COMPILATION_ERROR
  | Sub_JUDGE_ERROR

fun submission_status_to_int :: "submission_status \<Rightarrow> u8" where
  "submission_status_to_int Sub_OK = 1"
| "submission_status_to_int Sub_WA = 2"
| "submission_status_to_int Sub_TLE = 3"
| "submission_status_to_int Sub_MLE = 4"
| "submission_status_to_int Sub_OLE = 5"
| "submission_status_to_int Sub_RTE = 6"
| "submission_status_to_int Sub_PENDING = 8"
| "submission_status_to_int Sub_COMPILATION_ERROR = 9"
| "submission_status_to_int Sub_CHECKER_COMPILATION_ERROR = 10"
| "submission_status_to_int Sub_JUDGE_ERROR = 11"

fun submission_status_to_str :: "submission_status \<Rightarrow> string" where
  "submission_status_to_str Sub_OK = ''ok''"
| "submission_status_to_str Sub_WA = ''wa''"
| "submission_status_to_str Sub_TLE = ''tle''"
| "submission_status_to_str Sub_MLE = ''mle''"
| "submission_status_to_str Sub_OLE = ''ole''"
| "submission_status_to_str Sub_RTE = ''rte''"
| "submission_status_to_str Sub_PENDING = ''pending''"
| "submission_status_to_str Sub_COMPILATION_ERROR = ''compilation_error''"
| "submission_status_to_str Sub_CHECKER_COMPILATION_ERROR = ''checker_compilation_error''"
| "submission_status_to_str Sub_JUDGE_ERROR = ''judge_error''"

definition submission_status_from_str :: "string \<Rightarrow> submission_status option" where
  "submission_status_from_str s =
     (if s = ''ok'' then Some Sub_OK
      else if s = ''wa'' then Some Sub_WA
      else if s = ''tle'' then Some Sub_TLE
      else if s = ''mle'' then Some Sub_MLE
      else if s = ''ole'' then Some Sub_OLE
      else if s = ''rte'' then Some Sub_RTE
      else if s = ''pending'' then Some Sub_PENDING
      else if s = ''compilation_error'' then Some Sub_COMPILATION_ERROR
      else if s = ''checker_compilation_error'' then Some Sub_CHECKER_COMPILATION_ERROR
      else if s = ''judge_error'' then Some Sub_JUDGE_ERROR
      else None)"

lemma submission_status_to_int_inj [simp]: "submission_status_to_int x = submission_status_to_int y \<longleftrightarrow> x = y"
  by (cases x; cases y) simp_all

lemma submission_status_from_to_str [simp]: "submission_status_from_str (submission_status_to_str x) = Some x"
  by (cases x) (simp_all add: submission_status_from_str_def)

lemma submission_status_from_str_SomeD: "submission_status_from_str s = Some x \<Longrightarrow> s = submission_status_to_str x"
  by (auto simp: submission_status_from_str_def split: if_splits)

instantiation submission_status :: linorder
begin

definition less_eq_submission_status :: "submission_status \<Rightarrow> submission_status \<Rightarrow> bool" where
  "less_eq_submission_status x y \<longleftrightarrow> submission_status_to_int x \<le> submission_status_to_int y"

definition less_submission_status :: "submission_status \<Rightarrow> submission_status \<Rightarrow> bool" where
  "less_submission_status x y \<longleftrightarrow> submission_status_to_int x < submission_status_to_int y"

instance
  by standard (auto simp: less_eq_submission_status_def less_submission_status_def order_less_le dest: order.antisym)

end

lemmas submission_status_ord = less_eq_submission_status_def less_submission_status_def

text \<open>\<open>Submission::Language\<close>\<close>

datatype language =
    C11
  | CPP11
  | PASCAL
  | CPP14
  | CPP17
  | PYTHON
  | RUST
  | CPP20
  | CPP23
  | C23

fun language_to_int :: "language \<Rightarrow> u8" where
  "language_to_int C11 = 0"
| "language_to_int CPP11 = 1"
| "language_to_int PASCAL = 2"
| "language_to_int CPP14 = 3"
| "language_to_int CPP17 = 4"
| "language_to_int PYTHON = 5"
| "language_to_int RUST = 6"
| "language_to_int CPP20 = 7"
| "language_to_int CPP23 = 8"
| "language_to_int C23 = 9"

fun language_to_str :: "language \<Rightarrow> string" where
  "language_to_str C11 = ''c11''"
| "language_to_str CPP11 = ''cpp11''"
| "language_to_str PASCAL = ''pascal''"
| "language_to_str CPP14 = ''cpp14''"
| "language_to_str CPP17 = ''cpp17''"
| "language_to_str PYTHON = ''python''"
| "language_to_str RUST = ''rust''"
| "language_to_str CPP20 = ''cpp20''"
| "language_to_str CPP23 = ''cpp23''"
| "language_to_str C23 = ''c23''"

definition language_from_str :: "string \<Rightarrow> language option" where
  "language_from_str s =
     (if s = ''c11'' then Some C11
      else if s = ''cpp11'' then Some CPP11
      else if s = ''pascal'' then Some PASCAL
      else if s = ''cpp14'' then Some CPP14
      else if s = ''cpp17'' then Some CPP17
      else if s = ''python'' then Some PYTHON
      else if s = ''rust'' then Some RUST
      else if s = ''cpp20'' then Some CPP20
      else if s = ''cpp23'' then Some CPP23
      else if s = ''c23'' then Some C23
      else None)"

lemma language_to_int_inj [simp]: "language_to_int x = language_to_int y \<longleftrightarrow> x = y"
  by (cases x; cases y) simp_all

lemma language_from_to_str [simp]: "language_from_str (language_to_str x) = Some x"
  by (cases x) (simp_all add: language_from_str_def)

lemma language_from_str_SomeD: "language_from_str s = Some x \<Longrightarrow> s = language_to_str x"
  by (auto simp: language_from_str_def split: if_splits)

text \<open>\<open>Job::Status\<close>\<close>

datatype job_status =
    Job_PENDING
  | Job_IN_PROGRESS
  | Job_DONE
  | Job_FAILED
  | Job_CANCELLED

fun job_status_to_int :: "job_status \<Rightarrow> u8" where
  "job_status_to_int Job_PENDING = 1"
| "job_status_to_int Job_IN_PROGRESS = 3"
| "job_status_to_int Job_DONE = 4"
| "job_status_to_int Job_FAILED = 5"
| "job_status_to_int Job_CANCELLED = 6"

fun job_status_to_str :: "job_status \<Rightarrow> string" where
  "job_status_to_str Job_PENDING = ''pending''"
| "job_status_to_str Job_IN_PROGRESS = ''in_progress''"
| "job_status_to_str Job_DONE = ''done''"
| "job_status_to_str Job_FAILED = ''failed''"
| "job_status_to_str Job_CANCELLED = ''cancelled''"

definition job_status_from_str :: "string \<Rightarrow> job_status option" where
  "job_status_from_str s =
     (if s = ''pending'' then Some Job_PENDING
      else if s = ''in_progress'' then Some Job_IN_PROGRESS
      else if s = ''done'' then Some Job_DONE
      else if s = ''failed'' then Some Job_FAILED
      else if s = ''cancelled'' then Some Job_CANCELLED
      else None)"

lemma job_status_to_int_inj [simp]: "job_status_to_int x = job_status_to_int y \<longleftrightarrow> x = y"
  by (cases x; cases y) simp_all

lemma job_status_from_to_str [simp]: "job_status_from_str (job_status_to_str x) = Some x"
  by (cases x) (simp_all add: job_status_from_str_def)

lemma job_status_from_str_SomeD: "job_status_from_str s = Some x \<Longrightarrow> s = job_status_to_str x"
  by (auto simp: job_status_from_str_def split: if_splits)

text \<open>\<open>Job::Type\<close>\<close>

datatype job_type =
    JUDGE_SUBMISSION
  | ADD_PROBLEM
  | REUPLOAD_PROBLEM
  | EDIT_PROBLEM
  | DELETE_PROBLEM
  | RESELECT_FINAL_SUBMISSIONS_IN_CONTEST_PROBLEM
  | DELETE_USER
  | DELETE_CONTEST
  | DELETE_CONTEST_ROUND
  | DELETE_CONTEST_PROBLEM
  | RESET_PROBLEM_TIME_LIMITS_USING_MODEL_SOLUTION
  | MERGE_PROBLEMS
  | REJUDGE_SUBMISSION
  | DELETE_INTERNAL_FILE
  | CHANGE_PROBLEM_STATEMENT
  | MERGE_USERS

fun job_type_to_int :: "job_type \<Rightarrow> u8" where
  "job_type_to_int JUDGE_SUBMISSION = 1"
| "job_type_to_int ADD_PROBLEM = 2"
| "job_type_to_int REUPLOAD_PROBLEM = 3"
| "job_type_to_int EDIT_PROBLEM = 6"
| "job_type_to_int DELETE_PROBLEM = 7"
| "job_type_to_int RESELECT_FINAL_SUBMISSIONS_IN_CONTEST_PROBLEM = 8"
| "job_type_to_int DELETE_USER = 9"
| "job_type_to_int DELETE_CONTEST = 10"
| "job_type_to_int DELETE_CONTEST_ROUND = 11"
| "job_type_to_int DELETE_CONTEST_PROBLEM = 12"
| "job_type_to_int RESET_PROBLEM_TIME_LIMITS_USING_MODEL_SOLUTION = 13"
| "job_type_to_int MERGE_PROBLEMS = 14"
| "job_type_to_int REJUDGE_SUBMISSION = 15"
| "job_type_to_int DELETE_INTERNAL_FILE = 16"
| "job_type_to_int CHANGE_PROBLEM_STATEMENT = 17"
| "job_type_to_int MERGE_USERS = 18"

fun job_type_to_str :: "job_type \<Rightarrow> string" where
  "job_type_to_str JUDGE_SUBMISSION = ''judge_submission''"
| "job_type_to_str ADD_PROBLEM = ''add_problem''"
| "job_type_to_str REUPLOAD_PROBLEM = ''reupload_problem''"
| "job_type_to_str EDIT_PROBLEM = ''edit_problem''"
| "job_type_to_str DELETE_PROBLEM = ''delete_problem''"
| "job_type_to_str RESELECT_FINAL_SUBMISSIONS_IN_CONTEST_PROBLEM = ''reselect_final_submissions_in_contest_problem''"
| "job_type_to_str DELETE_USER = ''delete_user''"
| "job_type_to_str DELETE_CONTEST = ''delete_contest''"
| "job_type_to_str DELETE_CONTEST_ROUND = ''delete_contest_round''"
| "job_type_to_str DELETE_CONTEST_PROBLEM = ''delete_contest_problem''"
| "job_type_to_str RESET_PROBLEM_TIME_LIMITS_USING_MODEL_SOLUTION = ''reset_problem_time_limits_using_model_solution''"
| "job_type_to_str MERGE_PROBLEMS = ''merge_problems''"
| "job_type_to_str REJUDGE_SUBMISSION = ''rejudge_submission''"
| "job_type_to_str DELETE_INTERNAL_FILE = ''delete_internal_file''"
| "job_type_to_str CHANGE_PROBLEM_STATEMENT = ''change_problem_statement''"
| "job_type_to_str MERGE_USERS = ''merge_users''"

definition job_type_from_str :: "string \<Rightarrow> job_type option" where
  "job_type_from_str s =
     (if s = ''judge_submission'' then Some JUDGE_SUBMISSION
      else if s = ''add_problem'' then Some ADD_PROBLEM
      else if s = ''reupload_problem'' then Some REUPLOAD_PROBLEM
      else if s = ''edit_problem'' then Some EDIT_PROBLEM
      else if s = ''delete_problem'' then Some DELETE_PROBLEM
      else if s = ''reselect_final_submissions_in_contest_problem'' then Some RESELECT_FINAL_SUBMISSIONS_IN_CONTEST_PROBLEM
      else if s = ''delete_user'' then Some DELETE_USER
      else if s = ''delete_contest'' then Some DELETE_CONTEST
      else if s = ''delete_contest_round'' then Some DELETE_CONTEST_ROUND
      else if s = ''delete_contest_problem'' then Some DELETE_CONTEST_PROBLEM
      else if s = ''reset_problem_time_limits_using_model_solution'' then Some RESET_PROBLEM_TIME_LIMITS_USING_MODEL_SOLUTION
      else if s = ''merge_problems'' then Some MERGE_PROBLEMS
      else if s = ''rejudge_submission'' then Some REJUDGE_SUBMISSION
      else if s = ''delete_internal_file'' then Some DELETE_INTERNAL_FILE
      else if s = ''change_problem_statement'' then Some CHANGE_PROBLEM_STATEMENT
      else if s = ''merge_users'' then Some MERGE_USERS
      else None)"

lemma job_type_to_int_inj [simp]: "job_type_to_int x = job_type_to_int y \<longleftrightarrow> x = y"
  by (cases x; cases y) simp_all

lemma job_type_from_to_str [simp]: "job_type_from_str (job_type_to_str x) = Some x"
  by (cases x) (simp_all add: job_type_from_str_def)

lemma job_type_from_str_SomeD: "job_type_from_str s = Some x \<Longrightarrow> s = job_type_to_str x"
  by (auto simp: job_type_from_str_def split: if_splits)
section \<open>Priorities and user names\<close>

text \<open>\<open>default_priority\<close>: the greater, the more important.\<close>

fun default_priority :: "job_type \<Rightarrow> u8" where
  "default_priority DELETE_INTERNAL_FILE = 40"
| "default_priority DELETE_PROBLEM = 30"
| "default_priority RESELECT_FINAL_SUBMISSIONS_IN_CONTEST_PROBLEM = 30"
| "default_priority DELETE_USER = 30"
| "default_priority DELETE_CONTEST = 30"
| "default_priority DELETE_CONTEST_ROUND = 30"
| "default_priority DELETE_CONTEST_PROBLEM = 30"
| "default_priority MERGE_USERS = 25"
| "default_priority MERGE_PROBLEMS = 25"
| "default_priority EDIT_PROBLEM = 25"
| "default_priority CHANGE_PROBLEM_STATEMENT = 25"
| "default_priority RESET_PROBLEM_TIME_LIMITS_USING_MODEL_SOLUTION = 20"
| "default_priority ADD_PROBLEM = 10"
| "default_priority REUPLOAD_PROBLEM = 10"
| "default_priority JUDGE_SUBMISSION = 5"
| "default_priority REJUDGE_SUBMISSION = 4"

definition is_alnum :: "char \<Rightarrow> bool" where
  "is_alnum c \<longleftrightarrow>
     (CHR ''0'' \<le> c \<and> c \<le> CHR ''9'') \<or> (CHR ''A'' \<le> c \<and> c \<le> CHR ''Z'') \<or>
     (CHR ''a'' \<le> c \<and> c \<le> CHR ''z'')"

definition is_username :: "string \<Rightarrow> bool" where
  "is_username s = list_all (\<lambda>c. is_alnum c \<or> c = CHR ''_'' \<or> c = CHR ''-'') s"

definition SIM_ROOT_ID :: id where
  "SIM_ROOT_ID = 1"

section \<open>Rows of the tables\<close>

text \<open>
  One record per table, with the columns of the C++ struct. A \<open>std::optional\<close> column is an
  \<open>option\<close>; identifiers are 64-bit words; blobs and strings are byte strings.
\<close>

record user =
  user_id :: id
  user_created_at :: datetime
  user_type :: user_type
  username :: string
  first_name :: string
  last_name :: string
  email :: string
  password_salt :: string
  password_hash :: string

record session_row =
  session_id :: string
  session_csrf_token :: string
  session_user_id :: id
  session_data :: string
  session_user_agent :: string
  session_expires :: datetime

record problem =
  problem_id :: id
  problem_created_at :: datetime
  problem_file_id :: id
  problem_visibility :: visibility
  problem_name :: string
  problem_label :: string
  problem_simfile :: string
  problem_owner_id :: "id option"
  problem_updated_at :: datetime

record problem_tag =
  tag_problem_id :: id
  tag_is_hidden :: bool
  tag_name :: string

record contest =
  contest_id :: id
  contest_created_at :: datetime
  contest_name :: string
  contest_is_public :: bool

record contest_round =
  round_id :: id
  round_created_at :: datetime
  round_contest_id :: id
  round_name :: string
  round_item :: id
  round_begins :: datetime
  round_ends :: datetime
  round_full_results :: datetime
  round_ranking_exposure :: datetime

record contest_problem =
  cp_id :: id
  cp_created_at :: datetime
  cp_round_id :: id
  cp_contest_id :: id
  cp_problem_id :: id
  cp_name :: string
  cp_item :: id
  cp_method :: final_method
  cp_score_revealing :: score_revealing

record contest_user =
  cu_user_id :: id
  cu_contest_id :: id
  cu_mode :: contest_user_mode

record contest_file =
  cf_id :: string
  cf_file_id :: id
  cf_contest_id :: id
  cf_name :: string
  cf_description :: string
  cf_file_size :: id
  cf_modified :: datetime
  cf_creator :: "id option"

record submission =
  sub_id :: id
  sub_created_at :: datetime
  sub_file_id :: id
  sub_user_id :: "id option"
  sub_problem_id :: id
  sub_cp_id :: "id option"
  sub_round_id :: "id option"
  sub_contest_id :: "id option"
  sub_type :: submission_type
  sub_language :: language
  sub_initial_final_candidate :: bool
  sub_final_candidate :: bool
  sub_problem_final :: bool
  sub_cp_final :: bool
  sub_cp_initial_final :: bool
  sub_initial_status :: submission_status
  sub_full_status :: submission_status
  sub_score :: "int option"
  sub_last_judgment_began_at :: "datetime option"
  sub_initial_report :: string
  sub_final_report :: string

record job =
  job_id :: id
  job_created_at :: datetime
  job_creator :: "id option"
  job_type :: job_type
  job_priority :: u8
  job_status :: job_status
  job_aux_id :: "id option"
  job_aux_id_2 :: "id option"
  job_log :: string

text \<open>The session of a web request: \<open>Context::Session\<close>.\<close>

record ctx_session =
  cs_id :: string
  cs_csrf_token :: string
  cs_user_id :: id
  cs_user_type :: user_type
  cs_username :: string
  cs_data :: string
  cs_orig_data :: string

end
