(* ===== verification/Capabilities.thy ===== *)
theory Capabilities
  imports Sim_Types
begin

text \<open>
  The capability computations of the web server (src/web_server/capabilities/): who may do what.
  Each C++ struct of one-bit flags is a record, each function a definition with one equation per
  designated initializer, in the order of the source. The session of the request is an optional
  \<open>ctx_session\<close>.
\<close>

section \<open>utils.hh\<close>

definition is_admin :: "ctx_session option \<Rightarrow> bool" where
  "is_admin session = (case session of None \<Rightarrow> False | Some s \<Rightarrow> cs_user_type s = User_ADMIN)"

definition is_teacher :: "ctx_session option \<Rightarrow> bool" where
  "is_teacher session = (case session of None \<Rightarrow> False | Some s \<Rightarrow> cs_user_type s = User_TEACHER)"

definition is_self :: "ctx_session option \<Rightarrow> id \<Rightarrow> bool" where
  "is_self session uid = (case session of None \<Rightarrow> False | Some s \<Rightarrow> cs_user_id s = uid)"

definition is_self_opt :: "ctx_session option \<Rightarrow> id option \<Rightarrow> bool" where
  "is_self_opt session opt_uid =
     (case session of None \<Rightarrow> False
      | Some s \<Rightarrow> (case opt_uid of None \<Rightarrow> False | Some uid \<Rightarrow> cs_user_id s = uid))"

lemma is_admin_simps [simp]:
  "\<not> is_admin None"
  "is_admin (Some s) = (cs_user_type s = User_ADMIN)"
  by (simp_all add: is_admin_def)

lemma is_teacher_simps [simp]:
  "\<not> is_teacher None"
  "is_teacher (Some s) = (cs_user_type s = User_TEACHER)"
  by (simp_all add: is_teacher_def)

lemma is_self_simps [simp]:
  "\<not> is_self None u"
  "is_self (Some s) u = (cs_user_id s = u)"
  by (simp_all add: is_self_def)

lemma is_self_opt_simps [simp]:
  "\<not> is_self_opt None ou"
  "\<not> is_self_opt session None"
  "is_self_opt (Some s) (Some u) = (cs_user_id s = u)"
  by (auto simp: is_self_opt_def split: option.split)

section \<open>contest.cc\<close>

record contest_node_caps =
  cn_view :: bool
  cn_edit :: bool
  cn_delete :: bool
  cn_view_my_submissions :: bool
  cn_view_all_submissions :: bool
  cn_view_final_submissions :: bool
  cn_view_ranking :: bool
  cn_view_fully_revealed_ranking :: bool

record contest_caps =
  co_node :: contest_node_caps
  co_make_public :: bool
  co_make_private :: bool
  co_change_name :: bool
  co_view_all_rounds :: bool
  co_add_round :: bool
  co_view_all_problems :: bool
  co_files_view :: bool
  co_files_view_creator :: bool
  co_files_add :: bool
  co_users_view :: bool
  co_users_add_owner :: bool
  co_users_add_moderator :: bool
  co_users_add_contestant :: bool
  co_entry_tokens_view :: bool

definition contest_for :: "ctx_session option \<Rightarrow> bool \<Rightarrow> contest_user_mode option \<Rightarrow> contest_caps" where
  "contest_for session public contest_user_mode =
     (let is_contest_moderator = is_admin session \<or>
            contest_user_mode \<in> {Some OWNER, Some MODERATOR};
          has_access = is_admin session \<or> public \<or> contest_user_mode \<noteq> None
      in \<lparr> co_node = \<lparr>
             cn_view = has_access,
             cn_edit = is_contest_moderator,
             cn_delete = is_admin session \<or> contest_user_mode = Some OWNER,
             cn_view_my_submissions = has_access \<and> session \<noteq> None,
             cn_view_all_submissions = is_contest_moderator,
             cn_view_final_submissions = is_contest_moderator,
             cn_view_ranking = has_access,
             cn_view_fully_revealed_ranking = is_contest_moderator \<rparr>,
           co_make_public = is_admin session,
           co_make_private = is_contest_moderator,
           co_change_name = is_contest_moderator,
           co_view_all_rounds = is_contest_moderator,
           co_add_round = is_contest_moderator,
           co_view_all_problems = is_contest_moderator,
           co_files_view = has_access,
           co_files_view_creator = is_contest_moderator,
           co_files_add = is_contest_moderator,
           co_users_view = is_contest_moderator,
           co_users_add_owner = is_admin session \<or> contest_user_mode = Some OWNER,
           co_users_add_moderator = is_contest_moderator,
           co_users_add_contestant = is_contest_moderator,
           co_entry_tokens_view = is_contest_moderator \<rparr>)"

text \<open>
  The overload that reads the database. The signed-in query joins the contest with the row of
  \<open>contest_users\<close> for the session's user (a LEFT JOIN: no row gives NULL); the anonymous query
  reads \<open>is_public\<close> alone. No contest row: \<open>std::nullopt\<close>.
\<close>

definition contest_user_mode_of :: "contest_user list \<Rightarrow> id \<Rightarrow> id \<Rightarrow> contest_user_mode option" where
  "contest_user_mode_of cus cid uid =
     map_option cu_mode (find (\<lambda>cu. cu_contest_id cu = cid \<and> cu_user_id cu = uid) cus)"

definition contest_for_id ::
  "contest list \<Rightarrow> contest_user list \<Rightarrow> ctx_session option \<Rightarrow> id
    \<Rightarrow> (contest_caps \<times> contest_user_mode option) option" where
  "contest_for_id contests cus session cid =
     (case find (\<lambda>c. contest_id c = cid) contests of
        None \<Rightarrow> None
      | Some c \<Rightarrow>
          (let mode = (case session of
                         Some s \<Rightarrow> contest_user_mode_of cus cid (cs_user_id s)
                       | None \<Rightarrow> None)
           in Some (contest_for session (contest_is_public c) mode, mode)))"

section \<open>contest_entry_token.cc\<close>

datatype contest_entry_token_kind = Token_NORMAL | Token_SHORT

record contest_entry_token_caps =
  tok_view :: bool
  tok_create :: bool
  tok_regenerate :: bool
  tok_delete :: bool
  tok_use :: bool
  tok_view_contest_name :: bool

fun contest_entry_token_for ::
  "contest_entry_token_kind \<Rightarrow> ctx_session option \<Rightarrow> contest_caps \<Rightarrow> contest_user_mode option
    \<Rightarrow> contest_entry_token_caps" where
  "contest_entry_token_for token_kind session caps_contest contest_user_mode =
     (let is_contest_moderator = cn_view (co_node caps_contest) \<and>
            (is_admin session \<or> contest_user_mode \<in> {Some OWNER, Some MODERATOR})
      in \<lparr> tok_view = is_contest_moderator,
           tok_create = is_contest_moderator,
           tok_regenerate = is_contest_moderator,
           tok_delete = is_contest_moderator,
           tok_use = (session \<noteq> None),
           tok_view_contest_name = True \<rparr>)"

section \<open>contests.cc, logs.cc\<close>

record contests_caps =
  cs_web_ui_view :: bool
  cs_view_all :: bool
  cs_view_public :: bool
  cs_add_private :: bool
  cs_add_public :: bool

definition contests_for :: "ctx_session option \<Rightarrow> contests_caps" where
  "contests_for session =
     \<lparr> cs_web_ui_view = True,
       cs_view_all = is_admin session,
       cs_view_public = True,
       cs_add_private = is_admin session \<or> is_teacher session,
       cs_add_public = is_admin session \<rparr>"

definition logs_for_view :: "ctx_session option \<Rightarrow> bool" where
  "logs_for_view session = is_admin session"

section \<open>problems.cc\<close>

record problems_caps =
  ps_web_ui_view :: bool
  ps_add_problem :: bool
  ps_add_problem_with_visibility_private :: bool
  ps_add_problem_with_visibility_contest_only :: bool
  ps_add_problem_with_visibility_public :: bool

definition problems_caps_of :: "ctx_session option \<Rightarrow> problems_caps" where
  "problems_caps_of session =
     \<lparr> ps_web_ui_view = True,
       ps_add_problem = is_admin session \<or> is_teacher session,
       ps_add_problem_with_visibility_private = is_admin session \<or> is_teacher session,
       ps_add_problem_with_visibility_contest_only = is_admin session \<or> is_teacher session,
       ps_add_problem_with_visibility_public = is_admin session \<rparr>"

record problems_list_caps =
  pl_query_all :: bool
  pl_query_with_visibility_public :: bool
  pl_query_with_visibility_contest_only :: bool
  pl_query_with_visibility_private :: bool
  pl_view_all_with_visibility_public :: bool
  pl_view_all_with_visibility_contest_only :: bool
  pl_view_all_with_visibility_private :: bool

definition list_user_problems :: "ctx_session option \<Rightarrow> id \<Rightarrow> problems_list_caps" where
  "list_user_problems session uid =
     \<lparr> pl_query_all = is_self session uid \<or> is_admin session,
       pl_query_with_visibility_public = is_self session uid \<or> is_admin session,
       pl_query_with_visibility_contest_only = is_self session uid \<or> is_admin session,
       pl_query_with_visibility_private = is_self session uid \<or> is_admin session,
       pl_view_all_with_visibility_public = is_self session uid \<or> is_admin session,
       pl_view_all_with_visibility_contest_only = is_self session uid \<or> is_admin session,
       pl_view_all_with_visibility_private = is_self session uid \<or> is_admin session \<rparr>"

definition list_problems :: "ctx_session option \<Rightarrow> problems_list_caps" where
  "list_problems session =
     \<lparr> pl_query_all = True,
       pl_query_with_visibility_public = True,
       pl_query_with_visibility_contest_only = is_admin session \<or> is_teacher session \<or>
         (case session of None \<Rightarrow> False
          | Some s \<Rightarrow> pl_query_with_visibility_contest_only (list_user_problems session (cs_user_id s))),
       pl_query_with_visibility_private = is_admin session \<or> is_teacher session \<or>
         (case session of None \<Rightarrow> False
          | Some s \<Rightarrow> pl_query_with_visibility_private (list_user_problems session (cs_user_id s))),
       pl_view_all_with_visibility_public = True,
       pl_view_all_with_visibility_contest_only = is_admin session \<or> is_teacher session,
       pl_view_all_with_visibility_private = is_admin session \<rparr>"

record problem_caps =
  p_view :: bool
  p_view_statement :: bool
  p_view_public_tags :: bool
  p_view_hidden_tags :: bool
  p_view_solutions :: bool
  p_view_simfile :: bool
  p_view_owner :: bool
  p_view_creation_time :: bool
  p_view_update_time :: bool
  p_view_final_submission_full_status :: bool
  p_download :: bool
  p_create_submission :: bool
  p_edit :: bool
  p_reupload :: bool
  p_rejudge_all_submissions :: bool
  p_reset_time_limits :: bool
  p_delete :: bool
  p_merge_into_another_problem :: bool
  p_merge_other_problem_into_this_problem :: bool

definition problem_caps_of :: "ctx_session option \<Rightarrow> visibility \<Rightarrow> id option \<Rightarrow> problem_caps" where
  "problem_caps_of session visib owner_id =
     (let is_owned = (case owner_id of None \<Rightarrow> False | Some o_id \<Rightarrow> is_self session o_id);
          is_public = (visib = PUBLIC);
          is_contest_only = (visib = CONTEST_ONLY);
          view = is_public \<or> is_owned \<or> is_admin session \<or> (is_teacher session \<and> is_contest_only)
      in \<lparr> p_view = view,
           p_view_statement = view,
           p_view_public_tags = view,
           p_view_hidden_tags = view \<and> (is_admin session \<or> is_teacher session \<or> is_owned),
           p_view_solutions = is_admin session \<or> is_owned \<or> (is_teacher session \<and> is_public),
           p_view_simfile = is_admin session \<or> is_owned \<or>
             (is_teacher session \<and> (is_public \<or> is_contest_only)),
           p_view_owner = is_admin session \<or> is_owned \<or>
             (is_teacher session \<and> (is_public \<or> is_contest_only)),
           p_view_creation_time = is_admin session \<or> is_owned \<or>
             (is_teacher session \<and> (is_public \<or> is_contest_only)),
           p_view_update_time = is_admin session \<or> is_owned \<or>
             (is_teacher session \<and> (is_public \<or> is_contest_only)),
           p_view_final_submission_full_status = view \<and> session \<noteq> None,
           p_download = is_admin session \<or> is_owned \<or> (is_teacher session \<and> is_public),
           p_create_submission = view \<and> session \<noteq> None,
           p_edit = is_admin session \<or> is_owned,
           p_reupload = is_admin session \<or> is_owned,
           p_rejudge_all_submissions = is_admin session \<or> is_owned,
           p_reset_time_limits = is_admin session \<or> is_owned,
           p_delete = is_admin session \<or> is_owned,
           p_merge_into_another_problem = is_admin session \<or> is_owned,
           p_merge_other_problem_into_this_problem = is_admin session \<or> is_owned \<rparr>)"

section \<open>users.cc\<close>

record users_caps =
  us_web_ui_view :: bool
  us_add_user :: bool
  us_add_admin :: bool
  us_add_teacher :: bool
  us_add_normal_user :: bool
  us_sign_in :: bool
  us_sign_up :: bool
  us_sign_out :: bool

definition users_caps_of :: "ctx_session option \<Rightarrow> users_caps" where
  "users_caps_of session =
     \<lparr> us_web_ui_view = is_admin session,
       us_add_user = is_admin session,
       us_add_admin = (case session of None \<Rightarrow> False | Some s \<Rightarrow> cs_user_id s = SIM_ROOT_ID),
       us_add_teacher = is_admin session,
       us_add_normal_user = is_admin session,
       us_sign_in = True,
       us_sign_up = True,
       us_sign_out = (session \<noteq> None) \<rparr>"

record users_list_caps =
  ul_query_all :: bool
  ul_query_with_type_admin :: bool
  ul_query_with_type_teacher :: bool
  ul_query_with_type_normal :: bool
  ul_view_all_with_type_admin :: bool
  ul_view_all_with_type_teacher :: bool
  ul_view_all_with_type_normal :: bool

definition list_users_caps :: "ctx_session option \<Rightarrow> users_list_caps" where
  "list_users_caps session =
     \<lparr> ul_query_all = is_admin session,
       ul_query_with_type_admin = is_admin session,
       ul_query_with_type_teacher = is_admin session,
       ul_query_with_type_normal = is_admin session,
       ul_view_all_with_type_admin = is_admin session,
       ul_view_all_with_type_teacher = is_admin session,
       ul_view_all_with_type_normal = is_admin session \<rparr>"

record user_caps =
  u_view :: bool
  u_edit :: bool
  u_edit_username :: bool
  u_edit_first_name :: bool
  u_edit_last_name :: bool
  u_edit_email :: bool
  u_change_password :: bool
  u_change_password_without_old_password :: bool
  u_change_type :: bool
  u_make_admin :: bool
  u_make_teacher :: bool
  u_make_normal :: bool
  u_delete :: bool
  u_merge_into_another_user :: bool
  u_merge_someone_into_this_user :: bool

definition user_caps_of :: "ctx_session option \<Rightarrow> id \<Rightarrow> user_type \<Rightarrow> user_caps" where
  "user_caps_of session uid utype =
     (let admin = is_admin session;
          teacher = is_teacher session;
          self = is_self session uid;
          edit = self \<or> (admin \<and> uid \<noteq> SIM_ROOT_ID);
          make_admin = (case session of None \<Rightarrow> False | Some s \<Rightarrow> cs_user_id s = SIM_ROOT_ID) \<or>
            (edit \<and> utype = User_ADMIN);
          make_teacher = uid \<noteq> SIM_ROOT_ID \<and> (admin \<or> (edit \<and> utype = User_TEACHER));
          make_normal = uid \<noteq> SIM_ROOT_ID \<and>
            (admin \<or> (teacher \<and> self) \<or> (edit \<and> utype = User_NORMAL))
      in \<lparr> u_view = self \<or> admin,
           u_edit = edit,
           u_edit_username = self \<or> (admin \<and> uid \<noteq> SIM_ROOT_ID),
           u_edit_first_name = self \<or> (admin \<and> uid \<noteq> SIM_ROOT_ID),
           u_edit_last_name = self \<or> (admin \<and> uid \<noteq> SIM_ROOT_ID),
           u_edit_email = self \<or> (admin \<and> uid \<noteq> SIM_ROOT_ID),
           u_change_password = self \<or> (admin \<and> uid \<noteq> SIM_ROOT_ID),
           u_change_password_without_old_password =
             \<not> self \<and> admin \<and> uid \<noteq> SIM_ROOT_ID,
           u_change_type = make_admin \<or> make_teacher \<or> make_normal,
           u_make_admin = make_admin,
           u_make_teacher = make_teacher,
           u_make_normal = make_normal,
           u_delete = uid \<noteq> SIM_ROOT_ID \<and> (self \<or> admin),
           u_merge_into_another_user = uid \<noteq> SIM_ROOT_ID \<and> admin,
           u_merge_someone_into_this_user = uid \<noteq> SIM_ROOT_ID \<rparr>)"

section \<open>jobs.cc\<close>

definition jobs_web_ui_view :: "ctx_session option \<Rightarrow> bool" where
  "jobs_web_ui_view session = is_admin session"

record jobs_list_caps =
  jl_query_all :: bool
  jl_query_with_status_pending :: bool
  jl_query_with_status_in_progress :: bool
  jl_query_with_status_done :: bool
  jl_query_with_status_failed :: bool
  jl_query_with_status_cancelled :: bool

definition list_jobs_caps :: "ctx_session option \<Rightarrow> jobs_list_caps" where
  "list_jobs_caps session =
     \<lparr> jl_query_all = is_admin session,
       jl_query_with_status_pending = is_admin session,
       jl_query_with_status_in_progress = is_admin session,
       jl_query_with_status_done = is_admin session,
       jl_query_with_status_failed = is_admin session,
       jl_query_with_status_cancelled = is_admin session \<rparr>"

definition list_problem_jobs_caps :: "ctx_session option \<Rightarrow> id option \<Rightarrow> jobs_list_caps" where
  "list_problem_jobs_caps session owner_id =
     (let owns_problem = is_self_opt session owner_id
      in \<lparr> jl_query_all = is_admin session \<or> owns_problem,
           jl_query_with_status_pending = is_admin session \<or> owns_problem,
           jl_query_with_status_in_progress = is_admin session \<or> owns_problem,
           jl_query_with_status_done = is_admin session \<or> owns_problem,
           jl_query_with_status_failed = is_admin session \<or> owns_problem,
           jl_query_with_status_cancelled = is_admin session \<or> owns_problem \<rparr>)"

text \<open>The switch on the contest user mode, written as a lambda in jobs.cc and as a function
  in submissions.cc.\<close>

fun at_least_moderates_contest :: "contest_user_mode option \<Rightarrow> bool" where
  "at_least_moderates_contest None = False"
| "at_least_moderates_contest (Some OWNER) = True"
| "at_least_moderates_contest (Some MODERATOR) = True"
| "at_least_moderates_contest (Some CONTESTANT) = False"

definition list_submission_jobs_caps ::
  "ctx_session option \<Rightarrow> id option \<Rightarrow> contest_user_mode option \<Rightarrow> jobs_list_caps" where
  "list_submission_jobs_caps session submission_problem_owner_id mode =
     (let owns_problem = is_self_opt session submission_problem_owner_id;
          moderates = at_least_moderates_contest mode
      in \<lparr> jl_query_all = is_admin session \<or> owns_problem \<or> moderates,
           jl_query_with_status_pending = is_admin session \<or> owns_problem \<or> moderates,
           jl_query_with_status_in_progress = is_admin session \<or> owns_problem \<or> moderates,
           jl_query_with_status_done = is_admin session \<or> owns_problem \<or> moderates,
           jl_query_with_status_failed = is_admin session \<or> owns_problem \<or> moderates,
           jl_query_with_status_cancelled = is_admin session \<or> owns_problem \<or> moderates \<rparr>)"

record job_caps =
  jc_view :: bool
  jc_view_log :: bool
  jc_download_attached_file :: bool
  jc_cancel :: bool
  jc_restart :: bool
  jc_change_priority :: bool

definition job_caps_of ::
  "ctx_session option \<Rightarrow> job_type \<Rightarrow> id option \<Rightarrow> id option \<Rightarrow> id option
    \<Rightarrow> contest_user_mode option \<Rightarrow> job_caps" where
  "job_caps_of session jtype job_problem_owner_id job_problem_2_owner_id
     job_submission_problem_owner_id job_submission_contest_user_mode_of_session_user =
     (if jtype \<in> {JUDGE_SUBMISSION, REJUDGE_SUBMISSION} then
        let owns_problem = is_self_opt session job_submission_problem_owner_id;
            moderates = at_least_moderates_contest job_submission_contest_user_mode_of_session_user
        in \<lparr> jc_view = is_admin session \<or> owns_problem \<or> moderates,
             jc_view_log = is_admin session \<or> owns_problem,
             jc_download_attached_file = False,
             jc_cancel = is_admin session,
             jc_restart = is_admin session,
             jc_change_priority = is_admin session \<rparr>
      else if jtype \<in> {ADD_PROBLEM, REUPLOAD_PROBLEM, EDIT_PROBLEM, DELETE_PROBLEM, MERGE_PROBLEMS,
                       CHANGE_PROBLEM_STATEMENT, RESET_PROBLEM_TIME_LIMITS_USING_MODEL_SOLUTION} then
        let owns_problem = is_self_opt session job_problem_owner_id \<or>
              is_self_opt session job_problem_2_owner_id
        in \<lparr> jc_view = is_admin session \<or> owns_problem,
             jc_view_log = is_admin session \<or> owns_problem,
             jc_download_attached_file =
               jtype \<in> {ADD_PROBLEM, REUPLOAD_PROBLEM, CHANGE_PROBLEM_STATEMENT},
             jc_cancel = is_admin session \<or> owns_problem,
             jc_restart = is_admin session \<or> owns_problem,
             jc_change_priority = is_admin session \<rparr>
      else
        \<lparr> jc_view = is_admin session,
          jc_view_log = is_admin session,
          jc_download_attached_file = False,
          jc_cancel = is_admin session,
          jc_restart = is_admin session,
          jc_change_priority = is_admin session \<rparr>)"

section \<open>submissions.cc\<close>

definition submissions_web_ui_view :: "ctx_session option \<Rightarrow> bool" where
  "submissions_web_ui_view session = (session \<noteq> None)"

record submissions_list_caps =
  sl_query_all :: bool
  sl_query_with_type_final :: bool
  sl_query_with_type_problem_final :: bool
  sl_query_with_type_contest_problem_final :: bool
  sl_query_with_type_ignored :: bool
  sl_query_with_type_problem_solution :: bool
  sl_query_with_status_judge_error :: bool

record user_submissions_list_caps =
  usl_query_all :: bool
  usl_query_with_type_final :: bool
  usl_query_with_type_problem_final :: bool
  usl_query_with_type_contest_problem_final :: bool
  usl_query_with_type_ignored :: bool

record contest_submissions_list_caps =
  csl_query_all :: bool
  csl_query_with_type_contest_problem_final :: bool
  csl_query_with_type_ignored :: bool

record contest_and_user_submissions_list_caps =
  cusl_query_all :: bool
  cusl_query_with_type_contest_problem_final :: bool
  cusl_query_with_type_contest_problem_final_always_show_full_results :: bool
  cusl_query_with_type_ignored :: bool

record contest_round_and_user_submissions_list_caps =
  crusl_query_all :: bool
  crusl_query_with_type_contest_problem_final :: bool
  crusl_query_with_type_contest_problem_final_show_full_instead_of_initial_results :: bool
  crusl_query_with_type_ignored :: bool

definition list_submissions_caps :: "ctx_session option \<Rightarrow> submissions_list_caps" where
  "list_submissions_caps session =
     \<lparr> sl_query_all = is_admin session,
       sl_query_with_type_final = is_admin session,
       sl_query_with_type_problem_final = is_admin session,
       sl_query_with_type_contest_problem_final = is_admin session,
       sl_query_with_type_ignored = is_admin session,
       sl_query_with_type_problem_solution = is_admin session,
       sl_query_with_status_judge_error = is_admin session \<rparr>"

definition list_user_submissions_caps ::
  "ctx_session option \<Rightarrow> id \<Rightarrow> user_submissions_list_caps" where
  "list_user_submissions_caps session uid =
     \<lparr> usl_query_all = is_self session uid \<or> is_admin session,
       usl_query_with_type_final = is_admin session,
       usl_query_with_type_problem_final = is_admin session,
       usl_query_with_type_contest_problem_final = is_admin session,
       usl_query_with_type_ignored = is_self session uid \<or> is_admin session \<rparr>"

definition list_problem_submissions_caps ::
  "ctx_session option \<Rightarrow> id option \<Rightarrow> submissions_list_caps" where
  "list_problem_submissions_caps session owner_id =
     (let owns_problem = (case owner_id of None \<Rightarrow> False | Some o_id \<Rightarrow> is_self session o_id)
      in \<lparr> sl_query_all = is_admin session \<or> owns_problem,
           sl_query_with_type_final = is_admin session \<or> owns_problem,
           sl_query_with_type_problem_final = is_admin session \<or> owns_problem,
           sl_query_with_type_contest_problem_final = is_admin session \<or> owns_problem,
           sl_query_with_type_ignored = is_admin session \<or> owns_problem,
           sl_query_with_type_problem_solution = is_admin session \<or> owns_problem,
           sl_query_with_status_judge_error = False \<rparr>)"

definition list_problem_and_user_submissions_caps ::
  "ctx_session option \<Rightarrow> visibility \<Rightarrow> id option \<Rightarrow> id \<Rightarrow> user_submissions_list_caps" where
  "list_problem_and_user_submissions_caps session visib owner_id uid =
     (let lps = list_problem_submissions_caps session owner_id;
          pc = problem_caps_of session visib owner_id
      in \<lparr> usl_query_all = sl_query_all lps \<or> (p_view pc \<and> is_self session uid),
           usl_query_with_type_final = sl_query_with_type_final lps,
           usl_query_with_type_problem_final =
             sl_query_with_type_problem_final lps \<or> (p_view pc \<and> is_self session uid),
           usl_query_with_type_contest_problem_final = sl_query_with_type_contest_problem_final lps,
           usl_query_with_type_ignored =
             sl_query_with_type_ignored lps \<or> (p_view pc \<and> is_self session uid) \<rparr>)"

definition list_contest_submissions_caps ::
  "ctx_session option \<Rightarrow> contest_user_mode option \<Rightarrow> contest_submissions_list_caps" where
  "list_contest_submissions_caps session mode =
     (let moderates = at_least_moderates_contest mode
      in \<lparr> csl_query_all = is_admin session \<or> moderates,
           csl_query_with_type_contest_problem_final = is_admin session \<or> moderates,
           csl_query_with_type_ignored = is_admin session \<or> moderates \<rparr>)"

definition list_contest_and_user_submissions_caps ::
  "ctx_session option \<Rightarrow> contest_user_mode option \<Rightarrow> id
    \<Rightarrow> contest_and_user_submissions_list_caps" where
  "list_contest_and_user_submissions_caps session mode uid =
     (let cs = list_contest_submissions_caps session mode
      in \<lparr> cusl_query_all = csl_query_all cs \<or> is_self session uid,
           cusl_query_with_type_contest_problem_final =
             csl_query_with_type_contest_problem_final cs \<or> is_self session uid,
           cusl_query_with_type_contest_problem_final_always_show_full_results =
             csl_query_with_type_contest_problem_final cs,
           cusl_query_with_type_ignored = csl_query_with_type_ignored cs \<or> is_self session uid \<rparr>)"

definition list_contest_round_and_user_submissions_caps ::
  "ctx_session option \<Rightarrow> contest_user_mode option \<Rightarrow> id \<Rightarrow> datetime \<Rightarrow> datetime
    \<Rightarrow> contest_round_and_user_submissions_list_caps" where
  "list_contest_round_and_user_submissions_caps session mode uid full_results curr_datetime =
     (let cus = list_contest_and_user_submissions_caps session mode uid
      in \<lparr> crusl_query_all = cusl_query_all cus,
           crusl_query_with_type_contest_problem_final =
             cusl_query_with_type_contest_problem_final cus,
           crusl_query_with_type_contest_problem_final_show_full_instead_of_initial_results =
             cusl_query_with_type_contest_problem_final_always_show_full_results cus \<or>
             curr_datetime \<ge> full_results,
           crusl_query_with_type_ignored = cusl_query_with_type_ignored cus \<rparr>)"

record submission_caps =
  sc_view :: bool
  sc_view_initial_status :: bool
  sc_view_full_status :: bool
  sc_view_initial_judgement_protocol :: bool
  sc_view_full_judgement_protocol :: bool
  sc_view_score :: bool
  sc_view_if_problem_final :: bool
  sc_view_if_contest_problem_initial_final :: bool
  sc_view_if_contest_problem_final :: bool
  sc_download :: bool
  sc_change_type :: bool
  sc_rejudge :: bool
  sc_delete :: bool
  sc_view_related_jobs :: bool

text \<open>The lambdas of \<open>submission\<close>, with the null check of the optional in front of them.\<close>

fun reveals_score :: "score_revealing option \<Rightarrow> bool" where
  "reveals_score None = False"
| "reveals_score (Some Reveal_NONE) = False"
| "reveals_score (Some ONLY_SCORE) = True"
| "reveals_score (Some SCORE_AND_FULL_STATUS) = True"

fun reveals_full_status :: "score_revealing option \<Rightarrow> bool" where
  "reveals_full_status None = False"
| "reveals_full_status (Some Reveal_NONE) = False"
| "reveals_full_status (Some ONLY_SCORE) = False"
| "reveals_full_status (Some SCORE_AND_FULL_STATUS) = True"

fun final_visible_before_full_results ::
  "final_method option \<Rightarrow> score_revealing option \<Rightarrow> bool" where
  "final_visible_before_full_results None rv = False"
| "final_visible_before_full_results (Some LATEST_COMPILING) rv = True"
| "final_visible_before_full_results (Some HIGHEST_SCORE) rv =
     (reveals_score rv \<and> reveals_full_status rv)"

fun may_change_type_or_delete :: "submission_type \<Rightarrow> bool" where
  "may_change_type_or_delete Sub_NORMAL = True"
| "may_change_type_or_delete Sub_IGNORED = True"
| "may_change_type_or_delete Sub_PROBLEM_SOLUTION = False"

text \<open>
  \<open>curr_datetime >= *full_results\<close>. The source dereferences the optional only under
  \<open>is_contest_submission\<close>, so the \<open>None\<close> case below is never reached.
\<close>

definition full_results_reached :: "datetime \<Rightarrow> datetime option \<Rightarrow> bool" where
  "full_results_reached curr_datetime full_results =
     (case full_results of None \<Rightarrow> False | Some fr \<Rightarrow> curr_datetime \<ge> fr)"

definition submission_caps_of ::
  "ctx_session option \<Rightarrow> id option \<Rightarrow> submission_type \<Rightarrow> visibility \<Rightarrow> id option
    \<Rightarrow> contest_user_mode option \<Rightarrow> datetime option \<Rightarrow> final_method option
    \<Rightarrow> score_revealing option \<Rightarrow> datetime \<Rightarrow> submission_caps" where
  "submission_caps_of session submission_user_id submission_type submission_problem_visibility
     submission_problem_owner_id session_user_contest_user_mode submission_contest_round_full_results
     submission_contest_problem_method submission_contest_problem_score_revealing curr_datetime =
     (let moderates = at_least_moderates_contest session_user_contest_user_mode;
          owns_submission =
            (case submission_user_id of None \<Rightarrow> False | Some u \<Rightarrow> is_self session u);
          owns_problem =
            (case submission_problem_owner_id of None \<Rightarrow> False | Some o_id \<Rightarrow> is_self session o_id);
          is_contest_submission = submission_contest_round_full_results \<noteq> None;
          reveal_score = reveals_score submission_contest_problem_score_revealing;
          reveal_full_status = reveals_full_status submission_contest_problem_score_revealing;
          final_visible = final_visible_before_full_results
            submission_contest_problem_method submission_contest_problem_score_revealing;
          results_reached = full_results_reached curr_datetime submission_contest_round_full_results;
          may_change = may_change_type_or_delete submission_type
      in \<lparr> sc_view = is_admin session \<or> owns_problem \<or> moderates \<or> owns_submission,
           sc_view_initial_status =
             is_admin session \<or> owns_problem \<or> moderates \<or> owns_submission,
           sc_view_full_status = is_admin session \<or> owns_problem \<or> moderates \<or>
             (owns_submission \<and> (\<not> is_contest_submission \<or> reveal_full_status \<or> results_reached)),
           sc_view_initial_judgement_protocol =
             is_admin session \<or> owns_problem \<or> moderates \<or> owns_submission,
           sc_view_full_judgement_protocol = is_admin session \<or> owns_problem \<or> moderates \<or>
             (owns_submission \<and> (\<not> is_contest_submission \<or> results_reached)),
           sc_view_score = is_admin session \<or> owns_problem \<or> moderates \<or>
             (owns_submission \<and> (\<not> is_contest_submission \<or> reveal_score \<or> results_reached)),
           sc_view_if_problem_final = is_admin session \<or> owns_problem \<or>
             (owns_submission \<and> p_view (problem_caps_of session submission_problem_visibility
                                          submission_problem_owner_id)),
           sc_view_if_contest_problem_initial_final = is_contest_submission \<and>
             (is_admin session \<or> owns_problem \<or> moderates \<or> owns_submission),
           sc_view_if_contest_problem_final = is_contest_submission \<and>
             (is_admin session \<or> owns_problem \<or> moderates \<or>
              (owns_submission \<and> (final_visible \<or> results_reached))),
           sc_download = is_admin session \<or> owns_problem \<or> moderates \<or> owns_submission,
           sc_change_type = may_change \<and> (is_admin session \<or> owns_problem \<or> moderates),
           sc_rejudge = is_admin session \<or> owns_problem \<or> moderates,
           sc_delete = may_change \<and> (is_admin session \<or> owns_problem \<or> moderates),
           sc_view_related_jobs = is_admin session \<rparr>)"

section \<open>Shared facts\<close>

lemmas problem_caps_unfold [caps_simps] = problem_caps_of_def Let_def
lemmas contest_caps_unfold [caps_simps] = contest_for_def Let_def
lemmas user_caps_unfold [caps_simps] = user_caps_of_def Let_def
lemmas submission_caps_unfold [caps_simps] = submission_caps_of_def Let_def

lemma at_least_moderates_contest_iff:
  "at_least_moderates_contest m \<longleftrightarrow> m \<in> {Some OWNER, Some MODERATOR}"
  by (cases m rule: at_least_moderates_contest.cases) auto

lemma reveals_full_status_score: "reveals_full_status rv \<Longrightarrow> reveals_score rv"
  by (cases rv rule: reveals_full_status.cases) auto

lemma final_visible_reveals:
  "final_visible_before_full_results m rv \<Longrightarrow> m = Some LATEST_COMPILING \<or> reveals_score rv"
  by (cases "(m, rv)" rule: final_visible_before_full_results.cases) auto

lemma full_results_reached_mono:
  "full_results_reached t fr \<Longrightarrow> t \<le> t' \<Longrightarrow> full_results_reached t' fr"
  by (auto simp: full_results_reached_def split: option.splits)

lemma is_self_admin_or: "is_self session u \<Longrightarrow> session \<noteq> None"
  by (cases session) auto

lemma is_self_opt_case:
  "(case ou of None \<Rightarrow> False | Some u \<Rightarrow> is_self session u) = is_self_opt session ou"
  by (cases session; cases ou) auto

text \<open>The order of the submission capabilities: every flag of the first is a flag of the second.\<close>

definition submission_caps_le :: "submission_caps \<Rightarrow> submission_caps \<Rightarrow> bool" where
  "submission_caps_le a b \<longleftrightarrow>
     (sc_view a \<longrightarrow> sc_view b) \<and>
     (sc_view_initial_status a \<longrightarrow> sc_view_initial_status b) \<and>
     (sc_view_full_status a \<longrightarrow> sc_view_full_status b) \<and>
     (sc_view_initial_judgement_protocol a \<longrightarrow> sc_view_initial_judgement_protocol b) \<and>
     (sc_view_full_judgement_protocol a \<longrightarrow> sc_view_full_judgement_protocol b) \<and>
     (sc_view_score a \<longrightarrow> sc_view_score b) \<and>
     (sc_view_if_problem_final a \<longrightarrow> sc_view_if_problem_final b) \<and>
     (sc_view_if_contest_problem_initial_final a \<longrightarrow> sc_view_if_contest_problem_initial_final b) \<and>
     (sc_view_if_contest_problem_final a \<longrightarrow> sc_view_if_contest_problem_final b) \<and>
     (sc_download a \<longrightarrow> sc_download b) \<and>
     (sc_change_type a \<longrightarrow> sc_change_type b) \<and>
     (sc_rejudge a \<longrightarrow> sc_rejudge b) \<and>
     (sc_delete a \<longrightarrow> sc_delete b) \<and>
     (sc_view_related_jobs a \<longrightarrow> sc_view_related_jobs b)"

text \<open>The flags that let a submitter read results of the judging.\<close>

definition shows_hidden_results :: "submission_caps \<Rightarrow> bool" where
  "shows_hidden_results c \<longleftrightarrow>
     sc_view_full_status c \<or> sc_view_full_judgement_protocol c \<or> sc_view_score c"

section \<open>Properties\<close>

text \<open>
  C3. Embargo on contest results. A user who is not an admin, does not own the problem and does not
  moderate the contest learns neither the full status, nor the full judgement protocol, nor the
  score of a contest submission before the round's full results are published, unless the contest
  problem reveals scores; and where the final submission is chosen by score, not even which
  submission is final.
\<close>

theorem submission_embargo:
  assumes "\<not> is_admin session" and "\<not> is_self_opt session owner"
    and "\<not> at_least_moderates_contest mode"
    and "curr_datetime < full_results" and "\<not> reveals_score rv"
  shows "\<not> shows_hidden_results
           (submission_caps_of session submitter stype visib owner mode (Some full_results) meth rv
              curr_datetime)
         \<and> (meth = Some HIGHEST_SCORE \<longrightarrow>
             \<not> sc_view_if_contest_problem_final
               (submission_caps_of session submitter stype visib owner mode (Some full_results) meth
                  rv curr_datetime))"
  using assms reveals_full_status_score [of rv]
  by (auto simp: submission_caps_of_def Let_def shows_hidden_results_def is_self_opt_case
      full_results_reached_def not_le)

definition contestant_session :: ctx_session where
  "contestant_session =
     \<lparr> cs_id = ''s'', cs_csrf_token = ''c'', cs_user_id = 7, cs_user_type = User_NORMAL,
       cs_username = ''kid'', cs_data = '''', cs_orig_data = '''' \<rparr>"

theorem submission_embargo_witness:
  "\<not> shows_hidden_results
     (submission_caps_of (Some contestant_session) (Some 7) Sub_NORMAL CONTEST_ONLY (Some 3)
        (Some CONTESTANT) (Some ''2024-05-01 12:00:00'') (Some HIGHEST_SCORE) (Some Reveal_NONE)
        ''2024-05-01 11:59:59'')"
  using submission_embargo [of "Some contestant_session" "Some 3" "Some CONTESTANT"
      "''2024-05-01 11:59:59''" "''2024-05-01 12:00:00''" "Some Reveal_NONE" "Some 7" Sub_NORMAL
      CONTEST_ONLY "Some HIGHEST_SCORE"]
  by (simp add: contestant_session_def)

text \<open>
  No capability on a submission without viewing it, and time only adds capabilities: whatever
  the roles are, a later clock gives every flag an earlier one gave.
\<close>

theorem submission_caps_view_and_time:
  assumes "t \<le> t'"
  shows "(let c = submission_caps_of session submitter stype visib owner mode fr meth rv t
          in (sc_view_full_status c \<longrightarrow> sc_view_initial_status c) \<and>
             (sc_view_full_judgement_protocol c \<longrightarrow>
                sc_view_initial_judgement_protocol c \<and> sc_view_full_status c \<and> sc_view_score c) \<and>
             (sc_view_initial_status c \<or> sc_download c \<or> sc_change_type c \<or> sc_rejudge c \<or>
              sc_delete c \<or> sc_view_related_jobs c \<or> sc_view_if_problem_final c \<or>
              sc_view_if_contest_problem_final c \<longrightarrow> sc_view c))
         \<and> submission_caps_le
             (submission_caps_of session submitter stype visib owner mode fr meth rv t)
             (submission_caps_of session submitter stype visib owner mode fr meth rv t')"
  using assms full_results_reached_mono [of t fr t']
  by (auto simp: submission_caps_of_def Let_def submission_caps_le_def)

theorem submission_caps_view_and_time_witness:
  "submission_caps_le
     (submission_caps_of (Some contestant_session) (Some 7) Sub_NORMAL PUBLIC None
        None (Some ''2024'') (Some HIGHEST_SCORE) (Some ONLY_SCORE) ''2023'')
     (submission_caps_of (Some contestant_session) (Some 7) Sub_NORMAL PUBLIC None
        None (Some ''2024'') (Some HIGHEST_SCORE) (Some ONLY_SCORE) ''2025'')"
proof -
  have "(''2023'' :: string) \<le> ''2025''" by simp
  from submission_caps_view_and_time [OF this] show ?thesis by blast
qed

text \<open>
  Protection of the root account and of the admin type. Only the root user itself may edit
  root, nobody may delete root, merge it or take its admin type; only root may make an admin of a
  user who is not one; and nobody may change another user's password without the old one unless
  they are an admin.
\<close>

theorem user_caps_protect_root:
  "(u_edit (user_caps_of session SIM_ROOT_ID utype) \<longrightarrow> is_self session SIM_ROOT_ID) \<and>
   \<not> u_delete (user_caps_of session SIM_ROOT_ID utype) \<and>
   \<not> u_merge_into_another_user (user_caps_of session SIM_ROOT_ID utype) \<and>
   \<not> u_merge_someone_into_this_user (user_caps_of session SIM_ROOT_ID utype) \<and>
   \<not> u_make_teacher (user_caps_of session SIM_ROOT_ID utype) \<and>
   \<not> u_make_normal (user_caps_of session SIM_ROOT_ID utype) \<and>
   (u_make_admin (user_caps_of session uid utype) \<and> utype \<noteq> User_ADMIN \<longrightarrow>
      is_self session SIM_ROOT_ID) \<and>
   (u_change_password_without_old_password (user_caps_of session uid utype) \<longrightarrow>
      is_admin session \<and> \<not> is_self session uid \<and> uid \<noteq> SIM_ROOT_ID)"
  by (auto simp: user_caps_of_def Let_def is_self_def split: option.splits)

theorem user_caps_protect_root_witness:
  "\<not> u_edit (user_caps_of (Some contestant_session) SIM_ROOT_ID User_ADMIN)"
  using user_caps_protect_root [of "Some contestant_session" User_ADMIN]
  by (auto simp: contestant_session_def SIM_ROOT_ID_def)

definition allowed_type :: "user_caps \<Rightarrow> user_type \<Rightarrow> bool" where
  "allowed_type c t =
     (case t of User_ADMIN \<Rightarrow> u_make_admin c | User_TEACHER \<Rightarrow> u_make_teacher c
      | User_NORMAL \<Rightarrow> u_make_normal c)"

text \<open>
  A teacher or a normal user never raises an account: every type that the capabilities let a
  non-admin set on an account is at most as powerful (in the order ADMIN, TEACHER, NORMAL of the
  enum) as the type the account already has.
\<close>

theorem no_escalation_by_non_admin:
  assumes "session = Some s" and "cs_user_type s \<noteq> User_ADMIN" and "cs_user_id s \<noteq> SIM_ROOT_ID"
    and "uid = cs_user_id s \<longrightarrow> utype = cs_user_type s"
    and "allowed_type (user_caps_of session uid utype) t"
  shows "utype \<le> t \<and> uid = cs_user_id s"
  using assms
  by (cases t; cases utype; cases "cs_user_type s")
    (auto simp: allowed_type_def user_caps_of_def Let_def user_type_ord)

theorem no_escalation_by_non_admin_witness:
  "(User_NORMAL \<le> User_NORMAL) \<and>
   allowed_type (user_caps_of (Some contestant_session) 7 User_NORMAL) User_NORMAL"
  using no_escalation_by_non_admin [of "Some contestant_session" contestant_session 7 User_NORMAL
      User_NORMAL]
  by (simp add: contestant_session_def SIM_ROOT_ID_def allowed_type_def user_caps_of_def)

text \<open>
  The owner of a problem has exactly the capabilities of an admin on it, whatever its
  visibility; and a visitor without a session has at most the view of a public problem.
\<close>

theorem problem_owner_caps_eq_admin:
  assumes "is_self session owner" and "is_admin admin_session"
  shows "problem_caps_of session visib (Some owner) = problem_caps_of admin_session visib (Some owner)
         \<and> (p_view (problem_caps_of None visib any_owner) \<longleftrightarrow> visib = PUBLIC)
         \<and> \<not> p_create_submission (problem_caps_of None visib any_owner)
         \<and> \<not> p_view_solutions (problem_caps_of None visib any_owner)"
  using assms
  by (cases session; cases admin_session; cases any_owner) (auto simp: problem_caps_of_def Let_def)

theorem problem_owner_caps_eq_admin_witness:
  "problem_caps_of (Some contestant_session) PRIVATE (Some 7) =
   problem_caps_of (Some (contestant_session\<lparr>cs_user_id := 2, cs_user_type := User_ADMIN\<rparr>))
     PRIVATE (Some 7)"
  using problem_owner_caps_eq_admin [of "Some contestant_session" 7
      "Some (contestant_session\<lparr>cs_user_id := 2, cs_user_type := User_ADMIN\<rparr>)" PRIVATE None]
  by (simp add: contestant_session_def)

end
