(* ===== verification/Permissions.thy ===== *)
theory Permissions
  imports Capabilities
begin

unbundle bit_operations_syntax

text \<open>
  The permission bit masks of the older parts of the server (include/sim/contests/permissions.hh,
  include/sim/problems/permissions.hh, include/sim/contest_files/permissions.hh and their sources):
  an enum class of single-bit flags and functions that OR them into a 16- or 32-bit mask. The
  properties relate the masks to the capability records of src/web_server/capabilities.
\<close>

section \<open>Masks\<close>

text \<open>\<open>uint(perms & flag)\<close> as a condition.\<close>

definition has_perm :: "'a::len word \<Rightarrow> 'a word \<Rightarrow> bool" where
  "has_perm perms flag \<longleftrightarrow> perms AND flag \<noteq> 0"

text \<open>\<open>sim::contests::Permissions : uint16_t\<close>\<close>

datatype cperm_flag =
    CPERM_NONE
  | CPERM_VIEW
  | CPERM_PARTICIPATE
  | CPERM_ADMIN
  | CPERM_DELETE
  | CPERM_MAKE_PUBLIC
  | CPERM_SELECT_FINAL_SUBMISSIONS
  | CPERM_VIEW_ALL_CONTEST_SUBMISSIONS
  | CPERM_MANAGE_CONTEST_ENTRY_TOKEN

fun cperm_bits :: "cperm_flag \<Rightarrow> 16 word" where
  "cperm_bits CPERM_NONE = 0"
| "cperm_bits CPERM_VIEW = 1"
| "cperm_bits CPERM_PARTICIPATE = push_bit 1 1"
| "cperm_bits CPERM_ADMIN = push_bit 2 1"
| "cperm_bits CPERM_DELETE = push_bit 3 1"
| "cperm_bits CPERM_MAKE_PUBLIC = push_bit 4 1"
| "cperm_bits CPERM_SELECT_FINAL_SUBMISSIONS = push_bit 5 1"
| "cperm_bits CPERM_VIEW_ALL_CONTEST_SUBMISSIONS = push_bit 6 1"
| "cperm_bits CPERM_MANAGE_CONTEST_ENTRY_TOKEN = push_bit 7 1"

fun contest_get_permissions ::
  "user_type option \<Rightarrow> bool \<Rightarrow> contest_user_mode option \<Rightarrow> 16 word" where
  "contest_get_permissions None public mode =
     (if public then cperm_bits CPERM_VIEW else cperm_bits CPERM_NONE)"
| "contest_get_permissions (Some User_ADMIN) public mode =
     (cperm_bits CPERM_VIEW OR cperm_bits CPERM_PARTICIPATE OR cperm_bits CPERM_ADMIN OR
      cperm_bits CPERM_DELETE OR cperm_bits CPERM_MAKE_PUBLIC OR
      cperm_bits CPERM_SELECT_FINAL_SUBMISSIONS OR
      cperm_bits CPERM_VIEW_ALL_CONTEST_SUBMISSIONS OR
      cperm_bits CPERM_MANAGE_CONTEST_ENTRY_TOKEN)"
| "contest_get_permissions (Some utype) public None =
     (if public then cperm_bits CPERM_VIEW OR cperm_bits CPERM_PARTICIPATE
      else cperm_bits CPERM_NONE)"
| "contest_get_permissions (Some utype) public (Some OWNER) =
     (cperm_bits CPERM_VIEW OR cperm_bits CPERM_PARTICIPATE OR cperm_bits CPERM_ADMIN OR
      cperm_bits CPERM_DELETE OR cperm_bits CPERM_SELECT_FINAL_SUBMISSIONS OR
      cperm_bits CPERM_VIEW_ALL_CONTEST_SUBMISSIONS OR
      cperm_bits CPERM_MANAGE_CONTEST_ENTRY_TOKEN)"
| "contest_get_permissions (Some utype) public (Some MODERATOR) =
     (cperm_bits CPERM_VIEW OR cperm_bits CPERM_PARTICIPATE OR cperm_bits CPERM_ADMIN OR
      cperm_bits CPERM_SELECT_FINAL_SUBMISSIONS OR
      cperm_bits CPERM_VIEW_ALL_CONTEST_SUBMISSIONS OR
      cperm_bits CPERM_MANAGE_CONTEST_ENTRY_TOKEN)"
| "contest_get_permissions (Some utype) public (Some CONTESTANT) =
     (cperm_bits CPERM_VIEW OR cperm_bits CPERM_PARTICIPATE)"

text \<open>
  The overload that reads the database: the user's type and contest mode come from LEFT JOINs on
  the id of the session's user; \<open>std::nullopt\<close> when there is no such contest.
\<close>

definition contest_get_permissions_for_id ::
  "contest list \<Rightarrow> user list \<Rightarrow> contest_user list \<Rightarrow> id \<Rightarrow> id option \<Rightarrow> 16 word option" where
  "contest_get_permissions_for_id contests users cus cid uid =
     (case find (\<lambda>c. contest_id c = cid) contests of
        None \<Rightarrow> None
      | Some c \<Rightarrow>
          (case uid of
             None \<Rightarrow> Some (contest_get_permissions None (contest_is_public c) None)
           | Some u \<Rightarrow>
               (case find (\<lambda>r. user_id r = u) users of
                  None \<Rightarrow> Some (contest_get_permissions None (contest_is_public c) None)
                | Some r \<Rightarrow> Some (contest_get_permissions (Some (user_type r)) (contest_is_public c)
                              (contest_user_mode_of cus cid u)))))"

text \<open>\<open>sim::contest_files::OverallPermissions : uint16_t\<close>\<close>

datatype cfo_flag =
    CFO_NONE
  | CFO_ADD
  | CFO_VIEW_CREATOR

fun cfo_bits :: "cfo_flag \<Rightarrow> 16 word" where
  "cfo_bits CFO_NONE = 0"
| "cfo_bits CFO_ADD = 1"
| "cfo_bits CFO_VIEW_CREATOR = push_bit 1 1"

text \<open>\<open>sim::contest_files::Permissions : uint16_t\<close>\<close>

datatype cfp_flag =
    CFP_NONE
  | CFP_VIEW
  | CFP_DOWNLOAD
  | CFP_EDIT
  | CFP_DELETE

fun cfp_bits :: "cfp_flag \<Rightarrow> 16 word" where
  "cfp_bits CFP_NONE = 0"
| "cfp_bits CFP_VIEW = 1"
| "cfp_bits CFP_DOWNLOAD = push_bit 1 1"
| "cfp_bits CFP_EDIT = push_bit 2 1"
| "cfp_bits CFP_DELETE = push_bit 3 1"

definition contest_files_get_overall_permissions :: "16 word \<Rightarrow> 16 word" where
  "contest_files_get_overall_permissions cperms =
     (if has_perm cperms (cperm_bits CPERM_ADMIN) then cfo_bits CFO_ADD OR cfo_bits CFO_VIEW_CREATOR
      else cfo_bits CFO_NONE)"

definition contest_files_get_permissions :: "16 word \<Rightarrow> 16 word" where
  "contest_files_get_permissions cperms =
     (if has_perm cperms (cperm_bits CPERM_ADMIN)
      then cfp_bits CFP_VIEW OR cfp_bits CFP_DOWNLOAD OR cfp_bits CFP_EDIT OR cfp_bits CFP_DELETE
      else if has_perm cperms (cperm_bits CPERM_VIEW)
      then cfp_bits CFP_VIEW OR cfp_bits CFP_DOWNLOAD
      else cfp_bits CFP_NONE)"

text \<open>\<open>sim::problems::OverallPermissions : uint32_t\<close>\<close>

datatype pov_flag =
    POV_NONE
  | POV_ADD
  | POV_VIEW_ALL
  | POV_VIEW_WITH_TYPE_PUBLIC
  | POV_VIEW_WITH_TYPE_CONTEST_ONLY
  | POV_SELECT_BY_OWNER

fun pov_bits :: "pov_flag \<Rightarrow> 32 word" where
  "pov_bits POV_NONE = 0"
| "pov_bits POV_ADD = 1"
| "pov_bits POV_VIEW_ALL = push_bit 1 1"
| "pov_bits POV_VIEW_WITH_TYPE_PUBLIC = push_bit 2 1"
| "pov_bits POV_VIEW_WITH_TYPE_CONTEST_ONLY = push_bit 5 1"
| "pov_bits POV_SELECT_BY_OWNER = push_bit 4 1"

fun problems_get_overall_permissions :: "user_type option \<Rightarrow> 32 word" where
  "problems_get_overall_permissions None = pov_bits POV_VIEW_WITH_TYPE_PUBLIC"
| "problems_get_overall_permissions (Some User_ADMIN) =
     (pov_bits POV_VIEW_ALL OR pov_bits POV_ADD OR pov_bits POV_VIEW_WITH_TYPE_PUBLIC OR
      pov_bits POV_VIEW_WITH_TYPE_CONTEST_ONLY OR pov_bits POV_SELECT_BY_OWNER)"
| "problems_get_overall_permissions (Some User_TEACHER) =
     (pov_bits POV_ADD OR pov_bits POV_VIEW_WITH_TYPE_PUBLIC OR
      pov_bits POV_VIEW_WITH_TYPE_CONTEST_ONLY OR pov_bits POV_SELECT_BY_OWNER)"
| "problems_get_overall_permissions (Some User_NORMAL) = pov_bits POV_VIEW_WITH_TYPE_PUBLIC"

text \<open>\<open>sim::problems::Permissions : uint32_t\<close>\<close>

datatype pperm_flag =
    PPERM_NONE
  | PPERM_VIEW
  | PPERM_VIEW_STATEMENT
  | PPERM_VIEW_TAGS
  | PPERM_VIEW_HIDDEN_TAGS
  | PPERM_VIEW_SOLUTIONS_AND_SUBMISSIONS
  | PPERM_VIEW_SIMFILE
  | PPERM_VIEW_OWNER
  | PPERM_VIEW_ADD_TIME
  | PPERM_VIEW_RELATED_JOBS
  | PPERM_DOWNLOAD
  | PPERM_SUBMIT
  | PPERM_EDIT
  | PPERM_SUBMIT_IGNORED
  | PPERM_REUPLOAD
  | PPERM_REJUDGE_ALL
  | PPERM_RESET_TIME_LIMITS
  | PPERM_EDIT_TAGS
  | PPERM_EDIT_HIDDEN_TAGS
  | PPERM_DELETE
  | PPERM_MERGE
  | PPERM_CHANGE_STATEMENT
  | PPERM_VIEW_ATTACHING_CONTEST_PROBLEMS

fun pperm_bits :: "pperm_flag \<Rightarrow> 32 word" where
  "pperm_bits PPERM_NONE = 0"
| "pperm_bits PPERM_VIEW = 1"
| "pperm_bits PPERM_VIEW_STATEMENT = push_bit 1 1"
| "pperm_bits PPERM_VIEW_TAGS = push_bit 2 1"
| "pperm_bits PPERM_VIEW_HIDDEN_TAGS = push_bit 3 1"
| "pperm_bits PPERM_VIEW_SOLUTIONS_AND_SUBMISSIONS = push_bit 4 1"
| "pperm_bits PPERM_VIEW_SIMFILE = push_bit 5 1"
| "pperm_bits PPERM_VIEW_OWNER = push_bit 6 1"
| "pperm_bits PPERM_VIEW_ADD_TIME = push_bit 7 1"
| "pperm_bits PPERM_VIEW_RELATED_JOBS = push_bit 8 1"
| "pperm_bits PPERM_DOWNLOAD = push_bit 9 1"
| "pperm_bits PPERM_SUBMIT = push_bit 10 1"
| "pperm_bits PPERM_EDIT = push_bit 11 1"
| "pperm_bits PPERM_SUBMIT_IGNORED = push_bit 12 1"
| "pperm_bits PPERM_REUPLOAD = push_bit 13 1"
| "pperm_bits PPERM_REJUDGE_ALL = push_bit 14 1"
| "pperm_bits PPERM_RESET_TIME_LIMITS = push_bit 15 1"
| "pperm_bits PPERM_EDIT_TAGS = push_bit 16 1"
| "pperm_bits PPERM_EDIT_HIDDEN_TAGS = push_bit 17 1"
| "pperm_bits PPERM_DELETE = push_bit 18 1"
| "pperm_bits PPERM_MERGE = push_bit 19 1"
| "pperm_bits PPERM_CHANGE_STATEMENT = push_bit 20 1"
| "pperm_bits PPERM_VIEW_ATTACHING_CONTEST_PROBLEMS = push_bit 21 1"

definition admin_perms :: "32 word" where
  "admin_perms =
     (pperm_bits PPERM_VIEW OR pperm_bits PPERM_VIEW_STATEMENT OR pperm_bits PPERM_VIEW_TAGS OR
      pperm_bits PPERM_VIEW_HIDDEN_TAGS OR pperm_bits PPERM_VIEW_SOLUTIONS_AND_SUBMISSIONS OR
      pperm_bits PPERM_VIEW_SIMFILE OR pperm_bits PPERM_VIEW_OWNER OR
      pperm_bits PPERM_VIEW_ADD_TIME OR pperm_bits PPERM_VIEW_RELATED_JOBS OR
      pperm_bits PPERM_DOWNLOAD OR pperm_bits PPERM_SUBMIT OR pperm_bits PPERM_EDIT OR
      pperm_bits PPERM_SUBMIT_IGNORED OR pperm_bits PPERM_REUPLOAD OR
      pperm_bits PPERM_REJUDGE_ALL OR pperm_bits PPERM_RESET_TIME_LIMITS OR
      pperm_bits PPERM_EDIT_TAGS OR pperm_bits PPERM_EDIT_HIDDEN_TAGS OR
      pperm_bits PPERM_DELETE OR pperm_bits PPERM_MERGE OR pperm_bits PPERM_CHANGE_STATEMENT OR
      pperm_bits PPERM_VIEW_ATTACHING_CONTEST_PROBLEMS)"

fun problem_perms_by_type :: "user_type \<Rightarrow> visibility \<Rightarrow> 32 word" where
  "problem_perms_by_type User_ADMIN visib = admin_perms"
| "problem_perms_by_type User_TEACHER PUBLIC =
     (pperm_bits PPERM_VIEW OR pperm_bits PPERM_VIEW_STATEMENT OR pperm_bits PPERM_VIEW_TAGS OR
      pperm_bits PPERM_VIEW_HIDDEN_TAGS OR pperm_bits PPERM_VIEW_SOLUTIONS_AND_SUBMISSIONS OR
      pperm_bits PPERM_VIEW_SIMFILE OR pperm_bits PPERM_VIEW_OWNER OR
      pperm_bits PPERM_VIEW_ADD_TIME OR pperm_bits PPERM_DOWNLOAD OR pperm_bits PPERM_SUBMIT OR
      pperm_bits PPERM_SUBMIT_IGNORED)"
| "problem_perms_by_type User_TEACHER CONTEST_ONLY =
     (pperm_bits PPERM_VIEW OR pperm_bits PPERM_VIEW_STATEMENT OR pperm_bits PPERM_VIEW_TAGS OR
      pperm_bits PPERM_VIEW_HIDDEN_TAGS OR pperm_bits PPERM_VIEW_SIMFILE OR
      pperm_bits PPERM_VIEW_OWNER OR pperm_bits PPERM_VIEW_ADD_TIME OR pperm_bits PPERM_SUBMIT OR
      pperm_bits PPERM_SUBMIT_IGNORED)"
| "problem_perms_by_type User_TEACHER PRIVATE = pperm_bits PPERM_NONE"
| "problem_perms_by_type User_NORMAL PUBLIC =
     (pperm_bits PPERM_VIEW OR pperm_bits PPERM_VIEW_STATEMENT OR pperm_bits PPERM_VIEW_TAGS OR
      pperm_bits PPERM_SUBMIT OR pperm_bits PPERM_SUBMIT_IGNORED)"
| "problem_perms_by_type User_NORMAL CONTEST_ONLY = pperm_bits PPERM_NONE"
| "problem_perms_by_type User_NORMAL PRIVATE = pperm_bits PPERM_NONE"

definition problem_get_permissions ::
  "id option \<Rightarrow> user_type option \<Rightarrow> id option \<Rightarrow> visibility \<Rightarrow> 32 word" where
  "problem_get_permissions uid utype owner visib =
     (case utype of
        None \<Rightarrow>
          (case visib of
             PUBLIC \<Rightarrow> pperm_bits PPERM_VIEW OR pperm_bits PPERM_VIEW_STATEMENT OR
                         pperm_bits PPERM_VIEW_TAGS
           | CONTEST_ONLY \<Rightarrow> pperm_bits PPERM_NONE
           | PRIVATE \<Rightarrow> pperm_bits PPERM_NONE)
      | Some t \<Rightarrow>
          (if uid \<noteq> None \<and> owner \<noteq> None \<and> uid = owner then admin_perms
           else problem_perms_by_type t visib))"

definition problem_get_permissions_for_id ::
  "problem list \<Rightarrow> id \<Rightarrow> id option \<Rightarrow> user_type option \<Rightarrow> 32 word option" where
  "problem_get_permissions_for_id problems pid uid utype =
     map_option (\<lambda>p. problem_get_permissions uid utype (problem_owner_id p) (problem_visibility p))
       (find (\<lambda>p. problem_id p = pid) problems)"

section \<open>Reading a bit of a mask\<close>

lemma has_perm_or: "has_perm (a OR b) f \<longleftrightarrow> has_perm a f \<or> has_perm b f"
  by (simp add: has_perm_def bit.conj_disj_distrib2 or_eq_0_iff)

lemma has_perm_zero [simp]: "\<not> has_perm 0 f"
  by (simp add: has_perm_def)

lemma has_perm_cperm:
  "has_perm (cperm_bits a) (cperm_bits b) \<longleftrightarrow> a = b \<and> a \<noteq> CPERM_NONE"
  by (cases a; cases b) (simp_all add: has_perm_def)

lemma has_perm_pperm:
  "has_perm (pperm_bits a) (pperm_bits b) \<longleftrightarrow> a = b \<and> a \<noteq> PPERM_NONE"
  by (cases a; cases b) (simp_all add: has_perm_def)

lemmas has_perm_simps = has_perm_or has_perm_cperm has_perm_pperm

lemma has_perm_none [simp]:
  "\<not> has_perm (cperm_bits CPERM_NONE) (cperm_bits b)"
  "\<not> has_perm (pperm_bits PPERM_NONE) (pperm_bits b')"
  by (simp_all add: has_perm_def)

declare cperm_bits.simps [simp del] pperm_bits.simps [simp del]

lemma has_perm_admin_perms: "has_perm admin_perms (pperm_bits b) \<longleftrightarrow> b \<noteq> PPERM_NONE"
  by (cases b) (simp_all add: admin_perms_def has_perm_simps)

section \<open>Properties\<close>

text \<open>
  The contest permission mask and the contest capabilities agree bit by bit: for every session,
  contest and contest-user mode (no mode without a session), each flag that the old endpoints test
  is set exactly when the corresponding capability of \<open>contest_for\<close> holds.
\<close>

theorem contest_permissions_eq_capabilities:
  assumes "session = None \<longrightarrow> mode = None"
  shows "(let perms = contest_get_permissions (map_option cs_user_type session) public mode;
              caps = contest_for session public mode
          in (has_perm perms (cperm_bits CPERM_VIEW) \<longleftrightarrow> cn_view (co_node caps)) \<and>
             (has_perm perms (cperm_bits CPERM_PARTICIPATE) \<longleftrightarrow>
                cn_view_my_submissions (co_node caps)) \<and>
             (has_perm perms (cperm_bits CPERM_ADMIN) \<longleftrightarrow> cn_edit (co_node caps)) \<and>
             (has_perm perms (cperm_bits CPERM_DELETE) \<longleftrightarrow> cn_delete (co_node caps)) \<and>
             (has_perm perms (cperm_bits CPERM_MAKE_PUBLIC) \<longleftrightarrow> co_make_public caps) \<and>
             (has_perm perms (cperm_bits CPERM_VIEW_ALL_CONTEST_SUBMISSIONS) \<longleftrightarrow>
                cn_view_all_submissions (co_node caps)) \<and>
             (has_perm perms (cperm_bits CPERM_MANAGE_CONTEST_ENTRY_TOKEN) \<longleftrightarrow>
                co_entry_tokens_view caps))"
proof (cases session)
  case None
  with assms show ?thesis by (cases public) (simp_all add: contest_for_def has_perm_simps)
next
  case (Some s)
  then show ?thesis
    by (cases "cs_user_type s"; cases public; cases mode rule: at_least_moderates_contest.cases)
      (simp_all add: contest_for_def has_perm_simps)
qed

theorem contest_permissions_eq_capabilities_witness:
  "has_perm (contest_get_permissions (Some User_NORMAL) False (Some MODERATOR))
     (cperm_bits CPERM_ADMIN)
   \<and> \<not> has_perm (contest_get_permissions (Some User_NORMAL) False (Some MODERATOR))
     (cperm_bits CPERM_DELETE)"
  using contest_permissions_eq_capabilities [of "Some contestant_session" "Some MODERATOR" False]
  by (simp add: contestant_session_def contest_for_def Let_def)

text \<open>
  The problem permission mask and the problem capabilities agree bit by bit, for a visitor (no
  id, no type) and for every signed-in user, owner or not.
\<close>

theorem problem_permissions_eq_capabilities:
  "let perms = problem_get_permissions (map_option cs_user_id session)
                 (map_option cs_user_type session) owner visib;
       caps = problem_caps_of session visib owner
   in (has_perm perms (pperm_bits PPERM_VIEW) \<longleftrightarrow> p_view caps) \<and>
      (has_perm perms (pperm_bits PPERM_VIEW_STATEMENT) \<longleftrightarrow> p_view_statement caps) \<and>
      (has_perm perms (pperm_bits PPERM_VIEW_TAGS) \<longleftrightarrow> p_view_public_tags caps) \<and>
      (has_perm perms (pperm_bits PPERM_VIEW_HIDDEN_TAGS) \<longleftrightarrow> p_view_hidden_tags caps) \<and>
      (has_perm perms (pperm_bits PPERM_VIEW_SOLUTIONS_AND_SUBMISSIONS) \<longleftrightarrow> p_view_solutions caps) \<and>
      (has_perm perms (pperm_bits PPERM_VIEW_SIMFILE) \<longleftrightarrow> p_view_simfile caps) \<and>
      (has_perm perms (pperm_bits PPERM_VIEW_OWNER) \<longleftrightarrow> p_view_owner caps) \<and>
      (has_perm perms (pperm_bits PPERM_VIEW_ADD_TIME) \<longleftrightarrow> p_view_creation_time caps) \<and>
      (has_perm perms (pperm_bits PPERM_DOWNLOAD) \<longleftrightarrow> p_download caps) \<and>
      (has_perm perms (pperm_bits PPERM_SUBMIT) \<longleftrightarrow> p_create_submission caps) \<and>
      (has_perm perms (pperm_bits PPERM_EDIT) \<longleftrightarrow> p_edit caps) \<and>
      (has_perm perms (pperm_bits PPERM_REUPLOAD) \<longleftrightarrow> p_reupload caps) \<and>
      (has_perm perms (pperm_bits PPERM_REJUDGE_ALL) \<longleftrightarrow> p_rejudge_all_submissions caps) \<and>
      (has_perm perms (pperm_bits PPERM_RESET_TIME_LIMITS) \<longleftrightarrow> p_reset_time_limits caps) \<and>
      (has_perm perms (pperm_bits PPERM_DELETE) \<longleftrightarrow> p_delete caps) \<and>
      (has_perm perms (pperm_bits PPERM_MERGE) \<longleftrightarrow> p_merge_into_another_problem caps)"
proof (cases session)
  case None
  then show ?thesis
    by (cases owner; cases visib)
      (simp_all add: problem_get_permissions_def problem_caps_of_def has_perm_simps)
next
  case (Some s)
  show ?thesis
  proof (cases "owner = Some (cs_user_id s)")
    case True
    with Some show ?thesis
      by (cases visib)
        (simp_all add: problem_get_permissions_def problem_caps_of_def has_perm_admin_perms)
  next
    case False
    then have "is_self_opt session owner = False" using Some by (cases owner) auto
    moreover have "\<not> (Some (cs_user_id s) = owner)" using False by auto
    ultimately show ?thesis using Some
      by (cases "cs_user_type s"; cases visib)
        (simp_all add: problem_get_permissions_def problem_caps_of_def has_perm_simps
          has_perm_admin_perms is_self_opt_case del: is_self_simps)
  qed
qed

text \<open>
  Files of a contest follow the contest: the file permissions derived from a contest mask let
  exactly those who may edit the contest add, edit, delete and see the creator of its files, and
  exactly those who may view the contest view and download them.
\<close>

theorem contest_file_permissions_follow_contest:
  assumes "session = None \<longrightarrow> mode = None"
  shows "(let cperms = contest_get_permissions (map_option cs_user_type session) public mode;
              caps = contest_for session public mode;
              fperms = contest_files_get_permissions cperms;
              operms = contest_files_get_overall_permissions cperms
          in (has_perm fperms (cfp_bits CFP_VIEW) \<longleftrightarrow> co_files_view caps) \<and>
             (has_perm fperms (cfp_bits CFP_DOWNLOAD) \<longleftrightarrow> co_files_view caps) \<and>
             (has_perm fperms (cfp_bits CFP_EDIT) \<longleftrightarrow> cn_edit (co_node caps)) \<and>
             (has_perm fperms (cfp_bits CFP_DELETE) \<longleftrightarrow> cn_edit (co_node caps)) \<and>
             (has_perm operms (cfo_bits CFO_ADD) \<longleftrightarrow> co_files_add caps) \<and>
             (has_perm operms (cfo_bits CFO_VIEW_CREATOR) \<longleftrightarrow> co_files_view_creator caps))"
proof (cases session)
  case None
  with assms show ?thesis
    by (cases public)
      (simp_all add: contest_for_def has_perm_simps contest_files_get_permissions_def
        contest_files_get_overall_permissions_def, simp_all add: has_perm_def)
next
  case (Some s)
  then show ?thesis
    by (cases "cs_user_type s"; cases public; cases mode rule: at_least_moderates_contest.cases)
      (simp_all add: contest_for_def has_perm_simps contest_files_get_permissions_def
        contest_files_get_overall_permissions_def, simp_all add: has_perm_def)
qed

theorem contest_file_permissions_follow_contest_witness:
  "has_perm (contest_files_get_permissions
     (contest_get_permissions (Some User_NORMAL) True None)) (cfp_bits CFP_DOWNLOAD)"
  using contest_file_permissions_follow_contest [of "Some contestant_session" None True]
  by (simp add: contestant_session_def contest_for_def Let_def)

end
