(* ===== verification/Job_Filter.thy ===== *)
theory Job_Filter
  imports Sim_Types
begin

text \<open>
  \<open>NewJobFilterBuilder\<close> of the job server (src/subprojects/sim/src/job_server/main.cc): the SQL
  condition that keeps the scheduler from starting a job that collides with a job in progress.
  The condition strings become a datatype of SQL expressions with MySQL's three-valued semantics
  on a row of the jobs table; the theory proves that they denote exactly the disjointness of the
  sets of entities that two jobs work on.
\<close>

section \<open>SQL expressions over the jobs table\<close>

datatype job_cond =
    Cond_TRUE
  | Type_eq job_type
  | Type_in "job_type list"
  | Aux_eq id
  | Aux_in "id list"
  | Aux2_eq id
  | Aux2_in "id list"
  | Cond_not job_cond
  | Cond_and job_cond job_cond
  | Cond_or job_cond job_cond

primrec eval_cond :: "job_cond \<Rightarrow> job \<Rightarrow> sqlbool" where
  "eval_cond Cond_TRUE j = Some True"
| "eval_cond (Type_eq t) j = Some (job_type j = t)"
| "eval_cond (Type_in ts) j = Some (job_type j \<in> set ts)"
| "eval_cond (Aux_eq i) j = sql_eq (job_aux_id j) i"
| "eval_cond (Aux_in xs) j = sql_in (job_aux_id j) xs"
| "eval_cond (Aux2_eq i) j = sql_eq (job_aux_id_2 j) i"
| "eval_cond (Aux2_in xs) j = sql_in (job_aux_id_2 j) xs"
| "eval_cond (Cond_not c) j = sql_not (eval_cond c j)"
| "eval_cond (Cond_and c d) j = sql_and (eval_cond c j) (eval_cond d j)"
| "eval_cond (Cond_or c d) j = sql_or (eval_cond c j) (eval_cond d j)"

section \<open>The builder\<close>

text \<open>\<open>struct Task\<close>\<close>

record task =
  task_job_id :: id
  task_type :: job_type
  task_aux_id :: "id option"
  task_aux_id_2 :: "id option"

definition task_of_job :: "job \<Rightarrow> task" where
  "task_of_job j = \<lparr> task_job_id = job_id j, task_type = job_type j,
     task_aux_id = job_aux_id j, task_aux_id_2 = job_aux_id_2 j \<rparr>"

abbreviation problem_job_types :: "job_type list" where
  "problem_job_types \<equiv> [REUPLOAD_PROBLEM, EDIT_PROBLEM, DELETE_PROBLEM,
     RESET_PROBLEM_TIME_LIMITS_USING_MODEL_SOLUTION, CHANGE_PROBLEM_STATEMENT]"

text \<open>\<open>std::map::emplace\<close> keeps the element that is there; the map iterates in key order.\<close>

fun cond_emplace :: "id \<Rightarrow> job_cond \<Rightarrow> (id \<times> job_cond) list \<Rightarrow> (id \<times> job_cond) list" where
  "cond_emplace k c [] = [(k, c)]"
| "cond_emplace k c ((k', c') # m) =
     (if k < k' then (k, c) # (k', c') # m
      else if k = k' then (k', c') # m
      else (k', c') # cond_emplace k c m)"

text \<open>The condition of one job in progress; \<open>.value()\<close> throws on an absent \<open>aux_id\<close>.\<close>

fun in_progress_cond :: "job_type \<Rightarrow> id option \<Rightarrow> id option \<Rightarrow> job_cond option res" where
  "in_progress_cond JUDGE_SUBMISSION aux aux2 = bind_res (value_of aux) (\<lambda>a.
     Inr (Some (Cond_not (Cond_and (Type_in [JUDGE_SUBMISSION, REJUDGE_SUBMISSION]) (Aux_eq a)))))"
| "in_progress_cond REJUDGE_SUBMISSION aux aux2 = bind_res (value_of aux) (\<lambda>a.
     Inr (Some (Cond_not (Cond_and (Type_in [JUDGE_SUBMISSION, REJUDGE_SUBMISSION]) (Aux_eq a)))))"
| "in_progress_cond ADD_PROBLEM aux aux2 = Inr None"
| "in_progress_cond MERGE_PROBLEMS aux aux2 =
     bind_res (value_of aux) (\<lambda>a. bind_res (value_of aux2) (\<lambda>b.
     Inr (Some (Cond_not (Cond_or
       (Cond_and (Type_in problem_job_types) (Aux_in [a, b]))
       (Cond_and (Type_eq MERGE_PROBLEMS) (Cond_or (Aux_in [a, b]) (Aux2_in [a, b]))))))))"
| "in_progress_cond RESELECT_FINAL_SUBMISSIONS_IN_CONTEST_PROBLEM aux aux2 =
     bind_res (value_of aux) (\<lambda>a.
     Inr (Some (Cond_not (Cond_and
       (Type_in [RESELECT_FINAL_SUBMISSIONS_IN_CONTEST_PROBLEM, DELETE_CONTEST_PROBLEM])
       (Aux_eq a)))))"
| "in_progress_cond DELETE_CONTEST_PROBLEM aux aux2 =
     bind_res (value_of aux) (\<lambda>a.
     Inr (Some (Cond_not (Cond_and
       (Type_in [RESELECT_FINAL_SUBMISSIONS_IN_CONTEST_PROBLEM, DELETE_CONTEST_PROBLEM])
       (Aux_eq a)))))"
| "in_progress_cond DELETE_USER aux aux2 = bind_res (value_of aux) (\<lambda>a.
     Inr (Some (Cond_not (Cond_or
       (Cond_and (Type_eq DELETE_USER) (Aux_eq a))
       (Cond_and (Type_eq MERGE_USERS) (Cond_or (Aux_eq a) (Aux2_eq a)))))))"
| "in_progress_cond MERGE_USERS aux aux2 =
     bind_res (value_of aux) (\<lambda>a. bind_res (value_of aux2) (\<lambda>b.
     Inr (Some (Cond_not (Cond_or
       (Cond_and (Type_eq DELETE_USER) (Aux_in [a, b]))
       (Cond_and (Type_eq MERGE_USERS) (Cond_or (Aux_in [a, b]) (Aux2_in [a, b]))))))))"
| "in_progress_cond DELETE_CONTEST aux aux2 = bind_res (value_of aux) (\<lambda>a.
     Inr (Some (Cond_not (Cond_and (Type_eq DELETE_CONTEST) (Aux_eq a)))))"
| "in_progress_cond DELETE_CONTEST_ROUND aux aux2 = bind_res (value_of aux) (\<lambda>a.
     Inr (Some (Cond_not (Cond_and (Type_eq DELETE_CONTEST_ROUND) (Aux_eq a)))))"
| "in_progress_cond DELETE_INTERNAL_FILE aux aux2 = bind_res (value_of aux) (\<lambda>a.
     Inr (Some (Cond_not (Cond_and (Type_eq DELETE_INTERNAL_FILE) (Aux_eq a)))))"
| "in_progress_cond REUPLOAD_PROBLEM aux aux2 = bind_res (value_of aux) (\<lambda>a.
     Inr (Some (Cond_not (Cond_or (Cond_and (Type_in problem_job_types) (Aux_eq a))
       (Cond_and (Type_eq MERGE_PROBLEMS) (Cond_or (Aux_eq a) (Aux2_eq a)))))))"
| "in_progress_cond EDIT_PROBLEM aux aux2 = bind_res (value_of aux) (\<lambda>a.
     Inr (Some (Cond_not (Cond_or (Cond_and (Type_in problem_job_types) (Aux_eq a))
       (Cond_and (Type_eq MERGE_PROBLEMS) (Cond_or (Aux_eq a) (Aux2_eq a)))))))"
| "in_progress_cond DELETE_PROBLEM aux aux2 = bind_res (value_of aux) (\<lambda>a.
     Inr (Some (Cond_not (Cond_or (Cond_and (Type_in problem_job_types) (Aux_eq a))
       (Cond_and (Type_eq MERGE_PROBLEMS) (Cond_or (Aux_eq a) (Aux2_eq a)))))))"
| "in_progress_cond RESET_PROBLEM_TIME_LIMITS_USING_MODEL_SOLUTION aux aux2 =
     bind_res (value_of aux) (\<lambda>a.
     Inr (Some (Cond_not (Cond_or (Cond_and (Type_in problem_job_types) (Aux_eq a))
       (Cond_and (Type_eq MERGE_PROBLEMS) (Cond_or (Aux_eq a) (Aux2_eq a)))))))"
| "in_progress_cond CHANGE_PROBLEM_STATEMENT aux aux2 = bind_res (value_of aux) (\<lambda>a.
     Inr (Some (Cond_not (Cond_or (Cond_and (Type_in problem_job_types) (Aux_eq a))
       (Cond_and (Type_eq MERGE_PROBLEMS) (Cond_or (Aux_eq a) (Aux2_eq a)))))))"

type_synonym job_filter = "(id \<times> job_cond) list"

definition add_in_progress_job ::
  "id \<Rightarrow> job_type \<Rightarrow> id option \<Rightarrow> id option \<Rightarrow> job_filter \<Rightarrow> job_filter res" where
  "add_in_progress_job jid jtype aux aux2 m =
     bind_res (in_progress_cond jtype aux aux2) (\<lambda>c.
       case c of None \<Rightarrow> Inr m | Some cond \<Rightarrow> Inr (cond_emplace jid cond m))"

definition remove_in_progress_job :: "id \<Rightarrow> job_filter \<Rightarrow> job_filter" where
  "remove_in_progress_job jid m = filter (\<lambda>(k, c). k \<noteq> jid) m"

text \<open>The conjunction of optional conditions: an absent one is neutral.\<close>

fun opt_and :: "job_cond option \<Rightarrow> job_cond option \<Rightarrow> job_cond option" where
  "opt_and None c = c"
| "opt_and c None = c"
| "opt_and (Some c) (Some d) = Some (Cond_and c d)"

definition build_condition :: "job_filter \<Rightarrow> job_cond" where
  "build_condition m =
     (case foldl (\<lambda>res (k, c). opt_and res (Some c)) None m of
        None \<Rightarrow> Cond_TRUE | Some c \<Rightarrow> c)"

section \<open>What the map holds\<close>

lemma set_cond_emplace:
  "sorted (map fst m) \<Longrightarrow>
   set (cond_emplace k c m) = (if k \<in> fst ` set m then set m else insert (k, c) (set m))"
  by (induction m rule: cond_emplace.induct) force+

lemma sorted_cond_emplace:
  "sorted (map fst m) \<and> distinct (map fst m) \<Longrightarrow>
   sorted (map fst (cond_emplace k c m)) \<and> distinct (map fst (cond_emplace k c m))"
  by (induction k c m rule: cond_emplace.induct) (auto simp: set_cond_emplace split: if_splits)

lemma eval_build_fold:
  "sql_true (case foldl (\<lambda>res (k, c). opt_and res (Some c)) r m of
       None \<Rightarrow> Some True | Some c \<Rightarrow> eval_cond c j) \<longleftrightarrow>
   sql_true (case r of None \<Rightarrow> Some True | Some c \<Rightarrow> eval_cond c j) \<and>
   (\<forall>(k, c) \<in> set m. sql_true (eval_cond c j))"
  by (induction m arbitrary: r) (auto split: option.splits)

lemma eval_build_condition:
  "sql_true (eval_cond (build_condition m) j) \<longleftrightarrow> (\<forall>(k, c) \<in> set m. sql_true (eval_cond c j))"
  using eval_build_fold [of j None m] by (auto simp: build_condition_def split: option.splits)

section \<open>The entities a job works on\<close>

datatype resource =
    R_submission id
  | R_problem id
  | R_contest_problem id
  | R_user id
  | R_contest id
  | R_contest_round id
  | R_internal_file id

fun job_resources :: "job_type \<Rightarrow> id option \<Rightarrow> id option \<Rightarrow> resource set" where
  "job_resources JUDGE_SUBMISSION aux aux2 = R_submission ` set_option aux"
| "job_resources REJUDGE_SUBMISSION aux aux2 = R_submission ` set_option aux"
| "job_resources ADD_PROBLEM aux aux2 = {}"
| "job_resources REUPLOAD_PROBLEM aux aux2 = R_problem ` set_option aux"
| "job_resources EDIT_PROBLEM aux aux2 = R_problem ` set_option aux"
| "job_resources DELETE_PROBLEM aux aux2 = R_problem ` set_option aux"
| "job_resources RESET_PROBLEM_TIME_LIMITS_USING_MODEL_SOLUTION aux aux2 =
     R_problem ` set_option aux"
| "job_resources CHANGE_PROBLEM_STATEMENT aux aux2 = R_problem ` set_option aux"
| "job_resources MERGE_PROBLEMS aux aux2 = R_problem ` (set_option aux \<union> set_option aux2)"
| "job_resources RESELECT_FINAL_SUBMISSIONS_IN_CONTEST_PROBLEM aux aux2 =
     R_contest_problem ` set_option aux"
| "job_resources DELETE_CONTEST_PROBLEM aux aux2 = R_contest_problem ` set_option aux"
| "job_resources DELETE_USER aux aux2 = R_user ` set_option aux"
| "job_resources MERGE_USERS aux aux2 = R_user ` (set_option aux \<union> set_option aux2)"
| "job_resources DELETE_CONTEST aux aux2 = R_contest ` set_option aux"
| "job_resources DELETE_CONTEST_ROUND aux aux2 = R_contest_round ` set_option aux"
| "job_resources DELETE_INTERNAL_FILE aux aux2 = R_internal_file ` set_option aux"

text \<open>A job has the identifiers its type needs.\<close>

definition aux_ok :: "job_type \<Rightarrow> id option \<Rightarrow> id option \<Rightarrow> bool" where
  "aux_ok t aux aux2 \<longleftrightarrow>
     (t = ADD_PROBLEM \<or> aux \<noteq> None) \<and> (t \<in> {MERGE_PROBLEMS, MERGE_USERS} \<longrightarrow> aux2 \<noteq> None)"

lemma in_progress_cond_ok: "aux_ok t aux aux2 \<longleftrightarrow> (\<exists>c. in_progress_cond t aux aux2 = Inr c)"
  by (cases t; cases aux; cases aux2) (simp_all add: aux_ok_def)

lemma in_progress_cond_None:
  "in_progress_cond t aux aux2 = Inr None \<longleftrightarrow> t = ADD_PROBLEM"
  by (cases t; cases aux; cases aux2) simp_all

lemma job_resources_empty:
  "aux_ok t aux aux2 \<Longrightarrow> job_resources t aux aux2 = {} \<longleftrightarrow> t = ADD_PROBLEM"
  by (cases t; cases aux) (auto simp: aux_ok_def)

lemma resource_iffs:
  "R_submission a \<in> job_resources t x y \<longleftrightarrow>
     t \<in> {JUDGE_SUBMISSION, REJUDGE_SUBMISSION} \<and> x = Some a"
  "R_problem a \<in> job_resources t x y \<longleftrightarrow>
     t \<in> set problem_job_types \<and> x = Some a \<or>
     t = MERGE_PROBLEMS \<and> (x = Some a \<or> y = Some a)"
  "R_contest_problem a \<in> job_resources t x y \<longleftrightarrow>
     t \<in> {RESELECT_FINAL_SUBMISSIONS_IN_CONTEST_PROBLEM, DELETE_CONTEST_PROBLEM} \<and> x = Some a"
  "R_user a \<in> job_resources t x y \<longleftrightarrow>
     t = DELETE_USER \<and> x = Some a \<or> t = MERGE_USERS \<and> (x = Some a \<or> y = Some a)"
  "R_contest a \<in> job_resources t x y \<longleftrightarrow> t = DELETE_CONTEST \<and> x = Some a"
  "R_contest_round a \<in> job_resources t x y \<longleftrightarrow> t = DELETE_CONTEST_ROUND \<and> x = Some a"
  "R_internal_file a \<in> job_resources t x y \<longleftrightarrow> t = DELETE_INTERNAL_FILE \<and> x = Some a"
  by (cases t; force)+

lemma sql_false_iffs:
  "sql_true (sql_not c) \<longleftrightarrow> c = Some False"
  "sql_and c d = Some False \<longleftrightarrow> c = Some False \<or> d = Some False"
  "sql_or c d = Some False \<longleftrightarrow> c = Some False \<and> d = Some False"
  "sql_eq x v = Some False \<longleftrightarrow> x \<noteq> None \<and> x \<noteq> Some v"
  "sql_in x vs = Some False \<longleftrightarrow> x \<noteq> None \<and> the x \<notin> set vs"
  by (cases c; auto simp: sql_true_def sql_not_def sql_and_def sql_or_def sql_eq_def sql_in_def)+

text \<open>
  The shapes of the conditions, on a row that has the identifiers its type needs: there NULL never
  decides.
\<close>

lemma false_type_aux:
  "(p \<Longrightarrow> x \<noteq> None) \<Longrightarrow> sql_and (Some p) (sql_eq x a) = Some (p \<and> x = Some a)"
  "(p \<Longrightarrow> x \<noteq> None) \<Longrightarrow> sql_and (Some p) (sql_in x [a, b]) = Some (p \<and> x \<in> {Some a, Some b})"
  by (cases p; cases x; auto)+

lemma false_type_aux_or:
  "(p \<Longrightarrow> x \<noteq> None \<and> y \<noteq> None) \<Longrightarrow>
   sql_and (Some p) (sql_or (sql_eq x a) (sql_eq y a)) = Some (p \<and> (x = Some a \<or> y = Some a))"
  "(p \<Longrightarrow> x \<noteq> None \<and> y \<noteq> None) \<Longrightarrow>
   sql_and (Some p) (sql_or (sql_in x [a, b]) (sql_in y [a, b])) =
     Some (p \<and> (x \<in> {Some a, Some b} \<or> y \<in> {Some a, Some b}))"
  by (cases p; cases x; cases y; auto)+

lemma aux_okD:
  assumes "aux_ok t x y"
  shows "t \<in> set ts \<Longrightarrow> ADD_PROBLEM \<notin> set ts \<Longrightarrow> x \<noteq> None"
    and "t = u \<Longrightarrow> u \<noteq> ADD_PROBLEM \<Longrightarrow> x \<noteq> None"
    and "t = u \<Longrightarrow> u \<in> {MERGE_PROBLEMS, MERGE_USERS} \<Longrightarrow> x \<noteq> None \<and> y \<noteq> None"
  using assms by (auto simp: aux_ok_def)

lemma eval_type_aux:
  assumes "aux_ok (job_type j) (job_aux_id j) (job_aux_id_2 j)"
  shows "ADD_PROBLEM \<notin> set ts \<Longrightarrow>
       eval_cond (Cond_and (Type_in ts) (Aux_eq a)) j =
       Some (job_type j \<in> set ts \<and> job_aux_id j = Some a)"
    and "t \<noteq> ADD_PROBLEM \<Longrightarrow>
       eval_cond (Cond_and (Type_eq t) (Aux_eq a)) j =
       Some (job_type j = t \<and> job_aux_id j = Some a)"
    and "ADD_PROBLEM \<notin> set ts \<Longrightarrow>
       eval_cond (Cond_and (Type_in ts) (Aux_in [a, b])) j =
       Some (job_type j \<in> set ts \<and> job_aux_id j \<in> {Some a, Some b})"
    and "t \<noteq> ADD_PROBLEM \<Longrightarrow>
       eval_cond (Cond_and (Type_eq t) (Aux_in [a, b])) j =
       Some (job_type j = t \<and> job_aux_id j \<in> {Some a, Some b})"
    and "t \<in> {MERGE_PROBLEMS, MERGE_USERS} \<Longrightarrow>
       eval_cond (Cond_and (Type_eq t) (Cond_or (Aux_eq a) (Aux2_eq a))) j =
       Some (job_type j = t \<and> (job_aux_id j = Some a \<or> job_aux_id_2 j = Some a))"
    and "t \<in> {MERGE_PROBLEMS, MERGE_USERS} \<Longrightarrow>
       eval_cond (Cond_and (Type_eq t) (Cond_or (Aux_in [a, b]) (Aux2_in [a, b]))) j =
       Some (job_type j = t \<and>
         (job_aux_id j \<in> {Some a, Some b} \<or> job_aux_id_2 j \<in> {Some a, Some b}))"
  unfolding eval_cond.simps
  by (rule false_type_aux false_type_aux_or; erule (1) aux_okD [OF assms])+

lemma eval_not_or:
  "eval_cond c j = Some p \<Longrightarrow> sql_true (eval_cond (Cond_not c) j) = (\<not> p)"
  "eval_cond c j = Some p \<Longrightarrow> eval_cond d j = Some q \<Longrightarrow>
     sql_true (eval_cond (Cond_not (Cond_or c d)) j) = (\<not> p \<and> \<not> q)"
  by simp_all

lemma two_ids:
  "\<not> (p \<and> x \<in> {a, b} \<or> q \<and> (x \<in> {a, b} \<or> y \<in> {a, b})) \<longleftrightarrow>
   \<not> (p \<and> x = a \<or> q \<and> (x = a \<or> y = a)) \<and> \<not> (p \<and> x = b \<or> q \<and> (x = b \<or> y = b))"
  by blast

lemma pair_disjoint: "{p, q} \<inter> X = {} \<longleftrightarrow> p \<notin> X \<and> q \<notin> X"
  by blast

lemma cond_disjoint_merge_problems:
  assumes "aux_ok (job_type j) (job_aux_id j) (job_aux_id_2 j)"
    and "in_progress_cond MERGE_PROBLEMS (Some a) (Some b) = Inr (Some c)"
  shows "sql_true (eval_cond c j) \<longleftrightarrow>
    {R_problem a, R_problem b} \<inter>
      job_resources (job_type j) (job_aux_id j) (job_aux_id_2 j) = {}"
proof -
  note eval = eval_type_aux [OF assms(1)]
  have c: "c = Cond_not (Cond_or (Cond_and (Type_in problem_job_types) (Aux_in [a, b]))
      (Cond_and (Type_eq MERGE_PROBLEMS) (Cond_or (Aux_in [a, b]) (Aux2_in [a, b]))))"
    using assms(2) by simp
  have "sql_true (eval_cond c j) \<longleftrightarrow>
      \<not> (job_type j \<in> set problem_job_types \<and> job_aux_id j \<in> {Some a, Some b} \<or>
         job_type j = MERGE_PROBLEMS \<and>
           (job_aux_id j \<in> {Some a, Some b} \<or> job_aux_id_2 j \<in> {Some a, Some b}))"
    unfolding c by (subst eval_not_or(2) [OF eval(3) eval(6)]) (simp, simp, blast)
  then show ?thesis unfolding two_ids pair_disjoint resource_iffs .
qed

lemma cond_disjoint_merge_users:
  assumes "aux_ok (job_type j) (job_aux_id j) (job_aux_id_2 j)"
    and "in_progress_cond MERGE_USERS (Some a) (Some b) = Inr (Some c)"
  shows "sql_true (eval_cond c j) \<longleftrightarrow>
    {R_user a, R_user b} \<inter>
      job_resources (job_type j) (job_aux_id j) (job_aux_id_2 j) = {}"
proof -
  note eval = eval_type_aux [OF assms(1)]
  have c: "c = Cond_not (Cond_or (Cond_and (Type_eq DELETE_USER) (Aux_in [a, b]))
      (Cond_and (Type_eq MERGE_USERS) (Cond_or (Aux_in [a, b]) (Aux2_in [a, b]))))"
    using assms(2) by simp
  have "sql_true (eval_cond c j) \<longleftrightarrow>
      \<not> (job_type j = DELETE_USER \<and> job_aux_id j \<in> {Some a, Some b} \<or>
         job_type j = MERGE_USERS \<and>
           (job_aux_id j \<in> {Some a, Some b} \<or> job_aux_id_2 j \<in> {Some a, Some b}))"
    unfolding c by (subst eval_not_or(2) [OF eval(4) eval(6)]) (simp, simp, blast)
  then show ?thesis unfolding two_ids pair_disjoint resource_iffs .
qed

lemma cond_disjoint:
  assumes cond: "in_progress_cond t aux aux2 = Inr (Some c)"
    and ok: "aux_ok (job_type j) (job_aux_id j) (job_aux_id_2 j)"
  shows "sql_true (eval_cond c j) \<longleftrightarrow>
    job_resources t aux aux2 \<inter>
      job_resources (job_type j) (job_aux_id j) (job_aux_id_2 j) = {}"
proof -
  have ok': "aux_ok t aux aux2" using cond in_progress_cond_ok by blast
  have "t \<noteq> ADD_PROBLEM" using cond by auto
  then obtain a where a: "aux = Some a" using ok' by (auto simp: aux_ok_def)
  note eval = eval_type_aux [OF ok] eval_cond.simps(8,10)
  show ?thesis
  proof (cases "t \<in> {MERGE_PROBLEMS, MERGE_USERS}")
    case True
    then obtain b where "aux2 = Some b" using ok' by (auto simp: aux_ok_def)
    then show ?thesis
      using cond True a cond_disjoint_merge_problems [OF ok] cond_disjoint_merge_users [OF ok]
      by fastforce
  next
    case False
    show ?thesis using cond [symmetric] False a
      by (cases t) (simp_all add: eval resource_iffs disjoint_iff del: eval_cond.simps(9))
  qed
qed

section \<open>The builder as a map from the jobs in progress to their conditions\<close>

definition filter_ok :: "job_filter \<Rightarrow> bool" where
  "filter_ok m \<longleftrightarrow> sorted (map fst m) \<and> distinct (map fst m)"

abbreviation task_resources :: "task \<Rightarrow> resource set" where
  "task_resources t \<equiv> job_resources (task_type t) (task_aux_id t) (task_aux_id_2 t)"

abbreviation resources_of :: "job \<Rightarrow> resource set" where
  "resources_of j \<equiv> job_resources (job_type j) (job_aux_id j) (job_aux_id_2 j)"

abbreviation task_ok :: "task \<Rightarrow> bool" where
  "task_ok t \<equiv> aux_ok (task_type t) (task_aux_id t) (task_aux_id_2 t)"

abbreviation job_ok :: "job \<Rightarrow> bool" where
  "job_ok j \<equiv> aux_ok (job_type j) (job_aux_id j) (job_aux_id_2 j)"

abbreviation task_cond :: "task \<Rightarrow> job_cond option res" where
  "task_cond t \<equiv> in_progress_cond (task_type t) (task_aux_id t) (task_aux_id_2 t)"

abbreviation add_task :: "task \<Rightarrow> job_filter \<Rightarrow> job_filter res" where
  "add_task t m \<equiv>
     add_in_progress_job (task_job_id t) (task_type t) (task_aux_id t) (task_aux_id_2 t) m"

lemma filter_ok_Nil [simp]: "filter_ok []"
  by (simp add: filter_ok_def)

lemma add_in_progress_job_cases:
  assumes "add_in_progress_job i t x y m = Inr m'"
  obtains "in_progress_cond t x y = Inr None" and "m' = m"
  | c where "in_progress_cond t x y = Inr (Some c)" and "m' = cond_emplace i c m"
proof (cases "in_progress_cond t x y")
  case (Inl e)
  then show ?thesis using assms by (simp add: add_in_progress_job_def)
next
  case (Inr oc)
  then show ?thesis using assms that by (cases oc) (simp_all add: add_in_progress_job_def)
qed

lemma filter_ok_add: "add_in_progress_job i t x y m = Inr m' \<Longrightarrow> filter_ok m \<Longrightarrow> filter_ok m'"
  by (erule add_in_progress_job_cases) (simp_all add: filter_ok_def sorted_cond_emplace)

lemma filter_ok_remove: "filter_ok m \<Longrightarrow> filter_ok (remove_in_progress_job i m)"
  unfolding remove_in_progress_job_def filter_ok_def
  by (simp add: sorted_filter distinct_map_filter)

lemma set_remove_in_progress_job:
  "set (remove_in_progress_job i m) = {(k, c) \<in> set m. k \<noteq> i}"
  by (auto simp: remove_in_progress_job_def)

text \<open>The entries a task contributes: one, or none for ADD_PROBLEM.\<close>

definition task_entries :: "task \<Rightarrow> (id \<times> job_cond) set" where
  "task_entries t = {(task_job_id t, c) | c. task_cond t = Inr (Some c)}"

lemma add_task_set:
  assumes "add_task t m = Inr m'" and "filter_ok m" and "task_job_id t \<notin> fst ` set m"
  shows "set m' = set m \<union> task_entries t"
  using assms(1)
  by (rule add_in_progress_job_cases)
    (use assms(2,3) in \<open>simp_all add: filter_ok_def set_cond_emplace task_entries_def\<close>)

lemma add_task_succeeds: "(\<exists>m'. add_task t m = Inr m') \<longleftrightarrow> task_ok t"
proof (cases "task_cond t")
  case (Inl e)
  then show ?thesis by (simp add: add_in_progress_job_def in_progress_cond_ok)
next
  case (Inr oc)
  then show ?thesis by (cases oc) (simp_all add: add_in_progress_job_def in_progress_cond_ok)
qed

lemma task_cond_allows:
  assumes "task_ok t" and "job_ok j"
  shows "(\<forall>c. task_cond t = Inr (Some c) \<longrightarrow> sql_true (eval_cond c j)) \<longleftrightarrow>
    task_resources t \<inter> resources_of j = {}"
proof -
  obtain oc where oc: "task_cond t = Inr oc" using assms(1) in_progress_cond_ok by blast
  show ?thesis
  proof (cases oc)
    case None
    then have "task_type t = ADD_PROBLEM" using oc in_progress_cond_None by metis
    then show ?thesis by simp
  next
    case (Some c)
    then show ?thesis using cond_disjoint [OF _ assms(2), of _ _ _ c] oc by auto
  qed
qed

lemma task_entries_fst: "(k, c) \<in> task_entries t \<Longrightarrow> k = task_job_id t"
  by (simp add: task_entries_def)

text \<open>All tasks in progress added one after another.\<close>

fun add_tasks :: "task list \<Rightarrow> job_filter \<Rightarrow> job_filter res" where
  "add_tasks [] m = Inr m"
| "add_tasks (t # ts) m = bind_res (add_task t m) (add_tasks ts)"

lemma disjoint_Un_single: "E \<subseteq> {k} \<Longrightarrow> k \<notin> A \<Longrightarrow> A \<inter> B = {} \<Longrightarrow> A \<inter> (B \<union> E) = {}"
  by blast

lemma add_tasks_set:
  assumes "add_tasks ts m = Inr m'" and "filter_ok m" and "distinct (map task_job_id ts)"
    and "task_job_id ` set ts \<inter> fst ` set m = {}"
  shows "set m' = set m \<union> (\<Union>t \<in> set ts. task_entries t)"
  using assms
proof (induction ts arbitrary: m)
  case Nil
  then show ?case by simp
next
  case (Cons t ts)
  then obtain m1 where m1: "add_task t m = Inr m1" "add_tasks ts m1 = Inr m'"
    by (auto simp: bind_res_eq_Inr)
  have set1: "set m1 = set m \<union> task_entries t"
    by (rule add_task_set [OF m1(1)]) (use Cons.prems in auto)
  have "set m' = set m1 \<union> (\<Union>t \<in> set ts. task_entries t)"
  proof (rule Cons.IH [OF m1(2) filter_ok_add [OF m1(1) Cons.prems(2)]])
    show "distinct (map task_job_id ts)" using Cons.prems(3) by simp
    have "fst ` task_entries t \<subseteq> {task_job_id t}" by (auto dest: task_entries_fst)
    moreover have "task_job_id t \<notin> task_job_id ` set ts" using Cons.prems(3) by simp
    moreover have "task_job_id ` set ts \<inter> fst ` set m = {}" using Cons.prems(4) by auto
    ultimately show "task_job_id ` set ts \<inter> fst ` set m1 = {}"
      unfolding set1 image_Un by (rule disjoint_Un_single)
  qed
  then show ?case by (simp add: set1 Un_assoc)
qed

section \<open>Properties\<close>

text \<open>
  C31. The condition the scheduler appends to its query is exact. When it was built from jobs in
  progress (with their identifiers, each job once), a well-formed pending row passes it if and only
  if the row works on no submission, problem, contest problem, user, contest, round or file that
  one of the jobs in progress works on: no collision is let through, and no other job is held back.
\<close>

theorem filter_exact:
  assumes "add_tasks ts [] = Inr m" and "distinct (map task_job_id ts)"
    and "\<forall>t \<in> set ts. task_ok t" and "job_ok j"
  shows "sql_true (eval_cond (build_condition m) j) \<longleftrightarrow>
    (\<forall>t \<in> set ts. task_resources t \<inter> resources_of j = {})"
proof -
  have "set m = (\<Union>t \<in> set ts. task_entries t)"
    using add_tasks_set [OF assms(1) _ assms(2)] by simp
  then have "sql_true (eval_cond (build_condition m) j) \<longleftrightarrow>
      (\<forall>t \<in> set ts. \<forall>c. task_cond t = Inr (Some c) \<longrightarrow> sql_true (eval_cond c j))"
    unfolding eval_build_condition task_entries_def by blast
  then show ?thesis using task_cond_allows [OF _ assms(4)] assms(3) by blast
qed

definition sample_job :: job where
  "sample_job = \<lparr> job_id = 9, job_created_at = ''2024-01-01 00:00:00'', job_creator = None,
     job_type = DELETE_PROBLEM, job_priority = 25, job_status = Job_PENDING,
     job_aux_id = Some 4, job_aux_id_2 = None, job_log = [] \<rparr>"

definition sample_merge_task :: task where
  "sample_merge_task = \<lparr> task_job_id = 2, task_type = MERGE_PROBLEMS,
     task_aux_id = Some 3, task_aux_id_2 = Some 4 \<rparr>"

definition sample_judge_task :: task where
  "sample_judge_task = \<lparr> task_job_id = 1, task_type = JUDGE_SUBMISSION,
     task_aux_id = Some 4, task_aux_id_2 = None \<rparr>"

lemma sample_add_tasks:
  "add_tasks [sample_merge_task, sample_judge_task] [] = Inr
     [(1, Cond_not (Cond_and (Type_in [JUDGE_SUBMISSION, REJUDGE_SUBMISSION]) (Aux_eq 4))),
      (2, Cond_not (Cond_or
       (Cond_and (Type_in problem_job_types) (Aux_in [3, 4]))
       (Cond_and (Type_eq MERGE_PROBLEMS) (Cond_or (Aux_in [3, 4]) (Aux2_in [3, 4])))))]"
  by (simp add: sample_merge_task_def sample_judge_task_def add_in_progress_job_def)

lemma filter_exact_witness:
  "\<exists>m. add_tasks [sample_merge_task, sample_judge_task] [] = Inr m \<and>
     \<not> sql_true (eval_cond (build_condition m) sample_job) \<and>
     sql_true (eval_cond (build_condition m) (sample_job\<lparr>job_aux_id := Some 5\<rparr>))"
proof -
  note exact = filter_exact [OF sample_add_tasks]
  show ?thesis
    by (rule exI, rule conjI [OF sample_add_tasks], rule conjI; subst exact)
      (simp_all add: sample_merge_task_def sample_judge_task_def sample_job_def aux_ok_def)
qed

text \<open>
  Registering a job fails, with the exception of \<open>std::optional::value()\<close>, exactly on a row that
  lacks an identifier its type needs; the only type that needs none is ADD_PROBLEM, which adds no
  condition.
\<close>

theorem add_in_progress_job_error:
  "add_in_progress_job jid jtype aux aux2 m = Inl Bad_optional_access \<longleftrightarrow>
     (jtype \<noteq> ADD_PROBLEM \<and> aux = None) \<or>
     (jtype = MERGE_PROBLEMS \<or> jtype = MERGE_USERS) \<and> aux2 = None"
  by (cases jtype; cases aux; cases aux2) (simp_all add: add_in_progress_job_def)

end
