(* ===== verification/Bounded_Queue.thy ===== *)
theory Bounded_Queue
  imports Sim_Prelude
begin

text \<open>
  \<open>concurrent::Semaphore\<close> and \<open>concurrent::BoundedQueue\<close> of simlib
  (src/subprojects/simlib/include/simlib/concurrent/), the channels of the job server. The queue is
  two counting semaphores around a deque under a mutex; the threads interleave between the
  semaphore operation and the critical section. The theory proves that this implements an atomic
  bounded FIFO channel that can be closed.
\<close>

section \<open>Semaphores\<close>

text \<open>\<open>wait\<close> blocks (\<open>None\<close>) at zero; \<open>try_wait\<close> tells whether it decremented.\<close>

fun sem_wait :: "nat \<Rightarrow> nat option" where
  "sem_wait 0 = None"
| "sem_wait (Suc n) = Some n"

fun sem_try_wait :: "nat \<Rightarrow> bool \<times> nat" where
  "sem_try_wait 0 = (False, 0)"
| "sem_try_wait (Suc n) = (True, n)"

definition sem_post :: "nat \<Rightarrow> nat" where
  "sem_post n = Suc n"

lemma sem_wait_Some [simp]: "sem_wait n = Some m \<longleftrightarrow> n = Suc m"
  by (cases n) auto

lemma sem_wait_None [simp]: "sem_wait n = None \<longleftrightarrow> n = 0"
  by (cases n) auto

section \<open>The queue and its critical sections\<close>

record 'e bqueue =
  free_slots :: nat
  queued_elems :: nat
  elems :: "'e list"

definition new_bqueue :: "nat \<Rightarrow> 'e bqueue" where
  "new_bqueue max_size = \<lparr> free_slots = max_size, queued_elems = 0, elems = [] \<rparr>"

definition pop_elem :: "'e \<Rightarrow> 'e list \<Rightarrow> 'e bqueue \<Rightarrow> 'e bqueue" where
  "pop_elem e es q = q\<lparr>elems := es, free_slots := sem_post (free_slots q)\<rparr>"

text \<open>\<open>extract_elem\<close> throws \<open>NoMoreElems\<close> (here \<open>Inl ()\<close>), \<open>extract_elem_opt\<close> returns nullopt.\<close>

definition extract_elem :: "'e bqueue \<Rightarrow> (unit + 'e) \<times> 'e bqueue" where
  "extract_elem q =
     (case elems q of
        e # es \<Rightarrow> (Inr e, pop_elem e es q)
      | [] \<Rightarrow> (Inl (), q\<lparr>queued_elems := sem_post (queued_elems q)\<rparr>))"

definition extract_elem_opt :: "'e bqueue \<Rightarrow> 'e option \<times> 'e bqueue" where
  "extract_elem_opt q =
     (case elems q of
        e # es \<Rightarrow> (Some e, pop_elem e es q)
      | [] \<Rightarrow> (None, q\<lparr>queued_elems := sem_post (queued_elems q)\<rparr>))"

text \<open>The part of \<open>push\<close> under the mutex.\<close>

definition push_elem :: "'e \<Rightarrow> 'e bqueue \<Rightarrow> 'e bqueue" where
  "push_elem e q = q\<lparr>elems := elems q @ [e], queued_elems := sem_post (queued_elems q)\<rparr>"

definition signal_no_more_elems :: "'e bqueue \<Rightarrow> 'e bqueue" where
  "signal_no_more_elems q = q\<lparr>queued_elems := sem_post (queued_elems q)\<rparr>"

fun increment_queue_size :: "nat \<Rightarrow> 'e bqueue \<Rightarrow> 'e bqueue" where
  "increment_queue_size 0 q = q"
| "increment_queue_size (Suc n) q =
     increment_queue_size n (q\<lparr>free_slots := sem_post (free_slots q)\<rparr>)"

lemmas bqueue_defs = new_bqueue_def pop_elem_def push_elem_def signal_no_more_elems_def sem_post_def

lemma increment_queue_size_eq [simp]:
  "increment_queue_size n q = q\<lparr>free_slots := free_slots q + n\<rparr>"
  by (induction n arbitrary: q) (simp_all add: sem_post_def)

section \<open>Threads\<close>

text \<open>
  A thread is between calls, before or after the semaphore wait of a call. \<open>pop\<close> and \<open>try_pop\<close>
  share the throwing critical section.
\<close>

datatype 'e bq_pc =
    Outside
  | Push_wait 'e
  | Push_locked 'e
  | Pop_wait
  | Pop_opt_wait
  | Pop_locked
  | Pop_opt_locked

text \<open>The state: the queue and the threads, with two ghost counters.\<close>

record 'e bq_sys =
  bq :: "'e bqueue"
  threads :: "'e bq_pc list"
  capacity :: nat
  signals :: nat

datatype 'e bq_event =
    Ev_silent
  | Ev_pushed 'e
  | Ev_popped 'e
  | Ev_no_more
  | Ev_empty_now
  | Ev_signalled
  | Ev_grown nat

abbreviation set_pc :: "nat \<Rightarrow> 'e bq_pc \<Rightarrow> 'e bq_sys \<Rightarrow> 'e bq_sys" where
  "set_pc i p s \<equiv> s\<lparr>threads := (threads s)[i := p]\<rparr>"

inductive bq_step :: "'e bq_sys \<Rightarrow> 'e bq_event \<Rightarrow> 'e bq_sys \<Rightarrow> bool" where
  call: "i < length (threads s) \<Longrightarrow> threads s ! i = Outside \<Longrightarrow>
     p \<in> {Push_wait e, Pop_wait, Pop_opt_wait} \<Longrightarrow> bq_step s Ev_silent (set_pc i p s)"
| push_wait: "i < length (threads s) \<Longrightarrow> threads s ! i = Push_wait e \<Longrightarrow>
     sem_wait (free_slots (bq s)) = Some n \<Longrightarrow>
     bq_step s Ev_silent (set_pc i (Push_locked e) (s\<lparr>bq := (bq s)\<lparr>free_slots := n\<rparr>\<rparr>))"
| push_locked: "i < length (threads s) \<Longrightarrow> threads s ! i = Push_locked e \<Longrightarrow>
     bq_step s (Ev_pushed e) (set_pc i Outside (s\<lparr>bq := push_elem e (bq s)\<rparr>))"
| pop_wait: "i < length (threads s) \<Longrightarrow> threads s ! i = Pop_wait \<Longrightarrow>
     sem_wait (queued_elems (bq s)) = Some n \<Longrightarrow>
     bq_step s Ev_silent (set_pc i Pop_locked (s\<lparr>bq := (bq s)\<lparr>queued_elems := n\<rparr>\<rparr>))"
| pop_opt_wait: "i < length (threads s) \<Longrightarrow> threads s ! i = Pop_opt_wait \<Longrightarrow>
     sem_wait (queued_elems (bq s)) = Some n \<Longrightarrow>
     bq_step s Ev_silent (set_pc i Pop_opt_locked (s\<lparr>bq := (bq s)\<lparr>queued_elems := n\<rparr>\<rparr>))"
| try_pop: "i < length (threads s) \<Longrightarrow> threads s ! i = Outside \<Longrightarrow>
     sem_try_wait (queued_elems (bq s)) = (True, n) \<Longrightarrow>
     bq_step s Ev_silent (set_pc i Pop_locked (s\<lparr>bq := (bq s)\<lparr>queued_elems := n\<rparr>\<rparr>))"
| try_pop_empty: "i < length (threads s) \<Longrightarrow> threads s ! i = Outside \<Longrightarrow>
     sem_try_wait (queued_elems (bq s)) = (False, n) \<Longrightarrow> bq_step s Ev_empty_now s"
| pop_elem: "i < length (threads s) \<Longrightarrow> threads s ! i = Pop_locked \<Longrightarrow>
     extract_elem (bq s) = (Inr e, q') \<Longrightarrow>
     bq_step s (Ev_popped e) (set_pc i Outside (s\<lparr>bq := q'\<rparr>))"
| pop_throws: "i < length (threads s) \<Longrightarrow> threads s ! i = Pop_locked \<Longrightarrow>
     extract_elem (bq s) = (Inl (), q') \<Longrightarrow>
     bq_step s Ev_no_more (set_pc i Outside (s\<lparr>bq := q'\<rparr>))"
| pop_opt_elem: "i < length (threads s) \<Longrightarrow> threads s ! i = Pop_opt_locked \<Longrightarrow>
     extract_elem_opt (bq s) = (Some e, q') \<Longrightarrow>
     bq_step s (Ev_popped e) (set_pc i Outside (s\<lparr>bq := q'\<rparr>))"
| pop_opt_none: "i < length (threads s) \<Longrightarrow> threads s ! i = Pop_opt_locked \<Longrightarrow>
     extract_elem_opt (bq s) = (None, q') \<Longrightarrow>
     bq_step s Ev_no_more (set_pc i Outside (s\<lparr>bq := q'\<rparr>))"
| signal: "i < length (threads s) \<Longrightarrow> threads s ! i = Outside \<Longrightarrow>
     bq_step s Ev_signalled
       (s\<lparr>bq := signal_no_more_elems (bq s), signals := Suc (signals s)\<rparr>)"
| grow: "i < length (threads s) \<Longrightarrow> threads s ! i = Outside \<Longrightarrow>
     bq_step s (Ev_grown n)
       (s\<lparr>bq := increment_queue_size n (bq s), capacity := capacity s + n\<rparr>)"

text \<open>The events of a run, oldest first.\<close>

inductive bq_run :: "'e bq_sys \<Rightarrow> 'e bq_event list \<Rightarrow> 'e bq_sys \<Rightarrow> bool" where
  run_start: "bq_run s [] s"
| run_step: "bq_run s evs s' \<Longrightarrow> bq_step s' ev s'' \<Longrightarrow> bq_run s (evs @ [ev]) s''"

definition bq_init :: "nat \<Rightarrow> nat \<Rightarrow> 'e bq_sys" where
  "bq_init max_size n =
     \<lparr> bq = new_bqueue max_size, threads = replicate n Outside, capacity = max_size,
       signals = 0 \<rparr>"

section \<open>The semaphore invariant\<close>

text \<open>A thread between the semaphore and the critical section holds a token.\<close>

definition holds_slot :: "'e bq_pc \<Rightarrow> bool" where
  "holds_slot p \<longleftrightarrow> (\<exists>e. p = Push_locked e)"

definition holds_elem :: "'e bq_pc \<Rightarrow> bool" where
  "holds_elem p \<longleftrightarrow> p = Pop_locked \<or> p = Pop_opt_locked"

lemma holds_simps [simp]:
  "\<not> holds_slot Outside" "\<not> holds_slot (Push_wait e)" "holds_slot (Push_locked e)"
  "\<not> holds_slot Pop_wait" "\<not> holds_slot Pop_opt_wait" "\<not> holds_slot Pop_locked"
  "\<not> holds_slot Pop_opt_locked"
  "\<not> holds_elem Outside" "\<not> holds_elem (Push_wait e)" "\<not> holds_elem (Push_locked e)"
  "\<not> holds_elem Pop_wait" "\<not> holds_elem Pop_opt_wait" "holds_elem Pop_locked"
  "holds_elem Pop_opt_locked"
  by (simp_all add: holds_slot_def holds_elem_def)

text \<open>How many threads are in a phase, and how a step of one thread changes it.\<close>

definition count_pc :: "('p \<Rightarrow> bool) \<Rightarrow> 'p list \<Rightarrow> nat" where
  "count_pc P ps = length (filter P ps)"

lemma count_pc_update:
  assumes "i < length ps"
  shows "count_pc P (ps[i := p]) + (if P (ps ! i) then 1 else 0) =
    count_pc P ps + (if P p then 1 else 0)"
  using assms
proof (induction ps arbitrary: i)
  case Nil
  then show ?case by simp
next
  case (Cons x xs)
  then show ?case by (cases i) (auto simp: count_pc_def)
qed

lemma count_pc_pos: "i < length ps \<Longrightarrow> P (ps ! i) \<Longrightarrow> 0 < count_pc P ps"
  by (auto simp: count_pc_def filter_empty_conv)

definition bq_inv :: "'e bq_sys \<Rightarrow> bool" where
  "bq_inv s \<longleftrightarrow>
     free_slots (bq s) + count_pc holds_slot (threads s) + length (elems (bq s)) = capacity s \<and>
     queued_elems (bq s) + count_pc holds_elem (threads s) = length (elems (bq s)) + signals s"

lemma bq_inv_init: "bq_inv (bq_init max_size n)"
  by (simp add: bq_inv_def bq_init_def new_bqueue_def count_pc_def)

inductive_cases bq_stepE: "bq_step s ev s'"

lemma extract_elem_cases:
  "extract_elem q = (Inr e, q') \<longleftrightarrow> (\<exists>es. elems q = e # es \<and> q' = pop_elem e es q)"
  "extract_elem q = (Inl u, q') \<longleftrightarrow>
     elems q = [] \<and> q' = q\<lparr>queued_elems := sem_post (queued_elems q)\<rparr>"
  "extract_elem_opt q = (Some e, q') \<longleftrightarrow> (\<exists>es. elems q = e # es \<and> q' = pop_elem e es q)"
  "extract_elem_opt q = (None, q') \<longleftrightarrow>
     elems q = [] \<and> q' = q\<lparr>queued_elems := sem_post (queued_elems q)\<rparr>"
  by (auto simp: extract_elem_def extract_elem_opt_def split: list.splits)

lemma sem_try_wait_cases [simp]:
  "sem_try_wait n = (True, m) \<longleftrightarrow> n = Suc m"
  "sem_try_wait n = (False, m) \<longleftrightarrow> n = 0 \<and> m = 0"
  by (cases n; auto)+

text \<open>One thread moves to a new phase: both token counts follow.\<close>

lemma token_counts:
  assumes "i < length ps"
  shows "count_pc holds_slot (ps[i := p]) + (if holds_slot (ps ! i) then 1 else 0) =
      count_pc holds_slot ps + (if holds_slot p then 1 else 0)"
    and "count_pc holds_elem (ps[i := p]) + (if holds_elem (ps ! i) then 1 else 0) =
      count_pc holds_elem ps + (if holds_elem p then 1 else 0)"
  by (rule count_pc_update [OF assms])+

lemma bq_inv_step: "bq_step s ev s' \<Longrightarrow> bq_inv s \<Longrightarrow> bq_inv s'"
proof (induction rule: bq_step.induct)
  case (call i s p e)
  then show ?case using token_counts [of i "threads s" p] by (auto simp: bq_inv_def)
next
  case (push_wait i s e n)
  then show ?case using token_counts [of i "threads s" "Push_locked e"]
    by (simp add: bq_inv_def)
next
  case (push_locked i s e)
  then show ?case using token_counts [of i "threads s" Outside]
    by (simp add: bq_inv_def bqueue_defs)
next
  case (try_pop i s n)
  then show ?case using token_counts [of i "threads s" Pop_locked] by (simp add: bq_inv_def)
next
  case (pop_wait i s n)
  then show ?case using token_counts [of i "threads s" Pop_locked] by (simp add: bq_inv_def)
next
  case (pop_opt_wait i s n)
  then show ?case using token_counts [of i "threads s" Pop_opt_locked] by (simp add: bq_inv_def)
next
  case (pop_elem i s e q')
  then show ?case using token_counts [of i "threads s" Outside]
    by (auto simp: bq_inv_def bqueue_defs extract_elem_cases)
next
  case (pop_throws i s q')
  then show ?case using token_counts [of i "threads s" Outside]
    by (auto simp: bq_inv_def bqueue_defs extract_elem_cases)
next
  case (pop_opt_elem i s e q')
  then show ?case using token_counts [of i "threads s" Outside]
    by (auto simp: bq_inv_def bqueue_defs extract_elem_cases)
next
  case (pop_opt_none i s q')
  then show ?case using token_counts [of i "threads s" Outside]
    by (auto simp: bq_inv_def bqueue_defs extract_elem_cases)
qed (simp_all add: bq_inv_def bqueue_defs)

lemma bq_inv_run: "bq_run s evs s' \<Longrightarrow> bq_inv s \<Longrightarrow> bq_inv s'"
  by (induction rule: bq_run.induct) (auto intro: bq_inv_step)

section \<open>The abstract channel\<close>

text \<open>
  The specification: an atomic FIFO of bounded length that can be closed. A consumer is told that
  there are no more elements only when the channel is empty and closed.
\<close>

record 'e channel =
  ch_elems :: "'e list"
  ch_cap :: nat
  ch_closed :: bool

inductive ch_step :: "'e channel \<Rightarrow> 'e bq_event \<Rightarrow> 'e channel \<Rightarrow> bool" where
  "ch_step c Ev_silent c"
| "ch_step c Ev_empty_now c"
| "length (ch_elems c) < ch_cap c \<Longrightarrow>
     ch_step c (Ev_pushed e) (c\<lparr>ch_elems := ch_elems c @ [e]\<rparr>)"
| "ch_elems c = e # es \<Longrightarrow> ch_step c (Ev_popped e) (c\<lparr>ch_elems := es\<rparr>)"
| "ch_elems c = [] \<Longrightarrow> ch_closed c \<Longrightarrow> ch_step c Ev_no_more c"
| "ch_step c Ev_signalled (c\<lparr>ch_closed := True\<rparr>)"
| "ch_step c (Ev_grown n) (c\<lparr>ch_cap := ch_cap c + n\<rparr>)"

text \<open>The operations of the channel; \<open>None\<close> means that the caller blocks.\<close>

definition ch_push :: "'e \<Rightarrow> 'e channel \<Rightarrow> 'e channel option" where
  "ch_push e c =
     (if length (ch_elems c) < ch_cap c then Some (c\<lparr>ch_elems := ch_elems c @ [e]\<rparr>) else None)"

definition ch_pop :: "'e channel \<Rightarrow> ('e option \<times> 'e channel) option" where
  "ch_pop c =
     (case ch_elems c of
        e # es \<Rightarrow> Some (Some e, c\<lparr>ch_elems := es\<rparr>)
      | [] \<Rightarrow> if ch_closed c then Some (None, c) else None)"

definition ch_close :: "'e channel \<Rightarrow> 'e channel" where
  "ch_close c = c\<lparr>ch_closed := True\<rparr>"

lemma ch_ops:
  "ch_push e c = Some c' \<longleftrightarrow>
     length (ch_elems c) < ch_cap c \<and> c' = c\<lparr>ch_elems := ch_elems c @ [e]\<rparr>"
  "ch_pop c = Some (Some e, c') \<longleftrightarrow> (\<exists>es. ch_elems c = e # es \<and> c' = c\<lparr>ch_elems := es\<rparr>)"
  "ch_pop c = Some (None, c') \<longleftrightarrow> ch_elems c = [] \<and> ch_closed c \<and> c' = c"
  by (auto simp: ch_push_def ch_pop_def split: list.splits)

lemma ch_step_ops:
  "ch_step c (Ev_pushed e) c' \<longleftrightarrow> ch_push e c = Some c'"
  "ch_step c (Ev_popped e) c' \<longleftrightarrow> ch_pop c = Some (Some e, c')"
  "ch_step c Ev_no_more c' \<longleftrightarrow> ch_pop c = Some (None, c')"
  "ch_step c Ev_signalled c' \<longleftrightarrow> c' = ch_close c"
  unfolding ch_ops ch_close_def by (auto elim: ch_step.cases intro: ch_step.intros)

definition ch_abs :: "'e bq_sys \<Rightarrow> 'e channel" where
  "ch_abs s = \<lparr> ch_elems = elems (bq s), ch_cap = capacity s, ch_closed = (0 < signals s) \<rparr>"

lemma bq_refines_channel:
  "bq_step s ev s' \<Longrightarrow> bq_inv s \<Longrightarrow> ch_step (ch_abs s) ev (ch_abs s')"
proof (induction rule: bq_step.induct)
  case (push_locked i s e)
  then have "0 < count_pc holds_slot (threads s)" using count_pc_pos by fastforce
  then show ?case using push_locked ch_step.intros(3) [of "ch_abs s" e]
    by (simp add: ch_abs_def bq_inv_def bqueue_defs)
next
  case (pop_throws i s q')
  then have "0 < count_pc holds_elem (threads s)" using count_pc_pos by fastforce
  then show ?case using pop_throws ch_step.intros(5) [of "ch_abs s"]
    by (auto simp: ch_abs_def bq_inv_def extract_elem_cases)
next
  case (pop_opt_none i s q')
  then have "0 < count_pc holds_elem (threads s)" using count_pc_pos by fastforce
  then show ?case using pop_opt_none ch_step.intros(5) [of "ch_abs s"]
    by (auto simp: ch_abs_def bq_inv_def extract_elem_cases)
next
  case (pop_elem i s e q')
  then show ?case using ch_step.intros(4) [of "ch_abs s" e]
    by (auto simp: ch_abs_def bqueue_defs extract_elem_cases)
next
  case (pop_opt_elem i s e q')
  then show ?case using ch_step.intros(4) [of "ch_abs s" e]
    by (auto simp: ch_abs_def bqueue_defs extract_elem_cases)
next
  case (signal i s)
  then show ?case using ch_step.intros(6) [of "ch_abs s"] by (simp add: ch_abs_def bqueue_defs)
next
  case (grow i s n)
  then show ?case using ch_step.intros(7) [of "ch_abs s" n] by (simp add: ch_abs_def)
qed (simp_all add: ch_abs_def ch_step.intros)

text \<open>The elements pushed and popped in a list of events.\<close>

fun pushed :: "'e bq_event list \<Rightarrow> 'e list" where
  "pushed [] = []"
| "pushed (Ev_pushed e # evs) = e # pushed evs"
| "pushed (ev # evs) = pushed evs"

fun popped :: "'e bq_event list \<Rightarrow> 'e list" where
  "popped [] = []"
| "popped (Ev_popped e # evs) = e # popped evs"
| "popped (ev # evs) = popped evs"

lemma pushed_append [simp]: "pushed (xs @ ys) = pushed xs @ pushed ys"
  by (induction xs rule: pushed.induct) auto

lemma popped_append [simp]: "popped (xs @ ys) = popped xs @ popped ys"
  by (induction xs rule: popped.induct) auto

lemma bq_step_elems:
  "bq_step s ev s' \<Longrightarrow> popped [ev] @ elems (bq s') = elems (bq s) @ pushed [ev]"
  by (induction rule: bq_step.induct)
    (auto simp: bqueue_defs extract_elem_cases)

lemma bq_run_fifo:
  "bq_run s evs s' \<Longrightarrow> popped evs @ elems (bq s') = elems (bq s) @ pushed evs"
proof (induction rule: bq_run.induct)
  case (run_start s)
  then show ?case by simp
next
  case (run_step s evs s' ev s'')
  have "popped (evs @ [ev]) @ elems (bq s'') = popped evs @ elems (bq s') @ pushed [ev]"
    using bq_step_elems [OF run_step.hyps(2)] by simp
  also have "\<dots> = elems (bq s) @ pushed (evs @ [ev])" using run_step.IH by simp
  finally show ?case .
qed

section \<open>Properties\<close>

text \<open>A run for the witnesses: one of two threads pushes, and signals the end of the elements.\<close>

definition sample_bq :: "nat bq_sys" where
  "sample_bq = \<lparr> bq = \<lparr> free_slots = 0, queued_elems = 2, elems = [7] \<rparr>,
     threads = [Outside, Outside], capacity = 1, signals = 1 \<rparr>"

lemma sample_bq_run:
  "bq_run (bq_init 1 2) [Ev_silent, Ev_silent, Ev_pushed 7, Ev_signalled] sample_bq"
proof -
  let ?s0 = "bq_init 1 2 :: nat bq_sys"
  let ?s1 = "set_pc 0 (Push_wait 7) ?s0"
  let ?s2 = "set_pc 0 (Push_locked 7) (?s1\<lparr>bq := (bq ?s1)\<lparr>free_slots := 0\<rparr>\<rparr>)"
  let ?s3 = "set_pc 0 Outside (?s2\<lparr>bq := push_elem 7 (bq ?s2)\<rparr>)"
  let ?s4 = "?s3\<lparr>bq := signal_no_more_elems (bq ?s3), signals := Suc (signals ?s3)\<rparr>"
  have "bq_step ?s0 Ev_silent ?s1" by (rule bq_step.call) (auto simp: bq_init_def)
  moreover have "bq_step ?s1 Ev_silent ?s2"
    by (rule bq_step.push_wait) (auto simp: bq_init_def new_bqueue_def)
  moreover have "bq_step ?s2 (Ev_pushed 7) ?s3"
    by (rule bq_step.push_locked) (auto simp: bq_init_def)
  moreover have "bq_step ?s3 Ev_signalled ?s4"
    by (rule bq_step.signal [of 0]) (auto simp: bq_init_def)
  ultimately have "bq_run ?s0 (((([] @ [Ev_silent]) @ [Ev_silent]) @ [Ev_pushed 7]) @ [Ev_signalled])
      ?s4"
    by (blast intro: bq_run.intros)
  moreover have "?s4 = sample_bq"
    by (simp add: sample_bq_def bq_init_def bqueue_defs numeral_2_eq_2)
  ultimately show ?thesis by simp
qed

text \<open>
  C33. Every step of the two-semaphore queue, from every state reachable under any interleaving, is
  a step of the atomic bounded channel or invisible in it. In particular a push happens only
  below the bound, a pop returns the oldest element, and \<open>pop\<close>, \<open>pop_opt\<close> and \<open>try_pop\<close> report that
  there are no more elements only when the queue is empty and \<open>signal_no_more_elems\<close> was called.
\<close>

theorem bounded_queue_refines_channel:
  assumes "bq_run (bq_init max_size n) evs s" and "bq_step s ev s'"
  shows "ch_step (ch_abs s) ev (ch_abs s')"
  using bq_refines_channel [OF assms(2) bq_inv_run [OF assms(1) bq_inv_init]] .

lemma bounded_queue_refines_channel_witness:
  "ch_step (ch_abs sample_bq) Ev_silent (ch_abs (set_pc 1 Pop_opt_wait sample_bq))"
  by (rule bounded_queue_refines_channel [OF sample_bq_run], rule bq_step.call)
    (simp_all add: sample_bq_def)

text \<open>
  The queue is FIFO and bounded under every interleaving: from an empty queue of size
  \<open>max_size\<close> shared by \<open>n\<close> threads, what was popped so far followed by what is queued is what was
  pushed so far, in order, and the queue never holds more than its size (plus what
  \<open>increment_queue_size\<close> added).
\<close>

theorem bounded_queue_fifo_bounded:
  assumes "bq_run (bq_init max_size n) evs s"
  shows "pushed evs = popped evs @ elems (bq s) \<and> length (elems (bq s)) \<le> capacity s"
proof -
  have "bq_inv s" by (rule bq_inv_run [OF assms bq_inv_init])
  then have "length (elems (bq s)) \<le> capacity s" by (simp add: bq_inv_def)
  moreover have "pushed evs = popped evs @ elems (bq s)"
    using bq_run_fifo [OF assms] by (simp add: bq_init_def new_bqueue_def)
  ultimately show ?thesis by simp
qed

lemma bounded_queue_fifo_bounded_witness:
  "pushed [Ev_silent, Ev_silent, Ev_pushed 7, Ev_signalled] = [] @ elems (bq sample_bq) \<and>
   length (elems (bq sample_bq)) \<le> capacity sample_bq"
  using bounded_queue_fifo_bounded [OF sample_bq_run] by simp

text \<open>
  No wake-up is lost. In a reachable state where the queue holds an element, or was closed, a
  thread blocked in the wait of \<open>pop_opt\<close> can take its step unless another thread stands before
  its own critical section (which never blocks); likewise a blocked \<open>push\<close> while the queue is not
  full.
\<close>

theorem bounded_queue_no_lost_wakeup:
  assumes "bq_run (bq_init max_size n) evs s" and "i < length (threads s)"
  shows "(threads s ! i = Pop_opt_wait \<and> (elems (bq s) \<noteq> [] \<or> 0 < signals s) \<longrightarrow>
       (\<exists>s'. bq_step s Ev_silent s' \<and> threads s' = (threads s)[i := Pop_opt_locked]) \<or>
       (\<exists>j < length (threads s). holds_elem (threads s ! j)))
    \<and> (threads s ! i = Push_wait e \<and> length (elems (bq s)) < capacity s \<longrightarrow>
       (\<exists>s'. bq_step s Ev_silent s' \<and> threads s' = (threads s)[i := Push_locked e]) \<or>
       (\<exists>j < length (threads s). holds_slot (threads s ! j)))"
proof -
  have inv: "bq_inv s" by (rule bq_inv_run [OF assms(1) bq_inv_init])
  have none: "count_pc P (threads s) = 0" if "\<not> (\<exists>j < length (threads s). P (threads s ! j))"
    for P
    using that by (auto simp: count_pc_def filter_empty_conv in_set_conv_nth)
  have pop: "(\<exists>s'. bq_step s Ev_silent s' \<and> threads s' = (threads s)[i := Pop_opt_locked])"
    if "threads s ! i = Pop_opt_wait" and "elems (bq s) \<noteq> [] \<or> 0 < signals s"
      and "\<not> (\<exists>j < length (threads s). holds_elem (threads s ! j))"
  proof -
    have "0 < queued_elems (bq s)" using inv that(2) none [OF that(3)] by (auto simp: bq_inv_def)
    then obtain m where "queued_elems (bq s) = Suc m" by (cases "queued_elems (bq s)") auto
    then show ?thesis using bq_step.pop_opt_wait [OF assms(2) that(1)] by fastforce
  qed
  have push: "(\<exists>s'. bq_step s Ev_silent s' \<and> threads s' = (threads s)[i := Push_locked e])"
    if "threads s ! i = Push_wait e" and "length (elems (bq s)) < capacity s"
      and "\<not> (\<exists>j < length (threads s). holds_slot (threads s ! j))"
  proof -
    have "0 < free_slots (bq s)" using inv that(2) none [OF that(3)] by (auto simp: bq_inv_def)
    then obtain m where "free_slots (bq s) = Suc m" by (cases "free_slots (bq s)") auto
    then show ?thesis using bq_step.push_wait [OF assms(2) that(1)] by fastforce
  qed
  from pop push show ?thesis by blast
qed

lemma sample_bq_run_wait:
  "bq_run (bq_init 1 2) ([Ev_silent, Ev_silent, Ev_pushed 7, Ev_signalled] @ [Ev_silent])
     (set_pc 1 Pop_opt_wait sample_bq)"
  by (rule bq_run.run_step [OF sample_bq_run], rule bq_step.call) (simp_all add: sample_bq_def)

lemma bounded_queue_no_lost_wakeup_witness:
  "\<exists>s'. bq_step (set_pc 1 Pop_opt_wait sample_bq) Ev_silent s' \<and>
     threads s' = [Outside, Pop_opt_locked]"
proof -
  have "\<not> holds_elem ([Outside, Pop_opt_wait] ! j :: nat bq_pc)" if "j < Suc (Suc 0)" for j
    using that by (cases j) auto
  then have "\<not> (\<exists>j < Suc (Suc 0). holds_elem ([Outside, Pop_opt_wait] ! j :: nat bq_pc))"
    by blast
  then show ?thesis
    using bounded_queue_no_lost_wakeup [OF sample_bq_run_wait, of 1]
    by (simp add: sample_bq_def numeral_2_eq_2) blast
qed

end
