(* ===== verification/Job_Scheduler.thy ===== *)
theory Job_Scheduler
  imports Job_Filter Bounded_Queue
begin

text \<open>
  The job server (src/subprojects/sim/src/job_server/main.cc) as a step relation: the main thread
  with its event loop, the worker threads, and the rest of the system (web server, administrators)
  that inserts, cancels and restarts jobs. The channels are the atomic channels that
  \<open>Bounded_Queue\<close> proves the code's queues to refine.
\<close>

section \<open>The query for the next job\<close>

text \<open>\<open>ORDER BY priority DESC, id\<close>\<close>

definition by_priority :: "job \<Rightarrow> job \<Rightarrow> bool" where
  "by_priority a b \<longleftrightarrow>
     job_priority b < job_priority a \<or> job_priority a = job_priority b \<and> job_id a < job_id b"

interpretation priority: row_order by_priority job_id
  by unfold_locales (auto simp: by_priority_def)

definition runnable :: "job_filter \<Rightarrow> job \<Rightarrow> bool" where
  "runnable m j \<longleftrightarrow>
     sql_true (sql_and (Some (job_status j = Job_PENDING)) (eval_cond (build_condition m) j))"

definition find_new_job :: "job list \<Rightarrow> job_filter \<Rightarrow> job option" where
  "find_new_job js m = first_by by_priority (filter (runnable m) js)"

definition set_job_status :: "job_status \<Rightarrow> id \<Rightarrow> job list \<Rightarrow> job list" where
  "set_job_status st i js = update_where (\<lambda>j. job_id j = i) (\<lambda>j. j\<lparr>job_status := st\<rparr>) js"

text \<open>At startup, jobs left in progress by the previous invocation are pending again.\<close>

definition restart_left_jobs :: "job list \<Rightarrow> job list" where
  "restart_left_jobs js =
     update_where (\<lambda>j. job_status j = Job_IN_PROGRESS) (\<lambda>j. j\<lparr>job_status := Job_PENDING\<rparr>) js"

section \<open>States\<close>

datatype main_pc =
    M_event_loop
  | M_take_worker task
  | M_mark task nat
  | M_pass task nat
  | M_shutdown nat
  | M_joining
  | M_exited
  | M_crashed

text \<open>The flag of \<open>W_processing\<close> records that the handler has committed new jobs already.\<close>

datatype worker_pc =
    W_waiting
  | W_processing task bool
  | W_remove_filter task
  | W_become_idle
  | W_signal
  | W_exited

record sched =
  db_job_rows :: "job list"
  in_progress :: job_filter
  idle_workers :: "nat channel"
  task_channel :: "nat \<Rightarrow> task channel"
  worker :: "nat \<Rightarrow> worker_pc"
  main :: main_pc
  processing_new_jobs :: bool
  worker_finished :: nat
  notify_file_modified :: bool
  not_yet_notified :: nat
  workers_num :: nat

text \<open>What a commit of a job handler may do to the jobs table.\<close>

definition same_job :: "job \<Rightarrow> job \<Rightarrow> bool" where
  "same_job j j' \<longleftrightarrow> job_id j' = job_id j \<and> job_type j' = job_type j \<and> job_status j' = job_status j \<and>
     job_priority j' = job_priority j \<and>
     (job_type j \<noteq> ADD_PROBLEM \<longrightarrow>
        job_aux_id j' = job_aux_id j \<and> job_aux_id_2 j' = job_aux_id_2 j)"

definition handler_commit :: "job list \<Rightarrow> job list \<Rightarrow> bool" where
  "handler_commit js js' \<longleftrightarrow>
     (\<exists>old new. js' = old @ new \<and> list_all2 same_job js old \<and> distinct (map job_id js') \<and>
        (\<forall>j \<in> set new. job_status j = Job_PENDING \<and> job_ok j))"

definition sched_init :: "nat \<Rightarrow> job list \<Rightarrow> sched" where
  "sched_init n js =
     \<lparr> db_job_rows = restart_left_jobs js, in_progress = [],
       idle_workers = \<lparr> ch_elems = [0..<n], ch_cap = n, ch_closed = False \<rparr>,
       task_channel = (\<lambda>w. \<lparr> ch_elems = [], ch_cap = 1, ch_closed = False \<rparr>),
       worker = (\<lambda>w. W_waiting), main = M_event_loop, processing_new_jobs = True,
       worker_finished = 0, notify_file_modified = False, not_yet_notified = 0,
       workers_num = n \<rparr>"

section \<open>Steps\<close>

text \<open>The main thread: \<open>check_for_and_process_a_new_job\<close>, the event handlers, and the shutdown.\<close>

inductive main_step :: "sched \<Rightarrow> sched \<Rightarrow> bool" where
  check_none: "main s = M_event_loop \<Longrightarrow> processing_new_jobs s \<Longrightarrow>
     find_new_job (db_job_rows s) (in_progress s) = None \<Longrightarrow>
     main_step s (s\<lparr>processing_new_jobs := False\<rparr>)"
| check_found: "main s = M_event_loop \<Longrightarrow> processing_new_jobs s \<Longrightarrow>
     find_new_job (db_job_rows s) (in_progress s) = Some j \<Longrightarrow>
     add_task (task_of_job j) (in_progress s) = Inr m \<Longrightarrow>
     main_step s (s\<lparr>in_progress := m, main := M_take_worker (task_of_job j)\<rparr>)"
| check_throws: "main s = M_event_loop \<Longrightarrow> processing_new_jobs s \<Longrightarrow>
     find_new_job (db_job_rows s) (in_progress s) = Some j \<Longrightarrow>
     add_task (task_of_job j) (in_progress s) = Inl e \<Longrightarrow>
     main_step s (s\<lparr>main := M_crashed\<rparr>)"
| take_worker: "main s = M_take_worker t \<Longrightarrow> ch_pop (idle_workers s) = Some (Some w, idle) \<Longrightarrow>
     main_step s (s\<lparr>idle_workers := idle, main := M_mark t w\<rparr>)"
| mark: "main s = M_mark t w \<Longrightarrow>
     main_step s (s\<lparr>db_job_rows := set_job_status Job_IN_PROGRESS (task_job_id t) (db_job_rows s),
       main := M_pass t w\<rparr>)"
| pass: "main s = M_pass t w \<Longrightarrow> ch_push t (task_channel s w) = Some c \<Longrightarrow>
     main_step s (s\<lparr>task_channel := (task_channel s)(w := c), main := M_event_loop\<rparr>)"
| notified: "main s = M_event_loop \<Longrightarrow> notify_file_modified s \<Longrightarrow>
     main_step s (s\<lparr>notify_file_modified := False, processing_new_jobs := True\<rparr>)"
| worker_finished: "main s = M_event_loop \<Longrightarrow> 0 < worker_finished s \<Longrightarrow>
     main_step s (s\<lparr>worker_finished := 0, processing_new_jobs := True\<rparr>)"
| stop: "main s = M_event_loop \<Longrightarrow> main_step s (s\<lparr>main := M_shutdown 0\<rparr>)"
| shutdown_one: "main s = M_shutdown i \<Longrightarrow> i < workers_num s \<Longrightarrow>
     ch_pop (idle_workers s) = Some (Some w, idle) \<Longrightarrow>
     main_step s (s\<lparr>idle_workers := idle,
       task_channel := (task_channel s)(w := ch_close (task_channel s w)),
       main := M_shutdown (Suc i)\<rparr>)"
| shutdown_join: "main s = M_shutdown (workers_num s) \<Longrightarrow> main_step s (s\<lparr>main := M_joining\<rparr>)"
| joined: "main s = M_joining \<Longrightarrow> \<forall>w < workers_num s. worker s w = W_exited \<Longrightarrow>
     main_step s (s\<lparr>main := M_exited\<rparr>)"

text \<open>A worker thread: the loop of the lambda in \<open>main\<close>, with \<open>process_task\<close> as commits.\<close>

inductive worker_step :: "nat \<Rightarrow> sched \<Rightarrow> sched \<Rightarrow> bool" for w where
  pop_task: "worker s w = W_waiting \<Longrightarrow> ch_pop (task_channel s w) = Some (Some t, c) \<Longrightarrow>
     worker_step w s (s\<lparr>task_channel := (task_channel s)(w := c),
       worker := (worker s)(w := W_processing t False)\<rparr>)"
| no_more_tasks: "worker s w = W_waiting \<Longrightarrow> ch_pop (task_channel s w) = Some (None, c) \<Longrightarrow>
     worker_step w s (s\<lparr>worker := (worker s)(w := W_exited)\<rparr>)"
| commit: "worker s w = W_processing t b \<Longrightarrow> handler_commit (db_job_rows s) js \<Longrightarrow>
     worker_step w s (s\<lparr>db_job_rows := js, worker := (worker s)(w := W_processing t True)\<rparr>)"
| finish: "worker s w = W_processing t b \<Longrightarrow> handler_commit (db_job_rows s) js \<Longrightarrow>
     st \<in> {Job_DONE, Job_FAILED, Job_CANCELLED} \<Longrightarrow>
     worker_step w s (s\<lparr>db_job_rows := set_job_status st (task_job_id t) js,
       worker := (worker s)(w := W_remove_filter t)\<rparr>)"
| remove_filter: "worker s w = W_remove_filter t \<Longrightarrow>
     worker_step w s (s\<lparr>in_progress := remove_in_progress_job (task_job_id t) (in_progress s),
       worker := (worker s)(w := W_become_idle)\<rparr>)"
| become_idle: "worker s w = W_become_idle \<Longrightarrow> ch_push w (idle_workers s) = Some idle \<Longrightarrow>
     worker_step w s (s\<lparr>idle_workers := idle, worker := (worker s)(w := W_signal)\<rparr>)"
| signal_main: "worker s w = W_signal \<Longrightarrow>
     worker_step w s (s\<lparr>worker_finished := Suc (worker_finished s),
       worker := (worker s)(w := W_waiting)\<rparr>)"

text \<open>
  The environment. Cancelling and restarting check the status in a statement of their own, so at
  the update the job may have any status.
\<close>

inductive env_step :: "sched \<Rightarrow> sched \<Rightarrow> bool" where
  insert_job: "job_id j \<notin> job_id ` set (db_job_rows s) \<Longrightarrow> job_status j = Job_PENDING \<Longrightarrow> job_ok j \<Longrightarrow>
     env_step s (s\<lparr>db_job_rows := db_job_rows s @ [j],
       not_yet_notified := Suc (not_yet_notified s)\<rparr>)"
| notify_job_server: "not_yet_notified s = Suc k \<Longrightarrow>
     env_step s (s\<lparr>not_yet_notified := k, notify_file_modified := True\<rparr>)"
| cancel_job:
     "env_step s (s\<lparr>db_job_rows := set_job_status Job_CANCELLED i (db_job_rows s)\<rparr>)"
| restart_job:
     "env_step s (s\<lparr>db_job_rows := set_job_status Job_PENDING i (db_job_rows s),
       not_yet_notified := Suc (not_yet_notified s)\<rparr>)"

definition server_step :: "sched \<Rightarrow> sched \<Rightarrow> bool" where
  "server_step s s' \<longleftrightarrow> main_step s s' \<or> (\<exists>w < workers_num s. worker_step w s s')"

inductive reachable :: "nat \<Rightarrow> job list \<Rightarrow> sched \<Rightarrow> bool" for n js where
  reach_init: "reachable n js (sched_init n js)"
| reach_main: "reachable n js s \<Longrightarrow> main_step s s' \<Longrightarrow> reachable n js s'"
| reach_worker: "reachable n js s \<Longrightarrow> w < workers_num s \<Longrightarrow> worker_step w s s' \<Longrightarrow>
     reachable n js s'"
| reach_env: "reachable n js s \<Longrightarrow> env_step s s' \<Longrightarrow> reachable n js s'"

section \<open>Who holds which task\<close>

datatype slot = S_main | S_channel nat | S_worker nat

fun held_main :: "main_pc \<Rightarrow> task option" where
  "held_main (M_take_worker t) = Some t"
| "held_main (M_mark t w) = Some t"
| "held_main (M_pass t w) = Some t"
| "held_main _ = None"

fun held_worker :: "worker_pc \<Rightarrow> task option" where
  "held_worker (W_processing t b) = Some t"
| "held_worker (W_remove_filter t) = Some t"
| "held_worker _ = None"

fun held_channel :: "task list \<Rightarrow> task option" where
  "held_channel [] = None"
| "held_channel (t # ts) = Some t"

fun held :: "sched \<Rightarrow> slot \<Rightarrow> task option" where
  "held s S_main = held_main (main s)"
| "held s (S_channel w) = held_channel (ch_elems (task_channel s w))"
| "held s (S_worker w) = held_worker (worker s w)"

section \<open>Every worker is in exactly one place\<close>

fun main_owns :: "main_pc \<Rightarrow> nat \<Rightarrow> bool" where
  "main_owns (M_mark t v) w = (w = v)"
| "main_owns (M_pass t v) w = (w = v)"
| "main_owns _ w = False"

fun worker_busy :: "worker_pc \<Rightarrow> bool" where
  "worker_busy (W_processing t b) = True"
| "worker_busy (W_remove_filter t) = True"
| "worker_busy W_become_idle = True"
| "worker_busy _ = False"

definition busy :: "sched \<Rightarrow> nat \<Rightarrow> bool" where
  "busy s w \<longleftrightarrow> ch_elems (task_channel s w) \<noteq> [] \<or> worker_busy (worker s w)"

abbreviation idles :: "sched \<Rightarrow> nat list" where
  "idles s \<equiv> ch_elems (idle_workers s)"

abbreviation closed :: "sched \<Rightarrow> nat \<Rightarrow> bool" where
  "closed s w \<equiv> ch_closed (task_channel s w)"

text \<open>The place of a worker, and the phase of a worker with a task waiting, or closed, or gone.\<close>

definition place_ok :: "sched \<Rightarrow> nat \<Rightarrow> bool" where
  "place_ok s w \<longleftrightarrow>
     (w \<in> set (idles s) \<longrightarrow> \<not> main_owns (main s) w \<and> \<not> busy s w \<and> \<not> closed s w) \<and>
     (main_owns (main s) w \<longrightarrow> \<not> busy s w \<and> \<not> closed s w) \<and>
     (busy s w \<longrightarrow> \<not> closed s w) \<and>
     (w \<in> set (idles s) \<or> main_owns (main s) w \<or> busy s w \<or> closed s w) \<and>
     (ch_elems (task_channel s w) \<noteq> [] \<longrightarrow> worker s w = W_waiting \<or> worker s w = W_signal) \<and>
     (worker s w = W_exited \<longrightarrow> closed s w) \<and>
     ch_cap (task_channel s w) = 1 \<and> length (ch_elems (task_channel s w)) \<le> 1"

definition places_ok :: "sched \<Rightarrow> bool" where
  "places_ok s \<longleftrightarrow> distinct (idles s) \<and> set (idles s) \<subseteq> {..<workers_num s} \<and>
     ch_cap (idle_workers s) = workers_num s \<and> \<not> ch_closed (idle_workers s) \<and>
     (\<forall>w. main_owns (main s) w \<longrightarrow> w < workers_num s) \<and>
     (\<forall>w < workers_num s. place_ok s w)"

lemma places_ok_init: "places_ok (sched_init n js)"
  by (auto simp: places_ok_def place_ok_def sched_init_def busy_def)

lemma places_ok_main: "main_step s s' \<Longrightarrow> places_ok s \<Longrightarrow> places_ok s'"
proof (induction rule: main_step.induct)
  case (take_worker s t w idle)
  then show ?case by (auto simp: places_ok_def place_ok_def busy_def ch_ops)
next
  case (pass s t w c)
  then show ?case
    by (cases "worker s w") (auto simp: places_ok_def place_ok_def busy_def ch_ops)
next
  case (shutdown_one s i w idle)
  then show ?case by (auto simp: places_ok_def place_ok_def busy_def ch_ops ch_close_def)
qed (auto simp: places_ok_def place_ok_def busy_def)

lemma places_ok_worker:
  "worker_step w s s' \<Longrightarrow> w < workers_num s \<Longrightarrow> places_ok s \<Longrightarrow> places_ok s'"
proof (induction rule: worker_step.induct)
  case (become_idle s idle)
  then show ?case by (auto simp: places_ok_def place_ok_def busy_def ch_ops)
next
  case (pop_task s t c)
  then show ?case by (auto simp: places_ok_def place_ok_def busy_def ch_ops)
next
  case (no_more_tasks s c)
  then show ?case by (auto simp: places_ok_def place_ok_def busy_def ch_ops)
qed (auto simp: places_ok_def place_ok_def busy_def)

lemma places_ok_env: "env_step s s' \<Longrightarrow> places_ok s \<Longrightarrow> places_ok s'"
  by (induction rule: env_step.induct) (auto simp: places_ok_def place_ok_def busy_def)

lemma reachable_workers_num: "reachable n js s \<Longrightarrow> workers_num s = n"
  by (induction rule: reachable.induct)
    (auto simp: sched_init_def elim: main_step.cases worker_step.cases env_step.cases)

lemma reachable_places_ok: "reachable n js s \<Longrightarrow> places_ok s"
  by (induction rule: reachable.induct)
    (auto intro: places_ok_init places_ok_main places_ok_worker places_ok_env)

text \<open>So no push of the server ever blocks: a popped worker's channel has room, the idle queue too.\<close>

lemma pass_enabled:
  assumes "places_ok s" and "main s = M_pass t w"
  shows "\<exists>c. ch_push t (task_channel s w) = Some c"
  using assms by (auto simp: places_ok_def place_ok_def busy_def ch_ops)

lemma become_idle_enabled:
  assumes ok: "places_ok s" and w: "worker s w = W_become_idle" "w < workers_num s"
  shows "\<exists>c. ch_push w (idle_workers s) = Some c"
proof -
  have "w \<notin> set (idles s)" using ok w by (auto simp: places_ok_def place_ok_def busy_def)
  then have "insert w (set (idles s)) \<subseteq> {..<workers_num s}" "distinct (w # idles s)"
    using ok w by (auto simp: places_ok_def)
  then have "length (w # idles s) \<le> workers_num s"
    using card_mono [of "{..<workers_num s}" "set (w # idles s)"]
    by (metis card_lessThan distinct_card finite_lessThan list.simps(15))
  then show ?thesis using ok by (simp add: ch_ops places_ok_def)
qed

section \<open>The jobs table\<close>

definition rows_ok :: "job list \<Rightarrow> bool" where
  "rows_ok js \<longleftrightarrow> distinct (map job_id js) \<and> (\<forall>j \<in> set js. job_ok j)"

text \<open>The row a task was made from is still there, with the columns the filter reads.\<close>

definition task_row :: "job list \<Rightarrow> task \<Rightarrow> bool" where
  "task_row js t \<longleftrightarrow> (\<exists>j \<in> set js. job_id j = task_job_id t \<and> job_type j = task_type t \<and>
     (task_type t \<noteq> ADD_PROBLEM \<longrightarrow>
        job_aux_id j = task_aux_id t \<and> job_aux_id_2 j = task_aux_id_2 t))"

lemma set_job_status_map:
  "(\<And>j st. f (j\<lparr>job_status := st\<rparr>) = f j) \<Longrightarrow> map f (set_job_status st i js) = map f js"
  unfolding set_job_status_def by (rule map_update_where_frame)

lemma set_job_status_mem:
  "(\<forall>j \<in> set (set_job_status st i js). P j) \<longleftrightarrow>
   (\<forall>j \<in> set js. P (if job_id j = i then j\<lparr>job_status := st\<rparr> else j))"
  "(\<exists>j \<in> set (set_job_status st i js). P j) \<longleftrightarrow>
   (\<exists>j \<in> set js. P (if job_id j = i then j\<lparr>job_status := st\<rparr> else j))"
  unfolding set_job_status_def set_update_where by blast+

lemma rows_ok_status [simp]: "rows_ok (set_job_status st i js) = rows_ok js"
  by (simp add: rows_ok_def set_job_status_map set_job_status_mem cong: if_cong)

lemma task_row_status: "task_row js t \<Longrightarrow> task_row (set_job_status st i js) t"
  unfolding task_row_def set_job_status_mem by (erule bexE, rule bexI) simp_all

lemma task_row_append: "task_row js t \<Longrightarrow> task_row (js @ js') t"
  by (auto simp: task_row_def)

lemma list_all2_memD:
  "list_all2 R xs ys \<Longrightarrow> x \<in> set xs \<Longrightarrow> \<exists>y \<in> set ys. R x y"
  "list_all2 R xs ys \<Longrightarrow> y \<in> set ys \<Longrightarrow> \<exists>x \<in> set xs. R x y"
  by (induction rule: list_all2_induct) auto

lemma task_row_same:
  assumes "list_all2 same_job js js'" and "task_row js t"
  shows "task_row js' t"
proof -
  from assms(2) obtain j where j: "j \<in> set js" "job_id j = task_job_id t"
    "job_type j = task_type t"
    "task_type t \<noteq> ADD_PROBLEM \<longrightarrow>
      job_aux_id j = task_aux_id t \<and> job_aux_id_2 j = task_aux_id_2 t"
    by (auto simp: task_row_def)
  from list_all2_memD(1) [OF assms(1) j(1)] obtain j' where "j' \<in> set js'" "same_job j j'"
    by blast
  then show ?thesis
    unfolding task_row_def by (intro bexI [of _ j']) (use j in \<open>auto simp: same_job_def\<close>)
qed

lemma same_job_ok: "same_job j j' \<Longrightarrow> job_ok j \<Longrightarrow> job_ok j'"
  by (auto simp: same_job_def aux_ok_def)

lemma same_jobs_ok: "list_all2 same_job js js' \<Longrightarrow> \<forall>j \<in> set js. job_ok j \<Longrightarrow> \<forall>j \<in> set js'. job_ok j"
  by (induction rule: list_all2_induct) (simp_all add: same_job_ok)

lemma handler_commit_rows:
  assumes "handler_commit js js'" and "rows_ok js"
  shows "rows_ok js'" and "task_row js t \<Longrightarrow> task_row js' t"
proof -
  from assms(1) obtain old new where c: "js' = old @ new" "list_all2 same_job js old"
    "distinct (map job_id js')" "\<forall>j \<in> set new. job_status j = Job_PENDING \<and> job_ok j"
    by (auto simp: handler_commit_def)
  have "\<forall>j \<in> set old. job_ok j"
    by (rule same_jobs_ok [OF c(2)]) (use assms(2) in \<open>simp add: rows_ok_def\<close>)
  then show "rows_ok js'" using c by (auto simp: rows_ok_def)
  show "task_row js t \<Longrightarrow> task_row js' t"
    using task_row_same [OF c(2)] task_row_append c(1) by simp
qed

lemma find_new_job_Some:
  assumes "find_new_job js m = Some j"
  shows "j \<in> set js" and "job_status j = Job_PENDING"
    and "sql_true (eval_cond (build_condition m) j)"
  using first_by_mem [OF assms [unfolded find_new_job_def]] by (auto simp: runnable_def)

lemma find_new_job_None: "find_new_job js m = None \<longleftrightarrow> (\<forall>j \<in> set js. \<not> runnable m j)"
  by (simp add: find_new_job_def filter_empty_conv)

lemma task_of_job_simps [simp]:
  "task_job_id (task_of_job j) = job_id j" "task_type (task_of_job j) = job_type j"
  "task_aux_id (task_of_job j) = job_aux_id j" "task_aux_id_2 (task_of_job j) = job_aux_id_2 j"
  by (simp_all add: task_of_job_def)

section \<open>Exclusion: the filter registers exactly the tasks held\<close>

definition excl :: "(slot \<Rightarrow> task option) \<Rightarrow> job_filter \<Rightarrow> job list \<Rightarrow> bool" where
  "excl h m js \<longleftrightarrow> filter_ok m \<and>
     (\<forall>a t. h a = Some t \<longrightarrow> task_ok t \<and> task_row js t) \<and>
     (\<forall>e. e \<in> set m \<longleftrightarrow> (\<exists>a t. h a = Some t \<and> e \<in> task_entries t)) \<and>
     (\<forall>a b t u. a \<noteq> b \<longrightarrow> h a = Some t \<longrightarrow> h b = Some u \<longrightarrow>
        task_resources t \<inter> task_resources u = {})"

lemma exclD:
  assumes "excl h m js"
  shows "filter_ok m" and "h a = Some t \<Longrightarrow> task_ok t" and "h a = Some t \<Longrightarrow> task_row js t"
    and "e \<in> set m \<longleftrightarrow> (\<exists>a t. h a = Some t \<and> e \<in> task_entries t)"
    and "a \<noteq> b \<Longrightarrow> h a = Some t \<Longrightarrow> h b = Some u \<Longrightarrow> task_resources t \<inter> task_resources u = {}"
  using assms unfolding excl_def by blast+

lemma excl_rows: "excl h m js \<Longrightarrow> (\<And>t. task_row js t \<Longrightarrow> task_row js' t) \<Longrightarrow> excl h m js'"
  unfolding excl_def by blast

lemma excl_move:
  assumes ex: "excl h m js" and h: "h a = Some t" "h b = None"
  shows "excl (h(a := None, b := Some t)) m js"
proof -
  let ?h = "h(a := None, b := Some t)"
  define f where "f x = (if x = b then a else x)" for x
  have origin: "\<exists>x'. h x' = Some u \<and> x' = f x" if "?h x = Some u" for x u
    using that h by (auto simp: f_def split: if_splits)
  have inj: "f x \<noteq> f y" if "?h x = Some u" "?h y = Some v" "x \<noteq> y" for x y u v
    using that h by (auto simp: f_def split: if_splits)
  have forth: "\<exists>x. ?h x = Some u" if "h y = Some u" for y u
  proof (cases "y = a")
    case True
    then have "?h b = Some u" using that h by simp
    then show ?thesis by blast
  next
    case False
    then have "?h y = Some u" using that h by auto
    then show ?thesis by blast
  qed
  have some: "(\<exists>x. ?h x = Some u) \<longleftrightarrow> (\<exists>x. h x = Some u)" for u
    using origin forth by blast
  show ?thesis
    unfolding excl_def
  proof (intro conjI allI impI)
    show "filter_ok m" using ex by (simp add: excl_def)
    show "task_ok u" "task_row js u" if "?h x = Some u" for x u
      using origin [OF that] ex unfolding excl_def by blast+
    show "e \<in> set m \<longleftrightarrow> (\<exists>x u. ?h x = Some u \<and> e \<in> task_entries u)" for e
    proof -
      have swap: "(\<exists>x u. g x = Some u \<and> e \<in> task_entries u) \<longleftrightarrow>
          (\<exists>u. (\<exists>x. g x = Some u) \<and> e \<in> task_entries u)" for g :: "slot \<Rightarrow> task option"
        by blast
      show ?thesis unfolding exclD(4) [OF ex] swap some ..
    qed
    show "task_resources u \<inter> task_resources v = {}"
      if "x \<noteq> y" "?h x = Some u" "?h y = Some v" for x y u v
    proof -
      note origins = origin [OF that(2)] origin [OF that(3)] inj [OF that(2,3,1)]
      obtain x' y' where "h x' = Some u" "h y' = Some v" "x' \<noteq> y'"
        using origins by metis
      then show ?thesis using exclD(5) [OF ex] by metis
    qed
  qed
qed

text \<open>Two tasks held of the same job: then the job is an ADD_PROBLEM job.\<close>

lemma task_row_unique:
  assumes "rows_ok js" and "task_row js t" and "task_row js u"
    and "task_job_id t = task_job_id u"
  shows "task_type t = task_type u"
    and "task_type t \<noteq> ADD_PROBLEM \<Longrightarrow> task_resources t = task_resources u"
proof -
  from assms(2,3) obtain i j where ij: "i \<in> set js" "j \<in> set js" "job_id i = task_job_id t"
    "job_id j = task_job_id u" "job_type i = task_type t" "job_type j = task_type u"
    "task_type t \<noteq> ADD_PROBLEM \<longrightarrow>
      job_aux_id i = task_aux_id t \<and> job_aux_id_2 i = task_aux_id_2 t"
    "task_type u \<noteq> ADD_PROBLEM \<longrightarrow>
      job_aux_id j = task_aux_id u \<and> job_aux_id_2 j = task_aux_id_2 u"
    unfolding task_row_def by blast
  have "i = j"
    by (rule distinct_key_eq [of job_id js]) (use ij assms(1,4) in \<open>auto simp: rows_ok_def\<close>)
  then show "task_type t = task_type u"
    and "task_type t \<noteq> ADD_PROBLEM \<Longrightarrow> task_resources t = task_resources u"
    using ij by auto
qed

lemma held_same_id:
  assumes ex: "excl h m js" and rows: "rows_ok js"
    and h: "h a = Some t" "h b = Some u" and ids: "task_job_id t = task_job_id u"
    and ne: "task_type t \<noteq> ADD_PROBLEM"
  shows "a = b"
proof (rule ccontr)
  assume "a \<noteq> b"
  then have "task_resources t \<inter> task_resources u = {}" using ex h unfolding excl_def by blast
  moreover have "task_row js t" "task_row js u" "task_ok t"
    using ex h unfolding excl_def by blast+
  ultimately have "task_resources t = {}"
    using task_row_unique(2) [OF rows _ _ ids] ne by auto
  then show False using job_resources_empty [OF \<open>task_ok t\<close>] ne by blast
qed

lemma task_entries_type: "e \<in> task_entries t \<Longrightarrow> task_type t \<noteq> ADD_PROBLEM"
  by (auto simp: task_entries_def)

lemma task_entries_key: "e \<in> task_entries t \<Longrightarrow> fst e = task_job_id t"
  by (auto simp: task_entries_def)

lemma excl_remove:
  assumes ex: "excl h m js" and rows: "rows_ok js" and h: "h a = Some t"
  shows "excl (h(a := None)) (remove_in_progress_job (task_job_id t) m) js"
    (is "excl ?h ?m js")
proof -
  have "e \<in> set ?m \<longleftrightarrow> (\<exists>b u. ?h b = Some u \<and> e \<in> task_entries u)" for e
  proof
    assume "e \<in> set ?m"
    then have e: "e \<in> set m" "fst e \<noteq> task_job_id t"
      by (auto simp: set_remove_in_progress_job)
    then obtain b u where b: "h b = Some u" "e \<in> task_entries u"
      using ex unfolding excl_def by blast
    then have "b \<noteq> a" using e(2) h task_entries_key by fastforce
    then show "\<exists>b u. ?h b = Some u \<and> e \<in> task_entries u" using b by auto
  next
    assume "\<exists>b u. ?h b = Some u \<and> e \<in> task_entries u"
    then obtain b u where b: "b \<noteq> a" "h b = Some u" "e \<in> task_entries u"
      by (auto split: if_splits)
    then have "e \<in> set m" using ex unfolding excl_def by blast
    moreover have "fst e \<noteq> task_job_id t"
      using held_same_id [OF ex rows b(2) h] b task_entries_key task_entries_type by metis
    ultimately show "e \<in> set ?m" by (auto simp: set_remove_in_progress_job)
  qed
  moreover have "filter_ok ?m" using ex filter_ok_remove unfolding excl_def by blast
  moreover have sub: "?h b = Some u \<Longrightarrow> h b = Some u" for b u by (simp split: if_splits)
  ultimately show ?thesis
    using ex unfolding excl_def by (intro conjI allI impI) (blast dest: sub)+
qed

lemma excl_add:
  assumes ex: "excl h m js" and rows: "rows_ok js" and a: "h a = None" and j: "j \<in> set js"
    and cond: "sql_true (eval_cond (build_condition m) j)"
    and add: "add_task (task_of_job j) m = Inr m'"
  shows "excl (h(a := Some (task_of_job j))) m' js"
    (is "excl ?h m' js")
proof -
  let ?t = "task_of_job j"
  have ok: "job_ok j" using rows j by (auto simp: rows_ok_def)
  have row: "task_row js ?t" using j by (auto simp: task_row_def)
  have disj: "task_resources u \<inter> resources_of j = {}" if "h b = Some u" for b u
  proof -
    have "task_ok u" using ex that unfolding excl_def by blast
    moreover have "sql_true (eval_cond c j)" if "task_cond u = Inr (Some c)" for c
    proof -
      have "(task_job_id u, c) \<in> set m"
        using ex \<open>h b = Some u\<close> that unfolding excl_def task_entries_def by blast
      then show ?thesis using cond unfolding eval_build_condition by blast
    qed
    ultimately show ?thesis using task_cond_allows [OF _ ok] by blast
  qed
  have set': "set m' = set m \<union> task_entries ?t"
  proof (cases "job_type j = ADD_PROBLEM")
    case True
    then show ?thesis using add by (simp add: add_in_progress_job_def task_entries_def)
  next
    case False
    have "task_job_id ?t \<notin> fst ` set m"
    proof
      assume "task_job_id ?t \<in> fst ` set m"
      then obtain e where e: "e \<in> set m" "fst e = job_id j" by auto
      then obtain b u where b: "h b = Some u" "e \<in> task_entries u"
        using ex unfolding excl_def by blast
      have "task_job_id u = task_job_id ?t" using e(2) task_entries_key [OF b(2)] by simp
      then have "task_resources u = resources_of j"
        using task_row_unique [OF rows _ row] b ex False unfolding excl_def by fastforce
      then have "resources_of j = {}" using disj [OF b(1)] by simp
      then show False using job_resources_empty [OF ok] False by blast
    qed
    then show ?thesis using add_task_set [OF add] ex by (simp add: excl_def)
  qed
  have "e \<in> set m' \<longleftrightarrow> (\<exists>b u. ?h b = Some u \<and> e \<in> task_entries u)" for e
  proof -
    have "(\<exists>b u. ?h b = Some u \<and> e \<in> task_entries u) \<longleftrightarrow>
        (\<exists>b u. h b = Some u \<and> e \<in> task_entries u) \<or> e \<in> task_entries ?t"
      using a by (metis fun_upd_apply option.distinct(1) option.inject)
    then show ?thesis using ex unfolding set' excl_def by blast
  qed
  moreover have "filter_ok m'" using filter_ok_add [OF add] ex by (simp add: excl_def)
  moreover have "task_ok u \<and> task_row js u" if "?h b = Some u" for b u
    using that ok row ex unfolding excl_def by (auto split: if_splits)
  moreover have "task_resources u \<inter> task_resources v = {}"
    if "b \<noteq> c" "?h b = Some u" "?h c = Some v" for b c u v
  proof -
    show ?thesis
    proof (cases "b = a")
      case True
      then show ?thesis using disj [of c v] that by (auto simp: Int_commute)
    next
      case b: False
      show ?thesis
      proof (cases "c = a")
        case True
        then show ?thesis using disj [of b u] that b by auto
      next
        case False
        then show ?thesis using ex that b unfolding excl_def by simp
      qed
    qed
  qed
  ultimately show ?thesis unfolding excl_def by blast
qed

end
