(* ===== verification/Scheduler_Safety.thy ===== *)
theory Scheduler_Safety
  imports Job_Scheduler
begin

text \<open>
  What the job server guarantees in every reachable state of \<open>Job_Scheduler\<close>: jobs that work on a
  common entity never run at the same time, the server does not crash, no more jobs are marked as
  in progress than there are workers, no notification is lost, and no thread waits for ever.
\<close>

section \<open>Exclusion in every reachable state\<close>

definition excl_ok :: "sched \<Rightarrow> bool" where
  "excl_ok s \<longleftrightarrow> rows_ok (db_job_rows s) \<and> excl (held s) (in_progress s) (db_job_rows s)"

lemma held_update [simp]:
  "held (s\<lparr>db_job_rows := js\<rparr>) = held s"
  "held (s\<lparr>in_progress := m\<rparr>) = held s"
  "held (s\<lparr>idle_workers := idle\<rparr>) = held s"
  "held (s\<lparr>processing_new_jobs := b\<rparr>) = held s"
  "held (s\<lparr>worker_finished := k\<rparr>) = held s"
  "held (s\<lparr>notify_file_modified := b\<rparr>) = held s"
  "held (s\<lparr>not_yet_notified := k\<rparr>) = held s"
  by (rule ext, rename_tac a, case_tac a; simp)+

lemma rows_ok_restart: "rows_ok (restart_left_jobs js) = rows_ok js"
proof -
  have "map job_id (restart_left_jobs js) = map job_id js"
    by (simp add: restart_left_jobs_def map_update_where_frame)
  moreover have "(\<forall>j \<in> set (restart_left_jobs js). job_ok j) \<longleftrightarrow> (\<forall>j \<in> set js. job_ok j)"
    by (induction js) (simp_all add: restart_left_jobs_def)
  ultimately show ?thesis by (simp add: rows_ok_def)
qed

lemma excl_ok_init: "rows_ok js \<Longrightarrow> excl_ok (sched_init n js)"
proof -
  assume rows: "rows_ok js"
  have "held (sched_init n js) a = None" for a by (cases a) (simp_all add: sched_init_def)
  then show ?thesis
    using rows by (simp add: excl_ok_def excl_def sched_init_def rows_ok_restart)
qed

lemma excl_ok_main:
  "main_step s s' \<Longrightarrow> places_ok s \<Longrightarrow> excl_ok s \<Longrightarrow> excl_ok s'"
proof (induction rule: main_step.induct)
  case (check_found s j m)
  have h: "held (s\<lparr>in_progress := m, main := M_take_worker (task_of_job j)\<rparr>) =
      (held s)(S_main := Some (task_of_job j))"
    by (rule ext, rename_tac a, case_tac a) simp_all
  note found = find_new_job_Some [OF check_found(3)]
  have "held s S_main = None" using check_found(1) by simp
  then show ?case
    using check_found excl_add [OF _ _ _ found(1,3)] unfolding excl_ok_def h by simp
next
  case (take_worker s t w idle)
  have "held (s\<lparr>idle_workers := idle, main := M_mark t w\<rparr>) = held s"
    by (rule ext, rename_tac a, case_tac a) (simp_all add: take_worker(1))
  then show ?case using take_worker by (simp add: excl_ok_def)
next
  case (mark s t w)
  have "held (s\<lparr>db_job_rows := set_job_status Job_IN_PROGRESS (task_job_id t) (db_job_rows s),
      main := M_pass t w\<rparr>) = held s"
    by (rule ext, rename_tac a, case_tac a) (simp_all add: mark(1))
  then show ?case using mark by (auto simp: excl_ok_def intro: excl_rows task_row_status)
next
  case (pass s t w c)
  have empty: "ch_elems (task_channel s w) = []"
    using pass by (auto simp: places_ok_def place_ok_def busy_def)
  then have c: "ch_elems c = [t]" using pass(2) by (simp add: ch_ops)
  have "held (s\<lparr>task_channel := (task_channel s)(w := c), main := M_event_loop\<rparr>) =
      (held s)(S_main := None, S_channel w := Some t)"
    by (rule ext, rename_tac a, case_tac a) (auto simp: c)
  then show ?case using pass empty excl_move [of "held s" _ _ S_main t "S_channel w"]
    by (simp add: excl_ok_def)
next
  case (shutdown_one s i w idle)
  have "held (s\<lparr>idle_workers := idle,
       task_channel := (task_channel s)(w := ch_close (task_channel s w)),
       main := M_shutdown (Suc i)\<rparr>) = held s"
    by (rule ext, rename_tac a, case_tac a) (simp_all add: shutdown_one(1) ch_close_def)
  then show ?case using shutdown_one by (simp add: excl_ok_def)
next
  case (check_throws s j e)
  have "held (s\<lparr>main := M_crashed\<rparr>) = held s"
    by (rule ext, rename_tac a, case_tac a) (simp_all add: check_throws(1))
  then show ?case using check_throws by (simp add: excl_ok_def)
next
  case (stop s)
  have "held (s\<lparr>main := M_shutdown 0\<rparr>) = held s"
    by (rule ext, rename_tac a, case_tac a) (simp_all add: stop(1))
  then show ?case using stop by (simp add: excl_ok_def)
next
  case (shutdown_join s)
  have "held (s\<lparr>main := M_joining\<rparr>) = held s"
    by (rule ext, rename_tac a, case_tac a) (simp_all add: shutdown_join(1))
  then show ?case using shutdown_join by (simp add: excl_ok_def)
next
  case (joined s)
  have "held (s\<lparr>main := M_exited\<rparr>) = held s"
    by (rule ext, rename_tac a, case_tac a) (simp_all add: joined(1))
  then show ?case using joined by (simp add: excl_ok_def)
qed (simp_all add: excl_ok_def)

lemma excl_ok_worker:
  "worker_step w s s' \<Longrightarrow> w < workers_num s \<Longrightarrow> places_ok s \<Longrightarrow> excl_ok s \<Longrightarrow> excl_ok s'"
proof (induction rule: worker_step.induct)
  case (pop_task s t c)
  have len: "length (ch_elems (task_channel s w)) \<le> 1"
    using pop_task by (auto simp: places_ok_def place_ok_def)
  then have elems: "ch_elems (task_channel s w) = [t]" "ch_elems c = []"
    using pop_task(2) by (auto simp: ch_ops)
  have "held (s\<lparr>task_channel := (task_channel s)(w := c),
       worker := (worker s)(w := W_processing t False)\<rparr>) =
      (held s)(S_channel w := None, S_worker w := Some t)"
    by (rule ext, rename_tac a, case_tac a) (auto simp: elems)
  then show ?case
    using pop_task elems excl_move [of "held s" _ _ "S_channel w" t "S_worker w"]
    by (simp add: excl_ok_def)
next
  case (no_more_tasks s c)
  have "held (s\<lparr>worker := (worker s)(w := W_exited)\<rparr>) = held s"
    by (rule ext, rename_tac a, case_tac a) (auto simp: no_more_tasks(1))
  then show ?case using no_more_tasks by (simp add: excl_ok_def)
next
  case (commit s t b js)
  have "held (s\<lparr>db_job_rows := js, worker := (worker s)(w := W_processing t True)\<rparr>) = held s"
    by (rule ext, rename_tac a, case_tac a) (auto simp: commit(1))
  then show ?case
    using commit handler_commit_rows [OF commit(2)] by (auto simp: excl_ok_def intro: excl_rows)
next
  case (finish s t b js st)
  have "held (s\<lparr>db_job_rows := set_job_status st (task_job_id t) js,
       worker := (worker s)(w := W_remove_filter t)\<rparr>) = held s"
    by (rule ext, rename_tac a, case_tac a) (auto simp: finish(1))
  then show ?case
    using finish handler_commit_rows [OF finish(2)]
    by (auto simp: excl_ok_def intro: excl_rows task_row_status)
next
  case (remove_filter s t)
  have "held (s\<lparr>in_progress := remove_in_progress_job (task_job_id t) (in_progress s),
       worker := (worker s)(w := W_become_idle)\<rparr>) = (held s)(S_worker w := None)"
    by (rule ext, rename_tac a, case_tac a) auto
  then show ?case
    using remove_filter excl_remove [of "held s" _ _ "S_worker w" t] by (simp add: excl_ok_def)
next
  case (become_idle s idle)
  have "held (s\<lparr>idle_workers := idle, worker := (worker s)(w := W_signal)\<rparr>) = held s"
    by (rule ext, rename_tac a, case_tac a) (auto simp: become_idle(1))
  then show ?case using become_idle by (simp add: excl_ok_def)
next
  case (signal_main s)
  have "held (s\<lparr>worker_finished := Suc (worker_finished s),
       worker := (worker s)(w := W_waiting)\<rparr>) = held s"
    by (rule ext, rename_tac a, case_tac a) (auto simp: signal_main(1))
  then show ?case using signal_main by (simp add: excl_ok_def)
qed

lemma excl_ok_env: "env_step s s' \<Longrightarrow> excl_ok s \<Longrightarrow> excl_ok s'"
proof (induction rule: env_step.induct)
  case (insert_job j s)
  then have "excl (held s) (in_progress s) (db_job_rows s @ [j])"
    unfolding excl_ok_def by (blast intro: excl_rows task_row_append)
  then show ?case using insert_job by (auto simp: excl_ok_def rows_ok_def)
qed (simp_all add: excl_ok_def, (elim conjE, erule excl_rows, erule task_row_status)+)

lemma reachable_excl_ok: "reachable n js s \<Longrightarrow> rows_ok js \<Longrightarrow> excl_ok s"
  by (induction rule: reachable.induct)
    (auto intro: excl_ok_init excl_ok_main excl_ok_worker excl_ok_env reachable_places_ok)

section \<open>In-progress jobs\<close>

text \<open>The task a worker is on its way to, or at, between the status update and the handler's end.\<close>

fun main_task :: "main_pc \<Rightarrow> nat \<Rightarrow> task option" where
  "main_task (M_pass t v) w = (if w = v then Some t else None)"
| "main_task _ w = None"

fun worker_task :: "worker_pc \<Rightarrow> task option" where
  "worker_task (W_processing t b) = Some t"
| "worker_task _ = None"

definition works_on :: "sched \<Rightarrow> nat \<Rightarrow> id \<Rightarrow> bool" where
  "works_on s w i \<longleftrightarrow> (\<exists>t. task_job_id t = i \<and>
     (main_task (main s) w = Some t \<or> held_channel (ch_elems (task_channel s w)) = Some t \<or>
      worker_task (worker s w) = Some t))"

definition progress_ok :: "sched \<Rightarrow> bool" where
  "progress_ok s \<longleftrightarrow> (\<forall>j \<in> set (db_job_rows s). job_status j = Job_IN_PROGRESS \<longrightarrow>
     (\<exists>w < workers_num s. works_on s w (job_id j)))"

lemma main_task_owns: "main_task m w = Some t \<Longrightarrow> main_owns m w"
  by (cases m) (auto split: if_splits)

lemma worker_task_busy: "worker_task p = Some t \<Longrightarrow> worker_busy p"
  by (cases p) auto

lemma works_on_cong:
  "main s' = main s \<Longrightarrow> task_channel s' = task_channel s \<Longrightarrow> worker s' = worker s \<Longrightarrow>
   works_on s' w i = works_on s w i"
  by (simp add: works_on_def)

lemma progress_ok_mono:
  assumes "progress_ok s" and "workers_num s' = workers_num s"
    and "\<And>j'. j' \<in> set (db_job_rows s') \<Longrightarrow> job_status j' = Job_IN_PROGRESS \<Longrightarrow>
      (\<exists>w < workers_num s. works_on s' w (job_id j')) \<or>
      (\<exists>j \<in> set (db_job_rows s). job_id j = job_id j' \<and> job_status j = Job_IN_PROGRESS \<and>
         (\<forall>w < workers_num s. works_on s w (job_id j) \<longrightarrow> works_on s' w (job_id j)))"
  shows "progress_ok s'"
  unfolding progress_ok_def assms(2)
proof (intro ballI impI)
  fix j' assume j': "j' \<in> set (db_job_rows s')" "job_status j' = Job_IN_PROGRESS"
  show "\<exists>w < workers_num s. works_on s' w (job_id j')"
    using assms(3) [OF j']
  proof
    assume "\<exists>j \<in> set (db_job_rows s). job_id j = job_id j' \<and> job_status j = Job_IN_PROGRESS \<and>
         (\<forall>w < workers_num s. works_on s w (job_id j) \<longrightarrow> works_on s' w (job_id j))"
    then obtain j where j: "j \<in> set (db_job_rows s)" "job_id j = job_id j'"
      "job_status j = Job_IN_PROGRESS"
      "\<forall>w < workers_num s. works_on s w (job_id j) \<longrightarrow> works_on s' w (job_id j)"
      by blast
    then show ?thesis using assms(1) unfolding progress_ok_def by metis
  qed
qed

lemma progress_ok_same:
  assumes "progress_ok s" and "workers_num s' = workers_num s"
    and "db_job_rows s' = db_job_rows s" and "\<And>w i. works_on s w i \<Longrightarrow> works_on s' w i"
  shows "progress_ok s'"
  using assms unfolding progress_ok_def by metis

lemma set_job_status_set:
  "set (set_job_status st i js) = (\<lambda>j. if job_id j = i then j\<lparr>job_status := st\<rparr> else j) ` set js"
  by (simp add: set_job_status_def set_update_where)

lemma in_progress_status:
  "j' \<in> set (set_job_status st i js) \<Longrightarrow> job_status j' = Job_IN_PROGRESS \<Longrightarrow>
   st \<noteq> Job_IN_PROGRESS \<Longrightarrow> j' \<in> set js \<and> job_id j' \<noteq> i"
  by (auto simp: set_job_status_set split: if_splits)

lemma in_progress_commit:
  assumes "handler_commit js js'" and "j' \<in> set js'" and "job_status j' = Job_IN_PROGRESS"
  shows "\<exists>j \<in> set js. job_id j = job_id j' \<and> job_status j = Job_IN_PROGRESS"
proof -
  from assms obtain old new where c: "js' = old @ new" "list_all2 same_job js old"
    "\<forall>j \<in> set new. job_status j = Job_PENDING \<and> job_ok j"
    by (auto simp: handler_commit_def)
  then have "j' \<in> set old" using assms(2,3) by auto
  then obtain j where "j \<in> set js" "same_job j j'" using list_all2_memD(2) [OF c(2)] by blast
  then show ?thesis using assms(3) by (auto simp: same_job_def)
qed

lemma progress_ok_init: "progress_ok (sched_init n js)"
  by (auto simp: progress_ok_def sched_init_def restart_left_jobs_def set_update_where
      split: if_splits)

lemma progress_ok_main:
  "main_step s s' \<Longrightarrow> places_ok s \<Longrightarrow> progress_ok s \<Longrightarrow> progress_ok s'"
proof (induction rule: main_step.induct)
  case (mark s t w)
  have w: "w < workers_num s" using mark by (auto simp: places_ok_def)
  show ?case
  proof (rule progress_ok_mono [OF mark(3)])
    fix j'
    assume j': "j' \<in> set (db_job_rows (s\<lparr>db_job_rows :=
        set_job_status Job_IN_PROGRESS (task_job_id t) (db_job_rows s), main := M_pass t w\<rparr>))"
      "job_status j' = Job_IN_PROGRESS"
    then obtain j where "j \<in> set (db_job_rows s)"
      "j' = (if job_id j = task_job_id t then j\<lparr>job_status := Job_IN_PROGRESS\<rparr> else j)"
      by (auto simp: set_job_status_set)
    then show "(\<exists>v < workers_num s. works_on (s\<lparr>db_job_rows :=
          set_job_status Job_IN_PROGRESS (task_job_id t) (db_job_rows s), main := M_pass t w\<rparr>)
          v (job_id j')) \<or>
        (\<exists>j \<in> set (db_job_rows s). job_id j = job_id j' \<and> job_status j = Job_IN_PROGRESS \<and>
         (\<forall>v < workers_num s. works_on s v (job_id j) \<longrightarrow>
           works_on (s\<lparr>db_job_rows := set_job_status Job_IN_PROGRESS (task_job_id t)
             (db_job_rows s), main := M_pass t w\<rparr>) v (job_id j)))"
      using w mark(1) j'(2) by (cases "job_id j = task_job_id t") (auto simp: works_on_def)
  qed simp
next
  case (pass s t w c)
  have empty: "ch_elems (task_channel s w) = []"
    using pass by (auto simp: places_ok_def place_ok_def busy_def)
  then have "ch_elems c = [t]" using pass(2) by (simp add: ch_ops)
  then show ?case
    by (intro progress_ok_same [OF pass(4)])
      (auto simp: works_on_def pass(1) empty split: if_splits)
next
  case (shutdown_one s i w idle)
  then show ?case
    by (intro progress_ok_same [OF shutdown_one(5)])
      (auto simp: works_on_def ch_close_def shutdown_one(1))
qed (auto simp: progress_ok_def works_on_def)

lemma progress_ok_worker:
  "worker_step w s s' \<Longrightarrow> w < workers_num s \<Longrightarrow> places_ok s \<Longrightarrow> progress_ok s \<Longrightarrow> progress_ok s'"
proof (induction rule: worker_step.induct)
  case (pop_task s t c)
  have "length (ch_elems (task_channel s w)) \<le> 1"
    using pop_task by (auto simp: places_ok_def place_ok_def)
  then have "ch_elems (task_channel s w) = [t]" using pop_task(2) by (auto simp: ch_ops)
  then show ?case
    by (intro progress_ok_same [OF pop_task(5)]) (auto simp: works_on_def pop_task(1))
next
  case (commit s t b js)
  show ?case
  proof (rule progress_ok_mono [OF commit(5)])
    fix j'
    assume "j' \<in> set (db_job_rows (s\<lparr>db_job_rows := js,
        worker := (worker s)(w := W_processing t True)\<rparr>))" "job_status j' = Job_IN_PROGRESS"
    then obtain j where "j \<in> set (db_job_rows s)" "job_id j = job_id j'"
      "job_status j = Job_IN_PROGRESS"
      using in_progress_commit [OF commit(2)] by auto
    moreover have "works_on (s\<lparr>db_job_rows := js, worker := (worker s)(w := W_processing t True)\<rparr>)
        v i = works_on s v i" for v i
      by (auto simp: works_on_def commit(1))
    ultimately show "(\<exists>v < workers_num s. works_on (s\<lparr>db_job_rows := js,
          worker := (worker s)(w := W_processing t True)\<rparr>) v (job_id j')) \<or>
        (\<exists>j \<in> set (db_job_rows s). job_id j = job_id j' \<and> job_status j = Job_IN_PROGRESS \<and>
         (\<forall>v < workers_num s. works_on s v (job_id j) \<longrightarrow> works_on (s\<lparr>db_job_rows := js,
          worker := (worker s)(w := W_processing t True)\<rparr>) v (job_id j)))"
      by auto
  qed simp
next
  case (finish s t b js st)
  let ?s' = "s\<lparr>db_job_rows := set_job_status st (task_job_id t) js,
    worker := (worker s)(w := W_remove_filter t)\<rparr>"
  have ok: "place_ok s w" using finish by (simp add: places_ok_def)
  then have "\<not> main_owns (main s) w" using finish(1) by (auto simp: place_ok_def busy_def)
  then have clear: "ch_elems (task_channel s w) = []" "main_task (main s) w = None"
    using ok finish(1) main_task_owns [of "main s" w]
    by (auto simp: place_ok_def busy_def intro: option.exhaust)
  show ?case
  proof (rule progress_ok_mono [OF finish(6)])
    fix j'
    assume "j' \<in> set (db_job_rows ?s')" and st': "job_status j' = Job_IN_PROGRESS"
    then have j': "j' \<in> set js" "job_id j' \<noteq> task_job_id t"
      using in_progress_status [of j' st "task_job_id t" js] finish(3) by auto
    then obtain j where j: "j \<in> set (db_job_rows s)" "job_id j = job_id j'"
      "job_status j = Job_IN_PROGRESS"
      using in_progress_commit [OF finish(2) _ st'] by auto
    have "works_on ?s' v (job_id j)" if "works_on s v (job_id j)" for v
      using that j'(2) j(2) finish(1) clear by (cases "v = w") (auto simp: works_on_def)
    then show "(\<exists>v < workers_num s. works_on ?s' v (job_id j')) \<or>
        (\<exists>j \<in> set (db_job_rows s). job_id j = job_id j' \<and> job_status j = Job_IN_PROGRESS \<and>
         (\<forall>v < workers_num s. works_on s v (job_id j) \<longrightarrow> works_on ?s' v (job_id j)))"
      using j by auto
  qed simp
next
  case (no_more_tasks s c)
  then show ?case
    by (intro progress_ok_same [OF no_more_tasks(5)]) (auto simp: works_on_def)
next
  case (remove_filter s t)
  then show ?case
    by (intro progress_ok_same [OF remove_filter(4)]) (auto simp: works_on_def)
next
  case (become_idle s idle)
  then show ?case
    by (intro progress_ok_same [OF become_idle(5)]) (auto simp: works_on_def)
next
  case (signal_main s)
  then show ?case
    by (intro progress_ok_same [OF signal_main(4)]) (auto simp: works_on_def)
qed

lemma progress_ok_env: "env_step s s' \<Longrightarrow> progress_ok s \<Longrightarrow> progress_ok s'"
proof (induction rule: env_step.induct)
  case (insert_job j s)
  then show ?case by (auto simp: progress_ok_def works_on_def)
next
  case (notify_job_server s k)
  then show ?case by (auto simp: progress_ok_def works_on_def)
next
  case (cancel_job s i)
  then show ?case using in_progress_status [of _ Job_CANCELLED i "db_job_rows s"]
    by (simp add: progress_ok_def works_on_def)
next
  case (restart_job s i)
  then show ?case using in_progress_status [of _ Job_PENDING i "db_job_rows s"]
    by (simp add: progress_ok_def works_on_def)
qed

lemma reachable_progress_ok: "reachable n js s \<Longrightarrow> progress_ok s"
  by (induction rule: reachable.induct)
    (auto intro: progress_ok_init progress_ok_main progress_ok_worker progress_ok_env
      reachable_places_ok)

text \<open>A worker works on one job at a time.\<close>

lemma works_on_unique:
  assumes "places_ok s" and "w < workers_num s" and "works_on s w i" and "works_on s w k"
  shows "i = k"
proof -
  have ok: "place_ok s w" using assms(1,2) by (simp add: places_ok_def)
  consider "main_owns (main s) w" "ch_elems (task_channel s w) = []" "\<not> worker_busy (worker s w)"
    | "\<not> main_owns (main s) w" "ch_elems (task_channel s w) \<noteq> []" "\<not> worker_busy (worker s w)"
    | "\<not> main_owns (main s) w" "ch_elems (task_channel s w) = []"
    using ok by (auto simp: place_ok_def busy_def)
  then show ?thesis
    using assms(3,4) main_task_owns [of "main s" w] worker_task_busy [of "worker s w"]
    by cases (auto simp: works_on_def)
qed

section \<open>Notifications\<close>

text \<open>A worker that is going to write to the eventfd, with something new for the scheduler.\<close>

fun will_signal :: "worker_pc \<Rightarrow> bool" where
  "will_signal (W_processing t b) = b"
| "will_signal (W_remove_filter t) = True"
| "will_signal W_become_idle = True"
| "will_signal W_signal = True"
| "will_signal _ = False"

definition wakeup_pending :: "sched \<Rightarrow> bool" where
  "wakeup_pending s \<longleftrightarrow> 0 < not_yet_notified s \<or> notify_file_modified s \<or> 0 < worker_finished s \<or>
     (\<exists>w < workers_num s. will_signal (worker s w))"

definition wakeup_ok :: "sched \<Rightarrow> bool" where
  "wakeup_ok s \<longleftrightarrow>
     (main s = M_event_loop \<longrightarrow> \<not> processing_new_jobs s \<longrightarrow> \<not> wakeup_pending s \<longrightarrow>
        find_new_job (db_job_rows s) (in_progress s) = None) \<and>
     (\<forall>t w. main s \<in> {M_take_worker t, M_mark t w, M_pass t w} \<longrightarrow> processing_new_jobs s)"

lemma find_new_job_cancel:
  "find_new_job js m = None \<Longrightarrow> find_new_job (set_job_status Job_CANCELLED i js) m = None"
proof -
  assume none: "find_new_job js m = None"
  have eval: "eval_cond c (j\<lparr>job_status := st\<rparr>) = eval_cond c j" for c j st
    by (induction c) simp_all
  show ?thesis
    using none by (auto simp: find_new_job_None set_job_status_set runnable_def)
qed

lemma wakeup_ok_main: "main_step s s' \<Longrightarrow> wakeup_ok s \<Longrightarrow> wakeup_ok s'"
  by (induction rule: main_step.induct) (auto simp: wakeup_ok_def wakeup_pending_def)

lemma wakeup_ok_worker: "worker_step w s s' \<Longrightarrow> w < workers_num s \<Longrightarrow> wakeup_ok s \<Longrightarrow> wakeup_ok s'"
proof (induction rule: worker_step.induct)
  case (pop_task s t c)
  have "will_signal (((worker s)(w := W_processing t False)) v) = will_signal (worker s v)" for v
    using pop_task(1) by simp
  then have "wakeup_pending (s\<lparr>task_channel := (task_channel s)(w := c),
      worker := (worker s)(w := W_processing t False)\<rparr>) = wakeup_pending s"
    unfolding wakeup_pending_def by simp
  then show ?case using pop_task by (simp add: wakeup_ok_def)
next
  case (no_more_tasks s c)
  have "will_signal (((worker s)(w := W_exited)) v) = will_signal (worker s v)" for v
    using no_more_tasks(1) by simp
  then have "wakeup_pending (s\<lparr>worker := (worker s)(w := W_exited)\<rparr>) = wakeup_pending s"
    unfolding wakeup_pending_def by simp
  then show ?case using no_more_tasks by (simp add: wakeup_ok_def)
qed (auto simp: wakeup_ok_def wakeup_pending_def)

lemma wakeup_ok_env: "env_step s s' \<Longrightarrow> wakeup_ok s \<Longrightarrow> wakeup_ok s'"
proof (induction rule: env_step.induct)
  case (cancel_job s i)
  then show ?case by (auto simp: wakeup_ok_def wakeup_pending_def find_new_job_cancel)
qed (auto simp: wakeup_ok_def wakeup_pending_def)

lemma reachable_wakeup_ok: "reachable n js s \<Longrightarrow> wakeup_ok s"
proof (induction rule: reachable.induct)
  case reach_init
  then show ?case by (simp add: wakeup_ok_def sched_init_def)
qed (auto intro: wakeup_ok_main wakeup_ok_worker wakeup_ok_env)

section \<open>Shutdown\<close>

definition closed_workers :: "sched \<Rightarrow> nat set" where
  "closed_workers s = {w. w < workers_num s \<and> closed s w}"

fun closing :: "main_pc \<Rightarrow> nat \<Rightarrow> nat set \<Rightarrow> bool" where
  "closing (M_shutdown i) n C = (card C = i)"
| "closing M_joining n C = (C = {..<n})"
| "closing M_exited n C = (C = {..<n})"
| "closing _ n C = (C = {})"

definition shutdown_ok :: "sched \<Rightarrow> bool" where
  "shutdown_ok s \<longleftrightarrow> closing (main s) (workers_num s) (closed_workers s)"

lemma closed_workers_subset: "closed_workers s \<subseteq> {..<workers_num s}"
  by (auto simp: closed_workers_def)

lemma shutdown_ok_main: "main_step s s' \<Longrightarrow> places_ok s \<Longrightarrow> shutdown_ok s \<Longrightarrow> shutdown_ok s'"
proof (induction rule: main_step.induct)
  case (shutdown_one s i w idle)
  let ?s' = "s\<lparr>idle_workers := idle,
       task_channel := (task_channel s)(w := ch_close (task_channel s w)),
       main := M_shutdown (Suc i)\<rparr>"
  have w: "w \<in> set (idles s)" using shutdown_one(3) by (auto simp: ch_ops)
  then have "w < workers_num s" "w \<notin> closed_workers s"
    using shutdown_one(4) by (auto simp: places_ok_def place_ok_def closed_workers_def)
  moreover from this have "closed_workers ?s' = insert w (closed_workers s)"
    by (auto simp: closed_workers_def ch_close_def)
  moreover have "finite (closed_workers s)"
    using closed_workers_subset finite_subset by blast
  ultimately show ?case using shutdown_one(1,5) by (simp add: shutdown_ok_def)
next
  case (shutdown_join s)
  then have "card (closed_workers s) = card {..<workers_num s}" by (simp add: shutdown_ok_def)
  then have "closed_workers s = {..<workers_num s}"
    by (rule card_subset_eq [OF finite_lessThan closed_workers_subset])
  then show ?case by (simp add: shutdown_ok_def closed_workers_def)
next
  case (pass s t w c)
  then have "closed_workers (s\<lparr>task_channel := (task_channel s)(w := c),
      main := M_event_loop\<rparr>) = closed_workers s"
    by (auto simp: closed_workers_def ch_ops)
  then show ?case using pass by (simp add: shutdown_ok_def)
qed (auto simp: shutdown_ok_def closed_workers_def)

lemma shutdown_ok_worker: "worker_step w s s' \<Longrightarrow> shutdown_ok s \<Longrightarrow> shutdown_ok s'"
proof (induction rule: worker_step.induct)
  case (pop_task s t c)
  then have "closed_workers (s\<lparr>task_channel := (task_channel s)(w := c),
      worker := (worker s)(w := W_processing t False)\<rparr>) = closed_workers s"
    by (auto simp: closed_workers_def ch_ops)
  then show ?case using pop_task by (simp add: shutdown_ok_def)
qed (simp_all add: shutdown_ok_def closed_workers_def)

lemma shutdown_ok_env: "env_step s s' \<Longrightarrow> shutdown_ok s \<Longrightarrow> shutdown_ok s'"
  by (induction rule: env_step.induct)
    (simp_all add: shutdown_ok_def closed_workers_def)

lemma reachable_shutdown_ok: "reachable n js s \<Longrightarrow> shutdown_ok s"
proof (induction rule: reachable.induct)
  case reach_init
  then show ?case by (simp add: shutdown_ok_def sched_init_def closed_workers_def)
qed (auto intro: shutdown_ok_main shutdown_ok_worker shutdown_ok_env reachable_places_ok)

section \<open>No thread waits for ever\<close>

text \<open>A handler can always end: here with an unchanged table and the status DONE.\<close>

lemma handler_commit_refl: "rows_ok js \<Longrightarrow> handler_commit js js"
  unfolding handler_commit_def
  by (rule exI [of _ js], rule exI [of _ "[]"])
    (simp add: rows_ok_def same_job_def list_all2_same)

lemma busy_worker_steps:
  assumes "places_ok s" and "rows_ok (db_job_rows s)" and "w < workers_num s"
    and "busy s w \<or> worker s w = W_signal \<or> closed s w \<and> worker s w \<noteq> W_exited"
  shows "\<exists>s'. worker_step w s s'"
proof (cases "worker s w")
  case W_waiting
  show ?thesis
  proof (cases "ch_elems (task_channel s w)")
    case Nil
    then have "closed s w" using assms(4) W_waiting by (auto simp: busy_def)
    then have "ch_pop (task_channel s w) = Some (None, task_channel s w)"
      using Nil by (simp add: ch_ops)
    then show ?thesis using worker_step.no_more_tasks [OF W_waiting] by blast
  next
    case (Cons t ts)
    then have "ch_pop (task_channel s w) = Some (Some t, (task_channel s w)\<lparr>ch_elems := ts\<rparr>)"
      by (simp add: ch_ops)
    then show ?thesis using worker_step.pop_task [OF W_waiting] by blast
  qed
next
  case (W_processing t b)
  then show ?thesis
    using worker_step.finish [OF W_processing handler_commit_refl [OF assms(2)]] by blast
next
  case (W_remove_filter t)
  then show ?thesis using worker_step.remove_filter by blast
next
  case W_become_idle
  then show ?thesis
    using become_idle_enabled [OF assms(1) _ assms(3)] worker_step.become_idle by blast
next
  case W_signal
  then show ?thesis using worker_step.signal_main by blast
next
  case W_exited
  then have "closed s w" using assms(1,3) by (auto simp: places_ok_def place_ok_def)
  then show ?thesis
    using assms W_exited by (auto simp: places_ok_def place_ok_def)
qed

lemma free_worker_or_step:
  assumes "places_ok s" and "rows_ok (db_job_rows s)" and "w < workers_num s" and "\<not> closed s w"
    and "\<And>v. \<not> main_owns (main s) v"
  shows "(\<exists>v idle. ch_pop (idle_workers s) = Some (Some v, idle)) \<or>
    (\<exists>v < workers_num s. \<exists>s'. worker_step v s s')"
proof (cases "idles s")
  case Nil
  then have "busy s w" using assms by (auto simp: places_ok_def place_ok_def)
  then show ?thesis using busy_worker_steps [OF assms(1,2,3)] assms(3) by blast
next
  case (Cons v vs)
  then have "ch_pop (idle_workers s) = Some (Some v, (idle_workers s)\<lparr>ch_elems := vs\<rparr>)"
    by (simp add: ch_ops)
  then show ?thesis by blast
qed

text \<open>Registering a job of the table in progress never throws.\<close>

lemma reachable_not_crashed:
  assumes "reachable n js s" and "rows_ok js"
  shows "main s \<noteq> M_crashed"
  using assms
proof (induction rule: reachable.induct)
  case reach_init
  then show ?case by (simp add: sched_init_def)
next
  case (reach_main s s')
  then have rows: "rows_ok (db_job_rows s)" and ne: "main s \<noteq> M_crashed"
    using reachable_excl_ok by (auto simp: excl_ok_def)
  show ?case
    using reach_main(2) ne
  proof cases
    case (check_throws j e)
    have "job_ok j" using find_new_job_Some(1) [OF check_throws(4)] rows by (auto simp: rows_ok_def)
    then have "\<exists>m. add_task (task_of_job j) (in_progress s) = Inr m"
      unfolding add_task_succeeds by simp
    then show ?thesis using check_throws(5) by simp
  qed simp_all
next
  case (reach_worker s w s')
  then show ?case by (auto elim: worker_step.cases)
next
  case (reach_env s s')
  then show ?case by (auto elim: env_step.cases)
qed

section \<open>A run for the witnesses\<close>

text \<open>Two workers; a problem deletion is passed to the first, a judge job is being scheduled.\<close>

definition sample_judge_job :: job where
  "sample_judge_job = sample_job\<lparr>job_id := 10, job_type := JUDGE_SUBMISSION, job_priority := 5,
     job_aux_id := Some 6\<rparr>"

lemmas sample_job_defs = sample_judge_job_def sample_job_def

abbreviation sample_jobs :: "job list" where
  "sample_jobs \<equiv> [sample_judge_job, sample_job]"

definition sample_delete_cond :: job_cond where
  "sample_delete_cond = Cond_not (Cond_or (Cond_and (Type_in problem_job_types) (Aux_eq 4))
     (Cond_and (Type_eq MERGE_PROBLEMS) (Cond_or (Aux_eq 4) (Aux2_eq 4))))"

lemma sample_jobs_rows_ok: "rows_ok sample_jobs"
  by (simp add: rows_ok_def sample_job_defs aux_ok_def)

definition sample_s0 :: sched where
  "sample_s0 =
    \<lparr> db_job_rows = sample_jobs, in_progress = [],
      idle_workers = \<lparr> ch_elems = [0, 1], ch_cap = 2, ch_closed = False \<rparr>,
      task_channel = (\<lambda>w. \<lparr> ch_elems = [], ch_cap = 1, ch_closed = False \<rparr>),
      worker = (\<lambda>w. W_waiting), main = M_event_loop, processing_new_jobs = True,
      worker_finished = 0, notify_file_modified = False, not_yet_notified = 0,
      workers_num = 2 \<rparr>"

lemma sample_init: "sched_init 2 sample_jobs = sample_s0"
  by (simp add: sample_s0_def sched_init_def restart_left_jobs_def sample_job_defs upt_rec)

definition sample_s1 :: sched where
  "sample_s1 = sample_s0\<lparr>in_progress := [(9, sample_delete_cond)],
     main := M_take_worker (task_of_job sample_job)\<rparr>"

definition sample_s2 :: sched where
  "sample_s2 = sample_s1\<lparr>idle_workers := \<lparr> ch_elems = [1], ch_cap = 2, ch_closed = False \<rparr>,
     main := M_mark (task_of_job sample_job) 0\<rparr>"

definition sample_s3 :: sched where
  "sample_s3 = sample_s2\<lparr>db_job_rows := [sample_judge_job, sample_job\<lparr>job_status := Job_IN_PROGRESS\<rparr>],
     main := M_pass (task_of_job sample_job) 0\<rparr>"

definition sample_s4 :: sched where
  "sample_s4 = sample_s3\<lparr>task_channel := (task_channel sample_s3)(0 :=
       \<lparr> ch_elems = [task_of_job sample_job], ch_cap = 1, ch_closed = False \<rparr>),
     main := M_event_loop\<rparr>"

definition sample_s5 :: sched where
  "sample_s5 = sample_s4\<lparr>in_progress := [(9, sample_delete_cond),
       (10, Cond_not (Cond_and (Type_in [JUDGE_SUBMISSION, REJUDGE_SUBMISSION]) (Aux_eq 6)))],
     main := M_take_worker (task_of_job sample_judge_job)\<rparr>"

lemmas sample_sched_defs = sample_s5_def sample_s4_def sample_s3_def sample_s2_def sample_s1_def
  sample_s0_def

lemma sample_step1: "main_step sample_s0 sample_s1"
  unfolding sample_s1_def
  by (rule main_step.check_found)
    (simp_all add: sample_s0_def find_new_job_def runnable_def build_condition_def by_priority_def
      sample_job_defs task_of_job_def add_in_progress_job_def sample_delete_cond_def)

lemma sample_step2: "main_step sample_s1 sample_s2"
  unfolding sample_s2_def
  by (rule main_step.take_worker) (simp_all add: sample_s1_def sample_s0_def ch_pop_def)

lemma sample_step3: "main_step sample_s2 sample_s3"
proof -
  have "main_step sample_s2 (sample_s2\<lparr>db_job_rows := set_job_status Job_IN_PROGRESS
      (task_job_id (task_of_job sample_job)) (db_job_rows sample_s2),
      main := M_pass (task_of_job sample_job) 0\<rparr>)"
    by (rule main_step.mark) (simp add: sample_s2_def)
  then show ?thesis
    by (simp add: sample_s3_def sample_s2_def sample_s1_def sample_s0_def set_job_status_def
        sample_job_defs)
qed

lemma sample_step4: "main_step sample_s3 sample_s4"
  unfolding sample_s4_def
  by (rule main_step.pass)
    (simp_all add: sample_s3_def sample_s2_def sample_s1_def sample_s0_def ch_push_def)

lemma sample_find4:
  "find_new_job (db_job_rows sample_s4) (in_progress sample_s4) = Some sample_judge_job"
  by (simp add: sample_s4_def sample_s3_def sample_s2_def sample_s1_def sample_s0_def
      find_new_job_def runnable_def build_condition_def by_priority_def
      sample_job_defs sample_delete_cond_def)

lemma sample_step5: "main_step sample_s4 sample_s5"
  unfolding sample_s5_def
  by (rule main_step.check_found [OF _ _ sample_find4])
    (simp_all add: sample_s4_def sample_s3_def sample_s2_def sample_s1_def sample_s0_def
      find_new_job_def runnable_def build_condition_def by_priority_def
      sample_job_defs task_of_job_def add_in_progress_job_def sample_delete_cond_def)

lemma sample_reachable4: "reachable 2 sample_jobs sample_s4"
  by (rule reach_main [OF reach_main [OF reach_main [OF reach_main [OF reach_init [of 2 sample_jobs, unfolded sample_init] sample_step1]
    sample_step2] sample_step3] sample_step4])

lemma sample_reachable5: "reachable 2 sample_jobs sample_s5"
  by (rule reach_main [OF sample_reachable4 sample_step5])

section \<open>Properties\<close>

text \<open>
  C1. Mutual exclusion. Whatever the interleaving of the scheduler, the workers, and the rest of
  the system (which inserts, cancels and restarts jobs at any time), two tasks that are being
  started, are queued at a worker, or are executed have no submission, problem, contest problem,
  user, contest, contest round or internal file in common.
\<close>

theorem scheduler_mutual_exclusion:
  assumes "reachable n js s" and "rows_ok js"
    and "a \<noteq> b" and "held s a = Some t" and "held s b = Some u"
  shows "task_resources t \<inter> task_resources u = {}"
  using exclD(5) [OF _ assms(3-5)] reachable_excl_ok [OF assms(1,2)] unfolding excl_ok_def by blast

lemma scheduler_mutual_exclusion_witness:
  "job_resources DELETE_PROBLEM (Some 4) None \<inter> job_resources JUDGE_SUBMISSION (Some 6) None = {}"
proof -
  have "held sample_s5 (S_channel 0) = Some (task_of_job sample_job)"
    "held sample_s5 S_main = Some (task_of_job sample_judge_job)"
    by (simp_all add: sample_sched_defs)
  from scheduler_mutual_exclusion [OF sample_reachable5 sample_jobs_rows_ok _ this]
  show ?thesis by (simp add: sample_job_defs)
qed

text \<open>
  The server does not crash: as long as the jobs in the table have the identifiers their types
  need, which no step changes, registering a job in progress never throws in the main thread.
\<close>

theorem scheduler_never_crashes:
  assumes "reachable n js s" and "rows_ok js"
  shows "main s \<noteq> M_crashed"
  by (rule reachable_not_crashed [OF assms])

lemma scheduler_never_crashes_witness: "main sample_s5 \<noteq> M_crashed"
  by (rule scheduler_never_crashes [OF sample_reachable5 sample_jobs_rows_ok])

text \<open>
  The comment in \<open>check_for_and_process_a_new_job\<close> holds: the jobs marked as in progress in the
  database are never more than the workers.
\<close>

theorem in_progress_at_most_workers:
  assumes "reachable n js s" and "rows_ok js"
  shows "length (filter (\<lambda>j. job_status j = Job_IN_PROGRESS) (db_job_rows s)) \<le> n"
proof -
  let ?js = "filter (\<lambda>j. job_status j = Job_IN_PROGRESS) (db_job_rows s)"
  have rows: "rows_ok (db_job_rows s)" using reachable_excl_ok [OF assms] by (simp add: excl_ok_def)
  have n: "workers_num s = n" by (rule reachable_workers_num [OF assms(1)])
  have works: "\<forall>j \<in> set ?js. \<exists>w < n. works_on s w (job_id j)"
    using reachable_progress_ok [OF assms(1)] n unfolding progress_ok_def by auto
  then obtain f where f: "\<And>j. j \<in> set ?js \<Longrightarrow> f j < n \<and> works_on s (f j) (job_id j)" by metis
  have dist: "distinct (map job_id ?js)"
    using rows by (simp add: rows_ok_def distinct_map_filter)
  have "inj_on f (set ?js)"
  proof (rule inj_onI)
    fix i j assume ij: "i \<in> set ?js" "j \<in> set ?js" "f i = f j"
    then have "job_id i = job_id j"
      using works_on_unique [OF reachable_places_ok [OF assms(1)], of "f i"] f n by metis
    then show "i = j" by (rule distinct_key_eq [OF dist ij(1,2)])
  qed
  then have "card (set ?js) \<le> card {..<n}"
    by (rule card_inj_on_le) (use f in auto)
  moreover have "distinct ?js" using dist distinct_map by blast
  ultimately show ?thesis using distinct_card by fastforce
qed

lemma in_progress_at_most_workers_witness:
  "length (filter (\<lambda>j. job_status j = Job_IN_PROGRESS) (db_job_rows sample_s5)) \<le> 2 \<and>
   length (filter (\<lambda>j. job_status j = Job_IN_PROGRESS) (db_job_rows sample_s5)) = 1"
  using in_progress_at_most_workers [OF sample_reachable5 sample_jobs_rows_ok]
  by (simp add: sample_sched_defs sample_job_defs)

text \<open>
  C29. No lost wake-up. When the main thread rests in its event loop without having scheduled a
  check, and no notification is on its way (none due from a commit, none pending in the notify file
  or the eventfd, no worker past a commit and before its write to the eventfd), then no pending job
  can be started.
\<close>

theorem scheduler_no_lost_wakeup:
  assumes "reachable n js s" and "main s = M_event_loop" and "\<not> processing_new_jobs s"
    and "\<not> wakeup_pending s"
  shows "find_new_job (db_job_rows s) (in_progress s) = None"
  using reachable_wakeup_ok [OF assms(1)] assms(2-4) unfolding wakeup_ok_def by blast

definition sample_idle :: sched where
  "sample_idle = (sched_init 1 [])\<lparr>processing_new_jobs := False\<rparr>"

lemma sample_idle_reachable: "reachable 1 [] sample_idle"
  unfolding sample_idle_def
  by (rule reach_main [OF reach_init], rule main_step.check_none)
    (simp_all add: sched_init_def restart_left_jobs_def find_new_job_def)

lemma scheduler_no_lost_wakeup_witness:
  "find_new_job (db_job_rows sample_idle) (in_progress sample_idle) = None"
  by (rule scheduler_no_lost_wakeup [OF sample_idle_reachable])
    (simp_all add: sample_idle_def sched_init_def wakeup_pending_def)

text \<open>
  No deadlock, the shutdown included. With at least one worker, in every reachable state before
  the exit a thread of the server itself can take a step: the main thread that waits for an idle
  worker, for the shutdown, or for the join is never waiting for something that cannot come.
\<close>

theorem scheduler_no_deadlock:
  assumes "reachable n js s" and "rows_ok js" and "0 < n" and "main s \<noteq> M_exited"
  shows "\<exists>s'. server_step s s'"
proof -
  have n: "workers_num s = n" by (rule reachable_workers_num [OF assms(1)])
  have places: "places_ok s" by (rule reachable_places_ok [OF assms(1)])
  have rows: "rows_ok (db_job_rows s)"
    using reachable_excl_ok [OF assms(1,2)] by (simp add: excl_ok_def)
  have closing: "closing (main s) n (closed_workers s)"
    using reachable_shutdown_ok [OF assms(1)] n by (simp add: shutdown_ok_def)
  have crash: "main s \<noteq> M_crashed" by (rule reachable_not_crashed [OF assms(1,2)])
  note free = free_worker_or_step [OF places rows]
  show ?thesis
  proof (cases "main s")
    case M_event_loop
    then show ?thesis unfolding server_step_def by (blast intro: main_step.stop)
  next
    case (M_take_worker t)
    then have "\<not> closed s 0" using closing assms(3) n by (auto simp: closed_workers_def)
    then have "(\<exists>v idle. ch_pop (idle_workers s) = Some (Some v, idle)) \<or>
        (\<exists>v < workers_num s. \<exists>s'. worker_step v s s')"
      using M_take_worker assms(3) n by (intro free [of 0]) auto
    then show ?thesis
      using main_step.take_worker [OF M_take_worker] unfolding server_step_def by blast
  next
    case (M_mark t w)
    then show ?thesis unfolding server_step_def by (blast intro: main_step.mark)
  next
    case (M_pass t w)
    then show ?thesis
      using pass_enabled [OF places] main_step.pass unfolding server_step_def by blast
  next
    case (M_shutdown i)
    then have card: "card (closed_workers s) = i" using closing by simp
    show ?thesis
    proof (cases "i < n")
      case True
      then have "card (closed_workers s) \<noteq> card {..<n}" using card by simp
      then have "closed_workers s \<noteq> {..<n}" by (rule contrapos_nn) (rule arg_cong)
      moreover have "closed_workers s \<subseteq> {..<n}" using closed_workers_subset n by metis
      ultimately have "closed_workers s \<subset> {..<n}" by (rule psubsetI [rotated])
      then obtain w where "w < n" "w \<notin> closed_workers s" by blast
      then have w: "w < n" "\<not> closed s w" using n by (simp_all add: closed_workers_def)
      have "(\<exists>v idle. ch_pop (idle_workers s) = Some (Some v, idle)) \<or>
          (\<exists>v < workers_num s. \<exists>s'. worker_step v s s')"
        using M_shutdown n w by (intro free [of w]) auto
      then show ?thesis
        using main_step.shutdown_one [OF M_shutdown] True n unfolding server_step_def by blast
    next
      case False
      then have "i = n"
        using card card_mono [OF finite_lessThan closed_workers_subset [of s]] n by simp
      then show ?thesis
        using main_step.shutdown_join M_shutdown n unfolding server_step_def by metis
    qed
  next
    case M_joining
    then have all: "\<forall>w < n. closed s w" using closing n by (auto simp: closed_workers_def)
    show ?thesis
    proof (cases "\<forall>w < n. worker s w = W_exited")
      case True
      then show ?thesis
        using main_step.joined [OF M_joining] n unfolding server_step_def by blast
    next
      case False
      then show ?thesis
        using busy_worker_steps [OF places rows] all n unfolding server_step_def by blast
    qed
  next
    case M_exited
    then show ?thesis using assms(4) by blast
  next
    case M_crashed
    then show ?thesis using crash by blast
  qed
qed

lemma scheduler_no_deadlock_witness: "\<exists>s'. server_step sample_s5 s'"
  by (rule scheduler_no_deadlock [OF sample_reachable5 sample_jobs_rows_ok])
    (simp_all add: sample_sched_defs)

text \<open>
  C30. The job that is started next has the highest priority, and among these the lowest id, of all
  pending jobs that share no entity with a task in progress; and if there is such a job one is
  found.
\<close>

theorem scheduler_picks_highest_priority:
  assumes "reachable n js s" and "rows_ok js"
  shows "find_new_job (db_job_rows s) (in_progress s) = Some j \<longleftrightarrow>
     j \<in> {r \<in> set (db_job_rows s). job_status r = Job_PENDING \<and>
        (\<forall>a t. held s a = Some t \<longrightarrow> task_resources t \<inter> resources_of r = {})} \<and>
     (\<forall>r \<in> set (db_job_rows s). job_status r = Job_PENDING \<and>
        (\<forall>a t. held s a = Some t \<longrightarrow> task_resources t \<inter> resources_of r = {}) \<longrightarrow>
        r \<noteq> j \<longrightarrow> by_priority j r)"
proof -
  have ex: "excl (held s) (in_progress s) (db_job_rows s)" and rows: "rows_ok (db_job_rows s)"
    using reachable_excl_ok [OF assms] by (simp_all add: excl_ok_def)
  have free: "runnable (in_progress s) r \<longleftrightarrow> job_status r = Job_PENDING \<and>
      (\<forall>a t. held s a = Some t \<longrightarrow> task_resources t \<inter> resources_of r = {})"
    if "r \<in> set (db_job_rows s)" for r
  proof -
    have ok: "job_ok r" using rows that by (auto simp: rows_ok_def)
    have "(\<forall>(k, c) \<in> set (in_progress s). sql_true (eval_cond c r)) \<longleftrightarrow>
        (\<forall>a t. held s a = Some t \<longrightarrow>
          (\<forall>c. task_cond t = Inr (Some c) \<longrightarrow> sql_true (eval_cond c r)))"
      using exclD(4) [OF ex] unfolding task_entries_def by fastforce
    then show ?thesis
      using task_cond_allows [OF exclD(2) [OF ex] ok]
      by (auto simp: runnable_def eval_build_condition)
  qed
  have dist: "distinct (map job_id (filter (runnable (in_progress s)) (db_job_rows s)))"
    using rows by (simp add: rows_ok_def distinct_map_filter)
  show ?thesis
    unfolding find_new_job_def priority.first_by_iff [OF dist] using free by auto
qed

lemma scheduler_picks_highest_priority_witness:
  "resources_of sample_job \<inter> resources_of sample_judge_job = {}"
proof -
  have "held sample_s4 (S_channel 0) = Some (task_of_job sample_job)"
    by (simp add: sample_sched_defs)
  then show ?thesis
    using scheduler_picks_highest_priority [OF sample_reachable4 sample_jobs_rows_ok,
      THEN iffD1, OF sample_find4]
    by fastforce
qed

end
