(* ===== verification/Sim_Db.thy ===== *)
theory Sim_Db
  imports Sim_Types
begin

text \<open>
  The database as the program's schema declares it (src/sim/db/schema.cc): one list of rows per
  table, the AUTO_INCREMENT counters of the tables the program inserts into, the referential
  actions of the foreign keys (ON DELETE CASCADE and ON DELETE SET NULL), and the single-table
  statements that several components issue. Primary keys are distinct in every table; that and
  the foreign keys are the well-formedness predicates below.
\<close>

section \<open>Tables\<close>

record internal_file =
  file_id :: id
  file_created_at :: datetime

record merge_problems_job =
  mpj_id :: id
  mpj_rejudge_transferred_submissions :: bool

record add_problem_job =
  apj_id :: id
  apj_file_id :: id
  apj_visibility :: visibility
  apj_force_time_limits_reset :: bool
  apj_ignore_simfile :: bool
  apj_name :: string
  apj_label :: string
  apj_memory_limit_in_mib :: "64 word option"
  apj_fixed_time_limit_in_ns :: "64 word option"
  apj_reset_scoring :: bool
  apj_look_for_new_tests :: bool

record reupload_problem_job =
  rpj_id :: id
  rpj_file_id :: id
  rpj_force_time_limits_reset :: bool
  rpj_ignore_simfile :: bool
  rpj_name :: string
  rpj_label :: string
  rpj_memory_limit_in_mib :: "64 word option"
  rpj_fixed_time_limit_in_ns :: "64 word option"
  rpj_reset_scoring :: bool
  rpj_look_for_new_tests :: bool

record contest_entry_token =
  cet_token :: string
  cet_contest_id :: id
  cet_short_token :: "string option"
  cet_short_token_expiration :: "datetime option"

record db =
  db_internal_files :: "internal_file list"
  db_users :: "user list"
  db_sessions :: "session_row list"
  db_problems :: "problem list"
  db_problem_tags :: "problem_tag list"
  db_contests :: "contest list"
  db_contest_rounds :: "contest_round list"
  db_contest_problems :: "contest_problem list"
  db_contest_users :: "contest_user list"
  db_contest_files :: "contest_file list"
  db_submissions :: "submission list"
  db_jobs :: "job list"
  db_merge_problems_jobs :: "merge_problems_job list"
  db_add_problem_jobs :: "add_problem_job list"
  db_reupload_problem_jobs :: "reupload_problem_job list"
  db_contest_entry_tokens :: "contest_entry_token list"
  db_next_user_id :: id
  db_next_job_id :: id
  db_next_internal_file_id :: id

definition empty_db :: db where
  "empty_db =
     \<lparr> db_internal_files = [], db_users = [], db_sessions = [], db_problems = [],
       db_problem_tags = [], db_contests = [], db_contest_rounds = [], db_contest_problems = [],
       db_contest_users = [], db_contest_files = [], db_submissions = [], db_jobs = [],
       db_merge_problems_jobs = [], db_add_problem_jobs = [], db_reupload_problem_jobs = [],
       db_contest_entry_tokens = [], db_next_user_id = 1, db_next_job_id = 1,
       db_next_internal_file_id = 1 \<rparr>"

definition find_user :: "db \<Rightarrow> id \<Rightarrow> user option" where
  "find_user d uid = find (\<lambda>u. user_id u = uid) (db_users d)"

definition find_problem :: "db \<Rightarrow> id \<Rightarrow> problem option" where
  "find_problem d pid = find (\<lambda>p. problem_id p = pid) (db_problems d)"

definition find_submission :: "db \<Rightarrow> id \<Rightarrow> submission option" where
  "find_submission d sid = find (\<lambda>s. sub_id s = sid) (db_submissions d)"

definition find_job :: "db \<Rightarrow> id \<Rightarrow> job option" where
  "find_job d jid = find (\<lambda>j. job_id j = jid) (db_jobs d)"

lemma find_key_Some:
  "find (\<lambda>r. k r = i) rs = Some r \<Longrightarrow> r \<in> set rs \<and> k r = i"
  by (auto simp: find_Some_iff)

lemma find_key_None: "find (\<lambda>r. k r = i) rs = None \<longleftrightarrow> i \<notin> k ` set rs"
  by (auto simp: find_None_iff)

lemma find_key_iff:
  "distinct (map k rs) \<Longrightarrow> find (\<lambda>r. k r = i) rs = Some r \<longleftrightarrow> r \<in> set rs \<and> k r = i"
proof (induction rs)
  case Nil
  then show ?case by simp
next
  case (Cons x xs)
  then show ?case by (cases "k x = i") (auto simp: rev_image_eqI)
qed

section \<open>Primary keys\<close>

definition keys_ok :: "db \<Rightarrow> bool" where
  "keys_ok d \<longleftrightarrow>
     distinct (map file_id (db_internal_files d)) \<and>
     distinct (map user_id (db_users d)) \<and>
     distinct (map session_id (db_sessions d)) \<and>
     distinct (map problem_id (db_problems d)) \<and>
     distinct (map contest_id (db_contests d)) \<and>
     distinct (map round_id (db_contest_rounds d)) \<and>
     distinct (map cp_id (db_contest_problems d)) \<and>
     distinct (map (\<lambda>cu. (cu_user_id cu, cu_contest_id cu)) (db_contest_users d)) \<and>
     distinct (map cf_id (db_contest_files d)) \<and>
     distinct (map cet_token (db_contest_entry_tokens d)) \<and>
     distinct (map cet_contest_id (db_contest_entry_tokens d)) \<and>
     distinct (map sub_id (db_submissions d)) \<and>
     distinct (map job_id (db_jobs d))"

section \<open>Foreign keys\<close>

text \<open>Every reference that the schema declares with FOREIGN KEY has its target.\<close>

definition user_ids :: "db \<Rightarrow> id set" where
  "user_ids d = user_id ` set (db_users d)"

definition problem_ids :: "db \<Rightarrow> id set" where
  "problem_ids d = problem_id ` set (db_problems d)"

definition contest_ids :: "db \<Rightarrow> id set" where
  "contest_ids d = contest_id ` set (db_contests d)"

definition round_ids :: "db \<Rightarrow> id set" where
  "round_ids d = round_id ` set (db_contest_rounds d)"

definition cp_ids :: "db \<Rightarrow> id set" where
  "cp_ids d = cp_id ` set (db_contest_problems d)"

lemmas ids_defs = user_ids_def problem_ids_def contest_ids_def round_ids_def cp_ids_def

definition ref_in :: "id set \<Rightarrow> id option \<Rightarrow> bool" where
  "ref_in ids r = (case r of None \<Rightarrow> True | Some x \<Rightarrow> x \<in> ids)"

lemma ref_in_simps [simp]: "ref_in ids None" "ref_in ids (Some x) = (x \<in> ids)"
  by (simp_all add: ref_in_def)

lemma ref_in_mono: "ref_in A r \<Longrightarrow> A \<subseteq> B \<Longrightarrow> ref_in B r"
  by (cases r) auto

definition round_refs :: "db \<Rightarrow> contest_round \<Rightarrow> bool" where
  "round_refs d r \<longleftrightarrow> round_contest_id r \<in> contest_ids d"

definition cp_refs :: "db \<Rightarrow> contest_problem \<Rightarrow> bool" where
  "cp_refs d c \<longleftrightarrow> cp_contest_id c \<in> contest_ids d \<and> cp_round_id c \<in> round_ids d \<and>
     cp_problem_id c \<in> problem_ids d"

definition cu_refs :: "db \<Rightarrow> contest_user \<Rightarrow> bool" where
  "cu_refs d c \<longleftrightarrow> cu_user_id c \<in> user_ids d \<and> cu_contest_id c \<in> contest_ids d"

definition cf_refs :: "db \<Rightarrow> contest_file \<Rightarrow> bool" where
  "cf_refs d f \<longleftrightarrow> cf_contest_id f \<in> contest_ids d \<and> ref_in (user_ids d) (cf_creator f)"

definition sub_refs :: "db \<Rightarrow> submission \<Rightarrow> bool" where
  "sub_refs d s \<longleftrightarrow> ref_in (user_ids d) (sub_user_id s) \<and> sub_problem_id s \<in> problem_ids d \<and>
     ref_in (cp_ids d) (sub_cp_id s) \<and> ref_in (round_ids d) (sub_round_id s) \<and>
     ref_in (contest_ids d) (sub_contest_id s)"

lemmas refs_defs = round_refs_def cp_refs_def cu_refs_def cf_refs_def sub_refs_def

definition refs_ok :: "db \<Rightarrow> bool" where
  "refs_ok d \<longleftrightarrow>
     (\<forall>s \<in> set (db_sessions d). session_user_id s \<in> user_ids d) \<and>
     (\<forall>p \<in> set (db_problems d). ref_in (user_ids d) (problem_owner_id p)) \<and>
     (\<forall>t \<in> set (db_problem_tags d). tag_problem_id t \<in> problem_ids d) \<and>
     (\<forall>r \<in> set (db_contest_rounds d). round_refs d r) \<and>
     (\<forall>c \<in> set (db_contest_problems d). cp_refs d c) \<and>
     (\<forall>c \<in> set (db_contest_users d). cu_refs d c) \<and>
     (\<forall>f \<in> set (db_contest_files d). cf_refs d f) \<and>
     (\<forall>t \<in> set (db_contest_entry_tokens d). cet_contest_id t \<in> contest_ids d) \<and>
     (\<forall>s \<in> set (db_submissions d). sub_refs d s)"

lemma ref_kept:
  "x \<in> k ` set rs \<Longrightarrow> x \<notin> k ` {r \<in> set rs. p r} \<Longrightarrow> x \<in> k ` {r \<in> set rs. \<not> p r}"
  by auto

lemma ref_in_kept:
  "ref_in (k ` set rs) o' \<Longrightarrow> \<not> (case o' of None \<Rightarrow> False | Some x \<Rightarrow> x \<in> k ` {r \<in> set rs. p r}) \<Longrightarrow>
     ref_in (k ` {r \<in> set rs. \<not> p r}) o'"
  by (cases o') (simp_all add: ref_kept)

section \<open>DELETE with the referential actions of the schema\<close>

text \<open>
  \<open>DELETE FROM contest_problems WHERE ...\<close>: submissions of the deleted contest problems cascade.
\<close>

definition delete_contest_problems_where :: "(contest_problem \<Rightarrow> bool) \<Rightarrow> db \<Rightarrow> db" where
  "delete_contest_problems_where p d =
     (let gone = cp_id ` {c \<in> set (db_contest_problems d). p c}
      in d\<lparr> db_contest_problems := delete_where p (db_contest_problems d),
            db_submissions := delete_where
              (\<lambda>s. case sub_cp_id s of None \<Rightarrow> False | Some c \<Rightarrow> c \<in> gone) (db_submissions d) \<rparr>)"

definition delete_contest_rounds_where :: "(contest_round \<Rightarrow> bool) \<Rightarrow> db \<Rightarrow> db" where
  "delete_contest_rounds_where p d =
     (let gone = round_id ` {r \<in> set (db_contest_rounds d). p r};
          d1 = delete_contest_problems_where (\<lambda>c. cp_round_id c \<in> gone) d
      in d1\<lparr> db_contest_rounds := delete_where p (db_contest_rounds d1),
             db_submissions := delete_where
               (\<lambda>s. case sub_round_id s of None \<Rightarrow> False | Some r \<Rightarrow> r \<in> gone)
               (db_submissions d1) \<rparr>)"

definition delete_contests_where :: "(contest \<Rightarrow> bool) \<Rightarrow> db \<Rightarrow> db" where
  "delete_contests_where p d =
     (let gone = contest_id ` {c \<in> set (db_contests d). p c};
          d1 = delete_contest_rounds_where (\<lambda>r. round_contest_id r \<in> gone) d;
          d2 = delete_contest_problems_where (\<lambda>c. cp_contest_id c \<in> gone) d1
      in d2\<lparr> db_contests := delete_where p (db_contests d2),
             db_contest_users := delete_where (\<lambda>c. cu_contest_id c \<in> gone) (db_contest_users d2),
             db_contest_files := delete_where (\<lambda>f. cf_contest_id f \<in> gone) (db_contest_files d2),
             db_contest_entry_tokens := delete_where (\<lambda>t. cet_contest_id t \<in> gone) (db_contest_entry_tokens d2),
             db_submissions := delete_where
               (\<lambda>s. case sub_contest_id s of None \<Rightarrow> False | Some c \<Rightarrow> c \<in> gone)
               (db_submissions d2) \<rparr>)"

definition delete_problems_where :: "(problem \<Rightarrow> bool) \<Rightarrow> db \<Rightarrow> db" where
  "delete_problems_where p d =
     (let gone = problem_id ` {x \<in> set (db_problems d). p x};
          d1 = delete_contest_problems_where (\<lambda>c. cp_problem_id c \<in> gone) d
      in d1\<lparr> db_problems := delete_where p (db_problems d1),
             db_problem_tags := delete_where (\<lambda>t. tag_problem_id t \<in> gone) (db_problem_tags d1),
             db_submissions := delete_where (\<lambda>s. sub_problem_id s \<in> gone) (db_submissions d1) \<rparr>)"

text \<open>
  \<open>DELETE FROM users WHERE ...\<close>: sessions, contest users and submissions cascade; the owner of a
  problem and the creator of a contest file are set to NULL.
\<close>

definition set_null :: "id set \<Rightarrow> id option \<Rightarrow> id option" where
  "set_null gone ou = (case ou of None \<Rightarrow> None | Some u \<Rightarrow> if u \<in> gone then None else Some u)"

definition delete_users_where :: "(user \<Rightarrow> bool) \<Rightarrow> db \<Rightarrow> db" where
  "delete_users_where p d =
     (let gone = user_id ` {u \<in> set (db_users d). p u}
      in d\<lparr> db_users := delete_where p (db_users d),
            db_sessions := delete_where (\<lambda>s. session_user_id s \<in> gone) (db_sessions d),
            db_problems := map (\<lambda>x. x\<lparr>problem_owner_id := set_null gone (problem_owner_id x)\<rparr>)
              (db_problems d),
            db_contest_users := delete_where (\<lambda>c. cu_user_id c \<in> gone) (db_contest_users d),
            db_contest_files := map (\<lambda>f. f\<lparr>cf_creator := set_null gone (cf_creator f)\<rparr>)
              (db_contest_files d),
            db_submissions := delete_where
              (\<lambda>s. case sub_user_id s of None \<Rightarrow> False | Some u \<Rightarrow> u \<in> gone) (db_submissions d) \<rparr>)"

section \<open>INSERT INTO jobs\<close>

text \<open>
  \<open>INSERT INTO jobs (created_at, creator, type, priority, status, aux_id) SELECT ...\<close>: one new
  pending job per selected row, with consecutive AUTO_INCREMENT ids and an empty log.
\<close>

definition new_job :: "id \<Rightarrow> datetime \<Rightarrow> id option \<Rightarrow> job_type \<Rightarrow> id option \<Rightarrow> id option \<Rightarrow> job" where
  "new_job jid now creator jtype aux aux2 =
     \<lparr> job_id = jid, job_created_at = now, job_creator = creator, job_type = jtype,
       job_priority = default_priority jtype, job_status = Job_PENDING, job_aux_id = aux,
       job_aux_id_2 = aux2, job_log = [] \<rparr>"

definition insert_job :: "datetime \<Rightarrow> id option \<Rightarrow> job_type \<Rightarrow> id option \<Rightarrow> id option \<Rightarrow> db \<Rightarrow> db" where
  "insert_job now creator jtype aux aux2 d =
     d\<lparr> db_jobs := db_jobs d @ [new_job (db_next_job_id d) now creator jtype aux aux2],
        db_next_job_id := db_next_job_id d + 1 \<rparr>"

fun insert_jobs_for :: "datetime \<Rightarrow> job_type \<Rightarrow> id list \<Rightarrow> db \<Rightarrow> db" where
  "insert_jobs_for now jtype [] d = d"
| "insert_jobs_for now jtype (x # xs) d =
     insert_jobs_for now jtype xs (insert_job now None jtype (Some x) None d)"

lemma insert_job_frame [simp]:
  "db_internal_files (insert_job now cr t a b d) = db_internal_files d"
  "db_users (insert_job now cr t a b d) = db_users d"
  "db_sessions (insert_job now cr t a b d) = db_sessions d"
  "db_problems (insert_job now cr t a b d) = db_problems d"
  "db_problem_tags (insert_job now cr t a b d) = db_problem_tags d"
  "db_contests (insert_job now cr t a b d) = db_contests d"
  "db_contest_rounds (insert_job now cr t a b d) = db_contest_rounds d"
  "db_contest_problems (insert_job now cr t a b d) = db_contest_problems d"
  "db_contest_users (insert_job now cr t a b d) = db_contest_users d"
  "db_contest_files (insert_job now cr t a b d) = db_contest_files d"
  "db_submissions (insert_job now cr t a b d) = db_submissions d"
  "db_merge_problems_jobs (insert_job now cr t a b d) = db_merge_problems_jobs d"
  "db_add_problem_jobs (insert_job now cr t a b d) = db_add_problem_jobs d"
  "db_reupload_problem_jobs (insert_job now cr t a b d) = db_reupload_problem_jobs d"
  "db_contest_entry_tokens (insert_job now cr t a b d) = db_contest_entry_tokens d"
  "db_next_internal_file_id (insert_job now cr t a b d) = db_next_internal_file_id d"
  "db_next_user_id (insert_job now cr t a b d) = db_next_user_id d"
  by (simp_all add: insert_job_def)

lemma insert_jobs_for_frame [simp]:
  "db_internal_files (insert_jobs_for now t xs d) = db_internal_files d"
  "db_users (insert_jobs_for now t xs d) = db_users d"
  "db_sessions (insert_jobs_for now t xs d) = db_sessions d"
  "db_problems (insert_jobs_for now t xs d) = db_problems d"
  "db_problem_tags (insert_jobs_for now t xs d) = db_problem_tags d"
  "db_contests (insert_jobs_for now t xs d) = db_contests d"
  "db_contest_rounds (insert_jobs_for now t xs d) = db_contest_rounds d"
  "db_contest_problems (insert_jobs_for now t xs d) = db_contest_problems d"
  "db_contest_users (insert_jobs_for now t xs d) = db_contest_users d"
  "db_contest_files (insert_jobs_for now t xs d) = db_contest_files d"
  "db_submissions (insert_jobs_for now t xs d) = db_submissions d"
  "db_merge_problems_jobs (insert_jobs_for now t xs d) = db_merge_problems_jobs d"
  "db_add_problem_jobs (insert_jobs_for now t xs d) = db_add_problem_jobs d"
  "db_reupload_problem_jobs (insert_jobs_for now t xs d) = db_reupload_problem_jobs d"
  "db_contest_entry_tokens (insert_jobs_for now t xs d) = db_contest_entry_tokens d"
  "db_next_internal_file_id (insert_jobs_for now t xs d) = db_next_internal_file_id d"
  "db_next_user_id (insert_jobs_for now t xs d) = db_next_user_id d"
  by (induction now t xs d rule: insert_jobs_for.induct) simp_all

text \<open>The jobs that \<open>insert_jobs_for\<close> appends, as (type, aux id) pairs in order.\<close>

lemma insert_jobs_for_jobs:
  "\<exists>js. db_jobs (insert_jobs_for now t xs d) = db_jobs d @ js \<and>
     map job_aux_id js = map Some xs \<and>
     (\<forall>j \<in> set js. job_type j = t \<and> job_status j = Job_PENDING \<and> job_creator j = None \<and>
        job_priority j = default_priority t)"
proof (induction xs arbitrary: d)
  case Nil
  then show ?case by simp
next
  case (Cons x xs)
  from Cons.IH [of "insert_job now None t (Some x) None d"] obtain js where
    "db_jobs (insert_jobs_for now t (x # xs) d) =
       db_jobs (insert_job now None t (Some x) None d) @ js" and
    "map job_aux_id js = map Some xs" and
    "\<forall>j \<in> set js. job_type j = t \<and> job_status j = Job_PENDING \<and> job_creator j = None \<and>
        job_priority j = default_priority t" by auto
  then show ?case
    by (intro exI [of _ "new_job (db_next_job_id d) now None t (Some x) None # js"])
      (simp add: insert_job_def new_job_def)
qed

lemma insert_jobs_for_mono: "set (db_jobs d) \<subseteq> set (db_jobs (insert_jobs_for now t xs d))"
  using insert_jobs_for_jobs [of now t xs d] by auto

section \<open>Facts about the cascading deletes\<close>

lemmas delete_defs = delete_contest_problems_where_def delete_contest_rounds_where_def
  delete_contests_where_def delete_problems_where_def delete_users_where_def

lemma delete_contest_problems_frame [simp]:
  "db_jobs (delete_contest_problems_where p d) = db_jobs d"
  "db_users (delete_contest_problems_where p d) = db_users d"
  "db_sessions (delete_contest_problems_where p d) = db_sessions d"
  "db_problems (delete_contest_problems_where p d) = db_problems d"
  "db_problem_tags (delete_contest_problems_where p d) = db_problem_tags d"
  "db_contests (delete_contest_problems_where p d) = db_contests d"
  "db_contest_rounds (delete_contest_problems_where p d) = db_contest_rounds d"
  "db_contest_users (delete_contest_problems_where p d) = db_contest_users d"
  "db_contest_files (delete_contest_problems_where p d) = db_contest_files d"
  "db_internal_files (delete_contest_problems_where p d) = db_internal_files d"
  by (simp_all add: delete_defs Let_def)

lemma delete_contest_rounds_frame [simp]:
  "db_jobs (delete_contest_rounds_where p d) = db_jobs d"
  "db_users (delete_contest_rounds_where p d) = db_users d"
  "db_sessions (delete_contest_rounds_where p d) = db_sessions d"
  "db_problems (delete_contest_rounds_where p d) = db_problems d"
  "db_problem_tags (delete_contest_rounds_where p d) = db_problem_tags d"
  "db_contests (delete_contest_rounds_where p d) = db_contests d"
  "db_contest_users (delete_contest_rounds_where p d) = db_contest_users d"
  "db_contest_files (delete_contest_rounds_where p d) = db_contest_files d"
  "db_internal_files (delete_contest_rounds_where p d) = db_internal_files d"
  by (simp_all add: delete_contest_rounds_where_def Let_def)

lemma delete_jobs_frame [simp]:
  "db_jobs (delete_contests_where q d) = db_jobs d"
  "db_jobs (delete_problems_where r d) = db_jobs d"
  "db_jobs (delete_users_where s d) = db_jobs d"
  by (simp_all add: delete_contests_where_def delete_problems_where_def delete_users_where_def Let_def)

lemma ref_in_set_null:
  "ref_in (k ` set rs) o' \<Longrightarrow>
     ref_in (k ` {r \<in> set rs. \<not> p r}) (set_null (k ` {r \<in> set rs. p r}) o')"
  by (cases o') (auto simp: set_null_def)

text \<open>
  The key sets after a delete. What the referential actions drop is exactly what refers to a
  deleted row, so every reference that remains still has its target.
\<close>

lemma refs_ok_delete_users:
  assumes "refs_ok d"
  shows "refs_ok (delete_users_where p d)"
proof -
  let ?e = "delete_users_where p d"
  have ids: "problem_ids ?e = problem_ids d" "contest_ids ?e = contest_ids d"
      "round_ids ?e = round_ids d" "cp_ids ?e = cp_ids d"
      "user_ids ?e = user_id ` {r \<in> set (db_users d). \<not> p r}"
    by (simp_all add: ids_defs delete_users_where_def Let_def image_image)
  show ?thesis
    using assms unfolding refs_ok_def refs_defs ids
    by (simp add: delete_users_where_def Let_def ref_in_set_null user_ids_def)
       (fast intro: ref_kept ref_in_kept)
qed

lemma refs_ok_delete_contest_problems:
  assumes "refs_ok d"
  shows "refs_ok (delete_contest_problems_where p d)"
proof -
  let ?e = "delete_contest_problems_where p d"
  have ids: "problem_ids ?e = problem_ids d" "contest_ids ?e = contest_ids d"
      "round_ids ?e = round_ids d" "user_ids ?e = user_ids d"
      "cp_ids ?e = cp_id ` {r \<in> set (db_contest_problems d). \<not> p r}"
    by (simp_all add: ids_defs delete_contest_problems_where_def Let_def)
  show ?thesis
    using assms unfolding refs_ok_def refs_defs ids
    by (simp add: delete_contest_problems_where_def Let_def cp_ids_def)
       (fast intro: ref_kept ref_in_kept)
qed

lemma refs_ok_delete_problems:
  assumes "refs_ok d"
  shows "refs_ok (delete_problems_where p d)"
proof -
  let ?e = "delete_problems_where p d"
  let ?d1 = "delete_contest_problems_where (\<lambda>c. cp_problem_id c \<in> problem_id ` {x \<in> set (db_problems d). p x}) d"
  have d1: "refs_ok ?d1" using assms by (rule refs_ok_delete_contest_problems)
  have ids: "user_ids ?e = user_ids ?d1" "contest_ids ?e = contest_ids ?d1"
      "round_ids ?e = round_ids ?d1" "cp_ids ?e = cp_ids ?d1"
      "problem_ids ?e = problem_id ` {r \<in> set (db_problems ?d1). \<not> p r}"
    by (simp_all add: ids_defs delete_problems_where_def Let_def)
  have cps: "\<forall>c \<in> set (db_contest_problems ?d1). cp_problem_id c \<notin> problem_id ` {x \<in> set (db_problems d). p x}"
    by (simp add: delete_contest_problems_where_def Let_def)
  show ?thesis
    using d1 cps unfolding refs_ok_def refs_defs ids
    by (simp add: delete_problems_where_def Let_def problem_ids_def)
       (fast intro: ref_kept ref_in_kept)
qed

lemma refs_ok_delete_contest_rounds:
  assumes "refs_ok d"
  shows "refs_ok (delete_contest_rounds_where p d)"
proof -
  let ?e = "delete_contest_rounds_where p d"
  let ?d1 = "delete_contest_problems_where (\<lambda>c. cp_round_id c \<in> round_id ` {x \<in> set (db_contest_rounds d). p x}) d"
  have d1: "refs_ok ?d1" using assms by (rule refs_ok_delete_contest_problems)
  have ids: "user_ids ?e = user_ids ?d1" "contest_ids ?e = contest_ids ?d1"
      "problem_ids ?e = problem_ids ?d1" "cp_ids ?e = cp_ids ?d1"
      "round_ids ?e = round_id ` {r \<in> set (db_contest_rounds ?d1). \<not> p r}"
    by (simp_all add: ids_defs delete_contest_rounds_where_def Let_def)
  have cps: "\<forall>c \<in> set (db_contest_problems ?d1). cp_round_id c \<notin> round_id ` {x \<in> set (db_contest_rounds d). p x}"
    by (simp add: delete_contest_problems_where_def Let_def)
  show ?thesis
    using d1 cps unfolding refs_ok_def refs_defs ids
    by (simp add: delete_contest_rounds_where_def Let_def round_ids_def)
       (fast intro: ref_kept ref_in_kept)
qed

text \<open>Deleting contests: first the rounds and contest problems, then what refers to the contest.\<close>

definition delete_contest_refs :: "id set \<Rightarrow> (contest \<Rightarrow> bool) \<Rightarrow> db \<Rightarrow> db" where
  "delete_contest_refs gone p d =
     d\<lparr> db_contests := delete_where p (db_contests d),
        db_contest_users := delete_where (\<lambda>c. cu_contest_id c \<in> gone) (db_contest_users d),
        db_contest_files := delete_where (\<lambda>f. cf_contest_id f \<in> gone) (db_contest_files d),
        db_contest_entry_tokens := delete_where (\<lambda>t. cet_contest_id t \<in> gone) (db_contest_entry_tokens d),
        db_submissions := delete_where
          (\<lambda>s. case sub_contest_id s of None \<Rightarrow> False | Some c \<Rightarrow> c \<in> gone) (db_submissions d) \<rparr>"

lemma refs_ok_delete_contest_refs:
  assumes "refs_ok d" and gone: "gone = contest_id ` {x \<in> set (db_contests d). p x}"
    and "\<forall>c \<in> set (db_contest_problems d). cp_contest_id c \<notin> gone"
    and "\<forall>r \<in> set (db_contest_rounds d). round_contest_id r \<notin> gone"
  shows "refs_ok (delete_contest_refs gone p d)"
proof -
  let ?e = "delete_contest_refs gone p d"
  have ids: "user_ids ?e = user_ids d" "round_ids ?e = round_ids d"
      "problem_ids ?e = problem_ids d" "cp_ids ?e = cp_ids d"
      "contest_ids ?e = contest_id ` {r \<in> set (db_contests d). \<not> p r}"
    by (simp_all add: ids_defs delete_contest_refs_def)
  have kept: "x \<in> contest_id ` set (db_contests d) \<Longrightarrow> x \<notin> gone \<Longrightarrow>
      x \<in> contest_id ` {r \<in> set (db_contests d). \<not> p r}" for x
    unfolding gone by (rule ref_kept)
  have kept': "ref_in (contest_id ` set (db_contests d)) ox \<Longrightarrow>
      \<not> (case ox of None \<Rightarrow> False | Some x \<Rightarrow> x \<in> gone) \<Longrightarrow>
      ref_in (contest_id ` {r \<in> set (db_contests d). \<not> p r}) ox" for ox
    unfolding gone by (rule ref_in_kept)
  show ?thesis
    using assms(1,3,4) unfolding refs_ok_def refs_defs ids
    by (simp add: delete_contest_refs_def contest_ids_def) (fast intro: kept kept')
qed

lemma refs_ok_delete_contests:
  assumes "refs_ok d"
  shows "refs_ok (delete_contests_where p d)"
proof -
  define gone where "gone = contest_id ` {x \<in> set (db_contests d). p x}"
  define d2 where "d2 = delete_contest_problems_where (\<lambda>c. cp_contest_id c \<in> gone)
    (delete_contest_rounds_where (\<lambda>r. round_contest_id r \<in> gone) d)"
  have "delete_contests_where p d = delete_contest_refs gone p d2"
    by (simp add: delete_contests_where_def delete_contest_refs_def gone_def d2_def Let_def)
  moreover have "refs_ok d2"
    unfolding d2_def
    using assms by (intro refs_ok_delete_contest_problems refs_ok_delete_contest_rounds)
  moreover have "gone = contest_id ` {x \<in> set (db_contests d2). p x}"
    by (simp add: d2_def gone_def)
  moreover have "\<forall>c \<in> set (db_contest_problems d2). cp_contest_id c \<notin> gone"
    by (simp add: d2_def delete_contest_problems_where_def Let_def)
  moreover have "\<forall>r \<in> set (db_contest_rounds d2). round_contest_id r \<notin> gone"
    by (simp add: d2_def delete_contest_rounds_where_def Let_def)
  ultimately show ?thesis by (simp only: refs_ok_delete_contest_refs)
qed

lemmas refs_ok_deletes = refs_ok_delete_users refs_ok_delete_contest_problems
  refs_ok_delete_problems refs_ok_delete_contest_rounds refs_ok_delete_contests

end
