(* ===== verification/Submission_Finals.thy ===== *)
theory Submission_Finals
  imports Sim_Db
begin

text \<open>
  Choosing the final submissions (src/sim/submissions/update_final.cc). Each of the three C++
  functions unsets a flag on the submissions of a group (user and problem, or user and contest
  problem), selects the first candidate of the group in an ORDER BY, and sets the flag on it. The
  shared statement pattern is \<open>reselect\<close>; the locale \<open>final_flag\<close> proves once what it does, and is
  interpreted on the flag, group, candidates and order of every branch of the code.
\<close>

section \<open>ORDER BY clauses\<close>

text \<open>\<open>ORDER BY id DESC\<close>\<close>

definition by_id_desc :: "submission \<Rightarrow> submission \<Rightarrow> bool" where
  "by_id_desc a b \<longleftrightarrow> sub_id b < sub_id a"

text \<open>\<open>ORDER BY score DESC, full_status, id DESC\<close>\<close>

definition by_score_full_status :: "submission \<Rightarrow> submission \<Rightarrow> bool" where
  "by_score_full_status a b \<longleftrightarrow>
     null_less (sub_score b) (sub_score a) \<or>
     sub_score a = sub_score b \<and>
       (sub_full_status a < sub_full_status b \<or>
        sub_full_status a = sub_full_status b \<and> sub_id b < sub_id a)"

text \<open>\<open>ORDER BY initial_status, id DESC\<close>\<close>

definition by_initial_status :: "submission \<Rightarrow> submission \<Rightarrow> bool" where
  "by_initial_status a b \<longleftrightarrow>
     sub_initial_status a < sub_initial_status b \<or>
     sub_initial_status a = sub_initial_status b \<and> sub_id b < sub_id a"

text \<open>\<open>ORDER BY score DESC, initial_status, id DESC\<close>\<close>

definition by_score_initial_status :: "submission \<Rightarrow> submission \<Rightarrow> bool" where
  "by_score_initial_status a b \<longleftrightarrow>
     null_less (sub_score b) (sub_score a) \<or>
     sub_score a = sub_score b \<and> by_initial_status a b"

lemmas order_defs = by_id_desc_def by_score_full_status_def by_initial_status_def
  by_score_initial_status_def

section \<open>Unset, select, set\<close>

definition reselect ::
  "('r \<Rightarrow> bool) \<Rightarrow> (bool \<Rightarrow> 'r \<Rightarrow> 'r) \<Rightarrow> ('r \<Rightarrow> id) \<Rightarrow> ('r \<Rightarrow> bool) \<Rightarrow> ('r \<Rightarrow> bool)
    \<Rightarrow> ('r \<Rightarrow> 'r \<Rightarrow> bool) \<Rightarrow> 'r list \<Rightarrow> 'r list" where
  "reselect get_flag set_flag key grp cand lt rs =
     (let rs1 = update_where (\<lambda>r. grp r \<and> get_flag r) (set_flag False) rs
      in case first_by lt (filter (\<lambda>r. cand r \<and> grp r) rs1) of
           None \<Rightarrow> rs1
         | Some b \<Rightarrow> update_where (\<lambda>r. key r = key b) (set_flag True) rs1)"

definition update_problem_final :: "id \<Rightarrow> id \<Rightarrow> submission list \<Rightarrow> submission list" where
  "update_problem_final uid pid =
     reselect sub_problem_final (\<lambda>v s. s\<lparr>sub_problem_final := v\<rparr>) sub_id
       (\<lambda>s. sub_user_id s = Some uid \<and> sub_problem_id s = pid)
       sub_final_candidate by_score_full_status"

text \<open>The order in which the contest problem's final submission is selected.\<close>

fun cp_final_order :: "final_method \<Rightarrow> submission \<Rightarrow> submission \<Rightarrow> bool" where
  "cp_final_order LATEST_COMPILING = by_id_desc"
| "cp_final_order HIGHEST_SCORE = by_score_full_status"

definition update_contest_problem_final ::
  "id \<Rightarrow> id \<Rightarrow> final_method \<Rightarrow> submission list \<Rightarrow> submission list" where
  "update_contest_problem_final uid cpid meth =
     reselect sub_cp_final (\<lambda>v s. s\<lparr>sub_cp_final := v\<rparr>) sub_id
       (\<lambda>s. sub_user_id s = Some uid \<and> sub_cp_id s = Some cpid)
       sub_final_candidate (cp_final_order meth)"

fun cp_initial_final_order ::
  "final_method \<Rightarrow> score_revealing \<Rightarrow> submission \<Rightarrow> submission \<Rightarrow> bool" where
  "cp_initial_final_order LATEST_COMPILING rv = by_id_desc"
| "cp_initial_final_order HIGHEST_SCORE Reveal_NONE = by_initial_status"
| "cp_initial_final_order HIGHEST_SCORE ONLY_SCORE = by_score_initial_status"
| "cp_initial_final_order HIGHEST_SCORE SCORE_AND_FULL_STATUS = by_score_full_status"

definition update_contest_problem_initial_final ::
  "id \<Rightarrow> id \<Rightarrow> final_method \<Rightarrow> score_revealing \<Rightarrow> submission list \<Rightarrow> submission list" where
  "update_contest_problem_initial_final uid cpid meth rv =
     reselect sub_cp_initial_final (\<lambda>v s. s\<lparr>sub_cp_initial_final := v\<rparr>) sub_id
       (\<lambda>s. sub_user_id s = Some uid \<and> sub_cp_id s = Some cpid)
       sub_initial_final_candidate (cp_initial_final_order meth rv)"

section \<open>Candidates\<close>

fun is_ok_for_final_candidate :: "submission_status \<Rightarrow> bool" where
  "is_ok_for_final_candidate Sub_OK = True"
| "is_ok_for_final_candidate Sub_WA = True"
| "is_ok_for_final_candidate Sub_TLE = True"
| "is_ok_for_final_candidate Sub_MLE = True"
| "is_ok_for_final_candidate Sub_OLE = True"
| "is_ok_for_final_candidate Sub_RTE = True"
| "is_ok_for_final_candidate Sub_PENDING = False"
| "is_ok_for_final_candidate Sub_COMPILATION_ERROR = False"
| "is_ok_for_final_candidate Sub_CHECKER_COMPILATION_ERROR = False"
| "is_ok_for_final_candidate Sub_JUDGE_ERROR = False"

fun is_final_candidate :: "submission_type \<Rightarrow> submission_status \<Rightarrow> int option \<Rightarrow> bool" where
  "is_final_candidate Sub_IGNORED full_status score = False"
| "is_final_candidate Sub_PROBLEM_SOLUTION full_status score = False"
| "is_final_candidate Sub_NORMAL full_status score =
     (if score = None then False else is_ok_for_final_candidate full_status)"

fun is_initial_final_candidate ::
  "submission_type \<Rightarrow> submission_status \<Rightarrow> submission_status \<Rightarrow> int option
    \<Rightarrow> score_revealing option \<Rightarrow> bool" where
  "is_initial_final_candidate Sub_IGNORED initial_status full_status score rv = False"
| "is_initial_final_candidate Sub_PROBLEM_SOLUTION initial_status full_status score rv = False"
| "is_initial_final_candidate Sub_NORMAL initial_status full_status score None =
     is_ok_for_final_candidate initial_status"
| "is_initial_final_candidate Sub_NORMAL initial_status full_status score (Some Reveal_NONE) =
     is_ok_for_final_candidate initial_status"
| "is_initial_final_candidate Sub_NORMAL initial_status full_status score (Some ONLY_SCORE) =
     (is_ok_for_final_candidate initial_status \<and> score \<noteq> None)"
| "is_initial_final_candidate Sub_NORMAL initial_status full_status score
     (Some SCORE_AND_FULL_STATUS) = (is_ok_for_final_candidate full_status \<and> score \<noteq> None)"

section \<open>update_final\<close>

text \<open>
  The contest problem's settings are read after the problem's final was updated; no such contest
  problem is a failed \<open>throw_assert\<close> (the caller's transaction is then rolled back).
\<close>

definition update_final :: "id option \<Rightarrow> id \<Rightarrow> id option \<Rightarrow> db \<Rightarrow> db res" where
  "update_final submission_user_id submission_problem_id submission_cp_id d =
     (case submission_user_id of
        None \<Rightarrow> Inr d
      | Some uid \<Rightarrow>
          (let d1 = d\<lparr>db_submissions :=
                  update_problem_final uid submission_problem_id (db_submissions d)\<rparr>
           in case submission_cp_id of
                None \<Rightarrow> Inr d1
              | Some cpid \<Rightarrow>
                  (case find (\<lambda>c. cp_id c = cpid) (db_contest_problems d1) of
                     None \<Rightarrow> Inl (Throw_assert ''stmt.next()'')
                   | Some cp \<Rightarrow>
                       Inr (d1\<lparr>db_submissions :=
                         update_contest_problem_initial_final uid cpid (cp_method cp)
                           (cp_score_revealing cp)
                           (update_contest_problem_final uid cpid (cp_method cp)
                              (db_submissions d1))\<rparr>))))"

section \<open>What a flag promises\<close>

text \<open>
  Abstract specification: in the group, the flag is on exactly the candidate that comes before all
  other candidates of the group in the order.
\<close>

definition marks_first ::
  "('r \<Rightarrow> bool) \<Rightarrow> ('r \<Rightarrow> id) \<Rightarrow> ('r \<Rightarrow> bool) \<Rightarrow> ('r \<Rightarrow> bool) \<Rightarrow> ('r \<Rightarrow> 'r \<Rightarrow> bool) \<Rightarrow> 'r list
    \<Rightarrow> bool" where
  "marks_first get_flag key grp cand lt rs \<longleftrightarrow>
     (\<forall>s \<in> set rs. grp s \<longrightarrow>
        (get_flag s \<longleftrightarrow>
           cand s \<and> (\<forall>q \<in> set rs. cand q \<and> grp q \<and> key q \<noteq> key s \<longrightarrow> lt s q)))"

text \<open>The promise does not read what another statement changes.\<close>

lemma marks_first_map:
  assumes "\<And>s. get_flag (f s) = get_flag s" and "\<And>s. key (f s) = key s"
    and "\<And>s. grp (f s) = grp s" and "\<And>s. cand (f s) = cand s"
    and "\<And>s q. lt (f s) (f q) = lt s q"
  shows "marks_first get_flag key grp cand lt (map f rs) = marks_first get_flag key grp cand lt rs"
  by (simp add: marks_first_def assms)

section \<open>The contract of a flag that marks the first candidate of a group\<close>

locale final_flag = row_order lt key
  for lt :: "'r \<Rightarrow> 'r \<Rightarrow> bool" and key :: "'r \<Rightarrow> id" +
  fixes get_flag :: "'r \<Rightarrow> bool"
    and set_flag :: "bool \<Rightarrow> 'r \<Rightarrow> 'r"
    and grp :: "'r \<Rightarrow> bool"
    and cand :: "'r \<Rightarrow> bool"
  assumes get_set: "get_flag (set_flag v r) = v"
    and set_get: "set_flag (get_flag r) r = r"
    and set_set: "set_flag v (set_flag w r) = set_flag v r"
    and grp_set: "grp (set_flag v r) = grp r"
    and cand_set: "cand (set_flag v r) = cand r"
    and key_set: "key (set_flag v r) = key r"
    and lt_set: "lt (set_flag v r) s = lt r s" "lt r (set_flag v s) = lt r s"
begin

text \<open>The chosen row, up to the flag: the first candidate of the group in the order.\<close>

definition chosen :: "'r list \<Rightarrow> 'r option" where
  "chosen rs = first_by lt (filter (\<lambda>r. cand r \<and> grp r) rs)"

lemma first_by_map_set:
  "first_by lt (map (\<lambda>r. if p r then set_flag v r else r) rs) =
     map_option (\<lambda>r. if p r then set_flag v r else r) (first_by lt rs)"
  by (induction rs) (auto simp: lt_set split: option.splits)

lemma filter_map_set:
  "filter (\<lambda>r. cand r \<and> grp r) (map (\<lambda>r. if p r then set_flag v r else r) rs) =
     map (\<lambda>r. if p r then set_flag v r else r) (filter (\<lambda>r. cand r \<and> grp r) rs)"
  by (induction rs) (auto simp: cand_set grp_set)

lemma reselect_map:
  "reselect get_flag set_flag key grp cand lt rs =
     map (\<lambda>r. case chosen rs of
                 None \<Rightarrow> (if grp r then set_flag False r else r)
               | Some b \<Rightarrow> (if key r = key b then set_flag True r
                           else if grp r then set_flag False r else r)) rs"
proof -
  have unset: "update_where (\<lambda>r. grp r \<and> get_flag r) (set_flag False) rs =
      map (\<lambda>r. if grp r then set_flag False r else r) rs"
    unfolding update_where_def by (rule map_cong) (use set_get in \<open>auto, metis\<close>)
  show ?thesis
    unfolding reselect_def unset Let_def chosen_def filter_map_set first_by_map_set
    by (auto simp: update_where_def set_set key_set o_def split: option.splits
        intro!: map_cong)
qed

lemma chosen_mem: "chosen rs = Some b \<Longrightarrow> b \<in> set rs \<and> cand b \<and> grp b"
  unfolding chosen_def by (drule first_by_mem) simp

lemma chosen_iff:
  assumes "distinct (map key rs)"
  shows "chosen rs = Some b \<longleftrightarrow>
    b \<in> set rs \<and> cand b \<and> grp b \<and> (\<forall>r \<in> set rs. cand r \<and> grp r \<and> r \<noteq> b \<longrightarrow> lt b r)"
  unfolding chosen_def using assms
  by (subst first_by_iff) (auto simp: distinct_map_filter)

lemma chosen_None: "chosen rs = None \<longleftrightarrow> (\<forall>r \<in> set rs. \<not> (cand r \<and> grp r))"
  by (auto simp: chosen_def filter_empty_conv)

text \<open>Only the flag changes, and only in the group.\<close>

lemma reselect_frame:
  assumes "\<And>v r. g (set_flag v r) = g r"
  shows "map g (reselect get_flag set_flag key grp cand lt rs) = map g rs"
  unfolding reselect_map by (auto simp: assms split: option.splits)

lemma reselect_keys: "map key (reselect get_flag set_flag key grp cand lt rs) = map key rs"
  by (rule reselect_frame) (rule key_set)

lemma reselect_outside:
  assumes "distinct (map key rs)" and "r \<in> set rs" and "\<not> grp r"
  shows "r \<in> set (reselect get_flag set_flag key grp cand lt rs)"
proof -
  have "key r \<noteq> key b" if "chosen rs = Some b" for b
    using chosen_mem [OF that] assms distinct_key_eq by metis
  then show ?thesis
    unfolding reselect_map using assms(2,3)
    by (auto split: option.splits intro!: image_eqI [of _ _ r])
qed

text \<open>In the group the flag marks exactly the chosen row.\<close>

lemma reselect_flag:
  assumes "distinct (map key rs)" and "r \<in> set rs" and "grp r"
  shows "\<exists>r' \<in> set (reselect get_flag set_flag key grp cand lt rs).
     r' = set_flag (chosen rs = Some r) r"
proof (cases "chosen rs")
  case None
  then show ?thesis using assms unfolding reselect_map by auto
next
  case (Some b)
  then have "key r = key b \<longleftrightarrow> r = b"
    using chosen_mem assms distinct_key_eq by metis
  then show ?thesis using assms(2,3) Some unfolding reselect_map
    by (auto intro!: image_eqI [of _ _ r])
qed

lemma reselect_set:
  assumes "distinct (map key rs)"
  shows "set (reselect get_flag set_flag key grp cand lt rs) =
     {r \<in> set rs. \<not> grp r} \<union> (\<lambda>r. set_flag (chosen rs = Some r) r) ` {r \<in> set rs. grp r}"
    (is "?L = ?R")
proof
  show "?R \<subseteq> ?L"
    using reselect_outside [OF assms] reselect_flag [OF assms] by fastforce
  show "?L \<subseteq> ?R"
  proof
    fix x assume "x \<in> ?L"
    then obtain r where r: "r \<in> set rs" and x: "x = (case chosen rs of
          None \<Rightarrow> (if grp r then set_flag False r else r)
        | Some b \<Rightarrow> (if key r = key b then set_flag True r
                    else if grp r then set_flag False r else r))"
      unfolding reselect_map by auto
    show "x \<in> ?R"
    proof (cases "grp r")
      case True
      have "x = set_flag (chosen rs = Some r) r"
      proof (cases "chosen rs")
        case None
        then show ?thesis using x True by simp
      next
        case (Some b)
        then have "key r = key b \<longleftrightarrow> r = b"
          using chosen_mem [OF Some] r assms distinct_key_eq by metis
        then show ?thesis using x True Some by auto
      qed
      then show ?thesis using r True by blast
    next
      case False
      have "x = r"
      proof (cases "chosen rs")
        case None
        then show ?thesis using x False by simp
      next
        case (Some b)
        then have "key r \<noteq> key b"
          using chosen_mem [OF Some] r assms distinct_key_eq False by metis
        then show ?thesis using x False Some by simp
      qed
      then show ?thesis using r False by blast
    qed
  qed
qed

lemma chosen_map:
  assumes f: "\<And>r. f r = r \<or> (\<exists>v. f r = set_flag v r)"
  shows "chosen (map f rs) = map_option f (chosen rs)"
proof -
  have keep: "cand (f r) = cand r" "grp (f r) = grp r" for r
    using f [of r] by (auto simp: cand_set grp_set)
  have lt: "lt (f a) (f b) = lt a b" for a b
    using f [of a] f [of b] by (auto simp: lt_set)
  have "first_by lt (map f xs) = map_option f (first_by lt xs)" for xs
    by (induction xs) (auto simp: lt split: option.splits)
  then show ?thesis by (simp add: chosen_def filter_map o_def keep)
qed

lemma chosen_reselect:
  "chosen (reselect get_flag set_flag key grp cand lt rs) =
     map_option (set_flag True) (chosen rs)"
proof (cases "chosen rs")
  case None
  then show ?thesis unfolding reselect_map by (subst chosen_map) auto
next
  case (Some b)
  then show ?thesis unfolding reselect_map by (subst chosen_map) auto
qed

lemma reselect_marks_first:
  assumes "distinct (map key rs)"
  shows "marks_first get_flag key grp cand lt (reselect get_flag set_flag key grp cand lt rs)"
    (is "marks_first _ _ _ _ _ ?rs'")
  unfolding marks_first_def
proof (intro ballI impI)
  fix s assume s: "s \<in> set ?rs'" and g: "grp s"
  have dist: "distinct (map key ?rs')" using assms by (simp add: reselect_keys)
  from s g obtain r where r: "r \<in> set rs" "s = set_flag (chosen rs = Some r) r"
    unfolding reselect_set [OF assms] by blast
  have "b = r" if "chosen rs = Some b" and "set_flag True b = s" for b
    using that r chosen_mem distinct_key_eq [OF assms] key_set by metis
  then have "get_flag s \<longleftrightarrow> chosen ?rs' = Some s"
    unfolding chosen_reselect using r(2) by (auto simp: get_set)
  also have "\<dots> \<longleftrightarrow> cand s \<and> (\<forall>q \<in> set ?rs'. cand q \<and> grp q \<and> q \<noteq> s \<longrightarrow> lt s q)"
    using s g chosen_iff [OF dist] by blast
  also have "\<dots> \<longleftrightarrow> cand s \<and> (\<forall>q \<in> set ?rs'. cand q \<and> grp q \<and> key q \<noteq> key s \<longrightarrow> lt s q)"
    using s distinct_key_eq [OF dist] by metis
  finally show "get_flag s \<longleftrightarrow>
      cand s \<and> (\<forall>q \<in> set ?rs'. cand q \<and> grp q \<and> key q \<noteq> key s \<longrightarrow> lt s q)" .
qed

text \<open>Where the promise holds already, the statements change nothing.\<close>

lemma reselect_fixpoint:
  assumes dist: "distinct (map key rs)" and marks: "marks_first get_flag key grp cand lt rs"
  shows "reselect get_flag set_flag key grp cand lt rs = rs"
  unfolding reselect_map
proof (rule map_idI)
  fix r assume r: "r \<in> set rs"
  have off: "set_flag False r = r" if "\<not> get_flag r" using set_get [of r] that by simp
  show "(case chosen rs of
          None \<Rightarrow> (if grp r then set_flag False r else r)
        | Some b \<Rightarrow> (if key r = key b then set_flag True r
                    else if grp r then set_flag False r else r)) = r"
  proof (cases "chosen rs")
    case None
    then have "grp r \<Longrightarrow> \<not> get_flag r"
      using marks r unfolding marks_first_def chosen_None by blast
    then show ?thesis using None off by auto
  next
    case (Some b)
    then have b: "b \<in> set rs" "cand b" "grp b"
      and least: "\<And>q. q \<in> set rs \<Longrightarrow> cand q \<Longrightarrow> grp q \<Longrightarrow> q \<noteq> b \<Longrightarrow> lt b q"
      using chosen_iff [OF dist] by blast+
    show ?thesis
    proof (cases "key r = key b")
      case True
      then have rb: "r = b" using distinct_key_eq [OF dist r b(1)] by blast
      have "get_flag b" using marks b least unfolding marks_first_def by blast
      then show ?thesis using Some rb set_get [of b] by simp
    next
      case False
      then have "grp r \<Longrightarrow> \<not> get_flag r"
        using marks r b least [OF r] lt_asym [of b r] unfolding marks_first_def by metis
      then show ?thesis using Some False off by auto
    qed
  qed
qed

end

section \<open>The orders and the flags of the code\<close>

interpretation id_desc: row_order by_id_desc sub_id
  by unfold_locales (auto simp: by_id_desc_def)

interpretation full_status: row_order by_score_full_status sub_id
proof
  fix a b c :: submission
  show "\<not> by_score_full_status a a" by (simp add: by_score_full_status_def)
  show "by_score_full_status a b \<Longrightarrow> by_score_full_status b c \<Longrightarrow> by_score_full_status a c"
    unfolding by_score_full_status_def by (auto dest: null_less_trans)
  show "sub_id a \<noteq> sub_id b \<Longrightarrow> by_score_full_status a b \<or> by_score_full_status b a"
    unfolding by_score_full_status_def
    using null_less_total [of "sub_score a" "sub_score b"] by auto
qed

interpretation initial_status: row_order by_initial_status sub_id
  by unfold_locales (auto simp: by_initial_status_def)

interpretation score_initial: row_order by_score_initial_status sub_id
proof
  fix a b c :: submission
  show "\<not> by_score_initial_status a a"
    by (simp add: by_score_initial_status_def initial_status.lt_irrefl)
  show "by_score_initial_status a b \<Longrightarrow> by_score_initial_status b c
    \<Longrightarrow> by_score_initial_status a c"
    unfolding by_score_initial_status_def
    by (auto dest: null_less_trans initial_status.lt_trans)
  show "sub_id a \<noteq> sub_id b \<Longrightarrow> by_score_initial_status a b \<or> by_score_initial_status b a"
    unfolding by_score_initial_status_def
    by (cases "sub_score a = sub_score b")
      (auto dest: null_less_total initial_status.lt_total [of a b])
qed

lemma cp_final_order_row_order: "row_order (cp_final_order meth) sub_id"
  by (cases meth) (simp_all add: id_desc.row_order_axioms full_status.row_order_axioms)

lemma cp_initial_final_order_row_order: "row_order (cp_initial_final_order meth rv) sub_id"
  by (cases "(meth, rv)" rule: cp_initial_final_order.cases)
    (simp_all add: id_desc.row_order_axioms full_status.row_order_axioms
      initial_status.row_order_axioms score_initial.row_order_axioms)

interpretation problem_flag: final_flag by_score_full_status sub_id sub_problem_final
  "\<lambda>v s. s\<lparr>sub_problem_final := v\<rparr>"
  "\<lambda>s. sub_user_id s = Some uid \<and> sub_problem_id s = pid" sub_final_candidate
  for uid pid
  by unfold_locales (simp_all add: by_score_full_status_def)

interpretation cp_flag: final_flag "cp_final_order meth" sub_id sub_cp_final
  "\<lambda>v s. s\<lparr>sub_cp_final := v\<rparr>"
  "\<lambda>s. sub_user_id s = Some uid \<and> sub_cp_id s = Some cpid" sub_final_candidate
  for meth uid cpid
  by (intro final_flag.intro cp_final_order_row_order, unfold_locales; cases meth)
    (simp_all add: order_defs)

interpretation cp_initial_flag: final_flag "cp_initial_final_order meth rv" sub_id
  sub_cp_initial_final "\<lambda>v s. s\<lparr>sub_cp_initial_final := v\<rparr>"
  "\<lambda>s. sub_user_id s = Some uid \<and> sub_cp_id s = Some cpid" sub_initial_final_candidate
  for meth rv uid cpid
  by (intro final_flag.intro cp_initial_final_order_row_order, unfold_locales; cases meth; cases rv)
    (simp_all add: order_defs)

lemma problem_final_frame:
  "(\<And>v s. f (s\<lparr>sub_problem_final := v\<rparr>) = f s)
   \<Longrightarrow> map f (update_problem_final uid pid rs) = map f rs"
  unfolding update_problem_final_def by (rule problem_flag.reselect_frame)

lemma cp_final_frame:
  "(\<And>v s. f (s\<lparr>sub_cp_final := v\<rparr>) = f s)
   \<Longrightarrow> map f (update_contest_problem_final uid cpid meth rs) = map f rs"
  unfolding update_contest_problem_final_def by (rule cp_flag.reselect_frame)

lemma cp_initial_final_frame:
  "(\<And>v s. f (s\<lparr>sub_cp_initial_final := v\<rparr>) = f s)
   \<Longrightarrow> map f (update_contest_problem_initial_final uid cpid meth rv rs) = map f rs"
  unfolding update_contest_problem_initial_final_def by (rule cp_initial_flag.reselect_frame)

lemmas update_final_frames = problem_final_frame cp_final_frame cp_initial_final_frame

text \<open>The promises for the three flags; each survives the statements on the other flags.\<close>

abbreviation marks_problem_final :: "id \<Rightarrow> id \<Rightarrow> submission list \<Rightarrow> bool" where
  "marks_problem_final uid pid \<equiv>
     marks_first sub_problem_final sub_id
       (\<lambda>s. sub_user_id s = Some uid \<and> sub_problem_id s = pid)
       sub_final_candidate by_score_full_status"

abbreviation marks_cp_final :: "id \<Rightarrow> id \<Rightarrow> final_method \<Rightarrow> submission list \<Rightarrow> bool" where
  "marks_cp_final uid cpid meth \<equiv>
     marks_first sub_cp_final sub_id
       (\<lambda>s. sub_user_id s = Some uid \<and> sub_cp_id s = Some cpid)
       sub_final_candidate (cp_final_order meth)"

abbreviation marks_cp_initial_final ::
  "id \<Rightarrow> id \<Rightarrow> final_method \<Rightarrow> score_revealing \<Rightarrow> submission list \<Rightarrow> bool" where
  "marks_cp_initial_final uid cpid meth rv \<equiv>
     marks_first sub_cp_initial_final sub_id
       (\<lambda>s. sub_user_id s = Some uid \<and> sub_cp_id s = Some cpid)
       sub_initial_final_candidate (cp_initial_final_order meth rv)"

lemma cp_final_order_update [simp]:
  "cp_final_order meth (s\<lparr>sub_cp_initial_final := v\<rparr>) q = cp_final_order meth s q"
  "cp_final_order meth s (q\<lparr>sub_cp_initial_final := v\<rparr>) = cp_final_order meth s q"
  by (cases meth; simp add: order_defs)+

lemma marks_survive:
  "marks_problem_final uid pid (update_contest_problem_final uid' cpid meth rs) =
     marks_problem_final uid pid rs"
  "marks_problem_final uid pid (update_contest_problem_initial_final uid' cpid meth rv rs) =
     marks_problem_final uid pid rs"
  "marks_cp_final uid cpid' meth' (update_contest_problem_initial_final uid' cpid meth rv rs) =
     marks_cp_final uid cpid' meth' rs"
  unfolding update_contest_problem_final_def update_contest_problem_initial_final_def
    cp_flag.reselect_map cp_initial_flag.reselect_map
  by (rule marks_first_map;
      simp add: by_score_full_status_def split: option.split)+

lemma update_final_fixpoint:
  assumes "distinct (map sub_id rs)"
  shows "marks_problem_final uid pid rs \<Longrightarrow> update_problem_final uid pid rs = rs"
    and "marks_cp_final uid cpid meth rs \<Longrightarrow> update_contest_problem_final uid cpid meth rs = rs"
    and "marks_cp_initial_final uid cpid meth rv rs \<Longrightarrow>
      update_contest_problem_initial_final uid cpid meth rv rs = rs"
  unfolding update_problem_final_def update_contest_problem_final_def
    update_contest_problem_initial_final_def
  by (rule problem_flag.reselect_fixpoint cp_flag.reselect_fixpoint
      cp_initial_flag.reselect_fixpoint; (rule assms | assumption))+

lemma marks_established:
  assumes "distinct (map sub_id rs)"
  shows "marks_problem_final uid pid (update_problem_final uid pid rs)"
    and "marks_cp_final uid cpid meth (update_contest_problem_final uid cpid meth rs)"
    and "marks_cp_initial_final uid cpid meth rv
      (update_contest_problem_initial_final uid cpid meth rv rs)"
  unfolding update_problem_final_def update_contest_problem_final_def
    update_contest_problem_initial_final_def
  by (rule problem_flag.reselect_marks_first cp_flag.reselect_marks_first
      cp_initial_flag.reselect_marks_first; rule assms)+

lemma update_final_Some_Some:
  "update_final (Some uid) pid (Some cpid) d = Inr d' \<longleftrightarrow>
     (\<exists>cp. find (\<lambda>c. cp_id c = cpid) (db_contest_problems d) = Some cp \<and>
        d' = d\<lparr>db_submissions :=
          update_contest_problem_initial_final uid cpid (cp_method cp) (cp_score_revealing cp)
            (update_contest_problem_final uid cpid (cp_method cp)
              (update_problem_final uid pid (db_submissions d)))\<rparr>)"
  unfolding update_final_def Let_def by (auto split: option.splits)

lemma update_final_marks:
  assumes dist: "distinct (map sub_id (db_submissions d))"
    and run: "update_final (Some uid) pid cpid d = Inr d'"
  shows "marks_problem_final uid pid (db_submissions d')"
    and "cpid = Some c \<Longrightarrow>
      \<exists>cp. find (\<lambda>x. cp_id x = c) (db_contest_problems d) = Some cp \<and>
        marks_cp_final uid c (cp_method cp) (db_submissions d') \<and>
        marks_cp_initial_final uid c (cp_method cp) (cp_score_revealing cp) (db_submissions d')"
proof -
  have dist1: "distinct (map sub_id (update_problem_final uid pid (db_submissions d)))"
    using dist by (simp add: update_final_frames)
  have dist2: "distinct (map sub_id (update_contest_problem_final uid c m
      (update_problem_final uid pid (db_submissions d))))" for c m
    using dist1 by (simp add: update_final_frames)
  show "marks_problem_final uid pid (db_submissions d')"
  proof (cases cpid)
    case None
    then have "d' = d\<lparr>db_submissions := update_problem_final uid pid (db_submissions d)\<rparr>"
      using run by (simp add: update_final_def Let_def)
    then show ?thesis by (simp add: marks_established [OF dist])
  next
    case (Some c)
    then show ?thesis
      using run by (auto simp: update_final_Some_Some marks_survive marks_established [OF dist])
  qed
  show "\<exists>cp. find (\<lambda>x. cp_id x = c) (db_contest_problems d) = Some cp \<and>
        marks_cp_final uid c (cp_method cp) (db_submissions d') \<and>
        marks_cp_initial_final uid c (cp_method cp) (cp_score_revealing cp) (db_submissions d')"
    if "cpid = Some c"
    using run that
    by (auto simp: update_final_Some_Some marks_survive marks_established [OF dist1]
        marks_established [OF dist2])
qed

section \<open>Properties\<close>

text \<open>
  C2. After \<open>update_final\<close> for a user, a problem and a contest problem, the three flags mark what
  the code's queries promise: the problem final is the user's candidate with the highest score,
  then the best full status, then the newest; the contest problem final follows the contest
  problem's method of choosing, and the initial final the method and the score revealing. The last
  two statements do not disturb what the first established.
\<close>

theorem update_final_selects:
  assumes "distinct (map sub_id (db_submissions d))"
    and "update_final (Some uid) pid (Some cpid) d = Inr d'"
    and "find (\<lambda>c. cp_id c = cpid) (db_contest_problems d) = Some cp"
  shows "marks_first sub_problem_final sub_id
       (\<lambda>s. sub_user_id s = Some uid \<and> sub_problem_id s = pid)
       sub_final_candidate by_score_full_status (db_submissions d')
    \<and> marks_first sub_cp_final sub_id
       (\<lambda>s. sub_user_id s = Some uid \<and> sub_cp_id s = Some cpid)
       sub_final_candidate (cp_final_order (cp_method cp)) (db_submissions d')
    \<and> marks_first sub_cp_initial_final sub_id
       (\<lambda>s. sub_user_id s = Some uid \<and> sub_cp_id s = Some cpid)
       sub_initial_final_candidate
       (cp_initial_final_order (cp_method cp) (cp_score_revealing cp)) (db_submissions d')"
  using update_final_marks [OF assms(1,2)] assms(3) by fastforce

text \<open>A concrete database for the witnesses: two judged submissions of one user.\<close>

definition sample_submission :: submission where
  "sample_submission =
     \<lparr> sub_id = 1, sub_created_at = ''2024-01-01 00:00:00'', sub_file_id = 10,
       sub_user_id = Some 7, sub_problem_id = 3, sub_cp_id = Some 5, sub_round_id = Some 6,
       sub_contest_id = Some 4, sub_type = Sub_NORMAL, sub_language = CPP20,
       sub_initial_final_candidate = True, sub_final_candidate = True,
       sub_problem_final = False, sub_cp_final = False, sub_cp_initial_final = False,
       sub_initial_status = Sub_OK, sub_full_status = Sub_WA, sub_score = Some 40,
       sub_last_judgment_began_at = None, sub_initial_report = [], sub_final_report = [] \<rparr>"

definition sample_contest_problem :: contest_problem where
  "sample_contest_problem =
     \<lparr> cp_id = 5, cp_created_at = ''2024-01-01 00:00:00'', cp_round_id = 6, cp_contest_id = 4,
       cp_problem_id = 3, cp_name = ''sum'', cp_item = 0, cp_method = LATEST_COMPILING,
       cp_score_revealing = Reveal_NONE \<rparr>"

definition sample_finals_db :: db where
  "sample_finals_db = empty_db
     \<lparr> db_submissions := [sample_submission\<lparr>sub_problem_final := True\<rparr>,
         sample_submission\<lparr>sub_id := 2, sub_score := Some 10\<rparr>],
       db_contest_problems := [sample_contest_problem] \<rparr>"

lemmas sample_finals_defs = sample_finals_db_def sample_submission_def
  sample_contest_problem_def empty_db_def

text \<open>The older submission has the higher score, the newer one is the latest compiling.\<close>

definition sample_finals_db' :: db where
  "sample_finals_db' = empty_db
     \<lparr> db_submissions := [sample_submission\<lparr>sub_problem_final := True\<rparr>,
         sample_submission\<lparr>sub_id := 2, sub_score := Some 10, sub_cp_final := True,
           sub_cp_initial_final := True\<rparr>],
       db_contest_problems := [sample_contest_problem] \<rparr>"

lemma sample_finals_run:
  "update_final (Some 7) 3 (Some 5) sample_finals_db = Inr sample_finals_db'"
  by (simp add: update_final_def sample_finals_db'_def sample_finals_defs update_problem_final_def
      update_contest_problem_final_def update_contest_problem_initial_final_def reselect_def
      order_defs Let_def)

lemma sample_finals_dist: "distinct (map sub_id (db_submissions sample_finals_db))"
  by (simp add: sample_finals_defs)

lemma update_final_selects_witness:
  "marks_first sub_cp_final sub_id
     (\<lambda>s. sub_user_id s = Some 7 \<and> sub_cp_id s = Some 5)
     sub_final_candidate by_id_desc (db_submissions sample_finals_db')"
  using update_final_selects
    [OF sample_finals_dist sample_finals_run, of sample_contest_problem]
  by (simp add: sample_finals_defs)

text \<open>
  \<open>update_final\<close> is idempotent: on a database it produced, with unique submission ids, running
  it again for the same submission changes nothing. So the RESELECT job, a retry of the
  transaction and an update that follows another are harmless.
\<close>

theorem update_final_idempotent:
  assumes "distinct (map sub_id (db_submissions d))"
    and "update_final uid pid cpid d = Inr d'"
  shows "update_final uid pid cpid d' = Inr d'"
proof (cases uid)
  case None
  then show ?thesis by (simp add: update_final_def)
next
  case uid: (Some u)
  note marks = update_final_marks [OF assms(1) assms(2) [unfolded uid]]
  have dist: "distinct (map sub_id (db_submissions d'))"
    using assms uid by (auto simp: update_final_def Let_def update_final_frames
        split: option.splits)
  have pf: "update_problem_final u pid (db_submissions d') = db_submissions d'"
    by (rule update_final_fixpoint(1) [OF dist marks(1)])
  show ?thesis
  proof (cases cpid)
    case None
    then show ?thesis using uid pf by (simp add: update_final_def)
  next
    case (Some c)
    from marks(2) [OF Some] obtain cp where
      cp: "find (\<lambda>x. cp_id x = c) (db_contest_problems d) = Some cp" and
      m: "marks_cp_final u c (cp_method cp) (db_submissions d')"
      "marks_cp_initial_final u c (cp_method cp) (cp_score_revealing cp) (db_submissions d')"
      by blast
    have "db_contest_problems d' = db_contest_problems d"
      using assms(2) uid Some by (auto simp: update_final_Some_Some)
    then show ?thesis
      using uid Some cp pf update_final_fixpoint(2) [OF dist m(1)]
        update_final_fixpoint(3) [OF dist m(2)]
      by (simp add: update_final_Some_Some)
  qed
qed

lemma update_final_idempotent_witness:
  "update_final (Some 7) 3 (Some 5) sample_finals_db' = Inr sample_finals_db'"
  by (rule update_final_idempotent [OF sample_finals_dist sample_finals_run])

definition clear_finals :: "submission \<Rightarrow> submission" where
  "clear_finals s =
     s\<lparr>sub_problem_final := False, sub_cp_final := False, sub_cp_initial_final := False\<rparr>"

lemma clear_finals_update [simp]:
  "clear_finals (s\<lparr>sub_problem_final := v\<rparr>) = clear_finals s"
  "clear_finals (s\<lparr>sub_cp_final := v\<rparr>) = clear_finals s"
  "clear_finals (s\<lparr>sub_cp_initial_final := v\<rparr>) = clear_finals s"
  by (simp_all add: clear_finals_def)

lemma finals_outside:
  assumes "distinct (map sub_id rs)" and "r \<in> set rs" and "sub_user_id r \<noteq> Some uid"
  shows "r \<in> set (update_problem_final uid pid rs)"
    and "r \<in> set (update_contest_problem_final uid cpid meth rs)"
    and "r \<in> set (update_contest_problem_initial_final uid cpid meth rv rs)"
  unfolding update_problem_final_def update_contest_problem_final_def
    update_contest_problem_initial_final_def
  using problem_flag.reselect_outside [OF assms(1,2)] cp_flag.reselect_outside [OF assms(1,2)]
    cp_initial_flag.reselect_outside [OF assms(1,2)] assms(3)
  by blast+

text \<open>
  What \<open>update_final\<close> may change: nothing outside the submissions table; in it, no column but
  the three final flags and no row of another user (or of no user).
\<close>

lemma update_final_frame:
  assumes "update_final uid pid cpid d = Inr d'" and "distinct (map sub_id (db_submissions d))"
  shows "d' = d\<lparr>db_submissions := db_submissions d'\<rparr>
    \<and> map clear_finals (db_submissions d') = map clear_finals (db_submissions d)
    \<and> (\<forall>s \<in> set (db_submissions d). uid = None \<or> sub_user_id s \<noteq> uid
         \<longrightarrow> s \<in> set (db_submissions d'))"
proof (cases uid)
  case None
  then show ?thesis using assms by (simp add: update_final_def)
next
  case uid: (Some u)
  show ?thesis
  proof (cases cpid)
    case None
    then show ?thesis
      using assms uid by (auto simp: update_final_def Let_def update_final_frames finals_outside)
  next
    case (Some c)
    then show ?thesis
      using assms uid
      by (auto simp: update_final_Some_Some update_final_frames
          intro!: finals_outside)
  qed
qed

end
