(* ===== verification/Job_Handlers.thy ===== *)
theory Job_Handlers
  imports Submission_Finals Job_Scheduler
begin

text \<open>
  The job handlers of src/subprojects/sim/src/job_server/job_handlers/ that work on the database
  alone, the dispatch \<open>process_task\<close> of main.cc, and \<open>repeat_if_deadlocked\<close>. A handler runs in one
  transaction: it takes the log so far and the database and gives the new log and either the
  committed database or the exception with which the transaction was rolled back.
\<close>

section \<open>Logs\<close>

function nat_to_str :: "nat \<Rightarrow> string" where
  "nat_to_str n =
     (if n < 10 then [char_of (48 + n)] else nat_to_str (n div 10) @ [char_of (48 + n mod 10)])"
  by auto
termination by (relation "measure (\<lambda>n. n)") auto

declare nat_to_str.simps [simp del]

definition id_to_str :: "id \<Rightarrow> string" where
  "id_to_str i = nat_to_str (unat i)"

text \<open>\<open>Logger::operator()\<close>\<close>

definition log_line :: "string \<Rightarrow> string \<Rightarrow> string" where
  "log_line log line = log @ line @ [CHR 0x0A]"

section \<open>common.cc\<close>

definition set_job_status_and_log :: "job_status \<Rightarrow> string \<Rightarrow> id \<Rightarrow> db \<Rightarrow> db" where
  "set_job_status_and_log st log jid d =
     d\<lparr>db_jobs := update_where (\<lambda>j. job_id j = jid)
       (\<lambda>j. j\<lparr>job_status := st, job_log := log\<rparr>) (db_jobs d)\<rparr>"

definition mark_job_as_done :: "string \<Rightarrow> id \<Rightarrow> db \<Rightarrow> db" where
  "mark_job_as_done log jid = set_job_status_and_log Job_DONE log jid"

definition mark_job_as_cancelled :: "string \<Rightarrow> id \<Rightarrow> db \<Rightarrow> db" where
  "mark_job_as_cancelled log jid = set_job_status_and_log Job_CANCELLED log jid"

definition mark_job_as_failed :: "string \<Rightarrow> id \<Rightarrow> db \<Rightarrow> db" where
  "mark_job_as_failed log jid = set_job_status_and_log Job_FAILED log jid"

definition update_job_log :: "string \<Rightarrow> id \<Rightarrow> db \<Rightarrow> db" where
  "update_job_log log jid d =
     d\<lparr>db_jobs := update_where (\<lambda>j. job_id j = jid) (\<lambda>j. j\<lparr>job_log := log\<rparr>) (db_jobs d)\<rparr>"

lemmas mark_job_defs = mark_job_as_done_def mark_job_as_cancelled_def mark_job_as_failed_def

type_synonym handler = "string \<Rightarrow> db \<Rightarrow> string \<times> db res"

definition cancelled :: "id \<Rightarrow> string \<Rightarrow> db \<Rightarrow> string \<times> db res" where
  "cancelled jid log d = (log, Inr (mark_job_as_cancelled log jid d))"

definition failed :: "id \<Rightarrow> string \<Rightarrow> db \<Rightarrow> string \<times> db res" where
  "failed jid log d = (log, Inr (mark_job_as_failed log jid d))"

definition finished :: "id \<Rightarrow> string \<Rightarrow> db \<Rightarrow> string \<times> db res" where
  "finished jid log d = (log, Inr (mark_job_as_done log jid d))"

section \<open>Deletions\<close>

text \<open>The files of the submissions that a WHERE selects, in table order.\<close>

definition submission_files :: "(submission \<Rightarrow> bool) \<Rightarrow> db \<Rightarrow> id list" where
  "submission_files p d = map sub_file_id (filter p (db_submissions d))"

definition delete_user :: "datetime \<Rightarrow> id \<Rightarrow> id \<Rightarrow> handler" where
  "delete_user now jid uid log d =
     (case find_user d uid of
        None \<Rightarrow> cancelled jid
          (log_line log (''The user with id: '' @ id_to_str uid @ '' does not exist'')) d
      | Some u \<Rightarrow>
          finished jid (log_line (log_line log (''username: '' @ username u))
              (''type: '' @ user_type_to_str (user_type u)))
            (delete_users_where (\<lambda>x. user_id x = uid)
              (insert_jobs_for now DELETE_INTERNAL_FILE
                (submission_files (\<lambda>s. sub_user_id s = Some uid) d) d)))"

definition delete_contest :: "datetime \<Rightarrow> id \<Rightarrow> id \<Rightarrow> handler" where
  "delete_contest now jid cid log d =
     (case find (\<lambda>c. contest_id c = cid) (db_contests d) of
        None \<Rightarrow> cancelled jid
          (log_line log (''The contest with id: '' @ id_to_str cid @ '' does not exist'')) d
      | Some c \<Rightarrow>
          finished jid
            (log_line log (''Contest: '' @ contest_name c @ '' (id: '' @ id_to_str cid @ '')''))
            (delete_contests_where (\<lambda>x. contest_id x = cid)
              (insert_jobs_for now DELETE_INTERNAL_FILE
                (map cf_file_id (filter (\<lambda>f. cf_contest_id f = cid) (db_contest_files d)))
                (insert_jobs_for now DELETE_INTERNAL_FILE
                  (submission_files (\<lambda>s. sub_contest_id s = Some cid) d) d))))"

text \<open>The SELECTs with inner joins: the row and the rows it refers to, when all are there.\<close>

definition select_round :: "id \<Rightarrow> db \<Rightarrow> (contest_round \<times> contest) option" where
  "select_round rid d =
     (case find (\<lambda>r. round_id r = rid) (db_contest_rounds d) of
        None \<Rightarrow> None
      | Some r \<Rightarrow>
          (case find (\<lambda>c. contest_id c = round_contest_id r) (db_contests d) of
             None \<Rightarrow> None
           | Some c \<Rightarrow> Some (r, c)))"

definition select_contest_problem ::
  "id \<Rightarrow> db \<Rightarrow> (contest_problem \<times> contest_round \<times> contest) option" where
  "select_contest_problem cpid d =
     (case find (\<lambda>p. cp_id p = cpid) (db_contest_problems d) of
        None \<Rightarrow> None
      | Some p \<Rightarrow>
          (case find (\<lambda>r. round_id r = cp_round_id p) (db_contest_rounds d) of
             None \<Rightarrow> None
           | Some r \<Rightarrow>
               (case find (\<lambda>c. contest_id c = cp_contest_id p) (db_contests d) of
                  None \<Rightarrow> None
                | Some c \<Rightarrow> Some (p, r, c))))"

definition delete_contest_round :: "datetime \<Rightarrow> id \<Rightarrow> id \<Rightarrow> handler" where
  "delete_contest_round now jid rid log d =
     (case select_round rid d of
        None \<Rightarrow> cancelled jid
          (log_line log (''The contest round with id: '' @ id_to_str rid @ '' does not exist'')) d
      | Some (r, c) \<Rightarrow>
          finished jid
            (log_line (log_line log
              (''Contest: '' @ contest_name c @ '' (id: '' @ id_to_str (contest_id c) @ '')''))
              (''Contest round: '' @ round_name r @ '' (id: '' @ id_to_str rid @ '')''))
            (delete_contest_rounds_where (\<lambda>x. round_id x = rid)
              (insert_jobs_for now DELETE_INTERNAL_FILE
                (submission_files (\<lambda>s. sub_round_id s = Some rid) d) d)))"

definition delete_contest_problem :: "datetime \<Rightarrow> id \<Rightarrow> id \<Rightarrow> handler" where
  "delete_contest_problem now jid cpid log d =
     (case select_contest_problem cpid d of
        None \<Rightarrow> cancelled jid
          (log_line log (''The contest problem with id: '' @ id_to_str cpid @ '' does not exist'')) d
      | Some (p, r, c) \<Rightarrow>
          finished jid
            (log_line (log_line (log_line log
              (''Contest: '' @ contest_name c @ '' (id: '' @ id_to_str (contest_id c) @ '')''))
              (''Contest round: '' @ round_name r @ '' (id: '' @ id_to_str (round_id r) @ '')''))
              (''Contest problem: '' @ cp_name p @ '' (id: '' @ id_to_str cpid @ '')''))
            (delete_contest_problems_where (\<lambda>x. cp_id x = cpid)
              (insert_jobs_for now DELETE_INTERNAL_FILE
                (submission_files (\<lambda>s. sub_cp_id s = Some cpid) d) d)))"

definition delete_problem :: "datetime \<Rightarrow> id \<Rightarrow> id \<Rightarrow> handler" where
  "delete_problem now jid pid log d =
     (if \<exists>c \<in> set (db_contest_problems d). cp_problem_id c = pid
      then cancelled jid (log_line log (''There exists a contest problem that uses (attaches) this '' @
        ''problem. You have to delete all of them to be able to delete this problem.'')) d
      else
        (case find_problem d pid of
           None \<Rightarrow> cancelled jid (log_line log ''The problem does not exist'') d
         | Some p \<Rightarrow>
             finished jid (log_line log (''Deleted problem'' @ [CHR 0x27] @ ''s Simfile:'' @ [CHR 0x0A] @
                 problem_simfile p))
               (delete_problems_where (\<lambda>x. problem_id x = pid)
                 (insert_jobs_for now DELETE_INTERNAL_FILE
                   (submission_files (\<lambda>s. sub_problem_id s = pid) d)
                   (insert_jobs_for now DELETE_INTERNAL_FILE
                     (map problem_file_id (filter (\<lambda>x. problem_id x = pid) (db_problems d))) d)))))"

text \<open>
  \<open>delete_internal_file\<close>: the foreign keys of problems, contest files and submissions restrict the
  DELETE. The file is unlinked before that.
\<close>

definition file_referenced :: "id \<Rightarrow> db \<Rightarrow> bool" where
  "file_referenced fid d \<longleftrightarrow>
     (\<exists>p \<in> set (db_problems d). problem_file_id p = fid) \<or>
     (\<exists>f \<in> set (db_contest_files d). cf_file_id f = fid) \<or>
     (\<exists>s \<in> set (db_submissions d). sub_file_id s = fid)"

definition unlink :: "id \<Rightarrow> id list \<Rightarrow> id list" where
  "unlink fid disk = filter (\<lambda>f. f \<noteq> fid) disk"

definition delete_internal_file ::
  "id \<Rightarrow> id \<Rightarrow> string \<Rightarrow> id list \<times> db \<Rightarrow> string \<times> id list \<times> db res" where
  "delete_internal_file jid fid log ds =
     (let log1 = log_line log (''Internal file id: '' @ id_to_str fid);
          disk1 = unlink fid (fst ds);
          d = snd ds
      in if file_referenced fid d \<and> fid \<in> file_id ` set (db_internal_files d)
         then (log1, disk1, Inl (Throw ''Cannot delete or update a parent row''))
         else (log1, disk1, Inr (mark_job_as_done log1 jid
           (d\<lparr>db_internal_files := delete_where (\<lambda>f. file_id f = fid) (db_internal_files d)\<rparr>))))"

section \<open>Reselecting final submissions\<close>

fun update_finals :: "(id option \<times> id \<times> id option) list \<Rightarrow> db \<Rightarrow> db res" where
  "update_finals [] d = Inr d"
| "update_finals ((u, p, c) # ftus) d = bind_res (update_final u p c d) (update_finals ftus)"

definition reselect_final_submissions_in_contest_problem :: "id \<Rightarrow> id \<Rightarrow> handler" where
  "reselect_final_submissions_in_contest_problem jid cpid log d =
     (case update_finals
        (map (\<lambda>(u, p). (u, p, Some cpid))
          (remdups (map (\<lambda>s. (sub_user_id s, sub_problem_id s))
            (filter (\<lambda>s. sub_cp_id s = Some cpid) (db_submissions d))))) d of
        Inl e \<Rightarrow> (log, Inl e)
      | Inr d1 \<Rightarrow> finished jid log d1)"

section \<open>Appending jobs\<close>

text \<open>The AUTO_INCREMENT counter is above every id, with room for \<open>k\<close> more jobs.\<close>

definition job_ids_ok :: "nat \<Rightarrow> db \<Rightarrow> bool" where
  "job_ids_ok k d \<longleftrightarrow> distinct (map job_id (db_jobs d)) \<and>
     (\<forall>j \<in> set (db_jobs d). job_id j < db_next_job_id d) \<and>
     unat (db_next_job_id d) + k < 2 ^ 64"

lemma job_ids_ok_mono: "job_ids_ok k d \<Longrightarrow> l \<le> k \<Longrightarrow> job_ids_ok l d"
  by (auto simp: job_ids_ok_def)

lemma job_ids_ok_frame:
  "db_jobs d' = db_jobs d \<Longrightarrow> db_next_job_id d' = db_next_job_id d \<Longrightarrow>
   job_ids_ok k d' = job_ids_ok k d"
  by (simp add: job_ids_ok_def)

lemma next_id_less:
  assumes "unat (w :: id) + Suc k < 2 ^ 64"
  shows "w < w + 1" and "unat (w + 1) = Suc (unat w)"
proof -
  have "unat w + 1 < 2 ^ 64" using assms by simp
  then show *: "unat (w + 1) = Suc (unat w)"
    by (simp add: unat_word_ariths)
  show "w < w + 1" unfolding word_less_nat_alt * by simp
qed

lemma job_ids_ok_insert_job:
  assumes "job_ids_ok (Suc k) d"
  shows "job_ids_ok k (insert_job now cr t a b d)"
    and "job_id j = db_next_job_id d \<Longrightarrow> j \<notin> set (db_jobs d)"
proof -
  have room: "unat (db_next_job_id d) + Suc k < 2 ^ 64" using assms by (simp add: job_ids_ok_def)
  note next_less = next_id_less [OF room]
  have "job_id j < db_next_job_id d + 1" if "j \<in> set (db_jobs d)" for j
    using assms that next_less(1) unfolding job_ids_ok_def by (meson less_trans)
  then show "job_ids_ok k (insert_job now cr t a b d)"
    using assms room next_less unfolding job_ids_ok_def
    by (auto simp: insert_job_def new_job_def)
  show "job_id j = db_next_job_id d \<Longrightarrow> j \<notin> set (db_jobs d)"
    using assms by (auto simp: job_ids_ok_def)
qed

lemma job_ids_ok_insert_jobs_for:
  "job_ids_ok (length xs + k) d \<Longrightarrow> job_ids_ok k (insert_jobs_for now t xs d)"
  by (induction now t xs d rule: insert_jobs_for.induct) (simp_all add: job_ids_ok_insert_job)

text \<open>A commit of the scheduler model: rows keep what the scheduler reads, new ones are pending.\<close>

lemma same_job_refl [simp]: "same_job j j"
  by (simp add: same_job_def)

lemma same_job_trans: "same_job a b \<Longrightarrow> same_job b c \<Longrightarrow> same_job a c"
  by (auto simp: same_job_def)

lemma same_jobs_trans:
  assumes "list_all2 same_job as bs" and "list_all2 same_job bs cs"
  shows "list_all2 same_job as cs"
  by (rule list_all2_trans [OF _ assms]) (rule same_job_trans)

lemma same_job_status: "same_job j j' \<Longrightarrow> job_status j' = job_status j"
  by (simp add: same_job_def)

lemma handler_commit_append:
  assumes "distinct (map job_id (js @ new))"
    and "\<forall>j \<in> set new. job_status j = Job_PENDING \<and> job_ok j"
  shows "handler_commit js (js @ new)"
  unfolding handler_commit_def
  by (rule exI [of _ js], rule exI [of _ new]) (use assms in \<open>simp add: list_all2_same\<close>)

lemma handler_commit_trans:
  assumes "handler_commit a b" and "handler_commit b c"
  shows "handler_commit a c"
proof -
  obtain old new where b: "b = old @ new" "list_all2 same_job a old"
    "\<forall>j \<in> set new. job_status j = Job_PENDING \<and> job_ok j"
    using assms(1) by (auto simp: handler_commit_def)
  obtain b' new' where c: "c = b' @ new'" "list_all2 same_job b b'" "distinct (map job_id c)"
    "\<forall>j \<in> set new'. job_status j = Job_PENDING \<and> job_ok j"
    using assms(2) by (auto simp: handler_commit_def)
  obtain old' mid where b': "b' = old' @ mid" "list_all2 same_job old old'"
    "list_all2 same_job new mid"
    using c(2) unfolding b(1) by (auto simp: list_all2_append1)
  have "job_status j = Job_PENDING \<and> job_ok j" if "j \<in> set mid" for j
  proof -
    from list_all2_memD(2) [OF b'(3) that] obtain i where "i \<in> set new" "same_job i j" by blast
    then show ?thesis using b(3) same_job_status same_job_ok by metis
  qed
  then show ?thesis
    unfolding handler_commit_def
    by (intro exI [of _ old'] exI [of _ "mid @ new'"])
      (use c b' same_jobs_trans [OF b(2) b'(2)] in auto)
qed

lemma handler_commit_update:
  assumes "distinct (map job_id js)" and "\<And>j. same_job j (f j)"
  shows "handler_commit js (update_where p f js)"
proof -
  have "list_all2 same_job js (update_where p f js)"
    using assms(2) by (induction js) auto
  moreover have "map job_id (update_where p f js) = map job_id js"
    by (rule map_update_where_frame) (use assms(2) in \<open>simp add: same_job_def\<close>)
  ultimately show ?thesis
    unfolding handler_commit_def
    by (intro exI [of _ "update_where p f js"] exI [of _ "[]"]) (simp add: assms(1))
qed

lemma handler_commit_insert_job:
  assumes "job_ids_ok (Suc k) d" and "aux_ok t a b"
  shows "handler_commit (db_jobs d) (db_jobs (insert_job now cr t a b d))"
proof -
  have "distinct (map job_id (db_jobs (insert_job now cr t a b d)))"
    using job_ids_ok_insert_job(1) [OF assms(1)] by (simp add: job_ids_ok_def)
  then show ?thesis
    using handler_commit_append assms(2) by (simp add: insert_job_def new_job_def)
qed

lemma handler_commit_insert_jobs_for:
  "job_ids_ok (length xs + k) d \<Longrightarrow> t \<notin> {MERGE_PROBLEMS, MERGE_USERS} \<Longrightarrow>
   handler_commit (db_jobs d) (db_jobs (insert_jobs_for now t xs d))"
proof (induction now t xs d rule: insert_jobs_for.induct)
  case (1 now t d)
  then show ?case
    using handler_commit_append [of "db_jobs d" "[]"] by (simp add: job_ids_ok_def)
next
  case (2 now t x xs d)
  have "handler_commit (db_jobs d) (db_jobs (insert_job now None t (Some x) None d))"
    by (rule handler_commit_insert_job [of "length xs + k"]) (use 2 in \<open>simp_all add: aux_ok_def\<close>)
  moreover have "handler_commit (db_jobs (insert_job now None t (Some x) None d))
      (db_jobs (insert_jobs_for now t xs (insert_job now None t (Some x) None d)))"
    using 2 job_ids_ok_insert_job(1) [of "length xs + k" d] by simp
  ultimately show ?case by (simp add: handler_commit_trans)
qed

section \<open>The contract of a job handler\<close>

text \<open>
  What the scheduler relies on: a handler that commits leaves its job DONE, CANCELLED or FAILED,
  changes no other job but for columns the scheduler does not read, and inserts only well-formed
  pending jobs. And what the database relies on: references keep their targets.
\<close>

definition terminal :: "job_status \<Rightarrow> bool" where
  "terminal st \<longleftrightarrow> st \<in> {Job_DONE, Job_CANCELLED, Job_FAILED}"

definition commits_as :: "id \<Rightarrow> db \<Rightarrow> db \<Rightarrow> bool" where
  "commits_as jid d d' \<longleftrightarrow>
     (\<exists>st js. terminal st \<and> handler_commit (db_jobs d) js \<and>
        db_jobs d' = set_job_status st jid js)"

lemma set_job_status_and_log_jobs:
  "db_jobs (set_job_status_and_log st log jid d) =
     set_job_status st jid
       (update_where (\<lambda>j. job_id j = jid) (\<lambda>j. j\<lparr>job_log := log\<rparr>) (db_jobs d))"
  by (simp add: set_job_status_and_log_def set_job_status_def update_where_def o_def)

lemma commits_as_mark:
  assumes "handler_commit (db_jobs d) (db_jobs d1)" and "terminal st"
  shows "commits_as jid d (set_job_status_and_log st log jid d1)"
proof -
  have "distinct (map job_id (db_jobs d1))" using assms(1) by (auto simp: handler_commit_def)
  then have "handler_commit (db_jobs d1)
      (update_where (\<lambda>j. job_id j = jid) (\<lambda>j. j\<lparr>job_log := log\<rparr>) (db_jobs d1))"
    by (rule handler_commit_update) (simp add: same_job_def)
  then show ?thesis
    unfolding commits_as_def set_job_status_and_log_jobs
    using assms handler_commit_trans by blast
qed

lemma refs_ok_jobs_frame: "refs_ok (d\<lparr>db_jobs := js\<rparr>) = refs_ok d"
  by (simp add: refs_ok_def refs_defs ids_defs)

lemma refs_ok_mark [simp]: "refs_ok (set_job_status_and_log st log jid d) = refs_ok d"
  by (simp add: set_job_status_and_log_def refs_ok_jobs_frame)

lemma refs_ok_insert_job [simp]: "refs_ok (insert_job now cr t a b d) = refs_ok d"
  by (simp add: refs_ok_def refs_defs ids_defs)

lemma refs_ok_insert_jobs_for [simp]: "refs_ok (insert_jobs_for now t xs d) = refs_ok d"
  by (simp add: refs_ok_def refs_defs ids_defs)

locale job_handler =
  fixes h :: handler and jid :: id and room :: "db \<Rightarrow> nat"
  assumes commits: "job_ids_ok (room d) d \<Longrightarrow> h log d = (log', Inr d') \<Longrightarrow> commits_as jid d d'"
    and refs: "keys_ok d \<Longrightarrow> refs_ok d \<Longrightarrow> h log d = (log', Inr d') \<Longrightarrow> refs_ok d'"
begin

text \<open>The scheduler's step \<open>finish\<close>.\<close>

lemma finish_step:
  assumes "job_ids_ok (room d) d" and "h log d = (log', Inr d')"
    and "worker s w = W_processing t b" and "task_job_id t = jid" and "db_job_rows s = db_jobs d"
  shows "worker_step w s (s\<lparr>db_job_rows := db_jobs d',
    worker := (worker s)(w := W_remove_filter t)\<rparr>)"
proof -
  obtain st js where st: "terminal st" and js: "handler_commit (db_jobs d) js"
    and d': "db_jobs d' = set_job_status st jid js"
    using commits [OF assms(1,2)] by (auto simp: commits_as_def)
  have "worker_step w s (s\<lparr>db_job_rows := set_job_status st (task_job_id t) js,
      worker := (worker s)(w := W_remove_filter t)\<rparr>)"
    by (rule worker_step.finish [OF assms(3)])
      (use js st assms(5) in \<open>auto simp: terminal_def\<close>)
  then show ?thesis by (simp add: d' assms(4))
qed

end

section \<open>The handlers meet the contract\<close>

lemma commits_now:
  assumes "job_ids_ok k d" and "terminal st"
  shows "commits_as jid d (set_job_status_and_log st log jid d)"
proof (rule commits_as_mark [OF _ assms(2)])
  show "handler_commit (db_jobs d) (db_jobs d)"
    using handler_commit_append [of "db_jobs d" "[]"] assms(1) by (simp add: job_ids_ok_def)
qed

lemma commits_insert:
  assumes "job_ids_ok (length xs) d" and "t \<notin> {MERGE_PROBLEMS, MERGE_USERS}" and "terminal st"
    and "db_jobs d1 = db_jobs (insert_jobs_for now t xs d)"
  shows "commits_as jid d (set_job_status_and_log st log jid d1)"
  by (rule commits_as_mark [OF _ assms(3)])
    (use assms handler_commit_insert_jobs_for [of xs 0 d t now] in simp)

lemmas handler_defs = cancelled_def failed_def finished_def mark_job_defs

lemma terminal_simps [simp]: "terminal Job_DONE" "terminal Job_CANCELLED" "terminal Job_FAILED"
  by (simp_all add: terminal_def)

interpretation delete_user: job_handler "delete_user now jid uid" jid
  "\<lambda>d. length (submission_files (\<lambda>s. sub_user_id s = Some uid) d)" for now jid uid
  by unfold_locales
    (auto simp: delete_user_def handler_defs refs_ok_deletes intro: commits_now commits_insert
      split: option.splits)

interpretation delete_contest_round: job_handler "delete_contest_round now jid rid" jid
  "\<lambda>d. length (submission_files (\<lambda>s. sub_round_id s = Some rid) d)" for now jid rid
  by unfold_locales
    (auto simp: delete_contest_round_def handler_defs refs_ok_deletes
      intro: commits_now commits_insert split: option.splits)

interpretation delete_contest_problem: job_handler "delete_contest_problem now jid cpid" jid
  "\<lambda>d. length (submission_files (\<lambda>s. sub_cp_id s = Some cpid) d)" for now jid cpid
  by unfold_locales
    (auto simp: delete_contest_problem_def handler_defs refs_ok_deletes
      intro: commits_now commits_insert split: option.splits)

lemma commits_insert2:
  assumes "job_ids_ok (length xs + length ys) d" and "t \<notin> {MERGE_PROBLEMS, MERGE_USERS}"
    and "terminal st"
    and "db_jobs d1 = db_jobs (insert_jobs_for now t ys (insert_jobs_for now t xs d))"
  shows "commits_as jid d (set_job_status_and_log st log jid d1)"
proof (rule commits_as_mark [OF _ assms(3)])
  have "handler_commit (db_jobs d) (db_jobs (insert_jobs_for now t xs d))"
    by (rule handler_commit_insert_jobs_for [OF assms(1,2)])
  moreover have "job_ids_ok (length ys + 0) (insert_jobs_for now t xs d)"
    using job_ids_ok_insert_jobs_for [OF assms(1)] by simp
  then have "handler_commit (db_jobs (insert_jobs_for now t xs d)) (db_jobs d1)"
    unfolding assms(4) by (rule handler_commit_insert_jobs_for [OF _ assms(2)])
  ultimately show "handler_commit (db_jobs d) (db_jobs d1)" by (rule handler_commit_trans)
qed

interpretation delete_contest: job_handler "delete_contest now jid cid" jid
  "\<lambda>d. length (submission_files (\<lambda>s. sub_contest_id s = Some cid) d) +
     length (map cf_file_id (filter (\<lambda>f. cf_contest_id f = cid) (db_contest_files d)))"
  for now jid cid
  by unfold_locales
    (auto simp: delete_contest_def handler_defs refs_ok_deletes simp del: length_map
      intro: commits_now commits_insert2 split: option.splits)

interpretation delete_problem: job_handler "delete_problem now jid pid" jid
  "\<lambda>d. length (map problem_file_id (filter (\<lambda>x. problem_id x = pid) (db_problems d))) +
     length (submission_files (\<lambda>s. sub_problem_id s = pid) d)"
  for now jid pid
  by unfold_locales
    (auto simp: delete_problem_def handler_defs refs_ok_deletes simp del: length_map
      intro: commits_now commits_insert2 split: option.splits if_splits)

text \<open>The DELETE_INTERNAL_FILE handler, with the disk as it was.\<close>

interpretation delete_internal_file: job_handler
  "\<lambda>log d. let (log', disk', r) = delete_internal_file jid fid log (disk, d) in (log', r)" jid
  "\<lambda>d. 0" for jid fid disk
proof
  fix log log' and d d' :: db
  assume run: "(let (log', disk', r) = delete_internal_file jid fid log (disk, d) in (log', r)) =
    (log', Inr d')"
  then have d': "d' = set_job_status_and_log Job_DONE log' jid
      (d\<lparr>db_internal_files := delete_where (\<lambda>f. file_id f = fid) (db_internal_files d)\<rparr>)"
    by (auto simp: delete_internal_file_def Let_def mark_job_defs split: if_splits)
  {
    assume ids: "job_ids_ok 0 d"
    have "handler_commit (db_jobs d) (db_jobs d)"
      using handler_commit_append [of "db_jobs d" "[]"] ids by (simp add: job_ids_ok_def)
    then show "commits_as jid d d'" unfolding d' by (intro commits_as_mark) simp_all
  next
    assume "refs_ok d"
    then show "refs_ok d'"
      unfolding d' refs_ok_mark by (simp add: refs_ok_def refs_defs ids_defs)
  }
qed

subsection \<open>Updating the finals of several submissions\<close>

definition submission_key ::
  "submission \<Rightarrow> id \<times> id option \<times> id \<times> id option \<times> id option \<times> id option \<times> id \<times> submission_type"
where
  "submission_key s = (sub_id s, sub_user_id s, sub_problem_id s, sub_cp_id s, sub_round_id s,
     sub_contest_id s, sub_file_id s, sub_type s)"

lemma update_final_keys:
  assumes "update_final u p c d = Inr d'"
  shows "d' = d\<lparr>db_submissions := db_submissions d'\<rparr>"
    and "map submission_key (db_submissions d') = map submission_key (db_submissions d)"
  using assms unfolding update_final_def
  by (auto simp: Let_def submission_key_def update_final_frames split: option.splits)

lemma update_finals_keys:
  assumes "update_finals ftus d = Inr d'"
  shows "d' = d\<lparr>db_submissions := db_submissions d'\<rparr>
    \<and> map submission_key (db_submissions d') = map submission_key (db_submissions d)"
  using assms
proof (induction ftus d rule: update_finals.induct)
  case (1 d)
  then show ?case by simp
next
  case (2 u p c ftus d)
  then obtain d1 where d1: "update_final u p c d = Inr d1" "update_finals ftus d1 = Inr d'"
    by (auto simp: bind_res_eq_Inr)
  show ?case using 2(1) [OF d1(2)] update_final_keys [OF d1(1)] by (metis db.surjective db.update_convs(11))
qed

lemma sub_refs_keys:
  assumes "map submission_key ss' = map submission_key ss"
  shows "(\<forall>s \<in> set ss'. sub_refs d s) \<longleftrightarrow> (\<forall>s \<in> set ss. sub_refs d s)"
proof -
  define P where "P k \<longleftrightarrow> (case k of (i, u, p, c, r, ct, f, t) \<Rightarrow>
      ref_in (user_ids d) u \<and> p \<in> problem_ids d \<and> ref_in (cp_ids d) c \<and>
      ref_in (round_ids d) r \<and> ref_in (contest_ids d) ct)"
    for k :: "id \<times> id option \<times> id \<times> id option \<times> id option \<times> id option \<times> id \<times> submission_type"
  have "(\<forall>s \<in> set xs. sub_refs d s) \<longleftrightarrow> (\<forall>k \<in> set (map submission_key xs). P k)" for xs
    by (simp add: P_def submission_key_def sub_refs_def)
  then show ?thesis using assms by metis
qed

lemma refs_ok_submissions:
  assumes "map submission_key ss = map submission_key (db_submissions d)"
  shows "refs_ok (d\<lparr>db_submissions := ss\<rparr>) = refs_ok d"
  using sub_refs_keys [OF assms, of d] unfolding refs_ok_def
  by (simp add: refs_defs ids_defs)

lemma update_finals_frame:
  assumes "update_finals ftus d = Inr d'"
  shows "db_jobs d' = db_jobs d" and "db_next_job_id d' = db_next_job_id d"
    and "refs_ok d' = refs_ok d"
proof -
  note keys = update_finals_keys [OF assms]
  show "db_jobs d' = db_jobs d" "db_next_job_id d' = db_next_job_id d"
    using conjunct1 [OF keys] by (metis db.select_convs db.surjective db.update_convs(11))+
  show "refs_ok d' = refs_ok d"
    using keys refs_ok_submissions by metis
qed

interpretation reselect: job_handler "reselect_final_submissions_in_contest_problem jid cpid" jid
  "\<lambda>d. 0" for jid cpid
proof
  fix log log' and d d' :: db
  assume run: "reselect_final_submissions_in_contest_problem jid cpid log d = (log', Inr d')"
  then obtain d1 ftus where d1: "update_finals ftus d = Inr d1" "d' = mark_job_as_done log' jid d1"
    by (auto simp: reselect_final_submissions_in_contest_problem_def finished_def
        split: sum.splits)
  note frame = update_finals_frame [OF d1(1)]
  show "commits_as jid d d'" if ids: "job_ids_ok 0 d"
  proof -
    have "handler_commit (db_jobs d) (db_jobs d1)"
      using handler_commit_append [of "db_jobs d" "[]"] ids frame(1)
      by (simp add: job_ids_ok_def)
    then show ?thesis unfolding d1(2) mark_job_defs by (rule commits_as_mark) simp
  qed
  show "refs_ok d'" if "refs_ok d" using that frame(3) unfolding d1(2) mark_job_defs by simp
qed

end
