(* ===== verification/Merge_Handlers.thy ===== *)
theory Merge_Handlers
  imports Job_Handlers
begin

text \<open>
  The handlers MERGE_USERS and MERGE_PROBLEMS (src/subprojects/sim/src/job_server/job_handlers/
  merge_users.cc and merge_problems.cc): everything of the donor is transferred to the target and
  the donor is deleted.
\<close>

section \<open>Merging users\<close>

text \<open>\<open>UPDATE contest_users tcu INNER JOIN contest_users dcu ... SET tcu.mode=dcu.mode\<close>\<close>

definition raise_modes :: "id \<Rightarrow> id \<Rightarrow> contest_user list \<Rightarrow> contest_user list" where
  "raise_modes donor target cus =
     map (\<lambda>t. if cu_user_id t = target
              then (case find (\<lambda>c. cu_contest_id c = cu_contest_id t \<and> cu_user_id c = donor \<and>
                        cu_mode t < cu_mode c) cus of
                      None \<Rightarrow> t
                    | Some c \<Rightarrow> t\<lparr>cu_mode := cu_mode c\<rparr>)
              else t) cus"

text \<open>\<open>INSERT IGNORE\<close>: a row whose primary key exists is skipped.\<close>

fun insert_ignore_contest_users :: "contest_user list \<Rightarrow> contest_user list \<Rightarrow> contest_user list" where
  "insert_ignore_contest_users [] cus = cus"
| "insert_ignore_contest_users (n # ns) cus =
     insert_ignore_contest_users ns
       (if \<exists>c \<in> set cus. cu_user_id c = cu_user_id n \<and> cu_contest_id c = cu_contest_id n
        then cus else cus @ [n])"

definition transfer_contest_users :: "id \<Rightarrow> id \<Rightarrow> contest_user list \<Rightarrow> contest_user list" where
  "transfer_contest_users donor target cus =
     (let cus1 = raise_modes donor target cus
      in insert_ignore_contest_users
           (map (\<lambda>c. c\<lparr>cu_user_id := target\<rparr>) (filter (\<lambda>c. cu_user_id c = donor) cus1)) cus1)"

definition transfer_user_rows :: "id \<Rightarrow> id \<Rightarrow> user_type \<Rightarrow> user_type \<Rightarrow> db \<Rightarrow> db" where
  "transfer_user_rows donor target donor_type target_type d =
     d\<lparr> db_users := (if donor_type < target_type
          then update_where (\<lambda>u. user_id u = target) (\<lambda>u. u\<lparr>user_type := donor_type\<rparr>) (db_users d)
          else db_users d),
        db_sessions := update_where (\<lambda>s. session_user_id s = donor)
          (\<lambda>s. s\<lparr>session_user_id := target\<rparr>) (db_sessions d),
        db_problems := update_where (\<lambda>p. problem_owner_id p = Some donor)
          (\<lambda>p. p\<lparr>problem_owner_id := Some target\<rparr>) (db_problems d),
        db_contest_users := transfer_contest_users donor target (db_contest_users d),
        db_contest_files := update_where (\<lambda>f. cf_creator f = Some donor)
          (\<lambda>f. f\<lparr>cf_creator := Some target\<rparr>) (db_contest_files d),
        db_submissions := update_where (\<lambda>s. sub_user_id s = Some donor)
          (\<lambda>s. s\<lparr>sub_user_id := Some target\<rparr>) (db_submissions d) \<rparr>"

definition transfer_jobs :: "id \<Rightarrow> id \<Rightarrow> db \<Rightarrow> db" where
  "transfer_jobs donor target d =
     d\<lparr>db_jobs := update_where (\<lambda>j. job_creator j = Some donor)
       (\<lambda>j. j\<lparr>job_creator := Some target\<rparr>) (db_jobs d)\<rparr>"

definition merge_users :: "id \<Rightarrow> id \<Rightarrow> id \<Rightarrow> handler" where
  "merge_users jid donor target log d =
     (case find_user d donor of
        None \<Rightarrow> cancelled jid (log_line log ''User to delete does not exist'') d
      | Some du \<Rightarrow>
          (let log1 = log_line (log_line log
                 (''Donor user'' @ [CHR 0x27] @ ''s username: '' @ username du))
                 (''Donor user'' @ [CHR 0x27] @ ''s type: '' @ user_type_to_str (user_type du))
           in case find_user d target of
                None \<Rightarrow> cancelled jid (log_line log1 ''Target user does not exist'') d
              | Some tu \<Rightarrow>
                  (let ftus = remdups (map (\<lambda>s. (Some target, sub_problem_id s, sub_cp_id s))
                         (filter (\<lambda>s. sub_user_id s = Some donor) (db_submissions d)))
                   in case update_finals ftus
                          (transfer_user_rows donor target (user_type du) (user_type tu) d) of
                        Inl e \<Rightarrow> (log1, Inl e)
                      | Inr d1 \<Rightarrow>
                          finished jid log1
                            (delete_users_where (\<lambda>u. user_id u = donor)
                              (transfer_jobs donor target d1)))))"

section \<open>Merging problems\<close>

text \<open>\<open>UPDATE IGNORE problem_tags SET problem_id=...\<close>: a duplicate key leaves the row as it is.\<close>

fun transfer_tags :: "id \<Rightarrow> id \<Rightarrow> problem_tag list \<Rightarrow> problem_tag list \<Rightarrow> problem_tag list" where
  "transfer_tags donor target seen [] = seen"
| "transfer_tags donor target seen (t # ts) =
     (let t' = t\<lparr>tag_problem_id := target\<rparr>
      in transfer_tags donor target
           (seen @ [if tag_problem_id t = donor \<and> t' \<notin> set seen \<union> set ts then t' else t]) ts)"

definition transfer_problem_rows :: "id \<Rightarrow> id \<Rightarrow> db \<Rightarrow> db" where
  "transfer_problem_rows donor target d =
     d\<lparr>db_submissions := update_where (\<lambda>s. sub_problem_id s = donor)
         (\<lambda>s. s\<lparr>sub_problem_id := target\<rparr>) (db_submissions d)\<rparr>"

definition merge_problems :: "datetime \<Rightarrow> id \<Rightarrow> id \<Rightarrow> id \<Rightarrow> handler" where
  "merge_problems now jid donor target log d =
     (case find (\<lambda>m. mpj_id m = jid) (db_merge_problems_jobs d) of
        None \<Rightarrow> (log, Inl (Throw_assert ''stmt.next()''))
      | Some mpj \<Rightarrow>
     (case find_problem d donor of
        None \<Rightarrow> failed jid (log_line log ''Problem to delete does not exist'') d
      | Some dp \<Rightarrow>
     (let log1 = log_line log (''Simfile of the donor problem:'' @ [CHR 0x0A] @ problem_simfile dp)
      in case find_problem d target of
        None \<Rightarrow> failed jid (log_line log1 ''Target problem does not exist'') d
      | Some tp \<Rightarrow>
     (let d1 = d\<lparr>db_contest_problems := update_where (\<lambda>c. cp_problem_id c = donor)
                 (\<lambda>c. c\<lparr>cp_problem_id := target\<rparr>) (db_contest_problems d)\<rparr>;
          d2 = insert_jobs_for now DELETE_INTERNAL_FILE
                 (map problem_file_id (filter (\<lambda>p. problem_id p = donor) (db_problems d1))) d1;
          solution = (\<lambda>s. sub_problem_id s = donor \<and> sub_type s = Sub_PROBLEM_SOLUTION);
          d3 = insert_jobs_for now DELETE_INTERNAL_FILE (submission_files solution d2) d2;
          d4 = d3\<lparr>db_submissions := delete_where solution (db_submissions d3)\<rparr>;
          moved = filter (\<lambda>s. sub_problem_id s = donor) (db_submissions d4);
          ftus = remdups (map (\<lambda>s. (sub_user_id s, target, sub_cp_id s)) moved);
          d5 = (if mpj_rejudge_transferred_submissions mpj
                then insert_jobs_for now REJUDGE_SUBMISSION (sort (map sub_id moved)) d4 else d4)
      in case update_finals ftus (transfer_problem_rows donor target d5) of
           Inl e \<Rightarrow> (log1, Inl e)
         | Inr d6 \<Rightarrow>
             finished jid log1 (delete_problems_where (\<lambda>p. problem_id p = donor)
               (d6\<lparr>db_problem_tags := transfer_tags donor target [] (db_problem_tags d6)\<rparr>))))))"

section \<open>References and jobs\<close>

lemma transfer_user_rows_frame [simp]:
  "db_jobs (transfer_user_rows a b t u d) = db_jobs d"
  "db_next_job_id (transfer_user_rows a b t u d) = db_next_job_id d"
  by (simp_all add: transfer_user_rows_def)

lemma raise_modes_keys:
  "map (\<lambda>c. (cu_user_id c, cu_contest_id c)) (raise_modes donor target cus) =
     map (\<lambda>c. (cu_user_id c, cu_contest_id c)) cus"
  by (auto simp: raise_modes_def split: option.splits)

lemma set_insert_ignore:
  "set (insert_ignore_contest_users ns cus) \<subseteq> set ns \<union> set cus"
  by (induction ns cus rule: insert_ignore_contest_users.induct) (auto split: if_splits)

lemma raise_modes_mem:
  "c' \<in> set (raise_modes donor target cus) \<Longrightarrow>
   \<exists>c \<in> set cus. cu_user_id c' = cu_user_id c \<and> cu_contest_id c' = cu_contest_id c"
  by (auto simp: raise_modes_def split: if_splits option.splits)

lemma transfer_contest_users_mem:
  assumes "c' \<in> set (transfer_contest_users donor target cus)"
  shows "\<exists>c \<in> set cus. cu_contest_id c' = cu_contest_id c \<and>
    (cu_user_id c' = target \<or> cu_user_id c' = cu_user_id c)"
proof -
  have "c' \<in> (\<lambda>c. c\<lparr>cu_user_id := target\<rparr>) ` {c \<in> set (raise_modes donor target cus).
      cu_user_id c = donor} \<union> set (raise_modes donor target cus)"
    using assms set_insert_ignore unfolding transfer_contest_users_def Let_def by fastforce
  then show ?thesis using raise_modes_mem by fastforce
qed

lemma image_update_where:
  assumes "\<And>r. g (f r) = g r"
  shows "g ` set (update_where p f rs) = g ` set rs"
  using map_update_where_frame [of g f p rs, OF assms] by (metis set_map)

lemma ball_update_where:
  "(\<forall>x \<in> set (update_where p f rs). P x) \<longleftrightarrow> (\<forall>x \<in> set rs. (p x \<longrightarrow> P (f x)) \<and> (\<not> p x \<longrightarrow> P x))"
  by (auto simp: set_update_where)

lemma refs_ok_transfer_user_rows:
  assumes refs: "refs_ok d" and target: "target \<in> user_ids d"
  shows "refs_ok (transfer_user_rows donor target t u d)"
proof -
  let ?e = "transfer_user_rows donor target t u d"
  have ids: "problem_ids ?e = problem_ids d" "contest_ids ?e = contest_ids d"
      "round_ids ?e = round_ids d" "cp_ids ?e = cp_ids d" "user_ids ?e = user_ids d"
    by (simp_all add: ids_defs transfer_user_rows_def image_update_where)
  have cus: "\<forall>c \<in> set (transfer_contest_users donor target (db_contest_users d)). cu_refs d c"
    using transfer_contest_users_mem refs target unfolding refs_ok_def cu_refs_def by metis
  show ?thesis
    using refs cus target unfolding refs_ok_def refs_defs ids
    by (simp add: transfer_user_rows_def ball_update_where)
qed

lemma find_user_in: "find_user d uid = Some u \<Longrightarrow> uid \<in> user_ids d"
  by (force simp: find_user_def user_ids_def dest: find_key_Some)

lemma handler_commit_refl': "job_ids_ok k d \<Longrightarrow> handler_commit (db_jobs d) (db_jobs d)"
  using handler_commit_append [of "db_jobs d" "[]"] by (simp add: job_ids_ok_def)

lemma refs_ok_transfer_jobs [simp]: "refs_ok (transfer_jobs a b d) = refs_ok d"
  by (simp add: transfer_jobs_def refs_ok_jobs_frame)

text \<open>The branches of \<open>merge_users\<close>.\<close>

lemma merge_users_cases:
  assumes "merge_users jid donor target log d = (log', Inr d')"
  obtains "find_user d donor = None \<or> find_user d target = None"
      and "d' = mark_job_as_cancelled log' jid d"
    | du tu d1 where "find_user d donor = Some du" and "find_user d target = Some tu"
      and "update_finals (remdups (map (\<lambda>s. (Some target, sub_problem_id s, sub_cp_id s))
            (filter (\<lambda>s. sub_user_id s = Some donor) (db_submissions d))))
          (transfer_user_rows donor target (user_type du) (user_type tu) d) = Inr d1"
      and "d' = mark_job_as_done log' jid
          (delete_users_where (\<lambda>u. user_id u = donor) (transfer_jobs donor target d1))"
  using assms unfolding merge_users_def
  by (auto simp: Let_def handler_defs split: option.splits sum.splits)

interpretation merge_users: job_handler "merge_users jid donor target" jid "\<lambda>d. 0"
  for jid donor target
proof
  fix log log' and d d' :: db
  assume run: "merge_users jid donor target log d = (log', Inr d')"
  show "commits_as jid d d'" if ids: "job_ids_ok 0 d"
    using run
  proof (cases rule: merge_users_cases)
    case 1
    then show ?thesis using commits_now [OF ids] by (simp add: mark_job_defs)
  next
    case (2 du tu d1)
    have "db_jobs d1 = db_jobs d" using update_finals_frame(1) [OF 2(3)] by simp
    then have "handler_commit (db_jobs d) (db_jobs (transfer_jobs donor target d1))"
      using handler_commit_update [of "db_jobs d"] ids
      by (simp add: transfer_jobs_def job_ids_ok_def same_job_def)
    then show ?thesis
      unfolding 2(4) mark_job_defs by (intro commits_as_mark) simp_all
  qed
  show "refs_ok d'" if "keys_ok d" and refs: "refs_ok d"
    using run
  proof (cases rule: merge_users_cases)
    case 1
    then show ?thesis using refs by (simp add: mark_job_defs)
  next
    case (2 du tu d1)
    have "refs_ok d1"
      using update_finals_frame(3) [OF 2(3)]
        refs_ok_transfer_user_rows [OF refs find_user_in [OF 2(2)]] by simp
    then show ?thesis unfolding 2(4) mark_job_defs by (simp add: refs_ok_deletes)
  qed
qed

text \<open>The branches of \<open>merge_problems\<close>, and what it does before the finals are updated.\<close>

definition merge_problems_jobs :: "datetime \<Rightarrow> id \<Rightarrow> id \<Rightarrow> bool \<Rightarrow> db \<Rightarrow> db" where
  "merge_problems_jobs now donor target rejudge d =
     (let d1 = d\<lparr>db_contest_problems := update_where (\<lambda>c. cp_problem_id c = donor)
                 (\<lambda>c. c\<lparr>cp_problem_id := target\<rparr>) (db_contest_problems d)\<rparr>;
          d2 = insert_jobs_for now DELETE_INTERNAL_FILE
                 (map problem_file_id (filter (\<lambda>p. problem_id p = donor) (db_problems d1))) d1;
          solution = (\<lambda>s. sub_problem_id s = donor \<and> sub_type s = Sub_PROBLEM_SOLUTION);
          d3 = insert_jobs_for now DELETE_INTERNAL_FILE (submission_files solution d2) d2;
          d4 = d3\<lparr>db_submissions := delete_where solution (db_submissions d3)\<rparr>
      in if rejudge
         then insert_jobs_for now REJUDGE_SUBMISSION (sort (map sub_id
           (filter (\<lambda>s. sub_problem_id s = donor) (db_submissions d4)))) d4 else d4)"

lemma merge_problems_cases:
  assumes "merge_problems now jid donor target log d = (log', Inr d')"
  obtains "find_problem d donor = None \<or> find_problem d target = None"
      and "d' = mark_job_as_failed log' jid d"
    | mpj dp tp d1 ftus where "find (\<lambda>m. mpj_id m = jid) (db_merge_problems_jobs d) = Some mpj"
      and "find_problem d donor = Some dp" and "find_problem d target = Some tp"
      and "update_finals ftus (transfer_problem_rows donor target (merge_problems_jobs now donor target
          (mpj_rejudge_transferred_submissions mpj) d)) = Inr d1"
      and "d' = mark_job_as_done log' jid (delete_problems_where (\<lambda>p. problem_id p = donor)
          (d1\<lparr>db_problem_tags := transfer_tags donor target [] (db_problem_tags d1)\<rparr>))"
  using assms unfolding merge_problems_def merge_problems_jobs_def
  by (auto simp: Let_def handler_defs split: option.splits sum.splits)

lemma find_problem_in: "find_problem d pid = Some p \<Longrightarrow> pid \<in> problem_ids d"
  by (force simp: find_problem_def problem_ids_def dest: find_key_Some)

lemma refs_ok_move_contest_problems:
  assumes "refs_ok d" and "target \<in> problem_ids d"
  shows "refs_ok (d\<lparr>db_contest_problems := update_where (\<lambda>c. cp_problem_id c = donor)
    (\<lambda>c. c\<lparr>cp_problem_id := target\<rparr>) (db_contest_problems d)\<rparr>)"
  using assms unfolding refs_ok_def refs_defs ids_defs
  by (simp add: ball_update_where image_update_where)

lemma refs_ok_transfer_problem_rows:
  assumes "refs_ok d" and "target \<in> problem_ids d"
  shows "refs_ok (transfer_problem_rows donor target d)"
  using assms unfolding refs_ok_def refs_defs ids_defs
  by (simp add: transfer_problem_rows_def ball_update_where)

lemma refs_ok_fewer_submissions:
  "refs_ok d \<Longrightarrow> set ss \<subseteq> set (db_submissions d) \<Longrightarrow> refs_ok (d\<lparr>db_submissions := ss\<rparr>)"
  unfolding refs_ok_def refs_defs ids_defs by auto

lemma transfer_tags_mem:
  "t' \<in> set (transfer_tags donor target seen ts) \<Longrightarrow>
   t' \<in> set seen \<or> (\<exists>t \<in> set ts. tag_problem_id t' = tag_problem_id t) \<or> tag_problem_id t' = target"
proof (induction donor target seen ts rule: transfer_tags.induct)
  case (1 donor target seen)
  then show ?case by simp
next
  case (2 donor target seen t ts)
  let ?t' = "t\<lparr>tag_problem_id := target\<rparr>"
  let ?x = "if tag_problem_id t = donor \<and> ?t' \<notin> set seen \<union> set ts then ?t' else t"
  have "t' \<in> set (seen @ [?x]) \<or> (\<exists>t \<in> set ts. tag_problem_id t' = tag_problem_id t) \<or>
      tag_problem_id t' = target"
    using 2 by (simp add: Let_def)
  then show ?case by (auto split: if_splits)
qed

lemma refs_ok_transfer_tags:
  assumes "refs_ok d" and "target \<in> problem_ids d"
  shows "refs_ok (d\<lparr>db_problem_tags := transfer_tags donor target [] (db_problem_tags d)\<rparr>)"
proof -
  have "tag_problem_id t \<in> problem_ids d"
    if "t \<in> set (transfer_tags donor target [] (db_problem_tags d))" for t
    using transfer_tags_mem [OF that] assms unfolding refs_ok_def by auto
  then show ?thesis
    using assms(1) unfolding refs_ok_def refs_defs ids_defs by simp
qed

lemma refs_ok_merge_problems_jobs:
  assumes "refs_ok d" and "target \<in> problem_ids d"
  shows "refs_ok (merge_problems_jobs now donor target rejudge d)"
    and "problem_ids (merge_problems_jobs now donor target rejudge d) = problem_ids d"
  using refs_ok_move_contest_problems [OF assms]
  by (auto simp: merge_problems_jobs_def Let_def problem_ids_def intro!: refs_ok_fewer_submissions)

definition merge_problems_room :: "db \<Rightarrow> nat" where
  "merge_problems_room d = length (db_problems d) + (length (db_submissions d) +
     length (db_submissions d))"

lemma submission_files_length: "length (submission_files p d) \<le> length (db_submissions d)"
  by (simp add: submission_files_def)

lemma merge_problems_jobs_commit:
  assumes ids: "job_ids_ok (merge_problems_room d) d"
  shows "handler_commit (db_jobs d) (db_jobs (merge_problems_jobs now donor target rejudge d))"
proof -
  let ?S = "length (db_submissions d)"
  define d1 where "d1 = d\<lparr>db_contest_problems := update_where (\<lambda>c. cp_problem_id c = donor)
    (\<lambda>c. c\<lparr>cp_problem_id := target\<rparr>) (db_contest_problems d)\<rparr>"
  define fs where "fs = map problem_file_id (filter (\<lambda>p. problem_id p = donor) (db_problems d1))"
  define d2 where "d2 = insert_jobs_for now DELETE_INTERNAL_FILE fs d1"
  define sol :: "submission \<Rightarrow> bool" where "sol = (\<lambda>s. sub_problem_id s = donor \<and> sub_type s = Sub_PROBLEM_SOLUTION)"
  define d3 where "d3 = insert_jobs_for now DELETE_INTERNAL_FILE (submission_files sol d2) d2"
  define d4 where "d4 = d3\<lparr>db_submissions := delete_where sol (db_submissions d3)\<rparr>"
  define rs where "rs = sort (map sub_id (filter (\<lambda>s. sub_problem_id s = donor) (db_submissions d4)))"
  have merge: "merge_problems_jobs now donor target rejudge d =
      (if rejudge then insert_jobs_for now REJUDGE_SUBMISSION rs d4 else d4)"
    unfolding merge_problems_jobs_def d1_def d2_def d3_def d4_def fs_def sol_def rs_def
    by (simp add: Let_def)
  have "length fs \<le> length (db_problems d)" by (simp add: fs_def d1_def)
  then have "job_ids_ok (length fs + (?S + ?S)) d"
    by (intro job_ids_ok_mono [OF ids]) (simp add: merge_problems_room_def)
  then have i1: "job_ids_ok (length fs + (?S + ?S)) d1"
    by (subst job_ids_ok_frame [of d1 d]) (simp_all add: d1_def)
  have i2: "job_ids_ok (?S + ?S) d2"
    unfolding d2_def by (rule job_ids_ok_insert_jobs_for [OF i1])
  have subs: "db_submissions d2 = db_submissions d" by (simp add: d2_def d1_def)
  have i2': "job_ids_ok (length (submission_files sol d2) + ?S) d2"
    by (rule job_ids_ok_mono [OF i2]) (use submission_files_length [of sol d2] subs in simp)
  have i3: "job_ids_ok ?S d3" unfolding d3_def by (rule job_ids_ok_insert_jobs_for [OF i2'])
  have "length rs \<le> ?S"
    using length_filter_le [of "\<lambda>s. sub_problem_id s = donor" "db_submissions d4"]
      length_filter_le [of "\<lambda>s. \<not> sol s" "db_submissions d"]
    by (simp add: rs_def d4_def d3_def subs delete_where_def)
  then have "job_ids_ok (length rs + 0) d3" by (intro job_ids_ok_mono [OF i3]) simp
  then have i4: "job_ids_ok (length rs + 0) d4"
    by (subst job_ids_ok_frame [of d4 d3]) (simp_all add: d4_def)
  have "handler_commit (db_jobs d) (db_jobs d2)"
    using handler_commit_insert_jobs_for [OF i1, of DELETE_INTERNAL_FILE now]
    unfolding d2_def by (simp add: d1_def)
  moreover have "handler_commit (db_jobs d2) (db_jobs d4)"
    using handler_commit_insert_jobs_for [OF i2', of DELETE_INTERNAL_FILE now]
    by (simp add: d4_def d3_def)
  moreover have "handler_commit (db_jobs d4) (db_jobs (insert_jobs_for now REJUDGE_SUBMISSION rs d4))"
    by (rule handler_commit_insert_jobs_for [OF i4]) simp
  ultimately show ?thesis unfolding merge by (auto intro: handler_commit_trans)
qed

lemma transfer_problem_rows_frame [simp]:
  "db_jobs (transfer_problem_rows a b d) = db_jobs d"
  "problem_ids (transfer_problem_rows a b d) = problem_ids d"
  by (simp_all add: transfer_problem_rows_def problem_ids_def)

lemma update_finals_problem_ids:
  assumes "update_finals ftus d = Inr d'"
  shows "problem_ids d' = problem_ids d"
  using conjunct1 [OF update_finals_keys [OF assms]]
  by (metis db.select_convs(4) db.surjective db.update_convs(11) problem_ids_def)

interpretation merge_problems: job_handler "merge_problems now jid donor target" jid
  merge_problems_room for now jid donor target
proof
  fix log log' and d d' :: db
  assume run: "merge_problems now jid donor target log d = (log', Inr d')"
  show "commits_as jid d d'" if ids: "job_ids_ok (merge_problems_room d) d"
    using run
  proof (cases rule: merge_problems_cases)
    case 1
    then show ?thesis using commits_now [OF ids] by (simp add: mark_job_defs)
  next
    case (2 mpj dp tp d1 ftus)
    have "handler_commit (db_jobs d) (db_jobs d1)"
      using merge_problems_jobs_commit [OF ids] update_finals_frame(1) [OF 2(4)] by simp
    then show ?thesis unfolding 2(5) mark_job_defs by (intro commits_as_mark) simp_all
  qed
  show "refs_ok d'" if "keys_ok d" and refs: "refs_ok d"
    using run
  proof (cases rule: merge_problems_cases)
    case 1
    then show ?thesis using refs by (simp add: mark_job_defs)
  next
    case (2 mpj dp tp d1 ftus)
    have t: "target \<in> problem_ids d" by (rule find_problem_in [OF 2(3)])
    then have "refs_ok d1"
      using update_finals_frame(3) [OF 2(4)] refs_ok_merge_problems_jobs [OF refs t]
        refs_ok_transfer_problem_rows by metis
    moreover have "target \<in> problem_ids d1"
      using t update_finals_problem_ids [OF 2(4)] refs_ok_merge_problems_jobs(2) [OF refs t] by simp
    ultimately show ?thesis
      unfolding 2(5) mark_job_defs
      by (simp add: refs_ok_deletes refs_ok_transfer_tags)
  qed
qed

end
