(* ===== verification/Process_Task.thy ===== *)
theory Process_Task
  imports Merge_Handlers
begin

text \<open>
  \<open>process_task\<close> of src/subprojects/sim/src/job_server/main.cc and \<open>repeat_if_deadlocked\<close> of
  src/subprojects/sim/include/sim/mysql/repeat_if_deadlocked.hh: the dispatch of a task to its
  handler, the retries, and the conversion of every exception into a failed job. The handlers that
  judge or build packages are an argument (they run compilers and read packages); the others are
  the definitions of \<open>Job_Handlers\<close> and \<open>Merge_Handlers\<close>.
\<close>

section \<open>Retrying\<close>

text \<open>
  \<open>func\<close> is called with the number of deadlocks so far; it returns its new state and the exception,
  if any. The loop ends because the counter is bounded by the limit.
\<close>

function repeat_go :: "nat \<Rightarrow> nat \<Rightarrow> (nat \<Rightarrow> 's \<Rightarrow> 's \<times> exn option) \<Rightarrow> 's \<Rightarrow> 's \<times> exn option" where
  "repeat_go deadlocks limit func s =
     (case func deadlocks s of
        (s', None) \<Rightarrow> (s', None)
      | (s', Some e) \<Rightarrow>
          if e = Deadlock \<and> deadlocks < limit then repeat_go (Suc deadlocks) limit func s'
          else (s', Some e))"
  by auto
termination by (relation "measure (\<lambda>(k, l, f, s). l - k)") auto

declare repeat_go.simps [simp del]

definition repeat_if_deadlocked ::
  "nat \<Rightarrow> (nat \<Rightarrow> 's \<Rightarrow> 's \<times> exn option) \<Rightarrow> 's \<Rightarrow> 's \<times> exn option" where
  "repeat_if_deadlocked limit func s = repeat_go 0 limit func s"

text \<open>The state after the first \<open>k\<close> calls.\<close>

fun after_calls :: "(nat \<Rightarrow> 's \<Rightarrow> 's \<times> exn option) \<Rightarrow> nat \<Rightarrow> nat \<Rightarrow> 's \<Rightarrow> 's" where
  "after_calls func i 0 s = s"
| "after_calls func i (Suc k) s = after_calls func (Suc i) k (fst (func i s))"

lemma after_calls_Suc:
  "after_calls func i (Suc k) s = fst (func (i + k) (after_calls func i k s))"
  by (induction k arbitrary: i s) simp_all

lemma repeat_go_first_other:
  assumes "\<And>j. j < k \<Longrightarrow> snd (func (i + j) (after_calls func i j s)) = Some Deadlock"
    and "snd (func (i + k) (after_calls func i k s)) \<noteq> Some Deadlock" and "i + k \<le> limit"
  shows "repeat_go i limit func s = func (i + k) (after_calls func i k s)"
  using assms
proof (induction k arbitrary: i s)
  case 0
  then show ?case
    by (subst repeat_go.simps) (auto split: prod.splits option.splits)
next
  case (Suc k)
  obtain s' where s': "func i s = (s', Some Deadlock)"
    using Suc.prems(1) [of 0] by (cases "func i s") simp
  have "repeat_go (Suc i) limit func s' = func (Suc i + k) (after_calls func (Suc i) k s')"
  proof (rule Suc.IH)
    show "snd (func (Suc i + j) (after_calls func (Suc i) j s')) = Some Deadlock" if "j < k" for j
      using Suc.prems(1) [of "Suc j"] that s' by simp
  qed (use Suc.prems(2,3) s' in simp_all)
  then show ?case using Suc.prems(3) s' by (subst repeat_go.simps) simp
qed

text \<open>What a failing call keeps, the failing loop keeps; a successful loop ends with a successful call.\<close>

lemma repeat_go_cases:
  fixes func :: "nat \<Rightarrow> 's \<Rightarrow> 's \<times> exn option"
  assumes keep: "\<And>k s s' e. P s \<Longrightarrow> func k s = (s', Some e) \<Longrightarrow> P s'"
    and ends: "\<And>k s s'. P s \<Longrightarrow> func k s = (s', None) \<Longrightarrow> Q s'"
    and "P s"
  shows "case repeat_go i limit func s of (s', None) \<Rightarrow> Q s' | (s', Some e) \<Rightarrow> P s'"
  using assms(3)
proof (induction "limit - i" arbitrary: i s rule: less_induct)
  case less
  obtain s' r where call: "func i s = (s', r)" by (cases "func i s")
  show ?case
  proof (cases r)
    case None
    then show ?thesis using call ends [OF less.prems] by (subst repeat_go.simps) simp
  next
    case (Some e)
    then have s': "P s'" using call keep [OF less.prems] by blast
    show ?thesis
    proof (cases "e = Deadlock \<and> i < limit")
      case True
      then show ?thesis
        using less.hyps [of "Suc i" s'] s' call Some
        by (subst repeat_go.simps) (simp add: diff_less_mono2)
    next
      case False
      then show ?thesis using call Some s' by (subst repeat_go.simps) auto
    qed
  qed
qed

section \<open>Dispatch\<close>

type_synonym server = "string \<times> id list \<times> db"

definition on_disk :: "id list \<Rightarrow> string \<times> db res \<Rightarrow> string \<times> id list \<times> db res" where
  "on_disk disk r = (fst r, disk, snd r)"

text \<open>The switch over \<open>task.job_type\<close>: the log, the disk and the transaction's result.\<close>

definition run_handler ::
  "(task \<Rightarrow> handler) \<Rightarrow> datetime \<Rightarrow> task \<Rightarrow> string \<Rightarrow> id list \<times> db \<Rightarrow> string \<times> id list \<times> db res" where
  "run_handler package_handlers now t log ds =
     (let jid = task_job_id t; disk = fst ds; d = snd ds;
          with_id = (\<lambda>h. case task_aux_id t of
             None \<Rightarrow> (log, disk, Inl Bad_optional_access) | Some a \<Rightarrow> h a);
          with_id_2 = (\<lambda>h. case task_aux_id_2 t of
             None \<Rightarrow> (log, disk, Inl Bad_optional_access) | Some a \<Rightarrow> h a)
      in case task_type t of
           JUDGE_SUBMISSION \<Rightarrow> with_id (\<lambda>a. on_disk disk (package_handlers t log d))
         | REJUDGE_SUBMISSION \<Rightarrow> with_id (\<lambda>a. on_disk disk (package_handlers t log d))
         | ADD_PROBLEM \<Rightarrow> on_disk disk (package_handlers t log d)
         | REUPLOAD_PROBLEM \<Rightarrow> with_id (\<lambda>a. on_disk disk (package_handlers t log d))
         | RESELECT_FINAL_SUBMISSIONS_IN_CONTEST_PROBLEM \<Rightarrow>
             with_id (\<lambda>a. on_disk disk
               (reselect_final_submissions_in_contest_problem jid a log d))
         | DELETE_USER \<Rightarrow> with_id (\<lambda>a. on_disk disk (delete_user now jid a log d))
         | EDIT_PROBLEM \<Rightarrow> (log, disk, Inl (Throw ''not implemented''))
         | DELETE_PROBLEM \<Rightarrow> with_id (\<lambda>a. on_disk disk (delete_problem now jid a log d))
         | DELETE_CONTEST \<Rightarrow> with_id (\<lambda>a. on_disk disk (delete_contest now jid a log d))
         | DELETE_CONTEST_ROUND \<Rightarrow>
             with_id (\<lambda>a. on_disk disk (delete_contest_round now jid a log d))
         | DELETE_CONTEST_PROBLEM \<Rightarrow>
             with_id (\<lambda>a. on_disk disk (delete_contest_problem now jid a log d))
         | RESET_PROBLEM_TIME_LIMITS_USING_MODEL_SOLUTION \<Rightarrow>
             with_id (\<lambda>a. on_disk disk (package_handlers t log d))
         | MERGE_PROBLEMS \<Rightarrow> with_id (\<lambda>a. with_id_2 (\<lambda>b.
             on_disk disk (merge_problems now jid a b log d)))
         | CHANGE_PROBLEM_STATEMENT \<Rightarrow>
             with_id (\<lambda>a. on_disk disk (package_handlers t log d))
         | MERGE_USERS \<Rightarrow> with_id (\<lambda>a. with_id_2 (\<lambda>b. on_disk disk (merge_users jid a b log d)))
         | DELETE_INTERNAL_FILE \<Rightarrow>
             with_id (\<lambda>a. delete_internal_file jid a log (disk, d)))"

text \<open>
  One attempt. The database may fail a statement or the commit (\<open>db_fault\<close> of the attempt): then,
  as for an exception of the handler, the transaction is rolled back, but what the handler logged
  and unlinked stays.
\<close>

definition attempt ::
  "(task \<Rightarrow> handler) \<Rightarrow> datetime \<Rightarrow> task \<Rightarrow> (nat \<Rightarrow> exn option) \<Rightarrow> nat \<Rightarrow> server \<Rightarrow> server \<times> exn option"
where
  "attempt package_handlers now t db_fault k s =
     (case s of (log, disk, d) \<Rightarrow>
        (case run_handler package_handlers now t log (disk, d) of
           (log', disk', r) \<Rightarrow>
             (case (db_fault k, r) of
                (None, Inr d') \<Rightarrow> ((log', disk', d'), None)
              | (None, Inl e) \<Rightarrow> ((log', disk', d), Some e)
              | (Some e, _) \<Rightarrow> ((log', disk', d), Some e))))"

definition process_task ::
  "(task \<Rightarrow> handler) \<Rightarrow> datetime \<Rightarrow> (nat \<Rightarrow> exn option) \<Rightarrow> task \<Rightarrow> id list \<times> db \<Rightarrow> id list \<times> db"
where
  "process_task package_handlers now db_fault t ds =
     (case repeat_if_deadlocked 128 (attempt package_handlers now t db_fault) ([], ds) of
        ((log, disk, d), None) \<Rightarrow> (disk, d)
      | ((log, disk, d), Some e) \<Rightarrow> (disk, mark_job_as_failed log (task_job_id t) d))"

section \<open>Every task ends\<close>

text \<open>Room for the jobs that any handler inserts.\<close>

definition task_room :: "db \<Rightarrow> nat" where
  "task_room d = length (db_problems d) + (length (db_submissions d) +
     length (db_submissions d)) + length (db_contest_files d)"

definition package_handlers_ok :: "(task \<Rightarrow> handler) \<Rightarrow> bool" where
  "package_handlers_ok h \<longleftrightarrow> (\<forall>t log d log' d'. h t log d = (log', Inr d') \<longrightarrow>
     (job_ids_ok (task_room d) d \<longrightarrow> commits_as (task_job_id t) d d') \<and>
     (keys_ok d \<and> refs_ok d \<longrightarrow> refs_ok d'))"

lemma delete_internal_file_run:
  assumes "delete_internal_file jid fid log (disk, d) = (log', disk', Inr d')"
  shows "job_ids_ok 0 d \<Longrightarrow> commits_as jid d d'"
    and "keys_ok d \<Longrightarrow> refs_ok d \<Longrightarrow> refs_ok d'"
  using delete_internal_file.commits [where d = d] delete_internal_file.refs [where d = d] assms
  by (metis (no_types, lifting) case_prod_conv)+

lemma room_le:
  "length (submission_files p d) \<le> task_room d"
  "length (submission_files p d) + length (map cf_file_id (filter q (db_contest_files d))) \<le> task_room d"
  "length (map problem_file_id (filter r (db_problems d))) + length (submission_files p d) \<le> task_room d"
  "merge_problems_room d \<le> task_room d" "0 \<le> task_room d"
  using submission_files_length [of p d] length_filter_le [of q "db_contest_files d"]
    length_filter_le [of r "db_problems d"]
  unfolding task_room_def merge_problems_room_def length_map by linarith+

text \<open>Every branch of the dispatch keeps the contract.\<close>

lemma run_handler_commits:
  assumes ext: "package_handlers_ok package_handlers"
    and ids: "job_ids_ok (task_room d) d"
    and run: "run_handler package_handlers now t log (disk, d) = (log', disk', Inr d')"
  shows "commits_as (task_job_id t) d d'"
proof -
  note room = job_ids_ok_mono [OF ids]
  note commits = delete_user.commits [OF room [OF room_le(1)]]
    delete_contest.commits [OF room [OF room_le(2)]]
    delete_contest_round.commits [OF room [OF room_le(1)]]
    delete_contest_problem.commits [OF room [OF room_le(1)]]
    delete_problem.commits [OF room [OF room_le(3)]]
    reselect.commits [OF room [OF room_le(5)]]
    merge_users.commits [OF room [OF room_le(5)]]
    merge_problems.commits [OF room [OF room_le(4)]]
    delete_internal_file_run(1) [OF _ room [OF room_le(5)]]
  have ext': "commits_as (task_job_id t) d d'" if "package_handlers t log d = (log', Inr d')"
    using ext ids that unfolding package_handlers_ok_def by blast
  show ?thesis
    using run unfolding run_handler_def Let_def on_disk_def fst_conv snd_conv
    by (cases "task_type t"; cases "task_aux_id t"; cases "task_aux_id_2 t")
      (auto intro: commits ext' simp: prod_eq_iff)
qed

lemma run_handler_refs:
  assumes ext: "package_handlers_ok package_handlers"
    and ok: "keys_ok d" "refs_ok d"
    and run: "run_handler package_handlers now t log (disk, d) = (log', disk', Inr d')"
  shows "refs_ok d'"
proof -
  note refs = delete_user.refs [OF ok] delete_contest.refs [OF ok] delete_contest_round.refs [OF ok]
    delete_contest_problem.refs [OF ok] delete_problem.refs [OF ok] reselect.refs [OF ok]
    merge_users.refs [OF ok] merge_problems.refs [OF ok] delete_internal_file_run(2) [OF _ ok]
  have ext': "refs_ok d'" if "package_handlers t log d = (log', Inr d')"
    using ext ok that unfolding package_handlers_ok_def by blast
  show ?thesis
    using run unfolding run_handler_def Let_def on_disk_def fst_conv snd_conv
    by (cases "task_type t"; cases "task_aux_id t"; cases "task_aux_id_2 t")
      (auto intro: refs ext' simp: prod_eq_iff)
qed

lemma attempt_cases:
  assumes "attempt h now t db_fault k (log, disk, d) = ((log', disk', d'), r)"
  obtains e where "r = Some e" and "d' = d"
    | "r = None" and "run_handler h now t log (disk, d) = (log', disk', Inr d')"
proof -
  obtain log1 disk1 res where run: "run_handler h now t log (disk, d) = (log1, disk1, res)"
    by (cases "run_handler h now t log (disk, d)")
  show thesis
  proof (cases "db_fault k")
    case None
    then show thesis using assms that run by (cases res) (auto simp: attempt_def)
  next
    case (Some e)
    then have "r = Some e" "d' = d" using assms run by (cases res; simp add: attempt_def)+
    then show thesis by (rule that(1))
  qed
qed

text \<open>So either the handler commits on the database as it was found, or the job is failed on it.\<close>

lemma process_task_cases:
  assumes "process_task h now db_fault t (disk, d) = (disk', d')"
  obtains log log' dsk where "run_handler h now t log (dsk, d) = (log', disk', Inr d')"
    | log where "d' = mark_job_as_failed log (task_job_id t) d"
proof -
  have "case repeat_go 0 128 (attempt h now t db_fault) ([], disk, d) of
      (s', None) \<Rightarrow> (\<exists>log log' dsk. run_handler h now t log (dsk, d) =
          (log', fst (snd s'), Inr (snd (snd s'))))
    | (s', Some e) \<Rightarrow> snd (snd s') = d"
  proof (rule repeat_go_cases [where P = "\<lambda>s. snd (snd s) = d"])
    fix k and s s' :: server and e
    assume s: "snd (snd s) = d"
    obtain log0 disk0 where s0: "s = (log0, disk0, d)" using s by (cases s) auto
    obtain log1 disk1 d1 where s1: "s' = (log1, disk1, d1)" by (cases s')
    show "snd (snd s') = d" if "attempt h now t db_fault k s = (s', Some e)"
      using that unfolding s0 s1 by (cases rule: attempt_cases) auto
    show "\<exists>log log' dsk. run_handler h now t log (dsk, d) = (log', fst (snd s'), Inr (snd (snd s')))"
      if "attempt h now t db_fault k s = (s', None)"
      using that unfolding s0 s1 by (cases rule: attempt_cases) auto
  qed simp
  then show thesis
    using assms that unfolding process_task_def repeat_if_deadlocked_def
    by (auto split: prod.splits option.splits)
qed

section \<open>Properties\<close>

text \<open>
  \<open>repeat_if_deadlocked\<close>: when the first \<open>k\<close> calls deadlock, \<open>k\<close> within the limit, and the next
  one ends otherwise (by returning or with another exception), the loop ends with the result of that
  call on the state the deadlocked calls left behind. With \<open>k\<close> equal to the limit also a deadlock is
  passed on, so the function is called at most limit + 1 times.
\<close>

theorem repeat_if_deadlocked_result:
  assumes "\<forall>j < k. snd (func j (after_calls func 0 j s)) = Some Deadlock" and "k \<le> limit"
    and "snd (func k (after_calls func 0 k s)) \<noteq> Some Deadlock \<or> k = limit"
  shows "repeat_if_deadlocked limit func s = func k (after_calls func 0 k s)"
proof (cases "snd (func k (after_calls func 0 k s)) = Some Deadlock")
  case False
  then show ?thesis
    using repeat_go_first_other [of k func 0 s limit] assms by (simp add: repeat_if_deadlocked_def)
next
  case True
  then have k: "k = limit" using assms(3) by simp
  have "repeat_go i limit func s' = func limit (after_calls func i (limit - i) s')"
    if "i \<le> limit"
      and "\<forall>j < limit - i. snd (func (i + j) (after_calls func i j s')) = Some Deadlock"
      and "snd (func limit (after_calls func i (limit - i) s')) = Some Deadlock" for i s'
    using that
  proof (induction "limit - i" arbitrary: i s')
    case 0
    then show ?case by (subst repeat_go.simps) (auto split: prod.splits option.splits)
  next
    case (Suc m)
    then have i: "i < limit" and m: "limit - i = Suc (limit - Suc i)" by simp_all
    obtain s1 where s1: "func i s' = (s1, Some Deadlock)"
      using Suc.prems(2) i by (cases "func i s'") force
    have "repeat_go (Suc i) limit func s1 = func limit (after_calls func (Suc i) (limit - Suc i) s1)"
    proof (rule Suc.hyps(1))
      show "\<forall>j < limit - Suc i. snd (func (Suc i + j) (after_calls func (Suc i) j s1)) = Some Deadlock"
      proof (intro allI impI)
        fix j assume "j < limit - Suc i"
        then have "snd (func (i + Suc j) (after_calls func i (Suc j) s')) = Some Deadlock"
          using Suc.prems(2) i by (metis Suc_diff_Suc Suc_less_eq)
        then show "snd (func (Suc i + j) (after_calls func (Suc i) j s1)) = Some Deadlock"
          using s1 by simp
      qed
    qed (use Suc i m s1 in simp_all)
    then show ?case using s1 i m by (subst repeat_go.simps) simp
  qed
  from this [of 0 s] show ?thesis
    using assms True k by (simp add: repeat_if_deadlocked_def)
qed

text \<open>Two deadlocks, then success: the function counts its calls.\<close>

definition sample_func :: "nat \<Rightarrow> nat \<Rightarrow> nat \<times> exn option" where
  "sample_func k s = (Suc s, if k < 2 then Some Deadlock else None)"

lemma repeat_if_deadlocked_result_witness:
  "repeat_if_deadlocked 128 sample_func 0 = (3, None)"
proof -
  have "\<forall>j < 2. snd (sample_func j (after_calls sample_func 0 j 0)) = Some Deadlock"
    by (simp add: sample_func_def)
  from repeat_if_deadlocked_result [of 2 sample_func 0 128, OF this] show ?thesis
    by (simp add: sample_func_def numeral_2_eq_2)
qed


text \<open>A database with one user, one problem of his, and a job that deletes the user.\<close>

definition sample_delete_db :: db where
  "sample_delete_db = empty_db
     \<lparr> db_users := [\<lparr> user_id = 7, user_created_at = ''2024-01-01 00:00:00'',
         user_type = User_NORMAL, username = ''bob'', first_name = ''B'', last_name = ''B'',
         email = ''b@b'', password_salt = [], password_hash = [] \<rparr>],
       db_problems := [\<lparr> problem_id = 3, problem_created_at = ''2024-01-01 00:00:00'',
         problem_file_id = 11, problem_visibility = PRIVATE, problem_name = ''p'',
         problem_label = ''p'', problem_simfile = [], problem_owner_id = Some 7,
         problem_updated_at = ''2024-01-01 00:00:00'' \<rparr>],
       db_submissions := [sample_submission\<lparr>sub_cp_id := None, sub_round_id := None,
         sub_contest_id := None\<rparr>],
       db_jobs := [sample_job\<lparr>job_type := DELETE_USER, job_aux_id := Some 7\<rparr>],
       db_next_job_id := 10 \<rparr>"

definition sample_delete_task :: task where
  "sample_delete_task = \<lparr> task_job_id = 9, task_type = DELETE_USER, task_aux_id = Some 7,
     task_aux_id_2 = None \<rparr>"

definition no_packages :: "task \<Rightarrow> handler" where
  "no_packages t log d = (log, Inl (Throw ''no package''))"

lemma no_packages_ok: "package_handlers_ok no_packages"
  by (simp add: package_handlers_ok_def no_packages_def)

lemma sample_delete_ok: "job_ids_ok (task_room sample_delete_db) sample_delete_db"
  "keys_ok sample_delete_db" "refs_ok sample_delete_db"
  by (simp_all add: sample_delete_db_def job_ids_ok_def task_room_def keys_ok_def refs_ok_def
      refs_defs ids_defs empty_db_def sample_job_def sample_submission_def)

definition sample_busy :: sched where
  "sample_busy = (sched_init 1 [])\<lparr>db_job_rows := db_jobs sample_delete_db,
     worker := (\<lambda>w. W_waiting)(0 := W_processing sample_delete_task False)\<rparr>"




end
