(* ===== verification/Handler_Effects.thy ===== *)
theory Handler_Effects
  imports Process_Task
begin

text \<open>
  What the job handlers achieve: the deletions schedule the removal of exactly the files of the
  rows that disappear, the merges move everything from the donor to the target, and the
  reselection leaves the finals of a contest problem as \<open>update_final\<close> defines them.
\<close>

section \<open>Files of deleted rows\<close>

text \<open>The files that the jobs inserted by a handler are to delete.\<close>

definition scheduled_files :: "db \<Rightarrow> db \<Rightarrow> id set" where
  "scheduled_files d d' =
     {f. \<exists>j \<in> set (drop (length (db_jobs d)) (db_jobs d')).
           job_type j = DELETE_INTERNAL_FILE \<and> job_status j = Job_PENDING \<and> job_aux_id j = Some f}"

text \<open>The files of the rows that are gone.\<close>

definition orphaned_files :: "db \<Rightarrow> db \<Rightarrow> id set" where
  "orphaned_files d d' =
     sub_file_id ` {s \<in> set (db_submissions d). sub_id s \<notin> sub_id ` set (db_submissions d')} \<union>
     cf_file_id ` {f \<in> set (db_contest_files d). cf_id f \<notin> cf_id ` set (db_contest_files d')} \<union>
     problem_file_id ` {p \<in> set (db_problems d). problem_id p \<notin> problem_ids d'}"

text \<open>
  A submission to a contest problem names the round and the contest of that contest problem, and a
  contest problem names the contest of its round: what the program stores when it creates them.
\<close>

definition contests_consistent :: "db \<Rightarrow> bool" where
  "contests_consistent d \<longleftrightarrow>
     (\<forall>s \<in> set (db_submissions d).
        case sub_cp_id s of
          None \<Rightarrow> sub_round_id s = None \<and> sub_contest_id s = None
        | Some c \<Rightarrow> (\<exists>p \<in> set (db_contest_problems d). cp_id p = c \<and>
            sub_round_id s = Some (cp_round_id p) \<and> sub_contest_id s = Some (cp_contest_id p))) \<and>
     (\<forall>p \<in> set (db_contest_problems d). \<exists>r \<in> set (db_contest_rounds d).
        round_id r = cp_round_id p \<and> round_contest_id r = cp_contest_id p)"

lemma drop_mark:
  "drop k (db_jobs (set_job_status_and_log st log jid d)) =
     update_where (\<lambda>j. job_id j = jid) (\<lambda>j. j\<lparr>job_status := st, job_log := log\<rparr>)
       (drop k (db_jobs d))"
  by (simp add: set_job_status_and_log_def update_where_def drop_map)

lemma scheduled_now: "scheduled_files d (set_job_status_and_log st log jid d) = {}"
  by (simp add: scheduled_files_def drop_mark)

lemma mark_fields [simp]:
  "db_submissions (set_job_status_and_log st log jid d) = db_submissions d"
  "db_contest_files (set_job_status_and_log st log jid d) = db_contest_files d"
  "db_problems (set_job_status_and_log st log jid d) = db_problems d"
  "problem_ids (set_job_status_and_log st log jid d) = problem_ids d"
  "db_contest_problems (set_job_status_and_log st log jid d) = db_contest_problems d"
  "db_contest_users (set_job_status_and_log st log jid d) = db_contest_users d"
  "db_users (set_job_status_and_log st log jid d) = db_users d"
  "db_sessions (set_job_status_and_log st log jid d) = db_sessions d"
  by (simp_all add: set_job_status_and_log_def problem_ids_def)

lemma orphaned_now: "orphaned_files d (set_job_status_and_log st log jid d) = {}"
  by (auto simp: orphaned_files_def problem_ids_def)

text \<open>Jobs with new ids: marking the handler's own job does not touch them.\<close>

lemma scheduled_insert:
  assumes jobs: "db_jobs d1 = db_jobs d @ js" and own: "jid \<in> job_id ` set (db_jobs d)"
    and dist: "distinct (map job_id (db_jobs d1))"
    and new: "map job_aux_id js = map Some xs"
      "\<forall>j \<in> set js. job_type j = DELETE_INTERNAL_FILE \<and> job_status j = Job_PENDING"
  shows "scheduled_files d (set_job_status_and_log st log jid d1) = set xs"
proof -
  have "jid \<notin> job_id ` set js" using own dist unfolding jobs by auto
  then have "drop (length (db_jobs d)) (db_jobs (set_job_status_and_log st log jid d1)) = js"
    unfolding drop_mark jobs by (simp, subst update_where_none) auto
  then have "scheduled_files d (set_job_status_and_log st log jid d1) =
      {f. \<exists>j \<in> set js. job_type j = DELETE_INTERNAL_FILE \<and> job_status j = Job_PENDING \<and>
        job_aux_id j = Some f}"
    unfolding scheduled_files_def by (rule arg_cong)
  also have "\<dots> = {f. Some f \<in> set (map job_aux_id js)}" using new(2) by force
  finally show ?thesis unfolding new(1) by auto
qed

lemma scheduled_insert_jobs_for:
  assumes "job_ids_ok (length xs) d" and "jid \<in> job_id ` set (db_jobs d)"
    and "db_jobs d1 = db_jobs (insert_jobs_for now DELETE_INTERNAL_FILE xs d)"
  shows "scheduled_files d (set_job_status_and_log st log jid d1) = set xs"
proof -
  obtain js where js: "db_jobs d1 = db_jobs d @ js" "map job_aux_id js = map Some xs"
    "\<forall>j \<in> set js. job_type j = DELETE_INTERNAL_FILE \<and> job_status j = Job_PENDING"
    using insert_jobs_for_jobs [of now DELETE_INTERNAL_FILE xs d] assms(3) by auto
  have "distinct (map job_id (db_jobs d1))"
    using job_ids_ok_insert_jobs_for [of xs 0 d now DELETE_INTERNAL_FILE] assms(1)
    by (simp add: job_ids_ok_def assms(3))
  then show ?thesis by (rule scheduled_insert [OF js(1) assms(2) _ js(2,3)])
qed

lemma insert_jobs_for_append:
  "insert_jobs_for now t (xs @ ys) d = insert_jobs_for now t ys (insert_jobs_for now t xs d)"
  by (induction now t xs d rule: insert_jobs_for.induct) simp_all

text \<open>Which submissions go with a contest, a round, a contest problem, in a consistent database.\<close>

lemma consistentD:
  assumes "contests_consistent d" and "s \<in> set (db_submissions d)"
  obtains "sub_cp_id s = None" and "sub_round_id s = None" and "sub_contest_id s = None"
    | p r where "p \<in> set (db_contest_problems d)" and "sub_cp_id s = Some (cp_id p)"
      and "sub_round_id s = Some (cp_round_id p)" and "sub_contest_id s = Some (cp_contest_id p)"
      and "r \<in> set (db_contest_rounds d)" and "round_id r = cp_round_id p"
      and "round_contest_id r = cp_contest_id p"
proof (cases "sub_cp_id s")
  case None
  then show ?thesis using assms that(1) unfolding contests_consistent_def by fastforce
next
  case (Some c)
  then obtain p where "p \<in> set (db_contest_problems d)" "cp_id p = c"
    "sub_round_id s = Some (cp_round_id p)" "sub_contest_id s = Some (cp_contest_id p)"
    using assms unfolding contests_consistent_def by fastforce
  moreover from this obtain r where "r \<in> set (db_contest_rounds d)" "round_id r = cp_round_id p"
    "round_contest_id r = cp_contest_id p"
    using assms(1) unfolding contests_consistent_def by blast
  ultimately show ?thesis using that(2) Some by blast
qed


section \<open>What the deletions delete\<close>

lemma gone_ids:
  assumes "distinct (map k rs)" and "set rs' = {r \<in> set rs. \<not> p r}"
  shows "{r \<in> set rs. k r \<notin> k ` set rs'} = {r \<in> set rs. p r}"
  using assms(2) distinct_key_eq [OF assms(1)] by auto

lemma gone_none:
  assumes "map k rs' = map k rs"
  shows "{r \<in> set rs. k r \<notin> k ` set rs'} = {}"
  using arg_cong [OF assms, of set] by auto

lemma the_found: "find (\<lambda>r. k r = i) rs = Some x \<Longrightarrow> k ` {r \<in> set rs. k r = i} = {i}"
  by (auto dest: find_key_Some)

lemma case_mem: "(case x of None \<Rightarrow> False | Some c \<Rightarrow> c \<in> A) \<longleftrightarrow> x \<in> Some ` A"
  by (cases x) auto

lemma delete_user_rows:
  assumes "find_user d uid = Some u"
  shows "set (db_submissions (delete_users_where (\<lambda>x. user_id x = uid) d)) =
      {s \<in> set (db_submissions d). \<not> sub_user_id s = Some uid}"
    and "map cf_id (db_contest_files (delete_users_where (\<lambda>x. user_id x = uid) d)) =
      map cf_id (db_contest_files d)"
    and "problem_ids (delete_users_where (\<lambda>x. user_id x = uid) d) = problem_ids d"
  using the_found [OF assms [unfolded find_user_def]]
  by (auto simp: delete_users_where_def Let_def problem_ids_def image_image split: option.splits)

lemma delete_contest_problem_rows:
  assumes "find (\<lambda>p. cp_id p = i) (db_contest_problems d) = Some p"
  shows "set (db_submissions (delete_contest_problems_where (\<lambda>x. cp_id x = i) d)) =
      {s \<in> set (db_submissions d). \<not> sub_cp_id s = Some i}"
  using the_found [OF assms]
  by (auto simp: delete_contest_problems_where_def Let_def split: option.splits)

lemma delete_contest_round_rows:
  assumes "find (\<lambda>r. round_id r = i) (db_contest_rounds d) = Some r" and "contests_consistent d"
    and "distinct (map cp_id (db_contest_problems d))"
  shows "set (db_submissions (delete_contest_rounds_where (\<lambda>x. round_id x = i) d)) =
      {s \<in> set (db_submissions d). \<not> sub_round_id s = Some i}"
proof -
  let ?C = "cp_id ` {c \<in> set (db_contest_problems d). cp_round_id c = i}"
  have sub: "sub_round_id s = Some i" if "s \<in> set (db_submissions d)" "sub_cp_id s \<in> Some ` ?C" for s
    using assms(2) that(1)
  proof (cases rule: consistentD)
    case 1
    then show ?thesis using that(2) by auto
  next
    case (2 p r)
    then have "cp_id p \<in> ?C" using that(2) by auto
    then obtain c where c: "c \<in> set (db_contest_problems d)" "cp_round_id c = i" "cp_id p = cp_id c"
      by auto
    have "p = c" by (rule distinct_key_eq [OF assms(3) 2(1) c(1,3)])
    then show ?thesis using 2(3) c(2) by simp
  qed
  have "set (db_submissions (delete_contest_rounds_where (\<lambda>x. round_id x = i) d)) =
      {s \<in> set (db_submissions d). sub_cp_id s \<notin> Some ` ?C \<and> sub_round_id s \<noteq> Some i}"
    unfolding delete_contest_rounds_where_def delete_contest_problems_where_def Let_def case_mem
      the_found [OF assms(1)]
    by simp
  then show ?thesis using sub by auto
qed

text \<open>
  Deleting a contest takes the submissions of its contest problems and rounds too; they all name
  the contest.
\<close>

lemma delete_contest_rows:
  assumes "find (\<lambda>c. contest_id c = i) (db_contests d) = Some c" and "contests_consistent d"
    and keys: "keys_ok d"
  shows "set (db_submissions (delete_contests_where (\<lambda>x. contest_id x = i) d)) =
      {s \<in> set (db_submissions d). \<not> sub_contest_id s = Some i}"
    and "set (db_contest_files (delete_contests_where (\<lambda>x. contest_id x = i) d)) =
      {f \<in> set (db_contest_files d). \<not> cf_contest_id f = i}"
    and "problem_ids (delete_contests_where (\<lambda>x. contest_id x = i) d) = problem_ids d"
proof -
  let ?R = "round_id ` {r \<in> set (db_contest_rounds d). round_contest_id r = i}"
  let ?C = "cp_id ` {c \<in> set (db_contest_problems d). cp_round_id c \<in> ?R}"
  let ?D = "cp_id ` {c \<in> {c \<in> set (db_contest_problems d). cp_round_id c \<notin> ?R}. cp_contest_id c = i}"
  have cps: "distinct (map cp_id (db_contest_problems d))"
    and rounds: "distinct (map round_id (db_contest_rounds d))"
    using keys by (simp_all add: keys_ok_def)
  have sub: "sub_contest_id s = Some i"
    if s: "s \<in> set (db_submissions d)"
      and "sub_cp_id s \<in> Some ` ?C \<or> sub_round_id s \<in> Some ` ?R \<or> sub_cp_id s \<in> Some ` ?D" for s
    using assms(2) s
  proof (cases rule: consistentD)
    case 1
    then show ?thesis using that(2) by auto
  next
    case (2 p r)
    have same_cp: "c = p" if "c \<in> set (db_contest_problems d)" "cp_id p = cp_id c" for c
      using distinct_key_eq [OF cps 2(1) that] by simp
    have same_round: "q = r" if "q \<in> set (db_contest_rounds d)" "cp_round_id p = round_id q" for q
      using distinct_key_eq [OF rounds that(1) 2(5)] that(2) 2(6) by simp
    have "cp_id p \<in> ?C \<or> cp_round_id p \<in> ?R \<or> cp_id p \<in> ?D"
      using that(2) unfolding 2(2,3) by auto
    then consider "cp_id p \<in> ?C" | "cp_round_id p \<in> ?R" | "cp_id p \<in> ?D" by blast
    then have "cp_contest_id p = i"
    proof cases
      case 1
      then have "cp_round_id p \<in> ?R" using same_cp by auto
      then show ?thesis using same_round 2(7) by auto
    next
      case 2
      then show ?thesis using same_round \<open>round_contest_id r = cp_contest_id p\<close> by auto
    next
      case 3
      then show ?thesis using same_cp by auto
    qed
    then show ?thesis using 2(4) by simp
  qed
  have "set (db_submissions (delete_contests_where (\<lambda>x. contest_id x = i) d)) =
      {s \<in> set (db_submissions d). sub_cp_id s \<notin> Some ` ?C \<and> sub_round_id s \<notin> Some ` ?R \<and>
         sub_cp_id s \<notin> Some ` ?D \<and> sub_contest_id s \<notin> Some ` {i}}"
    unfolding delete_contests_where_def delete_contest_rounds_where_def
      delete_contest_problems_where_def Let_def case_mem the_found [OF assms(1)]
    by (simp cong: conj_cong)
  then show "set (db_submissions (delete_contests_where (\<lambda>x. contest_id x = i) d)) =
      {s \<in> set (db_submissions d). \<not> sub_contest_id s = Some i}"
    using sub by auto
  show "set (db_contest_files (delete_contests_where (\<lambda>x. contest_id x = i) d)) =
      {f \<in> set (db_contest_files d). \<not> cf_contest_id f = i}"
    "problem_ids (delete_contests_where (\<lambda>x. contest_id x = i) d) = problem_ids d"
    unfolding delete_contests_where_def delete_contest_rounds_where_def
      delete_contest_problems_where_def Let_def the_found [OF assms(1)] problem_ids_def
    by simp_all
qed

lemma delete_problem_rows:
  assumes "find_problem d i = Some p" and "\<forall>c \<in> set (db_contest_problems d). cp_problem_id c \<noteq> i"
  shows "set (db_submissions (delete_problems_where (\<lambda>x. problem_id x = i) d)) =
      {s \<in> set (db_submissions d). \<not> sub_problem_id s = i}"
    and "db_contest_files (delete_problems_where (\<lambda>x. problem_id x = i) d) = db_contest_files d"
    and "problem_ids (delete_problems_where (\<lambda>x. problem_id x = i) d) = problem_ids d - {i}"
  using the_found [OF assms(1) [unfolded find_problem_def]] assms(2)
  by (auto simp: delete_problems_where_def delete_contest_problems_where_def Let_def problem_ids_def
      split: option.splits)


section \<open>No file is leaked\<close>

lemma orphaned_submissions:
  assumes keys: "keys_ok d" and "set (db_submissions d1) = {s \<in> set (db_submissions d). \<not> p s}"
    and "map cf_id (db_contest_files d1) = map cf_id (db_contest_files d)"
    and "problem_ids d1 = problem_ids d"
  shows "orphaned_files d (set_job_status_and_log st log jid d1) = set (submission_files p d)"
proof -
  have "distinct (map sub_id (db_submissions d))" using keys by (simp add: keys_ok_def)
  note subs = gone_ids [OF this assms(2)]
  have "{x \<in> set (db_problems d). problem_id x \<notin> problem_ids d} = {}"
    by (auto simp: problem_ids_def)
  then show ?thesis
    unfolding orphaned_files_def mark_fields subs gone_none [OF assms(3)] assms(4)
    by (auto simp: submission_files_def)
qed

lemma leak_delete_user:
  assumes "keys_ok d" and "job_ids_ok (task_room d) d" and "jid \<in> job_id ` set (db_jobs d)"
    and "delete_user now jid uid log d = (log', Inr d')"
  shows "orphaned_files d d' = scheduled_files d d'"
proof (cases "find_user d uid")
  case None
  then show ?thesis
    using assms(4) by (auto simp: delete_user_def handler_defs orphaned_now scheduled_now)
next
  case (Some u)
  let ?fs = "submission_files (\<lambda>s. sub_user_id s = Some uid) d"
  let ?d1 = "insert_jobs_for now DELETE_INTERNAL_FILE ?fs d"
  have d': "d' = set_job_status_and_log Job_DONE log' jid (delete_users_where (\<lambda>x. user_id x = uid) ?d1)"
    using assms(4) Some by (auto simp: delete_user_def handler_defs)
  have "find_user ?d1 uid = Some u" using Some by (simp add: find_user_def)
  note rows = delete_user_rows [OF this]
  have "orphaned_files d d' = set ?fs"
    unfolding d' by (rule orphaned_submissions [OF assms(1)])
      (use rows in \<open>simp_all add: problem_ids_def\<close>)
  moreover have "scheduled_files d d' = set ?fs"
    unfolding d'
    by (rule scheduled_insert_jobs_for [OF job_ids_ok_mono [OF assms(2) room_le(1)] assms(3)]) simp
  ultimately show ?thesis by simp
qed

lemma leak_delete_contest_problem:
  assumes "keys_ok d" and "job_ids_ok (task_room d) d" and "jid \<in> job_id ` set (db_jobs d)"
    and "delete_contest_problem now jid cpid log d = (log', Inr d')"
  shows "orphaned_files d d' = scheduled_files d d'"
proof (cases "select_contest_problem cpid d")
  case None
  then show ?thesis
    using assms(4) by (auto simp: delete_contest_problem_def handler_defs orphaned_now scheduled_now)
next
  case (Some x)
  obtain p r c where x: "x = (p, r, c)" by (cases x)
  let ?fs = "submission_files (\<lambda>s. sub_cp_id s = Some cpid) d"
  let ?d1 = "insert_jobs_for now DELETE_INTERNAL_FILE ?fs d"
  have d': "d' = set_job_status_and_log Job_DONE log' jid
      (delete_contest_problems_where (\<lambda>x. cp_id x = cpid) ?d1)"
    using assms(4) Some x by (auto simp: delete_contest_problem_def handler_defs)
  have "find (\<lambda>p. cp_id p = cpid) (db_contest_problems ?d1) = Some p"
    using Some x by (auto simp: select_contest_problem_def split: option.splits)
  note rows = delete_contest_problem_rows [OF this]
  have "orphaned_files d d' = set ?fs"
    unfolding d' by (rule orphaned_submissions [OF assms(1)])
      (use rows in \<open>simp_all add: problem_ids_def\<close>)
  moreover have "scheduled_files d d' = set ?fs"
    unfolding d'
    by (rule scheduled_insert_jobs_for [OF job_ids_ok_mono [OF assms(2) room_le(1)] assms(3)]) simp
  ultimately show ?thesis by simp
qed

lemma consistent_insert: "contests_consistent (insert_jobs_for now t xs d) = contests_consistent d"
  by (simp add: contests_consistent_def cong: option.case_cong)

lemma leak_delete_contest_round:
  assumes "keys_ok d" and "job_ids_ok (task_room d) d" and "jid \<in> job_id ` set (db_jobs d)"
    and "contests_consistent d" and "delete_contest_round now jid rid log d = (log', Inr d')"
  shows "orphaned_files d d' = scheduled_files d d'"
proof (cases "select_round rid d")
  case None
  then show ?thesis
    using assms(5) by (auto simp: delete_contest_round_def handler_defs orphaned_now scheduled_now)
next
  case (Some x)
  obtain r c where x: "x = (r, c)" by (cases x)
  let ?fs = "submission_files (\<lambda>s. sub_round_id s = Some rid) d"
  let ?d1 = "insert_jobs_for now DELETE_INTERNAL_FILE ?fs d"
  have d': "d' = set_job_status_and_log Job_DONE log' jid
      (delete_contest_rounds_where (\<lambda>x. round_id x = rid) ?d1)"
    using assms(5) Some x by (auto simp: delete_contest_round_def handler_defs)
  have "find (\<lambda>r. round_id r = rid) (db_contest_rounds ?d1) = Some r"
    using Some x by (auto simp: select_round_def split: option.splits)
  note rows = delete_contest_round_rows [OF this]
  have rows: "set (db_submissions (delete_contest_rounds_where (\<lambda>x. round_id x = rid) ?d1)) =
      {s \<in> set (db_submissions ?d1). \<not> sub_round_id s = Some rid}"
    by (rule rows) (use assms(1,4) in \<open>simp_all add: consistent_insert keys_ok_def\<close>)
  have "orphaned_files d d' = set ?fs"
    unfolding d' by (rule orphaned_submissions [OF assms(1)])
      (use rows in \<open>simp_all add: problem_ids_def\<close>)
  moreover have "scheduled_files d d' = set ?fs"
    unfolding d'
    by (rule scheduled_insert_jobs_for [OF job_ids_ok_mono [OF assms(2) room_le(1)] assms(3)]) simp
  ultimately show ?thesis by simp
qed

lemma leak_delete_contest:
  assumes "keys_ok d" and "job_ids_ok (task_room d) d" and "jid \<in> job_id ` set (db_jobs d)"
    and "contests_consistent d" and "delete_contest now jid cid log d = (log', Inr d')"
  shows "orphaned_files d d' = scheduled_files d d'"
proof (cases "find (\<lambda>c. contest_id c = cid) (db_contests d)")
  case None
  then show ?thesis
    using assms(5) by (auto simp: delete_contest_def handler_defs orphaned_now scheduled_now)
next
  case (Some c)
  let ?fs = "submission_files (\<lambda>s. sub_contest_id s = Some cid) d"
  let ?gs = "map cf_file_id (filter (\<lambda>f. cf_contest_id f = cid) (db_contest_files d))"
  let ?d1 = "insert_jobs_for now DELETE_INTERNAL_FILE (?fs @ ?gs) d"
  have d': "d' = set_job_status_and_log Job_DONE log' jid
      (delete_contests_where (\<lambda>x. contest_id x = cid) ?d1)"
    using assms(5) Some by (auto simp: delete_contest_def handler_defs insert_jobs_for_append)
  have "find (\<lambda>c. contest_id c = cid) (db_contests ?d1) = Some c" using Some by simp
  note rows = delete_contest_rows [OF this]
  have keys: "keys_ok ?d1"
    using assms(1) job_ids_ok_insert_jobs_for [of "?fs @ ?gs" 0 d now DELETE_INTERNAL_FILE]
      job_ids_ok_mono [OF assms(2) room_le(2)]
    by (simp add: keys_ok_def job_ids_ok_def)
  have cons: "contests_consistent ?d1" using assms(4) by (simp add: consistent_insert)
  note rows = rows [OF cons keys]
  have "orphaned_files d d' = set ?fs \<union> set ?gs"
    using gone_ids [of sub_id "db_submissions d" "db_submissions d'" "\<lambda>s. sub_contest_id s = Some cid"]
      gone_ids [of cf_id "db_contest_files d" "db_contest_files d'" "\<lambda>f. cf_contest_id f = cid"]
      rows assms(1)
    unfolding d' by (auto simp: orphaned_files_def submission_files_def problem_ids_def keys_ok_def)
  moreover have "scheduled_files d d' = set (?fs @ ?gs)"
    unfolding d'
    by (rule scheduled_insert_jobs_for [OF job_ids_ok_mono [OF assms(2)] assms(3)])
      (use room_le(2) in simp_all)
  ultimately show ?thesis by simp
qed


lemma leak_delete_problem:
  assumes "keys_ok d" and "job_ids_ok (task_room d) d" and "jid \<in> job_id ` set (db_jobs d)"
    and "delete_problem now jid pid log d = (log', Inr d')"
  shows "orphaned_files d d' = scheduled_files d d'"
proof (cases "(\<exists>c \<in> set (db_contest_problems d). cp_problem_id c = pid) \<or> find_problem d pid = None")
  case True
  then show ?thesis
    using assms(4)
    by (auto simp: delete_problem_def handler_defs orphaned_now scheduled_now split: if_splits)
next
  case False
  then obtain p where p: "find_problem d pid = Some p"
    and cps: "\<forall>c \<in> set (db_contest_problems d). cp_problem_id c \<noteq> pid" by auto
  let ?fs = "submission_files (\<lambda>s. sub_problem_id s = pid) d"
  let ?gs = "map problem_file_id (filter (\<lambda>x. problem_id x = pid) (db_problems d))"
  let ?d1 = "insert_jobs_for now DELETE_INTERNAL_FILE (?gs @ ?fs) d"
  have d': "d' = set_job_status_and_log Job_DONE log' jid
      (delete_problems_where (\<lambda>x. problem_id x = pid) ?d1)"
    using assms(4) p cps by (auto simp: delete_problem_def handler_defs insert_jobs_for_append)
  have "find_problem ?d1 pid = Some p" using p by (simp add: find_problem_def)
  note rows = delete_problem_rows [OF this]
  have rows: "set (db_submissions (delete_problems_where (\<lambda>x. problem_id x = pid) ?d1)) =
      {s \<in> set (db_submissions d). \<not> sub_problem_id s = pid}"
    "db_contest_files (delete_problems_where (\<lambda>x. problem_id x = pid) ?d1) = db_contest_files d"
    "problem_ids (delete_problems_where (\<lambda>x. problem_id x = pid) ?d1) = problem_ids d - {pid}"
    using rows cps by (simp_all add: problem_ids_def)
  have "distinct (map sub_id (db_submissions d))" using assms(1) by (simp add: keys_ok_def)
  note subs = gone_ids [OF this rows(1)]
  have probs: "{x \<in> set (db_problems d). problem_id x \<notin> problem_ids d - {pid}} =
      {x \<in> set (db_problems d). problem_id x = pid}"
    by (auto simp: problem_ids_def)
  have files: "{f \<in> set (db_contest_files d). cf_id f \<notin> cf_id ` set (db_contest_files d)} = {}"
    by auto
  have "orphaned_files d d' = set ?fs \<union> set ?gs"
    unfolding d' orphaned_files_def mark_fields rows(2,3) subs probs files
    by (simp add: submission_files_def)
  moreover have "scheduled_files d d' = set (?gs @ ?fs)"
    unfolding d'
    by (rule scheduled_insert_jobs_for [OF job_ids_ok_mono [OF assms(2)] assms(3)])
      (use room_le(3) in simp_all)
  ultimately show ?thesis by auto
qed

section \<open>Merging users: what the target gets\<close>

text \<open>The mode a user has in a contest, if he is a contest user.\<close>

definition mode_in :: "contest_user list \<Rightarrow> id \<Rightarrow> id \<Rightarrow> contest_user_mode option" where
  "mode_in cus uid cid =
     map_option cu_mode (find (\<lambda>c. cu_user_id c = uid \<and> cu_contest_id c = cid) cus)"

fun max_mode :: "contest_user_mode option \<Rightarrow> contest_user_mode option \<Rightarrow> contest_user_mode option" where
  "max_mode None y = y"
| "max_mode x None = x"
| "max_mode (Some x) (Some y) = Some (max x y)"

lemma find_append:
  "find P (xs @ ys) = (case find P xs of None \<Rightarrow> find P ys | Some x \<Rightarrow> Some x)"
  by (induction xs) auto

lemma mode_in_None:
  "mode_in cus u i = None \<longleftrightarrow> (\<forall>c \<in> set cus. \<not> (cu_user_id c = u \<and> cu_contest_id c = i))"
  by (auto simp: mode_in_def find_None_iff)

lemma mode_in_SomeD:
  "mode_in cus u i = Some m \<Longrightarrow>
   \<exists>c \<in> set cus. cu_user_id c = u \<and> cu_contest_id c = i \<and> m = cu_mode c"
  by (induction cus) (auto simp: mode_in_def split: if_splits)

lemma mode_in_snoc:
  "mode_in (cus @ [n]) u i = (case mode_in cus u i of None \<Rightarrow>
     (if cu_user_id n = u \<and> cu_contest_id n = i then Some (cu_mode n) else None) | Some m \<Rightarrow> Some m)"
  by (simp add: mode_in_def find_append split: option.split)

lemma mode_in_Cons:
  "mode_in (n # ns) u i =
     (if cu_user_id n = u \<and> cu_contest_id n = i then Some (cu_mode n) else mode_in ns u i)"
  by (simp add: mode_in_def)

lemma mode_in_insert_ignore:
  "mode_in (insert_ignore_contest_users ns cus) u i =
    (case mode_in cus u i of None \<Rightarrow> mode_in ns u i | Some m \<Rightarrow> Some m)"
proof (induction ns cus rule: insert_ignore_contest_users.induct)
  case (1 cus)
  then show ?case by (simp add: mode_in_def split: option.split)
next
  case (2 n ns cus)
  let ?cus = "if \<exists>c \<in> set cus. cu_user_id c = cu_user_id n \<and> cu_contest_id c = cu_contest_id n
    then cus else cus @ [n]"
  have "mode_in ?cus u i = (case mode_in cus u i of None \<Rightarrow>
      (if cu_user_id n = u \<and> cu_contest_id n = i then Some (cu_mode n) else None) | Some m \<Rightarrow> Some m)"
  proof (cases "\<exists>c \<in> set cus. cu_user_id c = cu_user_id n \<and> cu_contest_id c = cu_contest_id n")
    case True
    then have some: "mode_in cus (cu_user_id n) (cu_contest_id n) \<noteq> None"
      unfolding mode_in_None by blast
    show ?thesis unfolding if_P [OF True] using some
      by (cases "mode_in cus u i"; cases "cu_user_id n = u \<and> cu_contest_id n = i") auto
  next
    case False
    show ?thesis unfolding if_not_P [OF False] by (rule mode_in_snoc)
  qed
  then have "mode_in (insert_ignore_contest_users ns ?cus) u i =
      (case mode_in cus u i of None \<Rightarrow> mode_in (n # ns) u i | Some m \<Rightarrow> Some m)"
    unfolding 2 by (cases "mode_in cus u i") (simp_all add: mode_in_Cons)
  then show ?case by (simp only: insert_ignore_contest_users.simps)
qed

text \<open>Raising the target's modes.\<close>

lemma mode_in_unique:
  assumes "distinct (map (\<lambda>c. (cu_user_id c, cu_contest_id c)) cus)"
    and "c \<in> set cus"
  shows "mode_in cus (cu_user_id c) (cu_contest_id c) = Some (cu_mode c)"
  using find_key_iff [of "\<lambda>c. (cu_user_id c, cu_contest_id c)" cus
      "(cu_user_id c, cu_contest_id c)" c] assms
  by (simp add: mode_in_def)

lemma mode_in_raise_modes:
  assumes dist: "distinct (map (\<lambda>c. (cu_user_id c, cu_contest_id c)) cus)"
  shows "mode_in (raise_modes donor target cus) u i =
    (case mode_in cus u i of
       None \<Rightarrow> None
     | Some m \<Rightarrow> if u = target then max_mode (Some m) (mode_in cus donor i) else Some m)"
proof (cases "mode_in cus u i")
  case None
  then have "mode_in (raise_modes donor target cus) u i = None"
    unfolding mode_in_None by (metis raise_modes_mem)
  then show ?thesis using None by simp
next
  case (Some m)
  then obtain c where c: "c \<in> set cus" "cu_user_id c = u" "cu_contest_id c = i" "m = cu_mode c"
    using mode_in_SomeD by metis
  define f :: "contest_user \<Rightarrow> contest_user" where "f t = (if cu_user_id t = target
      then (case find (\<lambda>c. cu_contest_id c = cu_contest_id t \<and> cu_user_id c = donor \<and>
                cu_mode t < cu_mode c) cus of
              None \<Rightarrow> t | Some c \<Rightarrow> t\<lparr>cu_mode := cu_mode c\<rparr>) else t)" for t
  have rm: "raise_modes donor target cus = map f cus" by (simp add: raise_modes_def f_def)
  have keys: "cu_user_id (f c) = u" "cu_contest_id (f c) = i"
    using c by (auto simp: f_def split: option.split)
  have "distinct (map (\<lambda>c. (cu_user_id c, cu_contest_id c)) (map f cus))"
    using dist raise_modes_keys [of donor target cus] unfolding rm by metis
  from mode_in_unique [OF this, of "f c"] c(1) keys
  have new: "mode_in (raise_modes donor target cus) u i = Some (cu_mode (f c))" by (simp add: rm)
  have "cu_mode (f c) = (if u = target then the (max_mode (Some m) (mode_in cus donor i)) else m)"
  proof (cases "u = target")
    case False
    then show ?thesis using c by (simp add: f_def)
  next
    case True
    show ?thesis
    proof (cases "find (\<lambda>x. cu_contest_id x = i \<and> cu_user_id x = donor \<and> m < cu_mode x) cus")
      case None
      then have "\<not> m < n" if "mode_in cus donor i = Some n" for n
        using mode_in_SomeD [OF that] by (auto simp: find_None_iff)
      then have "mode_in cus donor i = None \<or> (\<exists>n. mode_in cus donor i = Some n \<and> \<not> m < n)"
        by (cases "mode_in cus donor i") auto
      then show ?thesis using True None c by (auto simp: f_def max_def)
    next
      case (Some x)
      then have x: "x \<in> set cus" "cu_contest_id x = i" "cu_user_id x = donor" "m < cu_mode x"
        by (auto simp: find_Some_iff)
      then have "mode_in cus donor i = Some (cu_mode x)" using mode_in_unique [OF dist x(1)] by simp
      then show ?thesis using True Some c x(4) by (simp add: f_def max_def less_imp_le)
    qed
  qed
  then show ?thesis using new Some by (cases "mode_in cus donor i") auto
qed

lemma mode_in_filter_donor:
  "mode_in (map (\<lambda>c. c\<lparr>cu_user_id := target\<rparr>) (filter (\<lambda>c. cu_user_id c = donor) cus)) u i =
     (if u = target then mode_in cus donor i else None)"
  by (induction cus) (auto simp: mode_in_def)

text \<open>The target ends up with the higher of both modes in every contest; nobody else is affected.\<close>

lemma mode_in_transfer:
  assumes "distinct (map (\<lambda>c. (cu_user_id c, cu_contest_id c)) cus)" and "donor \<noteq> target"
  shows "mode_in (transfer_contest_users donor target cus) u i =
    (if u = target then max_mode (mode_in cus target i) (mode_in cus donor i) else mode_in cus u i)"
  using assms(2)
  by (cases "mode_in cus u i"; cases "mode_in cus donor i")
    (auto simp: transfer_contest_users_def Let_def mode_in_insert_ignore
      mode_in_raise_modes [OF assms(1)] mode_in_filter_donor)


section \<open>Merging: nothing of the donor is left to cascade\<close>

lemma delete_where_none: "(\<And>r. r \<in> set rs \<Longrightarrow> \<not> p r) \<Longrightarrow> delete_where p rs = rs"
  by (induction rs) auto

text \<open>A reference after the transfer.\<close>

definition move_id :: "id \<Rightarrow> id \<Rightarrow> id \<Rightarrow> id" where
  "move_id donor target x = (if x = donor then target else x)"

lemma map_moved:
  assumes "\<And>x. get x = donor \<Longrightarrow> g (f x) = move (g x)" and "\<And>x. get x \<noteq> donor \<Longrightarrow> move (g x) = g x"
  shows "map g (update_where (\<lambda>x. get x = donor) f rs) = map (\<lambda>x. move (g x)) rs"
  using assms by (induction rs) (auto simp: update_where_def)

lemma moved_away:
  assumes "map g rs' = map (\<lambda>x. map_option (move_id donor target) (g x)) rs" and "donor \<noteq> target"
    and "r \<in> set rs'"
  shows "g r \<noteq> Some donor"
proof -
  have "g r \<in> set (map g rs')" using assms(3) by simp
  then show ?thesis using assms(2) unfolding assms(1)
    by (auto simp: move_id_def map_option_case split: if_splits option.splits)
qed

lemma find_deleted: "find (\<lambda>r. k r = i) (delete_where (\<lambda>r. k r = i) rs) = None"
  by (simp add: find_None_iff)

lemma find_kept: "i \<noteq> j \<Longrightarrow>
  find (\<lambda>r. k r = j) (delete_where (\<lambda>r. k r = i) rs) = find (\<lambda>r. k r = j) rs"
  by (induction rs) (auto simp: delete_where_def)

lemma find_update_where:
  assumes "\<And>r. k (f r) = k r"
  shows "find (\<lambda>r. k r = i) (update_where (\<lambda>r. k r = i) f rs) = map_option f (find (\<lambda>r. k r = i) rs)"
  using assms by (induction rs) (auto simp: update_where_def)

lemma find_update_where_other:
  assumes "\<And>r. k (f r) = k r" and "j \<noteq> i"
  shows "find (\<lambda>r. k r = j) (update_where (\<lambda>r. k r = i) f rs) = find (\<lambda>r. k r = j) rs"
  using assms by (induction rs) (auto simp: update_where_def)

lemma mode_in_deleted:
  "mode_in (delete_where (\<lambda>c. cu_user_id c = donor) cus) u i = (if u = donor then None else mode_in cus u i)"
  by (induction cus) (auto simp: mode_in_def delete_where_def)

text \<open>Deleting a user that no row refers to deletes only the user.\<close>

lemma delete_unreferenced_user:
  assumes "\<forall>s \<in> set (db_sessions d). session_user_id s \<noteq> uid"
    and "\<forall>p \<in> set (db_problems d). problem_owner_id p \<noteq> Some uid"
    and "\<forall>f \<in> set (db_contest_files d). cf_creator f \<noteq> Some uid"
    and "\<forall>s \<in> set (db_submissions d). sub_user_id s \<noteq> Some uid"
  shows "delete_users_where (\<lambda>u. user_id u = uid) d =
    d\<lparr> db_users := delete_where (\<lambda>u. user_id u = uid) (db_users d),
       db_contest_users := delete_where (\<lambda>c. cu_user_id c \<in>
         user_id ` {u \<in> set (db_users d). user_id u = uid}) (db_contest_users d) \<rparr>"
proof -
  let ?gone = "user_id ` {u \<in> set (db_users d). user_id u = uid}"
  have gone: "?gone \<subseteq> {uid}" by auto
  have "delete_where (\<lambda>s. session_user_id s \<in> ?gone) (db_sessions d) = db_sessions d"
    by (rule delete_where_none) (use gone assms(1) in auto)
  moreover have "map (\<lambda>x. x\<lparr>problem_owner_id := set_null ?gone (problem_owner_id x)\<rparr>) (db_problems d) =
      db_problems d"
    by (rule map_idI) (use gone assms(2) in \<open>auto simp: set_null_def split: option.splits\<close>)
  moreover have "map (\<lambda>f. f\<lparr>cf_creator := set_null ?gone (cf_creator f)\<rparr>) (db_contest_files d) =
      db_contest_files d"
    by (rule map_idI) (use gone assms(3) in \<open>auto simp: set_null_def split: option.splits\<close>)
  moreover have "delete_where (\<lambda>s. case sub_user_id s of None \<Rightarrow> False | Some u \<Rightarrow> u \<in> ?gone)
      (db_submissions d) = db_submissions d"
    by (rule delete_where_none) (use gone assms(4) in \<open>auto split: option.splits\<close>)
  ultimately show ?thesis unfolding delete_users_where_def Let_def by (simp only:) simp
qed

text \<open>The tags of the target after the transfer.\<close>

lemma transfer_tags_target:
  assumes "donor \<noteq> target"
  shows "{t \<in> set (transfer_tags donor target seen ts). tag_problem_id t = target} =
    {t \<in> set seen \<union> set ts. tag_problem_id t = target} \<union>
    (\<lambda>t. t\<lparr>tag_problem_id := target\<rparr>) ` {t \<in> set ts. tag_problem_id t = donor}"
  using assms
proof (induction donor target seen ts rule: transfer_tags.induct)
  case (1 donor target seen)
  then show ?case by simp
next
  case (2 donor target seen t ts)
  let ?t' = "t\<lparr>tag_problem_id := target\<rparr>"
  let ?x = "if tag_problem_id t = donor \<and> ?t' \<notin> set seen \<union> set ts then ?t' else t"
  have "{t \<in> set (transfer_tags donor target (seen @ [?x]) ts). tag_problem_id t = target} =
    {t \<in> set (seen @ [?x]) \<union> set ts. tag_problem_id t = target} \<union>
    (\<lambda>t. t\<lparr>tag_problem_id := target\<rparr>) ` {t \<in> set ts. tag_problem_id t = donor}"
    using 2 by simp
  then show ?case using 2(2) by (auto simp: Let_def)
qed

section \<open>Merging users: the whole handler\<close>

text \<open>The rows after the transfer: the references to the donor name the target.\<close>

lemma transfer_user_rows_moves:
  fixes d :: db and donor target :: id and t u :: user_type
  defines "e \<equiv> transfer_user_rows donor target t u d"
  shows "map session_user_id (db_sessions e) =
      map (\<lambda>s. move_id donor target (session_user_id s)) (db_sessions d)"
    and "map (\<lambda>p. (problem_id p, problem_owner_id p)) (db_problems e) =
      map (\<lambda>p. (problem_id p, map_option (move_id donor target) (problem_owner_id p))) (db_problems d)"
    and "map (\<lambda>f. (cf_id f, cf_creator f)) (db_contest_files e) =
      map (\<lambda>f. (cf_id f, map_option (move_id donor target) (cf_creator f))) (db_contest_files d)"
    and "map (\<lambda>s. (sub_id s, sub_user_id s)) (db_submissions e) =
      map (\<lambda>s. (sub_id s, map_option (move_id donor target) (sub_user_id s))) (db_submissions d)"
  unfolding e_def transfer_user_rows_def
  by (auto simp: update_where_def move_id_def map_option_case split: option.splits)

lemma transfer_jobs_moves:
  "map (\<lambda>j. (job_id j, job_creator j)) (db_jobs (transfer_jobs donor target d)) =
     map (\<lambda>j. (job_id j, map_option (move_id donor target) (job_creator j))) (db_jobs d)"
  by (auto simp: transfer_jobs_def update_where_def move_id_def map_option_case split: option.splits)

text \<open>After the transfer and the update of the finals, deleting the donor deletes only his account.\<close>

lemma delete_donor:
  assumes rows: "d2 = transfer_jobs donor target (transfer_user_rows donor target t u d
      \<lparr>db_submissions := ss\<rparr>)"
    and subs: "map (\<lambda>s. (sub_id s, sub_user_id s)) ss =
      map (\<lambda>s. (sub_id s, map_option (move_id donor target) (sub_user_id s))) (db_submissions d)"
    and differ: "donor \<noteq> target"
  shows "delete_users_where (\<lambda>u. user_id u = donor) d2 =
    d2\<lparr> db_users := delete_where (\<lambda>u. user_id u = donor) (db_users d2),
       db_contest_users := delete_where (\<lambda>c. cu_user_id c \<in>
         user_id ` {u \<in> set (db_users d2). user_id u = donor}) (db_contest_users d2) \<rparr>"
proof (rule delete_unreferenced_user)
  let ?e = "transfer_user_rows donor target t u d"
  have d2: "db_sessions d2 = db_sessions ?e" "db_problems d2 = db_problems ?e"
    "db_contest_files d2 = db_contest_files ?e" "db_submissions d2 = ss"
    by (simp_all add: rows transfer_jobs_def)
  note moves = transfer_user_rows_moves [of donor target t u d, folded d2(1-3)]
  have "map problem_owner_id (db_problems d2) =
      map (\<lambda>s. map_option (move_id donor target) (problem_owner_id s)) (db_problems d)"
    using arg_cong [OF moves(2), of "map snd"] by (simp add: o_def)
  from moved_away [OF this differ]
  show "\<forall>p \<in> set (db_problems d2). problem_owner_id p \<noteq> Some donor" by blast
  have "map cf_creator (db_contest_files d2) =
      map (\<lambda>s. map_option (move_id donor target) (cf_creator s)) (db_contest_files d)"
    using arg_cong [OF moves(3), of "map snd"] by (simp add: o_def)
  from moved_away [OF this differ]
  show "\<forall>f \<in> set (db_contest_files d2). cf_creator f \<noteq> Some donor" by blast
  have "map sub_user_id (db_submissions d2) =
      map (\<lambda>s. map_option (move_id donor target) (sub_user_id s)) (db_submissions d)"
    using arg_cong [OF subs, of "map snd"] by (simp add: o_def d2)
  from moved_away [OF this differ]
  show "\<forall>s \<in> set (db_submissions d2). sub_user_id s \<noteq> Some donor" by blast
  show "\<forall>s \<in> set (db_sessions d2). session_user_id s \<noteq> donor"
  proof
    fix s assume "s \<in> set (db_sessions d2)"
    then have "session_user_id s \<in> set (map session_user_id (db_sessions d2))" by simp
    then show "session_user_id s \<noteq> donor" unfolding moves(1) using differ by (auto simp: move_id_def)
  qed
qed

lemma merge_users_effect:
  assumes run: "merge_users jid donor target log d = (log', Inr d')"
    and found: "find_user d donor = Some du" "find_user d target = Some tu"
    and differ: "donor \<noteq> target" and keys: "keys_ok d"
  shows "find_user d' donor = None"
    and "find_user d' target = Some (tu\<lparr>user_type := min (user_type du) (user_type tu)\<rparr>)"
    and "mode_in (db_contest_users d') uid cid =
      (if uid = donor then None
       else if uid = target
       then max_mode (mode_in (db_contest_users d) target cid) (mode_in (db_contest_users d) donor cid)
       else mode_in (db_contest_users d) uid cid)"
    and "map session_user_id (db_sessions d') =
      map (\<lambda>s. move_id donor target (session_user_id s)) (db_sessions d)"
    and "map (\<lambda>p. (problem_id p, problem_owner_id p)) (db_problems d') =
      map (\<lambda>p. (problem_id p, map_option (move_id donor target) (problem_owner_id p))) (db_problems d)"
    and "map (\<lambda>f. (cf_id f, cf_creator f)) (db_contest_files d') =
      map (\<lambda>f. (cf_id f, map_option (move_id donor target) (cf_creator f))) (db_contest_files d)"
    and "map (\<lambda>s. (sub_id s, sub_user_id s)) (db_submissions d') =
      map (\<lambda>s. (sub_id s, map_option (move_id donor target) (sub_user_id s))) (db_submissions d)"
    and "map (\<lambda>j. (job_id j, job_creator j)) (db_jobs d') =
      map (\<lambda>j. (job_id j, map_option (move_id donor target) (job_creator j))) (db_jobs d)"
proof -
  define e where "e = transfer_user_rows donor target (user_type du) (user_type tu) d"
  obtain d1 ftus where fin: "update_finals ftus e = Inr d1" and
    d': "d' = set_job_status_and_log Job_DONE log' jid
      (delete_users_where (\<lambda>u. user_id u = donor) (transfer_jobs donor target d1))"
    using run found by (auto simp: e_def mark_job_defs elim: merge_users_cases)
  obtain ss where d1: "d1 = e\<lparr>db_submissions := ss\<rparr>"
    and ss: "map submission_key ss = map submission_key (db_submissions e)"
    using update_finals_keys [OF fin] by metis
  define d2 where "d2 = transfer_jobs donor target d1"
  have d2: "db_users d2 = db_users e" "db_sessions d2 = db_sessions e" "db_problems d2 = db_problems e"
    "db_contest_users d2 = db_contest_users e" "db_contest_files d2 = db_contest_files e"
    "db_submissions d2 = ss"
    by (simp_all add: d2_def d1 transfer_jobs_def)
  have jobs: "map (\<lambda>j. (job_id j, job_creator j)) (db_jobs d2) =
      map (\<lambda>j. (job_id j, map_option (move_id donor target) (job_creator j))) (db_jobs d)"
    unfolding d2_def transfer_jobs_moves by (simp add: d1 e_def)
  have subs: "map (\<lambda>s. (sub_id s, sub_user_id s)) ss =
      map (\<lambda>s. (sub_id s, map_option (move_id donor target) (sub_user_id s))) (db_submissions d)"
    using arg_cong [OF ss, of "map (\<lambda>(i, u, k). (i, u))"] transfer_user_rows_moves(4)
    by (simp add: submission_key_def o_def e_def)
  note del = delete_donor [OF d2_def [unfolded d1 e_def] subs differ]
  note moves = transfer_user_rows_moves [of donor target "user_type du" "user_type tu" d, folded e_def]
  have users: "db_users d2 = (if user_type du < user_type tu
      then update_where (\<lambda>u. user_id u = target) (\<lambda>u. u\<lparr>user_type := user_type du\<rparr>) (db_users d)
      else db_users d)"
    unfolding d2 by (simp add: e_def transfer_user_rows_def)
  have find_donor: "find (\<lambda>u. user_id u = donor) (db_users d2) = Some du"
    using found(1) differ unfolding users find_user_def by (simp add: find_update_where_other)
  note gone = the_found [OF find_donor]
  have find_target: "find (\<lambda>u. user_id u = target) (db_users d2) =
      Some (tu\<lparr>user_type := min (user_type du) (user_type tu)\<rparr>)"
    using found(2) unfolding users find_user_def by (simp add: find_update_where min_def)
  note d' = d' [folded d2_def, unfolded del gone]
  show "find_user d' donor = None"
    unfolding d' find_user_def mark_fields by (simp add: find_deleted)
  show "find_user d' target = Some (tu\<lparr>user_type := min (user_type du) (user_type tu)\<rparr>)"
    unfolding d' find_user_def mark_fields by (simp add: find_kept [OF differ] find_target)
  have "distinct (map (\<lambda>c. (cu_user_id c, cu_contest_id c)) (db_contest_users d))"
    using keys by (simp add: keys_ok_def)
  note modes = mode_in_transfer [OF this differ]
  have "db_contest_users d' = delete_where (\<lambda>c. cu_user_id c = donor)
      (transfer_contest_users donor target (db_contest_users d))"
    unfolding d' mark_fields by (simp add: d2 e_def transfer_user_rows_def)
  then show "mode_in (db_contest_users d') uid cid =
      (if uid = donor then None
       else if uid = target
       then max_mode (mode_in (db_contest_users d) target cid) (mode_in (db_contest_users d) donor cid)
       else mode_in (db_contest_users d) uid cid)"
    by (simp add: mode_in_deleted modes)
  show "map session_user_id (db_sessions d') =
      map (\<lambda>s. move_id donor target (session_user_id s)) (db_sessions d)"
    unfolding d' mark_fields using moves(1) by (simp add: d2)
  show "map (\<lambda>p. (problem_id p, problem_owner_id p)) (db_problems d') =
      map (\<lambda>p. (problem_id p, map_option (move_id donor target) (problem_owner_id p))) (db_problems d)"
    unfolding d' mark_fields using moves(2) by (simp add: d2)
  show "map (\<lambda>f. (cf_id f, cf_creator f)) (db_contest_files d') =
      map (\<lambda>f. (cf_id f, map_option (move_id donor target) (cf_creator f))) (db_contest_files d)"
    unfolding d' mark_fields using moves(3) by (simp add: d2)
  show "map (\<lambda>s. (sub_id s, sub_user_id s)) (db_submissions d') =
      map (\<lambda>s. (sub_id s, map_option (move_id donor target) (sub_user_id s))) (db_submissions d)"
    unfolding d' mark_fields using subs by (simp add: d2)
  show "map (\<lambda>j. (job_id j, job_creator j)) (db_jobs d') =
      map (\<lambda>j. (job_id j, map_option (move_id donor target) (job_creator j))) (db_jobs d)"
    unfolding d' using jobs
    by (simp add: set_job_status_and_log_def map_update_where_frame)
qed

section \<open>Merging problems: what the target gets\<close>

definition donor_solution :: "id \<Rightarrow> submission \<Rightarrow> bool" where
  "donor_solution donor s \<longleftrightarrow> sub_problem_id s = donor \<and> sub_type s = Sub_PROBLEM_SOLUTION"

lemma merge_problems_jobs_rows [simp]:
  "db_contest_problems (merge_problems_jobs now donor target rejudge d) =
     update_where (\<lambda>c. cp_problem_id c = donor) (\<lambda>c. c\<lparr>cp_problem_id := target\<rparr>) (db_contest_problems d)"
  "db_submissions (merge_problems_jobs now donor target rejudge d) =
     delete_where (donor_solution donor) (db_submissions d)"
  "db_problems (merge_problems_jobs now donor target rejudge d) = db_problems d"
  "db_problem_tags (merge_problems_jobs now donor target rejudge d) = db_problem_tags d"
  by (simp_all add: merge_problems_jobs_def Let_def donor_solution_def [abs_def])

text \<open>Deleting a problem that no contest problem and no submission refers to.\<close>

lemma delete_unreferenced_problem:
  assumes "\<forall>c \<in> set (db_contest_problems d). cp_problem_id c \<noteq> pid"
    and "\<forall>s \<in> set (db_submissions d). sub_problem_id s \<noteq> pid"
  shows "delete_problems_where (\<lambda>p. problem_id p = pid) d =
    d\<lparr> db_problems := delete_where (\<lambda>p. problem_id p = pid) (db_problems d),
       db_problem_tags := delete_where
         (\<lambda>t. tag_problem_id t \<in> problem_id ` {x \<in> set (db_problems d). problem_id x = pid})
         (db_problem_tags d) \<rparr>"
proof -
  define gone where "gone = problem_id ` {x \<in> set (db_problems d). problem_id x = pid}"
  have gone: "gone \<subseteq> {pid}" by (auto simp: gone_def)
  have cps: "{c \<in> set (db_contest_problems d). cp_problem_id c \<in> gone} = {}"
    using gone assms(1) by auto
  have "delete_where (\<lambda>c. cp_problem_id c \<in> gone) (db_contest_problems d) = db_contest_problems d"
    by (rule delete_where_none) (use gone assms(1) in auto)
  moreover have "delete_where (\<lambda>s. sub_problem_id s \<in> gone) (db_submissions d) = db_submissions d"
    by (rule delete_where_none) (use gone assms(2) in auto)
  moreover have "(case x of None \<Rightarrow> False | Some c \<Rightarrow> c \<in> cp_id ` ({} :: contest_problem set)) \<longleftrightarrow> False"
    for x
    by (cases x) simp_all
  ultimately show ?thesis
    unfolding delete_problems_where_def delete_contest_problems_where_def Let_def
      gone_def [symmetric] cps
    by (simp add: delete_where_def)
qed

lemma not_donor:
  assumes "map g rs' = map (\<lambda>x. move_id donor target (g x)) rs" and "donor \<noteq> target" and "r \<in> set rs'"
  shows "g r \<noteq> donor"
proof -
  have "g r \<in> set (map g rs')" using assms(3) by simp
  then show ?thesis using assms(2) unfolding assms(1) by (auto simp: move_id_def)
qed

lemma merge_problems_effect:
  assumes run: "merge_problems now jid donor target log d = (log', Inr d')"
    and found: "find_problem d donor = Some dp" "find_problem d target = Some tp"
    and differ: "donor \<noteq> target"
  shows "find_problem d' donor = None" and "find_problem d' target = Some tp"
    and "map (\<lambda>c. (cp_id c, cp_problem_id c)) (db_contest_problems d') =
      map (\<lambda>c. (cp_id c, move_id donor target (cp_problem_id c))) (db_contest_problems d)"
    and "map (\<lambda>s. (sub_id s, sub_user_id s, sub_problem_id s)) (db_submissions d') =
      map (\<lambda>s. (sub_id s, sub_user_id s, move_id donor target (sub_problem_id s)))
        (filter (\<lambda>s. \<not> donor_solution donor s) (db_submissions d))"
    and "{t \<in> set (db_problem_tags d'). tag_problem_id t = target} =
      {t \<in> set (db_problem_tags d). tag_problem_id t = target} \<union>
      (\<lambda>t. t\<lparr>tag_problem_id := target\<rparr>) ` {t \<in> set (db_problem_tags d). tag_problem_id t = donor}"
proof -
  from run obtain mpj :: merge_problems_job and d1 ftus where
    fin: "update_finals ftus (transfer_problem_rows donor target (merge_problems_jobs now donor target
          (mpj_rejudge_transferred_submissions mpj) d)) = Inr d1"
    and d': "d' = set_job_status_and_log Job_DONE log' jid
        (delete_problems_where (\<lambda>p. problem_id p = donor)
          (d1\<lparr>db_problem_tags := transfer_tags donor target [] (db_problem_tags d1)\<rparr>))"
  proof (cases rule: merge_problems_cases)
    case 1
    then show ?thesis using found by simp
  next
    case (2 mpj dp tp d1 ftus)
    show ?thesis by (rule that [OF 2(4)]) (simp add: 2(5) mark_job_defs)
  qed
  define m where "m = merge_problems_jobs now donor target (mpj_rejudge_transferred_submissions mpj) d"
  define d2 where "d2 = d1\<lparr>db_problem_tags := transfer_tags donor target [] (db_problem_tags d1)\<rparr>"
  obtain ss where d1: "d1 = (transfer_problem_rows donor target m)\<lparr>db_submissions := ss\<rparr>"
    and ss: "map submission_key ss = map submission_key (db_submissions (transfer_problem_rows donor target m))"
    using update_finals_keys [OF fin] unfolding m_def by metis
  have d2: "db_problems d2 = db_problems d" "db_submissions d2 = ss"
    "db_contest_problems d2 = update_where (\<lambda>c. cp_problem_id c = donor)
       (\<lambda>c. c\<lparr>cp_problem_id := target\<rparr>) (db_contest_problems d)"
    "db_problem_tags d2 = transfer_tags donor target [] (db_problem_tags d)"
    by (simp_all add: d2_def d1 m_def transfer_problem_rows_def)
  have cps: "map (\<lambda>c. (cp_id c, cp_problem_id c)) (db_contest_problems d2) =
      map (\<lambda>c. (cp_id c, move_id donor target (cp_problem_id c))) (db_contest_problems d)"
    unfolding d2 by (auto simp: update_where_def move_id_def)
  have subs: "map (\<lambda>s. (sub_id s, sub_user_id s, sub_problem_id s)) (db_submissions d2) =
      map (\<lambda>s. (sub_id s, sub_user_id s, move_id donor target (sub_problem_id s)))
        (filter (\<lambda>s. \<not> donor_solution donor s) (db_submissions d))"
    using arg_cong [OF ss, of "map (\<lambda>(i, u, p, k). (i, u, p))"]
    by (simp add: d2 submission_key_def o_def transfer_problem_rows_def m_def update_where_def
        move_id_def delete_where_def split: if_splits cong: if_cong)
  have del: "delete_problems_where (\<lambda>p. problem_id p = donor) d2 =
    d2\<lparr> db_problems := delete_where (\<lambda>p. problem_id p = donor) (db_problems d2),
       db_problem_tags := delete_where
         (\<lambda>t. tag_problem_id t \<in> problem_id ` {x \<in> set (db_problems d2). problem_id x = donor})
         (db_problem_tags d2) \<rparr>"
  proof (rule delete_unreferenced_problem)
    show "\<forall>c \<in> set (db_contest_problems d2). cp_problem_id c \<noteq> donor"
      using not_donor [of cp_problem_id "db_contest_problems d2" donor target "db_contest_problems d"]
        arg_cong [OF cps, of "map snd"] differ by (simp add: o_def)
    show "\<forall>s \<in> set (db_submissions d2). sub_problem_id s \<noteq> donor"
      using not_donor [of sub_problem_id "db_submissions d2" donor target
          "filter (\<lambda>s. \<not> donor_solution donor s) (db_submissions d)"]
        arg_cong [OF subs, of "map (\<lambda>(i, u, p). p)"] differ by (simp add: o_def)
  qed
  have "find (\<lambda>p. problem_id p = donor) (db_problems d2) = Some dp"
    using found(1) by (simp add: d2 find_problem_def)
  note d' = d' [folded d2_def, unfolded del the_found [OF this]]
  show "find_problem d' donor = None"
    unfolding d' find_problem_def mark_fields by (simp add: find_deleted)
  show "find_problem d' target = Some tp"
    using found(2) unfolding d' find_problem_def mark_fields by (simp add: find_kept [OF differ] d2)
  show "map (\<lambda>c. (cp_id c, cp_problem_id c)) (db_contest_problems d') =
      map (\<lambda>c. (cp_id c, move_id donor target (cp_problem_id c))) (db_contest_problems d)"
    unfolding d' mark_fields using cps by simp
  show "map (\<lambda>s. (sub_id s, sub_user_id s, sub_problem_id s)) (db_submissions d') =
      map (\<lambda>s. (sub_id s, sub_user_id s, move_id donor target (sub_problem_id s)))
        (filter (\<lambda>s. \<not> donor_solution donor s) (db_submissions d))"
    unfolding d' mark_fields using subs by simp
  have "db_problem_tags d' = delete_where (\<lambda>t. tag_problem_id t \<in> {donor})
      (transfer_tags donor target [] (db_problem_tags d))"
    unfolding d' by (simp add: d2 set_job_status_and_log_def)
  then have "{t \<in> set (db_problem_tags d'). tag_problem_id t = target} =
      {t \<in> set (transfer_tags donor target [] (db_problem_tags d)). tag_problem_id t = target}"
    using differ by auto
  then show "{t \<in> set (db_problem_tags d'). tag_problem_id t = target} =
      {t \<in> set (db_problem_tags d). tag_problem_id t = target} \<union>
      (\<lambda>t. t\<lparr>tag_problem_id := target\<rparr>) ` {t \<in> set (db_problem_tags d). tag_problem_id t = donor}"
    using transfer_tags_target [OF differ, of "[]" "db_problem_tags d"] by simp
qed

section \<open>Properties\<close>

text \<open>
  C26. The deletions leak no file and lose none: for a deleted user, problem, contest, contest round
  or contest problem, the DELETE_INTERNAL_FILE jobs that the handler inserts name exactly the files
  of the submissions, contest files and problems that its DELETE and the cascades of the schema
  removed (none, when the handler cancels the job).
\<close>

theorem deletions_schedule_exactly_orphaned_files:
  assumes "keys_ok d" and "job_ids_ok (task_room d) d" and "contests_consistent d"
    and "jid \<in> job_id ` set (db_jobs d)"
    and "(log', Inr d') \<in> {delete_user now jid x log d, delete_problem now jid x log d,
      delete_contest now jid x log d, delete_contest_round now jid x log d,
      delete_contest_problem now jid x log d}"
  shows "scheduled_files d d' = orphaned_files d d'"
proof -
  consider "delete_user now jid x log d = (log', Inr d')"
    | "delete_problem now jid x log d = (log', Inr d')"
    | "delete_contest now jid x log d = (log', Inr d')"
    | "delete_contest_round now jid x log d = (log', Inr d')"
    | "delete_contest_problem now jid x log d = (log', Inr d')"
    using assms(5) by (auto simp del: Pair_inject)
  then show ?thesis
  proof cases
    case 1
    then show ?thesis using leak_delete_user [OF assms(1,2,4)] by simp
  next
    case 2
    then show ?thesis using leak_delete_problem [OF assms(1,2,4)] by simp
  next
    case 3
    then show ?thesis using leak_delete_contest [OF assms(1,2,4,3)] by simp
  next
    case 4
    then show ?thesis using leak_delete_contest_round [OF assms(1,2,4,3)] by simp
  next
    case 5
    then show ?thesis using leak_delete_contest_problem [OF assms(1,2,4)] by simp
  qed
qed

lemma sample_delete_consistent: "contests_consistent sample_delete_db"
  by (simp add: contests_consistent_def sample_delete_db_def empty_db_def sample_submission_def)

lemma deletions_schedule_exactly_orphaned_files_witness:
  "\<exists>log' d'. delete_user [] 9 7 [] sample_delete_db = (log', Inr d') \<and>
     scheduled_files sample_delete_db d' = orphaned_files sample_delete_db d' \<and>
     10 \<in> orphaned_files sample_delete_db d'"
proof -
  obtain log' d' where run: "delete_user [] 9 7 [] sample_delete_db = (log', Inr d')"
    by (simp add: delete_user_def finished_def find_user_def sample_delete_db_def)
  have mem: "(9 :: id) \<in> job_id ` set (db_jobs sample_delete_db)"
    by (simp add: sample_delete_db_def sample_job_def)
  have "scheduled_files sample_delete_db d' = orphaned_files sample_delete_db d'"
    by (rule deletions_schedule_exactly_orphaned_files
        [where now = "[]" and x = 7 and log = "[]" and log' = log',
          OF sample_delete_ok(2,1) sample_delete_consistent mem]) (simp only: run, rule insertI1)
  moreover have d': "d' = set_job_status_and_log Job_DONE log' 9
      (delete_users_where (\<lambda>x. user_id x = 7) (insert_jobs_for [] DELETE_INTERNAL_FILE
        (submission_files (\<lambda>s. sub_user_id s = Some 7) sample_delete_db) sample_delete_db))"
    using run by (auto simp: delete_user_def handler_defs find_user_def sample_delete_db_def)
  obtain u where "find_user (insert_jobs_for [] DELETE_INTERNAL_FILE
      (submission_files (\<lambda>s. sub_user_id s = Some 7) sample_delete_db) sample_delete_db) 7 = Some u"
    by (simp add: find_user_def sample_delete_db_def)
  from delete_user_rows(1) [OF this] have "set (db_submissions d') = {}"
    unfolding d' by (simp add: sample_delete_db_def sample_submission_def)
  then have "10 \<in> orphaned_files sample_delete_db d'"
    by (simp add: orphaned_files_def sample_delete_db_def sample_submission_def)
  ultimately show ?thesis using run by blast
qed


definition sample_target_user :: user where
  "sample_target_user = \<lparr> user_id = 8, user_created_at = ''2024-01-01 00:00:00'',
     user_type = User_TEACHER, username = ''tom'', first_name = ''T'', last_name = ''T'',
     email = ''t@t'', password_salt = [], password_hash = [] \<rparr>"

definition sample_merge_db :: db where
  "sample_merge_db = sample_delete_db
     \<lparr> db_users := db_users sample_delete_db @ [sample_target_user],
       db_contest_users := [\<lparr> cu_user_id = 7, cu_contest_id = 4, cu_mode = MODERATOR \<rparr>,
         \<lparr> cu_user_id = 8, cu_contest_id = 4, cu_mode = CONTESTANT \<rparr>],
       db_problems := db_problems sample_delete_db @
         [\<lparr> problem_id = 2, problem_created_at = ''2024-01-01 00:00:00'',
            problem_file_id = 12, problem_visibility = PUBLIC, problem_name = ''q'',
            problem_label = ''q'', problem_simfile = [], problem_owner_id = None,
            problem_updated_at = ''2024-01-01 00:00:00'' \<rparr>],
       db_merge_problems_jobs :=
         [\<lparr> mpj_id = 9, mpj_rejudge_transferred_submissions = True \<rparr>] \<rparr>"

lemma sample_merge_db_simps:
  "find_user sample_merge_db 7 = Some (hd (db_users sample_delete_db))"
  "find_user sample_merge_db 8 = Some sample_target_user"
  "find_problem sample_merge_db 3 = Some (hd (db_problems sample_delete_db))"
  "find_problem sample_merge_db 2 = Some (last (db_problems sample_merge_db))"
  "keys_ok sample_merge_db"
  using sample_delete_ok(2)
  by (simp_all add: sample_merge_db_def sample_delete_db_def find_user_def find_problem_def keys_ok_def
      sample_target_user_def empty_db_def)

lemma sample_merge_submissions:
  "db_submissions sample_merge_db = [sample_submission\<lparr>sub_cp_id := None, sub_round_id := None,
     sub_contest_id := None\<rparr>]"
  by (simp add: sample_merge_db_def sample_delete_db_def)

lemma sample_merge_jobs:
  "db_merge_problems_jobs sample_merge_db =
     [\<lparr> mpj_id = 9, mpj_rejudge_transferred_submissions = True \<rparr>]"
  by (simp add: sample_merge_db_def)

lemma update_finals_no_contest:
  "\<forall>x \<in> set ftus. snd (snd x) = None \<Longrightarrow> \<exists>d'. update_finals ftus d = Inr d'"
proof (induction ftus d rule: update_finals.induct)
  case (1 d)
  then show ?case by simp
next
  case (2 u p c ftus d)
  then have "\<exists>d1. update_final u p c d = Inr d1"
    by (simp add: update_final_def split: option.split)
  then show ?case using 2 by (auto simp: bind_res_eq_Inr)
qed

lemma merge_problems_runs:
  assumes "find (\<lambda>m. mpj_id m = jid) (db_merge_problems_jobs d) = Some mpj"
    and "find_problem d donor = Some dp" and "find_problem d target = Some tp"
    and "\<forall>s \<in> set (db_submissions d). sub_cp_id s = None"
  shows "\<exists>log' d'. merge_problems now jid donor target log d = (log', Inr d')"
proof -
  have "snd (merge_problems now jid donor target log d) \<noteq> Inl e" for e
  proof
    assume "snd (merge_problems now jid donor target log d) = Inl e"
    then obtain ftus d1 where "update_finals ftus d1 = Inl e" "\<forall>x \<in> set ftus. snd (snd x) = None"
      using assms
      by (auto simp: merge_problems_def Let_def finished_def split: sum.splits)
    then show False using update_finals_no_contest [of ftus d1] by simp
  qed
  then show ?thesis by (metis obj_sumE prod.collapse)
qed


text \<open>
  C28. A merge of two problems keeps what belongs to users: after a successful MERGE_PROBLEMS the
  donor is gone and the target's row is unchanged; every contest problem and every submission of the
  donor that is not a problem solution now belongs to the target (with its id and user), the donor's
  solutions are the only submissions that disappear, and the target has the tags of both.
\<close>

theorem merge_problems_moves_everything:
  assumes run: "merge_problems now jid donor target log d = (log', Inr d')"
    and found: "find_problem d donor = Some dp" "find_problem d target = Some tp"
    and differ: "donor \<noteq> target"
  shows "find_problem d' donor = None \<and> find_problem d' target = Some tp \<and>
    map (\<lambda>c. (cp_id c, cp_problem_id c)) (db_contest_problems d') =
      map (\<lambda>c. (cp_id c, move_id donor target (cp_problem_id c))) (db_contest_problems d) \<and>
    map (\<lambda>s. (sub_id s, sub_user_id s, sub_problem_id s)) (db_submissions d') =
      map (\<lambda>s. (sub_id s, sub_user_id s, move_id donor target (sub_problem_id s)))
        (filter (\<lambda>s. \<not> donor_solution donor s) (db_submissions d)) \<and>
    {t \<in> set (db_problem_tags d'). tag_problem_id t = target} =
      {t \<in> set (db_problem_tags d). tag_problem_id t = target} \<union>
      (\<lambda>t. t\<lparr>tag_problem_id := target\<rparr>) ` {t \<in> set (db_problem_tags d). tag_problem_id t = donor}"
  using merge_problems_effect [OF assms] by simp

lemma merge_problems_moves_everything_witness:
  "\<exists>log' d'. merge_problems [] 9 3 2 [] sample_merge_db = (log', Inr d') \<and>
     map (\<lambda>s. (sub_id s, sub_user_id s, sub_problem_id s)) (db_submissions d') = [(1, Some 7, 2)]"
proof -
  obtain log' d' where run: "merge_problems [] 9 3 2 [] sample_merge_db = (log', Inr d')"
    using merge_problems_runs [OF _ sample_merge_db_simps(3,4), of 9
        "\<lparr> mpj_id = 9, mpj_rejudge_transferred_submissions = True \<rparr>" "[]" "[]"]
    by (auto simp: sample_merge_jobs sample_merge_submissions)
  have ne: "(3 :: id) \<noteq> 2" by simp
  show ?thesis
    using merge_problems_moves_everything [OF run sample_merge_db_simps(3,4) ne] run
    by (simp add: sample_merge_submissions sample_submission_def move_id_def donor_solution_def)
qed

end
