(* ===== verification/String_Utils.thy ===== *)
theory String_Utils
  imports Sim_Types
begin

text \<open>
  String functions of simlib that the judging and the web code rest on: character classes
  (ctype.hh), numbers as strings (to_string.hh, str2num of string_transform.hh, StrNumCompare of
  string_compare.hh), the escapes of string_transform.hh (hexadecimal, URI, HTML, JSON) and
  \<open>escape_bytes_to_utf8_str\<close>. A C++ \<open>char\<close> is a HOL \<open>char\<close>, its \<open>unsigned char\<close> value is
  \<open>of_char\<close>; strings are lists, so \<open>+=\<close> is append and a \<open>StringView\<close> that advances is a tail.
\<close>

unbundle bit_operations_syntax

section \<open>Characters\<close>

abbreviation code :: "char \<Rightarrow> nat" where
  "code c \<equiv> of_char c"

definition is_digit :: "char \<Rightarrow> bool" where
  "is_digit c \<longleftrightarrow> CHR ''0'' \<le> c \<and> c \<le> CHR ''9''"

definition is_alpha :: "char \<Rightarrow> bool" where
  "is_alpha c \<longleftrightarrow> (CHR ''A'' \<le> c \<and> c \<le> CHR ''Z'') \<or> (CHR ''a'' \<le> c \<and> c \<le> CHR ''z'')"

definition is_xdigit :: "char \<Rightarrow> bool" where
  "is_xdigit c \<longleftrightarrow>
     is_digit c \<or> (CHR ''A'' \<le> c \<and> c \<le> CHR ''F'') \<or> (CHR ''a'' \<le> c \<and> c \<le> CHR ''f'')"

definition is_cntrl :: "char \<Rightarrow> bool" where
  "is_cntrl c \<longleftrightarrow> c \<le> CHR 0x1F \<or> c = CHR 0x7F"

definition is_space :: "char \<Rightarrow> bool" where
  "is_space c \<longleftrightarrow> c = CHR 0x09 \<or> (CHR 0x0A \<le> c \<and> c \<le> CHR 0x0D) \<or> c = CHR '' ''"

definition is_upper :: "char \<Rightarrow> bool" where
  "is_upper c \<longleftrightarrow> CHR ''A'' \<le> c \<and> c \<le> CHR ''Z''"

definition to_lower_char :: "char \<Rightarrow> char" where
  "to_lower_char c = (if is_upper c then char_of (97 + (code c - 65)) else c)"

definition is_digit_str :: "string \<Rightarrow> bool" where
  "is_digit_str s \<longleftrightarrow> s \<noteq> [] \<and> list_all is_digit s"

lemmas ctype_defs = is_digit_def is_alpha_def is_xdigit_def is_cntrl_def is_space_def is_upper_def

lemma char_le_code: "c \<le> d \<longleftrightarrow> code c \<le> code d"
  by (simp add: less_eq_char_def)

lemma is_digit_code: "is_digit c \<longleftrightarrow> 48 \<le> code c \<and> code c \<le> 57"
  by (simp add: is_digit_def char_le_code)

lemma code_less: "code c < 256"
  using of_char_mod_256 [of c, where 'a = nat] by (metis mod_less_divisor zero_less_numeral)

section \<open>Numbers as strings\<close>

text \<open>
  \<open>to_string\<close> for integers. The digits are produced last first, then the buffer is reversed; for a
  negative number C++ division truncates towards zero, so \<open>x2 * 10 - x\<close> is the last digit of its
  magnitude.
\<close>

definition digit_char :: "int \<Rightarrow> char" where
  "digit_char k = char_of (nat (k + 48))"

function digits_back :: "int \<Rightarrow> string" where
  "digits_back x =
     (if x \<le> 0 then [] else let x2 = x div 10 in digit_char (x - x2 * 10) # digits_back x2)"
  by auto
termination by (relation "measure nat") auto

function neg_digits_back :: "int \<Rightarrow> string" where
  "neg_digits_back x =
     (if 0 \<le> x then []
      else let x2 = - ((- x) div 10) in digit_char (x2 * 10 - x) # neg_digits_back x2)"
  by auto
termination by (relation "measure (\<lambda>x. nat (- x))") auto

declare digits_back.simps [simp del] neg_digits_back.simps [simp del]

definition int_to_string :: "int \<Rightarrow> string" where
  "int_to_string x =
     (if x = 0 then ''0''
      else if x < 0 then rev (neg_digits_back x @ ''-'')
      else rev (digits_back x))"

text \<open>
  \<open>str2num<T>\<close> for an integer type with the values from \<open>lo\<close> to \<open>hi\<close>. \<open>__builtin_mul_overflow\<close> and
  \<open>__builtin_add_overflow\<close> compute the exact result and tell whether it fits the type.
\<close>

definition fits :: "int \<Rightarrow> int \<Rightarrow> int \<Rightarrow> bool" where
  "fits lo hi x \<longleftrightarrow> lo \<le> x \<and> x \<le> hi"

fun str2num_loop :: "int \<Rightarrow> int \<Rightarrow> bool \<Rightarrow> int \<Rightarrow> string \<Rightarrow> int option" where
  "str2num_loop lo hi neg res [] = Some res"
| "str2num_loop lo hi neg res (c # cs) =
     (if \<not> is_digit c then None
      else if \<not> fits lo hi (res * 10) then None
      else let d = (if neg then 48 - int (code c) else int (code c) - 48)
           in if \<not> fits lo hi (res * 10 + d) then None
              else str2num_loop lo hi neg (res * 10 + d) cs)"

definition str2num_digits :: "int \<Rightarrow> int \<Rightarrow> bool \<Rightarrow> string \<Rightarrow> int option" where
  "str2num_digits lo hi neg s =
     (case s of
        [] \<Rightarrow> None
      | c # cs \<Rightarrow>
          (if \<not> is_digit c then None
           else str2num_loop lo hi neg
             (if neg then 48 - int (code c) else int (code c) - 48) cs))"

definition str2num :: "int \<Rightarrow> int \<Rightarrow> string \<Rightarrow> int option" where
  "str2num lo hi s =
     (case s of
        [] \<Rightarrow> None
      | c # cs \<Rightarrow>
          (if lo < 0 \<and> c = CHR ''-'' then str2num_digits lo hi True cs
           else str2num_digits lo hi False s))"

definition str2num_bool :: "string \<Rightarrow> bool option" where
  "str2num_bool s =
     (case str2num 0 255 s of
        None \<Rightarrow> None
      | Some x \<Rightarrow> if x \<le> 1 then Some (x = 1) else None)"

definition str2num_between :: "int \<Rightarrow> int \<Rightarrow> int \<Rightarrow> int \<Rightarrow> string \<Rightarrow> int option" where
  "str2num_between lo hi min_val max_val s =
     (case str2num lo hi s of
        None \<Rightarrow> None
      | Some x \<Rightarrow> if x < min_val \<or> x > max_val then None else Some x)"

definition u64_max :: int where
  "u64_max = 2 ^ 64 - 1"

definition i64_min :: int where
  "i64_min = - (2 ^ 63)"

definition i64_max :: int where
  "i64_max = 2 ^ 63 - 1"

text \<open>The value of a string of digits.\<close>

definition digit_val :: "char \<Rightarrow> int" where
  "digit_val c = int (code c) - 48"

definition dec_val :: "string \<Rightarrow> int" where
  "dec_val s = foldl (\<lambda>a c. a * 10 + digit_val c) 0 s"


text \<open>\<open>StrNumCompare\<close>: by length after the leading zeros, then lexicographically.\<close>

definition remove_leading :: "char \<Rightarrow> string \<Rightarrow> string" where
  "remove_leading c s = dropWhile (\<lambda>x. x = c) s"

definition str_num_less :: "string \<Rightarrow> string \<Rightarrow> bool" where
  "str_num_less a b =
     (let a' = remove_leading (CHR ''0'') a; b' = remove_leading (CHR ''0'') b
      in if length a' = length b' then a' < b' else length a' < length b')"

definition is_digit_not_greater_than :: "nat \<Rightarrow> string \<Rightarrow> bool" where
  "is_digit_not_greater_than max_val s \<longleftrightarrow>
     is_digit_str s \<and> \<not> str_num_less (int_to_string (int max_val)) s"

definition is_digit_not_less_than :: "nat \<Rightarrow> string \<Rightarrow> bool" where
  "is_digit_not_less_than min_val s \<longleftrightarrow>
     is_digit_str s \<and> \<not> str_num_less s (int_to_string (int min_val))"

section \<open>Facts about decimal strings\<close>

lemma digit_val_bounds: "is_digit c \<Longrightarrow> 0 \<le> digit_val c \<and> digit_val c \<le> 9"
  by (simp add: is_digit_code digit_val_def)

lemma dec_val_Nil [simp]: "dec_val [] = 0"
  by (simp add: dec_val_def)

lemma dec_val_snoc [simp]: "dec_val (s @ [c]) = dec_val s * 10 + digit_val c"
  by (simp add: dec_val_def)

lemma foldl_dec: "foldl (\<lambda>a c. a * 10 + digit_val c) r s = r * 10 ^ length s + dec_val s"
proof (induction s rule: rev_induct)
  case Nil
  then show ?case by simp
next
  case (snoc c s)
  then show ?case by (simp add: algebra_simps)
qed

lemma dec_val_Cons: "dec_val (c # s) = digit_val c * 10 ^ length s + dec_val s"
  using foldl_dec [of "digit_val c" s] by (simp add: dec_val_def)

lemma dec_val_bounds: "list_all is_digit s \<Longrightarrow> 0 \<le> dec_val s \<and> dec_val s < 10 ^ length s"
proof (induction s)
  case Nil
  then show ?case by simp
next
  case (Cons c s)
  then have "0 \<le> digit_val c" "digit_val c \<le> 9" using digit_val_bounds by auto
  then have "digit_val c * 10 ^ length s \<le> 9 * 10 ^ length s" "0 \<le> digit_val c * 10 ^ length s"
    by (simp_all add: mult_right_mono)
  moreover have "0 \<le> dec_val s" "dec_val s < 10 ^ length s" using Cons by simp_all
  ultimately show ?case unfolding dec_val_Cons by (simp only: list.size add_Suc_right add_0_right power_Suc, linarith)
qed

lemma digit_char [simp]:
  assumes "0 \<le> k" and "k \<le> 9"
  shows "is_digit (digit_char k)" and "digit_val (digit_char k) = k"
  using assms by (simp_all add: digit_char_def is_digit_code digit_val_def of_char_of nat_le_iff le_nat_iff)

lemma digits_back_val:
  assumes "0 \<le> x"
  shows "list_all is_digit (digits_back x) \<and> dec_val (rev (digits_back x)) = x"
  using assms
proof (induction x rule: digits_back.induct)
  case (1 x)
  show ?case
  proof (cases "x \<le> 0")
    case True
    then show ?thesis using 1(2) by (subst digits_back.simps) (simp add: digits_back.simps)
  next
    case False
    let ?d = "digit_char (x - x div 10 * 10)"
    have d: "0 \<le> x - x div 10 * 10" "x - x div 10 * 10 \<le> 9"
      using minus_div_mult_eq_mod [of x 10] by simp_all
    have eq: "digits_back x = ?d # digits_back (x div 10)"
      using False by (subst digits_back.simps) (simp add: Let_def)
    show ?thesis unfolding eq using 1(1) [OF False refl] d False by simp
  qed
qed

lemma digits_back_empty: "digits_back x = [] \<longleftrightarrow> x \<le> 0"
  by (subst digits_back.simps) (simp add: Let_def)

lemma neg_digits_back: "neg_digits_back x = digits_back (- x)"
proof (induction x rule: neg_digits_back.induct)
  case (1 x)
  show ?case
  proof (cases "0 \<le> x")
    case True
    then show ?thesis by (subst neg_digits_back.simps, subst digits_back.simps) simp
  next
    case False
    have swap: "- (a * 10) - x = - x - a * 10" for a by simp
    show ?thesis
      using 1 [OF False refl] False
      by (subst neg_digits_back.simps, subst digits_back.simps) (simp add: Let_def swap)
  qed
qed

text \<open>What \<open>to_string\<close> writes.\<close>

lemma int_to_string_neg: "x < 0 \<Longrightarrow> int_to_string x = CHR ''-'' # int_to_string (- x)"
  by (simp add: int_to_string_def neg_digits_back)

lemma int_to_string_digits:
  assumes "0 \<le> x"
  shows "is_digit_str (int_to_string x)" and "dec_val (int_to_string x) = x"
proof -
  have "is_digit (CHR ''0'')" "digit_val (CHR ''0'') = 0" by (simp_all add: is_digit_def digit_val_def)
  then show "is_digit_str (int_to_string x)" "dec_val (int_to_string x) = x"
    using assms digits_back_val [of x] digits_back_empty [of x]
    by (auto simp: int_to_string_def is_digit_str_def list_all_rev dec_val_Cons)
qed

section \<open>Parsing\<close>

lemma fits_neg: "fits lo hi (- x) \<longleftrightarrow> fits (- hi) (- lo) x"
  by (auto simp: fits_def)

lemma str2num_loop_neg:
  "str2num_loop lo hi True res cs = map_option uminus (str2num_loop (- hi) (- lo) False (- res) cs)"
proof (induction cs arbitrary: res)
  case Nil
  then show ?case by simp
next
  case (Cons c cs)
  have "fits lo hi (res * 10) = fits (- hi) (- lo) (- res * 10)"
    "fits lo hi (res * 10 + (48 - int (code c))) =
       fits (- hi) (- lo) (- res * 10 + (int (code c) - 48))"
    using fits_neg [of lo hi "- res * 10"] fits_neg [of lo hi "- res * 10 + (int (code c) - 48)"]
    by (simp_all add: algebra_simps)
  then show ?case using Cons [of "res * 10 + (48 - int (code c))"] by (simp add: algebra_simps)
qed

lemma str2num_loop_exact:
  assumes "lo \<le> 0" and "0 \<le> res" and "fits lo hi res"
  shows "str2num_loop lo hi False res cs =
    (if list_all is_digit cs \<and> fits lo hi (res * 10 ^ length cs + dec_val cs)
     then Some (res * 10 ^ length cs + dec_val cs) else None)"
  using assms
proof (induction cs arbitrary: res)
  case Nil
  then show ?case by simp
next
  case (Cons c cs)
  show ?case
  proof (cases "list_all is_digit (c # cs)")
    case False
    then show ?thesis
      using Cons.IH [of "res * 10 + digit_val c"] Cons.prems digit_val_bounds [of c]
      by (auto simp: Let_def digit_val_def [symmetric])
  next
    case True
    define r where "r = res * 10 + digit_val c"
    have c: "0 \<le> digit_val c" "digit_val c \<le> 9" and cs: "list_all is_digit cs"
      using True digit_val_bounds by auto
    have val: "res * 10 ^ length (c # cs) + dec_val (c # cs) = r * 10 ^ length cs + dec_val cs"
      by (simp add: dec_val_Cons r_def algebra_simps)
    have r: "0 \<le> r" "res * 10 \<le> r" using Cons.prems(2) c(1) by (simp_all add: r_def)
    have "r * 1 \<le> r * 10 ^ length cs" using r(1) by (intro mult_left_mono) simp_all
    then have mono: "r \<le> r * 10 ^ length cs + dec_val cs"
      using dec_val_bounds [OF cs] by simp
    have "str2num_loop lo hi False res (c # cs) =
        (if fits lo hi (res * 10) \<and> fits lo hi r then str2num_loop lo hi False r cs else None)"
      using True by (simp add: Let_def r_def digit_val_def)
    also have "\<dots> = (if fits lo hi r then str2num_loop lo hi False r cs else None)"
      using r Cons.prems(1,2) by (auto simp: fits_def)
    also have "\<dots> = (if fits lo hi (r * 10 ^ length cs + dec_val cs)
        then Some (r * 10 ^ length cs + dec_val cs) else None)"
      using Cons.IH [OF Cons.prems(1) r(1)] cs mono r(1) Cons.prems(1) by (auto simp: fits_def)
    finally show ?thesis using True unfolding val by simp
  qed
qed

text \<open>
  What an integer literal of the type is: an optional minus (signed types only), then digits, with a
  value in range.
\<close>

definition literal_of :: "int \<Rightarrow> int \<Rightarrow> string \<Rightarrow> int \<Rightarrow> bool" where
  "literal_of lo hi s v \<longleftrightarrow>
     (is_digit_str s \<and> v = dec_val s \<or>
      (\<exists>ds. lo < 0 \<and> s = CHR ''-'' # ds \<and> is_digit_str ds \<and> v = - dec_val ds)) \<and>
     fits lo hi v"

text \<open>The limits of an integer type of at least eight bits.\<close>

definition int_limits :: "int \<Rightarrow> int \<Rightarrow> bool" where
  "int_limits lo hi \<longleftrightarrow> (lo = 0 \<or> lo \<le> - 9) \<and> 9 \<le> hi"

lemma str2num_digits_False:
  assumes "lo \<le> 0" and "9 \<le> hi"
  shows "str2num_digits lo hi False s =
    (if is_digit_str s \<and> fits lo hi (dec_val s) then Some (dec_val s) else None)"
proof (cases s)
  case Nil
  then show ?thesis by (simp add: str2num_digits_def is_digit_str_def)
next
  case (Cons c cs)
  show ?thesis
  proof (cases "is_digit c")
    case False
    then show ?thesis using Cons by (simp add: str2num_digits_def is_digit_str_def)
  next
    case True
    then have "0 \<le> digit_val c" "fits lo hi (digit_val c)"
      using digit_val_bounds [OF True] assms by (auto simp: fits_def)
    from str2num_loop_exact [OF assms(1) this]
    show ?thesis
      using True Cons
      by (simp add: str2num_digits_def is_digit_str_def dec_val_Cons digit_val_def [symmetric])
  qed
qed

lemma str2num_digits_True:
  assumes "lo \<le> - 9" and "0 \<le> hi"
  shows "str2num_digits lo hi True s =
    (if is_digit_str s \<and> fits lo hi (- dec_val s) then Some (- dec_val s) else None)"
proof -
  have "str2num_digits lo hi True s = map_option uminus (str2num_digits (- hi) (- lo) False s)"
    by (simp add: str2num_digits_def str2num_loop_neg split: list.split)
  then show ?thesis
    using str2num_digits_False [of "- hi" "- lo" s] assms fits_neg [of lo hi "dec_val s"] by simp
qed

lemma not_digit_minus [simp]: "\<not> is_digit (CHR ''-'')"
  by (simp add: is_digit_def char_le_code)

lemma str2num_literal:
  assumes "int_limits lo hi"
  shows "str2num lo hi s = Some v \<longleftrightarrow> literal_of lo hi s v"
proof -
  have lim: "lo \<le> 0" "9 \<le> hi" "lo < 0 \<Longrightarrow> lo \<le> - 9" using assms by (auto simp: int_limits_def)
  show ?thesis
  proof (cases "\<exists>ds. lo < 0 \<and> s = CHR ''-'' # ds")
    case True
    then obtain ds where ds: "lo < 0" "s = CHR ''-'' # ds" by blast
    then have "str2num lo hi s = str2num_digits lo hi True ds" by (simp add: str2num_def)
    moreover have "\<not> is_digit_str s" using ds by (simp add: is_digit_str_def)
    ultimately show ?thesis
      using str2num_digits_True [of lo hi ds] lim ds by (auto simp: literal_of_def)
  next
    case False
    then have "str2num lo hi s = str2num_digits lo hi False s"
      by (auto simp: str2num_def str2num_digits_def split: list.split)
    then show ?thesis
      using str2num_digits_False [OF lim(1,2), of s] False by (auto simp: literal_of_def)
  qed
qed

lemma is_digit_str_int_to_string: "is_digit_str (int_to_string x) \<longleftrightarrow> 0 \<le> x"
proof (cases "0 \<le> x")
  case True
  then show ?thesis using int_to_string_digits by simp
next
  case False
  then show ?thesis using int_to_string_neg [of x] by (simp add: is_digit_str_def)
qed

lemma literal_of_int_to_string:
  assumes "fits lo hi x"
  shows "literal_of lo hi (int_to_string x) x"
proof (cases "0 \<le> x")
  case True
  then show ?thesis using int_to_string_digits [of x] assms by (simp add: literal_of_def)
next
  case False
  then show ?thesis
    using int_to_string_neg [of x] int_to_string_digits [of "- x"] assms
    by (auto simp: literal_of_def fits_def)
qed

section \<open>Numeric order of strings\<close>

lemma lex_less_dec:
  assumes "length a = length b" and "list_all is_digit a" and "list_all is_digit b"
  shows "a < b \<longleftrightarrow> dec_val a < dec_val b"
  using assms
proof (induction a b rule: list_induct2)
  case Nil
  then show ?case by simp
next
  case (Cons x xs y ys)
  let ?p = "10 ^ length ys :: int"
  have v: "0 \<le> dec_val xs" "dec_val xs < ?p" "0 \<le> dec_val ys" "dec_val ys < ?p"
    using Cons dec_val_bounds [of xs] dec_val_bounds [of ys] by simp_all
  have val: "dec_val (x # xs) = digit_val x * ?p + dec_val xs"
    "dec_val (y # ys) = digit_val y * ?p + dec_val ys"
    using Cons(1) by (simp_all add: dec_val_Cons)
  have xy: "x < y \<longleftrightarrow> digit_val x < digit_val y" "x = y \<longleftrightarrow> digit_val x = digit_val y"
    by (auto simp: digit_val_def less_char_def)
  consider "digit_val x < digit_val y" | "digit_val x = digit_val y" | "digit_val y < digit_val x"
    by linarith
  then show ?case
  proof cases
    case 1
    then have "(digit_val x + 1) * ?p \<le> digit_val y * ?p" by (intro mult_right_mono) simp_all
    then have "dec_val (x # xs) < dec_val (y # ys)" using v unfolding val by (simp add: algebra_simps)
    then show ?thesis using 1 xy by simp
  next
    case 2
    then show ?thesis using Cons xy unfolding val by simp
  next
    case 3
    then have "(digit_val y + 1) * ?p \<le> digit_val x * ?p" by (intro mult_right_mono) simp_all
    then have "dec_val (y # ys) < dec_val (x # xs)" using v unfolding val by (simp add: algebra_simps)
    then show ?thesis using 3 xy by simp
  qed
qed

lemma remove_leading_zeros:
  assumes "list_all is_digit s"
  shows "list_all is_digit (remove_leading (CHR ''0'') s)"
    and "dec_val (remove_leading (CHR ''0'') s) = dec_val s"
    and "remove_leading (CHR ''0'') s \<noteq> [] \<Longrightarrow>
      10 ^ (length (remove_leading (CHR ''0'') s) - 1) \<le> dec_val s"
proof -
  have zero: "digit_val (CHR ''0'') = 0" by (simp add: digit_val_def)
  show digits: "list_all is_digit (remove_leading (CHR ''0'') s)"
    using assms by (auto simp: remove_leading_def list_all_iff dest: set_dropWhileD)
  show val: "dec_val (remove_leading (CHR ''0'') s) = dec_val s"
    by (induction s) (simp_all add: remove_leading_def dec_val_Cons zero)
  show "10 ^ (length (remove_leading (CHR ''0'') s) - 1) \<le> dec_val s"
    if ne: "remove_leading (CHR ''0'') s \<noteq> []"
  proof -
    obtain c cs where c: "remove_leading (CHR ''0'') s = c # cs" using ne by (cases "remove_leading (CHR ''0'') s") auto
    then have "c \<noteq> CHR ''0''" using hd_dropWhile [of "\<lambda>x. x = CHR ''0''" s] ne by (simp add: remove_leading_def)
    then have "code c \<noteq> code (CHR ''0'')" by (simp only: of_char_eq_iff not_False_eq_True)
    then have "digit_val c \<noteq> 0" by (simp add: digit_val_def)
    moreover have "is_digit c" "list_all is_digit cs" using digits c by simp_all
    ultimately have "1 \<le> digit_val c" "0 \<le> dec_val cs"
      using digit_val_bounds dec_val_bounds by fastforce+
    moreover from this have "1 * 10 ^ length cs \<le> digit_val c * 10 ^ length cs"
      by (intro mult_right_mono) simp_all
    ultimately have "1 * 10 ^ length cs \<le> digit_val c * 10 ^ length cs + dec_val cs" by linarith
    then show ?thesis using c val by (simp add: dec_val_Cons)
  qed
qed

lemma str_num_less_dec:
  assumes "list_all is_digit a" and "list_all is_digit b"
  shows "str_num_less a b \<longleftrightarrow> dec_val a < dec_val b"
proof -
  define x y where "x = remove_leading (CHR ''0'') a" and "y = remove_leading (CHR ''0'') b"
  have x: "list_all is_digit x" "dec_val x = dec_val a" "x \<noteq> [] \<Longrightarrow> 10 ^ (length x - 1) \<le> dec_val x"
    and y: "list_all is_digit y" "dec_val y = dec_val b" "y \<noteq> [] \<Longrightarrow> 10 ^ (length y - 1) \<le> dec_val y"
    using remove_leading_zeros [OF assms(1)] remove_leading_zeros [OF assms(2)]
    by (simp_all add: x_def y_def)
  have shorter: "dec_val u < dec_val v"
    if "length u < length v" "list_all is_digit u" "v \<noteq> [] \<Longrightarrow> 10 ^ (length v - 1) \<le> dec_val v"
    for u v
  proof -
    have "dec_val u < 10 ^ length u" using dec_val_bounds [OF that(2)] by simp
    also have "\<dots> \<le> 10 ^ (length v - 1)" using that(1) by (intro power_increasing) simp_all
    also have "\<dots> \<le> dec_val v" using that(1,3) by force
    finally show ?thesis .
  qed
  have "str_num_less a b \<longleftrightarrow> (if length x = length y then x < y else length x < length y)"
    by (simp add: str_num_less_def x_def y_def Let_def)
  also have "\<dots> \<longleftrightarrow> dec_val x < dec_val y"
    using lex_less_dec [of x y] shorter [of x y] shorter [of y x] x y
    by (cases "length x = length y") force+
  finally show ?thesis using x y by simp
qed

section \<open>Escapes\<close>

text \<open>Hexadecimal digits. The source asserts the ranges of the arguments.\<close>

definition hex2dec :: "char \<Rightarrow> nat" where
  "hex2dec c = (if c < CHR ''A'' then code c - 48
                else 10 + code c - (if CHR ''a'' \<le> c then 97 else 65))"

definition dec2hex :: "nat \<Rightarrow> char" where
  "dec2hex x = char_of (if x > 9 then 97 - 10 + x else x + 48)"

definition dec2Hex :: "nat \<Rightarrow> char" where
  "dec2Hex x = char_of (if x > 9 then 65 - 10 + x else x + 48)"

definition to_hex :: "string \<Rightarrow> string" where
  "to_hex s = concat (map (\<lambda>c. [dec2hex (drop_bit 4 (code c)), dec2hex (take_bit 4 (code c))]) s)"

text \<open>\<open>is_safe\<close> of \<open>encode_uri\<close>: the unreserved characters.\<close>

definition uri_safe :: "char \<Rightarrow> bool" where
  "uri_safe c \<longleftrightarrow> (CHR ''a'' \<le> c \<and> c \<le> CHR ''z'') \<or> (CHR ''A'' \<le> c \<and> c \<le> CHR ''Z'') \<or>
     (CHR ''0'' \<le> c \<and> c \<le> CHR ''9'') \<or> c \<in> set ''-_.~''"

definition encode_uri :: "string \<Rightarrow> string" where
  "encode_uri s = concat (map (\<lambda>c. if uri_safe c then [c]
     else [CHR ''%'', dec2Hex (drop_bit 4 (code c)), dec2Hex (take_bit 4 (code c))]) s)"

fun decode_uri :: "string \<Rightarrow> string" where
  "decode_uri [] = []"
| "decode_uri (c # a # b # cs) =
     (if c = CHR ''%'' \<and> is_xdigit a \<and> is_xdigit b
      then char_of ((push_bit 4 (hex2dec a)) OR (hex2dec b)) # decode_uri cs
      else (if c = CHR ''+'' then CHR '' '' else c) # decode_uri (a # b # cs))"
| "decode_uri (c # cs) = (if c = CHR ''+'' then CHR '' '' else c) # decode_uri cs"

definition html_escape_char :: "char \<Rightarrow> string" where
  "html_escape_char c =
     (if c = CHR ''&'' then ''&amp;''
      else if c = CHR 0x22 then ''&quot;''
      else if c = CHR 0x27 then ''&apos;''
      else if c = CHR ''<'' then ''&lt;''
      else if c = CHR ''>'' then ''&gt;''
      else [c])"

definition html_escape :: "string \<Rightarrow> string" where
  "html_escape s = concat (map html_escape_char s)"

definition json_escape_char :: "char \<Rightarrow> string" where
  "json_escape_char c =
     (if c = CHR 0x22 then [CHR 0x5C, CHR 0x22]
      else if c = CHR 0x0A then [CHR 0x5C, CHR ''n'']
      else if c = CHR 0x5C then [CHR 0x5C, CHR 0x5C]
      else if is_cntrl c
      then CHR 0x5C # ''u00'' @ [dec2hex (drop_bit 4 (code c)), dec2hex (take_bit 4 (code c))]
      else [c])"

definition append_stringified_json :: "string \<Rightarrow> string list \<Rightarrow> string" where
  "append_stringified_json str args =
     str @ [CHR 0x22] @ concat (map (\<lambda>arg. concat (map json_escape_char arg)) args) @ [CHR 0x22]"

definition json_stringify :: "string list \<Rightarrow> string" where
  "json_stringify args = append_stringified_json [] args"

definition is_a_continuation_byte :: "char \<Rightarrow> bool" where
  "is_a_continuation_byte c \<longleftrightarrow> code c AND 0xC0 = 0x80"

definition starts_2_byte_sequence :: "char \<Rightarrow> bool" where
  "starts_2_byte_sequence c \<longleftrightarrow> code c AND 0xE0 = 0xC0"

definition starts_3_byte_sequence :: "char \<Rightarrow> bool" where
  "starts_3_byte_sequence c \<longleftrightarrow> code c AND 0xF0 = 0xE0"

definition starts_4_byte_sequence :: "char \<Rightarrow> bool" where
  "starts_4_byte_sequence c \<longleftrightarrow> code c AND 0xF8 = 0xF0"

definition printable :: "char \<Rightarrow> bool" where
  "printable c \<longleftrightarrow> CHR 0x20 \<le> c \<and> c < CHR 0x7F"

definition escape_byte :: "char \<Rightarrow> string" where
  "escape_byte c =
     (if c = CHR 0x0A then [CHR 0x5C, CHR ''n'']
      else if c = CHR 0x09 then [CHR 0x5C, CHR ''t'']
      else if c = CHR 0x0D then [CHR 0x5C, CHR ''r'']
      else if c = CHR 0x00 then [CHR 0x5C, CHR ''0'']
      else [CHR 0x5C, CHR ''x'', dec2hex (drop_bit 4 (code c)), dec2hex (take_bit 4 (code c))])"

text \<open>The loop over the bytes: how many bytes the sequence at the front takes, if it is one.\<close>

definition utf8_len :: "string \<Rightarrow> nat" where
  "utf8_len s =
     (case s of
        [] \<Rightarrow> 0
      | c # cs \<Rightarrow>
          (if printable c then 1
           else if starts_2_byte_sequence c \<and> 1 \<le> length cs \<and> is_a_continuation_byte (cs ! 0)
           then 2
           else if starts_3_byte_sequence c \<and> 2 \<le> length cs \<and> is_a_continuation_byte (cs ! 0) \<and>
             is_a_continuation_byte (cs ! 1)
           then 3
           else if starts_4_byte_sequence c \<and> 3 \<le> length cs \<and> is_a_continuation_byte (cs ! 0) \<and>
             is_a_continuation_byte (cs ! 1) \<and> is_a_continuation_byte (cs ! 2)
           then 4
           else 0))"

function escape_bytes :: "string \<Rightarrow> string" where
  "escape_bytes [] = []"
| "escape_bytes (c # cs) =
     (let n = utf8_len (c # cs)
      in if n = 0 then escape_byte c @ escape_bytes cs
         else take n (c # cs) @ escape_bytes (drop n (c # cs)))"
  by pat_completeness auto
termination by (relation "measure length") auto

definition escape_bytes_to_utf8_str :: "string \<Rightarrow> string \<Rightarrow> string \<Rightarrow> string" where
  "escape_bytes_to_utf8_str prefix bytes suffix = prefix @ escape_bytes bytes @ suffix"

datatype adjustment = LEFT | RIGHT

definition padded_string :: "string \<Rightarrow> nat \<Rightarrow> adjustment \<Rightarrow> char \<Rightarrow> string" where
  "padded_string str len adj filler =
     (if len \<le> length str then str
      else case adj of
             LEFT \<Rightarrow> str @ replicate (len - length str) filler
           | RIGHT \<Rightarrow> replicate (len - length str) filler @ str)"

text \<open>\<open>slow_equal\<close>: the comparison that takes the same time for every pair of strings of a length.\<close>

fun slow_equal_loop :: "nat \<Rightarrow> string \<Rightarrow> string \<Rightarrow> nat \<Rightarrow> nat" where
  "slow_equal_loop 0 s t rc = rc"
| "slow_equal_loop (Suc len) (c # s) (d # t) rc =
     slow_equal_loop len s t (rc OR (code c XOR code d))"
| "slow_equal_loop (Suc len) s t rc = rc"

definition slow_equal :: "string \<Rightarrow> string \<Rightarrow> bool" where
  "slow_equal s t \<longleftrightarrow>
     slow_equal_loop (min (length s) (length t)) s t 0 = 0 \<and> length s = length t"

section \<open>Facts about the escapes\<close>

lemma or_nibbles: "b < 16 \<Longrightarrow> push_bit 4 a OR b = 16 * a + (b :: nat)"
proof -
  assume b: "b < 16"
  then have t: "take_bit 4 b = b" by (simp add: take_bit_nat_eq_self)
  have "push_bit 4 a AND b = 0"
  proof (rule bit_eqI)
    fix n
    have "\<not> bit b n" if "4 \<le> n" using that by (subst t [symmetric]) (simp add: bit_take_bit_iff)
    then show "bit (push_bit 4 a AND b) n \<longleftrightarrow> bit 0 n" by (auto simp: bit_and_iff bit_push_bit_iff)
  qed
  from disjunctive_add_eq_or [OF this] have "push_bit 4 a OR b = push_bit 4 a + b" by simp
  then show ?thesis by (simp add: push_bit_eq_mult)
qed

lemma nibbles: "16 * drop_bit 4 n + take_bit 4 n = (n :: nat)"
  using mult_div_mod_eq [of 16 n] by (simp add: drop_bit_eq_div take_bit_eq_mod)

lemma nibble_bounds [simp]: "take_bit 4 (n :: nat) < 16" "drop_bit 4 (code c) < 16"
  using code_less [of c] by (simp_all add: take_bit_eq_mod drop_bit_eq_div less_mult_imp_div_less)

lemma hex_digits:
  assumes "k < 16"
  shows "hex2dec (dec2hex k) = k" and "is_xdigit (dec2hex k)"
    and "hex2dec (dec2Hex k) = k" and "is_xdigit (dec2Hex k)"
  using assms
  by (auto simp: hex2dec_def dec2hex_def dec2Hex_def is_xdigit_def is_digit_code char_le_code
      less_char_def of_char_of)

lemma hex_pair: "char_of (push_bit 4 (hex2dec (dec2Hex (drop_bit 4 (code c)))) OR
    hex2dec (dec2Hex (take_bit 4 (code c)))) = c"
  by (simp add: hex_digits or_nibbles nibbles)

text \<open>URI\<close>

lemma decode_uri_plain:
  "c \<noteq> CHR ''%'' \<Longrightarrow> c \<noteq> CHR ''+'' \<Longrightarrow> decode_uri (c # r) = c # decode_uri r"
  by (cases r; cases "tl r") auto

lemma uri_safe_plain: "uri_safe c \<Longrightarrow> c \<noteq> CHR ''%'' \<and> c \<noteq> CHR ''+''"
  by (auto simp: uri_safe_def char_le_code)

lemma encode_uri_Cons:
  "decode_uri (encode_uri (c # s)) = c # decode_uri (encode_uri s)"
proof (cases "uri_safe c")
  case True
  then show ?thesis using uri_safe_plain [of c] by (simp add: encode_uri_def decode_uri_plain)
next
  case False
  then show ?thesis by (simp add: encode_uri_def hex_digits or_nibbles nibbles)
qed

text \<open>HTML: a reader of the five character references.\<close>

definition html_specials :: "char set" where
  "html_specials = {CHR ''<'', CHR ''>'', CHR 0x22, CHR 0x27}"

function html_unescape :: "string \<Rightarrow> string" where
  "html_unescape [] = []"
| "html_unescape (c # cs) =
     (if take 5 (c # cs) = ''&amp;'' then CHR ''&'' # html_unescape (drop 5 (c # cs))
      else if take 6 (c # cs) = ''&quot;'' then CHR 0x22 # html_unescape (drop 6 (c # cs))
      else if take 6 (c # cs) = ''&apos;'' then CHR 0x27 # html_unescape (drop 6 (c # cs))
      else if take 4 (c # cs) = ''&lt;'' then CHR ''<'' # html_unescape (drop 4 (c # cs))
      else if take 4 (c # cs) = ''&gt;'' then CHR ''>'' # html_unescape (drop 4 (c # cs))
      else c # html_unescape cs)"
  by pat_completeness auto
termination by (relation "measure length") auto

declare html_unescape.simps(2) [simp del]

lemma html_unescape_char: "html_unescape (html_escape_char c @ r) = c # html_unescape r"
proof -
  consider "c = CHR ''&''" | "c = CHR 0x22" | "c = CHR 0x27" | "c = CHR ''<''" | "c = CHR ''>''"
    | "c \<noteq> CHR ''&''" "c \<noteq> CHR 0x22" "c \<noteq> CHR 0x27" "c \<noteq> CHR ''<''" "c \<noteq> CHR ''>''"
    by blast
  then show ?thesis
  proof cases
    case 6
    then have "html_escape_char c = [c]" by (simp add: html_escape_char_def)
    then show ?thesis using 6 by (simp add: html_unescape.simps(2))
  qed (simp_all add: html_escape_char_def html_unescape.simps(2))
qed

lemma html_escape_char_safe: "set (html_escape_char c) \<inter> html_specials = {}"
  by (auto simp: html_escape_char_def html_specials_def split: if_splits)

lemma set_html_escape: "set (html_escape s) \<inter> html_specials = {}"
  using html_escape_char_safe by (auto simp: html_escape_def)

lemma html_unescape_escape: "html_unescape (html_escape s) = s"
  by (induction s) (simp_all add: html_escape_def html_unescape_char)

text \<open>
  JSON (RFC 8259): a reader of the characters after the opening quotation mark up to the closing
  one, over bytes: it refuses raw control characters below 0x20 and unknown escapes; \<open>\u\<close> is read
  for the code points of one byte.
\<close>

function json_read :: "string \<Rightarrow> (string \<times> string) option" where
  "json_read [] = None"
| "json_read (c # cs) =
     (if c = CHR 0x22 then Some ([], cs)
      else if c < CHR 0x20 then None
      else if c \<noteq> CHR 0x5C then map_option (apfst (Cons c)) (json_read cs)
      else if cs = [] then None
      else if hd cs = CHR 0x22 \<or> hd cs = CHR 0x5C
      then map_option (apfst (Cons (hd cs))) (json_read (tl cs))
      else if hd cs = CHR ''n'' then map_option (apfst (Cons (CHR 0x0A))) (json_read (tl cs))
      else if take 3 cs = ''u00'' \<and> 5 \<le> length cs \<and> is_xdigit (cs ! 3) \<and> is_xdigit (cs ! 4)
      then map_option (apfst (Cons (char_of (16 * hex2dec (cs ! 3) + hex2dec (cs ! 4)))))
        (json_read (drop 5 cs))
      else None)"
  by pat_completeness auto
termination
  by (relation "measure length") (auto simp: length_greater_0_conv [symmetric] simp del: length_greater_0_conv)

declare json_read.simps(2) [simp del]

lemma not_cntrl: "\<not> is_cntrl c \<Longrightarrow> \<not> c < CHR 0x20"
  by (auto simp: is_cntrl_def char_le_code less_char_def)

lemma json_read_char: "json_read (json_escape_char c @ r) = map_option (apfst (Cons c)) (json_read r)"
proof -
  consider "c = CHR 0x22" | "c = CHR 0x0A" | "c = CHR 0x5C"
    | "is_cntrl c" "c \<noteq> CHR 0x22" "c \<noteq> CHR 0x0A" "c \<noteq> CHR 0x5C"
    | "\<not> is_cntrl c" "c \<noteq> CHR 0x22" "c \<noteq> CHR 0x0A" "c \<noteq> CHR 0x5C"
    by blast
  then show ?thesis
  proof cases
    case 4
    then have "json_escape_char c = CHR 0x5C # ''u00'' @
        [dec2hex (drop_bit 4 (code c)), dec2hex (take_bit 4 (code c))]"
      by (simp add: json_escape_char_def)
    then show ?thesis
      by (simp add: json_read.simps(2) less_char_def hex_digits nibbles)
  next
    case 5
    then have "json_escape_char c = [c]" by (simp add: json_escape_char_def)
    then show ?thesis using 5 not_cntrl by (simp add: json_read.simps(2))
  qed (simp_all add: json_escape_char_def json_read.simps(2) less_char_def)
qed

lemma json_read_escaped:
  "json_read (concat (map json_escape_char s) @ r) = map_option (apfst ((@) s)) (json_read r)"
proof (induction s)
  case Nil
  then show ?case by (cases "json_read r") auto
next
  case (Cons c s)
  then show ?case
    by (simp add: json_read_char option.map_comp o_def apfst_def map_prod_def case_prod_beta)
qed

lemma json_read_args:
  "json_read (concat (map (\<lambda>arg. concat (map json_escape_char arg)) args) @ r) =
     map_option (apfst ((@) (concat args))) (json_read r)"
proof (induction args)
  case Nil
  then show ?case by (cases "json_read r") auto
next
  case (Cons a args)
  then show ?case
    by (simp add: json_read_escaped option.map_comp o_def apfst_def map_prod_def case_prod_beta)
qed

text \<open>UTF-8: printable ASCII and sequences of a lead byte and its continuation bytes.\<close>

inductive utf8_text :: "string \<Rightarrow> bool" where
  utf8_Nil: "utf8_text []"
| utf8_1: "printable c \<Longrightarrow> utf8_text s \<Longrightarrow> utf8_text (c # s)"
| utf8_2: "starts_2_byte_sequence a \<Longrightarrow> is_a_continuation_byte b \<Longrightarrow> utf8_text s \<Longrightarrow>
     utf8_text (a # b # s)"
| utf8_3: "starts_3_byte_sequence a \<Longrightarrow> is_a_continuation_byte b \<Longrightarrow> is_a_continuation_byte c \<Longrightarrow>
     utf8_text s \<Longrightarrow> utf8_text (a # b # c # s)"
| utf8_4: "starts_4_byte_sequence a \<Longrightarrow> is_a_continuation_byte b \<Longrightarrow> is_a_continuation_byte c \<Longrightarrow>
     is_a_continuation_byte d \<Longrightarrow> utf8_text s \<Longrightarrow> utf8_text (a # b # c # d # s)"

lemma length_ge_Suc: "Suc n \<le> length xs \<longleftrightarrow> (\<exists>y ys. xs = y # ys \<and> n \<le> length ys)"
  by (cases xs) auto

lemma dec2hex_printable: "k < 16 \<Longrightarrow> printable (dec2hex k)"
  by (auto simp: printable_def dec2hex_def char_le_code less_char_def of_char_of)

lemma utf8_escape_byte: "utf8_text s \<Longrightarrow> utf8_text (escape_byte c @ s)"
  by (auto simp: escape_byte_def dec2hex_printable intro!: utf8_1)
    (simp_all add: printable_def char_le_code less_char_def)

lemma utf8_take:
  assumes "utf8_len s \<noteq> 0" and "utf8_text r"
  shows "utf8_text (take (utf8_len s) s @ r)"
  using assms
  by (auto simp: utf8_len_def length_ge_Suc numeral_2_eq_2 numeral_3_eq_3 eval_nat_numeral
      split: list.splits if_splits intro: utf8_text.intros)

lemma utf8_escape_bytes: "utf8_text (escape_bytes s)"
proof (induction s rule: escape_bytes.induct)
  case 1
  then show ?case by (simp add: utf8_Nil)
next
  case (2 c cs)
  show ?case
  proof (cases "utf8_len (c # cs) = 0")
    case True
    then show ?thesis using 2(1) [OF refl] by (simp add: utf8_escape_byte)
  next
    case False
    then show ?thesis using 2(2) [OF refl False] utf8_take [OF False]
      by (subst escape_bytes.simps) (simp add: Let_def)
  qed
qed

lemma masked_bits:
  "starts_2_byte_sequence c \<Longrightarrow> bit (code c) 7 \<and> \<not> bit (code c) 5"
  "starts_3_byte_sequence c \<Longrightarrow> bit (code c) 7 \<and> bit (code c) 5 \<and> \<not> bit (code c) 4"
  "starts_4_byte_sequence c \<Longrightarrow> bit (code c) 7 \<and> bit (code c) 5 \<and> bit (code c) 4"
  unfolding starts_2_byte_sequence_def starts_3_byte_sequence_def starts_4_byte_sequence_def
  by (drule bit_eq_iff [THEN iffD1], simp add: bit_and_iff,
      frule spec [of _ 7], frule spec [of _ 5], drule spec [of _ 4], simp add: bit_iff_odd)+

lemma printable_bit: "printable c \<Longrightarrow> \<not> bit (code c) 7"
  by (simp add: printable_def less_char_def bit_iff_odd)

lemma starts_disjoint:
  "starts_2_byte_sequence c \<Longrightarrow> \<not> printable c"
  "starts_3_byte_sequence c \<Longrightarrow> \<not> printable c"
  "starts_4_byte_sequence c \<Longrightarrow> \<not> printable c"
  "starts_3_byte_sequence c \<Longrightarrow> \<not> starts_2_byte_sequence c"
  "starts_4_byte_sequence c \<Longrightarrow> \<not> starts_2_byte_sequence c"
  "starts_4_byte_sequence c \<Longrightarrow> \<not> starts_3_byte_sequence c"
  using masked_bits [of c] printable_bit [of c] by blast+

lemma escape_utf8_text: "utf8_text s \<Longrightarrow> escape_bytes s = s"
proof (induction rule: utf8_text.induct)
  case utf8_Nil
  then show ?case by simp
qed (simp_all add: utf8_len_def starts_disjoint Let_def)

text \<open>The comparison in constant time.\<close>

lemma or_eq_0: "(a :: nat) OR b = 0 \<longleftrightarrow> a = 0 \<and> b = 0"
  by (metis or.right_neutral or_eq_0_iff)

lemma slow_equal_loop_0:
  "length s = length t \<Longrightarrow> slow_equal_loop (length s) s t rc = 0 \<longleftrightarrow> rc = 0 \<and> s = t"
proof (induction s t arbitrary: rc rule: list_induct2)
  case Nil
  then show ?case by simp
next
  case (Cons c s d t)
  have "code c XOR code d = 0 \<longleftrightarrow> c = d"
    by (metis of_char_eq_iff xor_self_eq xor.assoc xor.left_neutral xor.right_neutral)
  then show ?case using Cons by (auto simp: or_eq_0)
qed

section \<open>Properties\<close>

text \<open>
  C36. str2num is exact: for every integer type it returns a number exactly when the whole string is
  a decimal literal (with a minus only for signed types) whose value fits the type, and then it
  returns that value, so the overflow checks of the loop reject nothing else; what to_string writes
  for a value of the type reads back as that value.
\<close>

theorem str2num_exact:
  assumes "int_limits lo hi" and "fits lo hi x"
  shows "(str2num lo hi s = Some v \<longleftrightarrow> literal_of lo hi s v) \<and>
    str2num lo hi (int_to_string x) = Some x"
  using str2num_literal [OF assms(1)] literal_of_int_to_string [OF assms(2)] by blast

lemma str2num_exact_witness:
  "str2num i64_min i64_max (int_to_string (- 5)) = Some (- 5) \<and>
   str2num i64_min i64_max ''-9223372036854775809'' \<noteq> Some (- 9223372036854775809)"
proof -
  have limits: "int_limits i64_min i64_max" "fits i64_min i64_max (- 5)"
    by (simp_all add: int_limits_def i64_min_def i64_max_def fits_def)
  have "\<not> literal_of i64_min i64_max ''-9223372036854775809'' (- 9223372036854775809)"
    by (simp add: literal_of_def fits_def i64_min_def)
  then show ?thesis
    using str2num_exact [OF limits, of "''-9223372036854775809''" "- 9223372036854775809"] by blast
qed

text \<open>
  The bounds on digit strings are numeric: StrNumCompare, which compares lengths after the
  leading zeros and then characters, makes is_digit_not_greater_than accept exactly the non-empty
  strings of digits whose value is at most the bound, of any length and with any leading zeros, and
  is_digit_not_less_than those whose value is at least the bound.
\<close>

theorem digit_string_bounds:
  "(is_digit_not_greater_than m s \<longleftrightarrow> is_digit_str s \<and> dec_val s \<le> int m) \<and>
   (is_digit_not_less_than m s \<longleftrightarrow> is_digit_str s \<and> int m \<le> dec_val s)"
  using str_num_less_dec [of "int_to_string (int m)" s] str_num_less_dec [of s "int_to_string (int m)"]
    int_to_string_digits [of "int m"]
  by (auto simp: is_digit_not_greater_than_def is_digit_not_less_than_def is_digit_str_def)

text \<open>
  JSON strings read back: what append_stringified_json writes is a quotation mark, then a body
  that a reader of JSON strings (which refuses raw control characters and unknown escapes) decodes,
  up to its closing quotation mark at the very end, to the bytes of the arguments. No argument can
  end the string early.
\<close>

theorem json_stringify_reads_back:
  "\<exists>body. json_stringify args = CHR 0x22 # body \<and> json_read body = Some (concat args, [])"
proof -
  let ?body = "concat (map (\<lambda>arg. concat (map json_escape_char arg)) args) @ [CHR 0x22]"
  have "json_read [CHR 0x22] = Some ([], [])" by (simp add: json_read.simps(2))
  then have "json_read ?body = Some (concat args, [])" by (simp add: json_read_args)
  moreover have "json_stringify args = CHR 0x22 # ?body"
    by (simp add: json_stringify_def append_stringified_json_def)
  ultimately show ?thesis by blast
qed

text \<open>
  URI encoding is lossless: decode_uri undoes encode_uri on every string of bytes.
\<close>

theorem uri_roundtrip: "decode_uri (encode_uri s) = s"
proof (induction s)
  case Nil
  then show ?case by (simp add: encode_uri_def)
next
  case (Cons c s)
  then show ?case by (simp add: encode_uri_Cons)
qed

text \<open>
  html_escape is safe and lossless: its output contains none of the characters that open or
  close a tag or an attribute value, and reading its character references gives the input back.
\<close>

theorem html_escape_safe:
  "set (html_escape s) \<inter> html_specials = {} \<and> html_unescape (html_escape s) = s"
  using set_html_escape html_unescape_escape by blast

text \<open>
  escape_bytes_to_utf8_str makes any bytes into text: its output between the prefix and the
  suffix consists of printable ASCII characters and of lead bytes followed by their continuation
  bytes, and it leaves the bytes as they are exactly when they already have that form.
\<close>

theorem escape_bytes_makes_text:
  "\<exists>body. escape_bytes_to_utf8_str prefix bytes suffix = prefix @ body @ suffix \<and>
     utf8_text body \<and> (body = bytes \<longleftrightarrow> utf8_text bytes)"
  unfolding escape_bytes_to_utf8_str_def
  by (rule exI [of _ "escape_bytes bytes"]) (metis utf8_escape_bytes escape_utf8_text)

text \<open>
  slow_equal, the comparison in constant time used for secrets, is equality of strings.
\<close>

theorem slow_equal_iff: "slow_equal s t \<longleftrightarrow> s = t"
  using slow_equal_loop_0 [of s t 0] by (auto simp: slow_equal_def)

end
