(* ===== verification/Test_Names.thy ===== *)
theory Test_Names
  imports String_Utils
begin

text \<open>
  Test names of a problem package: how a name splits into the id of its group and the id of the test
  (\<open>Simfile::TestNameComparator\<close> in simlib/sim/simfile.hh) and the order of names, which rests on
  \<open>StrVersionCompare\<close> of string_compare.hh. The order is shown to be the lexicographic order of a key.
\<close>

section \<open>StrVersionCompare\<close>

fun common_prefix_len :: "string \<Rightarrow> string \<Rightarrow> nat" where
  "common_prefix_len (a # as) (b # bs) = (if a = b then Suc (common_prefix_len as bs) else 0)"
| "common_prefix_len as bs = 0"

text \<open>The start of the run of digits that ends before position \<open>n\<close>.\<close>

fun digits_start :: "string \<Rightarrow> nat \<Rightarrow> nat" where
  "digits_start a 0 = 0"
| "digits_start a (Suc n) = (if is_digit (a ! n) then digits_start a n else Suc n)"

fun remove_leading_zeros_but_one :: "string \<Rightarrow> string" where
  "remove_leading_zeros_but_one [] = []"
| "remove_leading_zeros_but_one (c # cs) =
     (if c = CHR ''0'' \<and> cs \<noteq> [] then remove_leading_zeros_but_one cs else c # cs)"

definition str_version_less :: "string \<Rightarrow> string \<Rightarrow> bool" where
  "str_version_less a b =
     (let pf = common_prefix_len a b;
          adigit = pf < length a \<and> is_digit (a ! pf);
          bdigit = pf < length b \<and> is_digit (b ! pf)
      in if \<not> adigit \<and> \<not> bdigit then drop pf a < drop pf b
         else
           (let beg = digits_start a pf;
                numa = takeWhile is_digit (drop beg a);
                numb = takeWhile is_digit (drop beg b)
            in if numa = [] \<or> numb = [] then drop pf a < drop pf b
               else
                 (let a' = remove_leading_zeros_but_one numa;
                      b' = remove_leading_zeros_but_one numb;
                      a_zeros = length numa - length a';
                      b_zeros = length numb - length b'
                  in if a_zeros = 0 \<and> b_zeros = 0
                     then (if length a' = length b' then a' < b' else length a' < length b')
                     else if a_zeros = 0 then False
                     else if b_zeros = 0 then True
                     else if a_zeros = b_zeros then a' < b'
                     else a_zeros > b_zeros)))"

section \<open>Splitting and comparing names\<close>

text \<open>\<open>extract_trailing\<close>: the longest suffix of such characters and what is before it.\<close>

definition extract_trailing :: "(char \<Rightarrow> bool) \<Rightarrow> string \<Rightarrow> string \<times> string" where
  "extract_trailing f s = (rev (takeWhile f (rev s)), rev (dropWhile f (rev s)))"

definition split_name :: "string \<Rightarrow> string \<times> string" where
  "split_name test_name =
     (let (tid, rest) = extract_trailing is_alpha test_name
      in (fst (extract_trailing is_digit rest), tid))"

fun normalize_gid :: "string \<Rightarrow> string" where
  "normalize_gid (c # d # cs) = (if c = CHR ''0'' then normalize_gid (d # cs) else c # d # cs)"
| "normalize_gid s = s"

definition test_name_less :: "string \<Rightarrow> string \<Rightarrow> bool" where
  "test_name_less a b =
     (let (xg, xt) = split_name a;
          (yg, yt) = split_name b;
          xg = normalize_gid xg;
          yg = normalize_gid yg
      in if xt = ''ocen'' \<and> yt = ''ocen'' then str_version_less xg yg
         else
           (let xg = (if xt = ''ocen'' then ''0'' else xg);
                yg = (if yt = ''ocen'' then ''0'' else yg)
            in if xg = yg then xt < yt else str_version_less xg yg))"

section \<open>Group ids as numbers\<close>

text \<open>A group id as a number; the empty id comes before all others.\<close>

definition gid_num :: "string \<Rightarrow> int" where
  "gid_num g = (if g = [] then - 1 else dec_val g)"

definition normal_gid :: "string \<Rightarrow> bool" where
  "normal_gid g \<longleftrightarrow> list_all is_digit g \<and> (1 < length g \<longrightarrow> hd g \<noteq> CHR ''0'')"

lemma split_name_parts:
  "split_name s = (g, t) \<Longrightarrow> list_all is_digit g \<and> list_all is_alpha t"
  by (auto simp: split_name_def extract_trailing_def list_all_rev list_all_iff
      dest: set_takeWhileD)

lemma digit_0 [simp]: "digit_val (CHR ''0'') = 0" "is_digit (CHR ''0'')"
  by (simp_all add: digit_val_def is_digit_code)

lemma normalize_gid:
  "list_all is_digit g \<Longrightarrow> normal_gid (normalize_gid g) \<and> gid_num (normalize_gid g) = gid_num g"
proof (induction g rule: normalize_gid.induct)
  case (1 c d cs)
  then show ?case by (auto simp: normal_gid_def gid_num_def dec_val_Cons)
qed (simp_all add: normal_gid_def)

lemma normal_dec_val:
  assumes "normal_gid g" and "1 < length g"
  shows "10 ^ (length g - 1) \<le> dec_val g"
proof -
  obtain c cs where g: "g = c # cs" using assms(2) by (cases g) auto
  then have "is_digit c" "c \<noteq> CHR ''0''" "list_all is_digit cs"
    using assms by (auto simp: normal_gid_def)
  then have "0 \<le> digit_val c" "digit_val c \<noteq> 0" "0 \<le> dec_val cs"
    using digit_val_bounds dec_val_bounds of_char_eq_iff [of c "CHR ''0''", where 'a = nat]
    by (auto simp: digit_val_def)
  then have "1 * 10 ^ length cs \<le> digit_val c * 10 ^ length cs" by (intro mult_right_mono) simp_all
  then have "10 ^ length cs \<le> digit_val c * 10 ^ length cs + dec_val cs"
    using \<open>0 \<le> dec_val cs\<close> by linarith
  then show ?thesis using g by (simp add: dec_val_Cons)
qed

lemma normal_num_less:
  assumes "normal_gid a" and "normal_gid b" and "a \<noteq> []" and "b \<noteq> []"
  shows "(if length a = length b then a < b else length a < length b) \<longleftrightarrow> dec_val a < dec_val b"
proof -
  have shorter: "dec_val u < dec_val v"
    if "length u < length v" "u \<noteq> []" "normal_gid u" "normal_gid v" for u v
  proof -
    have "dec_val u < 10 ^ length u" using dec_val_bounds that(3) by (simp add: normal_gid_def)
    also have "\<dots> \<le> 10 ^ (length v - 1)" using that(1) by (intro power_increasing) simp_all
    also have "\<dots> \<le> dec_val v" using normal_dec_val that by (metis One_nat_def Suc_lessI length_greater_0_conv less_trans_Suc not_less_eq)
    finally show ?thesis .
  qed
  show ?thesis
    using lex_less_dec [of a b] shorter [of a b] shorter [of b a] assms
    by (cases "length a = length b") (force simp: normal_gid_def)+
qed

lemma common_prefix_len:
  "common_prefix_len a b \<le> length a" "common_prefix_len a b \<le> length b"
  "take (common_prefix_len a b) a = take (common_prefix_len a b) b"
  by (induction a b rule: common_prefix_len.induct) auto

lemma digits_start_0: "list_all is_digit a \<Longrightarrow> n \<le> length a \<Longrightarrow> digits_start a n = 0"
  by (induction n) (auto simp: list_all_length)

lemma zeros_but_one_normal: "normal_gid g \<Longrightarrow> remove_leading_zeros_but_one g = g"
  by (cases g) (auto simp: normal_gid_def)

lemma gid_num_nonneg: "list_all is_digit g \<Longrightarrow> g \<noteq> [] \<Longrightarrow> 0 \<le> gid_num g"
  using dec_val_bounds by (simp add: gid_num_def)

lemma str_version_less_gid:
  assumes "normal_gid a" and "normal_gid b"
  shows "str_version_less a b \<longleftrightarrow> gid_num a < gid_num b"
proof -
  define pf where "pf = common_prefix_len a b"
  note pf = common_prefix_len [of a b, folded pf_def]
  have digits: "list_all is_digit a" "list_all is_digit b"
    using assms by (simp_all add: normal_gid_def)
  then have ad: "(pf < length a \<and> is_digit (a ! pf)) = (pf < length a)"
    "(pf < length b \<and> is_digit (b ! pf)) = (pf < length b)"
    by (auto simp: list_all_length)
  have num: "takeWhile is_digit a = a" "takeWhile is_digit b = b" "digits_start a pf = 0"
    using digits pf digits_start_0 by (auto simp: takeWhile_eq_all_conv list_all_iff)
  show ?thesis
  proof (cases "pf < length a \<or> pf < length b")
    case False
    then have "a = b" using pf by simp
    then show ?thesis using False by (simp add: str_version_less_def Let_def pf_def [symmetric])
  next
    case True
    then have less: "str_version_less a b \<longleftrightarrow>
        (if a = [] \<or> b = [] then drop pf a < drop pf b
         else if length a = length b then a < b else length a < length b)"
      unfolding str_version_less_def Let_def pf_def [symmetric] ad num(3)
      using assms True by (auto simp: num zeros_but_one_normal)
    consider "a = []" | "a \<noteq> []" "b = []" | "a \<noteq> []" "b \<noteq> []" by blast
    then show ?thesis
    proof cases
      case 1
      then have "b \<noteq> []" "pf = 0" using True pf by auto
      then show ?thesis
        using less 1 gid_num_nonneg [OF digits(2)] by (cases b) (simp_all add: gid_num_def)
    next
      case 2
      then show ?thesis using less pf gid_num_nonneg [OF digits(1)] by (simp add: gid_num_def)
    next
      case 3
      then show ?thesis using less normal_num_less [OF assms 3] by (simp add: gid_num_def)
    qed
  qed
qed

lemma normal_gid_eq:
  assumes "normal_gid a" and "normal_gid b"
  shows "a = b \<longleftrightarrow> gid_num a = gid_num b"
proof (cases "a = [] \<or> b = []")
  case True
  then show ?thesis
    using assms gid_num_nonneg [of a] gid_num_nonneg [of b]
    by (cases "a = []"; cases "b = []") (auto simp: gid_num_def normal_gid_def)
next
  case False
  then show ?thesis
    using normal_num_less [OF assms] normal_num_less [OF assms(2,1)]
    by (auto simp: gid_num_def) (metis linorder_neqE_nat neq_iff)
qed

section \<open>The order of names\<close>

text \<open>
  The key of a name: the number of its group (0 for a test called ocen), the id of the test, and for
  a test called ocen the number in its name.
\<close>

type_synonym name_key = "int \<times> string \<times> int"

definition name_key :: "string \<Rightarrow> name_key" where
  "name_key s =
     (let (g, t) = split_name s
      in if t = ''ocen'' then (0, t, gid_num g) else (gid_num g, t, 0))"

definition key_less :: "name_key \<Rightarrow> name_key \<Rightarrow> bool" where
  "key_less a b \<longleftrightarrow>
     (case (a, b) of ((n, t, m), (n', t', m')) \<Rightarrow> n < n' \<or> n = n' \<and> (t < t' \<or> t = t' \<and> m < m'))"

lemma key_less_order:
  "\<not> key_less a a" "key_less a b \<Longrightarrow> key_less b c \<Longrightarrow> key_less a c"
  "key_less a b \<or> a = b \<or> key_less b a"
  by (auto simp: key_less_def split: prod.splits)

lemma normal_0: "normal_gid ''0''" "gid_num ''0'' = 0"
  by (simp_all add: normal_gid_def gid_num_def dec_val_Cons)

text \<open>
  The order that sorts tests and groups of a package is a total order on keys: names compare by
  the numeric value of the group id (whatever its leading zeros; the empty id first and the tests
  called ocen in group 0), then by the test id, then, for two ocen tests, by the number in the name.
\<close>

theorem test_name_order: "test_name_less a b \<longleftrightarrow> key_less (name_key a) (name_key b)"
proof -
  obtain xg xt yg yt where s: "split_name a = (xg, xt)" "split_name b = (yg, yt)"
    by (metis surj_pair)
  then have d: "list_all is_digit xg" "list_all is_digit yg" using split_name_parts by blast+
  note x = normalize_gid [OF d(1)] and y = normalize_gid [OF d(2)]
  have gids: "str_version_less u v \<longleftrightarrow> gid_num u < gid_num v" "u = v \<longleftrightarrow> gid_num u = gid_num v"
    if "u \<in> {''0'', normalize_gid xg}" "v \<in> {''0'', normalize_gid yg}" for u v
    using that x y normal_0 str_version_less_gid normal_gid_eq by auto
  let ?nx = "normalize_gid xg"
  let ?ny = "normalize_gid yg"
  note eqs = gids [of ?nx ?ny, simplified] gids [of "''0''" ?ny, simplified]
    gids [of ?nx "''0''", simplified] gids [of "''0''" "''0''", simplified]
  show ?thesis
    by (cases "xt = ''ocen''"; cases "yt = ''ocen''")
      (simp_all add: test_name_less_def name_key_def key_less_def s Let_def eqs x y normal_0(2))
qed

end
