(* ===== verification/Path_Utils.thy ===== *)
theory Path_Utils
  imports String_Utils
begin

text \<open>
  Paths (src/subprojects/simlib/src/path.cc and include/simlib/path.hh): \<open>path_absolute\<close>, which the
  package code uses to keep every path of an uploaded Simfile inside the package, and the functions
  that cut a path at its last slash.
\<close>

section \<open>The functions\<close>

abbreviation slash :: char where
  "slash \<equiv> CHR ''/''"

definition path_filename :: "string \<Rightarrow> string" where
  "path_filename path = rev (takeWhile (\<lambda>c. c \<noteq> slash) (rev path))"

definition path_dirpath :: "string \<Rightarrow> string" where
  "path_dirpath path = rev (dropWhile (\<lambda>c. c \<noteq> slash) (rev path))"

text \<open>\<open>has_suffix(s, "/")\<close>\<close>

definition ends_with_slash :: "string \<Rightarrow> bool" where
  "ends_with_slash s \<longleftrightarrow> s \<noteq> [] \<and> last s = slash"

definition erase_last_component :: "string \<Rightarrow> string" where
  "erase_last_component curr_path =
     (let p = (if ends_with_slash curr_path \<and> curr_path \<noteq> ''/'' then butlast curr_path else curr_path)
      in take (length p - length (path_filename p)) p)"

definition process_component :: "string \<Rightarrow> string \<Rightarrow> string" where
  "process_component curr_path component =
     (if component = ''..'' then erase_last_component curr_path
      else
        (let p = (if \<not> ends_with_slash curr_path \<and> curr_path \<noteq> [] then curr_path @ ''/'' else curr_path)
         in if component = ''.'' then p else p @ component))"

function path_loop :: "string \<Rightarrow> string \<Rightarrow> string" where
  "path_loop curr_path [] = curr_path"
| "path_loop curr_path (c # cs) =
     (if c = slash then path_loop curr_path cs
      else path_loop (process_component curr_path (takeWhile (\<lambda>x. x \<noteq> slash) (c # cs)))
             (drop 1 (dropWhile (\<lambda>x. x \<noteq> slash) (c # cs))))"
  by pat_completeness auto
termination
  by (relation "measure (\<lambda>(p, s). length s)")
    (auto simp: le_imp_less_Suc length_dropWhile_le diff_le_self [THEN le_trans])

definition path_absolute :: "string \<Rightarrow> string \<Rightarrow> string" where
  "path_absolute path curr_dir =
     (if path = [] then curr_dir
      else
        (let p0 = (if hd path = slash then ''/'' else curr_dir);
             p1 = (if \<not> ends_with_slash p0 then p0 @ ''/'' else p0);
             p2 = path_loop p1 path
         in if ends_with_slash path \<and> \<not> ends_with_slash p2 then p2 @ ''/'' else p2))"

section \<open>Normal paths\<close>

text \<open>
  The specification: the components of a path, the stack of directories they lead to, and the
  absolute path of a stack.
\<close>

fun components :: "string \<Rightarrow> string \<Rightarrow> string list" where
  "components acc [] = (if acc = [] then [] else [acc])"
| "components acc (c # cs) =
     (if c = slash then (if acc = [] then [] else [acc]) @ components [] cs
      else components (acc @ [c]) cs)"

definition walk :: "string list \<Rightarrow> string \<Rightarrow> string list" where
  "walk st c = (if c = ''.'' then st else if c = ''..'' then butlast st else st @ [c])"

definition dir_path :: "string list \<Rightarrow> string" where
  "dir_path st = slash # concat (map (\<lambda>c. c @ ''/'') st)"

text \<open>A path of the stack, with or without the slash at its end.\<close>

definition path_of :: "string list \<Rightarrow> string \<Rightarrow> bool" where
  "path_of st p \<longleftrightarrow> p = dir_path st \<or> (st \<noteq> [] \<and> p = butlast (dir_path st))"

definition normal_component :: "string \<Rightarrow> bool" where
  "normal_component c \<longleftrightarrow> c \<noteq> [] \<and> c \<noteq> ''.'' \<and> c \<noteq> ''..'' \<and> slash \<notin> set c"

lemma dir_path_snoc: "dir_path (st @ [c]) = dir_path st @ c @ ''/''"
  by (simp add: dir_path_def)

lemma dir_path_ends: "ends_with_slash (dir_path st)"
  by (cases st rule: rev_cases) (simp_all add: dir_path_def ends_with_slash_def)

lemma dir_path_root: "dir_path st = ''/'' \<longleftrightarrow> st = []"
  by (cases st) (simp_all add: dir_path_def)

lemma path_filename_at: "slash \<notin> set f \<Longrightarrow> path_filename (p @ slash # f) = f"
  by (simp add: path_filename_def takeWhile_append2 takeWhile_append)

lemma dir_path_shape: "\<exists>p. dir_path st = p @ [slash]"
  using dir_path_ends [of st] by (metis append_butlast_last_id ends_with_slash_def)

lemma butlast_snoc_path:
  assumes "normal_component c"
  shows "butlast (dir_path (st @ [c])) = dir_path st @ c"
  by (simp add: dir_path_snoc butlast_append)

lemma path_of_snoc:
  "normal_component c \<Longrightarrow> path_of (st @ [c]) p \<longleftrightarrow> p = dir_path st @ c @ ''/'' \<or> p = dir_path st @ c"
  by (auto simp: path_of_def dir_path_snoc butlast_append)

lemma not_ends: "normal_component c \<Longrightarrow> \<not> ends_with_slash (p @ c)"
  by (auto simp: normal_component_def ends_with_slash_def dest: last_in_set)

text \<open>One component: the path follows the stack.\<close>

lemma erase_last:
  assumes "path_of st p" and "list_all normal_component st"
  shows "erase_last_component p = dir_path (butlast st)"
proof (cases st rule: rev_cases)
  case Nil
  then have "p = ''/''" using assms(1) by (simp add: path_of_def dir_path_def)
  then show ?thesis
    using Nil path_filename_at [of "[]" "[]"]
    by (simp add: erase_last_component_def dir_path_def)
next
  case (snoc st' c)
  then have c: "normal_component c" and p: "p = dir_path st' @ c @ ''/'' \<or> p = dir_path st' @ c"
    using assms path_of_snoc [of c st' p] by auto
  have "(if ends_with_slash p \<and> p \<noteq> ''/'' then butlast p else p) = dir_path st' @ c"
    using p
  proof
    assume "p = dir_path st' @ c @ ''/''"
    then show ?thesis
      using c by (auto simp: butlast_append ends_with_slash_def dir_path_def)
  next
    assume "p = dir_path st' @ c"
    then show ?thesis using not_ends [OF c] by simp
  qed
  moreover obtain q where q: "dir_path st' = q @ [slash]" using dir_path_shape by blast
  moreover have "path_filename (dir_path st' @ c) = c"
    using path_filename_at [of c q] c by (simp add: q normal_component_def)
  ultimately show ?thesis using snoc by (simp add: erase_last_component_def Let_def)
qed

lemma process_component_walk:
  assumes "path_of st p" and "list_all normal_component st" and "c \<noteq> []" and "slash \<notin> set c"
  shows "path_of (walk st c) (process_component p c) \<and> list_all normal_component (walk st c)"
proof -
  have enter: "(if \<not> ends_with_slash p \<and> p \<noteq> [] then p @ ''/'' else p) = dir_path st"
  proof (cases st rule: rev_cases)
    case Nil
    then show ?thesis using assms(1) by (simp add: path_of_def dir_path_def ends_with_slash_def)
  next
    case (snoc st' d)
    then have d: "normal_component d" and "p = dir_path st' @ d @ ''/'' \<or> p = dir_path st' @ d"
      using assms(1,2) path_of_snoc [of d st' p] by auto
    then show ?thesis
      using snoc not_ends [OF d, of "dir_path st'"]
      by (auto simp: dir_path_snoc ends_with_slash_def dir_path_def)
  qed
  consider "c = ''..''" | "c = ''.''" | "normal_component c" "c \<noteq> ''..''" "c \<noteq> ''.''"
    using assms(3,4) by (auto simp: normal_component_def)
  then show ?thesis
  proof cases
    case 1
    have "list_all normal_component (butlast st)"
      using assms(2) by (auto simp: list_all_iff dest: in_set_butlastD)
    then show ?thesis
      using 1 erase_last [OF assms(1,2)] by (simp add: process_component_def walk_def path_of_def)
  next
    case 2
    then show ?thesis
      using assms(2) enter by (simp add: process_component_def walk_def path_of_def)
  next
    case 3
    then show ?thesis
      using assms(2) enter path_of_snoc [of c st]
      by (simp add: process_component_def walk_def)
  qed
qed

text \<open>The loop over the path.\<close>

lemma components_take:
  "acc @ takeWhile (\<lambda>x. x \<noteq> slash) s \<noteq> [] \<Longrightarrow>
   components acc s = (acc @ takeWhile (\<lambda>x. x \<noteq> slash) s) #
     components [] (drop 1 (dropWhile (\<lambda>x. x \<noteq> slash) s))"
  by (induction s arbitrary: acc) auto

lemma path_loop_walk:
  assumes "path_of st p" and "list_all normal_component st"
  shows "path_of (foldl walk st (components [] s)) (path_loop p s) \<and>
    list_all normal_component (foldl walk st (components [] s))"
  using assms
proof (induction p s arbitrary: st rule: path_loop.induct)
  case (1 p)
  then show ?case by simp
next
  case (2 p c cs)
  show ?case
  proof (cases "c = slash")
    case True
    then show ?thesis using 2(1) [OF True 2(3,4)] by simp
  next
    case False
    let ?f = "takeWhile (\<lambda>x. x \<noteq> slash) (c # cs)"
    let ?r = "drop 1 (dropWhile (\<lambda>x. x \<noteq> slash) (c # cs))"
    have f: "?f \<noteq> []" "slash \<notin> set ?f" using False by (simp, metis set_takeWhileD)
    have comps: "components [] (c # cs) = ?f # components [] ?r"
      using components_take [of "[]" "c # cs"] f(1) by simp
    have step: "path_loop p (c # cs) = path_loop (process_component p ?f) ?r"
      using False by simp
    note walked = process_component_walk [OF 2(3,4) f]
    show ?thesis
      unfolding comps step foldl_Cons
      by (rule 2(2) [OF False conjunct1 [OF walked] conjunct2 [OF walked]])
  qed
qed

lemma path_absolute_stack:
  "path_of (foldl walk [] (components [] path)) (path_absolute path ''/'') \<and>
   list_all normal_component (foldl walk [] (components [] path))"
proof (cases "path = []")
  case True
  then show ?thesis by (simp add: path_absolute_def path_of_def dir_path_def)
next
  case False
  let ?st = "foldl walk [] (components [] path)"
  have "path_of [] ''/''" by (simp add: path_of_def dir_path_def)
  from path_loop_walk [OF this, of path]
  have loop: "path_of ?st (path_loop ''/'' path)" and normal: "list_all normal_component ?st" by simp_all
  have "path_of ?st (path_loop ''/'' path @ ''/'')" if "\<not> ends_with_slash (path_loop ''/'' path)"
  proof -
    have "path_loop ''/'' path = butlast (dir_path ?st)"
      using loop that dir_path_ends by (auto simp: path_of_def)
    then have "path_loop ''/'' path @ ''/'' = dir_path ?st"
      using dir_path_shape [of ?st] by (metis butlast_snoc)
    then show ?thesis by (simp add: path_of_def)
  qed
  then show ?thesis
    using False loop normal by (auto simp: path_absolute_def Let_def ends_with_slash_def)
qed

text \<open>A relative path without empty, "." and ".." components.\<close>

definition inside :: "string \<Rightarrow> bool" where
  "inside p \<longleftrightarrow> \<not> (\<exists>q. p = slash # q) \<and> list_all normal_component (components [] p)"

lemma components_append:
  "slash \<notin> set c \<Longrightarrow> components acc (c @ s) = components (acc @ c) s"
  by (induction c arbitrary: acc) auto

lemma components_end: "slash \<notin> set c \<Longrightarrow> components acc c = (if acc @ c = [] then [] else [acc @ c])"
  using components_append [of c acc "[]"] by simp

lemma components_stack:
  "list_all normal_component st \<Longrightarrow> components [] (concat (map (\<lambda>c. c @ ''/'') st)) = st"
  by (induction st) (auto simp: normal_component_def components_append)

lemma components_stack_butlast:
  assumes "list_all normal_component (st @ [c])"
  shows "components [] (concat (map (\<lambda>c. c @ ''/'') st) @ c) = st @ [c]"
  using assms
  by (induction st) (auto simp: normal_component_def components_append components_end)

lemma stack_start:
  "list_all normal_component st \<Longrightarrow> concat (map (\<lambda>c. c @ ''/'') st) @ s = slash # q \<Longrightarrow> st = []"
  by (cases st; cases "hd st") (auto simp: normal_component_def)

lemma path_absolute_inside: "inside (drop 1 (path_absolute path ''/''))"
proof -
  let ?st = "foldl walk [] (components [] path)"
  have st: "path_of ?st (path_absolute path ''/'')" "list_all normal_component ?st"
    using path_absolute_stack by blast+
  show ?thesis
  proof (cases ?st rule: rev_cases)
    case Nil
    then show ?thesis using st(1) by (simp add: path_of_def dir_path_def inside_def)
  next
    case (snoc ds d)
    let ?d = "concat (map (\<lambda>c. c @ ''/'') ds)"
    have ds: "list_all normal_component (ds @ [d])" using st(2) snoc by simp
    then have d: "d \<noteq> []" "slash \<notin> set d" by (auto simp: normal_component_def)
    have "drop 1 (path_absolute path ''/'') \<in> {?d @ d @ ''/'', ?d @ d}"
      using st(1) snoc by (auto simp: path_of_def dir_path_def butlast_append)
    moreover have "components [] (?d @ d @ ''/'') = ds @ [d]"
      using components_stack [OF ds] by simp
    moreover have "components [] (?d @ d) = ds @ [d]" using components_stack_butlast [OF ds] .
    moreover have start: "\<not> (\<exists>q. ?d @ d @ s = slash # q)" for s
    proof
      assume "\<exists>q. ?d @ d @ s = slash # q"
      then have "ds = []" using stack_start [of ds "d @ s"] ds by auto
      then show False using \<open>\<exists>q. ?d @ d @ s = slash # q\<close> d by (cases d) auto
    qed
    ultimately show ?thesis using ds start [of "''/''"] start [of "[]"]
      unfolding inside_def by (elim insertE emptyE) (simp_all only: append_Nil2 simp_thms)
  qed
qed

text \<open>
  path_absolute keeps a path inside the root: for every path (and the default current
  directory) the result is the absolute path of the stack of directories that the components of the
  path lead to, where ".." leaves a directory but never the root; no component of it is empty, ".",
  ".." or contains a slash. So the relative path that the Simfile code makes of it by erasing its
  first character cannot lead outside the package.
\<close>

theorem path_absolute_stays_inside:
  "path_of (foldl walk [] (components [] path)) (path_absolute path ''/'') \<and>
   list_all normal_component (foldl walk [] (components [] path))"
  by (rule path_absolute_stack)

end
