(* ===== verification/Config_File.thy ===== *)
theory Config_File
  imports String_Utils "HOL-Library.Sublist"
begin

text \<open>
  \<open>ConfigFile\<close> of simlib (src/subprojects/simlib/src/config_file.cc): the format of sim.conf, of
  Simfiles and of Sipfiles. The parser walks a \<open>SimpleParser\<close> over the text; here the rest of the
  text is a list and every function returns what it leaves. A ParseError carries its message and the
  rest at which it is thrown (the source computes line and column from that position).
\<close>

section \<open>Errors, variables\<close>

abbreviation LF :: char where
  "LF \<equiv> CHR 0x0A"

datatype parse_error = Parse_error string string | Out_of_range

record cfg_var =
  cv_set :: bool
  cv_array :: bool
  cv_str :: string
  cv_arr :: "string list"
  cv_span :: "nat \<times> nat"

definition unset_var :: cfg_var where
  "unset_var = \<lparr> cv_set = False, cv_array = False, cv_str = [], cv_arr = [], cv_span = (0, 0) \<rparr>"

type_synonym cfg_vars = "string \<rightharpoonup> cfg_var"

text \<open>\<open>operator[]\<close>: the variable, or \<open>null_var\<close>.\<close>

definition get_var :: "cfg_vars \<Rightarrow> string \<Rightarrow> cfg_var" where
  "get_var vars name = (case vars name of None \<Rightarrow> unset_var | Some v \<Rightarrow> v)"

definition add_vars :: "string list \<Rightarrow> cfg_vars \<Rightarrow> cfg_vars" where
  "add_vars names vars =
     foldl (\<lambda>m n. if m n = None then m(n \<mapsto> unset_var) else m) vars names"

definition lower_equal :: "string \<Rightarrow> string \<Rightarrow> bool" where
  "lower_equal a b \<longleftrightarrow> map to_lower_char a = map to_lower_char b"

definition as_bool :: "cfg_var \<Rightarrow> bool" where
  "as_bool v \<longleftrightarrow> cv_str v = ''1'' \<or> lower_equal (cv_str v) ''on'' \<or> lower_equal (cv_str v) ''true''"

section \<open>Parsing\<close>

definition is_ws :: "char \<Rightarrow> bool" where
  "is_ws c \<longleftrightarrow> c \<noteq> LF \<and> is_space c"

definition is_name_char :: "char \<Rightarrow> bool" where
  "is_name_char c \<longleftrightarrow>
     is_alpha c \<or> is_digit c \<or> c = CHR ''-'' \<or> c = CHR ''_'' \<or> c = CHR ''.''"

definition quoted_char :: "string \<Rightarrow> char \<Rightarrow> string" where
  "quoted_char msg c = msg @ [c, CHR 0x60]"

text \<open>The values in quotation marks, after the opening mark.\<close>

fun single_quoted :: "string \<Rightarrow> string \<Rightarrow> parse_error + (string \<times> string)" where
  "single_quoted res [] = Inl Out_of_range"
| "single_quoted res (c # cs) =
     (if c = LF
      then Inl (Parse_error (''Missing terminating '' @ [CHR 0x27] @ '' character'') (c # cs))
      else if c = CHR 0x27
      then (case cs of
              d # ds \<Rightarrow> if d = CHR 0x27 then single_quoted (res @ [CHR 0x27]) ds else Inr (res, cs)
            | [] \<Rightarrow> Inl Out_of_range)
      else single_quoted (res @ [c]) cs)"

definition simple_escape :: "char \<Rightarrow> char option" where
  "simple_escape c =
     (if c = CHR 0x27 then Some (CHR 0x27)
      else if c = CHR 0x22 then Some (CHR 0x22)
      else if c = CHR ''?'' then Some (CHR ''?'')
      else if c = CHR 0x5C then Some (CHR 0x5C)
      else if c = CHR ''t'' then Some (CHR 0x09)
      else if c = CHR ''a'' then Some (CHR 0x07)
      else if c = CHR ''b'' then Some (CHR 0x08)
      else if c = CHR ''f'' then Some (CHR 0x0C)
      else if c = CHR ''n'' then Some (CHR 0x0A)
      else if c = CHR ''r'' then Some (CHR 0x0D)
      else if c = CHR ''v'' then Some (CHR 0x0B)
      else None)"

definition bad_hex :: "string \<Rightarrow> parse_error + 'a" where
  "bad_hex cs =
     (case cs of
        [] \<Rightarrow> Inl Out_of_range
      | c # _ \<Rightarrow> Inl (Parse_error
          (quoted_char (''Invalid hexadecimal digit: '' @ [CHR 0x60]) c) cs))"

definition hex_escape :: "string \<Rightarrow> parse_error + (char \<times> string)" where
  "hex_escape es =
     (case es of
        [] \<Rightarrow> Inl Out_of_range
      | h # ls \<Rightarrow>
          (if \<not> is_xdigit h then bad_hex es
           else case ls of
               [] \<Rightarrow> Inl Out_of_range
             | l # r \<Rightarrow>
                 (if \<not> is_xdigit l then bad_hex ls
                  else Inr (char_of (push_bit 4 (hex2dec h) + hex2dec l), r))))"

text \<open>What follows a backslash: the character it stands for and the rest.\<close>

definition escape_sequence :: "string \<Rightarrow> parse_error + (char \<times> string)" where
  "escape_sequence cs =
     (case cs of
        [] \<Rightarrow> Inl Out_of_range
      | e # es \<Rightarrow>
          (case simple_escape e of
             Some x \<Rightarrow> Inr (x, es)
           | None \<Rightarrow>
               (if e = CHR ''x'' then hex_escape es
                else Inl (Parse_error
                  (quoted_char (''Unknown escape sequence: '' @ [CHR 0x60, CHR 0x5C]) e) cs))))"

lemma bad_hex_Inl [simp]: "bad_hex cs \<noteq> Inr x" "Inr x \<noteq> bad_hex cs"
  by (simp_all add: bad_hex_def split: list.split)

lemma hex_escape_rest: "hex_escape es = Inr (x, r) \<Longrightarrow> length r < length es"
  by (auto simp: hex_escape_def split: list.splits if_splits)

lemma escape_sequence_rest: "escape_sequence cs = Inr (x, r) \<Longrightarrow> length r < length cs"
  using hex_escape_rest
  by (fastforce simp: escape_sequence_def split: list.splits option.splits if_splits)

function double_quoted :: "string \<Rightarrow> string \<Rightarrow> parse_error + (string \<times> string)" where
  "double_quoted res [] = Inl Out_of_range"
| "double_quoted res (c # cs) =
     (if c = LF
      then Inl (Parse_error (''Missing terminating '' @ [CHR 0x22] @ '' character'') (c # cs))
      else if c = CHR 0x22 then Inr (res, cs)
      else if c \<noteq> CHR 0x5C then double_quoted (res @ [c]) cs
      else
        (case escape_sequence cs of
           Inl e \<Rightarrow> Inl e
         | Inr (x, r) \<Rightarrow> double_quoted (res @ [x]) r))"
  by pat_completeness auto
termination
  by (relation "measure (\<lambda>(res, s). length s)") (auto dest!: escape_sequence_rest)

definition remove_trailing_space :: "string \<Rightarrow> string" where
  "remove_trailing_space s = rev (dropWhile is_space (rev s))"

definition stops_literal :: "bool \<Rightarrow> char \<Rightarrow> bool" where
  "stops_literal is_in_array c \<longleftrightarrow>
     c = LF \<or> c = CHR ''#'' \<or> (is_in_array \<and> (c = CHR '']'' \<or> c = CHR '',''))"

text \<open>A string literal starts with its first character whatever it is, then runs to a stop.\<close>

definition string_literal :: "bool \<Rightarrow> char \<Rightarrow> string \<Rightarrow> parse_error + (string \<times> string)" where
  "string_literal is_in_array c cs =
     (if c = CHR ''['' \<or> (is_in_array \<and> (c = CHR '','' \<or> c = CHR '']''))
      then Inl (Parse_error
        (quoted_char (''Invalid beginning of the string literal: '' @ [CHR 0x60]) c) (c # cs))
      else
        (let res = remove_trailing_space (c # takeWhile (\<lambda>x. \<not> stops_literal is_in_array x) cs)
         in Inr (res, drop (length res) (c # cs))))"

definition extract_value :: "bool \<Rightarrow> string \<Rightarrow> parse_error + (string \<times> string)" where
  "extract_value is_in_array buff =
     (case buff of
        [] \<Rightarrow> Inl Out_of_range
      | c # cs \<Rightarrow>
          (if c = CHR 0x27 then single_quoted [] cs
           else if c = CHR 0x22 then double_quoted [] cs
           else string_literal is_in_array c cs))"

definition skip_comment :: "string \<Rightarrow> string" where
  "skip_comment buff = dropWhile (\<lambda>c. c \<noteq> LF) buff"

section \<open>Each value is consumed\<close>

lemma single_quoted_rest: "single_quoted res s = Inr (v, r) \<Longrightarrow> length r < length s"
  by (induction res s rule: single_quoted.induct) (auto split: if_splits list.splits)

lemma double_quoted_rest: "double_quoted res s = Inr (v, r) \<Longrightarrow> length r < length s"
proof (induction res s rule: double_quoted.induct)
  case (2 res c cs)
  then show ?case by (fastforce split: if_splits sum.splits dest: escape_sequence_rest)
qed simp

lemma string_literal_rest:
  assumes "string_literal b c cs = Inr (v, r)" and "\<not> is_space c"
  shows "length r < length (c # cs)"
proof -
  let ?w = "c # takeWhile (\<lambda>x. \<not> stops_literal b x) cs"
  have "remove_trailing_space ?w \<noteq> []"
    using assms(2) by (auto simp: remove_trailing_space_def dropWhile_eq_Nil_conv)
  then show ?thesis using assms(1) by (auto simp: string_literal_def Let_def split: if_splits)
qed

lemma extract_value_rest:
  assumes "extract_value b buff = Inr (v, r)" and "\<not> is_space (hd buff)"
  shows "length r < length buff"
  using assms single_quoted_rest double_quoted_rest string_literal_rest
  by (fastforce simp: extract_value_def split: list.splits if_splits)

lemma skip_comment_le: "length (skip_comment s) \<le> length s"
  by (simp add: skip_comment_def length_dropWhile_le)

section \<open>Loading a file\<close>

text \<open>
  The elements of an array, after the opening bracket. \<open>array_step\<close> is one iteration of the loop:
  whether it breaks, the elements so far, the rest. A ParseError at the end of the text has no rest.
\<close>

definition array_step ::
  "string list \<Rightarrow> string \<Rightarrow> parse_error + (bool \<times> string list \<times> string)" where
  "array_step arr buff =
     (case dropWhile is_space buff of
        [] \<Rightarrow> Inl (Parse_error ''Missing terminating ] character at the end of an array'' [])
      | c # cs \<Rightarrow>
          (if c = CHR '']'' then Inr (True, arr, cs)
           else if c = CHR ''#'' then Inr (False, arr, skip_comment (c # cs))
           else if c = CHR '','' then Inr (False, arr, cs)
           else
             (case extract_value True (c # cs) of
                Inl e \<Rightarrow> Inl e
              | Inr (v, r) \<Rightarrow>
                  (case dropWhile is_ws r of
                     [] \<Rightarrow> Inl Out_of_range
                   | d # ds \<Rightarrow>
                       (if d = CHR '','' \<or> d = LF then Inr (False, arr @ [v], ds)
                        else if d = CHR ''#'' then Inr (False, arr @ [v], skip_comment (d # ds))
                        else if d = CHR '']'' then Inr (True, arr @ [v], ds)
                        else Inl (Parse_error
                          (quoted_char (''Unknown sequence after the value: '' @ [CHR 0x60]) d)
                          (d # ds)))))))"

lemma dropWhile_Cons_le: "dropWhile P s = c # cs \<Longrightarrow> length (c # cs) \<le> length s"
  by (metis length_dropWhile_le)

lemma dropWhile_Cons_hd: "dropWhile P s = c # cs \<Longrightarrow> \<not> P c"
  by (metis dropWhile_eq_Cons_conv)

lemma skip_comment_less: "c \<noteq> LF \<Longrightarrow> length (skip_comment (c # cs)) < length (c # cs)"
  by (simp add: skip_comment_def length_dropWhile_le less_Suc_eq_le)

lemma array_step_rest:
  assumes "array_step arr buff = Inr (b, vs, r)"
  shows "length r < length buff"
proof (cases "dropWhile is_space buff")
  case Nil
  show ?thesis using assms unfolding array_step_def Nil by simp
next
  case (Cons c cs)
  note le = dropWhile_Cons_le [OF Cons]
  have c: "\<not> is_space (hd (c # cs))" using dropWhile_Cons_hd [OF Cons] by simp
  show ?thesis
  proof (cases "c \<in> set '']#,''")
    case True
    then show ?thesis
      using assms Cons le skip_comment_less [of "CHR ''#''" cs]
      by (auto simp: array_step_def split: if_splits)
  next
    case False
    then obtain v r' where v: "extract_value True (c # cs) = Inr (v, r')"
      using assms Cons by (auto simp: array_step_def split: sum.splits)
    then have r': "length r' < length buff" using extract_value_rest [OF v c] le by simp
    then obtain d ds where d: "dropWhile is_ws r' = d # ds"
      using assms Cons v False by (auto simp: array_step_def split: list.splits)
    then have "length ds < length buff" "length (skip_comment (d # ds)) < length buff"
      using r' dropWhile_Cons_le [OF d] skip_comment_le [of "d # ds"] by simp_all
    then show ?thesis
      using assms Cons v d False by (auto simp: array_step_def split: if_splits)
  qed
qed

function parse_array :: "string list \<Rightarrow> string \<Rightarrow> parse_error + (string list \<times> string)" where
  "parse_array arr buff =
     (case array_step arr buff of
        Inl e \<Rightarrow> Inl e
      | Inr (stop, arr', r) \<Rightarrow> if stop then Inr (arr', r) else parse_array arr' r)"
  by pat_completeness auto
termination
  by (relation "measure (\<lambda>(arr, s). length s)") (auto dest: array_step_rest)

declare parse_array.simps [simp del]

definition parse_name :: "string \<Rightarrow> parse_error + (string \<times> string)" where
  "parse_name buff =
     (let name = takeWhile is_name_char buff
      in if name = [] then Inl (Parse_error ''Invalid or missing variable's name'' buff)
         else Inr (name, dropWhile is_name_char buff))"

text \<open>The assignment operator; what is left starts with the value.\<close>

definition parse_assignment :: "string \<Rightarrow> string \<Rightarrow> parse_error + string" where
  "parse_assignment name buff =
     (case dropWhile is_ws buff of
        [] \<Rightarrow> Inl Out_of_range
      | c # cs \<Rightarrow>
          (if c = LF \<or> c = CHR ''#''
           then Inl (Parse_error (''Incomplete directive: '' @ [CHR 0x60] @ name @ [CHR 0x60]) (c # cs))
           else if c \<noteq> CHR ''='' \<and> c \<noteq> CHR '':''
           then Inl (Parse_error (quoted_char (''Invalid assignment operator: '' @ [CHR 0x60]) c) (c # cs))
           else Inr (dropWhile is_ws cs)))"

definition parse_value :: "string \<Rightarrow> parse_error + (cfg_var \<times> string)" where
  "parse_value buff =
     (case buff of
        [] \<Rightarrow> Inl Out_of_range
      | c # cs \<Rightarrow>
          (if c \<noteq> CHR ''[''
           then (if c = LF \<or> c = CHR ''#''
                 then Inr (unset_var\<lparr>cv_set := True\<rparr>, buff)
                 else case extract_value False buff of
                        Inl e \<Rightarrow> Inl e
                      | Inr (v, r) \<Rightarrow> Inr (unset_var\<lparr>cv_set := True, cv_str := v\<rparr>, r))
           else case parse_array [] cs of
                  Inl e \<Rightarrow> Inl e
                | Inr (vs, r) \<Rightarrow>
                    Inr (unset_var\<lparr>cv_set := True, cv_array := True, cv_arr := vs\<rparr>, r)))"

definition after_value :: "string \<Rightarrow> parse_error + string" where
  "after_value buff =
     (case dropWhile is_ws buff of
        [] \<Rightarrow> Inl Out_of_range
      | c # cs \<Rightarrow>
          (if c = CHR ''#'' then Inr (skip_comment (c # cs))
           else if c \<noteq> LF
           then Inl (Parse_error
             (quoted_char (''Unknown sequence after the value: '' @ [CHR 0x60]) c) (c # cs))
           else Inr cs))"

text \<open>
  One directive: the name, the value with the range of the text it was read from (\<open>len\<close> is the
  length of the whole text, so \<open>curr_pos\<close> is \<open>len - length buff\<close>), and the rest.
\<close>

definition parse_directive ::
  "nat \<Rightarrow> string \<Rightarrow> parse_error + (string \<times> cfg_var \<times> string)" where
  "parse_directive len buff =
     (case parse_name buff of
        Inl e \<Rightarrow> Inl e
      | Inr (name, r1) \<Rightarrow>
          (case parse_assignment name r1 of
             Inl e \<Rightarrow> Inl e
           | Inr r2 \<Rightarrow>
               (case parse_value r2 of
                  Inl e \<Rightarrow> Inl e
                | Inr (v, r3) \<Rightarrow>
                    (case after_value r3 of
                       Inl e \<Rightarrow> Inl e
                     | Inr r4 \<Rightarrow>
                         Inr (name, v\<lparr>cv_span := (len - length r2, len - length r3)\<rparr>, r4)))))"

text \<open>Names that are not in the set of variables go to a dummy unless \<open>load_all\<close> is set.\<close>

definition store_var :: "bool \<Rightarrow> string \<Rightarrow> cfg_var \<Rightarrow> cfg_vars \<Rightarrow> cfg_vars" where
  "store_var load_all name v vars =
     (if load_all \<or> vars name \<noteq> None then vars(name \<mapsto> v) else vars)"

lemma parse_name_rest: "parse_name s = Inr (n, r) \<Longrightarrow> length r < length s"
  by (cases s) (auto simp: parse_name_def Let_def length_dropWhile_le less_Suc_eq_le split: if_splits)

lemma parse_assignment_Inr:
  assumes "parse_assignment n s = Inr r"
  obtains c cs where "dropWhile is_ws s = c # cs" and "r = dropWhile is_ws cs"
  using assms by (auto simp: parse_assignment_def split: list.splits if_splits)

lemma parse_assignment_rest: "parse_assignment n s = Inr r \<Longrightarrow> length r \<le> length s"
  by (elim parse_assignment_Inr)
    (use dropWhile_Cons_le length_dropWhile_le in \<open>fastforce intro: order_trans\<close>)

lemma parse_assignment_ws: "parse_assignment n s = Inr r \<Longrightarrow> r \<noteq> [] \<Longrightarrow> \<not> is_ws (hd r)"
  by (elim parse_assignment_Inr) (simp add: hd_dropWhile)

lemma parse_array_rest: "parse_array arr s = Inr (vs, r) \<Longrightarrow> length r < length s"
proof (induction arr s rule: parse_array.induct)
  case (1 arr buff)
  then show ?case
    by (subst (asm) parse_array.simps)
      (fastforce split: sum.splits if_splits dest: array_step_rest)
qed

lemma parse_value_rest: "parse_value s = Inr (v, r) \<Longrightarrow> \<not> is_ws (hd s) \<Longrightarrow> length r \<le> length s"
proof (cases s)
  case Nil
  then show "parse_value s = Inr (v, r) \<Longrightarrow> ?thesis" by (simp add: parse_value_def)
next
  case (Cons c cs)
  assume v: "parse_value s = Inr (v, r)" and ws: "\<not> is_ws (hd s)"
  consider "c = CHR ''[''" | "c = LF \<or> c = CHR ''#''"
    | "c \<notin> set ''[#''" "c \<noteq> LF" by auto
  then show ?thesis
  proof cases
    case 1
    then show ?thesis
      using v Cons by (auto simp: parse_value_def split: sum.splits dest: parse_array_rest)
  next
    case 2
    then show ?thesis using v Cons by (auto simp: parse_value_def)
  next
    case 3
    then have "\<not> is_space (hd s)" using ws Cons by (simp add: is_ws_def)
    then show ?thesis
      using v Cons 3 extract_value_rest [of False s]
      by (fastforce simp: parse_value_def split: sum.splits)
  qed
qed

lemma after_value_rest: "after_value s = Inr r \<Longrightarrow> length r \<le> length s"
proof (cases "dropWhile is_ws s")
  case Nil
  show "after_value s = Inr r \<Longrightarrow> ?thesis" unfolding after_value_def Nil by simp
next
  case (Cons c cs)
  assume "after_value s = Inr r"
  then show ?thesis
    using Cons dropWhile_Cons_le [OF Cons] skip_comment_le [of "c # cs"]
    by (auto simp: after_value_def split: if_splits)
qed

lemma parse_directive_rest:
  assumes "parse_directive len s = Inr (n, v, r)"
  shows "length r < length s"
proof -
  obtain r1 r2 r3 v' where "parse_name s = Inr (n, r1)" "parse_assignment n r1 = Inr r2"
    "parse_value r2 = Inr (v', r3)" "after_value r3 = Inr r"
    using assms by (auto simp: parse_directive_def split: sum.splits)
  moreover from this have "r2 \<noteq> []" by (auto simp: parse_value_def)
  ultimately show ?thesis
    using parse_name_rest [of s n r1] parse_assignment_rest [of n r1 r2]
      parse_value_rest [of r2 v' r3] after_value_rest [of r3 r]
      parse_assignment_ws [of n r1 r2] by linarith
qed

text \<open>One iteration of the main loop, on a text that is not empty.\<close>

definition load_step ::
  "bool \<Rightarrow> nat \<Rightarrow> cfg_vars \<Rightarrow> string \<Rightarrow> parse_error + (cfg_vars \<times> string)" where
  "load_step load_all len vars buff =
     (case dropWhile is_ws buff of
        [] \<Rightarrow> Inl Out_of_range
      | c # cs \<Rightarrow>
          (if c = LF then Inr (vars, cs)
           else if c = CHR ''#'' then Inr (vars, drop 1 (skip_comment (c # cs)))
           else case parse_directive len (c # cs) of
                  Inl e \<Rightarrow> Inl e
                | Inr (name, v, r) \<Rightarrow> Inr (store_var load_all name v vars, r)))"

lemma load_step_rest:
  assumes "load_step load_all len vars buff = Inr (vars', r)"
  shows "length r < length buff"
proof (cases "dropWhile is_ws buff")
  case Nil
  show ?thesis using assms unfolding load_step_def Nil by simp
next
  case (Cons c cs)
  then show ?thesis
    using assms dropWhile_Cons_le [OF Cons] skip_comment_le [of "c # cs"]
      parse_directive_rest [of len "c # cs"]
    by (fastforce simp: load_step_def split: if_splits sum.splits)
qed

function load_loop :: "bool \<Rightarrow> nat \<Rightarrow> cfg_vars \<Rightarrow> string \<Rightarrow> parse_error + cfg_vars" where
  "load_loop load_all len vars buff =
     (if buff = [] then Inr vars
      else case load_step load_all len vars buff of
             Inl e \<Rightarrow> Inl e
           | Inr (vars', r) \<Rightarrow> load_loop load_all len vars' r)"
  by pat_completeness auto
termination
  by (relation "measure (\<lambda>(a, n, vs, s). length s)") (auto dest: load_step_rest)

declare load_loop.simps [simp del]

text \<open>
  The values of earlier loads stay: the loop that means to unset them works on copies. A newline is
  appended first, so that it guards every line.
\<close>

definition load_config_from_string ::
  "bool \<Rightarrow> cfg_vars \<Rightarrow> string \<Rightarrow> parse_error + cfg_vars" where
  "load_config_from_string load_all vars config =
     (let config = config @ [LF] in load_loop load_all (length config) vars config)"

section \<open>Diagnostics\<close>

text \<open>
  \<open>throw_parse_error\<close>: where the error is and the text around it. \<open>config\<close> is the text with the
  appended newline and \<open>rest\<close> what is left of it.
\<close>

definition error_pos :: "string \<Rightarrow> string \<Rightarrow> nat" where
  "error_pos config rest = length config - length rest - (if rest = [] then 1 else 0)"

text \<open>The position of the last newline before \<open>x\<close>, or zero.\<close>

fun newline_before :: "string \<Rightarrow> nat \<Rightarrow> nat" where
  "newline_before config 0 = 0"
| "newline_before config (Suc x) = (if config ! x = LF then x else newline_before config x)"

definition error_line :: "string \<Rightarrow> nat \<Rightarrow> nat" where
  "error_line config pos = 1 + count_list (take (newline_before config pos + 1) config) LF"

definition error_col :: "string \<Rightarrow> nat \<Rightarrow> nat" where
  "error_col config pos =
     pos - newline_before config pos + (if error_line config pos = 1 then 1 else 0)"

definition shown_char :: "char \<Rightarrow> string" where
  "shown_char c =
     (if CHR '' '' \<le> c \<and> c \<le> CHR 0x7E then [c]
      else [CHR 0x5C, CHR ''x'', dec2hex (drop_bit 4 (code c)), dec2hex (code c AND 15)])"

definition shown :: "string \<Rightarrow> string" where
  "shown s = concat (map shown_char s)"

definition CONTEXT :: nat where
  "CONTEXT = 32"

definition diagnostics :: "string \<Rightarrow> nat \<Rightarrow> string" where
  "diagnostics config pos =
     (let x = newline_before config pos;
          left = (if error_col config pos \<le> CONTEXT + 1 then shown (drop x (take pos config))
                  else ''...'' @ shown (drop (pos - CONTEXT) (take pos config)));
          c = config ! pos;
          right = takeWhile (\<lambda>d. d \<noteq> LF) (take CONTEXT (drop (pos + 1) config));
          faulty = (if c = LF then []
                    else shown_char c @ shown right @
                      (if config ! (pos + 1 + length right) = LF then [] else ''...''));
          stress_len = (if c = LF then 1 else length (shown_char c))
      in left @ faulty @ [LF] @ replicate (length left) (CHR '' '') @ ''^'' @
         replicate (stress_len - 1) (CHR 0x7E))"

lemma newline_before_le: "newline_before config pos \<le> pos"
  by (induction pos) (auto simp: le_SucI)

lemma newline_before_take:
  assumes "pos \<le> length config"
  shows "(LF \<notin> set (take pos config) \<longrightarrow> newline_before config pos = 0) \<and>
    (LF \<in> set (take pos config) \<longrightarrow>
       newline_before config pos < pos \<and> config ! newline_before config pos = LF \<and>
       LF \<notin> set (drop (newline_before config pos + 1) (take pos config)))"
  using assms
proof (induction pos)
  case (Suc x)
  have take: "take (Suc x) config = take x config @ [config ! x]"
    using Suc.prems by (simp add: take_Suc_conv_app_nth)
  have len: "length (take x config) = x" using Suc.prems by simp
  show ?case
    using Suc newline_before_le [of config x] unfolding take by (auto simp: len)
qed simp

text \<open>
  The position a ParseError reports is right: the line is one more than the number of newlines
  before the faulty character and the column counts from the last of them, from one. (The only
  exception would be an error at a newline that is the first character, which is never reported.)
\<close>

theorem parse_error_position:
  assumes "pos < length config" and "pos = 0 \<Longrightarrow> config ! 0 \<noteq> LF"
  shows "error_line config pos = 1 + count_list (take pos config) LF \<and>
    error_col config pos = 1 + length (takeWhile (\<lambda>c. c \<noteq> LF) (rev (take pos config)))"
proof (cases "LF \<in> set (take pos config)")
  case False
  then have x: "newline_before config pos = 0" using newline_before_take assms(1) by simp
  obtain c cs where c: "config = c # cs" using assms(1) by (cases config) auto
  then have "c \<noteq> LF" using assms(2) False by (cases pos) auto
  then have "error_line config pos = 1" using c x by (simp add: error_line_def)
  moreover have tw: "takeWhile (\<lambda>c. c \<noteq> LF) (rev (take pos config)) = rev (take pos config)"
    using False by (intro takeWhile_eq_all_conv [THEN iffD2]) auto
  ultimately show ?thesis
    using False x assms(1) unfolding tw by (simp add: error_col_def count_list_0_iff)
next
  case True
  define x where "x = newline_before config pos"
  have x: "x < pos" "config ! x = LF" "LF \<notin> set (drop (x + 1) (take pos config))"
    using newline_before_take [of pos config] True assms(1) by (simp_all add: x_def)
  have split: "take pos config = take x config @ LF # drop (x + 1) (take pos config)"
    using x assms(1) id_take_nth_drop [of x "take pos config"] by (simp add: min_def)
  have upto: "take (x + 1) config = take x config @ [LF]"
    using x assms(1) take_Suc_conv_app_nth [of x config] by simp
  have "count_list (take pos config) LF = count_list (take (x + 1) config) LF"
    unfolding upto using x(3) by (subst split) (simp add: count_list_0_iff)
  moreover have "error_line config pos > 1"
    unfolding error_line_def x_def [symmetric] upto by simp
  moreover have "takeWhile (\<lambda>c. c \<noteq> LF) (rev (take pos config)) = rev (drop (x + 1) (take pos config))"
    using x(3) by (subst split) (simp add: takeWhile_append)
  ultimately show ?thesis
    using x(1) assms(1) by (simp add: error_line_def error_col_def x_def [symmetric])
qed

lemma parse_error_position_witness:
  "error_line ([CHR ''a'', LF] @ ''bc'') 3 = 2 \<and> error_col ([CHR ''a'', LF] @ ''bc'') 3 = 2"
  using parse_error_position [of 3 "[CHR ''a'', LF] @ ''bc''"]
  by (simp add: eval_nat_numeral)

section \<open>The parser stays inside the text\<close>

definition lined :: "string \<Rightarrow> bool" where
  "lined s \<longleftrightarrow> s \<noteq> [] \<and> last s = LF"

lemma lined_Cons: "lined (c # s) \<Longrightarrow> c \<noteq> LF \<Longrightarrow> lined s"
  by (cases s) (auto simp: lined_def)

lemma not_lined_Nil [simp]: "\<not> lined []"
  by (simp add: lined_def)

lemma lined_suffix:
  assumes "lined s" and "suffix r s" and "r \<noteq> []"
  shows "lined r"
  using assms by (auto simp: suffix_def lined_def)

lemma lined_dropWhile:
  assumes "lined s" and "\<not> P LF"
  shows "lined (dropWhile P s)"
proof -
  have "LF \<in> set s" using assms(1) unfolding lined_def by (metis last_in_set)
  then have "dropWhile P s \<noteq> []" using assms(2) by (auto simp: dropWhile_eq_Nil_conv)
  then show ?thesis using assms(1) suffix_dropWhile lined_suffix by blast
qed

lemma ws_LF [simp]: "\<not> is_ws LF" by (simp add: is_ws_def)

lemma lined_skip_comment [simp]: "lined s \<Longrightarrow> lined (skip_comment s)"
  by (simp add: skip_comment_def lined_dropWhile)

text \<open>A parser step that never reads past the guard and leaves the guard where it is.\<close>

abbreviation guarded :: "(parse_error + ('a \<times> string)) \<Rightarrow> bool" where
  "guarded x \<equiv> (case x of Inl e \<Rightarrow> e \<noteq> Out_of_range | Inr (v, r) \<Rightarrow> lined r)"

lemma guarded_single_quoted: "lined s \<Longrightarrow> guarded (single_quoted res s)"
proof (induction res s rule: single_quoted.induct)
  case (2 res c cs)
  then show ?case
    by (cases cs) (auto dest: lined_Cons)
qed simp

lemma guarded_escape_sequence:
  assumes "lined s" shows "guarded (escape_sequence s)"
proof -
  obtain e es where s: "s = e # es" using assms by (cases s) auto
  have x: "simple_escape LF = None" by (simp add: simple_escape_def)
  show ?thesis
  proof (cases "simple_escape e")
    case (Some y)
    then have "e \<noteq> LF" using x by auto
    then show ?thesis using Some s assms lined_Cons by (auto simp: escape_sequence_def)
  next
    case None
    show ?thesis
    proof (cases "e = CHR ''x''")
      case False
      then show ?thesis using None s by (simp add: escape_sequence_def)
    next
      case True
      have nx: "\<not> is_xdigit LF" by (simp add: is_xdigit_def is_digit_def char_le_code)
      have es: "lined es" using assms s True lined_Cons by auto
      have "guarded (hex_escape es)"
        using es nx
        by (auto simp: hex_escape_def bad_hex_def split: list.split dest: lined_Cons)
      then show ?thesis using True None s by (simp add: escape_sequence_def)
    qed
  qed
qed

lemma guarded_double_quoted: "lined s \<Longrightarrow> guarded (double_quoted res s)"
proof (induction res s rule: double_quoted.induct)
  case (2 res c cs)
  show ?case
  proof (cases "c = LF")
    case False
    then have cs: "lined cs" using 2(3) lined_Cons by blast
    note seq = guarded_escape_sequence [OF cs]
    show ?thesis
    proof (cases "c = CHR 0x22 \<or> c \<noteq> CHR 0x5C")
      case True
      then show ?thesis using 2(1) cs False by auto
    next
      case esc: False
      show ?thesis
      proof (cases "escape_sequence cs")
        case (Inl e)
        then show ?thesis using seq esc by simp
      next
        case (Inr y)
        obtain x r where y: "y = (x, r)" by (cases y)
        then have "guarded (double_quoted (res @ [x]) r)"
          using 2(2) [OF False _ _ Inr y [symmetric]] seq Inr esc by simp
        then show ?thesis using Inr y esc by simp
      qed
    qed
  qed simp
qed simp

lemma guarded_string_literal:
  assumes "lined (c # cs)" and "c \<noteq> LF"
  shows "guarded (string_literal b c cs)"
proof -
  let ?w = "takeWhile (\<lambda>x. \<not> stops_literal b x) cs"
  let ?res = "remove_trailing_space (c # ?w)"
  have cs: "lined cs" using assms lined_Cons by blast
  have "stops_literal b LF" by (simp add: stops_literal_def)
  then have "lined (dropWhile (\<lambda>x. \<not> stops_literal b x) cs)" using lined_dropWhile [OF cs] by simp
  then have "length ?w < length cs"
    by (metis lined_def dropWhile_eq_drop drop_eq_Nil linorder_not_le)
  moreover have "length ?res \<le> length (c # ?w)"
    unfolding remove_trailing_space_def by (metis length_dropWhile_le length_rev)
  ultimately have "length ?res < length (c # cs)" by simp
  then have "lined (drop (length ?res) (c # cs))" using assms(1) by (simp add: lined_def)
  then show ?thesis by (simp add: string_literal_def Let_def)
qed

lemma guarded_extract_value:
  assumes "lined s" and "hd s \<noteq> LF"
  shows "guarded (extract_value b s)"
proof -
  obtain c cs where s: "s = c # cs" using assms(1) by (cases s) auto
  then have c: "c \<noteq> LF" "lined cs" using assms lined_Cons by auto
  show ?thesis
    using guarded_single_quoted [OF c(2), of "[]"] guarded_double_quoted [OF c(2), of "[]"]
      guarded_string_literal [of c cs b] c assms(1) s
    by (simp add: extract_value_def)
qed

lemma guarded_array_step:
  assumes "lined s"
  shows "case array_step arr s of Inl e \<Rightarrow> e \<noteq> Out_of_range
    | Inr (stop, vs, r) \<Rightarrow> if stop then lined r else r = [] \<or> lined r"
proof (cases "dropWhile is_space s")
  case Nil
  show ?thesis unfolding array_step_def Nil by simp
next
  case (Cons c cs)
  have buff: "lined (c # cs)"
    using assms lined_suffix suffix_dropWhile [of is_space s] Cons by (metis list.distinct(1))
  have "is_space LF" by (simp add: is_space_def char_le_code)
  then have c: "c \<noteq> LF" using dropWhile_Cons_hd [OF Cons] by auto
  have cs: "lined cs" using lined_Cons buff c by blast
  show ?thesis
  proof (cases "c \<in> set '']#,''")
    case True
    then show ?thesis
      using Cons buff cs lined_skip_comment [OF buff] by (auto simp: array_step_def)
  next
    case False
    note val = guarded_extract_value [of "c # cs" True]
    show ?thesis
    proof (cases "extract_value True (c # cs)")
      case (Inl e)
      then show ?thesis using Cons False val buff c by (simp add: array_step_def)
    next
      case (Inr x)
      obtain v r where x: "x = (v, r)" by (cases x)
      then have "lined (dropWhile is_ws r)" using Inr val buff c lined_dropWhile [of r is_ws] by simp
      moreover then obtain d ds where d: "dropWhile is_ws r = d # ds"
        by (cases "dropWhile is_ws r") auto
      ultimately have dds: "lined (d # ds)" by simp
      then have "ds = [] \<or> lined ds" by (auto simp: lined_def)
      moreover have "d \<noteq> LF \<Longrightarrow> lined ds" using dds lined_Cons by blast
      moreover have "lined (skip_comment (d # ds))" using dds by (rule lined_skip_comment)
      ultimately have "ds = [] \<or> lined ds" "d \<noteq> LF \<Longrightarrow> lined ds" "lined (skip_comment (d # ds))"
        by blast+
      then show ?thesis using Cons False Inr x d by (auto simp: array_step_def)
    qed
  qed
qed

lemma guarded_parse_array: "s = [] \<or> lined s \<Longrightarrow> guarded (parse_array arr s)"
proof (induction arr s rule: parse_array.induct)
  case (1 arr s)
  show ?case
  proof (cases "s = []")
    case True
    then show ?thesis by (subst parse_array.simps) (simp add: array_step_def)
  next
    case False
    then have step: "case array_step arr s of Inl e \<Rightarrow> e \<noteq> Out_of_range
      | Inr (stop, vs, r) \<Rightarrow> if stop then lined r else r = [] \<or> lined r"
      using 1(2) guarded_array_step by blast
    show ?thesis
    proof (cases "array_step arr s")
      case (Inl e)
      then show ?thesis using step by (subst parse_array.simps) simp
    next
      case (Inr x)
      obtain stop vs r where x: "x = (stop, vs, r)" by (cases x)
      show ?thesis
        using step 1(1) [OF Inr x [symmetric] refl] Inr x
        by (subst parse_array.simps) (simp split: if_splits)
    qed
  qed
qed

lemma guarded_parse_value: "lined s \<Longrightarrow> guarded (parse_value s)"
proof -
  assume s: "lined s"
  then obtain c cs where c: "s = c # cs" by (cases s) auto
  show ?thesis
  proof (cases "c = CHR ''[''")
    case True
    then have "guarded (parse_array [] cs)" using s c lined_Cons guarded_parse_array by auto
    then show ?thesis using True c by (auto simp: parse_value_def split: sum.splits)
  next
    case False
    then show ?thesis
      using s c guarded_extract_value [OF s, of False]
      by (auto simp: parse_value_def split: sum.splits)
  qed
qed

lemma guarded_after_value:
  assumes "lined s"
  shows "case after_value s of Inl e \<Rightarrow> e \<noteq> Out_of_range | Inr r \<Rightarrow> r = [] \<or> lined r"
proof -
  have ws: "lined (dropWhile is_ws s)" using assms lined_dropWhile by simp
  then obtain c cs where c: "dropWhile is_ws s = c # cs" by (cases "dropWhile is_ws s") auto
  then have "lined (skip_comment (c # cs))" "cs = [] \<or> lined cs"
    using ws by (simp_all only: lined_skip_comment) (auto simp: lined_def)
  then show ?thesis using c by (auto simp: after_value_def)
qed

lemma guarded_parse_assignment:
  assumes "lined s"
  shows "case parse_assignment n s of Inl e \<Rightarrow> e \<noteq> Out_of_range | Inr r \<Rightarrow> lined r"
proof -
  have ws: "lined (dropWhile is_ws s)" using assms lined_dropWhile by simp
  then obtain c cs where c: "dropWhile is_ws s = c # cs" by (cases "dropWhile is_ws s") auto
  show ?thesis
    using ws c lined_Cons [of c cs] lined_dropWhile [of cs is_ws] by (simp add: parse_assignment_def)
qed

lemma name_char_LF [simp]: "\<not> is_name_char LF"
  by (simp add: is_name_char_def is_alpha_def is_digit_def char_le_code)

lemma guarded_parse_directive:
  assumes "lined s"
  shows "case parse_directive len s of Inl e \<Rightarrow> e \<noteq> Out_of_range
    | Inr (n, v, r) \<Rightarrow> r = [] \<or> lined r"
proof (cases "takeWhile is_name_char s = []")
  case True
  then show ?thesis by (simp add: parse_directive_def parse_name_def)
next
  case False
  let ?n = "takeWhile is_name_char s"
  let ?r1 = "dropWhile is_name_char s"
  have n: "parse_name s = Inr (?n, ?r1)" using False by (simp add: parse_name_def)
  have "lined ?r1" using assms lined_dropWhile by simp
  note a = guarded_parse_assignment [OF this, of ?n]
  show ?thesis
  proof (cases "parse_assignment ?n ?r1")
    case (Inl e)
    then show ?thesis using n a by (simp add: parse_directive_def)
  next
    case r2: (Inr r2)
    then have v: "guarded (parse_value r2)" using a guarded_parse_value by simp
    show ?thesis
    proof (cases "parse_value r2")
      case (Inl e)
      then show ?thesis using n r2 v by (simp add: parse_directive_def)
    next
      case (Inr x)
      then obtain w r3 where x: "parse_value r2 = Inr (w, r3)" by (cases x) auto
      then show ?thesis
        using n r2 v guarded_after_value [of r3]
        by (auto simp: parse_directive_def split: sum.splits)
    qed
  qed
qed

lemma guarded_load_step:
  assumes "lined s"
  shows "case load_step load_all len vars s of Inl e \<Rightarrow> e \<noteq> Out_of_range
    | Inr (vars', r) \<Rightarrow> r = [] \<or> lined r"
proof -
  have ws: "lined (dropWhile is_ws s)" using assms lined_dropWhile by simp
  then obtain c cs where c: "dropWhile is_ws s = c # cs" by (cases "dropWhile is_ws s") auto
  have rest: "drop 1 r = [] \<or> lined (drop 1 r)" if "lined r" for r
    using that by (cases r) (auto simp: lined_def)
  have "cs = [] \<or> lined cs" using rest [of "c # cs"] ws c by simp
  moreover have "drop 1 (skip_comment (c # cs)) = [] \<or> lined (drop 1 (skip_comment (c # cs)))"
    using rest lined_skip_comment ws c by metis
  ultimately show ?thesis
    using guarded_parse_directive [of "c # cs" len] ws c
    by (auto simp: load_step_def split: sum.splits)
qed


section \<open>Escaping\<close>

definition is_print :: "char \<Rightarrow> bool" where
  "is_print c \<longleftrightarrow> CHR '' '' \<le> c \<and> c \<le> CHR 0x7E"

definition is_string_literal :: "string \<Rightarrow> bool" where
  "is_string_literal s \<longleftrightarrow>
     s \<noteq> [] \<and>
     \<not> (hd s \<in> {CHR ''['', CHR 0x27, CHR 0x22, CHR ''#''} \<or> is_space (hd s) \<or> is_space (last s)) \<and>
     list_all (\<lambda>c. c \<notin> {LF, CHR '']'', CHR '','', CHR ''#''}) s"

definition escape_to_single_quoted_string :: "string \<Rightarrow> string" where
  "escape_to_single_quoted_string s =
     CHR 0x27 # concat (map (\<lambda>c. if c = CHR 0x27 then [c, CHR 0x27] else [c]) s) @ [CHR 0x27]"

definition double_quoted_char :: "(char \<Rightarrow> bool) \<Rightarrow> char \<Rightarrow> string" where
  "double_quoted_char func c =
     (if c = CHR 0x5C then [CHR 0x5C, CHR 0x5C]
      else if c = CHR 0x00 then [CHR 0x5C, CHR ''0'']
      else if c = CHR 0x22 then [CHR 0x5C, CHR 0x22]
      else if c = CHR ''?'' then [CHR 0x5C, CHR ''?'']
      else if c = CHR 0x07 then [CHR 0x5C, CHR ''a'']
      else if c = CHR 0x08 then [CHR 0x5C, CHR ''b'']
      else if c = CHR 0x0C then [CHR 0x5C, CHR ''f'']
      else if c = LF then [CHR 0x5C, CHR ''n'']
      else if c = CHR 0x0D then [CHR 0x5C, CHR ''r'']
      else if c = CHR 0x09 then [CHR 0x5C, CHR ''t'']
      else if c = CHR 0x0B then [CHR 0x5C, CHR ''v'']
      else if func c then
        [CHR 0x5C, CHR ''x'', dec2hex (drop_bit 4 (code c)), dec2hex (code c AND 15)]
      else [c])"

definition escape_to_double_quoted_string_impl :: "(char \<Rightarrow> bool) \<Rightarrow> string \<Rightarrow> string" where
  "escape_to_double_quoted_string_impl func s =
     CHR 0x22 # concat (map (double_quoted_char func) s) @ [CHR 0x22]"

definition escape_to_double_quoted_string :: "string \<Rightarrow> string" where
  "escape_to_double_quoted_string s = escape_to_double_quoted_string_impl is_cntrl s"

definition full_escape_to_double_quoted_string :: "string \<Rightarrow> string" where
  "full_escape_to_double_quoted_string s =
     escape_to_double_quoted_string_impl (\<lambda>c. \<not> is_print c) s"

definition escape_string :: "string \<Rightarrow> string" where
  "escape_string s =
     (if list_ex (\<lambda>c. c = CHR 0x27 \<or> is_cntrl c) s then escape_to_double_quoted_string s
      else if is_string_literal s then s
      else escape_to_single_quoted_string s)"

definition full_escape_string :: "string \<Rightarrow> string" where
  "full_escape_string s =
     (if list_ex (\<lambda>c. c = CHR 0x27 \<or> \<not> is_print c) s then full_escape_to_double_quoted_string s
      else if is_string_literal s then s
      else escape_to_single_quoted_string s)"

section \<open>Reading back what was escaped\<close>

lemma is_xdigit_dec2hex: "n < 16 \<Longrightarrow> is_xdigit (dec2hex n) \<and> hex2dec (dec2hex n) = n"
proof -
  have "list_all (\<lambda>n. is_xdigit (dec2hex n) \<and> hex2dec (dec2hex n) = n) [0..<16]" by code_simp
  then show "n < 16 \<Longrightarrow> is_xdigit (dec2hex n) \<and> hex2dec (dec2hex n) = n"
    by (simp add: list_all_iff)
qed

lemma byte_nibbles:
  fixes n :: nat
  assumes "n < 256"
  shows "drop_bit 4 n < 16" "n AND 15 < 16" "push_bit 4 (drop_bit 4 n) + (n AND 15) = n"
proof -
  have m: "n AND 15 = n mod 16" using take_bit_eq_mask [of 4 n] by (simp add: take_bit_eq_mod mask_eq_exp_minus_1)
  show "drop_bit 4 n < 16" using assms by (simp add: drop_bit_eq_div)
  show "n AND 15 < 16" using m by simp
  show "push_bit 4 (drop_bit 4 n) + (n AND 15) = n"
    unfolding m by (simp add: push_bit_eq_mult drop_bit_eq_div)
qed

lemma hex_escape_code:
  "hex_escape (dec2hex (drop_bit 4 (code c)) # dec2hex (code c AND 15) # t) = Inr (c, t)"
  using byte_nibbles [OF code_less [of c]] is_xdigit_dec2hex by (simp add: hex_escape_def)

lemma double_quoted_escape:
  "escape_sequence s = Inr (x, r) \<Longrightarrow> double_quoted res (CHR 0x5C # s) = double_quoted (res @ [x]) r"
  by simp

lemma escape_sequence_simple:
  "simple_escape e = Some x \<Longrightarrow> escape_sequence (e # es) = Inr (x, es)"
  by (simp add: escape_sequence_def)

lemma escape_sequence_hex:
  "escape_sequence (CHR ''x'' # dec2hex (drop_bit 4 (code c)) # dec2hex (code c AND 15) # t) = Inr (c, t)"
  by (simp add: escape_sequence_def simple_escape_def hex_escape_code)

lemma double_quoted_reads_char:
  assumes "c \<noteq> CHR 0x00"
  shows "double_quoted res (double_quoted_char func c @ t) = double_quoted (res @ [c]) t"
proof -
  let ?special = "[CHR 0x5C, CHR 0x22, CHR ''?'', CHR 0x07, CHR 0x08, CHR 0x0C, LF, CHR 0x0D,
    CHR 0x09, CHR 0x0B]"
  show ?thesis
  proof (cases "c \<in> set ?special")
    case True
    then show ?thesis
      by (auto simp: double_quoted_char_def escape_sequence_def simple_escape_def)
  next
    case False
    then have "double_quoted_char func c =
      (if func c then [CHR 0x5C, CHR ''x'', dec2hex (drop_bit 4 (code c)), dec2hex (code c AND 15)]
       else [c])"
      using assms by (simp add: double_quoted_char_def)
    then show ?thesis using False double_quoted_escape [OF escape_sequence_hex] by simp
  qed
qed

lemma double_quoted_reads_back:
  assumes "CHR 0x00 \<notin> set s"
  shows "double_quoted res (concat (map (double_quoted_char func) s) @ CHR 0x22 # t) = Inr (res @ s, t)"
  using assms by (induction s arbitrary: res) (auto simp: double_quoted_reads_char)

lemma single_quoted_reads_back:
  assumes "LF \<notin> set s" and "c \<noteq> CHR 0x27"
  shows "single_quoted res
    (concat (map (\<lambda>c. if c = CHR 0x27 then [c, CHR 0x27] else [c]) s) @ CHR 0x27 # c # t) =
    Inr (res @ s, c # t)"
  using assms by (induction s arbitrary: res) auto

lemma string_literal_reads_back:
  assumes "is_string_literal s" and "stops_literal b c"
  shows "extract_value b (s @ c # t) = Inr (s, c # t)"
proof -
  obtain x xs where s: "s = x # xs" using assms(1) by (cases s) (auto simp: is_string_literal_def)
  have lit: "x \<notin> {CHR ''['', CHR 0x27, CHR 0x22, CHR ''#'', LF, CHR '']'', CHR '',''}"
    "\<not> is_space (last s)"
    "\<And>y. y \<in> set xs \<Longrightarrow> y \<notin> {LF, CHR '']'', CHR '','', CHR ''#''}"
    using assms(1) s by (auto simp: is_string_literal_def list_all_iff)
  have "takeWhile (\<lambda>y. \<not> stops_literal b y) (xs @ c # t) = xs"
    using lit(3) assms(2) by (subst takeWhile_append2) (auto simp: stops_literal_def)
  moreover have "remove_trailing_space s = s"
  proof -
    have "rev s = last s # tl (rev s)" using s by (metis hd_Cons_tl hd_rev list.distinct(1) rev_is_Nil_conv)
    then have "dropWhile is_space (rev s) = rev s" using lit(2) by (metis dropWhile.simps(2))
    then show ?thesis by (simp add: remove_trailing_space_def)
  qed
  ultimately have "string_literal b x (xs @ c # t) = Inr (s, drop (length s) (s @ c # t))"
    using lit(1) s by (simp add: string_literal_def)
  then show ?thesis using lit(1) s by (simp add: extract_value_def)
qed

lemma extract_quoted:
  "extract_value b (CHR 0x22 # s) = double_quoted [] s"
  "extract_value b (CHR 0x27 # s) = single_quoted [] s"
  by (simp_all add: extract_value_def)

lemma stops_not_quote: "stops_literal b c \<Longrightarrow> c \<noteq> CHR 0x27"
  by (auto simp: stops_literal_def)

lemma escape_string_read:
  assumes "CHR 0x00 \<notin> set s" and "stops_literal b c"
    and "\<not> list_ex P s \<Longrightarrow> LF \<notin> set s"
  shows "extract_value b
    ((if list_ex P s then escape_to_double_quoted_string_impl func s
      else if is_string_literal s then s else escape_to_single_quoted_string s) @ c # t) =
    Inr (s, c # t)"
  using assms double_quoted_reads_back [OF assms(1), of "[]" func "c # t"]
    single_quoted_reads_back [of s c "[]" t] stops_not_quote [OF assms(2)]
    string_literal_reads_back [OF _ assms(2)]
  by (simp add: escape_to_double_quoted_string_impl_def escape_to_single_quoted_string_def
      extract_quoted)

lemma LF_class: "is_cntrl LF" "\<not> is_print LF"
  by (simp_all add: is_cntrl_def is_print_def char_le_code)

lemma extract_escape_string:
  assumes "CHR 0x00 \<notin> set s" and "stops_literal b c"
  shows "extract_value b (escape_string s @ c # t) = Inr (s, c # t)"
    and "extract_value b (full_escape_string s @ c # t) = Inr (s, c # t)"
proof -
  have LF: "LF \<notin> set s" if "\<not> list_ex (\<lambda>c. c = CHR 0x27 \<or> is_cntrl c) s"
    using that LF_class by (auto simp: list_ex_iff)
  have LF': "LF \<notin> set s" if "\<not> list_ex (\<lambda>c. c = CHR 0x27 \<or> \<not> is_print c) s"
    using that LF_class by (auto simp: list_ex_iff)
  show "extract_value b (escape_string s @ c # t) = Inr (s, c # t)"
    unfolding escape_string_def escape_to_double_quoted_string_def
    by (rule escape_string_read [OF assms LF])
  show "extract_value b (full_escape_string s @ c # t) = Inr (s, c # t)"
    unfolding full_escape_string_def full_escape_to_double_quoted_string_def
    by (rule escape_string_read [OF assms LF'])
qed

text \<open>An escaped string starts a value: not a space, not a delimiter, not a comment.\<close>

lemma escape_string_start:
  assumes "escape_string s = c # cs"
  shows "\<not> is_space c" and "c \<notin> set '']#,[''"
proof -
  have "c = CHR 0x22 \<or> c = CHR 0x27 \<or> is_string_literal s \<and> s = c # cs"
    using assms
    by (auto simp: escape_string_def escape_to_double_quoted_string_def
        escape_to_double_quoted_string_impl_def escape_to_single_quoted_string_def split: if_splits)
  moreover have "\<not> is_space (CHR 0x22)" "\<not> is_space (CHR 0x27)"
    by (simp_all add: is_space_def char_le_code)
  ultimately show "\<not> is_space c" "c \<notin> set '']#,[''" by (auto simp: is_string_literal_def)
qed

lemma escape_string_nonempty [simp]: "escape_string s \<noteq> []"
  by (simp add: escape_string_def escape_to_double_quoted_string_def is_string_literal_def
      escape_to_double_quoted_string_impl_def escape_to_single_quoted_string_def)

lemma is_space_simps [simp]:
  "is_space (CHR '' '')" "is_space (CHR 0x09)" "is_space LF" "is_ws (CHR '' '')" "is_ws (CHR 0x09)"
  "\<not> is_space (CHR ''['')" "\<not> is_space (CHR '','')" "\<not> is_space (CHR '']'')" "\<not> is_ws (CHR ''['')"
  "\<not> is_ws (CHR '','')" "\<not> is_ws (CHR '']'')" "\<not> is_ws (CHR '':'')"
  by (simp_all add: is_space_def is_ws_def char_le_code)

lemma parse_array_skip [simp]:
  "is_space c \<Longrightarrow> parse_array arr (c # s) = parse_array arr s"
  by (subst parse_array.simps, subst (2) parse_array.simps) (simp add: array_step_def)

lemma parse_array_end [simp]: "parse_array arr (CHR '']'' # s) = Inr (arr, s)"
  by (subst parse_array.simps) (simp add: array_step_def)

lemma array_step_escape:
  assumes "CHR 0x00 \<notin> set v" and "d \<in> set '',]'' \<or> d = LF"
  shows "array_step arr (escape_string v @ d # t) = Inr (d = CHR '']'', arr @ [v], t)"
proof -
  obtain c cs where c: "escape_string v = c # cs" by (cases "escape_string v") auto
  have d: "stops_literal True d" using assms(2) by (auto simp: stops_literal_def)
  have "dropWhile is_space (escape_string v @ d # t) = c # cs @ d # t"
    using escape_string_start [OF c] c by simp
  moreover have "extract_value True (c # cs @ d # t) = Inr (v, d # t)"
    using extract_escape_string(1) [OF assms(1) d, of t] c by simp
  moreover have "\<not> is_ws d" using assms(2) by auto
  ultimately show ?thesis
    using escape_string_start(2) [OF c] assms(2) by (auto simp: array_step_def)
qed

lemma parse_array_escape:
  assumes "CHR 0x00 \<notin> set v"
  shows "d = CHR '','' \<or> d = LF \<Longrightarrow>
      parse_array arr (escape_string v @ d # t) = parse_array (arr @ [v]) t"
    and "parse_array arr (escape_string v @ CHR '']'' # t) = Inr (arr @ [v], t)"
  using array_step_escape [OF assms] by (subst parse_array.simps; force)+

text \<open>The lines a configuration is written with.\<close>

datatype cfg_line =
    Scalar_line string
  | Inline_line "string list"
  | Block_line "string list"
  | Grouped_line "string list list"

fun inline_items :: "string list \<Rightarrow> string" where
  "inline_items [] = []"
| "inline_items [v] = escape_string v"
| "inline_items (v # w # vs) = escape_string v @ '', '' @ inline_items (w # vs)"

definition block_items :: "string list \<Rightarrow> string" where
  "block_items vs = concat (map (\<lambda>v. CHR 0x09 # escape_string v @ [LF]) vs)"

fun line_value :: "cfg_line \<Rightarrow> string" where
  "line_value (Scalar_line v) = escape_string v"
| "line_value (Inline_line vs) = ''['' @ inline_items vs @ '']''"
| "line_value (Block_line vs) = ''['' @ LF # block_items vs @ '']''"
| "line_value (Grouped_line vss) =
     ''['' @ concat (map (\<lambda>vs. (if vs \<noteq> [] then [LF] else []) @ block_items vs) vss) @ '']''"

fun line_text :: "string \<times> cfg_line \<Rightarrow> string" where
  "line_text (name, l) = name @ '': '' @ line_value l @ [LF]"

fun line_strings :: "cfg_line \<Rightarrow> string list" where
  "line_strings (Scalar_line v) = [v]"
| "line_strings (Inline_line vs) = vs"
| "line_strings (Block_line vs) = vs"
| "line_strings (Grouped_line vss) = concat vss"

fun line_var :: "cfg_line \<Rightarrow> cfg_var" where
  "line_var (Scalar_line v) = unset_var\<lparr>cv_set := True, cv_str := v\<rparr>"
| "line_var (Inline_line vs) = unset_var\<lparr>cv_set := True, cv_array := True, cv_arr := vs\<rparr>"
| "line_var (Block_line vs) = unset_var\<lparr>cv_set := True, cv_array := True, cv_arr := vs\<rparr>"
| "line_var (Grouped_line vss) = unset_var\<lparr>cv_set := True, cv_array := True, cv_arr := concat vss\<rparr>"

text \<open>A variable without the range of the text it was read from.\<close>

abbreviation no_span :: "cfg_var \<Rightarrow> cfg_var" where
  "no_span v \<equiv> v\<lparr>cv_span := (0, 0)\<rparr>"

definition forget_spans :: "cfg_vars \<Rightarrow> cfg_vars" where
  "forget_spans vars = (\<lambda>n. map_option no_span (vars n))"

definition line_wf :: "string \<times> cfg_line \<Rightarrow> bool" where
  "line_wf x \<longleftrightarrow>
     (case x of (name, l) \<Rightarrow>
        name \<noteq> [] \<and> list_all is_name_char name \<and>
        list_all (\<lambda>v. CHR 0x00 \<notin> set v) (line_strings l))"

lemma parse_inline:
  "list_all (\<lambda>v. CHR 0x00 \<notin> set v) vs \<Longrightarrow>
   parse_array arr (inline_items vs @ CHR '']'' # t) = Inr (arr @ vs, t)"
  by (induction vs arbitrary: arr rule: inline_items.induct) (simp_all add: parse_array_escape)

lemma parse_block:
  "list_all (\<lambda>v. CHR 0x00 \<notin> set v) vs \<Longrightarrow>
   parse_array arr (block_items vs @ CHR '']'' # t) = Inr (arr @ vs, t)"
  by (induction vs arbitrary: arr) (simp_all add: block_items_def parse_array_escape)

lemma parse_block_more:
  "list_all (\<lambda>v. CHR 0x00 \<notin> set v) vs \<Longrightarrow>
   parse_array arr (block_items vs @ t) = parse_array (arr @ vs) t"
  by (induction vs arbitrary: arr) (simp_all add: block_items_def parse_array_escape)

lemma block_items_Nil [simp]: "block_items [] = []"
  by (simp add: block_items_def)

lemma parse_grouped:
  "list_all (\<lambda>v. CHR 0x00 \<notin> set v) (concat vss) \<Longrightarrow>
   parse_array arr (concat (map (\<lambda>vs. (if vs \<noteq> [] then [LF] else []) @ block_items vs) vss) @ CHR '']'' # t) =
   Inr (arr @ concat vss, t)"
  by (induction vss arbitrary: arr) (auto simp: parse_block_more)

lemma parse_line_value:
  assumes "list_all (\<lambda>v. CHR 0x00 \<notin> set v) (line_strings l)"
  shows "parse_value (line_value l @ LF # t) = Inr (line_var l, LF # t)"
    and "\<not> is_ws (hd (line_value l @ LF # t))"
proof -
  have scalar: "parse_value (escape_string v @ LF # t) = Inr (line_var (Scalar_line v), LF # t) \<and>
      \<not> is_ws (hd (escape_string v))"
    if v: "CHR 0x00 \<notin> set v" for v
  proof -
    obtain c cs where c: "escape_string v = c # cs" by (cases "escape_string v") auto
    have "c \<noteq> LF" using escape_string_start(1) [OF c] by auto
    then show ?thesis
      using extract_escape_string(1) [OF v, of False LF t] escape_string_start [OF c] c
      by (auto simp: parse_value_def stops_literal_def is_ws_def)
  qed
  show "parse_value (line_value l @ LF # t) = Inr (line_var l, LF # t)"
    using assms scalar by (cases l) (simp_all add: parse_value_def parse_inline parse_block parse_grouped)
  show "\<not> is_ws (hd (line_value l @ LF # t))"
    using assms scalar by (cases l) simp_all
qed

lemma name_char_facts:
  "is_name_char c \<Longrightarrow> \<not> is_space c" "is_name_char c \<Longrightarrow> c \<noteq> CHR ''#''"
  "\<not> is_name_char (CHR '':'')"
  by (auto simp: is_name_char_def is_alpha_def is_digit_def is_space_def char_le_code)

lemma load_step_line:
  assumes "line_wf (name, l)"
  obtains sp where "load_step load_all len vars (line_text (name, l) @ t) =
    Inr (store_var load_all name ((line_var l)\<lparr>cv_span := sp\<rparr>) vars, t)"
proof -
  let ?rest = "CHR '':'' # CHR '' '' # line_value l @ LF # t"
  let ?val = "line_value l @ LF # t"
  have name: "name \<noteq> []" "\<And>c. c \<in> set name \<Longrightarrow> is_name_char c"
    and nul: "list_all (\<lambda>v. CHR 0x00 \<notin> set v) (line_strings l)"
    using assms by (auto simp: line_wf_def list_all_iff)
  obtain n ns where n: "name = n # ns" using name(1) by (cases name) auto
  have hd: "is_name_char n" using name(2) n by simp
  note first = name_char_facts(1,2) [OF hd]
  have "parse_name (name @ ?rest) = Inr (name, ?rest)"
    using name takeWhile_append2 [of name is_name_char ?rest]
      dropWhile_append2 [of name is_name_char ?rest] name_char_facts(3)
    by (simp add: parse_name_def)
  moreover have "parse_assignment name ?rest = Inr ?val"
    using parse_line_value(2) [OF nul, of t]
    by (cases ?val) (simp_all add: parse_assignment_def)
  moreover have "after_value (LF # t) = Inr t" by (simp add: after_value_def)
  ultimately have "parse_directive len (name @ ?rest) =
      Inr (name, (line_var l)\<lparr>cv_span := (len - length ?val, len - length (LF # t))\<rparr>, t)"
    using parse_line_value(1) [OF nul, of t] by (simp add: parse_directive_def)
  moreover have "dropWhile is_ws (name @ ?rest) = name @ ?rest" "n \<noteq> LF"
    using n first by (auto simp: is_ws_def)
  ultimately have "load_step load_all len vars (name @ ?rest) =
      Inr (store_var load_all name
        ((line_var l)\<lparr>cv_span := (len - length ?val, len - length (LF # t))\<rparr>) vars, t)"
    using n first by (simp add: load_step_def)
  then show thesis using that by simp
qed

text \<open>What a line does to the variables, without the ranges.\<close>

definition apply_line :: "bool \<Rightarrow> cfg_vars \<Rightarrow> string \<times> cfg_line \<Rightarrow> cfg_vars" where
  "apply_line load_all vars x = store_var load_all (fst x) (line_var (snd x)) vars"

lemma no_span_line_var [simp]: "no_span (line_var l) = line_var l"
  by (cases l) (simp_all add: unset_var_def)

lemma forget_store:
  "forget_spans (store_var load_all n v vars) = store_var load_all n (no_span v) (forget_spans vars)"
  by (rule ext) (simp add: forget_spans_def store_var_def)

lemma load_loop_lines:
  assumes "list_all line_wf ls"
  shows "map_sum id forget_spans (load_loop load_all len vars (concat (map line_text ls) @ [LF])) =
    Inr (foldl (apply_line load_all) (forget_spans vars) ls)"
  using assms
proof (induction ls arbitrary: vars)
  case Nil
  have "load_step load_all len vars [LF] = Inr (vars, [])" by (simp add: load_step_def)
  then show ?case by (simp add: load_loop.simps)
next
  case (Cons x ls)
  obtain name l where x: "x = (name, l)" by (cases x)
  let ?t = "concat (map line_text ls) @ [LF]"
  have wf: "line_wf (name, l)" using Cons.prems x by simp
  obtain sp where step: "load_step load_all len vars (line_text (name, l) @ ?t) =
      Inr (store_var load_all name ((line_var l)\<lparr>cv_span := sp\<rparr>) vars, ?t)"
    using load_step_line [OF wf] by blast
  then have "load_loop load_all len vars (line_text (name, l) @ ?t) =
      load_loop load_all len (store_var load_all name ((line_var l)\<lparr>cv_span := sp\<rparr>) vars) ?t"
    by (subst load_loop.simps) simp
  moreover have "forget_spans (store_var load_all name ((line_var l)\<lparr>cv_span := sp\<rparr>) vars) =
      apply_line load_all (forget_spans vars) x"
    using no_span_line_var [of l] x by (simp add: forget_store apply_line_def)
  ultimately show ?case using Cons x by simp
qed

lemma config_lines:
  assumes "list_all line_wf ls"
  shows "map_sum id forget_spans
      (load_config_from_string load_all vars (concat (map line_text ls))) =
    Inr (foldl (apply_line load_all) (forget_spans vars) ls)"
  using load_loop_lines [OF assms] by (simp add: load_config_from_string_def Let_def)

text \<open>
  C34. A configuration written line by line with escaped values (scalars, arrays on one line, arrays
  with a line per element) is loaded back: the parser accepts it and each line sets its variable to
  exactly the strings that were written, whatever characters other than NUL they contain; with
  \<open>load_all\<close> off only the variables of the set change. Later lines win over earlier ones.
\<close>

theorem config_roundtrip:
  assumes "list_all line_wf ls"
  shows "map_sum id forget_spans
      (load_config_from_string load_all vars (concat (map line_text ls))) =
    Inr (foldl (apply_line load_all) (forget_spans vars) ls)"
  using assms by (rule config_lines)

lemma config_roundtrip_witness:
  "map_sum id forget_spans (load_config_from_string True Map.empty
     (line_text (''name'', Scalar_line ''it's # 1'') @ line_text (''tests'', Inline_line [''a, b'', '''']))) =
   Inr ([''name'' \<mapsto> line_var (Scalar_line ''it's # 1''),
         ''tests'' \<mapsto> line_var (Inline_line [''a, b'', ''''])])"
proof -
  have "list_all line_wf
      [(''name'', Scalar_line ''it's # 1''), (''tests'', Inline_line [''a, b'', ''''])]"
    by (simp add: line_wf_def is_name_char_def is_alpha_def char_le_code)
  from config_roundtrip [OF this, of True Map.empty] show ?thesis
    by (simp add: apply_line_def store_var_def forget_spans_def)
qed

text \<open>
  A string with a NUL character is written as an escape sequence that the parser rejects:
  what \<open>escape_string\<close> makes for it never parses as a value.
\<close>

theorem escaped_nul_is_rejected:
  assumes "CHR 0x00 \<in> set s"
  shows "\<exists>rest. extract_value b (escape_string s @ t) =
    Inl (Parse_error (''Unknown escape sequence: '' @ [CHR 0x60, CHR 0x5C] @ ''0'' @ [CHR 0x60]) rest)"
proof -
  obtain p q where s: "s = p @ CHR 0x00 # q" and p: "CHR 0x00 \<notin> set p"
    using split_list_first [OF assms] by blast
  let ?q = "concat (map (double_quoted_char is_cntrl) q) @ CHR 0x22 # t"
  have "is_cntrl (CHR 0x00)" by (simp add: is_cntrl_def char_le_code)
  then have "escape_string s @ t = CHR 0x22 # concat (map (double_quoted_char is_cntrl) p) @
      [CHR 0x5C, CHR ''0''] @ ?q"
    using s by (simp add: escape_string_def escape_to_double_quoted_string_def
        escape_to_double_quoted_string_impl_def double_quoted_char_def)
  moreover have "double_quoted res (concat (map (double_quoted_char is_cntrl) p) @ u) =
      double_quoted (res @ p) u" for res u
    using p by (induction p arbitrary: res) (auto simp: double_quoted_reads_char)
  ultimately have "extract_value b (escape_string s @ t) =
      double_quoted p (CHR 0x5C # CHR ''0'' # ?q)"
    by (simp add: extract_quoted)
  then show ?thesis
    by (simp add: escape_sequence_def simple_escape_def quoted_char_def)
qed

lemma escaped_nul_is_rejected_witness:
  "\<exists>rest. extract_value False (escape_string [CHR ''a'', CHR 0x00] @ [LF]) =
    Inl (Parse_error (''Unknown escape sequence: '' @ [CHR 0x60, CHR 0x5C] @ ''0'' @ [CHR 0x60]) rest)"
  by (rule escaped_nul_is_rejected) simp

end
