(* ===== verification/Simfile.thy ===== *)
theory Simfile
  imports Test_Names Path_Utils Config_File "HOL-Library.Signed_Division" "HOL-Library.Multiset"
begin

text \<open>
  \<open>sim::Simfile\<close> (simlib src/sim/simfile.cc): the description of a problem package, loaded from the
  variables of a configuration file and dumped back. A memory limit is a uint64_t number of bytes,
  a time limit a number of nanoseconds, a score an int64_t; all are integers here, with the bounds
  and the shifts of the code. \<open>std::stod\<close> and the conversion of its result to nanoseconds are
  floating point arithmetic: the argument \<open>stod\<close> stands for both (whether the number is not above
  zero, and the nanoseconds it rounds to; None when it throws).
\<close>

section \<open>Data\<close>

record test =
  t_name :: string
  t_in :: string
  t_out :: "string option"
  t_time_limit :: int
  t_memory_limit :: int

record test_group =
  tg_tests :: "test list"
  tg_score :: int

record simfile =
  sf_name :: "string option"
  sf_label :: "string option"
  sf_statement :: "string option"
  sf_interactive :: bool
  sf_checker :: "string option"
  sf_solutions :: "string list"
  sf_global_mem_limit :: "int option"
  sf_tgroups :: "test_group list"

abbreviation quoted :: "string \<Rightarrow> string" where
  "quoted s \<equiv> CHR 0x60 # s @ [CHR 0x60]"

definition simfile_variables :: "string list" where
  "simfile_variables = [''name'', ''label'', ''interactive'', ''checker'', ''statement'', ''solutions'',
     ''memory_limit'', ''limits'', ''scoring'', ''tests_files'']"

definition simfile_config :: "string \<Rightarrow> parse_error + cfg_vars" where
  "simfile_config contents = load_config_from_string False (add_vars simfile_variables Map.empty) contents"

section \<open>Scalars\<close>

definition check_if_arr :: "cfg_var \<Rightarrow> string \<Rightarrow> unit res" where
  "check_if_arr v name =
     (if \<not> cv_array v \<and> cv_set v
      then Inl (Throw (''Simfile: variable '' @ quoted name @ '' has to be specified as an array''))
      else Inr ())"

definition check_if_not_arr :: "cfg_var \<Rightarrow> string \<Rightarrow> unit res" where
  "check_if_not_arr v name =
     (if cv_array v
      then Inl (Throw (''Simfile: variable '' @ quoted name @ '' cannot be specified as an array''))
      else Inr ())"

definition load_name :: "cfg_vars \<Rightarrow> simfile \<Rightarrow> simfile res" where
  "load_name config sf =
     (let v = get_var config ''name''
      in bind_res (check_if_not_arr v ''name'') (\<lambda>_.
         if \<not> cv_set v then Inl (Throw ''Simfile: missing problem's name'')
         else Inr (sf\<lparr>sf_name := Some (cv_str v)\<rparr>)))"

definition load_label :: "cfg_vars \<Rightarrow> simfile \<Rightarrow> simfile res" where
  "load_label config sf =
     (let v = get_var config ''label''
      in bind_res (check_if_not_arr v ''label'') (\<lambda>_.
         if \<not> cv_set v then Inl (Throw ''Simfile: missing problem's label'')
         else Inr (sf\<lparr>sf_label := Some (cv_str v)\<rparr>)))"

definition load_interactive :: "cfg_vars \<Rightarrow> simfile \<Rightarrow> simfile res" where
  "load_interactive config sf =
     (let v = get_var config ''interactive''
      in bind_res (check_if_not_arr v ''label'') (\<lambda>_.
         Inr (sf\<lparr>sf_interactive := cv_str v \<noteq> [] \<and> as_bool v\<rparr>)))"

text \<open>A path that cannot leave the package: absolute in the package, without its first slash.\<close>

definition package_path :: "string \<Rightarrow> string" where
  "package_path p = drop 1 (path_absolute p ''/'')"

definition load_checker :: "cfg_vars \<Rightarrow> simfile \<Rightarrow> simfile res" where
  "load_checker config sf0 =
     bind_res (load_interactive config sf0) (\<lambda>sf.
       let v = get_var config ''checker''
       in bind_res (check_if_not_arr v ''checker'') (\<lambda>_.
          if \<not> cv_set v \<or> cv_str v = [] then
            (if sf_interactive sf
             then Inl (Throw ''Simfile: interactive problems require checker (checker is not set)'')
             else Inr (sf\<lparr>sf_checker := None\<rparr>))
          else Inr (sf\<lparr>sf_checker := Some (package_path (cv_str v))\<rparr>)))"

definition load_statement :: "cfg_vars \<Rightarrow> simfile \<Rightarrow> simfile res" where
  "load_statement config sf =
     (let v = get_var config ''statement''
      in bind_res (check_if_not_arr v ''statement'') (\<lambda>_.
         if \<not> cv_set v then Inl (Throw ''Simfile: missing statement'')
         else if cv_str v = [] then Inl (Throw ''Simfile: statement cannot be empty'')
         else Inr (sf\<lparr>sf_statement := Some (package_path (cv_str v))\<rparr>)))"

definition load_solutions :: "cfg_vars \<Rightarrow> simfile \<Rightarrow> simfile res" where
  "load_solutions config sf =
     (let v = get_var config ''solutions''
      in bind_res (check_if_arr v ''solutions'') (\<lambda>_.
         if cv_arr v = [] then Inl (Throw ''Simfile: missing solution'')
         else Inr (sf\<lparr>sf_solutions := map package_path (cv_arr v)\<rparr>)))"

definition max_mem_limit :: int where
  "max_mem_limit = u64_max div 2 ^ 20"

text \<open>From MiB to bytes, a shift in 64 bits.\<close>

definition mib :: "int \<Rightarrow> int" where
  "mib x = x * 2 ^ 20 mod 2 ^ 64"

definition load_global_memory_limit_only :: "cfg_vars \<Rightarrow> simfile \<Rightarrow> simfile res" where
  "load_global_memory_limit_only config sf =
     (let ml = get_var config ''memory_limit'';
          invalid = Throw ''Simfile: invalid memory_limit - it has to be a positive integer''
      in bind_res (check_if_not_arr ml ''memory_limit'') (\<lambda>_.
         if cv_set ml then
           (if \<not> is_digit_not_greater_than (nat max_mem_limit) (cv_str ml)
            then (if \<not> is_digit_str (cv_str ml) then Inl invalid
                  else Inl (Throw (''Simfile: too big value of the '' @ quoted ''memory_limit'')))
            else case str2num 0 u64_max (cv_str ml) of
                   None \<Rightarrow> Inl Bad_optional_access
                 | Some x \<Rightarrow>
                     (let gml = mib x
                      in if gml \<le> 0 then Inl invalid else Inr (sf\<lparr>sf_global_mem_limit := Some gml\<rparr>)))
         else Inr (sf\<lparr>sf_global_mem_limit := None\<rparr>)))"

section \<open>Items of the arrays\<close>

definition extract_next_non_empty :: "string \<Rightarrow> string \<times> string" where
  "extract_next_non_empty s =
     (let s' = dropWhile is_space s; x = takeWhile (\<lambda>c. \<not> is_space c) s'
      in (x, drop (length x + 1) s'))"

definition is_real :: "string \<Rightarrow> bool" where
  "is_real s =
     (if s = [] then False
      else
        (let s = (if hd s = CHR ''-'' then tl s else s);
             dot_pos = length (takeWhile (\<lambda>c. c \<noteq> CHR ''.'') s)
         in if dot_pos \<ge> length s then is_digit_str s
            else is_digit_str (take dot_pos s) \<and> is_digit_str (drop (dot_pos + 1) s)))"

type_synonym seconds = "string \<Rightarrow> (bool \<times> int) option"

definition parse_limits_item :: "seconds \<Rightarrow> string \<Rightarrow> (string \<times> int \<times> int option) res" where
  "parse_limits_item stod item =
     (let (test_name, sp) = extract_next_non_empty item;
          (x, sp) = extract_next_non_empty sp
      in if \<not> is_real x
         then Inl (Throw (''Simfile: invalid time limit for the test '' @ quoted test_name))
         else case stod x of
                None \<Rightarrow> Inl (Throw ''stod'')
              | Some (not_positive, time_limit) \<Rightarrow>
                  (if not_positive
                   then Inl (Throw (''Simfile: invalid time limit of the test '' @ quoted test_name @
                     '' - it has to be grater than 0''))
                   else if time_limit = 0
                   then Inl (Throw (''Simfile: time limit of the test '' @ quoted test_name @
                     '' is to small - after rounding it is equal to 0 '' @
                     ''nanoseconds, but it has to be at least 1 nanosecond''))
                   else
                     (let sp = dropWhile is_space sp
                      in if sp = [] then Inr (test_name, time_limit, None)
                         else case str2num_between 0 u64_max 1 max_mem_limit sp of
                                None \<Rightarrow> Inl (Throw (''Simfile: invalid memory limit for the test '' @
                                  quoted test_name @ '' - it has to be a positive integer not greater than'' @
                                  int_to_string max_mem_limit))
                              | Some m \<Rightarrow> Inr (test_name, time_limit, Some (mib m)))))"

definition parse_scoring_item :: "string \<Rightarrow> (string \<times> int) res" where
  "parse_scoring_item item =
     (let (gid, sp) = extract_next_non_empty item
      in bind_res
           (if gid = [CHR 0x22, CHR 0x22] \<or> gid = [CHR 0x27, CHR 0x27] then Inr []
            else if \<not> is_digit_str gid
            then Inl (Throw (''Simfile: scoring of the invalid group '' @ quoted gid @
              '' - it has to be a positive integer or empty string i.e. '' @
              [CHR 0x22, CHR 0x22] @ '' or '' @ [CHR 0x27, CHR 0x27]))
            else Inr gid)
           (\<lambda>gid.
              let sp = dropWhile is_space sp
              in case str2num i64_min i64_max sp of
                   None \<Rightarrow> Inl (Throw (''Simfile: invalid scoring of the group '' @ quoted gid @
                     '': '' @ sp @ '' ''))
                 | Some score \<Rightarrow> Inr (gid, score)))"

definition parse_test_files_item :: "string \<Rightarrow> (string \<times> string \<times> string) res" where
  "parse_test_files_item item =
     (let (name, sp) = extract_next_non_empty item;
          (input, sp) = extract_next_non_empty sp;
          (output, sp) = extract_next_non_empty sp;
          sp = dropWhile is_space sp
      in if sp \<noteq> []
         then Inl (Throw (''Simfile: '' @ quoted ''tests_files'' @
           '': invalid format of entry for test '' @ quoted name @ '' - excess part: '' @ sp))
         else Inr (name, input, output))"

section \<open>Tests\<close>

text \<open>
  \<open>std::map\<close> with the order of test names: an association list, sorted by it; two keys neither of
  which is less than the other are the same key, and the first one inserted is kept.
\<close>

type_synonym groups = "(string \<times> test_group) list"

text \<open>\<open>tests_groups[gid].tests.emplace_back(...)\<close>\<close>

fun add_to_group :: "string \<Rightarrow> test \<Rightarrow> groups \<Rightarrow> groups" where
  "add_to_group gid t [] = [(gid, \<lparr> tg_tests = [t], tg_score = 0 \<rparr>)]"
| "add_to_group gid t ((k, g) # gs) =
     (if test_name_less gid k then (gid, \<lparr> tg_tests = [t], tg_score = 0 \<rparr>) # (k, g) # gs
      else if test_name_less k gid then (k, g) # add_to_group gid t gs
      else (k, g\<lparr>tg_tests := tg_tests g @ [t]\<rparr>) # gs)"

definition same_group :: "string \<Rightarrow> string \<Rightarrow> bool" where
  "same_group a b \<longleftrightarrow> \<not> test_name_less a b \<and> \<not> test_name_less b a"

definition group_exists :: "string \<Rightarrow> groups \<Rightarrow> bool" where
  "group_exists gid gs = list_ex (\<lambda>(k, g). same_group gid k) gs"

text \<open>The group of a test: tests called ocen belong to group 0.\<close>

definition test_group_id :: "string \<Rightarrow> string" where
  "test_group_id test_name =
     (let (gid, tid) = split_name test_name in if gid \<noteq> [] \<and> tid = ''ocen'' then ''0'' else gid)"

fun load_limits :: "seconds \<Rightarrow> int option \<Rightarrow> string list \<Rightarrow> groups \<Rightarrow> groups res" where
  "load_limits stod global [] gs = Inr gs"
| "load_limits stod global (item # items) gs =
     bind_res (parse_limits_item stod item) (\<lambda>(test_name, time_limit, memory_limit).
       case (case memory_limit of Some m \<Rightarrow> Some m | None \<Rightarrow> global) of
         None \<Rightarrow> Inl (Throw (''Simfile: missing memory limit for the test '' @ quoted test_name))
       | Some m \<Rightarrow>
           load_limits stod global items
             (add_to_group (test_group_id test_name)
                \<lparr> t_name = test_name, t_in = [], t_out = None, t_time_limit = time_limit,
                  t_memory_limit = m \<rparr> gs))"

text \<open>
  Automatic scoring: \<open>groups_no\<close> counts down, a division by zero (or the assertion before it) ends
  the process.
\<close>

fun auto_scores :: "nat \<Rightarrow> int \<Rightarrow> groups \<Rightarrow> groups res" where
  "auto_scores groups_no total_score [] = Inr []"
| "auto_scores groups_no total_score ((gid, g) # gs) =
     (if gid \<noteq> ''0''
      then (if groups_no = 0 then Inl Terminate
            else
              (let score = total_score div int groups_no
               in bind_res (auto_scores (groups_no - 1) (total_score - score) gs)
                    (\<lambda>rest. Inr ((gid, g\<lparr>tg_score := score\<rparr>) # rest))))
      else bind_res (auto_scores groups_no total_score gs) (\<lambda>rest. Inr ((gid, g) # rest)))"

fun read_scoring :: "groups \<Rightarrow> string list \<Rightarrow> (string \<rightharpoonup> int) \<Rightarrow> (string \<rightharpoonup> int) res" where
  "read_scoring gs [] gid_to_score = Inr gid_to_score"
| "read_scoring gs (item # items) gid_to_score =
     bind_res (parse_scoring_item item) (\<lambda>(gid, score).
       if \<not> group_exists gid gs
       then Inl (Throw (''Simfile: scoring of the invalid group '' @ quoted gid @
         '' - there is no test belonging to this group''))
       else if gid_to_score gid \<noteq> None
       then Inl (Throw (''Simfile: redefined scoring of the group '' @ quoted gid))
       else read_scoring gs items (gid_to_score(gid \<mapsto> score)))"

fun assign_scores :: "(string \<rightharpoonup> int) \<Rightarrow> groups \<Rightarrow> groups res" where
  "assign_scores gid_to_score [] = Inr []"
| "assign_scores gid_to_score ((gid, g) # gs) =
     (case gid_to_score gid of
        None \<Rightarrow> Inl (Throw (''Simfile: missing scoring of the group '' @ quoted gid))
      | Some score \<Rightarrow>
          bind_res (assign_scores gid_to_score gs)
            (\<lambda>rest. Inr ((gid, g\<lparr>tg_score := score\<rparr>) # rest)))"

definition load_scoring :: "cfg_vars \<Rightarrow> groups \<Rightarrow> groups res" where
  "load_scoring config gs =
     (let scoring = get_var config ''scoring''
      in bind_res (check_if_arr scoring ''scoring'') (\<lambda>_.
         if \<not> cv_set scoring
         then auto_scores (length gs - length (filter (\<lambda>(k, g). same_group ''0'' k) gs)) 100 gs
         else bind_res (read_scoring gs (cv_arr scoring) Map.empty) (\<lambda>scores. assign_scores scores gs)))"

text \<open>
  \<open>sort\<close> by name. \<open>std::sort\<close> leaves the order of two tests of the same name open; here they stay in
  their order.
\<close>

fun insert_test :: "test \<Rightarrow> test list \<Rightarrow> test list" where
  "insert_test t [] = [t]"
| "insert_test t (u # us) =
     (if test_name_less (t_name u) (t_name t) then u # insert_test t us else t # u # us)"

definition sort_tests :: "test list \<Rightarrow> test list" where
  "sort_tests ts = foldr insert_test ts []"

definition load_tests :: "seconds \<Rightarrow> cfg_vars \<Rightarrow> simfile \<Rightarrow> simfile res" where
  "load_tests stod config sf0 =
     bind_res (load_global_memory_limit_only config sf0) (\<lambda>sf.
       let limits = get_var config ''limits''
       in bind_res (check_if_arr limits ''limits'') (\<lambda>_.
          if \<not> cv_set limits then Inl (Throw ''Simfile: missing limits array'')
          else bind_res (load_limits stod (sf_global_mem_limit sf) (cv_arr limits) []) (\<lambda>gs.
               bind_res (load_scoring config gs) (\<lambda>gs'.
               Inr (sf\<lparr>sf_tgroups := map (\<lambda>(k, g). g\<lparr>tg_tests := sort_tests (tg_tests g)\<rparr>) gs'\<rparr>)))))"

section \<open>Files of the tests\<close>

type_synonym test_files = "string \<rightharpoonup> string \<times> string"

fun read_test_files :: "bool \<Rightarrow> string list \<Rightarrow> test_files \<Rightarrow> test_files res" where
  "read_test_files interactive [] files = Inr files"
| "read_test_files interactive (item # items) files =
     bind_res (parse_test_files_item item) (\<lambda>(name, in_file, out_file).
       if name = [] then read_test_files interactive items files
       else if in_file = []
       then Inl (Throw (''Simfile: '' @ quoted ''test_files'' @ '': missing input file for test '' @
         quoted name))
       else if interactive \<and> out_file \<noteq> []
       then Inl (Throw (''Simfile: '' @ quoted ''test_files'' @ '': output file specified for test '' @
         quoted name @ '', but interactive problems have no test output files''))
       else if \<not> interactive \<and> out_file = []
       then Inl (Throw (''Simfile: '' @ quoted ''test_files'' @ '': missing output file for test: '' @
         quoted name))
       else if files name \<noteq> None
       then Inl (Throw (''Simfile: '' @ quoted ''test_files'' @ '': redefinition of the test '' @
         quoted name))
       else read_test_files interactive items (files(name \<mapsto> (in_file, out_file))))"

fun map_res :: "('a \<Rightarrow> 'b res) \<Rightarrow> 'a list \<Rightarrow> 'b list res" where
  "map_res f [] = Inr []"
| "map_res f (x # xs) = bind_res (f x) (\<lambda>y. bind_res (map_res f xs) (\<lambda>ys. Inr (y # ys)))"

definition assign_files :: "bool \<Rightarrow> test_files \<Rightarrow> test \<Rightarrow> test res" where
  "assign_files interactive files t =
     (case files (t_name t) of
        None \<Rightarrow> Inl (Throw (''Simfile: no files specified for the test '' @ quoted (t_name t)))
      | Some (in_file, out_file) \<Rightarrow>
          Inr (t\<lparr> t_in := package_path in_file,
                  t_out := (if interactive then None else Some (package_path out_file)) \<rparr>))"

definition load_tests_files :: "cfg_vars \<Rightarrow> simfile \<Rightarrow> simfile res" where
  "load_tests_files config sf0 =
     bind_res (load_interactive config sf0) (\<lambda>sf.
       let tests_files = get_var config ''tests_files''
       in bind_res (check_if_arr tests_files ''tests_files'') (\<lambda>_.
          if \<not> cv_set tests_files then Inl (Throw ''Simfile: missing tests_files array'')
          else bind_res (read_test_files (sf_interactive sf) (cv_arr tests_files) Map.empty) (\<lambda>files.
               bind_res (map_res (\<lambda>g. bind_res (map_res (assign_files (sf_interactive sf) files) (tg_tests g))
                   (\<lambda>ts. Inr (g\<lparr>tg_tests := ts\<rparr>))) (sf_tgroups sf))
                 (\<lambda>gs. Inr (sf\<lparr>sf_tgroups := gs\<rparr>)))))"

definition load_tests_with_files :: "seconds \<Rightarrow> cfg_vars \<Rightarrow> simfile \<Rightarrow> simfile res" where
  "load_tests_with_files stod config sf =
     bind_res (load_tests stod config sf) (\<lambda>sf. load_tests_files config sf)"

definition load_all :: "seconds \<Rightarrow> cfg_vars \<Rightarrow> simfile \<Rightarrow> simfile res" where
  "load_all stod config sf =
     bind_res (load_name config sf) (\<lambda>sf.
     bind_res (load_label config sf) (\<lambda>sf.
     bind_res (load_checker config sf) (\<lambda>sf.
     bind_res (load_statement config sf) (\<lambda>sf.
     bind_res (load_solutions config sf) (\<lambda>sf.
     load_tests_with_files stod config sf)))))"

section \<open>Validation of the files\<close>

text \<open>\<open>is_regular_file\<close> asks the file system: an argument, on the path in the package.\<close>

definition validate_files :: "(string \<Rightarrow> bool) \<Rightarrow> string \<Rightarrow> simfile \<Rightarrow> unit res" where
  "validate_files is_regular_file dir sf =
     (let file_ok = (\<lambda>f. is_regular_file (dir @ ''/'' @ f));
          require = (\<lambda>ok what f. if ok then Inr () else Inl (Throw (''Simfile: invalid '' @ what @ quoted f)))
      in bind_res (case sf_checker sf of None \<Rightarrow> Inr ()
             | Some c \<Rightarrow> require (c \<noteq> [] \<and> file_ok c) ''checker file '' c) (\<lambda>_.
         bind_res (case sf_statement sf of None \<Rightarrow> Inr ()
             | Some st \<Rightarrow> require (file_ok st) ''statement file '' st) (\<lambda>_.
         bind_res (map_res (\<lambda>f. require (file_ok f) ''solution file '' f) (sf_solutions sf)) (\<lambda>_.
         bind_res (map_res (\<lambda>t.
             bind_res (require (file_ok (t_in t)) ''test input file '' (t_in t)) (\<lambda>_.
             case t_out t of None \<Rightarrow> Inr ()
             | Some f \<Rightarrow> require (file_ok f) ''test output file '' f))
           (concat (map tg_tests (sf_tgroups sf)))) (\<lambda>_. Inr ())))))"

section \<open>Dumping\<close>

text \<open>\<open>to_string\<close> of a duration: seconds with the fraction that is left of the nanoseconds.\<close>

fun fraction_digits :: "nat \<Rightarrow> int \<Rightarrow> string" where
  "fraction_digits 0 x = []"
| "fraction_digits (Suc n) x = fraction_digits n (x sdiv 10) @ [digit_char (x smod 10)]"

definition duration_to_string :: "int \<Rightarrow> string" where
  "duration_to_string dur =
     (let dec_dur = dur sdiv 10 ^ 9;
          x = dur - dec_dur * 10 ^ 9;
          fraction = rev (dropWhile (\<lambda>c. c = CHR ''0'') (rev (fraction_digits 9 x)))
      in int_to_string dec_dur @ (if fraction = [] then [] else CHR ''.'' # fraction))"

definition scoring_items :: "simfile \<Rightarrow> string list" where
  "scoring_items sf =
     concat (map (\<lambda>g. case tg_tests g of
         [] \<Rightarrow> []
       | t # ts \<Rightarrow>
           (let (gid, tid) = split_name (t_name t);
                gid = (if tid = ''ocen'' then ''0'' else gid);
                gid = (if gid = [] then [CHR 0x22, CHR 0x22] else gid)
            in [gid @ '' '' @ int_to_string (tg_score g)])) (sf_tgroups sf))"

definition append_scoring_value :: "string \<Rightarrow> simfile \<Rightarrow> string" where
  "append_scoring_value res sf =
     res @ ''['' @ [LF] @
     concat (map (\<lambda>item. CHR 0x09 # escape_string item @ [LF]) (scoring_items sf)) @ '']''"

definition limits_item :: "simfile \<Rightarrow> test \<Rightarrow> string" where
  "limits_item sf t =
     t_name t @ '' '' @ duration_to_string (t_time_limit t) @
     (if sf_global_mem_limit sf = None \<or> t_memory_limit t \<noteq> the (sf_global_mem_limit sf)
      then '' '' @ int_to_string (t_memory_limit t div 2 ^ 20) else [])"

definition append_limits_value :: "string \<Rightarrow> simfile \<Rightarrow> string" where
  "append_limits_value res sf =
     res @ ''['' @
     concat (map (\<lambda>g.
         (if tg_tests g \<noteq> [] then [LF] else []) @
         concat (map (\<lambda>t. CHR 0x09 # escape_string (limits_item sf t) @ [LF]) (tg_tests g)))
       (sf_tgroups sf)) @ '']''"

text \<open>The items of \<open>tests_files\<close>; \<open>test.out.value()\<close> throws on a test without an output file.\<close>

definition files_item :: "simfile \<Rightarrow> test \<Rightarrow> string list res" where
  "files_item sf t =
     (if t_in t = [] then Inr []
      else if sf_interactive sf then Inr [t_name t @ '' '' @ t_in t]
      else case t_out t of
             None \<Rightarrow> Inl Bad_optional_access
           | Some out \<Rightarrow> Inr (if out = [] then [] else [t_name t @ '' '' @ t_in t @ '' '' @ out]))"

definition files_items :: "simfile \<Rightarrow> string list res" where
  "files_items sf =
     bind_res (map_res (files_item sf) (concat (map tg_tests (sf_tgroups sf)))) (\<lambda>xss. Inr (concat xss))"

fun solutions_text :: "string list \<Rightarrow> string" where
  "solutions_text [] = []"
| "solutions_text (s # ss) =
     escape_string s @ concat (map (\<lambda>x. '', '' @ escape_string x) ss)"

definition dump :: "simfile \<Rightarrow> string res" where
  "dump sf =
     bind_res (files_items sf) (\<lambda>files. Inr (
       (case sf_name sf of None \<Rightarrow> [] | Some n \<Rightarrow> ''name: '' @ escape_string n @ [LF]) @
       (case sf_label sf of None \<Rightarrow> [] | Some l \<Rightarrow> ''label: '' @ escape_string l @ [LF]) @
       (if sf_interactive sf then ''interactive: true'' @ [LF] else []) @
       (case sf_statement sf of None \<Rightarrow> [] | Some st \<Rightarrow> ''statement: '' @ escape_string st @ [LF]) @
       (case sf_checker sf of None \<Rightarrow> [] | Some c \<Rightarrow> ''checker: '' @ escape_string c @ [LF]) @
       ''solutions: ['' @ solutions_text (sf_solutions sf) @ '']'' @ [LF] @
       (case sf_global_mem_limit sf of
          None \<Rightarrow> []
        | Some m \<Rightarrow>
            (if m \<ge> 2 ^ 20 then ''memory_limit: '' @ int_to_string (m div 2 ^ 20) @ [LF] else [])) @
       append_limits_value ''limits: '' sf @ [LF] @
       (if sf_tgroups sf \<noteq> [] then append_scoring_value ''scoring: '' sf @ [LF] else []) @
       ''tests_files: ['' @ [LF] @
       concat (map (\<lambda>item. CHR 0x09 # escape_string item @ [LF]) files) @ '']'' @ [LF]))"

definition dump_scoring_value :: "simfile \<Rightarrow> string" where
  "dump_scoring_value sf = append_scoring_value [] sf"

definition dump_limits_value :: "simfile \<Rightarrow> string" where
  "dump_limits_value sf = append_limits_value [] sf"

section \<open>Groups\<close>

lemma extract_trailing_none:
  "s = [] \<or> \<not> f (last s) \<Longrightarrow> extract_trailing f s = ([], s)"
  by (cases s rule: rev_cases) (simp_all add: extract_trailing_def)

lemma extract_trailing_all:
  assumes "list_all f s"
  shows "extract_trailing f s = (s, [])"
proof -
  have tw: "takeWhile f (rev s) = rev s"
    using assms by (intro takeWhile_eq_all_conv [THEN iffD2]) (simp add: list_all_iff)
  have "dropWhile f (rev s) = []"
    using assms by (simp add: list_all_iff)
  then show ?thesis unfolding extract_trailing_def tw by simp
qed

lemma digit_not_alpha: "is_digit c \<Longrightarrow> \<not> is_alpha c"
  by (auto simp: is_digit_def is_alpha_def char_le_code)

lemma split_digits: "list_all is_digit k \<Longrightarrow> split_name k = (k, [])"
proof -
  assume k: "list_all is_digit k"
  then have "k = [] \<or> \<not> is_alpha (last k)" using digit_not_alpha by (auto simp: list_all_iff)
  then show ?thesis using k by (simp add: split_name_def extract_trailing_all extract_trailing_none)
qed

lemma digits_less:
  "list_all is_digit a \<Longrightarrow> list_all is_digit b \<Longrightarrow> test_name_less a b \<longleftrightarrow> gid_num a < gid_num b"
  by (simp add: test_name_order name_key_def key_less_def split_digits)

lemma test_group_id_digits: "list_all is_digit (test_group_id n)"
  using split_name_parts [of n] by (auto simp: test_group_id_def split: prod.splits)

text \<open>
  The groups under construction: the ids strictly increasing, no group empty, every test in the group
  of its id, and the id of a group spelled as in its first test.
\<close>

abbreviation tests_of :: "groups \<Rightarrow> test list" where
  "tests_of gs \<equiv> concat (map (\<lambda>(k, g). tg_tests g) gs)"

definition group_ok :: "string \<times> test_group \<Rightarrow> bool" where
  "group_ok x \<longleftrightarrow>
     (case x of (k, g) \<Rightarrow>
        list_all is_digit k \<and>
        (\<exists>t ts. tg_tests g = t # ts \<and> test_group_id (t_name t) = k) \<and>
        (\<forall>t\<in>set (tg_tests g). gid_num (test_group_id (t_name t)) = gid_num k))"

definition groups_ok :: "groups \<Rightarrow> bool" where
  "groups_ok gs \<longleftrightarrow> list_all group_ok gs \<and> sorted_wrt (\<lambda>x y. gid_num (fst x) < gid_num (fst y)) gs"

lemma add_to_group_keys:
  "y \<in> set (add_to_group gid t gs) \<Longrightarrow>
     gid_num (fst y) = gid_num gid \<or> (\<exists>x\<in>set gs. gid_num (fst y) = gid_num (fst x))"
  by (induction gid t gs rule: add_to_group.induct) (auto split: if_splits)

lemma add_to_group_ok:
  assumes "groups_ok gs" and "gid = test_group_id (t_name t)"
  shows "groups_ok (add_to_group gid t gs) \<and>
    mset (tests_of (add_to_group gid t gs)) = add_mset t (mset (tests_of gs))"
  using assms
proof (induction gid t gs rule: add_to_group.induct)
  case (1 gid t)
  then show ?case by (auto simp: groups_ok_def group_ok_def test_group_id_digits)
next
  case (2 gid t k g gs)
  have gid: "list_all is_digit gid" using 2 test_group_id_digits by simp
  have k: "list_all is_digit k" "groups_ok gs" "group_ok (k, g)"
    "\<forall>x\<in>set gs. gid_num k < gid_num (fst x)"
    using 2 by (auto simp: groups_ok_def group_ok_def)
  note less = digits_less [OF gid k(1)] digits_less [OF k(1) gid]
  have new: "group_ok (gid, \<lparr> tg_tests = [t], tg_score = 0 \<rparr>)"
    using gid 2 by (auto simp: group_ok_def)
  consider "gid_num gid < gid_num k" | "gid_num k < gid_num gid" | "gid_num gid = gid_num k"
    by linarith
  then show ?case
  proof cases
    case 1
    then show ?thesis using less new k by (auto simp: groups_ok_def)
  next
    case c2: 2
    then have IH: "groups_ok (add_to_group gid t gs)"
      "mset (tests_of (add_to_group gid t gs)) = add_mset t (mset (tests_of gs))"
      using 2(1) [OF _ _ k(2) 2(3)] less c2 by auto
    have "\<forall>x\<in>set (add_to_group gid t gs). gid_num k < gid_num (fst x)"
      using add_to_group_keys [of _ gid t gs] k(4) c2 by fastforce
    then show ?thesis using IH less c2 k(3) by (auto simp: groups_ok_def)
  next
    case 3
    have "group_ok (k, g\<lparr>tg_tests := tg_tests g @ [t]\<rparr>)"
    proof -
      have "gid_num (test_group_id (t_name t)) = gid_num k" using 3 2(3) by simp
      moreover obtain u us where "tg_tests g = u # us" "test_group_id (t_name u) = k"
        using k(3) by (auto simp: group_ok_def)
      moreover have "\<forall>t\<in>set (tg_tests g). gid_num (test_group_id (t_name t)) = gid_num k"
        using k(3) by (simp add: group_ok_def)
      ultimately show ?thesis using k(1) by (simp add: group_ok_def)
    qed
    then show ?thesis using k(2,4) by (simp add: groups_ok_def less 3)
  qed
qed

text \<open>The test that an item of \<open>limits\<close> describes.\<close>

definition limits_test :: "seconds \<Rightarrow> int option \<Rightarrow> string \<Rightarrow> test res" where
  "limits_test stod global item =
     bind_res (parse_limits_item stod item) (\<lambda>(test_name, time_limit, memory_limit).
       case (case memory_limit of Some m \<Rightarrow> Some m | None \<Rightarrow> global) of
         None \<Rightarrow> Inl (Throw (''Simfile: missing memory limit for the test '' @ quoted test_name))
       | Some m \<Rightarrow>
           Inr \<lparr> t_name = test_name, t_in = [], t_out = None, t_time_limit = time_limit,
                 t_memory_limit = m \<rparr>)"

lemma load_limits_Cons:
  "load_limits stod global (item # items) gs =
     bind_res (limits_test stod global item)
       (\<lambda>t. load_limits stod global items (add_to_group (test_group_id (t_name t)) t gs))"
  by (cases "parse_limits_item stod item") (auto simp: limits_test_def split: option.split)

lemma load_limits_groups:
  assumes "load_limits stod global items gs = Inr gs'" and "groups_ok gs"
  shows "groups_ok gs' \<and>
    (\<exists>ts. map_res (limits_test stod global) items = Inr ts \<and> mset (tests_of gs') = mset (tests_of gs) + mset ts)"
  using assms
proof (induction items arbitrary: gs)
  case (Cons item items)
  from Cons.prems(1) obtain t where t: "limits_test stod global item = Inr t"
    and rest: "load_limits stod global items (add_to_group (test_group_id (t_name t)) t gs) = Inr gs'"
    unfolding load_limits_Cons by (auto simp: bind_res_eq_Inr)
  note add = add_to_group_ok [OF Cons.prems(2) refl, of t]
  then show ?case using Cons.IH [OF rest] t by (auto simp: bind_res_eq_Inr)
qed simp

section \<open>Scoring\<close>

text \<open>Scoring changes scores only.\<close>

definition same_but_score :: "string \<times> test_group \<Rightarrow> string \<times> test_group \<Rightarrow> bool" where
  "same_but_score x y \<longleftrightarrow> fst y = fst x \<and> tg_tests (snd y) = tg_tests (snd x)"

lemma same_but_score_refl [simp]: "same_but_score x x" "same_but_score (k, g) (k, g\<lparr>tg_score := n\<rparr>)"
  by (simp_all add: same_but_score_def)

lemma assign_scores_same: "assign_scores f gs = Inr gs' \<Longrightarrow> list_all2 same_but_score gs gs'"
  by (induction f gs arbitrary: gs' rule: assign_scores.induct)
    (auto split: option.splits simp: bind_res_eq_Inr)

lemma auto_scores_same: "auto_scores n m gs = Inr gs' \<Longrightarrow> list_all2 same_but_score gs gs'"
  by (induction n m gs arbitrary: gs' rule: auto_scores.induct)
    (auto split: if_splits simp: bind_res_eq_Inr Let_def)

lemma load_scoring_same: "load_scoring config gs = Inr gs' \<Longrightarrow> list_all2 same_but_score gs gs'"
  using assign_scores_same auto_scores_same
  by (fastforce simp: load_scoring_def Let_def bind_res_eq_Inr split: if_splits)

lemma same_but_score_group_ok: "same_but_score x y \<Longrightarrow> group_ok y = group_ok x"
  by (cases x; cases y) (simp add: same_but_score_def group_ok_def)

lemma same_but_score_ok:
  assumes "list_all2 same_but_score gs gs'"
  shows "groups_ok gs' = groups_ok gs \<and> tests_of gs' = tests_of gs \<and> map fst gs' = map fst gs"
proof -
  have "list_all group_ok gs' = list_all group_ok gs \<and> map fst gs' = map fst gs \<and>
      tests_of gs' = tests_of gs"
    using assms
    by (induction rule: list_all2_induct)
      (auto simp: same_but_score_group_ok, auto simp: same_but_score_def)
  moreover have "sorted_wrt (\<lambda>x y. gid_num (fst x) < gid_num (fst y)) xs =
      sorted_wrt (\<lambda>x y. gid_num x < gid_num y) (map fst xs)" for xs :: groups
    by (simp add: sorted_wrt_map)
  ultimately show ?thesis by (simp add: groups_ok_def)
qed

abbreviation counted :: "groups \<Rightarrow> nat" where
  "counted gs \<equiv> length (filter (\<lambda>(k, g). k \<noteq> ''0'') gs)"

lemma auto_scores_too_many: "n < counted gs \<Longrightarrow> auto_scores n m gs = Inl Terminate"
  by (induction n m gs rule: auto_scores.induct) (auto simp: Let_def less_diff_conv)

lemma auto_scores_sum:
  assumes "n = counted gs" and "0 \<le> m" and "list_all (\<lambda>(k, g). tg_score g = 0) gs"
  shows "\<exists>gs'. auto_scores n m gs = Inr gs' \<and> list_all (\<lambda>(k, g). 0 \<le> tg_score g) gs' \<and>
    sum_list (map (\<lambda>(k, g). tg_score g) gs') = (if n = 0 then 0 else m)"
  using assms
proof (induction n m gs rule: auto_scores.induct)
  case (2 n m k g gs)
  show ?case
  proof (cases "k = ''0''")
    case True
    then show ?thesis using 2 by auto
  next
    case False
    then have n: "n \<noteq> 0" "n - 1 = counted gs" using 2(3) by auto
    let ?score = "m div int n"
    have score: "0 \<le> ?score" "?score \<le> m" "n - 1 = 0 \<Longrightarrow> ?score = m"
      using n(1) 2(4) zdiv_mono2 [of m 1 "int n"] by (auto simp: pos_imp_zdiv_nonneg_iff le_Suc_eq)
    obtain rest where "auto_scores (n - 1) (m - ?score) gs = Inr rest"
      "list_all (\<lambda>(k, g). 0 \<le> tg_score g) rest"
      "sum_list (map (\<lambda>(k, g). tg_score g) rest) = (if n - 1 = 0 then 0 else m - ?score)"
      using 2(1) [OF False n(1) refl n(2)] 2(5) score(2) by auto
    then show ?thesis using False n(1) score by (auto simp: Let_def)
  qed
qed simp

lemma zero_groups:
  assumes "groups_ok gs"
  shows "length (filter (\<lambda>(k, g). same_group ''0'' k) gs) = (if \<exists>x\<in>set gs. gid_num (fst x) = 0 then 1 else 0)"
proof -
  have same: "same_group ''0'' k \<longleftrightarrow> gid_num k = 0" if "list_all is_digit k" for k
    using that digits_less [of "''0''" k] digits_less [of k "''0''"] normal_0
    by (auto simp: same_group_def normal_gid_def)
  show ?thesis
    using assms
  proof (induction gs)
    case (Cons x gs)
    obtain k g where x: "x = (k, g)" by (cases x)
    have k: "list_all is_digit k" "groups_ok gs" "\<forall>y\<in>set gs. gid_num k < gid_num (fst y)"
      using Cons.prems x by (auto simp: groups_ok_def group_ok_def)
    then show ?case using Cons.IH x same [OF k(1)] by auto
  qed simp
qed

lemma counted_groups:
  assumes "groups_ok gs"
  shows "counted gs = length gs - (if \<exists>x\<in>set gs. fst x = ''0'' then 1 else 0)"
  using assms
proof (induction gs)
  case (Cons x gs)
  have k: "groups_ok gs" "\<forall>y\<in>set gs. gid_num (fst x) < gid_num (fst y)"
    using Cons.prems by (auto simp: groups_ok_def)
  show ?case
  proof (cases "\<exists>y\<in>set gs. fst y = ''0''")
    case True
    then have "fst x \<noteq> ''0''" "gs \<noteq> []" using k(2) by auto
    then show ?thesis using True Cons.IH [OF k(1)] by (cases x; cases gs) auto
  next
    case False
    then show ?thesis using Cons.IH [OF k(1)] by (cases x) auto
  qed
qed simp

lemma group_ids_differ:
  "groups_ok gs \<Longrightarrow> x \<in> set gs \<Longrightarrow> y \<in> set gs \<Longrightarrow> gid_num (fst x) = gid_num (fst y) \<Longrightarrow> x = y"
proof (induction gs)
  case (Cons a gs)
  then have "groups_ok gs" "\<forall>z\<in>set gs. gid_num (fst a) < gid_num (fst z)"
    by (auto simp: groups_ok_def)
  then show ?case using Cons by force
qed simp

text \<open>
  C39. Automatic scoring of a package without a scoring array: when no group has an id such as 00,
  every group gets a score that is not negative and the scores add up to exactly 100 (to 0 when
  group 0 is the only one). When group 0 is spelled otherwise (00, 000, ...) the count of groups is
  one short and the loop divides by zero, which ends the process: a package with a test called t00
  and no scoring array crashes its reader.
\<close>

theorem automatic_scoring:
  assumes "groups_ok gs" and "list_all (\<lambda>(k, g). tg_score g = 0) gs"
    and "get_var config ''scoring'' = unset_var"
  shows "if \<exists>x\<in>set gs. gid_num (fst x) = 0 \<and> fst x \<noteq> ''0''
    then load_scoring config gs = Inl Terminate
    else \<exists>gs'. load_scoring config gs = Inr gs' \<and> list_all2 same_but_score gs gs' \<and>
      list_all (\<lambda>(k, g). 0 \<le> tg_score g) gs' \<and>
      sum_list (map (\<lambda>(k, g). tg_score g) gs') = (if \<exists>x\<in>set gs. fst x \<noteq> ''0'' then 100 else 0)"
proof -
  let ?n = "length gs - length (filter (\<lambda>(k, g). same_group ''0'' k) gs)"
  have run: "load_scoring config gs = auto_scores ?n 100 gs"
    using assms(3) by (simp add: load_scoring_def Let_def check_if_arr_def unset_var_def)
  note zero = zero_groups [OF assms(1)] and counted = counted_groups [OF assms(1)]
  show ?thesis
  proof (cases "\<exists>x\<in>set gs. gid_num (fst x) = 0 \<and> fst x \<noteq> ''0''")
    case True
    then obtain x where x: "x \<in> set gs" "gid_num (fst x) = 0" "fst x \<noteq> ''0''" by blast
    have "\<not> (\<exists>y\<in>set gs. fst y = ''0'')"
    proof
      assume "\<exists>y\<in>set gs. fst y = ''0''"
      then obtain y where "y \<in> set gs" "fst y = ''0''" by blast
      then show False using group_ids_differ [OF assms(1) x(1)] x normal_0(2) by metis
    qed
    moreover have "gs \<noteq> []" using x by auto
    ultimately have "\<not> (\<exists>y\<in>set gs. fst y = ''0'')" "gs \<noteq> []" by blast+
    then have "?n < counted gs" using True zero counted by auto
    then show ?thesis using True run auto_scores_too_many by simp
  next
    case False
    then have "(\<exists>x\<in>set gs. gid_num (fst x) = 0) = (\<exists>x\<in>set gs. fst x = ''0'')"
      using normal_0(2) by metis
    then have n: "?n = counted gs" unfolding zero counted by simp
    have "counted gs = 0 \<longleftrightarrow> \<not> (\<exists>x\<in>set gs. fst x \<noteq> ''0'')"
      by (auto simp: filter_empty_conv)
    moreover obtain gs' where gs': "auto_scores ?n 100 gs = Inr gs'"
      "list_all (\<lambda>(k, g). 0 \<le> tg_score g) gs'"
      "sum_list (map (\<lambda>(k, g). tg_score g) gs') = (if ?n = 0 then 0 else 100)"
      using auto_scores_sum [OF n _ assms(2), of 100] by auto
    ultimately have "sum_list (map (\<lambda>(k, g). tg_score g) gs') =
        (if \<exists>x\<in>set gs. fst x \<noteq> ''0'' then 100 else 0)"
      using n by simp
    then show ?thesis using False run gs'(1,2) auto_scores_same [OF gs'(1)] by (simp only: if_False) blast
  qed
qed

text \<open>The tests of a problem package, for instance t0a, t1a, t1b and t2.\<close>

definition sample_groups :: "string list \<Rightarrow> groups" where
  "sample_groups names =
     foldl (\<lambda>gs n. add_to_group (test_group_id n)
       \<lparr> t_name = n, t_in = [], t_out = None, t_time_limit = 1, t_memory_limit = 2 ^ 20 \<rparr> gs) [] names"

lemma automatic_scoring_witness:
  "load_scoring (\<lambda>n. None) (sample_groups [''t00'']) = Inl Terminate \<and>
   (\<exists>gs'. load_scoring (\<lambda>n. None) (sample_groups [''t1a'', ''t0'', ''t3'', ''t1b'', ''t2'']) = Inr gs' \<and>
      sum_list (map (\<lambda>(k, g). tg_score g) gs') = 100)"
proof -
  have ok: "groups_ok (sample_groups names)" for names
  proof -
    have "groups_ok (foldl (\<lambda>gs n. add_to_group (test_group_id n)
        \<lparr> t_name = n, t_in = [], t_out = None, t_time_limit = 1, t_memory_limit = 2 ^ 20 \<rparr> gs) gs names)"
      if "groups_ok gs" for gs
      using that by (induction names arbitrary: gs) (simp_all add: add_to_group_ok)
    then show ?thesis by (simp add: sample_groups_def groups_ok_def)
  qed
  let ?b = "sample_groups [''t1a'', ''t0'', ''t3'', ''t1b'', ''t2'']"
  have keys: "(\<exists>x\<in>set gs. P (fst x)) \<longleftrightarrow> list_ex P (map fst gs)" for P and gs :: groups
    by (induction gs) auto
  have a: "map fst (sample_groups [''t00'']) = [''00'']"
    "list_all (\<lambda>(k, g). tg_score g = 0) (sample_groups [''t00''])"
    and b: "map fst ?b = [''0'', ''1'', ''2'', ''3'']" "list_all (\<lambda>(k, g). tg_score g = 0) ?b"
    by code_simp+
  have num: "gid_num ''00'' = 0" "gid_num ''0'' = 0" "gid_num ''1'' \<noteq> 0" "gid_num ''2'' \<noteq> 0" "gid_num ''3'' \<noteq> 0"
    by (simp_all add: gid_num_def dec_val_Cons digit_val_def)
  have unset: "get_var (\<lambda>n. None) ''scoring'' = unset_var" by (simp add: get_var_def)
  have "\<exists>x\<in>set (sample_groups [''t00'']). gid_num (fst x) = 0 \<and> fst x \<noteq> ''0''"
    "\<not> (\<exists>x\<in>set ?b. gid_num (fst x) = 0 \<and> fst x \<noteq> ''0'')" "\<exists>x\<in>set ?b. fst x \<noteq> ''0''"
    using keys [of "sample_groups [''t00'']" "\<lambda>k. gid_num k = 0 \<and> k \<noteq> ''0''"]
      keys [of ?b "\<lambda>k. gid_num k = 0 \<and> k \<noteq> ''0''"] keys [of ?b "\<lambda>k. k \<noteq> ''0''"]
    unfolding a(1) b(1) by (simp_all add: num)
  with automatic_scoring [OF ok a(2) unset] automatic_scoring [OF ok b(2) unset]
  show ?thesis by (simp only: if_True if_False) blast
qed

section \<open>The groups of a package\<close>

lemma name_less_trans: "test_name_less a b \<Longrightarrow> test_name_less b c \<Longrightarrow> test_name_less a c"
  unfolding test_name_order by (rule key_less_order(2))

lemma name_less_asym: "test_name_less a b \<Longrightarrow> \<not> test_name_less b a"
  unfolding test_name_order using key_less_order by blast

lemma name_not_less_trans: "\<not> test_name_less b a \<Longrightarrow> \<not> test_name_less c b \<Longrightarrow> \<not> test_name_less c a"
  unfolding test_name_order using key_less_order by metis

abbreviation name_sorted :: "test list \<Rightarrow> bool" where
  "name_sorted ts \<equiv> sorted_wrt (\<lambda>t u. \<not> test_name_less (t_name u) (t_name t)) ts"

lemma mset_insert_test [simp]: "mset (insert_test t us) = add_mset t (mset us)"
  by (induction us) auto

lemma set_insert_test [simp]: "set (insert_test t us) = insert t (set us)"
  by (metis mset_insert_test set_mset_add_mset_insert set_mset_mset)

lemma insert_test_sorted: "name_sorted us \<Longrightarrow> name_sorted (insert_test t us)"
proof (induction us)
  case (Cons u us)
  show ?case
  proof (cases "test_name_less (t_name u) (t_name t)")
    case True
    then show ?thesis using Cons name_less_asym [OF True] by simp
  next
    case False
    then have "\<not> test_name_less (t_name x) (t_name t)" if "x \<in> set us" for x
      using Cons.prems that name_not_less_trans [OF False] by simp
    then show ?thesis using Cons.prems False by simp
  qed
qed simp

lemma sort_tests: "mset (sort_tests ts) = mset ts \<and> name_sorted (sort_tests ts)"
  unfolding sort_tests_def by (induction ts) (simp_all add: insert_test_sorted)

lemma set_sort_tests [simp]: "set (sort_tests ts) = set ts"
  using sort_tests by (metis set_mset_mset)

lemma sort_tests_nonempty [simp]: "sort_tests ts = [] \<longleftrightarrow> ts = []"
  using set_sort_tests by (metis set_empty)

text \<open>The number of the group of a test.\<close>

definition group_num :: "test \<Rightarrow> int" where
  "group_num t = gid_num (test_group_id (t_name t))"

text \<open>
  When the tests of a package load, the groups partition the array of limits: every item is a
  test of exactly one group, with its limits (or the global memory limit); no group is empty; two
  tests are in the same group exactly when the numbers of their group ids agree (tests called ocen
  count as group 0), whatever the order of the items; the groups come in increasing order of these
  numbers and the tests of a group in the order of their names.
\<close>

theorem load_tests_partitions:
  assumes "load_tests stod config sf = Inr sf'"
  shows "\<exists>ts. map_res (limits_test stod (sf_global_mem_limit sf')) (cv_arr (get_var config ''limits'')) = Inr ts \<and>
      mset (concat (map tg_tests (sf_tgroups sf'))) = mset ts \<and>
      (\<forall>g\<in>set (sf_tgroups sf'). tg_tests g \<noteq> [] \<and> name_sorted (tg_tests g) \<and>
         (\<forall>t\<in>set (tg_tests g). \<forall>u\<in>set (tg_tests g). group_num t = group_num u)) \<and>
      sorted_wrt (\<lambda>g h. \<forall>t\<in>set (tg_tests g). \<forall>u\<in>set (tg_tests h). group_num t < group_num u)
        (sf_tgroups sf')"
proof -
  let ?sorted = "\<lambda>g. g\<lparr>tg_tests := sort_tests (tg_tests g)\<rparr>"
  obtain sf1 gs gs' where run:
    "load_limits stod (sf_global_mem_limit sf1) (cv_arr (get_var config ''limits'')) [] = Inr gs"
    "load_scoring config gs = Inr gs'"
    "sf' = sf1\<lparr>sf_tgroups := map (\<lambda>(k, g). ?sorted g) gs'\<rparr>"
    using assms by (auto simp: load_tests_def Let_def bind_res_eq_Inr split: if_splits)
  have "groups_ok []" by (simp add: groups_ok_def)
  from load_limits_groups [OF run(1) this] obtain ts where
    ts: "map_res (limits_test stod (sf_global_mem_limit sf1)) (cv_arr (get_var config ''limits'')) = Inr ts"
    "groups_ok gs" "mset (tests_of gs) = mset ts" by auto
  have ok: "groups_ok gs'" "mset (tests_of gs') = mset ts"
    using same_but_score_ok [OF load_scoring_same [OF run(2)]] ts by simp_all
  have sf': "sf_tgroups sf' = map (\<lambda>(k, g). ?sorted g) gs'"
    "sf_global_mem_limit sf' = sf_global_mem_limit sf1"
    using run(3) by simp_all
  have "mset (concat (map tg_tests (map (\<lambda>(k, g). ?sorted g) gs'))) = mset (tests_of gs')"
    by (induction gs') (auto simp: sort_tests)
  then have all: "mset (concat (map tg_tests (sf_tgroups sf'))) = mset ts" using sf' ok(2) by simp
  have each: "tg_tests g \<noteq> [] \<and> name_sorted (tg_tests g) \<and>
      (\<forall>t\<in>set (tg_tests g). \<forall>u\<in>set (tg_tests g). group_num t = group_num u)"
    if "g \<in> set (sf_tgroups sf')" for g
  proof -
    have "g \<in> (\<lambda>x. ?sorted (snd x)) ` set gs'" using that by (simp add: run(3) case_prod_beta)
    then obtain k h where h: "(k, h) \<in> set gs'" "g = ?sorted h" by auto
    then have "group_ok (k, h)" using ok(1) by (auto simp: groups_ok_def list_all_iff)
    then have "tg_tests h \<noteq> []" "\<forall>t\<in>set (tg_tests h). group_num t = gid_num k"
      by (auto simp: group_ok_def group_num_def)
    then show ?thesis using h(2) sort_tests set_sort_tests by (auto simp: sort_tests_nonempty)
  qed
  have "sorted_wrt (\<lambda>g h. \<forall>t\<in>set (tg_tests g). \<forall>u\<in>set (tg_tests h). group_num t < group_num u)
      (sf_tgroups sf')"
  proof -
    have num: "group_num t = gid_num k" if "(k, h) \<in> set gs'" "t \<in> set (tg_tests h)" for k h t
      using that ok(1) by (auto simp: groups_ok_def list_all_iff group_ok_def group_num_def)
    have "sorted_wrt (\<lambda>x y. gid_num (fst x) < gid_num (fst y)) gs'" using ok(1) by (simp add: groups_ok_def)
    then have "sorted_wrt (\<lambda>x y. \<forall>t\<in>set (tg_tests (snd x)). \<forall>u\<in>set (tg_tests (snd y)). group_num t < group_num u) gs'"
      by (rule sorted_wrt_mono_rel [rotated]) (use num in fastforce)
    then show ?thesis unfolding sf' by (simp add: sorted_wrt_map case_prod_beta)
  qed
  then show ?thesis using ts(1) all each unfolding sf'(2) by (intro exI conjI ballI) blast+
qed

definition sample_config :: cfg_vars where
  "sample_config = [''limits'' \<mapsto> line_var (Block_line [''t2 1 1'', ''t1b 1 1'', ''t0a 1 1'', ''t1a 1 1''])]"

definition no_simfile :: simfile where
  "no_simfile = \<lparr> sf_name = None, sf_label = None, sf_statement = None, sf_interactive = False,
     sf_checker = None, sf_solutions = [], sf_global_mem_limit = None, sf_tgroups = [] \<rparr>"

lemma sample_load_tests:
  "\<exists>sf'. load_tests (\<lambda>s. Some (False, 1)) sample_config no_simfile = Inr sf'"
proof -
  let ?gs = "sample_groups [''t2'', ''t1b'', ''t0a'', ''t1a'']"
  have items: "parse_limits_item (\<lambda>s. Some (False, 1)) (n @ '' 1 1'') = Inr (n, 1, Some (2 ^ 20))"
    if "n \<in> {''t2'', ''t1b'', ''t0a'', ''t1a''}" for n
    using that
    by (elim insertE emptyE; simp add: parse_limits_item_def Let_def extract_next_non_empty_def is_space_def is_real_def
        is_digit_str_def is_digit_code char_le_code str2num_between_def str2num_def
        str2num_digits_def fits_def u64_max_def max_mem_limit_def mib_def)
  have "load_limits (\<lambda>s. Some (False, 1)) None [''t2 1 1'', ''t1b 1 1'', ''t0a 1 1'', ''t1a 1 1''] [] = Inr ?gs"
    using items [of "''t2''"] items [of "''t1b''"] items [of "''t0a''"] items [of "''t1a''"]
    by (simp add: sample_groups_def)
  moreover have "\<not> isl (load_scoring sample_config ?gs)" by code_simp
  then obtain gs' where "load_scoring sample_config ?gs = Inr gs'" by (metis isl_def sum.exhaust)
  moreover have "load_global_memory_limit_only sample_config no_simfile = Inr no_simfile"
    by (simp add: load_global_memory_limit_only_def get_var_def sample_config_def unset_var_def
        no_simfile_def check_if_not_arr_def)
  moreover have "get_var sample_config ''limits'' =
      line_var (Block_line [''t2 1 1'', ''t1b 1 1'', ''t0a 1 1'', ''t1a 1 1''])"
    "sf_global_mem_limit no_simfile = None"
    by (simp_all add: get_var_def sample_config_def no_simfile_def)
  ultimately show ?thesis
    by (simp add: load_tests_def check_if_arr_def unset_var_def del: load_limits.simps)
qed
lemma load_tests_partitions_witness:
  "\<exists>sf'. load_tests (\<lambda>s. Some (False, 1)) sample_config no_simfile = Inr sf' \<and>
    (\<forall>g\<in>set (sf_tgroups sf'). tg_tests g \<noteq> [] \<and> name_sorted (tg_tests g))"
proof -
  obtain sf' where sf': "load_tests (\<lambda>s. Some (False, 1)) sample_config no_simfile = Inr sf'"
    using sample_load_tests by blast
  from load_tests_partitions [OF sf'] show ?thesis using sf' by blast
qed

lemma map_res_all:
  "map_res f xs = Inr ys \<Longrightarrow> (\<And>x y. f x = Inr y \<Longrightarrow> P y) \<Longrightarrow> y \<in> set ys \<Longrightarrow> P y"
  by (induction xs arbitrary: ys) (auto simp: bind_res_eq_Inr)

section \<open>The values fit their types\<close>

definition limit_typed :: "test \<Rightarrow> bool" where
  "limit_typed t \<longleftrightarrow> 2 ^ 20 \<le> t_memory_limit t \<and> t_memory_limit t < 2 ^ 64 \<and>
     t_memory_limit t mod 2 ^ 20 = 0 \<and> t_time_limit t \<noteq> 0"

definition memory_typed :: "int \<Rightarrow> bool" where
  "memory_typed m \<longleftrightarrow> 2 ^ 20 \<le> m \<and> m < 2 ^ 64 \<and> m mod 2 ^ 20 = 0"

lemma mib_typed:
  assumes "1 \<le> x" and "x \<le> max_mem_limit"
  shows "memory_typed (mib x)"
proof -
  have "x * 2 ^ 20 < 2 ^ 64" "2 ^ 20 \<le> x * 2 ^ 20"
    using assms by (simp_all add: max_mem_limit_def u64_max_def)
  then show ?thesis by (simp add: memory_typed_def mib_def)
qed

lemma str2num_fits: "int_limits lo hi \<Longrightarrow> str2num lo hi s = Some x \<Longrightarrow> fits lo hi x"
  using str2num_literal by (auto simp: literal_of_def)

lemma limits_test_typed:
  assumes "limits_test stod global item = Inr t" and "\<And>m. global = Some m \<Longrightarrow> memory_typed m"
  shows "limit_typed t"
proof -
  obtain n tl mem where item: "parse_limits_item stod item = Inr (n, tl, mem)"
    using assms(1) by (cases "parse_limits_item stod item") (auto simp: limits_test_def)
  have "tl \<noteq> 0" "mem = Some m \<Longrightarrow> memory_typed m" for m
    using item mib_typed
    by (auto simp: parse_limits_item_def Let_def str2num_between_def
        split: prod.splits if_splits option.splits)
  then show ?thesis
    using assms item by (auto simp: limits_test_def limit_typed_def memory_typed_def split: option.splits)
qed

lemma load_global_memory_typed:
  assumes "load_global_memory_limit_only config sf = Inr sf'" and "sf_global_mem_limit sf' = Some m"
  shows "memory_typed m"
proof -
  let ?s = "cv_str (get_var config ''memory_limit'')"
  obtain x where x: "is_digit_not_greater_than (nat max_mem_limit) ?s" "str2num 0 u64_max ?s = Some x"
    "m = mib x" "0 < mib x"
    using assms
    by (auto simp: load_global_memory_limit_only_def Let_def bind_res_eq_Inr split: if_splits option.splits)
  have lim: "int_limits 0 u64_max" by (simp add: int_limits_def u64_max_def)
  have s: "x = dec_val ?s" "0 \<le> x" "list_all is_digit ?s"
    using str2num_literal [OF lim] x(2) by (auto simp: literal_of_def fits_def is_digit_str_def)
  have "x \<le> max_mem_limit"
    using x(1) s(1,3) int_to_string_digits [of "int (nat max_mem_limit)"]
      str_num_less_dec [of "int_to_string (int (nat max_mem_limit))" ?s]
    by (simp add: is_digit_not_greater_than_def is_digit_str_def max_mem_limit_def u64_max_def)
  moreover have "x \<noteq> 0" using x(4) by (auto simp: mib_def)
  ultimately show ?thesis using mib_typed x(3) s(2) by simp
qed

lemma read_scoring_fits:
  "read_scoring gs items f = Inr f' \<Longrightarrow> (\<And>k n. f k = Some n \<Longrightarrow> fits i64_min i64_max n) \<Longrightarrow>
   f' k = Some n \<Longrightarrow> fits i64_min i64_max n"
proof (induction items arbitrary: f)
  case (Cons item items)
  have lim: "int_limits i64_min i64_max" by (simp add: int_limits_def i64_min_def i64_max_def)
  obtain gid score where item: "parse_scoring_item item = Inr (gid, score)"
    using Cons.prems(1) by (cases "parse_scoring_item item") auto
  have score: "fits i64_min i64_max score"
    using item str2num_fits [OF lim]
    by (auto simp: parse_scoring_item_def Let_def bind_res_eq_Inr split: prod.splits option.splits)
  have rest: "read_scoring gs items (f(gid \<mapsto> score)) = Inr f'"
    using Cons.prems(1) item by (simp split: if_splits)
  show ?case
    by (rule Cons.IH [OF rest _ Cons.prems(3)]) (use score Cons.prems(2) in \<open>auto split: if_splits\<close>)
qed simp

lemma assign_scores_fits:
  "assign_scores f gs = Inr gs' \<Longrightarrow> (\<And>k n. f k = Some n \<Longrightarrow> fits i64_min i64_max n) \<Longrightarrow>
   list_all (\<lambda>(k, g). fits i64_min i64_max (tg_score g)) gs'"
  by (induction f gs arbitrary: gs' rule: assign_scores.induct)
    (auto simp: bind_res_eq_Inr split: option.splits)

lemma auto_scores_fits:
  "auto_scores n m gs = Inr gs' \<Longrightarrow> 0 \<le> m \<Longrightarrow> m \<le> 100 \<Longrightarrow> list_all (\<lambda>(k, g). tg_score g = 0) gs \<Longrightarrow>
   list_all (\<lambda>(k, g). fits 0 100 (tg_score g)) gs'"
proof (induction n m gs arbitrary: gs' rule: auto_scores.induct)
  case (2 n m k g gs)
  show ?case
  proof (cases "k = ''0''")
    case True
    then show ?thesis using 2 by (auto simp: bind_res_eq_Inr fits_def)
  next
    case False
    then have n: "n \<noteq> 0" using 2(3) by (auto split: if_splits)
    let ?score = "m div int n"
    have score: "0 \<le> ?score" "?score \<le> m"
      using n 2(4) zdiv_mono2 [of m 1 "int n"] by (auto simp: pos_imp_zdiv_nonneg_iff)
    obtain rest where "auto_scores (n - 1) (m - ?score) gs = Inr rest" "gs' = (k, g\<lparr>tg_score := ?score\<rparr>) # rest"
      using 2(3) False n by (auto simp: bind_res_eq_Inr Let_def)
    then show ?thesis using 2(1) [OF False n refl] 2(4-6) score by (auto simp: fits_def)
  qed
qed simp

lemma load_limits_zero:
  "load_limits stod global items gs = Inr gs' \<Longrightarrow> list_all (\<lambda>(k, g). tg_score g = 0) gs \<Longrightarrow>
   list_all (\<lambda>(k, g). tg_score g = 0) gs'"
proof (induction items arbitrary: gs)
  case (Cons item items)
  have "list_all (\<lambda>(k, g). tg_score g = 0) (add_to_group gid t gs)" for gid t
    using Cons.prems(2) by (induction gid t gs rule: add_to_group.induct) auto
  then show ?case
    using Cons.prems(1) Cons.IH unfolding load_limits_Cons by (auto simp: bind_res_eq_Inr)
qed simp



section \<open>Paths\<close>

lemma package_path_inside: "inside (package_path p)"
  unfolding package_path_def by (rule path_absolute_inside)

text \<open>The paths that a package names.\<close>

definition simfile_paths :: "simfile \<Rightarrow> string set" where
  "simfile_paths sf = set_option (sf_checker sf) \<union> set_option (sf_statement sf) \<union> set (sf_solutions sf) \<union>
     (\<Union>g\<in>set (sf_tgroups sf). \<Union>t\<in>set (tg_tests g). insert (t_in t) (set_option (t_out t)))"

lemma load_tests_files_inside:
  assumes "load_tests_files config sf = Inr sf'" and "g \<in> set (sf_tgroups sf')" and "t \<in> set (tg_tests g)"
  shows "inside (t_in t) \<and> (\<forall>p\<in>set_option (t_out t). inside p)"
proof -
  obtain b files gs where
    gs: "map_res (\<lambda>g. bind_res (map_res (assign_files b files) (tg_tests g))
        (\<lambda>ts. Inr (g\<lparr>tg_tests := ts\<rparr>))) gs = Inr (sf_tgroups sf')"
    using assms(1) by (auto simp: load_tests_files_def Let_def bind_res_eq_Inr split: if_splits)
  let ?ok = "\<lambda>t. inside (t_in t) \<and> (\<forall>p\<in>set_option (t_out t). inside p)"
  have test: "?ok u" if "assign_files b files v = Inr u" for u v
    using that package_path_inside by (auto simp: assign_files_def split: option.splits if_splits)
  have group: "\<forall>t\<in>set (tg_tests h). ?ok t"
    if "bind_res (map_res (assign_files b files) (tg_tests g)) (\<lambda>ts. Inr (g\<lparr>tg_tests := ts\<rparr>)) = Inr h" for g h
    using that map_res_all [of "assign_files b files" "tg_tests g" _ ?ok, OF _ test]
    by (auto simp: bind_res_eq_Inr)
  have "\<forall>t\<in>set (tg_tests g). ?ok t"
    by (rule map_res_all [where P = "\<lambda>h. \<forall>t\<in>set (tg_tests h). ?ok t", OF gs _ assms(2)]) (rule group)
  then show ?thesis using assms(3) by blast
qed

lemma load_tests_keeps:
  "load_tests stod config sf = Inr sf' \<Longrightarrow> sf_checker sf' = sf_checker sf \<and>
     sf_statement sf' = sf_statement sf \<and> sf_solutions sf' = sf_solutions sf"
  by (auto simp: load_tests_def load_global_memory_limit_only_def Let_def bind_res_eq_Inr
      split: if_splits option.splits)

lemma load_tests_files_keeps:
  "load_tests_files config sf = Inr sf' \<Longrightarrow> sf_checker sf' = sf_checker sf \<and>
     sf_statement sf' = sf_statement sf \<and> sf_solutions sf' = sf_solutions sf"
  by (auto simp: load_tests_files_def load_interactive_def Let_def bind_res_eq_Inr split: if_splits)

end
