(* ===== verification/Simfile_Dump.thy ===== *)
theory Simfile_Dump
  imports Simfile
begin

text \<open>
  What \<open>Simfile::dump\<close> writes is loaded back by \<open>Simfile::load_all\<close>: the configuration parser, the
  items of the arrays, the groups with their scores and the files of the tests compose to the
  identity on well-formed packages.
\<close>

section \<open>Words\<close>

definition word :: "string \<Rightarrow> bool" where
  "word s \<longleftrightarrow> s \<noteq> [] \<and> list_all (\<lambda>c. \<not> is_space c \<and> c \<noteq> CHR 0x00) s"

lemma word_parts: "word w \<Longrightarrow> w \<noteq> []" "word w \<Longrightarrow> c \<in> set w \<Longrightarrow> \<not> is_space c" "word w \<Longrightarrow> CHR 0x00 \<notin> set w"
  by (auto simp: word_def list_all_iff)

lemma extract_word:
  assumes "word w"
  shows "extract_next_non_empty (w @ CHR '' '' # s) = (w, s)" and "extract_next_non_empty w = (w, [])"
proof -
  have tw: "takeWhile (\<lambda>c. \<not> is_space c) (w @ CHR '' '' # s) = w" "takeWhile (\<lambda>c. \<not> is_space c) w = w"
    using word_parts [OF assms] by (simp_all add: takeWhile_append takeWhile_eq_all_conv)
  have "dropWhile is_space (w @ t) = w @ t" for t using word_parts [OF assms] by (cases w) auto
  from this [of "CHR '' '' # s"] this [of "[]"] show
    "extract_next_non_empty (w @ CHR '' '' # s) = (w, s)" "extract_next_non_empty w = (w, [])"
    by (simp_all add: extract_next_non_empty_def Let_def tw)
qed

lemma extract_empty: "extract_next_non_empty [] = ([], [])"
  by (simp add: extract_next_non_empty_def)

lemma digit_word_char: "is_digit c \<Longrightarrow> \<not> is_space c \<and> c \<noteq> CHR 0x00"
  by (auto simp: is_digit_code is_space_def char_le_code)

lemma digits_word: "is_digit_str s \<Longrightarrow> word s"
  using digit_word_char by (auto simp: is_digit_str_def word_def list_all_iff)

lemma number_word: "word (int_to_string x)"
proof (cases "0 \<le> x")
  case True
  then show ?thesis using int_to_string_digits digits_word by blast
next
  case False
  then show ?thesis
    using int_to_string_neg [of x] digits_word [OF int_to_string_digits(1) [of "- x"]]
    by (simp add: word_def is_space_def char_le_code)
qed

lemma word_dropWhile: "word w \<Longrightarrow> dropWhile is_space w = w"
  using word_parts by (cases w) auto

lemma number_not_blank: "\<exists>c\<in>set (int_to_string x). \<not> is_space c"
  using number_word [of x] by (cases "int_to_string x") (auto simp: word_def)

lemma str2num_int_to_string:
  assumes "int_limits lo hi" and "fits lo hi x"
  shows "str2num lo hi (int_to_string x) = Some x"
  using str2num_literal [OF assms(1)] literal_of_int_to_string [OF assms(2)] by blast

lemma limits_64: "int_limits 0 u64_max" "int_limits i64_min i64_max"
  by (simp_all add: int_limits_def u64_max_def i64_min_def i64_max_def)

section \<open>Durations\<close>

lemma sdiv_10: "0 \<le> (x :: int) \<Longrightarrow> x sdiv 10 = x div 10" "0 \<le> (x :: int) \<Longrightarrow> x smod 10 = x mod 10"
  "0 \<le> (x :: int) \<Longrightarrow> x sdiv 10 ^ 9 = x div 10 ^ 9"
  by (cases "x = 0"; simp add: signed_divide_int_def signed_modulo_int_def minus_div_mult_eq_mod)+

lemma fraction_digits: "0 \<le> x \<Longrightarrow> list_all is_digit (fraction_digits n x)"
  by (induction n x rule: fraction_digits.induct) (auto simp: sdiv_10 pos_imp_zdiv_nonneg_iff)

lemma duration_to_string:
  assumes "0 \<le> dur"
  obtains a b where "is_digit_str a" and "list_all is_digit b"
    and "duration_to_string dur = a @ (if b = [] then [] else CHR ''.'' # b)"
proof -
  let ?x = "dur - (dur sdiv 10 ^ 9) * 10 ^ 9"
  let ?b = "rev (dropWhile (\<lambda>c. c = CHR ''0'') (rev (fraction_digits 9 ?x)))"
  have "0 \<le> ?x" using assms sdiv_10(3) [OF assms] by (simp add: minus_div_mult_eq_mod)
  then have "list_all is_digit (fraction_digits 9 ?x)" by (rule fraction_digits)
  then have "list_all is_digit ?b" by (auto simp: list_all_iff dest: set_dropWhileD)
  moreover have "0 \<le> dur sdiv 10 ^ 9"
    unfolding sdiv_10(3) [OF assms] using assms by (simp add: pos_imp_zdiv_nonneg_iff)
  then have "is_digit_str (int_to_string (dur sdiv 10 ^ 9))" by (rule int_to_string_digits)
  ultimately show thesis
    by (intro that [of "int_to_string (dur sdiv 10 ^ 9)" ?b]) (simp_all only: duration_to_string_def Let_def)
qed

lemma digit_not_dot: "is_digit c \<Longrightarrow> c \<noteq> CHR ''.'' \<and> c \<noteq> CHR ''-''"
  by (auto simp: is_digit_code)

lemma duration_word:
  assumes "0 \<le> dur"
  shows "word (duration_to_string dur)" and "is_real (duration_to_string dur)"
proof -
  obtain a b where ab: "is_digit_str a" "list_all is_digit b"
    "duration_to_string dur = a @ (if b = [] then [] else CHR ''.'' # b)"
    using duration_to_string [OF assms] .
  have "\<not> is_space (CHR ''.'')" by (simp add: is_space_def char_le_code)
  moreover have b: "list_all (\<lambda>c. \<not> is_space c \<and> c \<noteq> CHR 0x00) b"
    using ab(2) digit_word_char by (auto simp: list_all_iff)
  ultimately show "word (duration_to_string dur)"
    using digits_word [OF ab(1)] by (simp add: word_def ab(3))
  have a: "a \<noteq> []" "\<And>c. c \<in> set a \<Longrightarrow> c \<noteq> CHR ''.'' \<and> c \<noteq> CHR ''-''"
    using ab(1) digit_not_dot by (auto simp: is_digit_str_def list_all_iff)
  have hd: "hd (a @ s) \<noteq> CHR ''-''" for s using a by (cases a) auto
  have tw: "takeWhile (\<lambda>c. c \<noteq> CHR ''.'') (a @ CHR ''.'' # b) = a" "takeWhile (\<lambda>c. c \<noteq> CHR ''.'') a = a"
    using a(2) by (simp_all add: takeWhile_append takeWhile_eq_all_conv)
  show "is_real (duration_to_string dur)"
  proof (cases "b = []")
    case True
    then show ?thesis using ab(1,3) a(1) hd [of "[]"] by (simp add: is_real_def tw(2))
  next
    case False
    then show ?thesis
      using ab a(1) hd [of "CHR ''.'' # b"] by (simp add: is_real_def Let_def is_digit_str_def tw(1))
  qed
qed

section \<open>Well-formed packages\<close>

text \<open>
  What a package that loads and dumps satisfies: no NUL characters; paths already relative to the
  package; names and files of tests without white space (they are separated by it); limits a whole
  number of MiB in 64 bits; time limits that \<open>stod\<close> reads back; groups as \<open>load_tests\<close> leaves them.
\<close>

definition nul_free :: "string \<Rightarrow> bool" where
  "nul_free s \<longleftrightarrow> CHR 0x00 \<notin> set s"

definition memory_ok :: "int \<Rightarrow> bool" where
  "memory_ok m \<longleftrightarrow> 2 ^ 20 \<le> m \<and> m < 2 ^ 64 \<and> m mod 2 ^ 20 = 0"

definition file_ok :: "string \<Rightarrow> bool" where
  "file_ok f \<longleftrightarrow> word f \<and> package_path f = f"

definition test_ok :: "seconds \<Rightarrow> bool \<Rightarrow> test \<Rightarrow> bool" where
  "test_ok stod interactive t \<longleftrightarrow>
     word (t_name t) \<and> (snd (split_name (t_name t)) = ''ocen'' \<longrightarrow> fst (split_name (t_name t)) \<noteq> []) \<and>
     0 < t_time_limit t \<and> stod (duration_to_string (t_time_limit t)) = Some (False, t_time_limit t) \<and>
     memory_ok (t_memory_limit t) \<and> file_ok (t_in t) \<and>
     (if interactive then t_out t = None else (\<exists>f. t_out t = Some f \<and> file_ok f))"

definition tgroup_ok :: "seconds \<Rightarrow> bool \<Rightarrow> test_group \<Rightarrow> bool" where
  "tgroup_ok stod interactive g \<longleftrightarrow>
     tg_tests g \<noteq> [] \<and> list_all (test_ok stod interactive) (tg_tests g) \<and> name_sorted (tg_tests g) \<and>
     (\<forall>t\<in>set (tg_tests g). group_num t = group_num (hd (tg_tests g))) \<and> fits i64_min i64_max (tg_score g)"

definition tgroups_ok :: "seconds \<Rightarrow> bool \<Rightarrow> test_group list \<Rightarrow> bool" where
  "tgroups_ok stod interactive gs \<longleftrightarrow>
     list_all (tgroup_ok stod interactive) gs \<and>
     sorted_wrt (\<lambda>g h. group_num (hd (tg_tests g)) < group_num (hd (tg_tests h))) gs \<and>
     distinct (map t_name (concat (map tg_tests gs)))"

definition simfile_ok :: "seconds \<Rightarrow> simfile \<Rightarrow> bool" where
  "simfile_ok stod sf \<longleftrightarrow>
     (\<exists>n. sf_name sf = Some n \<and> nul_free n) \<and> (\<exists>l. sf_label sf = Some l \<and> nul_free l) \<and>
     (\<exists>st. sf_statement sf = Some st \<and> nul_free st \<and> st \<noteq> [] \<and> package_path st = st) \<and>
     (case sf_checker sf of None \<Rightarrow> \<not> sf_interactive sf
      | Some c \<Rightarrow> nul_free c \<and> c \<noteq> [] \<and> package_path c = c) \<and>
     sf_solutions sf \<noteq> [] \<and> list_all (\<lambda>s. nul_free s \<and> package_path s = s) (sf_solutions sf) \<and>
     (case sf_global_mem_limit sf of None \<Rightarrow> True | Some m \<Rightarrow> memory_ok m) \<and>
     tgroups_ok stod (sf_interactive sf) (sf_tgroups sf)"

section \<open>Limits\<close>

abbreviation blank :: "test \<Rightarrow> test" where
  "blank t \<equiv> t\<lparr>t_in := [], t_out := None\<rparr>"

lemma memory_ok_mib:
  assumes "memory_ok m"
  shows "mib (m div 2 ^ 20) = m" and "1 \<le> m div 2 ^ 20" and "m div 2 ^ 20 \<le> max_mem_limit"
proof -
  have "m div 2 ^ 20 * 2 ^ 20 = m" using assms by (auto simp: memory_ok_def minus_mod_eq_div_mult [symmetric])
  then show "mib (m div 2 ^ 20) = m" using assms by (simp add: mib_def memory_ok_def)
  have "2 ^ 20 div 2 ^ 20 \<le> m div 2 ^ 20" "m div 2 ^ 20 \<le> (2 ^ 64 - 1) div 2 ^ 20"
    using assms by (intro zdiv_mono1; simp add: memory_ok_def)+
  then show "1 \<le> m div 2 ^ 20" "m div 2 ^ 20 \<le> max_mem_limit"
    by (simp_all add: max_mem_limit_def u64_max_def)
qed

lemma str2num_memory:
  assumes "memory_ok m"
  shows "str2num 0 u64_max (int_to_string (m div 2 ^ 20)) = Some (m div 2 ^ 20)"
    and "str2num_between 0 u64_max 1 max_mem_limit (int_to_string (m div 2 ^ 20)) = Some (m div 2 ^ 20)"
proof -
  have "fits 0 u64_max (m div 2 ^ 20)"
    using memory_ok_mib [OF assms] by (simp add: fits_def max_mem_limit_def u64_max_def)
  then show s: "str2num 0 u64_max (int_to_string (m div 2 ^ 20)) = Some (m div 2 ^ 20)"
    by (rule str2num_int_to_string [OF limits_64(1)])
  show "str2num_between 0 u64_max 1 max_mem_limit (int_to_string (m div 2 ^ 20)) = Some (m div 2 ^ 20)"
    using memory_ok_mib(2,3) [OF assms] s by (simp add: str2num_between_def)
qed

lemma limits_test_item:
  assumes "test_ok stod interactive t"
  shows "limits_test stod (sf_global_mem_limit sf) (limits_item sf t) = Inr (blank t)"
proof -
  let ?d = "duration_to_string (t_time_limit t)"
  let ?m = "int_to_string (t_memory_limit t div 2 ^ 20)"
  have t: "word (t_name t)" "0 < t_time_limit t" "stod ?d = Some (False, t_time_limit t)" "memory_ok (t_memory_limit t)"
    using assms by (auto simp: test_ok_def)
  have d: "word ?d" "is_real ?d" using duration_word t(2) by simp_all
  note m = str2num_memory(2) [OF t(4)] memory_ok_mib(1) [OF t(4)]
  have blank: "blank t = \<lparr> t_name = t_name t, t_in = [], t_out = None, t_time_limit = t_time_limit t,
      t_memory_limit = t_memory_limit t \<rparr>" by simp
  show ?thesis
  proof (cases "sf_global_mem_limit sf = None \<or> t_memory_limit t \<noteq> the (sf_global_mem_limit sf)")
    case True
    have "parse_limits_item stod (t_name t @ CHR '' '' # ?d @ CHR '' '' # ?m) =
        Inr (t_name t, t_time_limit t, Some (t_memory_limit t))"
      using t d word_dropWhile [OF number_word] number_not_blank m
      by (simp add: parse_limits_item_def extract_word Let_def)
    then show ?thesis using True by (simp add: limits_test_def limits_item_def blank)
  next
    case False
    have "parse_limits_item stod (t_name t @ CHR '' '' # ?d) = Inr (t_name t, t_time_limit t, None)"
      using t d by (simp add: parse_limits_item_def extract_word Let_def)
    then show ?thesis using False by (auto simp: limits_test_def limits_item_def blank)
  qed
qed

lemma add_to_new_group:
  assumes "list_all is_digit gid" and "list_all (\<lambda>x. list_all is_digit (fst x) \<and> gid_num (fst x) < gid_num gid) gs"
  shows "add_to_group gid t gs = gs @ [(gid, \<lparr> tg_tests = [t], tg_score = 0 \<rparr>)]"
  using assms(2) by (induction gs) (auto simp: digits_less [OF assms(1)] digits_less [OF _ assms(1)])

lemma add_to_last_group:
  assumes "list_all is_digit gid" and "list_all is_digit k" and "gid_num gid = gid_num k"
    and "list_all (\<lambda>x. list_all is_digit (fst x) \<and> gid_num (fst x) < gid_num gid) gs"
  shows "add_to_group gid t (gs @ [(k, g)]) = gs @ [(k, g\<lparr>tg_tests := tg_tests g @ [t]\<rparr>)]"
  using assms(4)
  by (induction gs) (auto simp: digits_less [OF assms(1)] digits_less [OF _ assms(1)] assms(2,3))

definition group_key :: "test_group \<Rightarrow> string" where
  "group_key g = test_group_id (t_name (hd (tg_tests g)))"

definition raw_group :: "test_group \<Rightarrow> string \<times> test_group" where
  "raw_group g = (group_key g, \<lparr> tg_tests = map blank (tg_tests g), tg_score = 0 \<rparr>)"

lemma group_key_facts: "list_all is_digit (group_key g)" "gid_num (group_key g) = group_num (hd (tg_tests g))"
  by (simp_all add: group_key_def group_num_def test_group_id_digits)

text \<open>All groups so far have smaller numbers.\<close>

definition below :: "int \<Rightarrow> groups \<Rightarrow> bool" where
  "below n gs \<longleftrightarrow> list_all (\<lambda>x. list_all is_digit (fst x) \<and> gid_num (fst x) < n) gs"

lemma load_same_group:
  assumes "list_all (test_ok stod interactive) ts" and "\<forall>t\<in>set ts. group_num t = gid_num k"
    and "list_all is_digit k" and "below (gid_num k) gs"
  shows "load_limits stod (sf_global_mem_limit sf) (map (limits_item sf) ts @ items) (gs @ [(k, g)]) =
    load_limits stod (sf_global_mem_limit sf) items (gs @ [(k, g\<lparr>tg_tests := tg_tests g @ map blank ts\<rparr>)])"
  using assms
proof (induction ts arbitrary: g)
  case (Cons t ts)
  let ?gid = "test_group_id (t_name t)"
  have "gid_num ?gid = gid_num k" using Cons.prems(2) by (simp add: group_num_def)
  then have "add_to_group ?gid (blank t) (gs @ [(k, g)]) = gs @ [(k, g\<lparr>tg_tests := tg_tests g @ [blank t]\<rparr>)]"
    using Cons.prems(3,4) by (intro add_to_last_group) (simp_all add: test_group_id_digits below_def)
  then show ?case
    using Cons.IH [of "g\<lparr>tg_tests := tg_tests g @ [blank t]\<rparr>"] Cons.prems limits_test_item [of stod interactive t sf]
    by (simp add: load_limits_Cons del: load_limits.simps)
qed simp

lemma load_group:
  assumes "tgroup_ok stod interactive g" and "below (gid_num (group_key g)) gs"
  shows "load_limits stod (sf_global_mem_limit sf) (map (limits_item sf) (tg_tests g) @ items) gs =
    load_limits stod (sf_global_mem_limit sf) items (gs @ [raw_group g])"
proof -
  obtain t ts where t: "tg_tests g = t # ts" using assms(1) by (cases "tg_tests g") (auto simp: tgroup_ok_def)
  have ok: "test_ok stod interactive t" "list_all (test_ok stod interactive) ts"
    "\<forall>u\<in>set ts. group_num u = gid_num (group_key g)"
    using assms(1) t group_key_facts(2) [of g] by (auto simp: tgroup_ok_def)
  have key: "test_group_id (t_name t) = group_key g" by (simp add: group_key_def t)
  have "add_to_group (group_key g) (blank t) gs = gs @ [(group_key g, \<lparr> tg_tests = [blank t], tg_score = 0 \<rparr>)]"
    using assms(2) by (intro add_to_new_group) (simp_all add: group_key_facts below_def)
  then show ?thesis
    using load_same_group [OF ok(2,3) group_key_facts(1) assms(2), of sf items "\<lparr> tg_tests = [blank t], tg_score = 0 \<rparr>"]
      limits_test_item [OF ok(1), of sf] key
    by (simp add: load_limits_Cons t raw_group_def del: load_limits.simps)
qed

definition limits_items :: "simfile \<Rightarrow> string list" where
  "limits_items sf = concat (map (\<lambda>g. map (limits_item sf) (tg_tests g)) (sf_tgroups sf))"

lemma load_groups:
  assumes "list_all (tgroup_ok stod interactive) gs"
    and "sorted_wrt (\<lambda>g h. group_num (hd (tg_tests g)) < group_num (hd (tg_tests h))) gs"
    and "\<forall>g\<in>set gs. below (gid_num (group_key g)) gs0"
  shows "load_limits stod (sf_global_mem_limit sf)
      (concat (map (\<lambda>g. map (limits_item sf) (tg_tests g)) gs)) gs0 = Inr (gs0 @ map raw_group gs)"
  using assms
proof (induction gs arbitrary: gs0)
  case (Cons g gs)
  have "\<forall>h\<in>set gs. below (gid_num (group_key h)) (gs0 @ [raw_group g])"
    using Cons.prems by (auto simp: below_def raw_group_def group_key_facts)
  then show ?case using Cons load_group [of stod interactive g gs0 sf] by simp
qed simp

section \<open>Scores\<close>

lemma scoring_item:
  assumes "tgroup_ok stod interactive g"
  shows "parse_scoring_item
      ((if group_key g = [] then [CHR 0x22, CHR 0x22] else group_key g) @ '' '' @ int_to_string (tg_score g)) =
    Inr (group_key g, tg_score g)"
proof -
  let ?t = "if group_key g = [] then [CHR 0x22, CHR 0x22] else group_key g"
  have "word ?t"
    using group_key_facts(1) [of g] digits_word [of "group_key g"]
    by (auto simp: is_digit_str_def word_def is_space_def char_le_code)
  then have "extract_next_non_empty (?t @ '' '' @ int_to_string (tg_score g)) = (?t, int_to_string (tg_score g))"
    using extract_word(1) by simp
  moreover have "str2num i64_min i64_max (int_to_string (tg_score g)) = Some (tg_score g)"
    using assms by (intro str2num_int_to_string [OF limits_64(2)]) (simp add: tgroup_ok_def)
  moreover have "group_key g \<noteq> [] \<Longrightarrow> is_digit_str (group_key g)" "\<not> is_digit (CHR 0x22)" "\<not> is_digit (CHR 0x27)"
    using group_key_facts(1) [of g] by (auto simp: is_digit_str_def is_digit_code)
  ultimately show ?thesis
    using word_dropWhile [OF number_word]
    by (auto simp: parse_scoring_item_def Let_def is_digit_str_def)
qed

lemma scoring_items_eq:
  assumes "list_all (tgroup_ok stod interactive) (sf_tgroups sf)"
  shows "scoring_items sf = map (\<lambda>g. (if group_key g = [] then [CHR 0x22, CHR 0x22] else group_key g) @
    '' '' @ int_to_string (tg_score g)) (sf_tgroups sf)"
proof -
  have item: "(case tg_tests g of [] \<Rightarrow> []
       | t # ts \<Rightarrow>
           (let (gid, tid) = split_name (t_name t);
                gid = (if tid = ''ocen'' then ''0'' else gid);
                gid = (if gid = [] then [CHR 0x22, CHR 0x22] else gid)
            in [gid @ '' '' @ int_to_string (tg_score g)])) =
      [(if group_key g = [] then [CHR 0x22, CHR 0x22] else group_key g) @ '' '' @ int_to_string (tg_score g)]"
    if g: "tgroup_ok stod interactive g" for g
  proof -
    obtain t ts where t: "tg_tests g = t # ts" using g by (cases "tg_tests g") (auto simp: tgroup_ok_def)
    then have "test_ok stod interactive t" using g by (simp add: tgroup_ok_def)
    then show ?thesis
      by (cases "split_name (t_name t)") (auto simp: t group_key_def test_group_id_def test_ok_def Let_def)
  qed
  have "concat (map f gs) = map h gs" if "\<And>g. g \<in> set gs \<Longrightarrow> f g = [h g]" for f h and gs :: "test_group list"
    using that by (induction gs) simp_all
  from this [OF item] show ?thesis
    unfolding scoring_items_def using assms by (simp only: list_all_iff)
qed

definition scored_group :: "test_group \<Rightarrow> string \<times> test_group" where
  "scored_group g = (group_key g, \<lparr> tg_tests = map blank (tg_tests g), tg_score = tg_score g \<rparr>)"

definition score_of :: "test_group list \<Rightarrow> string \<rightharpoonup> int" where
  "score_of gs = map_of (map (\<lambda>g. (group_key g, tg_score g)) gs)"

lemma group_exists_raw: "g \<in> set gs \<Longrightarrow> group_exists (group_key g) (map raw_group gs)"
proof -
  have "same_group (group_key g) (group_key g)" by (simp add: same_group_def test_name_order key_less_order(1))
  then show "g \<in> set gs \<Longrightarrow> group_exists (group_key g) (map raw_group gs)"
    by (force simp: group_exists_def list_ex_iff raw_group_def)
qed

lemma read_scores:
  assumes "list_all (tgroup_ok stod interactive) gs" and "distinct (map group_key gs)"
    and "\<forall>g\<in>set gs. f (group_key g) = None \<and> group_exists (group_key g) all"
  shows "read_scoring all (map (\<lambda>g. (if group_key g = [] then [CHR 0x22, CHR 0x22] else group_key g) @
      '' '' @ int_to_string (tg_score g)) gs) f = Inr (f ++ score_of gs)"
  using assms
proof (induction gs arbitrary: f)
  case Nil
  then show ?case by (simp add: score_of_def)
next
  case (Cons g gs)
  have "group_key g \<notin> dom (score_of gs)" using Cons.prems(2) by (auto simp: score_of_def dom_map_of_conv_image_fst)
  then have "f(group_key g \<mapsto> tg_score g) ++ score_of gs = f ++ score_of (g # gs)"
    by (simp add: score_of_def map_add_upd_left)
  moreover have "group_key h \<noteq> group_key g" if "h \<in> set gs" for h
    using Cons.prems(2) imageI [OF that, of group_key] by auto
  then have "\<forall>h\<in>set gs. (f(group_key g \<mapsto> tg_score g)) (group_key h) = None \<and> group_exists (group_key h) all"
    using Cons.prems(3) by simp
  ultimately show ?case
    using Cons scoring_item [of stod interactive g] by (simp del: append_Cons append.simps)
qed

lemma assign_all_scores:
  "\<forall>g\<in>set gs. f (group_key g) = Some (tg_score g) \<Longrightarrow>
   assign_scores f (map raw_group gs) = Inr (map scored_group gs)"
  by (induction gs) (simp_all add: raw_group_def scored_group_def)

lemma distinct_keys:
  assumes "sorted_wrt (\<lambda>g h. group_num (hd (tg_tests g)) < group_num (hd (tg_tests h))) gs"
  shows "distinct (map group_key gs)"
  using assms group_key_facts(2) by (induction gs) (auto, metis less_irrefl)

lemma sort_tests_sorted: "name_sorted ts \<Longrightarrow> sort_tests ts = ts"
proof -
  have "insert_test t us = t # us" if "name_sorted (t # us)" for t us using that by (cases us) auto
  then show "name_sorted ts \<Longrightarrow> sort_tests ts = ts" by (induction ts) (auto simp: sort_tests_def)
qed

text \<open>A variable that was read from a line.\<close>

definition reads :: "cfg_vars \<Rightarrow> string \<Rightarrow> cfg_line option \<Rightarrow> bool" where
  "reads config n l \<longleftrightarrow>
     no_span (get_var config n) = (case l of None \<Rightarrow> unset_var | Some l \<Rightarrow> line_var l)"

lemma reads_fields:
  assumes "reads config n l"
  shows "cv_set (get_var config n) = (l \<noteq> None)"
    and "cv_array (get_var config n) = (case l of None \<Rightarrow> False | Some x \<Rightarrow> cv_array (line_var x))"
    and "cv_str (get_var config n) = (case l of None \<Rightarrow> [] | Some x \<Rightarrow> cv_str (line_var x))"
    and "cv_arr (get_var config n) = (case l of None \<Rightarrow> [] | Some x \<Rightarrow> cv_arr (line_var x))"
proof -
  let ?v = "get_var config n"
  have eq: "cv_set ?v = cv_set (no_span ?v)" "cv_array ?v = cv_array (no_span ?v)"
    "cv_str ?v = cv_str (no_span ?v)" "cv_arr ?v = cv_arr (no_span ?v)" by simp_all
  have set: "cv_set (line_var x)" for x by (cases x) simp_all
  show "cv_set (get_var config n) = (l \<noteq> None)"
    "cv_array (get_var config n) = (case l of None \<Rightarrow> False | Some x \<Rightarrow> cv_array (line_var x))"
    "cv_str (get_var config n) = (case l of None \<Rightarrow> [] | Some x \<Rightarrow> cv_str (line_var x))"
    "cv_arr (get_var config n) = (case l of None \<Rightarrow> [] | Some x \<Rightarrow> cv_arr (line_var x))"
    using assms set by (cases l; subst eq; simp add: reads_def unset_var_def)+
qed

lemma load_tests_dumped:
  assumes ok: "tgroups_ok stod interactive (sf_tgroups sf)"
    and mem: "load_global_memory_limit_only config sf0 =
      Inr (sf0\<lparr>sf_global_mem_limit := sf_global_mem_limit sf\<rparr>)"
    and limits: "reads config ''limits''
      (Some (Grouped_line (map (\<lambda>g. map (limits_item sf) (tg_tests g)) (sf_tgroups sf))))"
    and scoring: "reads config ''scoring''
      (if sf_tgroups sf = [] then None else Some (Block_line (scoring_items sf)))"
  shows "load_tests stod config sf0 = Inr (sf0\<lparr> sf_global_mem_limit := sf_global_mem_limit sf,
    sf_tgroups := map (\<lambda>g. g\<lparr>tg_tests := map blank (tg_tests g)\<rparr>) (sf_tgroups sf) \<rparr>)"
proof -
  let ?gs = "sf_tgroups sf"
  have gs: "list_all (tgroup_ok stod interactive) ?gs"
    and sorted: "sorted_wrt (\<lambda>g h. group_num (hd (tg_tests g)) < group_num (hd (tg_tests h))) ?gs"
    using ok by (simp_all add: tgroups_ok_def)
  have load: "load_limits stod (sf_global_mem_limit sf) (limits_items sf) [] = Inr (map raw_group ?gs)"
    unfolding limits_items_def using load_groups [OF gs sorted, of "[]" sf] by (simp add: below_def)
  have scores: "load_scoring config (map raw_group ?gs) = Inr (map scored_group ?gs)"
  proof (cases "?gs = []")
    case True
    then show ?thesis
      using reads_fields [OF scoring] by (simp add: load_scoring_def Let_def check_if_arr_def)
  next
    case False
    have "score_of ?gs (group_key g) = Some (tg_score g)" if "g \<in> set ?gs" for g
      unfolding score_of_def using that distinct_keys [OF sorted]
      by (intro map_of_is_SomeI) (auto simp: comp_def)
    moreover have "read_scoring (map raw_group ?gs) (scoring_items sf) Map.empty = Inr (Map.empty ++ score_of ?gs)"
      unfolding scoring_items_eq [OF gs]
      by (rule read_scores [OF gs distinct_keys [OF sorted]]) (simp add: group_exists_raw)
    ultimately show ?thesis
      using reads_fields [OF scoring] False assign_all_scores [of ?gs "score_of ?gs"]
      by (simp add: load_scoring_def Let_def check_if_arr_def)
  qed
  have "name_sorted (map blank (tg_tests g))" if "g \<in> set ?gs" for g
    using gs that by (simp add: list_all_iff tgroup_ok_def sorted_wrt_map)
  then have "map (\<lambda>(k, g). g\<lparr>tg_tests := sort_tests (tg_tests g)\<rparr>) (map scored_group ?gs) =
      map (\<lambda>g. g\<lparr>tg_tests := map blank (tg_tests g)\<rparr>) ?gs"
    by (simp add: scored_group_def sort_tests_sorted)
  then show ?thesis
    using mem load scores reads_fields [OF limits]
    by (simp add: load_tests_def Let_def check_if_arr_def limits_items_def)
qed

section \<open>Files of the tests\<close>

definition out_file :: "bool \<Rightarrow> test \<Rightarrow> string" where
  "out_file interactive t = (if interactive then [] else the (t_out t))"

definition file_text :: "bool \<Rightarrow> test \<Rightarrow> string" where
  "file_text interactive t =
     t_name t @ '' '' @ t_in t @ (if interactive then [] else '' '' @ out_file interactive t)"

lemma test_ok_files:
  assumes "test_ok stod interactive t"
  shows "word (t_name t)" "word (t_in t)" "package_path (t_in t) = t_in t"
    and "\<not> interactive \<Longrightarrow> word (out_file interactive t) \<and>
      package_path (out_file interactive t) = out_file interactive t"
    and "t_out t = (if interactive then None else Some (out_file interactive t))"
  using assms by (auto simp: test_ok_def file_ok_def out_file_def split: if_splits)

lemma files_item_ok:
  assumes "test_ok stod (sf_interactive sf) t"
  shows "files_item sf t = Inr [file_text (sf_interactive sf) t]"
  using test_ok_files [OF assms] word_parts(1)
  by (auto simp: files_item_def file_text_def)

lemma files_items_ok:
  assumes "list_all (test_ok stod (sf_interactive sf)) (concat (map tg_tests (sf_tgroups sf)))"
  shows "files_items sf = Inr (map (file_text (sf_interactive sf)) (concat (map tg_tests (sf_tgroups sf))))"
proof -
  have "map_res (files_item sf) ts = Inr (map (\<lambda>t. [file_text (sf_interactive sf) t]) ts)"
    if "list_all (test_ok stod (sf_interactive sf)) ts" for ts
    using that by (induction ts) (simp_all add: files_item_ok [of stod])
  from this [OF assms] show ?thesis by (simp add: files_items_def concat_map_singleton)
qed

lemma parse_file_text:
  assumes "test_ok stod interactive t"
  shows "parse_test_files_item (file_text interactive t) =
    Inr (t_name t, t_in t, out_file interactive t)"
proof -
  let ?out = "out_file interactive t"
  note words = test_ok_files(1,2) [OF assms]
  show ?thesis
  proof (cases interactive)
    case True
    then show ?thesis
      using extract_word(1) [OF words(1), of "t_in t"] extract_word(2) [OF words(2)]
      by (simp add: parse_test_files_item_def file_text_def extract_empty out_file_def)
  next
    case False
    then have "word ?out" using test_ok_files(4) [OF assms] by simp
    then show ?thesis
      using extract_word(1) [OF words(1), of "t_in t @ CHR '' '' # ?out"]
        extract_word(1) [OF words(2), of ?out] extract_word(2) [of ?out] False
      by (simp add: parse_test_files_item_def file_text_def)
  qed
qed

definition files_of :: "bool \<Rightarrow> test list \<Rightarrow> test_files" where
  "files_of interactive ts = map_of (map (\<lambda>t. (t_name t, t_in t, out_file interactive t)) ts)"

lemma read_files:
  assumes "list_all (test_ok stod interactive) ts" and "distinct (map t_name ts)"
    and "\<forall>t\<in>set ts. f (t_name t) = None"
  shows "read_test_files interactive (map (file_text interactive) ts) f = Inr (f ++ files_of interactive ts)"
  using assms
proof (induction ts arbitrary: f)
  case Nil
  then show ?case by (simp add: files_of_def)
next
  case (Cons t ts)
  let ?f = "f(t_name t \<mapsto> (t_in t, out_file interactive t))"
  have "t_name t \<notin> dom (files_of interactive ts)"
    using Cons.prems(2) by (auto simp: files_of_def dom_map_of_conv_image_fst)
  then have upd: "?f ++ files_of interactive ts = f ++ files_of interactive (t # ts)"
    by (simp add: files_of_def map_add_upd_left)
  have "t_name u \<noteq> t_name t" if "u \<in> set ts" for u
    using Cons.prems(2) imageI [OF that, of t_name] by auto
  then have "\<forall>u\<in>set ts. ?f (t_name u) = None" using Cons.prems(3) by simp
  moreover have "test_ok stod interactive t" using Cons.prems(1) by simp
  note ok = test_ok_files [OF this] parse_file_text [OF this]
  have "out_file interactive t = [] \<longleftrightarrow> interactive"
    using ok(4) word_parts(1) by (auto simp: out_file_def)
  moreover have "list_all (test_ok stod interactive) ts" "distinct (map t_name ts)"
    using Cons.prems(1,2) by simp_all
  ultimately have "read_test_files interactive (map (file_text interactive) ts) ?f =
      Inr (?f ++ files_of interactive ts)" and out: "out_file interactive t = [] \<longleftrightarrow> interactive"
    using Cons.IH [of ?f] by blast+
  then show ?case
    using Cons.prems(3) upd ok(6) out word_parts(1) [OF ok(1)] word_parts(1) [OF ok(2)] by simp
qed

lemma assign_file:
  assumes "test_ok stod interactive t" and "f (t_name t) = Some (t_in t, out_file interactive t)"
  shows "assign_files interactive f (blank t) = Inr t"
  using test_ok_files [OF assms(1)] assms(2) by (simp add: assign_files_def)

lemma map_res_Inr: "(\<And>x. x \<in> set xs \<Longrightarrow> f (g x) = Inr x) \<Longrightarrow> map_res f (map g xs) = Inr xs"
  by (induction xs) simp_all

lemma load_files_dumped:
  assumes ok: "tgroups_ok stod (sf_interactive sf) gs"
    and inter: "load_interactive config sf0 = Inr sf" and groups: "sf_tgroups sf = map (\<lambda>g. g\<lparr>tg_tests := map blank (tg_tests g)\<rparr>) gs"
    and files: "reads config ''tests_files'' (Some (Block_line (map (file_text (sf_interactive sf)) (concat (map tg_tests gs)))))"
  shows "load_tests_files config sf0 = Inr (sf\<lparr>sf_tgroups := gs\<rparr>)"
proof -
  let ?i = "sf_interactive sf"
  let ?ts = "concat (map tg_tests gs)"
  have tests: "list_all (test_ok stod ?i) ?ts" "distinct (map t_name ?ts)"
    using ok by (auto simp: tgroups_ok_def tgroup_ok_def list_all_iff)
  have read: "read_test_files ?i (map (file_text ?i) ?ts) Map.empty = Inr (files_of ?i ?ts)"
    using read_files [OF tests, of Map.empty] by simp
  have "map_res (assign_files ?i (files_of ?i ?ts)) (map blank (tg_tests g)) = Inr (tg_tests g)"
    if "g \<in> set gs" for g
  proof (rule map_res_Inr)
    fix t assume "t \<in> set (tg_tests g)"
    then have t: "t \<in> set ?ts" using that by auto
    then have "files_of ?i ?ts (t_name t) = Some (t_in t, out_file ?i t)"
      unfolding files_of_def using tests(2) by (intro map_of_is_SomeI) (auto simp: comp_def)
    then show "assign_files ?i (files_of ?i ?ts) (blank t) = Inr t"
      using tests(1) t by (intro assign_file) (auto simp: list_all_iff)
  qed
  then have "map_res (\<lambda>g. bind_res (map_res (assign_files ?i (files_of ?i ?ts)) (tg_tests g))
      (\<lambda>ts. Inr (g\<lparr>tg_tests := ts\<rparr>))) (sf_tgroups sf) = Inr gs"
    unfolding groups by (intro map_res_Inr) simp
  then show ?thesis
    using inter read reads_fields [OF files]
    by (simp add: load_tests_files_def Let_def check_if_arr_def)
qed

section \<open>The lines of a dump\<close>

definition opt_line :: "string \<Rightarrow> string option \<Rightarrow> (string \<times> cfg_line) list" where
  "opt_line n x = (case x of None \<Rightarrow> [] | Some v \<Rightarrow> [(n, Scalar_line v)])"

definition memory_text :: "simfile \<Rightarrow> string option" where
  "memory_text sf = map_option (\<lambda>m. int_to_string (m div 2 ^ 20)) (sf_global_mem_limit sf)"

definition dump_lines :: "simfile \<Rightarrow> (string \<times> cfg_line) list" where
  "dump_lines sf =
     opt_line ''name'' (sf_name sf) @ opt_line ''label'' (sf_label sf) @
     opt_line ''interactive'' (if sf_interactive sf then Some ''true'' else None) @
     opt_line ''statement'' (sf_statement sf) @ opt_line ''checker'' (sf_checker sf) @
     [(''solutions'', Inline_line (sf_solutions sf))] @ opt_line ''memory_limit'' (memory_text sf) @
     [(''limits'', Grouped_line (map (\<lambda>g. map (limits_item sf) (tg_tests g)) (sf_tgroups sf)))] @
     (if sf_tgroups sf = [] then [] else [(''scoring'', Block_line (scoring_items sf))]) @
     [(''tests_files'', Block_line (map (file_text (sf_interactive sf)) (concat (map tg_tests (sf_tgroups sf)))))]"

lemma escape_digits: "is_digit_str s \<Longrightarrow> escape_string s = s"
proof -
  assume s: "is_digit_str s"
  have c: "\<not> is_cntrl c \<and> \<not> is_space c \<and> c \<notin> set ''[]#,'' \<and> c \<noteq> CHR 0x27 \<and> c \<noteq> CHR 0x22 \<and> c \<noteq> LF"
    if "is_digit c" for c
    using that by (auto simp: is_digit_code is_cntrl_def is_space_def char_le_code)
  have digits: "\<And>c. c \<in> set s \<Longrightarrow> is_digit c" "s \<noteq> []" using s by (auto simp: is_digit_str_def list_all_iff)
  then have "is_string_literal s"
    using c [OF digits(1)] hd_in_set [OF digits(2)] last_in_set [OF digits(2)]
    by (auto simp: is_string_literal_def list_all_iff)
  then show ?thesis using c digits(1) by (auto simp: escape_string_def list_ex_iff)
qed

lemma solutions_text: "solutions_text ss = inline_items ss"
  by (induction ss rule: inline_items.induct) simp_all

lemma dump_is_lines:
  assumes "simfile_ok stod sf"
  shows "dump sf = Inr (concat (map line_text (dump_lines sf)))"
proof -
  have tests: "list_all (test_ok stod (sf_interactive sf)) (concat (map tg_tests (sf_tgroups sf)))"
    using assms by (auto simp: simfile_ok_def tgroups_ok_def tgroup_ok_def list_all_iff)
  have true: "escape_string ''true'' = ''true''" by code_simp
  have memory: "escape_string (int_to_string (m div 2 ^ 20)) = int_to_string (m div 2 ^ 20)" "2 ^ 20 \<le> m"
    if "sf_global_mem_limit sf = Some m" for m
    using that assms memory_ok_mib(2) [of m]
    by (auto simp: simfile_ok_def memory_ok_def intro!: escape_digits int_to_string_digits)
  show ?thesis
    using memory
    by (simp add: dump_def files_items_ok [OF tests] dump_lines_def opt_line_def memory_text_def true
        solutions_text append_limits_value_def append_scoring_value_def block_items_def comp_def
        split: option.split)
qed

lemma load_lines_get:
  assumes "list_all line_wf ls" and "distinct (map fst ls)"
    and "load_config_from_string False vars (concat (map line_text ls)) = Inr config"
    and "vars n = Some unset_var"
  shows "reads config n (map_of ls n)"
proof -
  have fold: "foldl (apply_line False) vs ls n =
      Some (case map_of ls n of None \<Rightarrow> unset_var | Some l \<Rightarrow> line_var l)"
    if "distinct (map fst ls)" "vs n = Some unset_var" for vs ls
    using that
  proof (induction ls arbitrary: vs)
    case (Cons x ls)
    obtain m l where x: "x = (m, l)" by (cases x)
    show ?case
    proof (cases "m = n")
      case True
      have "foldl (apply_line False) ws ls n = ws n" if "n \<notin> fst ` set ls" for ws
        using that by (induction ls arbitrary: ws) (auto simp: apply_line_def store_var_def)
      from this [of "apply_line False vs x"] have
        "foldl (apply_line False) (apply_line False vs x) ls n = apply_line False vs x n"
        using Cons.prems(1) x True by simp
      moreover have "apply_line False vs x n = Some (line_var l)"
        using Cons.prems(2) x True by (simp add: apply_line_def store_var_def)
      ultimately show ?thesis using x True by simp
    next
      case False
      then have "apply_line False vs x n = Some unset_var"
        using Cons.prems x by (simp add: apply_line_def store_var_def)
      then show ?thesis using Cons x False by simp
    qed
  qed simp
  have "forget_spans config = foldl (apply_line False) (forget_spans vars) ls"
    using config_lines [OF assms(1), of False vars] assms(3) by simp
  moreover have "forget_spans vars n = Some unset_var"
    using assms(4) by (simp add: forget_spans_def unset_var_def)
  ultimately have "forget_spans config n = Some (case map_of ls n of None \<Rightarrow> unset_var | Some l \<Rightarrow> line_var l)"
    using fold [OF assms(2)] by simp
  then show ?thesis by (auto simp: reads_def get_var_def forget_spans_def split: option.splits)
qed

lemma simfile_variables_unset:
  "n \<in> set simfile_variables \<Longrightarrow> add_vars simfile_variables Map.empty n = Some unset_var"
proof -
  have "foldl (\<lambda>m n. if m n = None then m(n \<mapsto> unset_var) else m) m ns n = Some unset_var"
    if "n \<in> set ns \<and> m n = None \<or> m n = Some unset_var" for ns and m :: cfg_vars
    using that by (induction ns arbitrary: m) auto
  then show "n \<in> set simfile_variables \<Longrightarrow> add_vars simfile_variables Map.empty n = Some unset_var"
    by (simp add: add_vars_def)
qed

lemma package_path_nul_free: "file_ok f \<Longrightarrow> CHR 0x00 \<notin> set f"
  by (auto simp: file_ok_def word_parts)

lemma limits_item_nul_free:
  assumes "test_ok stod interactive t"
  shows "CHR 0x00 \<notin> set (limits_item sf t)"
proof -
  have "word (t_name t)" "0 \<le> t_time_limit t" using assms by (auto simp: test_ok_def)
  then show ?thesis
    using word_parts(3) duration_word(1) number_word by (auto simp: limits_item_def)
qed

lemma file_text_nul_free:
  assumes "test_ok stod interactive t"
  shows "CHR 0x00 \<notin> set (file_text interactive t)"
  using test_ok_files [OF assms] word_parts(3) by (cases interactive) (auto simp: file_text_def)

lemma scoring_item_nul_free:
  "list_all (tgroup_ok stod interactive) (sf_tgroups sf) \<Longrightarrow>
   list_all (\<lambda>v. CHR 0x00 \<notin> set v) (scoring_items sf)"
proof -
  assume "list_all (tgroup_ok stod interactive) (sf_tgroups sf)"
  note eq = scoring_items_eq [OF this]
  have "CHR 0x00 \<notin> set (group_key g)" for g
    using group_key_facts(1) [of g] digit_word_char by (auto simp: list_all_iff)
  then show ?thesis
    unfolding eq using word_parts(3) [OF number_word] by (auto simp: list_all_iff)
qed

lemma name_chars:
  "list_all is_name_char n"
  if "n \<in> set simfile_variables"
proof -
  have "list_all (list_all is_name_char) simfile_variables" by code_simp
  then show ?thesis using that by (auto simp: list_all_iff)
qed

lemma dump_lines_wf:
  assumes "simfile_ok stod sf"
  shows "list_all line_wf (dump_lines sf)"
proof -
  have gs: "list_all (tgroup_ok stod (sf_interactive sf)) (sf_tgroups sf)"
    using assms by (simp add: simfile_ok_def tgroups_ok_def)
  have tests: "test_ok stod (sf_interactive sf) t" if "g \<in> set (sf_tgroups sf)" "t \<in> set (tg_tests g)" for g t
    using gs that by (auto simp: tgroup_ok_def list_all_iff)
  have wf: "line_wf (n, l)" if "n \<in> set simfile_variables" "list_all (\<lambda>v. CHR 0x00 \<notin> set v) (line_strings l)" for n l
  proof -
    have "n \<noteq> []" using that(1) by (auto simp: simfile_variables_def)
    then show ?thesis using that name_chars by (simp add: line_wf_def)
  qed
  have limits: "list_all (\<lambda>v. CHR 0x00 \<notin> set v)
      (line_strings (Grouped_line (map (\<lambda>g. map (limits_item sf) (tg_tests g)) (sf_tgroups sf))))"
    using tests limits_item_nul_free by (fastforce simp: list_all_iff)
  have files: "list_all (\<lambda>v. CHR 0x00 \<notin> set v) (line_strings (Block_line
      (map (file_text (sf_interactive sf)) (concat (map tg_tests (sf_tgroups sf))))))"
    using tests file_text_nul_free by (fastforce simp: list_all_iff)
  have scoring: "list_all (\<lambda>v. CHR 0x00 \<notin> set v) (line_strings (Block_line (scoring_items sf)))"
    using scoring_item_nul_free [OF gs] by simp
  have opt: "list_all line_wf (opt_line n x)"
    if "n \<in> set simfile_variables" "\<And>v. x = Some v \<Longrightarrow> CHR 0x00 \<notin> set v" for n x
    using that wf by (cases x) (auto simp: opt_line_def)
  have sols: "list_all (\<lambda>v. CHR 0x00 \<notin> set v) (line_strings (Inline_line (sf_solutions sf)))"
    using assms by (auto simp: simfile_ok_def list_all_iff nul_free_def)
  have mem: "memory_text sf = Some v \<Longrightarrow> CHR 0x00 \<notin> set v" for v
    using word_parts(3) [OF number_word] by (auto simp: memory_text_def)
  have vars: "set [''name'', ''label'', ''interactive'', ''statement'', ''checker'', ''solutions'',
      ''memory_limit'', ''limits'', ''scoring'', ''tests_files''] \<subseteq> set simfile_variables"
    by (simp add: simfile_variables_def)
  show ?thesis
    unfolding dump_lines_def list_all_append
    using vars assms mem
    by (intro conjI opt; (simp add: wf [OF _ limits] wf [OF _ files] wf [OF _ scoring] wf [OF _ sols])?)
      (auto simp: simfile_ok_def nul_free_def split: option.splits if_splits)
qed

section \<open>Loading a dump\<close>

lemma map_of_opt_line [simp]:
  "map_of (opt_line a x @ ls) n =
     (if n = a then (case x of Some v \<Rightarrow> Some (Scalar_line v) | None \<Rightarrow> map_of ls n) else map_of ls n)"
  by (cases x) (simp_all add: opt_line_def)

lemma names_opt_line [simp]: "fst ` set (opt_line a x) = (if x = None then {} else {a})"
  "distinct (map fst (opt_line a x))"
  by (cases x; simp add: opt_line_def)+

lemma dump_lines_distinct: "distinct (map fst (dump_lines sf))"
  by (simp add: dump_lines_def)

lemma dump_reads:
  assumes "simfile_ok stod sf"
  obtains config where "simfile_config (concat (map line_text (dump_lines sf))) = Inr config"
    and "\<And>n. n \<in> set simfile_variables \<Longrightarrow> reads config n (map_of (dump_lines sf) n)"
proof -
  note wf = dump_lines_wf [OF assms]
  obtain config where config: "simfile_config (concat (map line_text (dump_lines sf))) = Inr config"
    using config_lines [OF wf, of False "add_vars simfile_variables Map.empty"]
    by (cases "simfile_config (concat (map line_text (dump_lines sf)))") (simp_all add: simfile_config_def)
  show thesis
  proof (rule that [OF config])
    fix n assume "n \<in> set simfile_variables"
    then show "reads config n (map_of (dump_lines sf) n)"
      using load_lines_get [OF wf dump_lines_distinct] config simfile_variables_unset
      by (simp add: simfile_config_def)
  qed
qed

lemma load_memory_dumped:
  assumes "case sf_global_mem_limit sf of None \<Rightarrow> True | Some m \<Rightarrow> memory_ok m"
    and reads: "reads config ''memory_limit'' (map_option Scalar_line (memory_text sf))"
  shows "load_global_memory_limit_only config sf0 = Inr (sf0\<lparr>sf_global_mem_limit := sf_global_mem_limit sf\<rparr>)"
proof (cases "sf_global_mem_limit sf")
  case None
  then show ?thesis
    using reads_fields [OF reads]
    by (simp add: memory_text_def load_global_memory_limit_only_def Let_def check_if_not_arr_def)
next
  case (Some m)
  let ?x = "m div 2 ^ 20"
  have m: "memory_ok m" using assms(1) Some by simp
  note b = memory_ok_mib [OF m]
  have digits: "is_digit_str (int_to_string ?x)" "dec_val (int_to_string ?x) = ?x"
    "is_digit_str (int_to_string (int (nat max_mem_limit)))"
    "dec_val (int_to_string (int (nat max_mem_limit))) = int (nat max_mem_limit)"
    using int_to_string_digits b(2) by simp_all
  then have "is_digit_not_greater_than (nat max_mem_limit) (int_to_string ?x)"
    using str_num_less_dec [of "int_to_string (int (nat max_mem_limit))" "int_to_string ?x"] b(2,3)
    by (simp add: is_digit_not_greater_than_def is_digit_str_def)
  moreover have "0 < m" using m by (simp add: memory_ok_def)
  ultimately show ?thesis
    using reads_fields [OF reads] Some str2num_memory(1) [OF m] b(1)
    by (simp add: memory_text_def load_global_memory_limit_only_def Let_def check_if_not_arr_def
        unset_var_def)
qed

lemma simfile_dump_loads:
  assumes ok: "simfile_ok stod sf"
  shows "\<exists>text config. dump sf = Inr text \<and> simfile_config text = Inr config \<and>
    load_all stod config sf0 = Inr sf"
proof -
  obtain config where config: "simfile_config (concat (map line_text (dump_lines sf))) = Inr config"
    and get: "\<And>n. n \<in> set simfile_variables \<Longrightarrow> reads config n (map_of (dump_lines sf) n)"
    using dump_reads [OF ok] by blast
  let ?i = "sf_interactive sf"
  have vars: "set [''name'', ''label'', ''interactive'', ''statement'', ''checker'', ''solutions'',
      ''memory_limit'', ''limits'', ''scoring'', ''tests_files''] \<subseteq> set simfile_variables"
    by (simp add: simfile_variables_def)
  obtain n l st where some: "sf_name sf = Some n" "sf_label sf = Some l" "sf_statement sf = Some st"
    "st \<noteq> []" "package_path st = st"
    using ok by (auto simp: simfile_ok_def)
  have lines: "map_of (dump_lines sf) ''name'' = Some (Scalar_line n)"
    "map_of (dump_lines sf) ''label'' = Some (Scalar_line l)"
    "map_of (dump_lines sf) ''statement'' = Some (Scalar_line st)"
    "map_of (dump_lines sf) ''interactive'' = (if ?i then Some (Scalar_line ''true'') else None)"
    "map_of (dump_lines sf) ''checker'' = map_option Scalar_line (sf_checker sf)"
    "map_of (dump_lines sf) ''solutions'' = Some (Inline_line (sf_solutions sf))"
    "map_of (dump_lines sf) ''memory_limit'' = map_option Scalar_line (memory_text sf)"
    "map_of (dump_lines sf) ''limits'' =
      Some (Grouped_line (map (\<lambda>g. map (limits_item sf) (tg_tests g)) (sf_tgroups sf)))"
    "map_of (dump_lines sf) ''scoring'' =
      (if sf_tgroups sf = [] then None else Some (Block_line (scoring_items sf)))"
    "map_of (dump_lines sf) ''tests_files'' =
      Some (Block_line (map (file_text ?i) (concat (map tg_tests (sf_tgroups sf)))))"
    by (simp_all add: dump_lines_def some del: map_of_append split: option.split)
  note get' = get [OF subsetD [OF vars]]
  have reads: "reads config ''name'' (Some (Scalar_line n))" "reads config ''label'' (Some (Scalar_line l))"
    "reads config ''statement'' (Some (Scalar_line st))"
    "reads config ''interactive'' (if ?i then Some (Scalar_line ''true'') else None)"
    "reads config ''checker'' (map_option Scalar_line (sf_checker sf))"
    "reads config ''solutions'' (Some (Inline_line (sf_solutions sf)))"
    "reads config ''memory_limit'' (map_option Scalar_line (memory_text sf))"
    and limits: "reads config ''limits''
      (Some (Grouped_line (map (\<lambda>g. map (limits_item sf) (tg_tests g)) (sf_tgroups sf))))"
    and scoring: "reads config ''scoring''
      (if sf_tgroups sf = [] then None else Some (Block_line (scoring_items sf)))"
    and files: "reads config ''tests_files''
      (Some (Block_line (map (file_text ?i) (concat (map tg_tests (sf_tgroups sf))))))"
    using get' [of "''name''", unfolded lines] get' [of "''label''", unfolded lines]
      get' [of "''statement''", unfolded lines] get' [of "''interactive''", unfolded lines]
      get' [of "''checker''", unfolded lines] get' [of "''solutions''", unfolded lines]
      get' [of "''memory_limit''", unfolded lines] get' [of "''limits''", unfolded lines]
      get' [of "''scoring''", unfolded lines] get' [of "''tests_files''", unfolded lines]
    by simp_all
  have true: "as_bool v \<longleftrightarrow> True" if "cv_str v = ''true''" for v
    using that by (simp add: as_bool_def lower_equal_def)
  note fields = reads_fields [OF reads(1)] reads_fields [OF reads(2)] reads_fields [OF reads(3)]
    reads_fields [OF reads(4)] reads_fields [OF reads(5)] reads_fields [OF reads(6)]
  have inter: "load_interactive config s = Inr (s\<lparr>sf_interactive := ?i\<rparr>)" for s
    using reads_fields [OF reads(4)] true
    by (auto simp: load_interactive_def check_if_not_arr_def unset_var_def split: if_splits)
  have name: "load_name config s = Inr (s\<lparr>sf_name := sf_name sf\<rparr>)"
    and label: "load_label config s = Inr (s\<lparr>sf_label := sf_label sf\<rparr>)"
    and statement: "load_statement config s = Inr (s\<lparr>sf_statement := sf_statement sf\<rparr>)" for s
    using reads_fields [OF reads(1)] reads_fields [OF reads(2)] reads_fields [OF reads(3)] some
    by (simp_all add: load_name_def load_label_def load_statement_def check_if_not_arr_def unset_var_def)
  have checker: "load_checker config s = Inr (s\<lparr>sf_interactive := ?i, sf_checker := sf_checker sf\<rparr>)" for s
    using reads_fields [OF reads(5)] ok
    by (auto simp: load_checker_def inter check_if_not_arr_def unset_var_def simfile_ok_def split: option.splits)
  have "map package_path (sf_solutions sf) = sf_solutions sf"
    using ok by (auto simp: simfile_ok_def list_all_iff intro: map_idI)
  then have solutions: "load_solutions config s = Inr (s\<lparr>sf_solutions := sf_solutions sf\<rparr>)" for s
    using reads_fields [OF reads(6)] ok
    by (simp add: load_solutions_def check_if_arr_def simfile_ok_def)
  have gs: "tgroups_ok stod ?i (sf_tgroups sf)"
    and mem: "case sf_global_mem_limit sf of None \<Rightarrow> True | Some m \<Rightarrow> memory_ok m"
    using ok by (simp_all add: simfile_ok_def)
  define s1 where "s1 = sf0\<lparr> sf_name := sf_name sf, sf_label := sf_label sf, sf_interactive := ?i,
    sf_checker := sf_checker sf, sf_statement := sf_statement sf, sf_solutions := sf_solutions sf \<rparr>"
  define s2 where "s2 = s1\<lparr> sf_global_mem_limit := sf_global_mem_limit sf,
    sf_tgroups := map (\<lambda>g. g\<lparr>tg_tests := map blank (tg_tests g)\<rparr>) (sf_tgroups sf) \<rparr>"
  have tests: "load_tests stod config s1 = Inr s2"
    unfolding s2_def by (rule load_tests_dumped [OF gs load_memory_dumped [OF mem reads(7)] limits scoring])
  have "sf_interactive s2 = ?i" by (simp add: s2_def s1_def)
  then have "load_tests_files config s2 = Inr (s2\<lparr>sf_tgroups := sf_tgroups sf\<rparr>)"
    using gs inter [of s2] files by (intro load_files_dumped) (simp_all add: s2_def s1_def)
  moreover have "s2\<lparr>sf_tgroups := sf_tgroups sf\<rparr> = sf" by (simp add: s2_def s1_def)
  ultimately have "load_all stod config sf0 = Inr sf"
    using tests by (simp add: load_all_def load_tests_with_files_def name label statement checker solutions s1_def)
  then show ?thesis using dump_is_lines [OF ok] config by blast
qed


definition sample_test :: "string \<Rightarrow> test" where
  "sample_test n = \<lparr> t_name = n, t_in = ''in/'' @ n, t_out = Some (''out/'' @ n), t_time_limit = 10 ^ 9,
     t_memory_limit = 2 ^ 26 \<rparr>"

definition sample_simfile :: simfile where
  "sample_simfile = \<lparr> sf_name = Some ''It's [a] problem'', sf_label = Some ''abc'',
     sf_statement = Some ''doc/x.pdf'', sf_interactive = False, sf_checker = Some ''check/c.cpp'',
     sf_solutions = [''prog/s.cpp''], sf_global_mem_limit = Some (2 ^ 25),
     sf_tgroups = [\<lparr> tg_tests = [sample_test ''t0'', sample_test ''t1ocen''], tg_score = 0 \<rparr>,
       \<lparr> tg_tests = [sample_test ''t1a'', sample_test ''t1b''], tg_score = 100 \<rparr>] \<rparr>"

lemma sample_test_ok:
  assumes "n \<in> set [''t0'', ''t1ocen'', ''t1a'', ''t1b'']"
  shows "test_ok (\<lambda>s. Some (False, 10 ^ 9)) False (sample_test n)"
proof -
  have "list_all (\<lambda>n. word n \<and> fst (split_name n) \<noteq> [] \<and> file_ok (''in/'' @ n) \<and> file_ok (''out/'' @ n))
      [''t0'', ''t1ocen'', ''t1a'', ''t1b'']"
    by code_simp
  then show ?thesis
    using assms by (simp only: list_all_iff) (auto simp: test_ok_def sample_test_def memory_ok_def)
qed

lemma sample_simfile_ok: "simfile_ok (\<lambda>s. Some (False, 10 ^ 9)) sample_simfile"
proof -
  have sorted: "name_sorted [sample_test ''t0'', sample_test ''t1ocen'']" "name_sorted [sample_test ''t1a'', sample_test ''t1b'']"
    "map group_num [sample_test ''t0'', sample_test ''t1ocen'', sample_test ''t1a'', sample_test ''t1b''] = [0, 0, 1, 1]"
    by code_simp+
  have paths: "list_all (\<lambda>p. package_path p = p) [''doc/x.pdf'', ''check/c.cpp'', ''prog/s.cpp'']" by code_simp
  have names: "t_name (sample_test n) = n" for n by (simp add: sample_test_def)
  show ?thesis
    using sorted paths sample_test_ok
    by (simp add: simfile_ok_def sample_simfile_def tgroups_ok_def tgroup_ok_def nul_free_def memory_ok_def
        fits_def i64_min_def i64_max_def names)
qed




end
