(* ===== verification/Judge_Worker.thy ===== *)
theory Judge_Worker
  imports Simfile
begin

text \<open>
  Judging a solution (simlib src/sim/judge_worker.cc and src/sim/judge/): the report of the checker,
  the verdict on one test from the results of the sandbox, and \<open>JudgeWorker::process_tests\<close>, which
  judges the groups of a package, skips tests that cannot change the score when a partial report is
  wanted, and judges the skipped ones afterwards. The sandbox is an argument: the results of its runs
  are given by a function of the number of the run. Scores of tests are doubles; here they are of any
  linear order, and \<open>judge_env\<close> holds the arithmetic that the code does with them.
\<close>

section \<open>Reports\<close>

datatype test_status = OK | WA | TLE | MLE | OLE | RTE | CHECKER_ERROR | SKIPPED

record test_report =
  r_name :: string
  r_status :: test_status
  r_runtime :: int
  r_time_limit :: int
  r_memory_consumed :: int
  r_memory_limit :: int
  r_comment :: string

record group_report =
  gr_tests :: "test_report list"
  gr_score :: int
  gr_max_score :: int

datatype run_status =
    TimeLimitExceeded | MemoryLimitExceeded | OutputSizeLimitExceeded | RuntimeError
  | CheckerError | WrongAnswer | Run_OK

text \<open>
  \<open>TestReport\<close>: times are in nanoseconds; the checker's are its runtime, its CPU time and its peak memory.
\<close>

record 'd test_run =
  tr_status :: run_status
  tr_comment :: string
  tr_score :: 'd
  tr_runtime :: int
  tr_cpu_time :: int
  tr_peak_memory :: int
  tr_checker :: "(int \<times> int \<times> int) option"

text \<open>The calls that the judge logger gets; the log of a report is the text that it made of them.\<close>

datatype 'd log_event =
    Log_begin bool
  | Log_test string test_report "'d test_run"
  | Log_group_score int int 'd
  | Log_final_score int int
  | Log_end

record 'd judge_report =
  rep_groups :: "group_report list"
  rep_judge_log :: "'d log_event list"

fun description :: "test_status \<Rightarrow> string" where
  "description OK = ''OK''"
| "description WA = ''Wrong answer''"
| "description TLE = ''Time limit exceeded''"
| "description MLE = ''Memory limit exceeded''"
| "description OLE = ''Output size limit exceeded''"
| "description RTE = ''Runtime error''"
| "description CHECKER_ERROR = ''Checker error''"
| "description SKIPPED = ''Skipped''"

section \<open>The report of the checker\<close>

datatype checker_status = Checker_error | Checker_wrong | Checker_OK

text \<open>\<open>SimpleParser::extract_next\<close>: a line and the rest after its newline.\<close>

definition extract_line :: "string \<Rightarrow> string \<times> string" where
  "extract_line s =
     (let l = takeWhile (\<lambda>c. c \<noteq> LF) s in (l, drop (length l + 1) s))"

text \<open>
  \<open>percent\<close> stands for \<open>str2num<double>(line2, 0, 100)\<close> scaled by 0.01, \<open>zero\<close> and \<open>one\<close> for the doubles
  0 and 1.
\<close>

definition get_checker_output_report ::
  "(string \<Rightarrow> 'd option) \<Rightarrow> 'd \<Rightarrow> 'd \<Rightarrow> string \<Rightarrow> nat \<Rightarrow> checker_status \<times> string \<times> 'd" where
  "get_checker_output_report percent zero one output max_comment_len =
     (let checker_output = take (max_comment_len + 32) output;
          (line1, rest1) = extract_line checker_output
      in if line1 \<noteq> ''OK'' \<and> line1 \<noteq> ''WRONG''
         then (Checker_error, ''Checker error: invalid first line (expected '' @ [CHR 0x22] @ ''OK'' @
           [CHR 0x22] @ '' or '' @ [CHR 0x22] @ ''WRONG'' @ [CHR 0x22] @ '')'', zero)
         else
           (let (line2, rest2) = extract_line rest1;
                comment = take max_comment_len (remove_trailing_space rest2)
            in if line1 = ''OK'' then
                 (if line2 \<noteq> [] then
                    (case percent line2 of
                       None \<Rightarrow> (Checker_error,
                         ''Checker error: invalid second line (expected real number in range '' @
                         ''[0, 100] or empty line)'', zero)
                     | Some score \<Rightarrow> (Checker_OK, comment, score))
                  else (Checker_OK, comment, one))
               else (Checker_wrong, comment, zero)))"

section \<open>The verdict on a test\<close>

text \<open>
  The result of a process in the sandbox: its times, its peak memory, whether it exited with status
  0, and the description of how it ended.
\<close>

record run_result =
  rr_runtime :: int
  rr_cpu_time :: int
  rr_peak_memory :: int
  rr_exited_0 :: bool
  rr_description :: string

record run_limits =
  rl_time_limit :: int
  rl_cpu_time_limit :: int
  rl_memory_limit :: int

definition time_exceeded :: "run_result \<Rightarrow> run_limits \<Rightarrow> bool" where
  "time_exceeded r l \<longleftrightarrow> rr_runtime r > rl_time_limit l \<or> rr_cpu_time r > rl_cpu_time_limit l"

definition memory_exceeded :: "run_result \<Rightarrow> run_limits \<Rightarrow> bool" where
  "memory_exceeded r l \<longleftrightarrow> rr_peak_memory r > rl_memory_limit l"

definition checker_usage :: "run_result \<Rightarrow> int \<times> int \<times> int" where
  "checker_usage r = (rr_runtime r, rr_cpu_time r, rr_peak_memory r)"

text \<open>
  \<open>test_on_test\<close>, from the results of the two processes: the program first, then the checker, which
  runs only when the program kept its limits, and last the report of the checker.
\<close>

definition test_on_test ::
  "'d \<Rightarrow> run_limits \<Rightarrow> run_limits \<Rightarrow> run_result \<Rightarrow> bool \<Rightarrow> run_result \<Rightarrow> checker_status \<times> string \<times> 'd
    \<Rightarrow> 'd test_run" where
  "test_on_test zero program checker prog_res output_exceeded checker_res checker_output =
     (let report_of = (\<lambda>check st comment score.
            \<lparr> tr_status = st, tr_comment = comment, tr_score = score, tr_runtime = rr_runtime prog_res,
              tr_cpu_time = rr_cpu_time prog_res, tr_peak_memory = rr_peak_memory prog_res,
              tr_checker = check \<rparr>);
          report = report_of None;
          checked = report_of (Some (checker_usage checker_res))
      in if time_exceeded prog_res program then report TimeLimitExceeded [] zero
         else if memory_exceeded prog_res program then report MemoryLimitExceeded [] zero
         else if output_exceeded then report OutputSizeLimitExceeded [] zero
         else if \<not> rr_exited_0 prog_res
         then report RuntimeError (''Runtime error: '' @ rr_description prog_res) zero
         else if time_exceeded checker_res checker
         then checked CheckerError ''Checker error: time limit exceeded'' zero
         else if memory_exceeded checker_res checker
         then checked CheckerError ''Checker error: memory limit exceeded'' zero
         else if \<not> rr_exited_0 checker_res
         then checked CheckerError (''Checker runtime error: '' @ rr_description checker_res) zero
         else
           (case checker_output of (st, comment, score) \<Rightarrow>
              checked (case st of Checker_error \<Rightarrow> CheckerError | Checker_wrong \<Rightarrow> WrongAnswer
                | Checker_OK \<Rightarrow> Run_OK) comment score))"

text \<open>
  \<open>test_on_interactive_test\<close>: the checker is judged first; the result of the program counts when the
  checker accepts or when the program closed its pipe first.
\<close>

definition test_on_interactive_test ::
  "'d \<Rightarrow> run_limits \<Rightarrow> run_limits \<Rightarrow> run_result \<Rightarrow> run_result \<Rightarrow> bool \<Rightarrow> run_result
    \<Rightarrow> checker_status \<times> string \<times> 'd \<Rightarrow> 'd test_run" where
  "test_on_interactive_test zero program checker prog_res killed_prog_res program_res_is_more_important
     checker_res checker_output =
     (let report = (\<lambda>r st comment score.
            \<lparr> tr_status = st, tr_comment = comment, tr_score = score, tr_runtime = rr_runtime r,
              tr_cpu_time = rr_cpu_time r, tr_peak_memory = rr_peak_memory r,
              tr_checker = Some (checker_usage checker_res) \<rparr>);
          kill = report killed_prog_res
      in if time_exceeded checker_res checker
         then kill CheckerError ''Checker error: time limit exceeded'' zero
         else if memory_exceeded checker_res checker
         then kill CheckerError ''Checker error: memory limit exceeded'' zero
         else if \<not> rr_exited_0 checker_res
         then kill CheckerError (''Checker runtime error: '' @ rr_description checker_res) zero
         else
           (case checker_output of (st, comment, score) \<Rightarrow>
              if st = Checker_error then kill CheckerError comment zero
              else if st = Checker_wrong \<and> \<not> program_res_is_more_important
              then kill WrongAnswer comment zero
              else if st = Checker_OK \<and> \<not> program_res_is_more_important
              then kill Run_OK comment score
              else if time_exceeded prog_res program then report prog_res TimeLimitExceeded [] zero
              else if memory_exceeded prog_res program then report prog_res MemoryLimitExceeded [] zero
              else if \<not> rr_exited_0 prog_res
              then report prog_res RuntimeError (''Runtime error: '' @ rr_description prog_res) zero
              else report prog_res (if st = Checker_OK then Run_OK else WrongAnswer) comment score))"

section \<open>The package and its limits\<close>

text \<open>
  \<open>load_package\<close>, from the contents of the Simfile in the package: the tests with their files and the
  checker. \<open>cpu_time_limit_to_real_time_limit\<close> and the limits that a run on a test gets.
\<close>

definition load_package :: "seconds \<Rightarrow> string \<Rightarrow> simfile res" where
  "load_package stod contents =
     (case simfile_config contents of
        Inl e \<Rightarrow> Inl (Throw ''parse error'')
      | Inr config \<Rightarrow>
          bind_res (load_tests_with_files stod config
            \<lparr> sf_name = None, sf_label = None, sf_statement = None, sf_interactive = False, sf_checker = None,
              sf_solutions = [], sf_global_mem_limit = None, sf_tgroups = [] \<rparr>) (\<lambda>sf.
          load_checker config sf))"

definition cpu_time_limit_to_real_time_limit :: "int \<Rightarrow> int" where
  "cpu_time_limit_to_real_time_limit cpu_tl = cpu_tl * 3 div 2 + 500000000"

definition run_limits_of :: "int \<Rightarrow> int \<Rightarrow> run_limits" where
  "run_limits_of time_limit memory_limit =
     \<lparr> rl_time_limit = cpu_time_limit_to_real_time_limit time_limit,
       rl_cpu_time_limit = time_limit, rl_memory_limit = memory_limit \<rparr>"

section \<open>Judging the groups\<close>

text \<open>
  The arithmetic on doubles and the sandbox of the judge worker: \<open>je_scaled s r\<close> is
  \<open>static_cast<int64_t>(round(s * r))\<close>, \<open>je_tiny r\<close> is \<open>r < 1e-6\<close>, \<open>je_scaling\<close> is
  \<open>score_cut_lambda < 1\<close>, \<open>je_cut x t\<close> is \<open>(x / t - 1) / (score_cut_lambda - 1)\<close>, and \<open>je_run n t\<close> is the
  result of the n-th run, which is on the test \<open>t\<close>.
\<close>

record 'd judge_env =
  je_zero :: 'd
  je_one :: 'd
  je_scaled :: "int \<Rightarrow> 'd \<Rightarrow> int"
  je_tiny :: "'d \<Rightarrow> bool"
  je_scaling :: bool
  je_cut :: "int \<Rightarrow> int \<Rightarrow> 'd"
  je_run :: "nat \<Rightarrow> test \<Rightarrow> 'd test_run res"

text \<open>What a judging has done so far: the number of its runs and its log.\<close>

type_synonym 'd judge_state = "nat \<times> 'd log_event list"

fun judge_status :: "run_status \<Rightarrow> test_status" where
  "judge_status TimeLimitExceeded = TLE"
| "judge_status MemoryLimitExceeded = MLE"
| "judge_status OutputSizeLimitExceeded = OLE"
| "judge_status RuntimeError = RTE"
| "judge_status CheckerError = CHECKER_ERROR"
| "judge_status WrongAnswer = WA"
| "judge_status Run_OK = OK"

definition judged_test :: "test \<Rightarrow> 'd test_run \<Rightarrow> test_report" where
  "judged_test t tr =
     \<lparr> r_name = t_name t, r_status = judge_status (tr_status tr),
       r_runtime = (if tr_status tr = TimeLimitExceeded \<and> tr_cpu_time tr < t_time_limit t
                    then t_time_limit t else tr_cpu_time tr),
       r_time_limit = t_time_limit t, r_memory_consumed = tr_peak_memory tr,
       r_memory_limit = t_memory_limit t, r_comment = tr_comment tr \<rparr>"

definition judge_on_test ::
  "'d::linorder judge_env \<Rightarrow> test \<Rightarrow> 'd \<Rightarrow> 'd judge_state \<Rightarrow> (test_report \<times> 'd \<times> 'd judge_state) res" where
  "judge_on_test env t ratio st =
     bind_res (je_run env (fst st) t) (\<lambda>tr.
       let r = judged_test t tr
       in Inr (r, min ratio (tr_score tr), fst st + 1, snd st @ [Log_test (t_name t) r tr]))"

definition skipped_test :: "test \<Rightarrow> test_report" where
  "skipped_test t =
     \<lparr> r_name = t_name t, r_status = SKIPPED, r_runtime = 0, r_time_limit = t_time_limit t,
       r_memory_consumed = 0, r_memory_limit = t_memory_limit t, r_comment = [] \<rparr>"

text \<open>The ratio of a group after a test: cut when the solution was slow, never negative.\<close>

definition cut_ratio :: "'d::linorder judge_env \<Rightarrow> test_report \<Rightarrow> 'd \<Rightarrow> 'd" where
  "cut_ratio env r ratio =
     (if je_scaling env
      then (let x = min ratio (je_cut env (r_runtime r) (r_time_limit r))
            in if x < je_zero env then je_zero env else x)
      else ratio)"

fun first_round_tests ::
  "'d::linorder judge_env \<Rightarrow> bool \<Rightarrow> int \<Rightarrow> bool \<Rightarrow> 'd \<Rightarrow> test list \<Rightarrow> 'd judge_state
    \<Rightarrow> (test_report list \<times> 'd \<times> bool \<times> 'd judge_state) res" where
  "first_round_tests env partial score skip_tests ratio [] st = Inr ([], ratio, False, st)"
| "first_round_tests env partial score skip_tests ratio (t # ts) st =
     (if skip_tests then
        bind_res (first_round_tests env partial score skip_tests ratio ts st) (\<lambda>(rs, ratio', _, st').
          Inr (skipped_test t # rs, ratio', True, st'))
      else
        bind_res (judge_on_test env t ratio st) (\<lambda>(r, ratio1, st1).
          let ratio2 = cut_ratio env r ratio1;
              skip = (je_tiny env ratio2 \<and> je_scaled env score ratio2 = 0 \<and> partial)
          in bind_res (first_round_tests env partial score skip ratio2 ts st1) (\<lambda>(rs, ratio', skipped, st').
               Inr (r # rs, ratio', skipped, st'))))"

definition first_round_group ::
  "'d::linorder judge_env \<Rightarrow> bool \<Rightarrow> test_group \<Rightarrow> 'd judge_state \<Rightarrow> (group_report \<times> bool \<times> 'd judge_state) res" where
  "first_round_group env partial g st =
     bind_res (first_round_tests env partial (tg_score g) False (je_one env) (tg_tests g) st)
       (\<lambda>(rs, ratio, skipped, st').
         let score = je_scaled env (tg_score g) ratio
         in Inr (\<lparr> gr_tests = rs, gr_score = score, gr_max_score = tg_score g \<rparr>, skipped,
                 fst st', snd st' @ [Log_group_score score (tg_score g) ratio]))"

text \<open>Group 0 is for the initial report, the other groups for the final one.\<close>

definition in_report :: "bool \<Rightarrow> test_group \<Rightarrow> bool" where
  "in_report final g \<longleftrightarrow> (fst (split_name (t_name (hd (tg_tests g)))) \<noteq> ''0'') = final"

fun first_round ::
  "'d::linorder judge_env \<Rightarrow> bool \<Rightarrow> bool \<Rightarrow> test_group list \<Rightarrow> 'd judge_state
    \<Rightarrow> (group_report list \<times> bool \<times> 'd judge_state) res" where
  "first_round env partial final [] st = Inr ([], False, st)"
| "first_round env partial final (g # gs) st =
     (if \<not> in_report final g then first_round env partial final gs st
      else
        bind_res (first_round_group env partial g st) (\<lambda>(r, skipped, st1).
        bind_res (first_round env partial final gs st1) (\<lambda>(rs, skipped', st2).
          Inr (r # rs, skipped \<or> skipped', st2))))"

text \<open>The totals are unsigned 64-bit numbers, which the logger takes as signed ones.\<close>

definition total_score :: "group_report list \<Rightarrow> int" where
  "total_score rs = foldl (\<lambda>s r. (s + gr_score r) mod 2 ^ 64) 0 rs"

definition total_max_score :: "group_report list \<Rightarrow> int" where
  "total_max_score rs =
     foldl (\<lambda>s r. if gr_max_score r > 0 then (s + gr_max_score r) mod 2 ^ 64 else s) 0 rs"

definition to_int64 :: "int \<Rightarrow> int" where
  "to_int64 x = (x + 2 ^ 63) mod 2 ^ 64 - 2 ^ 63"

fun second_round_tests ::
  "'d::linorder judge_env \<Rightarrow> 'd \<Rightarrow> test list \<Rightarrow> test_report list \<Rightarrow> 'd judge_state
    \<Rightarrow> (test_report list \<times> 'd judge_state) res" where
  "second_round_tests env ratio (t # ts) (r # rs) st =
     (if r_status r = SKIPPED then
        bind_res (judge_on_test env t ratio st) (\<lambda>(r', ratio', st1).
        bind_res (second_round_tests env ratio' ts rs st1) (\<lambda>(rs', st2). Inr (r' # rs', st2)))
      else bind_res (second_round_tests env ratio ts rs st) (\<lambda>(rs', st2). Inr (r # rs', st2)))"
| "second_round_tests env ratio ts rs st = Inr (rs, st)"

fun second_round ::
  "'d::linorder judge_env \<Rightarrow> bool \<Rightarrow> test_group list \<Rightarrow> group_report list \<Rightarrow> 'd judge_state
    \<Rightarrow> (group_report list \<times> 'd judge_state) res" where
  "second_round env final (g # gs) rs st =
     (if \<not> in_report final g then second_round env final gs rs st
      else
        (case rs of
           [] \<Rightarrow> Inr ([], st)
         | r # rs' \<Rightarrow>
             bind_res (second_round_tests env (je_zero env) (tg_tests g) (gr_tests r) st)
               (\<lambda>(ts, st1).
             bind_res (second_round env final gs rs' st1) (\<lambda>(rs'', st2).
               Inr (r\<lparr>gr_tests := ts\<rparr> # rs'', st2)))))"
| "second_round env final [] rs st = Inr (rs, st)"

text \<open>
  \<open>process_tests\<close> gives the report and, when tests were skipped, the partial report that the
  callback got. The callback changes the state of the caller, \<open>'s\<close>; its exception ends the judging.
\<close>

type_synonym ('d, 's) callback = "'d judge_report \<Rightarrow> 's \<Rightarrow> 's \<times> exn option"

definition process_tests ::
  "'d::linorder judge_env \<Rightarrow> ('d, 's) callback option \<Rightarrow> test_group list \<Rightarrow> bool \<Rightarrow> 's
    \<Rightarrow> 's \<times> ('d judge_report \<times> 'd judge_report option) res" where
  "process_tests env partial_report_callback tgroups final s =
     (case first_round env (partial_report_callback \<noteq> None) final tgroups (0, [Log_begin final]) of
        Inl e \<Rightarrow> (s, Inl e)
      | Inr (rs, skipped, n, l) \<Rightarrow>
          let l1 = l @ [Log_final_score (to_int64 (total_score rs)) (to_int64 (total_max_score rs))];
              partial = \<lparr> rep_groups = rs, rep_judge_log = l1 \<rparr>
          in if skipped then
               (case partial_report_callback of
                  None \<Rightarrow> (s, Inl Bad_optional_access)
                | Some callback \<Rightarrow>
                    (case callback partial s of
                       (s', Some e) \<Rightarrow> (s', Inl e)
                     | (s', None) \<Rightarrow>
                         (s', bind_res (second_round env final tgroups rs (n, l1)) (\<lambda>(rs', _, l2).
                            Inr (\<lparr> rep_groups = rs', rep_judge_log = l2 @ [Log_end] \<rparr>, Some partial)))))
             else (s, Inr (\<lparr> rep_groups = rs, rep_judge_log = l1 @ [Log_end] \<rparr>, None)))"

definition judge ::
  "'d::linorder judge_env \<Rightarrow> simfile \<Rightarrow> bool \<Rightarrow> ('d, 's) callback option \<Rightarrow> 's
    \<Rightarrow> 's \<times> ('d judge_report \<times> 'd judge_report option) res" where
  "judge env sf final partial_report_callback s =
     process_tests env partial_report_callback (sf_tgroups sf) final s"

section \<open>What a report holds\<close>

text \<open>\<open>filled p r\<close>: the test report \<open>p\<close> of the partial report became \<open>r\<close> in the report.\<close>

definition filled :: "test_report \<Rightarrow> test_report \<Rightarrow> bool" where
  "filled p r \<longleftrightarrow> p = r \<and> r_status r \<noteq> SKIPPED
     \<or> r_status p = SKIPPED \<and> r_status r \<noteq> SKIPPED \<and> r_name p = r_name r
       \<and> r_time_limit p = r_time_limit r \<and> r_memory_limit p = r_memory_limit r"

definition group_filled :: "group_report \<Rightarrow> group_report \<Rightarrow> bool" where
  "group_filled p g \<longleftrightarrow> gr_score p = gr_score g \<and> gr_max_score p = gr_max_score g
     \<and> list_all2 filled (gr_tests p) (gr_tests g)"

text \<open>\<open>reports_test t r\<close>: \<open>r\<close> is a report on the test \<open>t\<close>, judged or skipped.\<close>

definition reports_test :: "test \<Rightarrow> test_report \<Rightarrow> bool" where
  "reports_test t r \<longleftrightarrow> r_name r = t_name t \<and> r_time_limit r = t_time_limit t
     \<and> r_memory_limit r = t_memory_limit t"

definition reports_group :: "test_group \<Rightarrow> group_report \<Rightarrow> bool" where
  "reports_group g r \<longleftrightarrow> gr_max_score r = tg_score g \<and> list_all2 reports_test (tg_tests g) (gr_tests r)"

lemma judge_status_not_skipped [simp]: "judge_status s \<noteq> SKIPPED"
  by (cases s) auto

lemma judged_test_simps [simp]:
  "r_status (judged_test t tr) \<noteq> SKIPPED"
  "reports_test t (judged_test t tr)"
  by (simp_all add: judged_test_def reports_test_def)

lemma skipped_test_simps [simp]:
  "r_status (skipped_test t) = SKIPPED"
  "reports_test t (skipped_test t)"
  by (simp_all add: skipped_test_def reports_test_def)

lemma judge_on_test_Inr:
  "judge_on_test env t ratio st = Inr (r, ratio', st') \<longleftrightarrow>
     (\<exists>tr. je_run env (fst st) t = Inr tr \<and> r = judged_test t tr \<and> ratio' = min ratio (tr_score tr)
       \<and> st' = (fst st + 1, snd st @ [Log_test (t_name t) (judged_test t tr) tr]))"
  by (auto simp: judge_on_test_def bind_res_eq_Inr Let_def)

lemma first_round_tests_reports:
  assumes "first_round_tests env partial score skip ratio ts st = Inr (rs, ratio', skipped, st')"
  shows "list_all2 reports_test ts rs \<and> (skipped \<longleftrightarrow> (\<exists>r \<in> set rs. r_status r = SKIPPED))
    \<and> (skipped \<and> \<not> skip \<longrightarrow> partial)"
  using assms
proof (induction ts arbitrary: skip ratio st rs ratio' skipped st')
  case (Cons t ts)
  show ?case
  proof (cases skip)
    case True
    with Cons.prems obtain rs' b where
      rest: "first_round_tests env partial score True ratio ts st = Inr (rs', ratio', b, st')"
      and "rs = skipped_test t # rs'" "skipped"
      by (auto simp: bind_res_eq_Inr)
    then show ?thesis
      using Cons.IH[OF rest] True by simp
  next
    case False
    with Cons.prems obtain r1 ratio1 st1 skip' rs' where
      run: "judge_on_test env t ratio st = Inr (r1, ratio1, st1)"
      and skip': "skip' = (je_tiny env (cut_ratio env r1 ratio1) \<and>
        je_scaled env score (cut_ratio env r1 ratio1) = 0 \<and> partial)"
      and rest: "first_round_tests env partial score skip' (cut_ratio env r1 ratio1) ts st1 = Inr (rs', ratio', skipped, st')"
      and rs: "rs = r1 # rs'"
      by (auto simp: bind_res_eq_Inr Let_def split: prod.splits)
    show ?thesis
      using Cons.IH[OF rest] run skip' by (auto simp: rs judge_on_test_Inr)
  qed
qed auto

lemma first_round_Cons_Inr:
  assumes "first_round env partial final (g # gs) st = Inr (rs, skipped, st')" and "in_report final g"
  shows "\<exists>ts ratio b1 st2 st1 rs' b2.
    first_round_tests env partial (tg_score g) False (je_one env) (tg_tests g) st = Inr (ts, ratio, b1, st2)
    \<and> first_round env partial final gs st1 = Inr (rs', b2, st')
    \<and> rs = \<lparr> gr_tests = ts, gr_score = je_scaled env (tg_score g) ratio, gr_max_score = tg_score g \<rparr> # rs'
    \<and> (skipped \<longleftrightarrow> b1 \<or> b2)"
proof -
  from assms obtain r1 b1 st1 where g: "first_round_group env partial g st = Inr (r1, b1, st1)"
    by (auto simp: bind_res_eq_Inr)
  with assms obtain rs' b2 where rest: "first_round env partial final gs st1 = Inr (rs', b2, st')"
    by (auto simp: bind_res_eq_Inr)
  have "rs = r1 # rs'" and "skipped = (b1 \<or> b2)"
    using assms g rest by simp_all
  moreover from g obtain ts ratio st2 where
    "first_round_tests env partial (tg_score g) False (je_one env) (tg_tests g) st = Inr (ts, ratio, b1, st2)"
    "r1 = \<lparr> gr_tests = ts, gr_score = je_scaled env (tg_score g) ratio, gr_max_score = tg_score g \<rparr>"
    by (auto simp: first_round_group_def bind_res_eq_Inr Let_def)
  ultimately show ?thesis
    using rest by metis
qed

lemma first_round_reports:
  assumes "first_round env partial final gs st = Inr (rs, skipped, st')"
  shows "list_all2 reports_group (filter (in_report final) gs) rs
    \<and> (skipped \<longleftrightarrow> (\<exists>g \<in> set rs. \<exists>r \<in> set (gr_tests g). r_status r = SKIPPED))
    \<and> (skipped \<longrightarrow> partial)"
  using assms
proof (induction gs arbitrary: st rs skipped st')
  case (Cons g gs)
  show ?case
  proof (cases "in_report final g")
    case True
    from first_round_Cons_Inr[OF Cons.prems True] obtain ts ratio b1 st2 st1 rs' b2 where
      "first_round_tests env partial (tg_score g) False (je_one env) (tg_tests g) st = Inr (ts, ratio, b1, st2)"
      and rest: "first_round env partial final gs st1 = Inr (rs', b2, st')"
      and eq: "rs = \<lparr> gr_tests = ts, gr_score = je_scaled env (tg_score g) ratio,
        gr_max_score = tg_score g \<rparr> # rs'" "skipped \<longleftrightarrow> b1 \<or> b2"
      by blast
    with first_round_tests_reports[of env partial "tg_score g" False "je_one env" "tg_tests g" st ts ratio b1 st2]
    have "list_all2 reports_test (tg_tests g) ts" "b1 \<longleftrightarrow> (\<exists>r \<in> set ts. r_status r = SKIPPED)"
      "b1 \<longrightarrow> partial"
      by simp_all
    then show ?thesis
      using Cons.IH[OF rest] True unfolding eq by (auto simp: reports_group_def)
  next
    case False
    with Cons.prems have "first_round env partial final gs st = Inr (rs, skipped, st')"
      by simp
    from Cons.IH[OF this] False show ?thesis
      by simp
  qed
qed auto

lemma second_round_tests_filled:
  assumes "second_round_tests env ratio ts rs st = Inr (rs', st')" and "list_all2 reports_test ts rs"
  shows "list_all2 filled rs rs' \<and> list_all2 reports_test ts rs'"
  using assms
proof (induction env ratio ts rs st arbitrary: rs' st' rule: second_round_tests.induct)
  case (1 env ratio t ts r rs st)
  show ?case
  proof (cases "r_status r = SKIPPED")
    case True
    with "1.prems" obtain r1 ratio1 st1 rs1 where
      run: "judge_on_test env t ratio st = Inr (r1, ratio1, st1)"
      and rest: "second_round_tests env ratio1 ts rs st1 = Inr (rs1, st')" and eq: "rs' = r1 # rs1"
      by (auto simp: bind_res_eq_Inr)
    then show ?thesis
      using "1.IH"(1)[OF True rest] "1.prems"(2) True run
      by (auto simp: judge_on_test_Inr filled_def reports_test_def judged_test_def)
  next
    case False
    then show ?thesis
      using 1 by (auto simp: bind_res_eq_Inr filled_def)
  qed
qed auto

lemma second_round_filled:
  assumes "second_round env final gs rs st = Inr (rs', st')"
    and "list_all2 reports_group (filter (in_report final) gs) rs"
  shows "list_all2 group_filled rs rs' \<and> list_all2 reports_group (filter (in_report final) gs) rs'"
  using assms
proof (induction gs arbitrary: rs st rs' st')
  case (Cons g gs)
  show ?case
  proof (cases "in_report final g")
    case True
    with Cons.prems obtain r rs0 ts st1 rs1 where rs: "rs = r # rs0"
      and ts: "second_round_tests env (je_zero env) (tg_tests g) (gr_tests r) st = Inr (ts, st1)"
      and rest: "second_round env final gs rs0 st1 = Inr (rs1, st')"
      and eq: "rs' = r\<lparr>gr_tests := ts\<rparr> # rs1"
      by (auto simp: bind_res_eq_Inr split: list.splits)
    then show ?thesis
      using Cons.IH[OF rest] Cons.prems(2) True second_round_tests_filled[OF ts]
      by (auto simp: rs reports_group_def group_filled_def)
  qed (use Cons in simp)
qed auto

lemma group_filled_refl:
  assumes "\<forall>g \<in> set rs. \<forall>r \<in> set (gr_tests g). r_status r \<noteq> SKIPPED"
  shows "list_all2 group_filled rs rs"
  using assms
  by (auto simp: list_all2_same group_filled_def filled_def)

lemma process_tests_Inr:
  assumes "process_tests env cb gs final s = (s', Inr (rep, mid))"
  shows "\<exists>rs skipped st l st'. first_round env (cb \<noteq> None) final gs (0, [Log_begin final]) = Inr (rs, skipped, st)
    \<and> (if skipped
       then (\<exists>f p. cb = Some f \<and> mid = Some p \<and> f p s = (s', None) \<and> rep_groups p = rs
         \<and> second_round env final gs rs (fst st, l) = Inr (rep_groups rep, st'))
       else mid = None \<and> s' = s \<and> rep_groups rep = rs)"
proof -
  obtain rs skipped n l0 where
    fr: "first_round env (cb \<noteq> None) final gs (0, [Log_begin final]) = Inr (rs, skipped, n, l0)"
    using assms by (auto simp: process_tests_def split: sum.splits)
  show ?thesis
  proof (cases skipped)
    case True
    with assms fr obtain f where "cb = Some f"
      by (auto simp: process_tests_def Let_def split: option.splits)
    with assms fr True show ?thesis
      by (fastforce simp: process_tests_def Let_def bind_res_eq_Inr split: prod.splits option.splits)
  next
    case False
    with assms fr show ?thesis
      by (simp add: process_tests_def Let_def) (metis judge_report.select_convs(1))
  qed
qed

lemma process_tests_state:
  assumes "process_tests env cb gs final s = (s', Inr (rep, mid))"
  shows "case mid of None \<Rightarrow> s' = s | Some p \<Rightarrow> \<exists>f. cb = Some f \<and> f p s = (s', None)"
  using process_tests_Inr[OF assms] by (auto split: if_splits)

text \<open>The report that the callback got, or else the report itself.\<close>

abbreviation (input) first_report :: "'d judge_report \<Rightarrow> 'd judge_report option \<Rightarrow> 'd judge_report" where
  "first_report rep mid \<equiv> (case mid of None \<Rightarrow> rep | Some p \<Rightarrow> p)"

lemma process_tests_filled:
  assumes "process_tests env cb gs final s = (s', Inr (rep, mid))"
  shows "list_all2 reports_group (filter (in_report final) gs) (rep_groups rep)"
    and "list_all2 group_filled (rep_groups (first_report rep mid)) (rep_groups rep)"
    and "mid = Some p \<Longrightarrow> \<exists>g \<in> set (rep_groups p). \<exists>r \<in> set (gr_tests g). r_status r = SKIPPED"
proof -
  from process_tests_Inr[OF assms] obtain rs skipped st l st' where
    fr: "first_round env (cb \<noteq> None) final gs (0, [Log_begin final]) = Inr (rs, skipped, st)"
    and cases: "if skipped
       then (\<exists>f p. cb = Some f \<and> mid = Some p \<and> f p s = (s', None) \<and> rep_groups p = rs
         \<and> second_round env final gs rs (fst st, l) = Inr (rep_groups rep, st'))
       else mid = None \<and> s' = s \<and> rep_groups rep = rs"
    by blast
  note first = first_round_reports[OF fr]
  have "list_all2 reports_group (filter (in_report final) gs) (rep_groups rep)
    \<and> list_all2 group_filled (rep_groups (first_report rep mid)) (rep_groups rep)
    \<and> (mid = Some p \<longrightarrow> (\<exists>g \<in> set (rep_groups p). \<exists>r \<in> set (gr_tests g). r_status r = SKIPPED))"
  proof (cases skipped)
    case True
    with cases have "second_round env final gs rs (fst st, l) = Inr (rep_groups rep, st')"
      and "\<exists>p. mid = Some p \<and> rep_groups p = rs"
      by auto
    then show ?thesis
      using first True second_round_filled[of env final gs rs "(fst st, l)" "rep_groups rep" st'] by auto
  next
    case False
    with cases have "rep_groups rep = rs" "mid = None"
      by simp_all
    then show ?thesis
      using first False group_filled_refl[of rs] by auto
  qed
  then show "list_all2 reports_group (filter (in_report final) gs) (rep_groups rep)"
    and "list_all2 group_filled (rep_groups (first_report rep mid)) (rep_groups rep)"
    and "mid = Some p \<Longrightarrow> \<exists>g \<in> set (rep_groups p). \<exists>r \<in> set (gr_tests g). r_status r = SKIPPED"
    by blast+
qed

section \<open>Skipping does not change the result\<close>

text \<open>
  What IEEE arithmetic gives of \<open>round(score * ratio)\<close>, for scores that a double holds exactly.
\<close>

definition exact_score :: "int \<Rightarrow> bool" where
  "exact_score s \<longleftrightarrow> - (2 ^ 53) \<le> s \<and> s \<le> 2 ^ 53"

definition double_laws :: "'d::linorder judge_env \<Rightarrow> bool" where
  "double_laws env \<longleftrightarrow> je_zero env \<le> je_one env
     \<and> (\<forall>s. exact_score s \<longrightarrow> je_scaled env s (je_zero env) = 0 \<and> je_scaled env s (je_one env) = s)
     \<and> (\<forall>s a b. exact_score s \<and> je_zero env \<le> a \<and> a \<le> b \<and> b \<le> je_one env \<longrightarrow>
          (if 0 \<le> s then je_scaled env s a \<le> je_scaled env s b
           else je_scaled env s b \<le> je_scaled env s a))"

text \<open>The scores of the checker are not negative (they are in [0, 1]).\<close>

definition scores_ok :: "'d::linorder judge_env \<Rightarrow> bool" where
  "scores_ok env \<longleftrightarrow> (\<forall>n t tr. je_run env n t = Inr tr \<longrightarrow> je_zero env \<le> tr_score tr)"

definition ratio_ok :: "'d::linorder judge_env \<Rightarrow> 'd \<Rightarrow> bool" where
  "ratio_ok env x \<longleftrightarrow> je_zero env \<le> x \<and> x \<le> je_one env"

lemma scaled_between:
  assumes "double_laws env" and "exact_score s" and "ratio_ok env x"
  shows "if 0 \<le> s then 0 \<le> je_scaled env s x \<and> je_scaled env s x \<le> s
         else s \<le> je_scaled env s x \<and> je_scaled env s x \<le> 0"
  using assms unfolding double_laws_def ratio_ok_def
  by (smt (verit, ccfv_threshold) order_refl)

lemma scaled_zero_below:
  assumes "double_laws env" and "exact_score s" and "ratio_ok env b" and "je_scaled env s b = 0"
    and "je_zero env \<le> a" and "a \<le> b"
  shows "je_scaled env s a = 0"
proof -
  have "ratio_ok env a"
    using assms by (auto simp: ratio_ok_def)
  from scaled_between[OF assms(1,2) this] show ?thesis
    using assms unfolding double_laws_def ratio_ok_def by (smt (verit, ccfv_threshold))
qed

lemma cut_ratio_ok:
  assumes "ratio_ok env x" and "je_zero env \<le> y"
  shows "ratio_ok env (cut_ratio env r (min x y)) \<and> cut_ratio env r (min x y) \<le> x"
  using assms by (auto simp: cut_ratio_def ratio_ok_def Let_def min_def not_less)

lemma first_round_tests_ratio:
  assumes "first_round_tests env partial score skip ratio ts st = Inr (rs, ratio', skipped, st')"
    and "scores_ok env" and "ratio_ok env ratio"
  shows "ratio_ok env ratio'"
  using assms
proof (induction ts arbitrary: skip ratio st rs ratio' skipped st')
  case (Cons t ts)
  show ?case
  proof (cases skip)
    case True
    with Cons.prems obtain rs' b where
      "first_round_tests env partial score True ratio ts st = Inr (rs', ratio', b, st')"
      by (auto simp: bind_res_eq_Inr)
    then show ?thesis
      using Cons by blast
  next
    case False
    with Cons.prems(1) obtain tr skip' st1 rs' where
      run: "je_run env (fst st) t = Inr tr"
      and rest: "first_round_tests env partial score skip'
        (cut_ratio env (judged_test t tr) (min ratio (tr_score tr))) ts st1 = Inr (rs', ratio', skipped, st')"
      by (auto simp: bind_res_eq_Inr judge_on_test_Inr Let_def split: prod.splits)
    have "ratio_ok env (cut_ratio env (judged_test t tr) (min ratio (tr_score tr)))"
      using cut_ratio_ok[OF Cons.prems(3)] Cons.prems(2) run by (auto simp: scores_ok_def)
    then show ?thesis
      using Cons.IH[OF rest Cons.prems(2)] by blast
  qed
qed auto

lemma first_round_score_bounds:
  assumes "first_round env partial final gs st = Inr (rs, skipped, st')"
    and "double_laws env" and "scores_ok env" and "\<forall>g \<in> set gs. exact_score (tg_score g)"
  shows "\<forall>g \<in> set rs. if 0 \<le> gr_max_score g then 0 \<le> gr_score g \<and> gr_score g \<le> gr_max_score g
    else gr_max_score g \<le> gr_score g \<and> gr_score g \<le> 0"
  using assms
proof (induction gs arbitrary: st rs skipped st')
  case (Cons g gs)
  show ?case
  proof (cases "in_report final g")
    case True
    from first_round_Cons_Inr[OF Cons.prems(1) True] obtain ts ratio b1 st2 st1 rs' b2 where
      tests: "first_round_tests env partial (tg_score g) False (je_one env) (tg_tests g) st = Inr (ts, ratio, b1, st2)"
      and rest: "first_round env partial final gs st1 = Inr (rs', b2, st')"
      and eq: "rs = \<lparr> gr_tests = ts, gr_score = je_scaled env (tg_score g) ratio,
        gr_max_score = tg_score g \<rparr> # rs'" "skipped \<longleftrightarrow> b1 \<or> b2"
      by blast
    have "ratio_ok env ratio"
      using first_round_tests_ratio[OF tests Cons.prems(3)] Cons.prems(2)
      by (simp add: double_laws_def ratio_ok_def)
    then show ?thesis
      using scaled_between[of env "tg_score g" ratio] Cons.IH[OF rest] Cons.prems by (simp add: eq)
  qed (use Cons in simp)
qed auto

text \<open>The reference: every test judged in order, \<open>run\<close> giving the result of the sandbox on a test.\<close>

definition full_ratio :: "'d::linorder judge_env \<Rightarrow> (test \<Rightarrow> 'd test_run) \<Rightarrow> 'd \<Rightarrow> test list \<Rightarrow> 'd" where
  "full_ratio env run =
     foldl (\<lambda>x t. cut_ratio env (judged_test t (run t)) (min x (tr_score (run t))))"

definition full_group :: "'d::linorder judge_env \<Rightarrow> (test \<Rightarrow> 'd test_run) \<Rightarrow> test_group \<Rightarrow> group_report" where
  "full_group env run g =
     \<lparr> gr_tests = map (\<lambda>t. judged_test t (run t)) (tg_tests g),
       gr_score = je_scaled env (tg_score g) (full_ratio env run (je_one env) (tg_tests g)),
       gr_max_score = tg_score g \<rparr>"

lemma full_ratio_ok:
  assumes "ratio_ok env x" and "\<forall>t. je_zero env \<le> tr_score (run t)"
  shows "ratio_ok env (full_ratio env run x ts) \<and> full_ratio env run x ts \<le> x"
  using assms
proof (induction ts arbitrary: x)
  case (Cons t ts)
  then show ?case
    using cut_ratio_ok[of env x "tr_score (run t)" "judged_test t (run t)"]
    by (fastforce simp: full_ratio_def)
qed (simp add: full_ratio_def)

text \<open>\<open>half_judged\<close>: some reports of the tests are skipped ones.\<close>

definition half_judged :: "(test \<Rightarrow> 'd test_run) \<Rightarrow> test \<Rightarrow> test_report \<Rightarrow> bool" where
  "half_judged run t r \<longleftrightarrow> r = judged_test t (run t) \<or> r = skipped_test t"

lemma half_judged_simps [simp]:
  "half_judged run t (judged_test t (run t))"
  "half_judged run t (skipped_test t)"
  by (simp_all add: half_judged_def)

lemma first_round_tests_skipping:
  assumes "\<forall>n t. je_run env n t = Inr (run t)"
  shows "\<exists>st'. first_round_tests env partial score True ratio ts st = Inr (map skipped_test ts, ratio, ts \<noteq> [], st')"
proof (induction ts)
  case (Cons t ts)
  then show ?case by auto
qed simp

lemma first_round_tests_full:
  assumes run: "\<forall>n t. je_run env n t = Inr (run t)" and nonneg: "\<forall>t. je_zero env \<le> tr_score (run t)"
    and laws: "double_laws env" and "exact_score score" and "ratio_ok env ratio"
  shows "\<exists>rs ratio' skipped st'. first_round_tests env partial score False ratio ts st = Inr (rs, ratio', skipped, st')
    \<and> list_all2 (half_judged run) ts rs
    \<and> je_scaled env score ratio' = je_scaled env score (full_ratio env run ratio ts)"
  using assms(5)
proof (induction ts arbitrary: ratio st)
  case (Cons t ts)
  define y where "y = cut_ratio env (judged_test t (run t)) (min ratio (tr_score (run t)))"
  define st1 where "st1 = (fst st + 1, snd st @ [Log_test (t_name t) (judged_test t (run t)) (run t)])"
  have y: "ratio_ok env y" and full: "full_ratio env run ratio (t # ts) = full_ratio env run y ts"
    using cut_ratio_ok[OF Cons.prems] nonneg by (auto simp: y_def full_ratio_def)
  have judged: "judge_on_test env t ratio st = Inr (judged_test t (run t), min ratio (tr_score (run t)), st1)"
    using run by (simp add: judge_on_test_def st1_def Let_def)
  show ?case
  proof (cases "je_tiny env y \<and> je_scaled env score y = 0 \<and> partial")
    case True
    have "je_scaled env score (full_ratio env run y ts) = 0"
      using scaled_zero_below[OF laws assms(4) y] True full_ratio_ok[OF y nonneg, of ts]
      by (simp add: ratio_ok_def)
    moreover have "list_all2 (half_judged run) ts (map skipped_test ts)"
      by (simp add: list_all2_conv_all_nth)
    ultimately show ?thesis
      using True first_round_tests_skipping[OF run, of partial score y ts st1] full judged
      by (auto simp: y_def[symmetric])
  next
    case False
    then show ?thesis
      using Cons.IH[OF y, of st1] full judged
      by (auto simp: y_def[symmetric])
  qed
qed (auto simp: full_ratio_def)

lemma second_round_tests_full:
  assumes "\<forall>n t. je_run env n t = Inr (run t)" and "list_all2 (half_judged run) ts rs"
  shows "\<exists>st'. second_round_tests env ratio ts rs st = Inr (map (\<lambda>t. judged_test t (run t)) ts, st')"
  using assms(2)
proof (induction ts rs arbitrary: ratio st rule: list_all2_induct)
  case (Cons t ts r rs)
  show ?case
  proof (cases "r_status r = SKIPPED")
    case True
    define st1 where "st1 = (fst st + 1, snd st @ [Log_test (t_name t) (judged_test t (run t)) (run t)])"
    have "judge_on_test env t ratio st = Inr (judged_test t (run t), min ratio (tr_score (run t)), st1)"
      using assms(1) by (simp add: judge_on_test_def st1_def Let_def)
    then show ?thesis
      using Cons.IH[of "min ratio (tr_score (run t))" st1] True by auto
  next
    case False
    then show ?thesis
      using Cons.IH[of ratio st] Cons.hyps by (auto simp: half_judged_def)
  qed
qed simp

definition half_group :: "'d::linorder judge_env \<Rightarrow> (test \<Rightarrow> 'd test_run) \<Rightarrow> test_group \<Rightarrow> group_report \<Rightarrow> bool" where
  "half_group env run g r \<longleftrightarrow> gr_score r = gr_score (full_group env run g) \<and> gr_max_score r = tg_score g
     \<and> list_all2 (half_judged run) (tg_tests g) (gr_tests r)"

lemma first_round_full:
  assumes run: "\<forall>n t. je_run env n t = Inr (run t)" and nonneg: "\<forall>t. je_zero env \<le> tr_score (run t)"
    and laws: "double_laws env" and "\<forall>g \<in> set gs. exact_score (tg_score g)"
  shows "\<exists>rs skipped st'. first_round env partial final gs st = Inr (rs, skipped, st')
    \<and> list_all2 (half_group env run) (filter (in_report final) gs) rs"
  using assms(4)
proof (induction gs arbitrary: st)
  case (Cons g gs)
  show ?case
  proof (cases "in_report final g")
    case True
    have "ratio_ok env (je_one env)"
      using laws by (simp add: double_laws_def ratio_ok_def)
    then obtain ts ratio b st1 where
      tests: "first_round_tests env partial (tg_score g) False (je_one env) (tg_tests g) st = Inr (ts, ratio, b, st1)"
      and half: "list_all2 (half_judged run) (tg_tests g) ts"
      and score: "je_scaled env (tg_score g) ratio =
        je_scaled env (tg_score g) (full_ratio env run (je_one env) (tg_tests g))"
      using first_round_tests_full[OF run nonneg laws, of "tg_score g" "je_one env" partial "tg_tests g" st] Cons.prems
      by auto
    define r where "r = \<lparr> gr_tests = ts, gr_score = je_scaled env (tg_score g) ratio, gr_max_score = tg_score g \<rparr>"
    define st2 where "st2 = (fst st1, snd st1 @ [Log_group_score (gr_score r) (tg_score g) ratio])"
    have "first_round_group env partial g st = Inr (r, b, st2)"
      using tests by (simp add: first_round_group_def Let_def r_def st2_def)
    moreover have "half_group env run g r"
      using half score by (simp add: half_group_def full_group_def r_def)
    moreover obtain rs skipped st' where "first_round env partial final gs st2 = Inr (rs, skipped, st')"
      and "list_all2 (half_group env run) (filter (in_report final) gs) rs"
      using Cons.IH[of st2] Cons.prems by auto
    ultimately show ?thesis
      using True by simp
  qed (use Cons in simp)
qed auto

lemma second_round_full:
  assumes run: "\<forall>n t. je_run env n t = Inr (run t)"
    and "list_all2 (half_group env run) (filter (in_report final) gs) rs"
  shows "\<exists>st'. second_round env final gs rs st = Inr (map (full_group env run) (filter (in_report final) gs), st')"
  using assms(2)
proof (induction gs arbitrary: rs st)
  case (Cons g gs)
  show ?case
  proof (cases "in_report final g")
    case True
    with Cons.prems obtain r rs0 where rs: "rs = r # rs0" "half_group env run g r"
      and rest: "list_all2 (half_group env run) (filter (in_report final) gs) rs0"
      by (auto simp: list_all2_Cons1)
    then obtain st1 where
      "second_round_tests env (je_zero env) (tg_tests g) (gr_tests r) st =
        Inr (map (\<lambda>t. judged_test t (run t)) (tg_tests g), st1)"
      using second_round_tests_full[OF run, of "tg_tests g" "gr_tests r" "je_zero env" st]
      by (auto simp: half_group_def)
    moreover have "r\<lparr>gr_tests := map (\<lambda>t. judged_test t (run t)) (tg_tests g)\<rparr> = full_group env run g"
      using rs(2) by (cases r) (simp add: half_group_def full_group_def)
    ultimately show ?thesis
      using Cons.IH[OF rest, of st1] True rs by auto
  qed (use Cons in simp)
qed simp

lemma half_group_full:
  assumes "list_all2 (half_group env run) gs rs"
    and "\<not> (\<exists>g \<in> set rs. \<exists>r \<in> set (gr_tests g). r_status r = SKIPPED)"
  shows "rs = map (full_group env run) gs"
  using assms
proof (induction gs rs rule: list_all2_induct)
  case (Cons g gs r rs)
  have "gr_tests r = map (\<lambda>t. judged_test t (run t)) (tg_tests g)"
  proof (rule nth_equalityI)
    fix i assume "i < length (gr_tests r)"
    moreover from this have "r_status (gr_tests r ! i) \<noteq> SKIPPED"
      using Cons.prems by auto
    ultimately show "gr_tests r ! i = map (\<lambda>t. judged_test t (run t)) (tg_tests g) ! i"
      using Cons.hyps by (auto simp: half_group_def list_all2_conv_all_nth half_judged_def)
  qed (use Cons.hyps in \<open>simp add: half_group_def list_all2_conv_all_nth\<close>)
  then show ?case
    using Cons by (cases r) (simp add: half_group_def full_group_def)
qed simp

lemma process_tests_full:
  assumes run: "\<forall>n t. je_run env n t = Inr (run t)" and nonneg: "\<forall>t. je_zero env \<le> tr_score (run t)"
    and laws: "double_laws env" and exact: "\<forall>g \<in> set gs. exact_score (tg_score g)"
    and callback: "\<forall>f p. cb = Some f \<longrightarrow> snd (f p s) = None"
  shows "\<exists>s' rep mid. process_tests env cb gs final s = (s', Inr (rep, mid))
    \<and> rep_groups rep = map (full_group env run) (filter (in_report final) gs)"
proof -
  obtain rs skipped n l where
    fr: "first_round env (cb \<noteq> None) final gs (0, [Log_begin final]) = Inr (rs, skipped, n, l)"
    and half: "list_all2 (half_group env run) (filter (in_report final) gs) rs"
    using first_round_full[OF run nonneg laws exact, of "cb \<noteq> None" final "(0, [Log_begin final])"] by auto
  show ?thesis
  proof (cases skipped)
    case True
    then obtain f where f: "cb = Some f"
      using first_round_reports[OF fr] by auto
    define l1 where "l1 = l @ [Log_final_score (to_int64 (total_score rs)) (to_int64 (total_max_score rs))]"
    obtain s' where s': "f \<lparr> rep_groups = rs, rep_judge_log = l1 \<rparr> s = (s', None)"
      using callback f by (metis prod.collapse)
    from second_round_full[OF run half, of "(n, l1)"] obtain st' where
      "second_round env final gs rs (n, l1) = Inr (map (full_group env run) (filter (in_report final) gs), st')"
      by blast
    with s' f True show ?thesis
      unfolding process_tests_def fr[unfolded f] f l1_def by (simp add: Let_def split: prod.split)
  next
    case False
    then show ?thesis
      using first_round_reports[OF fr] half_group_full[OF half] unfolding process_tests_def fr by (simp add: Let_def)
  qed
qed

section \<open>Properties\<close>

text \<open>
  A judging on concrete data: scores in percent, scaled with C's rounding half away from zero, and a
  solution that is wrong on the first test of group 1.
\<close>

definition percent_scaled :: "int \<Rightarrow> int \<Rightarrow> int" where
  "percent_scaled s r =
     (if 0 \<le> s * r then (s * r + 50) div 100 else - ((- (s * r) + 50) div 100))"

definition judging_run :: "test \<Rightarrow> int test_run" where
  "judging_run t = \<lparr> tr_status = (if t_name t = ''1a'' then WrongAnswer else Run_OK), tr_comment = [],
     tr_score = (if t_name t = ''1a'' then 0 else 100), tr_runtime = 12, tr_cpu_time = 10,
     tr_peak_memory = 1024, tr_checker = None \<rparr>"

definition judging_env :: "int judge_env" where
  "judging_env = \<lparr> je_zero = 0, je_one = 100, je_scaled = percent_scaled, je_tiny = (\<lambda>r. r < 1),
     je_scaling = True, je_cut = (\<lambda>x t. (t - x) * 300 div t), je_run = (\<lambda>n t. Inr (judging_run t)) \<rparr>"

definition judging_test :: "string \<Rightarrow> test" where
  "judging_test n = \<lparr> t_name = n, t_in = n, t_out = None, t_time_limit = 100, t_memory_limit = 2048 \<rparr>"

definition judging_groups :: "test_group list" where
  "judging_groups = [\<lparr> tg_tests = [judging_test ''0''], tg_score = 5 \<rparr>,
     \<lparr> tg_tests = [judging_test ''1a'', judging_test ''1b''], tg_score = 40 \<rparr>,
     \<lparr> tg_tests = [judging_test ''2''], tg_score = 60 \<rparr>]"

lemma judging_env_laws: "double_laws judging_env" "scores_ok judging_env"
  "\<forall>n t. je_run judging_env n t = Inr (judging_run t)" "\<forall>t. je_zero judging_env \<le> tr_score (judging_run t)"
proof -
  have "percent_scaled s a \<le> percent_scaled s b" if "0 \<le> s" "0 \<le> a" "a \<le> b" for s a b
    using that mult_left_mono[of a b s] by (simp add: percent_scaled_def zdiv_mono1)
  moreover have "percent_scaled s b \<le> percent_scaled s a" if "s < 0" "0 \<le> a" "a \<le> b" for s a b
    using that mult_left_mono_neg[of a b s] mult_nonpos_nonneg[of s a] mult_nonpos_nonneg[of s b]
    by (auto simp: percent_scaled_def zdiv_mono1)
  ultimately show "double_laws judging_env"
    by (auto simp: double_laws_def judging_env_def percent_scaled_def)
qed (auto simp: scores_ok_def judging_env_def judging_run_def)

lemma judging_groups_exact: "\<forall>g \<in> set judging_groups. exact_score (tg_score g)"
  by (auto simp: judging_groups_def exact_score_def)

text \<open>A callback that keeps the partial reports.\<close>

definition keep_report :: "(int, int judge_report list) callback" where
  "keep_report p s = (p # s, None)"

definition judging_result :: "int judge_report \<times> int judge_report option" where
  "judging_result = (case snd (process_tests judging_env (Some keep_report) judging_groups True []) of Inr x \<Rightarrow> x)"

lemma judging_result:
  "process_tests judging_env (Some keep_report) judging_groups True [] =
    ([the (snd judging_result)], Inr (fst judging_result, snd judging_result))"
  "map gr_score (rep_groups (fst judging_result)) = [0, 60]"
  "map (map r_status \<circ> gr_tests) (rep_groups (fst judging_result)) = [[WA, OK], [OK]]"
  "map_option (\<lambda>p. map (map r_status \<circ> gr_tests) (rep_groups p)) (snd judging_result) =
    Some [[WA, SKIPPED], [OK]]"
  by code_simp+

lemma group_filled_judged:
  assumes "list_all2 group_filled ps rs" and "g \<in> set rs" and "r \<in> set (gr_tests g)"
  shows "r_status r \<noteq> SKIPPED"
proof -
  from assms(1,2) obtain p where "group_filled p g"
    by (metis in_set_conv_nth list_all2_conv_all_nth)
  with assms(3) show ?thesis
    by (auto simp: group_filled_def list_all2_conv_all_nth in_set_conv_nth filled_def)
qed

lemma process_tests_bounds:
  assumes "process_tests env cb gs final s = (s', Inr (rep, mid))"
    and "double_laws env" and "scores_ok env" and "\<forall>g \<in> set gs. exact_score (tg_score g)"
  shows "\<forall>g \<in> set (rep_groups rep). if 0 \<le> gr_max_score g then 0 \<le> gr_score g \<and> gr_score g \<le> gr_max_score g
    else gr_max_score g \<le> gr_score g \<and> gr_score g \<le> 0"
proof -
  from process_tests_Inr[OF assms(1)] obtain rs skipped st1 where
    fr: "first_round env (cb \<noteq> None) final gs (0, [Log_begin final]) = Inr (rs, skipped, st1)"
    and rs: "rs = rep_groups (first_report rep mid)"
    by (auto split: if_splits)
  have filled: "list_all2 group_filled rs (rep_groups rep)"
    using process_tests_filled(2)[OF assms(1)] by (simp add: rs)
  show ?thesis
  proof
    fix g assume "g \<in> set (rep_groups rep)"
    then obtain i where "i < length (rep_groups rep)" "g = rep_groups rep ! i"
      by (auto simp: in_set_conv_nth)
    then have "rs ! i \<in> set rs" and "gr_score (rs ! i) = gr_score g" "gr_max_score (rs ! i) = gr_max_score g"
      using filled by (auto simp: list_all2_conv_all_nth group_filled_def)
    then show "if 0 \<le> gr_max_score g then 0 \<le> gr_score g \<and> gr_score g \<le> gr_max_score g
      else gr_max_score g \<le> gr_score g \<and> gr_score g \<le> 0"
      using first_round_score_bounds[OF fr assms(2-4)] by metis
  qed
qed

text \<open>C5. Skipping tests does not change the outcome. When the sandbox gives the same result for a test
whenever it runs it and the callback does not throw, \<open>JudgeWorker::process_tests\<close> returns, and the
groups of its report (the reports of all tests, the scores and the maximum scores) are those of judging
every test of the selected groups in order, with a callback or without one.\<close>

theorem skipping_preserves_report:
  assumes "\<forall>n t. je_run env n t = Inr (run t)" and "\<forall>t. je_zero env \<le> tr_score (run t)"
    and "double_laws env" and "\<forall>g \<in> set gs. exact_score (tg_score g)"
    and "\<forall>f p. cb = Some f \<longrightarrow> snd (f p s) = None"
  shows "\<exists>s' rep mid. process_tests env cb gs final s = (s', Inr (rep, mid))
    \<and> rep_groups rep = map (full_group env run) (filter (in_report final) gs)"
  using assms by (rule process_tests_full)

theorem skipping_preserves_report_witness:
  "rep_groups (fst judging_result) = map (full_group judging_env judging_run) (filter (in_report True) judging_groups)"
proof -
  have "\<forall>f p. Some keep_report = Some f \<longrightarrow> snd (f p []) = None"
    by (simp add: keep_report_def)
  from skipping_preserves_report[OF judging_env_laws(3,4,1) judging_groups_exact this, of True]
  show ?thesis
    by (metis judging_result(1) Pair_inject sum.inject(2))
qed

text \<open>A report is complete: it has the groups of its kind in order, each with a report on every one
of its tests in order and the maximum score of the group; no test is left skipped. The partial report
that the callback got, if any, has the same scores, and each of its tests is either skipped or already
has its final report; at least one of them is skipped.\<close>

theorem report_complete:
  assumes "process_tests env cb gs final s = (s', Inr (rep, mid))"
  shows "list_all2 reports_group (filter (in_report final) gs) (rep_groups rep)
    \<and> (\<forall>g \<in> set (rep_groups rep). \<forall>r \<in> set (gr_tests g). r_status r \<noteq> SKIPPED)
    \<and> (\<forall>p. mid = Some p \<longrightarrow> list_all2 group_filled (rep_groups p) (rep_groups rep)
        \<and> (\<exists>g \<in> set (rep_groups p). \<exists>r \<in> set (gr_tests g). r_status r = SKIPPED))"
  using process_tests_filled[OF assms] group_filled_judged[OF process_tests_filled(2)[OF assms]] by auto

theorem report_complete_witness:
  "list_all2 reports_group (filter (in_report True) judging_groups) (rep_groups (fst judging_result))
    \<and> snd judging_result \<noteq> None"
  using report_complete[OF judging_result(1)]
    judging_result(1,4) by auto



end
