(* ===== verification/Judge_Logs.thy ===== *)
theory Judge_Logs
  imports Judge_Worker Process_Task
begin

text \<open>
  What a judging leaves for people to read: the lines that \<open>JudgeLogger\<close> of the job server
  (job_handlers/judge_logger.hh) adds to the log of the job, the report that the web page shows
  (\<open>construct_submission_judge_report\<close> of judge_or_rejudge_submission.cc) and the text of
  \<open>JudgeReport::pretty_dump\<close>. The text of a score ratio is an argument, it is the text of a double.
\<close>

section \<open>Durations\<close>

text \<open>\<open>to_string\<close> of a duration without trimming zeros; \<open>d\<close> is the number of decimal places.\<close>

definition show_duration :: "nat \<Rightarrow> int \<Rightarrow> string" where
  "show_duration d dur =
     (let dec_dur = dur sdiv 10 ^ d
      in int_to_string dec_dur @ ''.'' @ fraction_digits d (dur - dec_dur * 10 ^ d))"

definition floor_to_10ms :: "int \<Rightarrow> int" where
  "floor_to_10ms time = time sdiv 10 ^ 7"

definition kib :: "int \<Rightarrow> string" where
  "kib bytes = int_to_string (bytes div 1024)"

section \<open>The log of the job\<close>

record judge_logger =
  jl_text :: string
  jl_final :: bool
  jl_after_final_score :: bool
  jl_last_gid :: "string option"

definition colored :: "string \<Rightarrow> string \<Rightarrow> string" where
  "colored col name = [CHR 0x1B] @ ''[1;'' @ col @ ''m'' @ name @ [CHR 0x1B] @ ''[m''"

fun logged_status :: "test_status \<Rightarrow> string" where
  "logged_status TLE = colored ''33'' ''TLE''"
| "logged_status MLE = colored ''33'' ''MLE''"
| "logged_status OLE = colored ''33'' ''OLE''"
| "logged_status RTE = colored ''31'' ''RTE''"
| "logged_status OK = colored ''32'' ''OK''"
| "logged_status WA = colored ''31'' ''WA''"
| "logged_status CHECKER_ERROR = colored ''35'' ''CHECKER ERROR''"
| "logged_status SKIPPED = colored ''36'' ''SKIPPED''"

definition usage :: "int \<Rightarrow> int \<Rightarrow> string" where
  "usage cpu_time runtime =
     ''[ CPU: '' @ show_duration 6 (cpu_time sdiv 1000) @ '' RT: '' @ show_duration 9 runtime @ '' ]''"

definition test_line :: "int \<Rightarrow> string \<Rightarrow> test_report \<Rightarrow> 'd test_run \<Rightarrow> string" where
  "test_line checker_mem_limit name r tr =
     ''  '' @ padded_string name 12 LEFT (CHR '' '') @ '' '' @
     padded_string (show_duration 2 (floor_to_10ms (r_runtime r))) 4 RIGHT (CHR '' '') @ '' / '' @
     show_duration 2 (floor_to_10ms (r_time_limit r)) @ '' s  '' @
     kib (r_memory_consumed r) @ '' / '' @ kib (r_memory_limit r) @ '' KiB  Status: '' @
     logged_status (r_status r) @
     (if r_comment r \<noteq> [] then '' ('' @ escape_bytes_to_utf8_str [] (r_comment r) [] @ '')'' else []) @
     '' '' @ usage (tr_cpu_time tr) (tr_runtime tr) @
     (case tr_checker tr of
        None \<Rightarrow> []
      | Some (runtime, cpu_time, memory) \<Rightarrow>
          ''  Checker: '' @ usage cpu_time runtime @ '' '' @ kib memory @ '' / '' @
          kib checker_mem_limit @ '' KiB'')"

definition log_to :: "judge_logger \<Rightarrow> string \<Rightarrow> judge_logger" where
  "log_to l line = l\<lparr>jl_text := log_line (jl_text l) line\<rparr>"

text \<open>One call of the logger.\<close>

fun logger_call :: "('d \<Rightarrow> string) \<Rightarrow> int \<Rightarrow> judge_logger \<Rightarrow> 'd log_event \<Rightarrow> judge_logger" where
  "logger_call show_ratio cml l (Log_begin final) =
     log_to (l\<lparr>jl_final := final, jl_after_final_score := False, jl_last_gid := None\<rparr>)
       (''Judging ('' @ (if final then ''final'' else ''initial'') @ ''): {'')"
| "logger_call show_ratio cml l (Log_test name r tr) =
     (let gid = fst (split_name name);
          l1 = (if jl_after_final_score l
                then (let l0 = (if Some gid \<noteq> jl_last_gid l then log_to l [] else l)
                      in l0\<lparr>jl_last_gid := Some gid\<rparr>)
                else l)
      in log_to l1 (test_line cml name r tr))"
| "logger_call show_ratio cml l (Log_group_score score max_score ratio) =
     log_to l (''Score: '' @ int_to_string score @ '' / '' @ int_to_string max_score @ '' (ratio: '' @
       show_ratio ratio @ '')'')"
| "logger_call show_ratio cml l (Log_final_score score max_score) =
     (let l0 = l\<lparr>jl_after_final_score := True\<rparr>
      in if jl_final l0
         then log_to l0 (''Total score: '' @ int_to_string score @ '' / '' @ int_to_string max_score)
         else l0)"
| "logger_call show_ratio cml l Log_end = log_to l ''}''"

text \<open>The log after the calls of one judging, from the log before it.\<close>

definition judging_log :: "('d \<Rightarrow> string) \<Rightarrow> int \<Rightarrow> 'd log_event list \<Rightarrow> string \<Rightarrow> string" where
  "judging_log show_ratio cml events log =
     jl_text (foldl (logger_call show_ratio cml)
       \<lparr> jl_text = log, jl_final = False, jl_after_final_score = False, jl_last_gid = None \<rparr> events)"

section \<open>The report on the web page\<close>

text \<open>A text in double quotes, for attributes.\<close>

definition dq :: "string \<Rightarrow> string" where
  "dq s = [CHR 0x22] @ s @ [CHR 0x22]"

definition tag_class :: "string \<Rightarrow> string \<Rightarrow> string" where
  "tag_class tag cls = ''<'' @ tag @ '' class='' @ dq cls @ ''>''"

definition report_head :: string where
  "report_head = tag_class ''table'' ''table'' @ ''<thead><tr>'' @
     tag_class ''th'' ''test'' @ ''Test</th>'' @ tag_class ''th'' ''result'' @ ''Result</th>'' @
     tag_class ''th'' ''time'' @ ''Time [s]</th>'' @ tag_class ''th'' ''memory'' @ ''Memory [KiB]</th>'' @
     tag_class ''th'' ''points'' @ ''Score</th>'' @ ''</tr></thead><tbody>''"

fun status_td :: "test_status \<Rightarrow> string" where
  "status_td OK = tag_class ''td'' ''status green'' @ ''OK</td>''"
| "status_td WA = tag_class ''td'' ''status red'' @ ''Wrong answer</td>''"
| "status_td TLE = tag_class ''td'' ''status yellow'' @ ''Time limit exceeded</td>''"
| "status_td MLE = tag_class ''td'' ''status yellow'' @ ''Memory limit exceeded</td>''"
| "status_td OLE = tag_class ''td'' ''status yellow'' @ ''Output size limit exceeded</td>''"
| "status_td RTE = tag_class ''td'' ''status intense-red'' @ ''Runtime error</td>''"
| "status_td CHECKER_ERROR = tag_class ''td'' ''status blue'' @ ''Checker error</td>''"
| "status_td SKIPPED = tag_class ''td'' ''status'' @ ''Pending</td>''"

definition report_row :: "group_report \<Rightarrow> bool \<Rightarrow> test_report \<Rightarrow> string" where
  "report_row g first r =
     ''<tr><td>'' @ html_escape (r_name r) @ ''</td>'' @ status_td (r_status r) @ ''<td>'' @
     (if r_status r = SKIPPED then ''?'' else show_duration 2 (floor_to_10ms (r_runtime r))) @ '' / '' @
     show_duration 2 (floor_to_10ms (r_time_limit r)) @ ''</td><td>'' @
     (if r_status r = SKIPPED then ''?'' else kib (r_memory_consumed r)) @ '' / '' @
     kib (r_memory_limit r) @ ''</td>'' @
     (if first
      then ''<td class='' @ dq ''groupscore'' @ '' rowspan='' @ dq (int_to_string (int (length (gr_tests g)))) @
        ''>'' @ int_to_string (gr_score g) @ '' / '' @ int_to_string (gr_max_score g) @ ''</td>''
      else []) @ ''</tr>''"

fun report_rows :: "group_report \<Rightarrow> bool \<Rightarrow> test_report list \<Rightarrow> string" where
  "report_rows g first [] = []"
| "report_rows g first (r # rs) = report_row g first r @ report_rows g False rs"

definition report_comment :: "test_report \<Rightarrow> string" where
  "report_comment r =
     (if r_comment r \<noteq> []
      then ''<li>'' @ tag_class ''span'' ''test-id'' @ html_escape (r_name r) @ ''</span>'' @
        html_escape (escape_bytes_to_utf8_str [] (r_comment r) []) @ ''</li>''
      else [])"

definition construct_report :: "group_report list \<Rightarrow> string" where
  "construct_report groups =
     (if groups = [] then []
      else
        (let tests = concat (map gr_tests groups)
         in report_head @ concat (map (\<lambda>g. report_rows g True (gr_tests g)) groups) @ ''</tbody></table>'' @
            (if \<exists>r \<in> set tests. r_comment r \<noteq> []
             then tag_class ''ul'' ''tests-comments'' @ concat (map report_comment tests) @ ''</ul>''
             else [])))"

section \<open>The dump of a report\<close>

fun simple_span_status :: "test_status \<Rightarrow> string" where
  "simple_span_status OK = ''OK''"
| "simple_span_status WA = ''WA''"
| "simple_span_status TLE = ''TLE''"
| "simple_span_status MLE = ''MLE''"
| "simple_span_status OLE = ''OLE''"
| "simple_span_status RTE = ''RTE''"
| "simple_span_status CHECKER_ERROR = ''CHECKER_ERROR''"
| "simple_span_status SKIPPED = ''SKIPPED''"

definition pretty_test :: "(test_status \<Rightarrow> string) \<Rightarrow> test_report \<Rightarrow> string" where
  "pretty_test span_status r =
     ''  '' @ padded_string (r_name r) 11 LEFT (CHR '' '') @
     padded_string (show_duration 2 (floor_to_10ms (r_runtime r))) 4 RIGHT (CHR '' '') @ '' / '' @
     show_duration 2 (floor_to_10ms (r_time_limit r)) @ '' s  '' @ kib (r_memory_consumed r) @ '' / '' @
     kib (r_memory_limit r) @ '' KiB    Status: '' @ span_status (r_status r) @
     (if r_comment r \<noteq> [] then '' '' @ escape_bytes_to_utf8_str [] (r_comment r) [] @ [LF] else [LF])"

definition pretty_dump :: "(test_status \<Rightarrow> string) \<Rightarrow> group_report list \<Rightarrow> string" where
  "pretty_dump span_status groups =
     ''{'' @ [LF] @
     concat (map (\<lambda>g. concat (map (pretty_test span_status) (gr_tests g)) @ ''  Score: '' @
       int_to_string (gr_score g) @ '' / '' @ int_to_string (gr_max_score g) @ [LF]) groups) @ ''}''"

section \<open>Names and comments stay text\<close>

text \<open>
  The tags of an HTML text: the characters from each \<open><\<close> to the next \<open>>\<close>. \<open>in_tag\<close> tells whether a
  text ends inside a tag.
\<close>

fun tags :: "bool \<Rightarrow> string \<Rightarrow> string" where
  "tags i [] = []"
| "tags i (c # s) =
     (if i then c # tags (c \<noteq> CHR ''>'') s
      else if c = CHR ''<'' then c # tags True s else tags False s)"

fun in_tag :: "bool \<Rightarrow> string \<Rightarrow> bool" where
  "in_tag i [] = i"
| "in_tag i (c # s) = in_tag (if i then c \<noteq> CHR ''>'' else c = CHR ''<'') s"

lemma tags_append: "tags i (s @ t) = tags i s @ tags (in_tag i s) t"
  by (induction s arbitrary: i) simp_all

lemma in_tag_append: "in_tag i (s @ t) = in_tag (in_tag i s) t"
  by (induction s arbitrary: i) simp_all

text \<open>A text without the characters of a tag, inside or outside one.\<close>

definition plain :: "string \<Rightarrow> bool" where
  "plain s \<longleftrightarrow> CHR ''<'' \<notin> set s \<and> CHR ''>'' \<notin> set s"

lemma plain_simps [simp]:
  "plain []"
  "plain (c # s) \<longleftrightarrow> c \<noteq> CHR ''<'' \<and> c \<noteq> CHR ''>'' \<and> plain s"
  "plain (s @ t) \<longleftrightarrow> plain s \<and> plain t"
  "plain (rev s) \<longleftrightarrow> plain s"
  by (auto simp: plain_def)

lemma in_tag_plain [simp]: "plain s \<Longrightarrow> in_tag i s = i"
  by (induction s) auto

lemma tags_plain [simp]: "plain s \<Longrightarrow> tags False s = []"
  by (induction s) auto

text \<open>Two texts with the same tags, neither of which ends inside one.\<close>

definition same_tags :: "string \<Rightarrow> string \<Rightarrow> bool" where
  "same_tags s t \<longleftrightarrow> tags False s = tags False t \<and> \<not> in_tag False s \<and> \<not> in_tag False t"

lemma same_tags_append:
  "same_tags s t \<Longrightarrow> same_tags s' t' \<Longrightarrow> same_tags (s @ s') (t @ t')"
  by (simp add: same_tags_def tags_append in_tag_append)

lemma same_tags_plain: "plain s \<Longrightarrow> plain t \<Longrightarrow> same_tags s t"
  by (simp add: same_tags_def)

lemma same_tags_if:
  "(p \<longleftrightarrow> q) \<Longrightarrow> (p \<Longrightarrow> same_tags s t) \<Longrightarrow> (\<not> p \<Longrightarrow> same_tags s' t')
    \<Longrightarrow> same_tags (if p then s else s') (if q then t else t')"
  by simp

lemma same_tags_concat:
  assumes "list_all2 (\<lambda>x y. same_tags (f x) (g y)) xs ys"
  shows "same_tags (concat (map f xs)) (concat (map g ys))"
  using assms by induction (auto simp: same_tags_append, simp add: same_tags_def)

lemma same_tags_html_escape: "same_tags (html_escape s) (html_escape t)"
  using set_html_escape by (intro same_tags_plain) (auto simp: html_specials_def plain_def)

text \<open>The digits of numbers are none of the characters of a tag.\<close>

lemma plain_digit_char: "- 48 \<le> k \<Longrightarrow> k < 12 \<Longrightarrow> plain [digit_char k]"
proof -
  assume "- 48 \<le> k" "k < 12"
  then have "of_char (digit_char k) = nat (k + 48)" and "nat (k + 48) < 60"
    by (auto simp: digit_char_def take_bit_nat_eq_self_iff)
  then show ?thesis
    by auto
qed

lemma plain_digits_back: "plain (digits_back x)"
proof (induction x rule: digits_back.induct)
  case (1 x)
  have "plain [digit_char (x - x div 10 * 10)]"
    by (rule plain_digit_char) linarith+
  with 1 show ?case
    by (subst digits_back.simps) (auto simp: Let_def)
qed

lemma plain_neg_digits_back: "plain (neg_digits_back x)"
proof (induction x rule: neg_digits_back.induct)
  case (1 x)
  have "plain [digit_char (- ((- x) div 10) * 10 - x)]"
    by (rule plain_digit_char) linarith+
  with 1 show ?case
    by (subst neg_digits_back.simps) (auto simp: Let_def)
qed

lemma smod_10_bounds: "- 9 \<le> x smod (10::int)" "x smod (10::int) \<le> 9"
  by (auto simp: signed_modulo_int_def signed_divide_int_def sgn_if)

lemma plain_fraction_digits: "plain (fraction_digits n x)"
proof (induction n x rule: fraction_digits.induct)
  case (2 n x)
  have "plain [digit_char (x smod 10)]"
    using smod_10_bounds[of x] by (intro plain_digit_char) linarith+
  with 2 show ?case
    by simp
qed simp

lemma plain_int_to_string [simp]: "plain (int_to_string x)"
  by (simp add: int_to_string_def plain_digits_back plain_neg_digits_back)

lemma plain_show_duration [simp]: "plain (show_duration d x)"
  by (simp add: show_duration_def Let_def plain_fraction_digits)

lemma plain_kib [simp]: "plain (kib x)"
  by (simp add: kib_def)

text \<open>Two group reports that differ in names and in the text of comments only.\<close>

definition same_but_texts :: "test_report \<Rightarrow> test_report \<Rightarrow> bool" where
  "same_but_texts r q \<longleftrightarrow> r\<lparr>r_name := [], r_comment := []\<rparr> = q\<lparr>r_name := [], r_comment := []\<rparr>
     \<and> (r_comment r = [] \<longleftrightarrow> r_comment q = [])"

definition groups_same_but_texts :: "group_report \<Rightarrow> group_report \<Rightarrow> bool" where
  "groups_same_but_texts g h \<longleftrightarrow> gr_score g = gr_score h \<and> gr_max_score g = gr_max_score h
     \<and> list_all2 same_but_texts (gr_tests g) (gr_tests h)"

lemma same_tags_refl: "\<not> in_tag False s \<Longrightarrow> same_tags s s"
  by (simp add: same_tags_def)

lemma not_in_tag_append: "\<not> in_tag False s \<Longrightarrow> \<not> in_tag False t \<Longrightarrow> \<not> in_tag False (s @ t)"
  by (simp add: in_tag_append)

lemma status_td_closed: "\<not> in_tag False (status_td s)"
  by (cases s) (simp_all add: tag_class_def dq_def)

lemma report_row_same_tags:
  assumes "same_but_texts r q" and "groups_same_but_texts g h"
  shows "same_tags (report_row g first r) (report_row h first q)"
proof -
  have eqs: "r_status r = r_status q" "r_runtime r = r_runtime q" "r_time_limit r = r_time_limit q"
    "r_memory_consumed r = r_memory_consumed q" "r_memory_limit r = r_memory_limit q"
    "gr_score g = gr_score h" "gr_max_score g = gr_max_score h" "length (gr_tests g) = length (gr_tests h)"
    using assms by (auto simp: same_but_texts_def groups_same_but_texts_def list_all2_lengthD
        dest!: arg_cong[where f = "\<lambda>r. (r_status r, r_runtime r, r_time_limit r, r_memory_consumed r, r_memory_limit r)"])
  define rest where "rest = ''</td>'' @ status_td (r_status q) @ ''<td>'' @
     (if r_status q = SKIPPED then ''?'' else show_duration 2 (floor_to_10ms (r_runtime q))) @ '' / '' @
     show_duration 2 (floor_to_10ms (r_time_limit q)) @ ''</td><td>'' @
     (if r_status q = SKIPPED then ''?'' else kib (r_memory_consumed q)) @ '' / '' @
     kib (r_memory_limit q) @ ''</td>'' @
     (if first
      then ''<td class='' @ dq ''groupscore'' @ '' rowspan='' @ dq (int_to_string (int (length (gr_tests h)))) @
        ''>'' @ int_to_string (gr_score h) @ '' / '' @ int_to_string (gr_max_score h) @ ''</td>''
      else []) @ ''</tr>''"
  have "\<not> in_tag False rest"
    by (simp add: rest_def in_tag_append status_td_closed dq_def del: append_Cons append_assoc)
  moreover have "report_row g first r = ''<tr><td>'' @ html_escape (r_name r) @ rest"
    "report_row h first q = ''<tr><td>'' @ html_escape (r_name q) @ rest"
    by (simp_all add: report_row_def rest_def eqs)
  ultimately show ?thesis
    by (simp only:) (intro same_tags_append same_tags_html_escape same_tags_refl; simp)
qed

lemma report_rows_same_tags:
  assumes "list_all2 same_but_texts rs qs" and "groups_same_but_texts g h"
  shows "same_tags (report_rows g first rs) (report_rows h first qs)"
  using assms(1)
proof (induction arbitrary: first)
  case (Cons r rs q qs)
  then show ?case
    using report_row_same_tags[OF _ assms(2)] by (simp add: same_tags_append)
qed (simp add: same_tags_refl)

lemma tag_class_closed: "plain tag \<Longrightarrow> plain cls \<Longrightarrow> \<not> in_tag False (tag_class tag cls)"
  by (simp add: tag_class_def dq_def in_tag_append)

lemma report_comment_same_tags:
  assumes "same_but_texts r q"
  shows "same_tags (report_comment r) (report_comment q)"
proof -
  have "r_comment r \<noteq> [] \<longleftrightarrow> r_comment q \<noteq> []"
    using assms by (simp add: same_but_texts_def)
  then show ?thesis
    unfolding report_comment_def
    by (intro same_tags_if same_tags_append same_tags_html_escape same_tags_refl tag_class_closed; simp)
qed

lemma list_all2_concat_map:
  "list_all2 (\<lambda>g h. list_all2 P (f g) (f h)) gs hs \<Longrightarrow> list_all2 P (concat (map f gs)) (concat (map f hs))"
  by (induction rule: list_all2_induct) (auto intro: list_all2_appendI)

lemma construct_report_same_tags:
  assumes "list_all2 groups_same_but_texts gs hs"
  shows "same_tags (construct_report gs) (construct_report hs)"
proof -
  let ?rs = "concat (map gr_tests gs)" and ?qs = "concat (map gr_tests hs)"
  have tests: "list_all2 same_but_texts ?rs ?qs"
    by (rule list_all2_concat_map)
      (use assms in \<open>auto elim: list_all2_mono simp: groups_same_but_texts_def\<close>)
  have "same_tags (concat (map (\<lambda>g. report_rows g True (gr_tests g)) gs))
      (concat (map (\<lambda>g. report_rows g True (gr_tests g)) hs))"
    by (rule same_tags_concat, rule list_all2_mono[OF assms])
      (auto simp: groups_same_but_texts_def intro!: report_rows_same_tags)
  moreover have "same_tags (concat (map report_comment ?rs)) (concat (map report_comment ?qs))"
    by (rule same_tags_concat, rule list_all2_mono[OF tests report_comment_same_tags])
  moreover have "(\<exists>r \<in> set ?rs. r_comment r \<noteq> []) = (\<exists>q \<in> set ?qs. r_comment q \<noteq> [])"
    using tests by (induction rule: list_all2_induct) (auto simp: same_but_texts_def)
  moreover have "gs = [] \<longleftrightarrow> hs = []"
    using assms by auto
  moreover have "\<not> in_tag False report_head"
    by (simp add: report_head_def in_tag_append tag_class_closed del: append_Cons append_assoc)
  ultimately show ?thesis
    unfolding construct_report_def Let_def
    by (intro same_tags_if same_tags_append) (simp_all only:, (intro same_tags_refl tag_class_closed; simp)+)
qed

text \<open>
  C9. The names of tests and the comments of the checker, which come from the package and the solution,
  cannot add markup to the report: reports on results that differ in these texts only have the same
  sequence of HTML tags, and none ends inside a tag.
\<close>

theorem report_no_injection:
  assumes "list_all2 groups_same_but_texts gs hs"
  shows "tags False (construct_report gs) = tags False (construct_report hs)
    \<and> \<not> in_tag False (construct_report gs)"
  using construct_report_same_tags[OF assms] by (simp add: same_tags_def)

definition commented_group :: "string \<Rightarrow> string \<Rightarrow> group_report" where
  "commented_group name comment =
     \<lparr> gr_tests = [\<lparr> r_name = name, r_status = WA, r_runtime = 10, r_time_limit = 20,
         r_memory_consumed = 2048, r_memory_limit = 4096, r_comment = comment \<rparr>],
       gr_score = 0, gr_max_score = 10 \<rparr>"

theorem report_no_injection_witness:
  "tags False (construct_report [commented_group ''1a'' ''<script>alert(1)</script>'']) =
   tags False (construct_report [commented_group ''<b>'' ''ok''])"
proof -
  have "list_all2 groups_same_but_texts [commented_group ''1a'' ''<script>alert(1)</script>'']
    [commented_group ''<b>'' ''ok'']"
    by (simp add: commented_group_def groups_same_but_texts_def same_but_texts_def)
  from report_no_injection[OF this] show ?thesis
    by blast
qed

end
