(* ===== verification/Judge_Submission.thy ===== *)
theory Judge_Submission
  imports Judge_Logs
begin

text \<open>
  \<open>judge_or_rejudge_submission\<close> of src/job_server/job_handlers/judge_or_rejudge_submission.cc: the first
  transaction, which reads the submission, loads the package and compiles, and the transactions that
  store the initial and the final result, each repeated when the database reports a deadlock. The
  sandbox, the compilers and the failures of the database are arguments (\<open>judging\<close>).
\<close>

section \<open>The submission row\<close>

text \<open>The lambda \<open>update_submission\<close>; the key columns are those read in the first transaction.\<close>

definition store_result ::
  "submission_status \<Rightarrow> submission_status \<Rightarrow> int option \<Rightarrow> string \<Rightarrow> string
    \<Rightarrow> score_revealing option \<Rightarrow> submission \<Rightarrow> submission" where
  "store_result initial_status full_status score initial_report final_report rv s =
     s\<lparr>sub_initial_final_candidate :=
         is_initial_final_candidate (sub_type s) initial_status full_status score rv,
       sub_final_candidate := is_final_candidate (sub_type s) full_status score,
       sub_initial_status := initial_status,
       sub_full_status := full_status,
       sub_score := score,
       sub_initial_report := initial_report,
       sub_final_report := final_report\<rparr>"

definition score_revealing_of :: "db \<Rightarrow> submission \<Rightarrow> score_revealing option" where
  "score_revealing_of d s =
     (case sub_cp_id s of
        None \<Rightarrow> None
      | Some cpid \<Rightarrow> map_option cp_score_revealing (find (\<lambda>c. cp_id c = cpid) (db_contest_problems d)))"

definition update_submission ::
  "submission \<Rightarrow> submission_status \<Rightarrow> submission_status \<Rightarrow> int option \<Rightarrow> string \<Rightarrow> string \<Rightarrow> handler" where
  "update_submission s0 initial_status full_status score initial_report final_report log d =
     (case find (\<lambda>s. sub_id s = sub_id s0) (db_submissions d) of
        None \<Rightarrow> (log_line log ''Will not update submission because it disappeared.'', Inr d)
      | Some s \<Rightarrow>
          (log, update_final (sub_user_id s0) (sub_problem_id s0) (sub_cp_id s0)
             (d\<lparr>db_submissions := update_where (\<lambda>x. sub_id x = sub_id s0)
                (store_result initial_status full_status score initial_report final_report
                   (score_revealing_of d s)) (db_submissions d)\<rparr>)))"

section \<open>The status of a judging\<close>

fun test_submission_status :: "test_status \<Rightarrow> submission_status option" where
  "test_submission_status OK = None"
| "test_submission_status SKIPPED = None"
| "test_submission_status WA = Some Sub_WA"
| "test_submission_status TLE = Some Sub_TLE"
| "test_submission_status MLE = Some Sub_MLE"
| "test_submission_status OLE = Some Sub_OLE"
| "test_submission_status RTE = Some Sub_RTE"
| "test_submission_status CHECKER_ERROR = Some Sub_JUDGE_ERROR"

fun first_status :: "test_report list \<Rightarrow> submission_status" where
  "first_status [] = Sub_OK"
| "first_status (r # rs) = (case test_submission_status (r_status r) of None \<Rightarrow> first_status rs | Some st \<Rightarrow> st)"

definition calculate_submission_status :: "group_report list \<Rightarrow> submission_status" where
  "calculate_submission_status groups =
     (let tests = concat (map gr_tests groups)
      in if \<exists>r \<in> set tests. r_status r = CHECKER_ERROR then Sub_JUDGE_ERROR else first_status tests)"

section \<open>Storing a report\<close>

text \<open>What the lambda \<open>process_judge_report\<close> keeps between its calls.\<close>

record initial_result =
  ir_report :: "string option"
  ir_score :: int
  ir_status :: submission_status

text \<open>
  The variables that the function passed to \<open>repeat_if_deadlocked\<close> captures by reference: the state of
  the lambda, and the report, the score and the status of the call.
\<close>

record captured =
  cap_initial :: initial_result
  cap_report :: string
  cap_score :: int
  cap_status :: submission_status

text \<open>The state of the job: its log in memory, the captured variables and the database.\<close>

type_synonym judge_job = "string \<times> captured \<times> db"

text \<open>
  Commit: the result of the transaction's statements, unless the database fails it. What was logged
  and what the captured variables became stays in either case.
\<close>

definition end_transaction ::
  "exn option \<Rightarrow> captured \<Rightarrow> db \<Rightarrow> string \<times> db res \<Rightarrow> judge_job \<times> exn option" where
  "end_transaction fault cap d r =
     (case (fault, snd r) of
        (Some e, _) \<Rightarrow> ((fst r, cap, d), Some e)
      | (None, Inl e) \<Rightarrow> ((fst r, cap, d), Some e)
      | (None, Inr d') \<Rightarrow> ((fst r, cap, d'), None))"

definition then_db :: "string \<times> db res \<Rightarrow> (string \<Rightarrow> db \<Rightarrow> db) \<Rightarrow> string \<times> db res" where
  "then_db r f = (fst r, map_sum id (f (fst r)) (snd r))"

text \<open>
  One attempt. \<open>moved_from\<close> is the content that \<open>std::move\<close> leaves in a string (unspecified in C++,
  empty in libstdc++).
\<close>

definition store_attempt ::
  "(string \<Rightarrow> string) \<Rightarrow> id \<Rightarrow> submission \<Rightarrow> bool \<Rightarrow> bool \<Rightarrow> (nat \<Rightarrow> exn option) \<Rightarrow> nat \<Rightarrow> judge_job
    \<Rightarrow> judge_job \<times> exn option" where
  "store_attempt moved_from jid s0 final partial fault k st =
     (case st of (log, cap, d) \<Rightarrow>
        if \<not> final then
          (let cap1 = cap\<lparr>cap_initial := \<lparr> ir_report = Some (cap_report cap), ir_score = cap_score cap,
                 ir_status = cap_status cap \<rparr>, cap_report := moved_from (cap_report cap)\<rparr>;
               full_status = (if cap_status cap \<noteq> Sub_OK then cap_status cap else Sub_PENDING)
           in end_transaction (fault k) cap1 d
                (then_db (update_submission s0 (cap_status cap) full_status None (cap_report cap) [] log d)
                   (\<lambda>log'. update_job_log log' jid)))
        else
          (let init = cap_initial cap;
               score = cap_score cap + ir_score init;
               status = (if ir_status init \<noteq> Sub_OK \<and> cap_status cap \<noteq> Sub_JUDGE_ERROR
                         then ir_status init else cap_status cap);
               cap1 = cap\<lparr>cap_report := moved_from (cap_report cap), cap_score := score, cap_status := status\<rparr>;
               initial_report = (case ir_report init of None \<Rightarrow> [] | Some r \<Rightarrow> r)
           in end_transaction (fault k) cap1 d
                (then_db (update_submission s0 (ir_status init) status (Some score) initial_report
                     (cap_report cap) log d)
                   (\<lambda>log'. if partial then update_job_log log' jid else mark_job_as_done log' jid))))"

text \<open>\<open>process_judge_report\<close>: the sum of the scores of the groups (int64_t; no overflow here).\<close>

definition process_judge_report ::
  "(string \<Rightarrow> string) \<Rightarrow> id \<Rightarrow> submission \<Rightarrow> bool \<Rightarrow> bool \<Rightarrow> (nat \<Rightarrow> exn option) \<Rightarrow> group_report list
    \<Rightarrow> string \<times> initial_result \<times> db \<Rightarrow> (string \<times> initial_result \<times> db) \<times> exn option" where
  "process_judge_report moved_from jid s0 final partial fault groups st =
     (case st of (log, init, d) \<Rightarrow>
        let cap = \<lparr> cap_initial = init, cap_report = construct_report groups,
              cap_score = sum_list (map gr_score groups), cap_status = calculate_submission_status groups \<rparr>
        in case repeat_if_deadlocked 128 (store_attempt moved_from jid s0 final partial fault) (log, cap, d) of
             ((log', cap', d'), e) \<Rightarrow> ((log', cap_initial cap', d'), e))"

section \<open>The handler\<close>

text \<open>
  The outside world of a judging: the Simfile of the package in a file, the compilations (their error
  messages when they fail), the runs of the initial and of the final judging, and the failures of the
  database, by the number of the transaction and of the attempt.
\<close>

record 'd judging =
  jg_load_package :: "id \<Rightarrow> simfile res"
  jg_compile_solution :: "id \<Rightarrow> language \<Rightarrow> string option res"
  jg_compile_checker :: "simfile \<Rightarrow> string option res"
  jg_env :: "bool \<Rightarrow> 'd judge_env"
  jg_show_ratio :: "'d \<Rightarrow> string"
  jg_checker_memory_limit :: int
  jg_moved_from :: "string \<Rightarrow> string"
  jg_fault :: "nat \<Rightarrow> nat \<Rightarrow> exn option"

text \<open>The SELECT with its inner joins.\<close>

definition select_submission :: "id \<Rightarrow> id \<Rightarrow> db \<Rightarrow> (submission \<times> problem \<times> job) option" where
  "select_submission sid jid d =
     (case find (\<lambda>s. sub_id s = sid) (db_submissions d) of
        None \<Rightarrow> None
      | Some s \<Rightarrow>
          (case (find_problem d (sub_problem_id s), find (\<lambda>j. job_id j = jid) (db_jobs d)) of
             (Some p, Some j) \<Rightarrow> Some (s, p, j)
           | _ \<Rightarrow> None))"

definition compilation_errors_html :: "string \<Rightarrow> string" where
  "compilation_errors_html errors =
     tag_class ''pre'' ''compilation-errors'' @ html_escape errors @ ''</pre>''"

text \<open>
  The first transaction. It ends the job (\<open>Inl\<close>), or gives the submission and the Simfile with which
  the judging goes on (\<open>Inr\<close>).
\<close>

type_synonym prepared = "db + db \<times> submission \<times> simfile"

definition end_job :: "string \<times> db res \<Rightarrow> string \<times> prepared res" where
  "end_job r = (fst r, map_sum id Inl (snd r))"

definition end_with_status ::
  "id \<Rightarrow> submission \<Rightarrow> submission_status \<Rightarrow> string \<Rightarrow> string \<Rightarrow> db \<Rightarrow> string \<times> prepared res" where
  "end_with_status jid s status initial_report log d =
     end_job (then_db (update_submission s status status None initial_report [] log d)
       (\<lambda>l. mark_job_as_done l jid))"

definition compile_checker_step ::
  "'d judging \<Rightarrow> id \<Rightarrow> submission \<Rightarrow> simfile \<Rightarrow> string \<Rightarrow> db \<Rightarrow> string \<times> prepared res" where
  "compile_checker_step w jid s sf log0 d =
     (let log = log_line log0 ''Compiling checker...''
      in case jg_compile_checker w sf of
           Inl e \<Rightarrow> (log, Inl e)
         | Inr (Some errors) \<Rightarrow>
             end_with_status jid s Sub_CHECKER_COMPILATION_ERROR [] (log_line log (''... failed:'' @ [LF] @ errors)) d
         | Inr None \<Rightarrow>
             (let log' = log_line log ''... done.''
              in (log', Inr (Inr (update_job_log log' jid d, s, sf)))))"

definition compile_solution_step ::
  "'d judging \<Rightarrow> id \<Rightarrow> submission \<Rightarrow> simfile \<Rightarrow> string \<Rightarrow> db \<Rightarrow> string \<times> prepared res" where
  "compile_solution_step w jid s sf log0 d =
     (let log = log_line log0 ''Compiling solution...''
      in case jg_compile_solution w (sub_file_id s) (sub_language s) of
           Inl e \<Rightarrow> (log, Inl e)
         | Inr (Some errors) \<Rightarrow>
             end_with_status jid s Sub_COMPILATION_ERROR (compilation_errors_html errors)
               (log_line log (''... failed:'' @ [LF] @ errors)) d
         | Inr None \<Rightarrow> compile_checker_step w jid s sf (log_line log ''... done.'') d)"

definition prepare_judging ::
  "'d judging \<Rightarrow> id \<Rightarrow> id \<Rightarrow> string \<Rightarrow> db \<Rightarrow> string \<times> prepared res" where
  "prepare_judging w jid sid log d =
     (case select_submission sid jid d of
        None \<Rightarrow> end_job (cancelled jid (log_line log ''Submission has been deleted.'') d)
      | Some (s, p, j) \<Rightarrow>
          if (case sub_last_judgment_began_at s of None \<Rightarrow> False | Some t \<Rightarrow> job_created_at j < t)
          then end_job (cancelled jid (log_line log
            (''Skipping judging of the submission because it has already ben judged after this '' @
             ''job has been scheduled.'')) d)
          else
            (let log1 = log_line (log_line log (''Judging submission '' @ id_to_str sid @ '' (problem: '' @
                   id_to_str (sub_problem_id s) @ '')'')) ''Loading problem package...''
             in case jg_load_package w (problem_file_id p) of
                  Inl e \<Rightarrow> (log1, Inl e)
                | Inr sf \<Rightarrow> compile_solution_step w jid s sf (log_line log1 ''... done.'') d))"

text \<open>
  One judging and the storing of its report, with the partial report stored on the way. The number of
  the transaction: the partial and the full report of the initial judging are 1 and 2, of the final
  judging 3 and 4. The logger adds the lines of the calls to the log as they come: after a partial
  report those that are new. (When the sandbox throws, the log here lacks the lines of the tests
  judged since the last report.)
\<close>

definition judge_and_store ::
  "'d::linorder judging \<Rightarrow> id \<Rightarrow> submission \<Rightarrow> simfile \<Rightarrow> bool \<Rightarrow> string \<times> initial_result \<times> db
    \<Rightarrow> (string \<times> initial_result \<times> db) \<times> exn option" where
  "judge_and_store w jid s sf final st =
     (let log0 = fst st; n = (if final then 3 else 1);
          logged = (\<lambda>p. judging_log (jg_show_ratio w) (jg_checker_memory_limit w) (rep_judge_log p) log0);
          store = (\<lambda>partial n p st. process_judge_report (jg_moved_from w) jid s final partial
            (jg_fault w n) (rep_groups p) st)
      in case judge (jg_env w final) sf final
             (Some (\<lambda>p st. store True n p (logged p, snd st))) st of
           (st', Inl e) \<Rightarrow> (st', Some e)
         | (st', Inr (rep, mid)) \<Rightarrow>
             store False (n + 1) rep
               (fst st' @ drop (length (case mid of None \<Rightarrow> log0 | Some p \<Rightarrow> logged p)) (logged rep), snd st'))"

definition judge_or_rejudge_submission ::
  "'d::linorder judging \<Rightarrow> id \<Rightarrow> id \<Rightarrow> string \<times> db \<Rightarrow> (string \<times> db) \<times> exn option" where
  "judge_or_rejudge_submission w jid sid st =
     (case st of (log, d) \<Rightarrow>
        (case prepare_judging w jid sid log d of
           (log, r) \<Rightarrow>
             (case (jg_fault w 0 0, r) of
                (_, Inl e) \<Rightarrow> ((log, d), Some e)
              | (Some e, _) \<Rightarrow> ((log, d), Some e)
              | (None, Inr (Inl d')) \<Rightarrow> ((log, d'), None)
              | (None, Inr (Inr (d', s, sf))) \<Rightarrow>
                  (let init = \<lparr> ir_report = None, ir_score = 0, ir_status = Sub_PENDING \<rparr>
                   in case judge_and_store w jid s sf False (log, init, d') of
                        ((log, init, d), Some e) \<Rightarrow> ((log, d), Some e)
                      | (st, None) \<Rightarrow>
                          (case judge_and_store w jid s sf True st of
                             ((log, init, d), e) \<Rightarrow> ((log, d), e))))))"

section \<open>Updating the submission\<close>

text \<open>The row of a submission is there, and so is the contest problem it refers to.\<close>

definition storable :: "submission \<Rightarrow> db \<Rightarrow> bool" where
  "storable s0 d \<longleftrightarrow> distinct (map sub_id (db_submissions d))
     \<and> sub_id s0 \<in> sub_id ` set (db_submissions d)
     \<and> (\<forall>c. sub_cp_id s0 = Some c \<longrightarrow> c \<in> cp_ids d)"

type_synonym result_columns =
  "submission_status \<times> submission_status \<times> int option \<times> string \<times> string"

definition result_columns :: "submission \<Rightarrow> result_columns" where
  "result_columns s = (sub_initial_status s, sub_full_status s, sub_score s, sub_initial_report s,
     sub_final_report s)"

text \<open>All rows of the submission have this result; the key is unique, so there is one row.\<close>

definition has_result :: "id \<Rightarrow> result_columns \<Rightarrow> db \<Rightarrow> bool" where
  "has_result sid x d \<longleftrightarrow> (\<forall>s \<in> set (db_submissions d). sub_id s = sid \<longrightarrow> result_columns s = x)"

definition kept_columns ::
  "submission \<Rightarrow> id \<times> id \<times> id option \<times> id \<times> id option \<times> submission_type \<times> datetime option" where
  "kept_columns s = (sub_id s, sub_file_id s, sub_user_id s, sub_problem_id s, sub_cp_id s, sub_type s,
     sub_last_judgment_began_at s)"

text \<open>What judging leaves alone: every table but submissions and jobs, and these columns.\<close>

definition judging_keeps :: "db \<Rightarrow> db \<Rightarrow> bool" where
  "judging_keeps d d' \<longleftrightarrow>
     d' = d\<lparr>db_submissions := db_submissions d', db_jobs := db_jobs d'\<rparr>
     \<and> map kept_columns (db_submissions d') = map kept_columns (db_submissions d)
     \<and> map (\<lambda>j. j\<lparr>job_status := Job_PENDING, job_log := []\<rparr>) (db_jobs d') =
       map (\<lambda>j. j\<lparr>job_status := Job_PENDING, job_log := []\<rparr>) (db_jobs d)"

lemma judging_keeps_refl [simp]: "judging_keeps d d"
  by (simp add: judging_keeps_def)

lemma judging_keeps_trans: "judging_keeps d d1 \<Longrightarrow> judging_keeps d1 d2 \<Longrightarrow> judging_keeps d d2"
  unfolding judging_keeps_def by (auto, (cases d; cases d1; cases d2; simp)+)

lemma clear_finals_columns:
  assumes "map clear_finals rs = map clear_finals qs"
    and "\<And>s. f (clear_finals s) = f s"
  shows "map f rs = map f qs"
proof -
  have "map f rs = map f (map clear_finals rs)" and "map f qs = map f (map clear_finals qs)"
    using assms(2) by simp_all
  with assms(1) show ?thesis
    by simp
qed

lemma update_final_total:
  assumes "\<forall>c. cpid = Some c \<longrightarrow> c \<in> cp_ids d"
  shows "\<exists>d'. update_final uid pid cpid d = Inr d'"
proof (cases uid; cases cpid)
  fix u c assume eq: "uid = Some u" "cpid = Some c"
  with assms obtain cp where "find (\<lambda>x. cp_id x = c) (db_contest_problems d) = Some cp"
    by (cases "find (\<lambda>x. cp_id x = c) (db_contest_problems d)") (auto simp: find_key_None cp_ids_def)
  then show ?thesis
    using eq by (auto simp: update_final_Some_Some)
qed (simp_all add: update_final_def Let_def)

lemma store_result_ids:
  "map kept_columns (update_where p (store_result a b c r1 r2 rv) rs) =
   map kept_columns rs"
  by (rule map_update_where_frame) (simp add: store_result_def kept_columns_def)

lemma sub_ids_of_columns:
  assumes "map kept_columns rs = map kept_columns qs"
  shows "map sub_id rs = map sub_id qs"
  using arg_cong[OF assms, of "map fst"] by (simp add: comp_def kept_columns_def)

lemma storable_keeps: "storable s0 d \<Longrightarrow> judging_keeps d d' \<Longrightarrow> storable s0 d'"
proof -
  assume "storable s0 d" and keeps: "judging_keeps d d'"
  moreover from keeps have ids: "map sub_id (db_submissions d') = map sub_id (db_submissions d)"
    unfolding judging_keeps_def by (blast intro: sub_ids_of_columns)
  moreover from keeps have "cp_ids d' = cp_ids d"
    unfolding judging_keeps_def cp_ids_def by (metis db.select_convs(8) db.surjective db.update_convs(11,12))
  moreover from ids have "sub_id ` set (db_submissions d') = sub_id ` set (db_submissions d)"
    by (metis list.set_map)
  ultimately show ?thesis
    by (simp add: storable_def)
qed

lemma update_submission_run:
  assumes "update_submission s0 a b c r1 r2 log d = (log', Inr d')"
    and "distinct (map sub_id (db_submissions d))"
  shows "judging_keeps d d' \<and> has_result (sub_id s0) (a, b, c, r1, r2) d'"
proof (cases "find (\<lambda>s. sub_id s = sub_id s0) (db_submissions d)")
  case None
  then have "d' = d"
    using assms by (simp add: update_submission_def)
  with None show ?thesis
    by (auto simp: has_result_def find_None_iff)
next
  case (Some s)
  define rs where "rs = update_where (\<lambda>x. sub_id x = sub_id s0)
    (store_result a b c r1 r2 (score_revealing_of d s)) (db_submissions d)"
  from Some assms have fin: "update_final (sub_user_id s0) (sub_problem_id s0) (sub_cp_id s0)
      (d\<lparr>db_submissions := rs\<rparr>) = Inr d'"
    by (simp add: update_submission_def rs_def)
  have "distinct (map sub_id rs)"
    using assms(2) sub_ids_of_columns[OF store_result_ids] by (metis rs_def)
  with update_final_frame[OF fin] have frame: "d' = d\<lparr>db_submissions := db_submissions d'\<rparr>"
    "map clear_finals (db_submissions d') = map clear_finals rs"
    by simp_all
  have cols: "map (\<lambda>s. (sub_id s, result_columns s)) (db_submissions d') = map (\<lambda>s. (sub_id s, result_columns s)) rs"
    and ids: "map kept_columns (db_submissions d') = map kept_columns rs"
    by (rule clear_finals_columns[OF frame(2)]; simp add: clear_finals_def result_columns_def kept_columns_def)+
  have "\<exists>q \<in> set rs. sub_id q = sub_id s' \<and> result_columns q = result_columns s'"
    if "s' \<in> set (db_submissions d')" for s'
  proof -
    have "(\<lambda>s. (sub_id s, result_columns s)) s' \<in> (\<lambda>s. (sub_id s, result_columns s)) ` set (db_submissions d')"
      using that by (rule imageI)
    also have "\<dots> = (\<lambda>s. (sub_id s, result_columns s)) ` set rs"
      using arg_cong[OF cols, of set] by (simp only: list.set_map)
    finally show ?thesis
      by auto
  qed
  then have "has_result (sub_id s0) (a, b, c, r1, r2) d'"
    by (fastforce simp: has_result_def rs_def set_update_where store_result_def result_columns_def)
  moreover have "judging_keeps d d'"
    using frame(1) ids store_result_ids unfolding judging_keeps_def rs_def
    by (metis (no_types, lifting) db.surjective db.update_convs(11,12) db.select_convs(12))
  ultimately show ?thesis
    by blast
qed

text \<open>
  The row has the result, and the final submissions of its user have been selected again: in the
  problem, and in the contest problem of the submission.
\<close>

definition finals_marked :: "submission \<Rightarrow> db \<Rightarrow> bool" where
  "finals_marked s0 d \<longleftrightarrow> (\<forall>u. sub_user_id s0 = Some u \<longrightarrow>
     marks_problem_final u (sub_problem_id s0) (db_submissions d) \<and>
     (\<forall>c. sub_cp_id s0 = Some c \<longrightarrow>
       (\<exists>cp. find (\<lambda>x. cp_id x = c) (db_contest_problems d) = Some cp \<and>
         marks_cp_final u c (cp_method cp) (db_submissions d) \<and>
         marks_cp_initial_final u c (cp_method cp) (cp_score_revealing cp) (db_submissions d))))"

definition stored :: "submission \<Rightarrow> result_columns \<Rightarrow> db \<Rightarrow> bool" where
  "stored s0 x d \<longleftrightarrow> has_result (sub_id s0) x d \<and> finals_marked s0 d"

lemma update_submission_marks:
  assumes "update_submission s0 a b c r1 r2 log d = (log', Inr d')" and "storable s0 d"
  shows "finals_marked s0 d'"
proof -
  obtain s where s: "find (\<lambda>s. sub_id s = sub_id s0) (db_submissions d) = Some s"
    using assms(2) by (cases "find (\<lambda>s. sub_id s = sub_id s0) (db_submissions d)")
      (auto simp: storable_def find_key_None)
  define rs where "rs = update_where (\<lambda>x. sub_id x = sub_id s0)
    (store_result a b c r1 r2 (score_revealing_of d s)) (db_submissions d)"
  have fin: "update_final (sub_user_id s0) (sub_problem_id s0) (sub_cp_id s0) (d\<lparr>db_submissions := rs\<rparr>) = Inr d'"
    using assms(1) s by (simp add: update_submission_def rs_def)
  have dist: "distinct (map sub_id (db_submissions (d\<lparr>db_submissions := rs\<rparr>)))"
    using assms(2) sub_ids_of_columns[OF store_result_ids, of "\<lambda>x. sub_id x = sub_id s0"]
    by (simp add: rs_def storable_def)
  have "db_contest_problems d' = db_contest_problems d"
    using update_final_frame[OF fin dist] by (metis db.select_convs(8) db.surjective db.update_convs(11))
  then show ?thesis
    using update_final_marks[OF dist] fin by (fastforce simp: finals_marked_def)
qed

lemma update_submission_ok:
  assumes "storable s0 d"
  shows "\<exists>d'. update_submission s0 a b c r1 r2 log d = (log, Inr d')"
proof -
  obtain s where "find (\<lambda>s. sub_id s = sub_id s0) (db_submissions d) = Some s"
    using assms by (cases "find (\<lambda>s. sub_id s = sub_id s0) (db_submissions d)")
      (auto simp: storable_def find_key_None)
  then show ?thesis
    using update_final_total[of "sub_cp_id s0" "d\<lparr>db_submissions := x\<rparr>" for x] assms
    by (simp add: update_submission_def storable_def cp_ids_def)
qed

section \<open>One attempt, and the attempts after deadlocks\<close>

definition final_status :: "initial_result \<Rightarrow> submission_status \<Rightarrow> submission_status" where
  "final_status init st =
     (if ir_status init \<noteq> Sub_OK \<and> st \<noteq> Sub_JUDGE_ERROR then ir_status init else st)"

lemma final_status_idem [simp]: "final_status init (final_status init st) = final_status init st"
  by (simp add: final_status_def)

text \<open>What an attempt does to the captured variables, whether it commits or not.\<close>

definition capture_step :: "(string \<Rightarrow> string) \<Rightarrow> bool \<Rightarrow> captured \<Rightarrow> captured" where
  "capture_step mf final cap =
     (if final
      then cap\<lparr>cap_report := mf (cap_report cap), cap_score := cap_score cap + ir_score (cap_initial cap),
             cap_status := final_status (cap_initial cap) (cap_status cap)\<rparr>
      else cap\<lparr>cap_initial := \<lparr> ir_report = Some (cap_report cap), ir_score = cap_score cap,
                 ir_status = cap_status cap \<rparr>, cap_report := mf (cap_report cap)\<rparr>)"

text \<open>The columns that it stores.\<close>

definition stored_columns :: "bool \<Rightarrow> captured \<Rightarrow> result_columns" where
  "stored_columns final cap =
     (let init = cap_initial cap; st = cap_status cap
      in if final
         then (ir_status init, final_status init st, Some (cap_score cap + ir_score init),
               (case ir_report init of None \<Rightarrow> [] | Some r \<Rightarrow> r), cap_report cap)
         else (st, (if st \<noteq> Sub_OK then st else Sub_PENDING), None, cap_report cap, []))"

definition job_done :: "id \<Rightarrow> db \<Rightarrow> bool" where
  "job_done jid d \<longleftrightarrow> (\<forall>j \<in> set (db_jobs d). job_id j = jid \<longrightarrow> job_status j = Job_DONE)"

lemma keeps_jobs:
  assumes "\<And>j. (f j)\<lparr>job_status := Job_PENDING, job_log := []\<rparr> = j\<lparr>job_status := Job_PENDING, job_log := []\<rparr>"
  shows "judging_keeps d (d\<lparr>db_jobs := update_where p f (db_jobs d)\<rparr>)"
  using map_update_where_frame[where g = "\<lambda>j. j\<lparr>job_status := Job_PENDING, job_log := []\<rparr>" and f = f, OF assms]
  by (cases d) (simp add: judging_keeps_def)

lemma job_log_keeps:
  "judging_keeps d (update_job_log log jid d)"
  "judging_keeps d (mark_job_as_done log jid d)"
  unfolding update_job_log_def mark_job_as_done_def set_job_status_and_log_def
  by (rule keeps_jobs; simp)+

lemma job_log_results [simp]:
  "stored s0 x (update_job_log log jid d) = stored s0 x d"
  "stored s0 x (mark_job_as_done log jid d) = stored s0 x d"
  by (simp_all add: stored_def finals_marked_def has_result_def update_job_log_def mark_job_as_done_def set_job_status_and_log_def)

lemma update_where_all:
  assumes "\<And>r. p r \<Longrightarrow> Q (f r)" and "\<And>r. \<not> p r \<Longrightarrow> Q r"
  shows "\<forall>r \<in> set (update_where p f rs). Q r"
  by (induction rs) (use assms in auto)

lemma job_done_mark: "job_done jid (mark_job_as_done log jid d)"
proof -
  have eq: "db_jobs (d\<lparr>db_jobs := js\<rparr>) = js" for js
    by simp
  show ?thesis
    unfolding job_done_def mark_job_as_done_def set_job_status_and_log_def eq
    by (rule update_where_all) simp_all
qed

lemma end_transaction_simps [simp]:
  "end_transaction (Some e) cap d r = ((fst r, cap, d), Some e)"
  "end_transaction None cap d (log, Inr d') = ((log, cap, d'), None)"
  "end_transaction None cap d (log, Inl e) = ((log, cap, d), Some e)"
  by (simp_all add: end_transaction_def)

lemma then_db_simps [simp]: "then_db (log, Inr d) f = (log, Inr (f log d))" "then_db (log, Inl e) f = (log, Inl e)"
  "fst (then_db r f) = fst r"
  by (simp_all add: then_db_def)

text \<open>The job's row after the update of the submission.\<close>

definition mark_job :: "bool \<Rightarrow> id \<Rightarrow> string \<Rightarrow> db \<Rightarrow> db" where
  "mark_job is_last jid log = (if is_last then mark_job_as_done log jid else update_job_log log jid)"

lemma mark_job_cases: "mark_job True = (\<lambda>jid log. mark_job_as_done log jid)"
  "mark_job False = (\<lambda>jid log. update_job_log log jid)"
  by (simp_all add: fun_eq_iff mark_job_def)

lemma mark_job_keeps:
  "judging_keeps d (mark_job f jid log d)"
  "stored s0 x (mark_job f jid log d) = stored s0 x d"
  "f \<Longrightarrow> job_done jid (mark_job f jid log d)"
  by (simp_all add: mark_job_def job_log_keeps job_done_mark)

lemma store_attempt_unfold:
  "store_attempt mf jid s0 final partial fault k (log, cap, d) =
     end_transaction (fault k) (capture_step mf final cap) d
       (then_db (case stored_columns final cap of (a, b, c, r1, r2) \<Rightarrow> update_submission s0 a b c r1 r2 log d)
         (mark_job (final \<and> \<not> partial) jid))"
  by (cases final; cases partial)
    (simp_all add: store_attempt_def capture_step_def stored_columns_def final_status_def mark_job_cases Let_def)

lemma update_submission_columns:
  assumes "storable s0 d"
  shows "\<exists>d'. (case x of (a, b, c, r1, r2) \<Rightarrow> update_submission s0 a b c r1 r2 log d) = (log, Inr d')
    \<and> judging_keeps d d' \<and> stored s0 x d'"
proof (cases x)
  case (fields a b c r1 r2)
  obtain d' where "update_submission s0 a b c r1 r2 log d = (log, Inr d')"
    using update_submission_ok[OF assms] by blast
  then show ?thesis
    using update_submission_run[of s0 a b c r1 r2 log d log d'] update_submission_marks assms
    unfolding fields storable_def stored_def by fastforce
qed

lemma store_attempt_fault:
  assumes "storable s0 d" and "fault k = Some e"
  shows "store_attempt mf jid s0 final partial fault k (log, cap, d) =
    ((log, capture_step mf final cap, d), Some e)"
  using update_submission_columns[OF assms(1), where x = "stored_columns final cap" and log = log]
  by (auto simp: store_attempt_unfold assms(2))

lemma store_attempt_ok:
  assumes "storable s0 d" and "fault k = None"
  shows "\<exists>d'. store_attempt mf jid s0 final partial fault k (log, cap, d) =
      ((log, capture_step mf final cap, d'), None)
    \<and> judging_keeps d d' \<and> stored s0 (stored_columns final cap) d'
    \<and> (final \<and> \<not> partial \<longrightarrow> job_done jid d')"
proof -
  obtain d1 where "(case stored_columns final cap of (a, b, c, r1, r2) \<Rightarrow>
      update_submission s0 a b c r1 r2 log d) = (log, Inr d1)"
    "judging_keeps d d1" "stored s0 (stored_columns final cap) d1"
    using update_submission_columns[OF assms(1)] by blast
  then show ?thesis
    using mark_job_keeps judging_keeps_trans[of d d1] by (simp add: store_attempt_unfold assms(2))
qed

text \<open>The database reports a deadlock in the first \<open>k\<close> attempts of a transaction, then it commits.\<close>

definition deadlocks :: "nat \<Rightarrow> (nat \<Rightarrow> exn option) \<Rightarrow> bool" where
  "deadlocks k fault \<longleftrightarrow> k \<le> 128 \<and> (\<forall>j < k. fault j = Some Deadlock) \<and> fault k = None"

lemma store_after_calls:
  assumes "storable s0 d" and "\<forall>j < k. fault j = Some Deadlock" and "j \<le> k"
  shows "after_calls (store_attempt mf jid s0 final partial fault) 0 j (log, cap, d) =
    (log, (capture_step mf final ^^ j) cap, d)"
  using assms(3)
proof (induction j)
  case (Suc j)
  then show ?case
    using store_attempt_fault[OF assms(1), of fault j Deadlock] assms(2)
    by (simp add: after_calls_Suc del: after_calls.simps(2))
qed simp

lemma store_repeated:
  assumes "storable s0 d" and "deadlocks k fault"
  shows "\<exists>d'. repeat_if_deadlocked 128 (store_attempt mf jid s0 final partial fault) (log, cap, d) =
      ((log, capture_step mf final ((capture_step mf final ^^ k) cap), d'), None)
    \<and> judging_keeps d d' \<and> stored s0 (stored_columns final ((capture_step mf final ^^ k) cap)) d'
    \<and> (final \<and> \<not> partial \<longrightarrow> job_done jid d')"
proof -
  let ?f = "store_attempt mf jid s0 final partial fault" and ?cap = "(capture_step mf final ^^ k) cap"
  have dl: "\<forall>j < k. fault j = Some Deadlock" and k: "fault k = None" "k \<le> 128"
    using assms(2) by (auto simp: deadlocks_def)
  obtain d' where d': "?f k (log, ?cap, d) = ((log, capture_step mf final ?cap, d'), None)"
    "judging_keeps d d' \<and> stored s0 (stored_columns final ?cap) d'
      \<and> (final \<and> \<not> partial \<longrightarrow> job_done jid d')"
    using store_attempt_ok[where fault = fault and k = k, OF assms(1) k(1)] by blast
  have "repeat_go 0 128 ?f (log, cap, d) = ?f (0 + k) (after_calls ?f 0 k (log, cap, d))"
    by (rule repeat_go_first_other)
      (use dl k d' store_after_calls[OF assms(1) dl] store_attempt_fault[OF assms(1)] in auto)
  then show ?thesis
    using d' store_after_calls[OF assms(1) dl] by (simp add: repeat_if_deadlocked_def)
qed

section \<open>The report of a judging\<close>

definition total_of :: "group_report list \<Rightarrow> int" where
  "total_of groups = sum_list (map gr_score groups)"

text \<open>The captured variables after \<open>k\<close> attempts.\<close>

lemma capture_steps_final:
  "(capture_step mf True ^^ k) cap =
     cap\<lparr>cap_report := (mf ^^ k) (cap_report cap), cap_score := cap_score cap + int k * ir_score (cap_initial cap),
       cap_status := (if k = 0 then cap_status cap else final_status (cap_initial cap) (cap_status cap))\<rparr>"
  by (induction k) (simp_all add: capture_step_def algebra_simps)

lemma capture_steps_initial:
  "cap_report ((capture_step mf False ^^ k) cap) = (mf ^^ k) (cap_report cap)"
  "cap_score ((capture_step mf False ^^ k) cap) = cap_score cap"
  "cap_status ((capture_step mf False ^^ k) cap) = cap_status cap"
  by (induction k) (simp_all add: capture_step_def)

lemma process_initial_report:
  assumes "storable s0 d" and "deadlocks k fault"
  shows "\<exists>d'. process_judge_report mf jid s0 False partial fault gs (log, init, d) =
      ((log, \<lparr> ir_report = Some ((mf ^^ k) (construct_report gs)), ir_score = total_of gs,
         ir_status = calculate_submission_status gs \<rparr>, d'), None)
    \<and> judging_keeps d d'
    \<and> stored s0
        (let st = calculate_submission_status gs
         in (st, (if st \<noteq> Sub_OK then st else Sub_PENDING), None, (mf ^^ k) (construct_report gs), [])) d'"
proof -
  define cap where "cap = \<lparr> cap_initial = init, cap_report = construct_report gs,
    cap_score = sum_list (map gr_score gs), cap_status = calculate_submission_status gs \<rparr>"
  obtain d' where d': "repeat_if_deadlocked 128 (store_attempt mf jid s0 False partial fault) (log, cap, d) =
      ((log, capture_step mf False ((capture_step mf False ^^ k) cap), d'), None)"
    "judging_keeps d d'" "stored s0 (stored_columns False ((capture_step mf False ^^ k) cap)) d'"
    using store_repeated[OF assms, of mf jid False partial log cap] by blast
  moreover have "cap_initial (capture_step mf False ((capture_step mf False ^^ k) cap)) =
      \<lparr> ir_report = Some ((mf ^^ k) (construct_report gs)), ir_score = total_of gs,
        ir_status = calculate_submission_status gs \<rparr>"
    by (simp add: capture_step_def capture_steps_initial cap_def total_of_def)
  moreover have "stored_columns False ((capture_step mf False ^^ k) cap) =
      (let st = calculate_submission_status gs
       in (st, (if st \<noteq> Sub_OK then st else Sub_PENDING), None, (mf ^^ k) (construct_report gs), []))"
    by (simp add: stored_columns_def capture_steps_initial cap_def Let_def)
  ultimately show ?thesis
    by (auto simp: process_judge_report_def cap_def[symmetric])
qed

lemma process_final_report:
  assumes "storable s0 d" and "deadlocks k fault"
  shows "\<exists>d'. process_judge_report mf jid s0 True partial fault gs (log, init, d) = ((log, init, d'), None)
    \<and> judging_keeps d d'
    \<and> stored s0
        (ir_status init, final_status init (calculate_submission_status gs),
         Some (total_of gs + int (Suc k) * ir_score init),
         (case ir_report init of None \<Rightarrow> [] | Some r \<Rightarrow> r), (mf ^^ k) (construct_report gs)) d'
    \<and> (\<not> partial \<longrightarrow> job_done jid d')"
proof -
  define cap where "cap = \<lparr> cap_initial = init, cap_report = construct_report gs,
    cap_score = sum_list (map gr_score gs), cap_status = calculate_submission_status gs \<rparr>"
  obtain d' where d': "repeat_if_deadlocked 128 (store_attempt mf jid s0 True partial fault) (log, cap, d) =
      ((log, capture_step mf True ((capture_step mf True ^^ k) cap), d'), None)"
    "judging_keeps d d'" "stored s0 (stored_columns True ((capture_step mf True ^^ k) cap)) d'"
    "\<not> partial \<longrightarrow> job_done jid d'"
    using store_repeated[OF assms, of mf jid True partial log cap] by blast
  moreover have "cap_initial (capture_step mf True ((capture_step mf True ^^ k) cap)) = init"
    by (simp add: capture_step_def capture_steps_final cap_def)
  moreover have "stored_columns True ((capture_step mf True ^^ k) cap) =
      (ir_status init, final_status init (calculate_submission_status gs),
       Some (total_of gs + int (Suc k) * ir_score init),
       (case ir_report init of None \<Rightarrow> [] | Some r \<Rightarrow> r), (mf ^^ k) (construct_report gs))"
    by (simp add: stored_columns_def capture_steps_final cap_def total_of_def Let_def algebra_simps)
  ultimately show ?thesis
    by (auto simp: process_judge_report_def cap_def[symmetric])
qed

section \<open>The whole handler\<close>

text \<open>
  The sandbox gives the result \<open>run t\<close> whenever it runs the test \<open>t\<close>, and the arithmetic on doubles has
  its laws.
\<close>

definition reliable :: "'d::linorder judging \<Rightarrow> (test \<Rightarrow> 'd test_run) \<Rightarrow> simfile \<Rightarrow> bool" where
  "reliable w run sf \<longleftrightarrow>
     (\<forall>final. (\<forall>n t. je_run (jg_env w final) n t = Inr (run t)) \<and> double_laws (jg_env w final)
        \<and> (\<forall>t. je_zero (jg_env w final) \<le> tr_score (run t)))
     \<and> (\<forall>g \<in> set (sf_tgroups sf). exact_score (tg_score g))"

text \<open>The groups that the initial and the final judging report.\<close>

definition judged_groups ::
  "'d::linorder judging \<Rightarrow> (test \<Rightarrow> 'd test_run) \<Rightarrow> simfile \<Rightarrow> bool \<Rightarrow> group_report list" where
  "judged_groups w run sf final =
     map (full_group (jg_env w final) run) (filter (in_report final) (sf_tgroups sf))"

lemma judge_and_store_judging:
  fixes w :: "'d::linorder judging"
  assumes "reliable w run sf"
    and partial: "\<And>gs log. snd (process_judge_report (jg_moved_from w) jid s final True
        (jg_fault w (if final then 3 else 1)) gs (log, snd st)) = None"
  shows "\<exists>st' log. judge_and_store w jid s sf final st =
      process_judge_report (jg_moved_from w) jid s final False (jg_fault w (if final then 4 else 2))
        (judged_groups w run sf final) (log, snd st')
    \<and> (st' = st \<or> (\<exists>log gs. st' = fst (process_judge_report (jg_moved_from w) jid s final True
         (jg_fault w (if final then 3 else 1)) gs (log, snd st))))"
proof -
  define logged where "logged p = judging_log (jg_show_ratio w) (jg_checker_memory_limit w) (rep_judge_log p) (fst st)"
    for p :: "'d judge_report"
  define f where "f p st1 = process_judge_report (jg_moved_from w) jid s final True
    (jg_fault w (if final then 3 else 1)) (rep_groups p) (logged p, snd st1)"
    for p :: "'d judge_report" and st1 :: "string \<times> initial_result \<times> db"
  have "\<forall>f' p. Some f = Some f' \<longrightarrow> snd (f' p st) = None"
    using partial by (auto simp only: f_def option.inject)
  then obtain st' rep mid where run: "process_tests (jg_env w final) (Some f) (sf_tgroups sf) final st =
      (st', Inr (rep, mid))" and groups: "rep_groups rep = judged_groups w run sf final"
    using process_tests_full[of "jg_env w final" run "sf_tgroups sf" "Some f" st final] assms(1)
    unfolding reliable_def judged_groups_def by blast
  have "st' = st \<or> (\<exists>p. st' = fst (f p st))"
  proof (cases mid)
    case (Some p)
    then have "fst (f p st) = st'"
      using process_tests_state[OF run] by simp
    then show ?thesis
      by blast
  qed (use process_tests_state[OF run] in simp)
  moreover have "\<exists>log. judge_and_store w jid s sf final st =
      process_judge_report (jg_moved_from w) jid s final False (jg_fault w (if final then 4 else 2))
        (judged_groups w run sf final) (log, snd st')"
    using run groups unfolding judge_and_store_def judge_def Let_def f_def logged_def
    by (cases final) (auto simp: numeral_2_eq_2)
  ultimately show ?thesis
    unfolding f_def by blast
qed

text \<open>
  The transactions that store reports commit after some deadlocks: \<open>k\<close> of them in the full initial
  report, \<open>l\<close> in the full final report.
\<close>

definition deadlocking :: "'d judging \<Rightarrow> nat \<Rightarrow> nat \<Rightarrow> bool" where
  "deadlocking w k l \<longleftrightarrow> jg_fault w 0 0 = None \<and> (\<exists>m. deadlocks m (jg_fault w 1)) \<and>
     deadlocks k (jg_fault w 2) \<and> (\<exists>m. deadlocks m (jg_fault w 3)) \<and> deadlocks l (jg_fault w 4)"

lemma process_report_keeps:
  assumes "storable s0 d" and "deadlocks k fault"
  shows "\<exists>init' d'. process_judge_report mf jid s0 final partial fault gs (log, init, d) = ((log, init', d'), None)
    \<and> judging_keeps d d' \<and> (final \<longrightarrow> init' = init)"
proof (cases final)
  case True
  then show ?thesis
    using process_final_report[OF assms, of mf jid partial gs log init] by auto
next
  case False
  then show ?thesis
    using process_initial_report[OF assms, of mf jid partial gs log init] by auto
qed

text \<open>A judging stores its full report on a database that the partial report has kept.\<close>

lemma judge_and_store_full:
  fixes w :: "'d::linorder judging"
  assumes "reliable w run sf" and "storable s d" and "deadlocks m (jg_fault w (if final then 3 else 1))"
  shows "\<exists>log1 init1 d1. judge_and_store w jid s sf final (log, init, d) =
      process_judge_report (jg_moved_from w) jid s final False (jg_fault w (if final then 4 else 2))
        (judged_groups w run sf final) (log1, init1, d1)
    \<and> judging_keeps d d1 \<and> (final \<longrightarrow> init1 = init)"
proof -
  note keeps = process_report_keeps[OF assms(2,3), of "jg_moved_from w" jid final True]
  have "snd (process_judge_report (jg_moved_from w) jid s final True
      (jg_fault w (if final then 3 else 1)) gs (log2, snd (log, init, d))) = None" for gs log2
    using keeps[of gs log2 init] by (elim exE conjE) simp
  from judge_and_store_judging[OF assms(1), of jid s final "(log, init, d)", OF this]
  obtain st' log1 where run: "judge_and_store w jid s sf final (log, init, d) =
      process_judge_report (jg_moved_from w) jid s final False (jg_fault w (if final then 4 else 2))
        (judged_groups w run sf final) (log1, snd st')"
    and st': "st' = (log, init, d) \<or> (\<exists>log2 gs. st' = fst (process_judge_report (jg_moved_from w) jid s final
      True (jg_fault w (if final then 3 else 1)) gs (log2, snd (log, init, d))))"
    by blast
  from st' have "judging_keeps d (snd (snd st')) \<and> (final \<longrightarrow> fst (snd st') = init)"
  proof
    assume "\<exists>log2 gs. st' = fst (process_judge_report (jg_moved_from w) jid s final
      True (jg_fault w (if final then 3 else 1)) gs (log2, snd (log, init, d)))"
    then obtain log2 gs where st': "st' = fst (process_judge_report (jg_moved_from w) jid s final
      True (jg_fault w (if final then 3 else 1)) gs (log2, init, d))"
      by auto
    obtain init' d' where "process_judge_report (jg_moved_from w) jid s final True
        (jg_fault w (if final then 3 else 1)) gs (log2, init, d) = ((log2, init', d'), None)"
      "judging_keeps d d'" "final \<longrightarrow> init' = init"
      using keeps by blast
    then show ?thesis
      using st' by simp
  qed simp
  then show ?thesis
    using run by (metis prod.collapse)
qed

text \<open>What the two judgings leave in the row of the submission.\<close>

definition judging_columns ::
  "'d::linorder judging \<Rightarrow> (test \<Rightarrow> 'd test_run) \<Rightarrow> simfile \<Rightarrow> nat \<Rightarrow> nat \<Rightarrow> result_columns" where
  "judging_columns w run sf k l =
     (let initial = judged_groups w run sf False; final = judged_groups w run sf True;
          initial_status = calculate_submission_status initial;
          status = calculate_submission_status final
      in (initial_status,
          (if initial_status \<noteq> Sub_OK \<and> status \<noteq> Sub_JUDGE_ERROR then initial_status else status),
          Some (total_of final + int (Suc l) * total_of initial),
          (jg_moved_from w ^^ k) (construct_report initial),
          (jg_moved_from w ^^ l) (construct_report final)))"

lemma judgings_result:
  assumes "reliable w run sf" and "storable s d" and "deadlocking w k l"
  shows "\<exists>log1 init log2 d1 d2. judge_and_store w jid s sf False (log, init0, d) = ((log1, init, d1), None)
    \<and> judge_and_store w jid s sf True (log1, init, d1) = ((log2, init, d2), None)
    \<and> judging_keeps d d2 \<and> stored s (judging_columns w run sf k l) d2 \<and> job_done jid d2"
proof -
  obtain m n where faults: "deadlocks m (jg_fault w 1)" "deadlocks n (jg_fault w 3)"
    "deadlocks k (jg_fault w 2)" "deadlocks l (jg_fault w 4)"
    using assms(3) by (auto simp: deadlocking_def)
  obtain log1 init1 d1 where first: "judge_and_store w jid s sf False (log, init0, d) =
      process_judge_report (jg_moved_from w) jid s False False (jg_fault w 2)
        (judged_groups w run sf False) (log1, init1, d1)" and keeps1: "judging_keeps d d1"
    using judge_and_store_full[OF assms(1,2), of m False jid log init0] faults(1) by auto
  define init where "init =
    \<lparr> ir_report = Some ((jg_moved_from w ^^ k) (construct_report (judged_groups w run sf False))),
      ir_score = total_of (judged_groups w run sf False),
      ir_status = calculate_submission_status (judged_groups w run sf False) \<rparr>"
  obtain d2 where "judge_and_store w jid s sf False (log, init0, d) = ((log1, init, d2), None)"
    and keeps2: "judging_keeps d1 d2"
    using process_initial_report[OF storable_keeps[OF assms(2) keeps1] faults(3)] first
    unfolding init_def by metis
  moreover have storable2: "storable s d2"
    using storable_keeps assms(2) keeps1 keeps2 by blast
  obtain log3 d3 where second: "judge_and_store w jid s sf True (log1, init, d2) =
      process_judge_report (jg_moved_from w) jid s True False (jg_fault w 4)
        (judged_groups w run sf True) (log3, init, d3)" and keeps3: "judging_keeps d2 d3"
    using judge_and_store_full[OF assms(1) storable2, of n True jid log1 init] faults(2) by auto
  have cols: "(ir_status init, final_status init (calculate_submission_status (judged_groups w run sf True)),
      Some (total_of (judged_groups w run sf True) + int (Suc l) * ir_score init),
      (case ir_report init of None \<Rightarrow> [] | Some r \<Rightarrow> r),
      (jg_moved_from w ^^ l) (construct_report (judged_groups w run sf True))) = judging_columns w run sf k l"
    by (simp add: judging_columns_def init_def final_status_def Let_def del: of_nat_Suc)
  obtain d4 where "judge_and_store w jid s sf True (log1, init, d2) = ((log3, init, d4), None)"
    and keeps4: "judging_keeps d3 d4" and "job_done jid d4"
    and "stored s (judging_columns w run sf k l) d4"
    using process_final_report[OF storable_keeps[OF storable2 keeps3] faults(4), of "jg_moved_from w" jid False
        "judged_groups w run sf True" log3 init] second
    unfolding cols by metis
  moreover have "judging_keeps d d4"
    using keeps1 keeps2 keeps3 keeps4 judging_keeps_trans by blast
  ultimately show ?thesis
    by blast
qed

section \<open>What no judging changes\<close>

lemma distinct_keeps:
  "judging_keeps d d' \<Longrightarrow> distinct (map sub_id (db_submissions d)) \<Longrightarrow> distinct (map sub_id (db_submissions d'))"
  unfolding judging_keeps_def using sub_ids_of_columns by metis

text \<open>A database that the judging of \<open>d0\<close> may have reached.\<close>

definition judged_from :: "db \<Rightarrow> db \<Rightarrow> bool" where
  "judged_from d0 d \<longleftrightarrow> judging_keeps d0 d \<and> distinct (map sub_id (db_submissions d))"

lemma judged_from_trans: "judged_from d0 d \<Longrightarrow> judging_keeps d d' \<Longrightarrow> judged_from d0 d'"
  unfolding judged_from_def using judging_keeps_trans distinct_keeps by blast

lemma update_then_mark_keeps:
  assumes "judged_from d0 d" and "then_db (update_submission s a b c r1 r2 log d) (mark_job last_one jid) = (log', Inr d')"
  shows "judged_from d0 d'"
proof -
  obtain log1 d1 where "update_submission s a b c r1 r2 log d = (log1, Inr d1)" and "d' = mark_job last_one jid log1 d1"
    using assms(2) by (cases "update_submission s a b c r1 r2 log d"; cases "snd (update_submission s a b c r1 r2 log d)")
      (auto simp: then_db_def)
  then show ?thesis
    using update_submission_run[of s a b c r1 r2 log d log1 d1] assms(1) judged_from_trans mark_job_keeps(1)
    unfolding judged_from_def by blast
qed

lemma store_attempt_keeps:
  assumes "judged_from d0 (snd (snd st))"
  shows "judged_from d0 (snd (snd (fst (store_attempt mf jid s0 final partial fault k st))))"
proof (cases st)
  case (fields log cap d)
  obtain a b c r1 r2 where cols: "stored_columns final cap = (a, b, c, r1, r2)"
    by (cases "stored_columns final cap")
  show ?thesis
    using assms update_then_mark_keeps[of d0 d s0 a b c r1 r2 log "final \<and> \<not> partial" jid]
    by (auto simp: fields store_attempt_unfold cols end_transaction_def prod_eq_iff split: option.splits sum.splits)
qed

text \<open>What every call keeps, the retries keep.\<close>

lemma repeat_keeps:
  assumes "\<And>k s. P s \<Longrightarrow> P (fst (func k s))" and "P s"
  shows "P (fst (repeat_if_deadlocked limit func s))"
proof -
  have "case repeat_go 0 limit func s of (s', None) \<Rightarrow> P s' | (s', Some e) \<Rightarrow> P s'"
    using assms by (intro repeat_go_cases) (metis fst_conv)+
  then show ?thesis
    by (simp add: repeat_if_deadlocked_def split: prod.splits option.splits)
qed

lemma process_judge_report_keeps:
  assumes "judged_from d0 (snd (snd st))"
  shows "judged_from d0 (snd (snd (fst (process_judge_report mf jid s0 final partial fault gs st))))"
proof (cases st)
  case (fields log init d)
  let ?f = "store_attempt mf jid s0 final partial fault"
  have "judged_from d0 (snd (snd (fst (repeat_if_deadlocked 128 ?f (log, cap, d)))))" for cap
    by (rule repeat_keeps, rule store_attempt_keeps) (use assms in \<open>simp_all add: fields\<close>)
  then show ?thesis
    by (auto simp: fields process_judge_report_def Let_def split: prod.splits) (metis fst_conv snd_conv)
qed

lemma process_tests_keeps:
  assumes "P s" and "\<And>f p. cb = Some f \<Longrightarrow> P (fst (f p s))"
  shows "P (fst (process_tests env cb gs final s))"
proof (cases "first_round env (cb \<noteq> None) final gs (0, [Log_begin final])")
  case (Inr x)
  then obtain rs skipped n l where x: "first_round env (cb \<noteq> None) final gs (0, [Log_begin final]) =
      Inr (rs, skipped, n, l)"
    by (cases x) auto
  show ?thesis
  proof (cases cb)
    case (Some f)
    let ?p = "\<lparr> rep_groups = rs, rep_judge_log =
      l @ [Log_final_score (to_int64 (total_score rs)) (to_int64 (total_max_score rs))] \<rparr>"
    obtain s' e where "f ?p s = (s', e)"
      by (cases "f ?p s")
    then show ?thesis
      using assms(1) assms(2)[OF Some, of ?p] x unfolding process_tests_def Some
      by (cases e) (simp_all add: Let_def)
  qed (use assms(1) x in \<open>simp add: process_tests_def Let_def\<close>)
qed (use assms(1) in \<open>simp add: process_tests_def\<close>)

lemma judge_and_store_keeps:
  assumes "judged_from d0 (snd (snd st))"
  shows "judged_from d0 (snd (snd (fst (judge_and_store w jid s sf final st))))"
proof -
  define f where "f p st1 = process_judge_report (jg_moved_from w) jid s final True
    (jg_fault w (if final then 3 else 1)) (rep_groups p)
    (judging_log (jg_show_ratio w) (jg_checker_memory_limit w) (rep_judge_log p) (fst st), snd st1)"
    for p :: "'a judge_report" and st1 :: "string \<times> initial_result \<times> db"
  have "judged_from d0 (snd (snd (fst (f p st))))" for p
    unfolding f_def using assms by (intro process_judge_report_keeps) simp
  then have run: "judged_from d0 (snd (snd (fst (process_tests (jg_env w final) (Some f) (sf_tgroups sf) final st))))"
    by (intro process_tests_keeps[where P = "\<lambda>st. judged_from d0 (snd (snd st))"]) (use assms in auto)
  obtain st' r where r: "process_tests (jg_env w final) (Some f) (sf_tgroups sf) final st = (st', r)"
    by (cases "process_tests (jg_env w final) (Some f) (sf_tgroups sf) final st")
  show ?thesis
    using run r unfolding judge_and_store_def judge_def Let_def f_def[symmetric]
    by (cases r) (auto intro!: process_judge_report_keeps)
qed

lemma cancelled_keeps: "judging_keeps d (mark_job_as_cancelled log jid d)"
  unfolding mark_job_as_cancelled_def set_job_status_and_log_def by (rule keeps_jobs; simp)

lemma update_then_done_keeps:
  assumes "judged_from d0 d"
    and "snd (then_db (update_submission s a b c r1 r2 log d) (\<lambda>l. mark_job_as_done l jid)) = Inr d'"
  shows "judged_from d0 d'"
  using update_then_mark_keeps[OF assms(1), of s a b c r1 r2 log True jid
      "fst (then_db (update_submission s a b c r1 r2 log d) (\<lambda>l. mark_job_as_done l jid))" d'] assms(2)
  by (simp add: mark_job_cases prod_eq_iff)

text \<open>Every end of the first transaction.\<close>

definition prepared_from :: "db \<Rightarrow> prepared res \<Rightarrow> bool" where
  "prepared_from d0 r \<longleftrightarrow> (\<forall>d. r = Inr (Inl d) \<longrightarrow> judged_from d0 d)
     \<and> (\<forall>d s sf. r = Inr (Inr (d, s, sf)) \<longrightarrow> judged_from d0 d)"

lemma prepared_from_Inl [simp]: "prepared_from d0 (Inl e)"
  by (simp add: prepared_from_def)

lemma end_job_keeps: "(\<And>d'. snd r = Inr d' \<Longrightarrow> judged_from d0 d') \<Longrightarrow> prepared_from d0 (snd (end_job r))"
  by (cases "snd r") (auto simp: prepared_from_def end_job_def)

lemma end_with_status_keeps:
  "judged_from d0 d \<Longrightarrow> prepared_from d0 (snd (end_with_status jid s st rep log d))"
  unfolding end_with_status_def by (intro end_job_keeps) (rule update_then_done_keeps)

lemma compile_checker_keeps:
  assumes "judged_from d0 d"
  shows "prepared_from d0 (snd (compile_checker_step w jid s sf log d))"
proof (cases "jg_compile_checker w sf")
  case (Inr r)
  show ?thesis
  proof (cases r)
    case None
    have "judged_from d0 (update_job_log l jid d)" for l
      using judged_from_trans[OF assms job_log_keeps(1)] .
    then show ?thesis
      by (simp add: compile_checker_step_def Inr None Let_def prepared_from_def)
  qed (use end_with_status_keeps[OF assms] Inr in \<open>simp add: compile_checker_step_def Let_def\<close>)
qed (simp add: compile_checker_step_def Let_def)

lemma compile_solution_keeps:
  assumes "judged_from d0 d"
  shows "prepared_from d0 (snd (compile_solution_step w jid s sf log d))"
proof (cases "jg_compile_solution w (sub_file_id s) (sub_language s)")
  case (Inr r)
  then show ?thesis
    using end_with_status_keeps[OF assms] compile_checker_keeps[OF assms]
    by (cases r) (simp_all add: compile_solution_step_def Let_def)
qed (simp add: compile_solution_step_def Let_def)

lemma prepare_judging_keeps:
  assumes "judged_from d0 d"
  shows "prepared_from d0 (snd (prepare_judging w jid sid log d))"
proof -
  have "prepared_from d0 (snd (end_job (cancelled jid l d)))" for l
    using judged_from_trans[OF assms cancelled_keeps] by (intro end_job_keeps) (auto simp: cancelled_def)
  then show ?thesis
    using compile_solution_keeps[OF assms]
    unfolding prepare_judging_def Let_def
    by (cases "select_submission sid jid d") (auto split: option.split prod.split sum.split)
qed


section \<open>The result of a judging\<close>

lemma prepare_judging_Inr:
  assumes "prepare_judging w jid sid log d = (log', Inr (Inr (d1, s, sf)))"
  shows "s \<in> set (db_submissions d) \<and> sub_id s = sid"
  using assms
  by (auto simp: prepare_judging_def compile_solution_step_def compile_checker_step_def end_with_status_def
      end_job_def select_submission_def map_sum_def Let_def find_Some_iff
      split: option.splits if_splits sum.splits prod.splits)

lemma judge_submission_run:
  assumes "prepare_judging w jid sid log d = (log1, Inr (Inr (d1, s, sf)))"
    and "distinct (map sub_id (db_submissions d))" and "refs_ok d"
    and "reliable w run sf" and "deadlocking w k l"
  shows "\<exists>log2 d2. judge_or_rejudge_submission w jid sid (log, d) = ((log2, d2), None)
    \<and> judging_keeps d d2 \<and> job_done jid d2 \<and> stored s (judging_columns w run sf k l) d2"
proof -
  have s: "s \<in> set (db_submissions d)" "sub_id s = sid"
    using prepare_judging_Inr[OF assms(1)] by simp_all
  have start: "judged_from d d"
    using assms(2) by (simp add: judged_from_def)
  have keeps: "judging_keeps d d1"
    using prepare_judging_keeps[OF start, of w jid sid log] assms(1)
    by (simp add: prepared_from_def judged_from_def)
  have "storable s d"
    using s assms(2,3) by (auto simp: storable_def refs_ok_def sub_refs_def)
  then have storable: "storable s d1"
    using keeps storable_keeps by blast
  obtain log2 init log3 d2 d3 where
    "judge_and_store w jid s sf False (log1, \<lparr> ir_report = None, ir_score = 0, ir_status = Sub_PENDING \<rparr>, d1) =
      ((log2, init, d2), None)"
    "judge_and_store w jid s sf True (log2, init, d2) = ((log3, init, d3), None)"
    "judging_keeps d1 d3" "stored s (judging_columns w run sf k l) d3" "job_done jid d3"
    using judgings_result[OF assms(4) storable assms(5)] by blast
  moreover have "jg_fault w 0 0 = None"
    using assms(5) by (simp add: deadlocking_def)
  ultimately show ?thesis
    using assms(1) judging_keeps_trans[OF keeps] by (auto simp: judge_or_rejudge_submission_def)
qed


definition sample_judging :: "int judging" where
  "sample_judging = \<lparr> jg_load_package = (\<lambda>f. Inr (no_simfile\<lparr>sf_tgroups := judging_groups\<rparr>)),
     jg_compile_solution = (\<lambda>f l. Inr None), jg_compile_checker = (\<lambda>sf. Inr None),
     jg_env = (\<lambda>final. judging_env), jg_show_ratio = int_to_string, jg_checker_memory_limit = 2 ^ 29,
     jg_moved_from = (\<lambda>s. []), jg_fault = (\<lambda>n k. None) \<rparr>"

lemma sample_judging_ok: "reliable sample_judging judging_run (no_simfile\<lparr>sf_tgroups := judging_groups\<rparr>)"
  "deadlocking sample_judging 0 0"
proof -
  have "deadlocks 0 (\<lambda>k. None)"
    by (simp add: deadlocks_def)
  then show "deadlocking sample_judging 0 0"
    by (auto simp: deadlocking_def sample_judging_def)
qed (use judging_env_laws judging_groups_exact in \<open>auto simp: reliable_def sample_judging_def\<close>)

lemma sample_prepare:
  assumes "w = sample_judging\<lparr>jg_fault := f\<rparr>"
  shows "\<exists>log1 d1. prepare_judging w 9 1 [] sample_delete_db =
    (log1, Inr (Inr (d1, hd (db_submissions sample_delete_db), no_simfile\<lparr>sf_tgroups := judging_groups\<rparr>)))"
  by (simp add: assms prepare_judging_def compile_solution_step_def compile_checker_step_def select_submission_def
      sample_delete_db_def sample_submission_def sample_job_def sample_judging_def find_problem_def Let_def)

lemma sample_groups_judged:
  assumes "w = sample_judging\<lparr>jg_fault := f\<rparr>"
  shows "total_of (judged_groups w judging_run (no_simfile\<lparr>sf_tgroups := judging_groups\<rparr>) False) = 5"
    and "total_of (judged_groups w judging_run (no_simfile\<lparr>sf_tgroups := judging_groups\<rparr>) True) = 60"
  by (simp_all add: assms sample_judging_def) (code_simp)+


text \<open>
  C6. A deadlock changes the result. When the database reports a deadlock in the first \<open>l\<close> attempts (at most
  128) to store the final report, and then commits, the score of the initial judging is counted \<open>l + 1\<close>
  times and the stored final report is what \<open>std::move\<close> left of it: the function passed to
  \<open>repeat_if_deadlocked\<close> changes captured variables, so repeating it does not repeat the transaction.
  Likewise, \<open>k\<close> deadlocks in storing the initial report leave a moved-from initial report.
\<close>

theorem deadlock_counts_initial_score_again:
  assumes "prepare_judging w jid sid log d = (log1, Inr (Inr (d1, s, sf)))"
    and "distinct (map sub_id (db_submissions d))" and "refs_ok d"
    and "reliable w run sf" and "deadlocking w k l"
  shows "\<exists>log2 d2. judge_or_rejudge_submission w jid sid (log, d) = ((log2, d2), None) \<and> job_done jid d2
    \<and> (\<forall>q \<in> set (db_submissions d2). sub_id q = sid \<longrightarrow>
        sub_score q = Some (total_of (judged_groups w run sf True)
          + int (l + 1) * total_of (judged_groups w run sf False))
      \<and> sub_initial_report q = (jg_moved_from w ^^ k) (construct_report (judged_groups w run sf False))
      \<and> sub_final_report q = (jg_moved_from w ^^ l) (construct_report (judged_groups w run sf True)))"
proof -
  have "sub_id s = sid"
    using prepare_judging_Inr[OF assms(1)] by simp
  then show ?thesis
    using judge_submission_run[OF assms]
    by (fastforce simp: stored_def has_result_def result_columns_def judging_columns_def Let_def)
qed

text \<open>One deadlock in the last transaction.\<close>

definition one_deadlock :: "nat \<Rightarrow> nat \<Rightarrow> exn option" where
  "one_deadlock n k = (if n = 4 \<and> k = 0 then Some Deadlock else None)"

theorem deadlock_counts_initial_score_again_witness:
  "\<exists>log2 d2. judge_or_rejudge_submission (sample_judging\<lparr>jg_fault := one_deadlock\<rparr>) 9 1 ([], sample_delete_db) =
      ((log2, d2), None)
    \<and> (\<forall>q \<in> set (db_submissions d2). sub_id q = 1 \<longrightarrow> sub_score q = Some 70 \<and> sub_final_report q = [])"
proof -
  let ?w = "sample_judging\<lparr>jg_fault := one_deadlock\<rparr>"
  obtain log1 d1 where prep: "prepare_judging ?w 9 1 [] sample_delete_db =
    (log1, Inr (Inr (d1, hd (db_submissions sample_delete_db), no_simfile\<lparr>sf_tgroups := judging_groups\<rparr>)))"
    using sample_prepare[OF refl] by blast
  have dist: "distinct (map sub_id (db_submissions sample_delete_db))"
    using sample_delete_ok(2) by (simp add: keys_ok_def)
  have "deadlocks 0 (one_deadlock n)" if "n \<noteq> 4" for n
    using that by (simp add: deadlocks_def one_deadlock_def)
  moreover have "deadlocks 1 (one_deadlock 4)"
    by (simp add: deadlocks_def one_deadlock_def)
  ultimately have faults: "deadlocking ?w 0 1"
    by (force simp: deadlocking_def one_deadlock_def)
  have rel: "reliable ?w judging_run (no_simfile\<lparr>sf_tgroups := judging_groups\<rparr>)"
    using sample_judging_ok(1) by (simp add: reliable_def)
  from deadlock_counts_initial_score_again[OF prep dist sample_delete_ok(3) rel faults] show ?thesis
    using sample_groups_judged[OF refl] by (auto simp: sample_judging_def)
qed


end
