(* ===== verification/Web_Http.thy ===== *)
theory Web_Http
  imports Config_File Sim_Types
begin

text \<open>
  The HTTP layer of the web server (src/subprojects/sim/src/web_server/http/) and the JSON builder
  it answers with (src/subprojects/simlib/include/simlib/json_str/json_str.hh): headers, cookies,
  form fields, the validation of API parameters, requests and responses. The error text that the
  validation functions append to is threaded explicitly.
\<close>

section \<open>headers.hh\<close>

text \<open>
  \<open>Headers\<close>: a map whose keys are compared without regard to case; the entries as an association
  list with distinct keys.
\<close>

type_synonym headers = "(string \<times> string) list"

fun headers_get :: "headers \<Rightarrow> string \<Rightarrow> string option" where
  "headers_get [] key = None"
| "headers_get ((k, v) # hs) key = (if lower_equal k key then Some v else headers_get hs key)"

fun headers_set :: "headers \<Rightarrow> string \<Rightarrow> string \<Rightarrow> headers" where
  "headers_set [] key v = [(key, v)]"
| "headers_set ((k, v') # hs) key v =
     (if lower_equal k key then (k, v) # hs else (k, v') # headers_set hs key v)"

lemma headers_get_set:
  "headers_get (headers_set hs key v) key' = (if lower_equal key key' then Some v else headers_get hs key')"
  by (induction hs key v rule: headers_set.induct) (auto simp: lower_equal_def)

section \<open>cookies.hh, cookies.cc\<close>

text \<open>
  The date of \<open>strftime\<close> with \<open>"%a, %d %b %Y %H:%M:%S GMT"\<close> on \<open>gmtime_r\<close>: the day number since 1970
  is turned into a civil date of the Gregorian calendar.
\<close>

definition two_digits :: "int \<Rightarrow> string" where
  "two_digits n = padded_string (int_to_string n) 2 RIGHT CHR ''0''"

definition civil_of_days :: "int \<Rightarrow> int \<times> int \<times> int" where
  "civil_of_days days =
     (let z = days + 719468;
          era = z div 146097;
          doe = z mod 146097;
          yoe = (doe - doe div 1460 + doe div 36524 - doe div 146096) div 365;
          doy = doe - (365 * yoe + yoe div 4 - yoe div 100);
          mp = (5 * doy + 2) div 153;
          d = doy - (153 * mp + 2) div 5 + 1;
          m = (if mp < 10 then mp + 3 else mp - 9)
      in (yoe + era * 400 + (if m \<le> 2 then 1 else 0), m, d))"

definition day_names :: "string list" where
  "day_names = [''Sun'', ''Mon'', ''Tue'', ''Wed'', ''Thu'', ''Fri'', ''Sat'']"

definition month_names :: "string list" where
  "month_names = [''Jan'', ''Feb'', ''Mar'', ''Apr'', ''May'', ''Jun'', ''Jul'', ''Aug'', ''Sep'', ''Oct'',
     ''Nov'', ''Dec'']"

definition time_of_day :: "int \<Rightarrow> string" where
  "time_of_day t =
     (let s = t mod 86400
      in two_digits (s div 3600) @ '':'' @ two_digits (s div 60 mod 60) @ '':'' @ two_digits (s mod 60))"

definition gmt_date :: "int \<Rightarrow> string" where
  "gmt_date t =
     (let days = t div 86400; (y, m, d) = civil_of_days days
      in day_names ! nat ((days + 4) mod 7) @ '', '' @ two_digits d @ '' '' @
         month_names ! nat (m - 1) @ '' '' @ int_to_string y @ '' '' @ time_of_day t @ '' GMT'')"

text \<open>\<open>utc_mysql_datetime_from_time_t\<close>: \<open>"%Y-%m-%d %H:%M:%S"\<close>.\<close>

definition utc_mysql_datetime :: "int \<Rightarrow> datetime" where
  "utc_mysql_datetime t =
     (let (y, m, d) = civil_of_days (t div 86400)
      in int_to_string y @ ''-'' @ two_digits m @ ''-'' @ two_digits d @ '' '' @ time_of_day t)"

definition set_cookie ::
  "headers \<Rightarrow> string \<Rightarrow> string \<Rightarrow> int option \<Rightarrow> string option \<Rightarrow> bool \<Rightarrow> bool \<Rightarrow> headers" where
  "set_cookie cookies name val expire path http_only secure =
     headers_set cookies name
       (val @ ''; SameSite=Lax'' @
        (case expire of None \<Rightarrow> [] | Some t \<Rightarrow> ''; Expires='' @ gmt_date t) @
        (case path of None \<Rightarrow> [] | Some p \<Rightarrow> ''; Path='' @ p) @
        (if http_only then ''; HttpOnly'' else []) @
        (if secure then ''; Secure'' else []))"

definition get_set_cookie :: "headers \<Rightarrow> string \<Rightarrow> string option" where
  "get_set_cookie cookies name =
     map_option (takeWhile (\<lambda>c. c \<noteq> CHR '';'')) (headers_get cookies name)"

lemma takeWhile_value: "CHR '';'' \<notin> set v \<Longrightarrow> takeWhile (\<lambda>c. c \<noteq> CHR '';'') (v @ CHR '';'' # r) = v"
  by (induction v) auto

lemma get_set_cookie_set:
  "CHR '';'' \<notin> set v \<Longrightarrow> get_set_cookie (set_cookie cs n v e p h s) n = Some v"
  by (simp add: get_set_cookie_def set_cookie_def headers_get_set lower_equal_def takeWhile_value)

section \<open>form_fields.hh\<close>

record form_fields =
  ff_files :: "string \<rightharpoonup> string"
  ff_others :: "string \<rightharpoonup> string"

definition no_fields :: form_fields where
  "no_fields = \<lparr> ff_files = (\<lambda>_. None), ff_others = (\<lambda>_. None) \<rparr>"

text \<open>\<open>std::map::emplace\<close> leaves an existing entry as it is.\<close>

definition emplace :: "string \<Rightarrow> string \<Rightarrow> (string \<rightharpoonup> string) \<Rightarrow> (string \<rightharpoonup> string)" where
  "emplace k v m = (if m k = None then m(k \<mapsto> v) else m)"

definition add_field :: "string \<Rightarrow> string \<Rightarrow> string option \<Rightarrow> form_fields \<Rightarrow> form_fields" where
  "add_field name val tmp_file_path ff =
     \<lparr> ff_files = (case tmp_file_path of
         Some p \<Rightarrow> emplace name p (ff_files ff)
       | None \<Rightarrow> (ff_files ff)(name := None)),
       ff_others = emplace name val (ff_others ff) \<rparr>"

definition ff_get :: "form_fields \<Rightarrow> string \<Rightarrow> string option" where
  "ff_get ff name = ff_others ff name"

definition ff_contains :: "form_fields \<Rightarrow> string \<Rightarrow> bool" where
  "ff_contains ff name \<longleftrightarrow> ff_others ff name \<noteq> None"

definition ff_file_path :: "form_fields \<Rightarrow> string \<Rightarrow> string option" where
  "ff_file_path ff name = ff_files ff name"

lemma ff_get_add_field:
  "ff_get (add_field n v p ff) m = (if m = n \<and> ff_get ff n = None then Some v else ff_get ff m)"
  by (auto simp: ff_get_def add_field_def emplace_def)

section \<open>form_validation.hh\<close>

record api_param =
  ap_name :: string
  ap_description :: string
  ap_allow_blank :: bool

definition api_param_of :: "string \<Rightarrow> string \<Rightarrow> api_param" where
  "api_param_of name descr = \<lparr> ap_name = name, ap_description = descr, ap_allow_blank = False \<rparr>"

definition allow_blank_if :: "api_param \<Rightarrow> bool \<Rightarrow> api_param" where
  "allow_blank_if p cond = p\<lparr>ap_allow_blank := cond\<rparr>"

definition allow_blank :: "api_param \<Rightarrow> api_param" where
  "allow_blank p = allow_blank_if p True"

lemma allow_blank_simps [simp]:
  "ap_name (allow_blank p) = ap_name p" "ap_description (allow_blank p) = ap_description p"
  "ap_allow_blank (allow_blank p)"
  "ap_name (api_param_of n d) = n" "ap_description (api_param_of n d) = d"
  "\<not> ap_allow_blank (api_param_of n d)"
  by (simp_all add: allow_blank_def allow_blank_if_def api_param_of_def)

text \<open>
  A validation takes the errors collected so far and returns the value, if the field is valid, and
  the errors. \<open>'a field\<close> is one that has its form fields already.
\<close>

type_synonym 'a field = "string \<Rightarrow> 'a option \<times> string"
type_synonym 'a validator = "api_param \<Rightarrow> string \<Rightarrow> 'a field"

definition append_error :: "api_param \<Rightarrow> string \<Rightarrow> 'a field" where
  "append_error p msg errors_str =
     (None, (if errors_str = [] then [] else errors_str @ [CHR 0x0A]) @
        ap_name p @ '': '' @ ap_description p @ '' '' @ msg)"

text \<open>The overloads of \<open>validate\<close>, one per type of the parameter.\<close>

definition validate_cstring :: "string validator" where
  "validate_cstring p s errors_str =
     (if s = [] \<and> \<not> ap_allow_blank p then append_error p ''cannot be blank'' errors_str
      else (Some s, errors_str))"

definition validate_blob :: "string validator" where
  "validate_blob p s errors_str =
     (if s = [] \<and> \<not> ap_allow_blank p then append_error p ''cannot be blank'' errors_str
      else (Some s, errors_str))"

definition validate_varbinary :: "nat \<Rightarrow> string validator" where
  "validate_varbinary max_len p s errors_str =
     (if s = [] \<and> \<not> ap_allow_blank p then append_error p ''cannot be blank'' errors_str
      else if max_len < length s
      then append_error p (''cannot be longer than '' @ int_to_string (int max_len) @ '' bytes'') errors_str
      else (Some s, errors_str))"

definition validate_enum :: "(string \<Rightarrow> 'a option) \<Rightarrow> 'a validator" where
  "validate_enum from_str p s errors_str =
     (case from_str s of
        None \<Rightarrow> append_error p ''has invalid value'' errors_str
      | Some x \<Rightarrow> (Some x, errors_str))"

definition validate_bool :: "bool validator" where
  "validate_bool p s errors_str =
     (if s = ''true'' then (Some True, errors_str)
      else if s = ''false'' then (Some False, errors_str)
      else append_error p ''has invalid value'' errors_str)"

definition validate_int :: "int \<Rightarrow> int \<Rightarrow> int validator" where
  "validate_int min_val max_val p s errors_str =
     (case str2num min_val max_val s of
        Some x \<Rightarrow> (Some x, errors_str)
      | None \<Rightarrow> append_error p (''is not an integer from range ['' @ int_to_string min_val @ '', '' @
                  int_to_string max_val @ '']'') errors_str)"

text \<open>A \<open>uint64_t\<close> parameter, as the identifiers are.\<close>

definition validate_id :: "id validator" where
  "validate_id p s errors_str = map_prod (map_option word_of_int) id (validate_int 0 u64_max p s errors_str)"

definition validate_satisfying ::
  "'a validator \<Rightarrow> ('a \<Rightarrow> bool) \<Rightarrow> string \<Rightarrow> 'a validator" where
  "validate_satisfying validate_field pred description p s errors_str =
     (case validate_field p s errors_str of
        (None, errs) \<Rightarrow> (None, errs)
      | (Some x, errs) \<Rightarrow> if pred x then (Some x, errs)
                        else append_error p (''has to be '' @ description) errs)"

text \<open>The kinds of fields.\<close>

definition validate_required :: "'a validator \<Rightarrow> api_param \<Rightarrow> form_fields \<Rightarrow> 'a field" where
  "validate_required v p ff errors_str =
     (case ff_get ff (ap_name p) of
        Some s \<Rightarrow> v p s errors_str
      | None \<Rightarrow> append_error p ''is not set'' errors_str)"

definition some_field :: "'a option \<times> string \<Rightarrow> 'a option option \<times> string" where
  "some_field = map_prod (map_option Some) id"

definition validate_optional :: "'a validator \<Rightarrow> api_param \<Rightarrow> form_fields \<Rightarrow> 'a option field" where
  "validate_optional v p ff errors_str =
     (case ff_get ff (ap_name p) of
        None \<Rightarrow> (Some None, errors_str)
      | Some s \<Rightarrow> some_field (v p s errors_str))"

definition validate_allowed_only_if ::
  "'a validator \<Rightarrow> api_param \<Rightarrow> form_fields \<Rightarrow> bool \<Rightarrow> 'a option field" where
  "validate_allowed_only_if v p ff condition errors_str =
     (case ff_get ff (ap_name p) of
        None \<Rightarrow> (Some None, errors_str)
      | Some s \<Rightarrow>
          if \<not> condition then append_error p ''should not be sent in the request at all'' errors_str
          else some_field (v p s errors_str))"

definition validate_required_and_allowed_only_if ::
  "'a validator \<Rightarrow> api_param \<Rightarrow> form_fields \<Rightarrow> bool \<Rightarrow> 'a option field" where
  "validate_required_and_allowed_only_if v p ff condition errors_str =
     (case ff_get ff (ap_name p) of
        None \<Rightarrow> if condition then append_error p ''is not set'' errors_str else (Some None, errors_str)
      | Some s \<Rightarrow>
          if \<not> condition then append_error p ''should not be sent in the request at all'' errors_str
          else some_field (v p s errors_str))"

record submitted_file =
  sf_filename :: string
  sf_path :: string

definition validate_file_required :: "api_param \<Rightarrow> form_fields \<Rightarrow> submitted_file field" where
  "validate_file_required p ff errors_str =
     (case ff_get ff (ap_name p) of
        None \<Rightarrow> append_error p ''file is missing'' errors_str
      | Some filename \<Rightarrow>
          (case ff_file_path ff (ap_name p) of
             None \<Rightarrow> append_error p ''should be a file'' errors_str
           | Some path \<Rightarrow>
               if filename = [] then append_error p ''file is missing (empty filename)'' errors_str
               else (Some \<lparr> sf_filename = filename, sf_path = path \<rparr>, errors_str)))"

definition validate_file_optional :: "api_param \<Rightarrow> form_fields \<Rightarrow> submitted_file option field" where
  "validate_file_optional p ff errors_str =
     (case ff_get ff (ap_name p) of
        None \<Rightarrow> (Some None, errors_str)
      | Some filename \<Rightarrow>
          (case ff_file_path ff (ap_name p) of
             None \<Rightarrow> append_error p ''should be a file'' errors_str
           | Some path \<Rightarrow>
               if filename = [] then append_error p ''file is missing (empty filename)'' errors_str
               else (Some (Some \<lparr> sf_filename = filename, sf_path = path \<rparr>), errors_str)))"

text \<open>
  The \<open>_ENUM_CAPS\<close> kinds: a value that is set needs the capability of its enum variant. The first is
  for a field that is required, the second for one that is optional.
\<close>

definition enum_caps :: "api_param \<Rightarrow> ('a \<Rightarrow> bool) \<Rightarrow> 'a field \<Rightarrow> 'a field" where
  "enum_caps p caps v errors_str =
     (case v errors_str of
        (None, errs) \<Rightarrow> (None, errs)
      | (Some x, errs) \<Rightarrow> if caps x then (Some x, errs)
          else append_error p ''selects option to which you do not have permission'' errs)"

definition enum_caps_opt :: "api_param \<Rightarrow> ('a \<Rightarrow> bool) \<Rightarrow> 'a option field \<Rightarrow> 'a option field" where
  "enum_caps_opt p caps v errors_str =
     (case v errors_str of
        (Some (Some x), errs) \<Rightarrow> if caps x then (Some (Some x), errs)
          else append_error p ''selects option to which you do not have permission'' errs
      | (var, errs) \<Rightarrow> (var, errs))"

text \<open>
  \<open>VALIDATE\<close> evaluates every field, each appending its error, and then either binds the values or
  returns the errors. \<open>both\<close> puts two fields in sequence.
\<close>

definition both :: "'a field \<Rightarrow> 'b field \<Rightarrow> ('a \<times> 'b) field" where
  "both a b errors_str =
     (let (x, errs) = a errors_str; (y, errs') = b errs
      in (case (x, y) of (Some u, Some v) \<Rightarrow> Some (u, v) | _ \<Rightarrow> None, errs'))"

definition VALIDATE :: "'a field \<Rightarrow> (string \<Rightarrow> 'r) \<Rightarrow> ('a \<Rightarrow> 'r) \<Rightarrow> 'r" where
  "VALIDATE vars on_errors body =
     (case vars [] of (None, errs) \<Rightarrow> on_errors errs | (Some x, errs) \<Rightarrow> body x)"

lemma append_error_simps [simp]:
  "fst (append_error p msg e) = None" "append_error p msg e \<noteq> (Some x, e')" "snd (append_error p msg e) \<noteq> []"
  by (simp_all add: append_error_def)

text \<open>What a field that passed tells about the request.\<close>

lemma validate_required_SomeD:
  "validate_required v p ff e = (Some x, e') \<Longrightarrow> \<exists>s. ff_get ff (ap_name p) = Some s \<and> v p s e = (Some x, e')"
  by (simp add: validate_required_def split: option.splits)

lemma some_field_iff [simp]: "some_field r = (Some y, e') \<longleftrightarrow> (\<exists>x. r = (Some x, e') \<and> y = Some x)"
  by (cases r) (auto simp: some_field_def)

lemma validate_allowed_only_if_SomeD:
  "validate_allowed_only_if v p ff c e = (Some (Some x), e') \<Longrightarrow>
     c \<and> (\<exists>s. ff_get ff (ap_name p) = Some s \<and> v p s e = (Some x, e'))"
  by (simp add: validate_allowed_only_if_def split: option.splits if_splits)

lemma validate_required_and_allowed_only_if_SomeD:
  "validate_required_and_allowed_only_if v p ff c e = (Some y, e') \<Longrightarrow>
     (c \<longleftrightarrow> y \<noteq> None) \<and> (\<forall>x. y = Some x \<longrightarrow> (\<exists>s. ff_get ff (ap_name p) = Some s \<and> v p s e = (Some x, e')))"
  by (auto simp: validate_required_and_allowed_only_if_def split: option.splits if_splits)

lemma enum_caps_SomeD: "enum_caps p caps v e = (Some x, e') \<Longrightarrow> caps x \<and> v e = (Some x, e')"
  by (auto simp: enum_caps_def split: prod.splits option.splits if_splits)

lemma enum_caps_opt_SomeD:
  "enum_caps_opt p caps v e = (Some y, e') \<Longrightarrow> v e = (Some y, e') \<and> (\<forall>x. y = Some x \<longrightarrow> caps x)"
  by (auto simp: enum_caps_opt_def split: prod.splits option.splits if_splits)

lemma both_SomeD:
  "both a b e = (Some z, e') \<Longrightarrow> \<exists>x y e1. z = (x, y) \<and> a e = (Some x, e1) \<and> b e1 = (Some y, e')"
  by (auto simp: both_def Let_def split: prod.splits option.splits)

lemma VALIDATE_split:
  "P (VALIDATE vars on_errors body) \<longleftrightarrow>
     (\<forall>e. vars [] = (None, e) \<longrightarrow> P (on_errors e)) \<and> (\<forall>x e. vars [] = (Some x, e) \<longrightarrow> P (body x))"
  by (auto simp: VALIDATE_def split: prod.split option.split)

lemma VALIDATE_split_asm:
  "P (VALIDATE vars on_errors body) \<longleftrightarrow>
     \<not> ((\<exists>e. vars [] = (None, e) \<and> \<not> P (on_errors e)) \<or> (\<exists>x e. vars [] = (Some x, e) \<and> \<not> P (body x)))"
  using VALIDATE_split [of P vars on_errors body] by blast

lemma VALIDATE_cases:
  obtains (ok) x e where "vars [] = (Some x, e)" "VALIDATE vars on_errors body = body x"
  | (errors) e where "vars [] = (None, e)" "VALIDATE vars on_errors body = on_errors e"
  by (cases "vars []"; cases "fst (vars [])") (auto simp: VALIDATE_def)

text \<open>A type check: the value of a field that passed is one its column can hold.\<close>

lemma validate_varbinary_SomeD:
  "validate_varbinary n p s e = (Some x, e') \<Longrightarrow> x = s \<and> length x \<le> n \<and> (x = [] \<longrightarrow> ap_allow_blank p)"
  by (auto simp: validate_varbinary_def split: if_splits)

lemma validate_satisfying_SomeD:
  "validate_satisfying v P d p s e = (Some x, e') \<Longrightarrow> v p s e = (Some x, e') \<and> P x"
  by (auto simp: validate_satisfying_def split: prod.splits option.splits if_splits)

lemma validate_bool_SomeD: "validate_bool p s e = (Some x, e') \<Longrightarrow> s = (if x then ''true'' else ''false'')"
  by (auto simp: validate_bool_def split: if_splits)

text \<open>
  The errors of a field are appended to those of the fields before it; a field is rejected exactly
  when it appends an error. \<open>reports\<close> is that contract, and \<open>both\<close> keeps it.
\<close>

definition reports :: "'a field \<Rightarrow> bool" where
  "reports f \<longleftrightarrow> (\<forall>e. \<exists>r. snd (f e) = e @ r \<and> (fst (f e) = None \<longleftrightarrow> r \<noteq> []))"

lemma reports_append_error: "reports (append_error p msg)"
  by (auto simp: reports_def append_error_def)

lemma reports_ok: "reports (\<lambda>e. (Some x, e))"
  by (simp add: reports_def)

lemma reports_both: "reports a \<Longrightarrow> reports b \<Longrightarrow> reports (both a b)"
  unfolding reports_def
proof (intro allI)
  fix e
  assume a: "\<forall>e. \<exists>r. snd (a e) = e @ r \<and> (fst (a e) = None \<longleftrightarrow> r \<noteq> [])"
    and b: "\<forall>e. \<exists>r. snd (b e) = e @ r \<and> (fst (b e) = None \<longleftrightarrow> r \<noteq> [])"
  obtain x e1 where x: "a e = (x, e1)" by force
  obtain y e2 where y: "b e1 = (y, e2)" by force
  obtain r1 where r1: "e1 = e @ r1" "x = None \<longleftrightarrow> r1 \<noteq> []"
    using a [rule_format, of e] x by auto
  obtain r2 where r2: "e2 = e1 @ r2" "y = None \<longleftrightarrow> r2 \<noteq> []"
    using b [rule_format, of e1] y by auto
  have eq: "both a b e = (case (x, y) of (Some u, Some v) \<Rightarrow> Some (u, v) | _ \<Rightarrow> None, e2)"
    by (simp add: both_def x y)
  show "\<exists>r. snd (both a b e) = e @ r \<and> (fst (both a b e) = None \<longleftrightarrow> r \<noteq> [])"
    unfolding eq using r1 r2 by (auto split: option.splits)
qed

lemma reports_required: "(\<And>s. reports (v p s)) \<Longrightarrow> reports (validate_required v p ff)"
  using reports_append_error [of p "''is not set''"]
  by (cases "ff_get ff (ap_name p)") (simp_all add: reports_def validate_required_def)

lemma reports_allowed_only_if:
  "(\<And>s. reports (v p s)) \<Longrightarrow> reports (validate_allowed_only_if v p ff c)"
  using reports_append_error [of p "''should not be sent in the request at all''"]
  by (cases "ff_get ff (ap_name p)")
    (auto simp: reports_def validate_allowed_only_if_def some_field_def split: prod.splits)

lemma reports_enum_caps_opt: "reports f \<Longrightarrow> reports (enum_caps_opt p caps f)"
  unfolding reports_def
proof (intro allI)
  fix e
  assume "\<forall>e. \<exists>r. snd (f e) = e @ r \<and> (fst (f e) = None \<longleftrightarrow> r \<noteq> [])"
  then obtain r where r: "snd (f e) = e @ r" "fst (f e) = None \<longleftrightarrow> r \<noteq> []" by blast
  then show "\<exists>r. snd (enum_caps_opt p caps f e) = e @ r \<and> (fst (enum_caps_opt p caps f e) = None \<longleftrightarrow> r \<noteq> [])"
    by (cases "f e") (auto simp: enum_caps_opt_def append_error_def split: option.splits)
qed

section \<open>json_str.hh\<close>

text \<open>
  The calls of an object or array builder, as a value: what \<open>append_value\<close> is given. \<open>J_raw\<close> is
  \<open>prop_raw\<close> or the result of a \<open>to_json\<close> method.
\<close>

datatype json =
    J_bool bool
  | J_null
  | J_int int
  | J_raw string
  | J_str string
  | J_arr "json list"
  | J_obj "(string \<times> json) list"

definition J_opt :: "('a \<Rightarrow> json) \<Rightarrow> 'a option \<Rightarrow> json" where
  "J_opt f x = (case x of None \<Rightarrow> J_null | Some v \<Rightarrow> f v)"

definition J_enum :: "string \<Rightarrow> json" where
  "J_enum s = J_raw (CHR 0x22 # s @ [CHR 0x22])"

text \<open>\<open>end()\<close>: the comma after the last value becomes the bracket.\<close>

definition json_end :: "char \<Rightarrow> string \<Rightarrow> string" where
  "json_end c s = (if last s = CHR '','' then butlast s @ [c] else s @ [c])"

definition append_prop_name :: "string \<Rightarrow> string" where
  "append_prop_name name = CHR 0x22 # name @ [CHR 0x22, CHR '':'']"

fun json_render :: "json \<Rightarrow> string" where
  "json_render (J_bool b) = (if b then ''true'' else ''false'')"
| "json_render J_null = ''null''"
| "json_render (J_int n) = int_to_string n"
| "json_render (J_raw s) = s"
| "json_render (J_str s) = json_stringify [s]"
| "json_render (J_arr vs) =
     json_end (CHR '']'') (CHR ''['' # concat (map (\<lambda>v. json_render v @ '','') vs))"
| "json_render (J_obj ps) =
     json_end (CHR ''}'') (CHR ''{'' # concat (map (\<lambda>(k, v). append_prop_name k @ json_render v @ '','') ps))"

text \<open>The text without the trailing comma: the values separated by commas, which also runs faster.\<close>

fun separated :: "string list \<Rightarrow> string" where
  "separated [] = []"
| "separated [v] = v"
| "separated (v # vs) = v @ '','' @ separated vs"

lemma butlast_commas: "vs \<noteq> [] \<Longrightarrow> butlast (concat (map (\<lambda>v. v @ '','') vs)) = separated vs"
  by (induction vs rule: separated.induct) (auto simp: butlast_append)

lemma last_commas: "vs \<noteq> [] \<Longrightarrow> last (concat (map (\<lambda>v. v @ '','') vs)) = CHR '',''"
  by (induction vs rule: separated.induct) auto

lemma json_end_values:
  assumes "b \<noteq> CHR '',''"
  shows "json_end c (b # concat (map (\<lambda>v. v @ '','') vs)) = b # separated vs @ [c]"
  using assms butlast_commas [of vs] last_commas [of vs]
  by (cases "vs = []"; cases "concat (map (\<lambda>v. v @ '','') vs)") (auto simp: json_end_def)

lemma json_render_arr: "json_render (J_arr vs) = CHR ''['' # separated (map json_render vs) @ '']''"
  using json_end_values [of "CHR ''[''" "CHR '']''" "map json_render vs"] by (simp add: comp_def)

lemma json_render_obj:
  "json_render (J_obj ps) =
     CHR ''{'' # separated (map (\<lambda>(k, v). append_prop_name k @ json_render v) ps) @ ''}''"
  using json_end_values [of "CHR ''{''" "CHR ''}''" "map (\<lambda>(k, v). append_prop_name k @ json_render v) ps"]
  by (simp add: comp_def case_prod_unfold)

lemmas json_render_code [code] = json_render.simps(1-5) json_render_arr json_render_obj

section \<open>request.hh, request.cc, response.hh, response.cc\<close>

datatype http_method = Method_GET | Method_POST | Method_HEAD

record http_request =
  rq_method :: http_method
  rq_headers :: headers
  rq_target :: string
  rq_form_fields :: form_fields

text \<open>
  \<open>get_cookie\<close>. The loop's position is the rest of the header from it; it skips one space, compares
  the name, and otherwise goes behind the next semicolon.
\<close>

definition skip_space :: "string \<Rightarrow> string" where
  "skip_space s = (case s of c # d # r \<Rightarrow> if c = CHR '' '' then d # r else s | _ \<Rightarrow> s)"

definition cookie_value :: "string \<Rightarrow> string \<Rightarrow> string option" where
  "cookie_value name s =
     (if take (length name) s = name \<and> length name < length s \<and> s ! length name = CHR ''=''
      then Some (takeWhile (\<lambda>c. c \<noteq> CHR '';'') (drop (length name + 1) s))
      else None)"

lemma length_skip_space: "length (skip_space s) \<le> length s"
  by (auto simp: skip_space_def split: list.splits)

function get_cookie_loop :: "string \<Rightarrow> string \<Rightarrow> string" where
  "get_cookie_loop name rest =
     (if rest = [] then []
      else case cookie_value name (skip_space rest) of
             Some v \<Rightarrow> v
           | None \<Rightarrow> get_cookie_loop name (drop 1 (dropWhile (\<lambda>c. c \<noteq> CHR '';'') (skip_space rest))))"
  by auto
termination
proof (relation "measure (\<lambda>(n, r). length r)", goal_cases)
  case 1
  show ?case by simp
next
  case (2 name rest)
  have "length (drop 1 (dropWhile (\<lambda>c. c \<noteq> CHR '';'') (skip_space rest))) < length rest"
    using length_dropWhile_le [of "\<lambda>c. c \<noteq> CHR '';''" "skip_space rest"] length_skip_space [of rest] 2
    by (cases rest) simp_all
  then show ?case by simp
qed

declare get_cookie_loop.simps [simp del]

definition get_cookie :: "http_request \<Rightarrow> string \<Rightarrow> string" where
  "get_cookie rq name =
     get_cookie_loop name (case headers_get (rq_headers rq) ''cookie'' of None \<Rightarrow> [] | Some c \<Rightarrow> c)"

text \<open>The header that a browser sends for a list of cookies, and what \<open>get_cookie\<close> reads in it.\<close>

fun cookie_header :: "(string \<times> string) list \<Rightarrow> string" where
  "cookie_header [] = []"
| "cookie_header [(n, v)] = n @ CHR ''='' # v"
| "cookie_header ((n, v) # cs) = n @ CHR ''='' # v @ CHR '';'' # CHR '' '' # cookie_header cs"

definition cookie_name_ok :: "string \<Rightarrow> bool" where
  "cookie_name_ok n \<longleftrightarrow> n \<noteq> [] \<and> CHR ''='' \<notin> set n \<and> CHR '';'' \<notin> set n \<and> CHR '' '' \<notin> set n"

lemma skip_space_name:
  assumes "cookie_name_ok n"
  shows "skip_space (CHR '' '' # n @ r) = n @ r" and "skip_space (n @ r) = n @ r"
  using assms by (cases n; auto simp: skip_space_def cookie_name_ok_def split: list.splits)+

lemma cookie_value_name:
  assumes "cookie_name_ok n" "CHR ''='' \<notin> set name"
  shows "cookie_value name (n @ CHR ''='' # r) =
     (if name = n then Some (takeWhile (\<lambda>c. c \<noteq> CHR '';'') r) else None)"
proof (cases "name = n")
  case True
  then show ?thesis by (simp add: cookie_value_def)
next
  case False
  have "\<not> (take (length name) (n @ CHR ''='' # r) = name \<and> (n @ CHR ''='' # r) ! length name = CHR ''='')"
  proof
    assume a: "take (length name) (n @ CHR ''='' # r) = name \<and> (n @ CHR ''='' # r) ! length name = CHR ''=''"
    consider "length name < length n" | "length name = length n" | "length n < length name" by linarith
    then show False
    proof cases
      case 1
      then have "n ! length name = CHR ''=''" using a by (simp add: nth_append)
      then show False using 1 assms(1) nth_mem by (force simp: cookie_name_ok_def)
    next
      case 2
      then show False using a False by simp
    next
      case 3
      have "take (length name) (n @ CHR ''='' # r) = n @ CHR ''='' # take (length name - length n - 1) r"
        using 3 by (cases "length name - length n") simp_all
      then have "name = n @ CHR ''='' # take (length name - length n - 1) r" using a by simp
      then have "CHR ''='' \<in> set name" by (metis in_set_conv_decomp)
      then show False using assms(2) by simp
    qed
  qed
  then show ?thesis using False by (simp add: cookie_value_def)
qed

lemma takeWhile_semicolon:
  "CHR '';'' \<notin> set v \<Longrightarrow> takeWhile (\<lambda>c. c \<noteq> CHR '';'') v = v"
  "CHR '';'' \<notin> set v \<Longrightarrow> dropWhile (\<lambda>c. c \<noteq> CHR '';'') (v @ r) = dropWhile (\<lambda>c. c \<noteq> CHR '';'') r"
  by (induction v) auto

lemma get_cookie_loop_done:
  assumes "CHR '';'' \<notin> set v"
  shows "get_cookie_loop name (drop (Suc 0) (dropWhile (\<lambda>c. c \<noteq> CHR '';'') v)) = []"
proof -
  have "dropWhile (\<lambda>c. c \<noteq> CHR '';'') v = []" using assms by auto
  then show ?thesis by (simp only: drop_Nil) (simp add: get_cookie_loop.simps)
qed

lemma get_cookie_loop_header:
  assumes "\<forall>(n, v) \<in> set cs. cookie_name_ok n \<and> CHR '';'' \<notin> set v" "CHR ''='' \<notin> set name"
    "rest = cookie_header cs \<or> rest = CHR '' '' # cookie_header cs" "cs \<noteq> []"
  shows "get_cookie_loop name rest = (case map_of cs name of None \<Rightarrow> [] | Some v \<Rightarrow> v)"
  using assms
proof (induction cs arbitrary: rest rule: cookie_header.induct)
  case 1
  then show ?case by simp
next
  case (2 n v)
  then have n: "cookie_name_ok n" "CHR '';'' \<notin> set v" by auto
  have s: "skip_space rest = n @ CHR ''='' # v"
    using 2(3) skip_space_name [OF n(1)] by auto
  have n': "CHR '';'' \<notin> set n" using n by (simp add: cookie_name_ok_def)
  have "rest \<noteq> []" using 2(3) by auto
  then show ?case
    using n 2(2) takeWhile_semicolon(1) [OF n(2)] get_cookie_loop_done [OF n(2)]
      takeWhile_semicolon(2) [OF n', of "CHR ''='' # v"]
    by (subst get_cookie_loop.simps) (simp add: s cookie_value_name)
next
  case (3 n v c cs)
  then have n: "cookie_name_ok n" "CHR '';'' \<notin> set v" by auto
  let ?r = "v @ CHR '';'' # CHR '' '' # cookie_header (c # cs)"
  have s: "skip_space rest = n @ CHR ''='' # ?r"
    using 3(4) skip_space_name [OF n(1)] by auto
  have "CHR '';'' \<notin> set (n @ CHR ''='' # v)" using n by (simp add: cookie_name_ok_def)
  from takeWhile_semicolon(2) [OF this, of "CHR '';'' # CHR '' '' # cookie_header (c # cs)"]
  have d: "dropWhile (\<lambda>c. c \<noteq> CHR '';'') (n @ CHR ''='' # ?r) = CHR '';'' # CHR '' '' # cookie_header (c # cs)"
    by simp
  have IH: "get_cookie_loop name (CHR '' '' # cookie_header (c # cs)) =
      (case map_of (c # cs) name of None \<Rightarrow> [] | Some v \<Rightarrow> v)"
    by (rule 3(1)) (use 3 in auto)
  have "rest \<noteq> []" using 3(4) by auto
  then show ?case
    using n 3(3) d takeWhile_value [OF n(2)] IH
    by (subst get_cookie_loop.simps) (simp add: s cookie_value_name)
qed

datatype content_kind = Content_TEXT | Content_FILE | Content_FILE_TO_REMOVE

record http_response =
  rs_content_type :: content_kind
  rs_status_code :: string
  rs_headers :: headers
  rs_cookies :: headers
  rs_content :: string

definition set_cache :: "int \<Rightarrow> bool \<Rightarrow> 32 word \<Rightarrow> bool \<Rightarrow> http_response \<Rightarrow> http_response" where
  "set_cache curr_time to_public max_age_in_seconds must_revalidate r =
     r\<lparr>rs_headers :=
         headers_set (headers_set (rs_headers r) ''expires'' (gmt_date (curr_time + uint max_age_in_seconds)))
           ''cache-control''
           ((if to_public then ''public'' else ''private'') @
            (if must_revalidate then ''; must-revalidate'' else []) @
            ''; max-age='' @ int_to_string (uint max_age_in_seconds))\<rparr>"

end
