(* ===== verification/Web_Context.thy ===== *)
theory Web_Context
  imports Web_Http Capabilities Sim_Db
begin

text \<open>
  The context of a request (src/subprojects/sim/src/web_server/web_worker/context.cc) and what
  surrounds every handler (web_worker.cc, \<open>handler_impl\<close> and the POST handlers): the transaction, the
  session, the CSRF check, the responses. \<open>Context::mysql\<close> is the database of the transaction.
\<close>

section \<open>Context\<close>

record web_context =
  cx_request :: http_request
  cx_db :: db
  cx_notify_job_server :: bool
  cx_session :: "ctx_session option"
  cx_cookie_changes :: headers

text \<open>
  What a request takes from its surroundings: the clock, and what the random number generator yields,
  a CSRF token and one session id after another.
\<close>

record web_env =
  we_now :: int
  we_csrf_token :: string
  we_session_ids :: "string list"
  we_salt :: string

definition now_of :: "web_env \<Rightarrow> datetime" where
  "now_of env = utc_mysql_datetime (we_now env)"

definition session_id_cookie :: string where
  "session_id_cookie = ''session''"

definition csrf_token_cookie :: string where
  "csrf_token_cookie = ''csrf_token''"

definition live_session :: "web_env \<Rightarrow> db \<Rightarrow> string \<Rightarrow> (session_row \<times> user) option" where
  "live_session env d sid =
     (case find (\<lambda>s. session_id s = sid \<and> now_of env \<le> session_expires s) (db_sessions d) of
        None \<Rightarrow> None
      | Some s \<Rightarrow> map_option (Pair s) (find_user d (session_user_id s)))"

definition open_session :: "web_env \<Rightarrow> web_context \<Rightarrow> web_context res" where
  "open_session env cx =
     (if cx_session cx \<noteq> None then Inl (Throw_assert ''not session'')
      else let sid = get_cookie (cx_request cx) session_id_cookie
           in if sid = [] then Inr cx
              else case live_session env (cx_db cx) sid of
                     None \<Rightarrow> Inr (cx\<lparr>cx_cookie_changes :=
                       set_cookie (cx_cookie_changes cx) session_id_cookie [] (Some 0) None False False\<rparr>)
                   | Some (s, u) \<Rightarrow>
                       Inr (cx\<lparr>cx_session := Some
                         \<lparr> cs_id = sid, cs_csrf_token = session_csrf_token s, cs_user_id = session_user_id s,
                           cs_user_type = user_type u, cs_username = username u,
                           cs_data = session_data s, cs_orig_data = session_data s \<rparr>\<rparr>))"

definition close_session :: "web_context \<Rightarrow> web_context res" where
  "close_session cx =
     (case cx_session cx of
        None \<Rightarrow> Inl (Throw_assert ''session'')
      | Some s \<Rightarrow>
          (let d = cx_db cx;
               d' = (if cs_data s \<noteq> cs_orig_data s
                     then d\<lparr>db_sessions := update_where (\<lambda>r. session_id r = cs_id s)
                            (\<lambda>r. r\<lparr>session_data := cs_data s\<rparr>) (db_sessions d)\<rparr>
                     else d)
           in Inr (cx\<lparr>cx_db := d', cx_session := None\<rparr>)))"

text \<open>
  The loop of \<open>create_session\<close>: ids are drawn until INSERT IGNORE inserts a row, which it does when
  the id is new and the user exists. \<open>None\<close>: the ids drawn are all refused, and the loop goes on.
\<close>

fun insert_session :: "string list \<Rightarrow> session_row \<Rightarrow> db \<Rightarrow> (string \<times> db) option" where
  "insert_session [] row d = None"
| "insert_session (sid # sids) row d =
     (if sid \<in> session_id ` set (db_sessions d) \<or> session_user_id row \<notin> user_ids d
      then insert_session sids row d
      else Some (sid, d\<lparr>db_sessions := db_sessions d @ [row\<lparr>session_id := sid\<rparr>]\<rparr>))"

definition SHORT_SESSION_MAX_LIFETIME :: int where
  "SHORT_SESSION_MAX_LIFETIME = 60 * 60"

definition LONG_SESSION_MAX_LIFETIME :: int where
  "LONG_SESSION_MAX_LIFETIME = 30 * 24 * 60 * 60"

definition delete_sessions_where :: "(session_row \<Rightarrow> bool) \<Rightarrow> db \<Rightarrow> db" where
  "delete_sessions_where p d = d\<lparr>db_sessions := delete_where p (db_sessions d)\<rparr>"

definition new_session_row :: "web_env \<Rightarrow> id \<Rightarrow> string \<Rightarrow> int \<Rightarrow> http_request \<Rightarrow> session_row" where
  "new_session_row env uid data lifetime rq =
     \<lparr> session_id = [], session_csrf_token = we_csrf_token env, session_user_id = uid, session_data = data,
       session_user_agent = (case headers_get (rq_headers rq) ''user-agent'' of None \<Rightarrow> [] | Some a \<Rightarrow> a),
       session_expires = utc_mysql_datetime (we_now env + lifetime) \<rparr>"

lemma new_session_row_user [simp]: "session_user_id (new_session_row env uid data lifetime rq) = uid"
  by (simp add: new_session_row_def)

definition create_session ::
  "web_env \<Rightarrow> id \<Rightarrow> user_type \<Rightarrow> string \<Rightarrow> string \<Rightarrow> bool \<Rightarrow> web_context \<Rightarrow> web_context res option" where
  "create_session env uid utype uname data long_expiration cx =
     (if cx_session cx \<noteq> None then Some (Inl (Throw_assert ''not session''))
      else
        let lifetime = (if long_expiration then LONG_SESSION_MAX_LIFETIME else SHORT_SESSION_MAX_LIFETIME);
            row = new_session_row env uid data lifetime (cx_request cx);
            d = delete_sessions_where (\<lambda>s. session_expires s \<le> now_of env) (cx_db cx);
            expire = (if long_expiration then Some (we_now env + lifetime) else None)
        in case insert_session (we_session_ids env) row d of
             None \<Rightarrow> None
           | Some (sid, d') \<Rightarrow>
               Some (Inr (cx\<lparr>cx_db := d',
                 cx_cookie_changes :=
                   set_cookie (set_cookie (cx_cookie_changes cx) ''session'' sid expire (Some ''/'') True True)
                     ''csrf_token'' (we_csrf_token env) expire (Some ''/'') False True,
                 cx_session := Some
                   \<lparr> cs_id = sid, cs_csrf_token = we_csrf_token env, cs_user_id = uid,
                     cs_user_type = utype, cs_username = uname, cs_data = data, cs_orig_data = data \<rparr>\<rparr>)))"

definition destroy_session :: "web_context \<Rightarrow> web_context res" where
  "destroy_session cx =
     (case cx_session cx of
        None \<Rightarrow> Inl (Throw_assert ''session'')
      | Some s \<Rightarrow>
          Inr (cx\<lparr>cx_db := delete_sessions_where (\<lambda>r. session_id r = cs_id s) (cx_db cx),
            cx_cookie_changes :=
              set_cookie (set_cookie (cx_cookie_changes cx) ''session'' [] (Some 0) (Some ''/'') True True)
                ''csrf_token'' [] (Some 0) (Some ''/'') False True,
            cx_session := None\<rparr>))"

definition session_has_expired :: "web_context \<Rightarrow> bool" where
  "session_has_expired cx \<longleftrightarrow> get_cookie (cx_request cx) session_id_cookie \<noteq> [] \<and> cx_session cx = None"

section \<open>Responses\<close>

text \<open>
  Each takes the cookie changes out of the context (\<open>std::move\<close>, which leaves the map empty) and
  returns the context with the response.
\<close>

definition text_plain :: string where
  "text_plain = ''text/plain; charset=utf-8''"

definition respond ::
  "string \<Rightarrow> content_kind \<Rightarrow> string \<Rightarrow> string \<Rightarrow> web_context \<Rightarrow> web_context \<times> http_response" where
  "respond status_code kind content content_type cx =
     (cx\<lparr>cx_cookie_changes := []\<rparr>,
      \<lparr> rs_content_type = kind, rs_status_code = status_code,
        rs_headers = headers_set [] ''content-type'' content_type,
        rs_cookies = cx_cookie_changes cx, rs_content = content \<rparr>)"

definition response_ok :: "string \<Rightarrow> string \<Rightarrow> web_context \<Rightarrow> web_context \<times> http_response" where
  "response_ok = respond ''200 OK'' Content_TEXT"

definition response_file :: "string \<Rightarrow> string \<Rightarrow> web_context \<Rightarrow> web_context \<times> http_response" where
  "response_file = respond ''200 OK'' Content_FILE"

definition response_json :: "string \<Rightarrow> web_context \<Rightarrow> web_context \<times> http_response" where
  "response_json content = respond ''200 OK'' Content_TEXT content ''application/json; charset=utf-8''"

definition response_400 :: "string \<Rightarrow> web_context \<Rightarrow> web_context \<times> http_response" where
  "response_400 content = respond ''400 Bad Request'' Content_TEXT content text_plain"

definition session_expired_msg :: string where
  "session_expired_msg = ''Your session has expired, please try to sign in and then try again.''"

definition response_404 :: "web_context \<Rightarrow> web_context \<times> http_response" where
  "response_404 cx =
     respond ''404 Not Found'' Content_TEXT (if session_has_expired cx then session_expired_msg else [])
       text_plain cx"

text \<open>Only administrators see that something exists which they may not use.\<close>

definition response_403 :: "string \<Rightarrow> web_context \<Rightarrow> web_context \<times> http_response" where
  "response_403 content cx =
     (case cx_session cx of
        None \<Rightarrow> response_404 cx
      | Some s \<Rightarrow>
          (case cs_user_type s of
             User_ADMIN \<Rightarrow> respond ''403 Forbidden'' Content_TEXT content text_plain cx
           | User_TEACHER \<Rightarrow> response_404 cx
           | User_NORMAL \<Rightarrow> response_404 cx))"

section \<open>web_worker.cc: what surrounds a handler\<close>

text \<open>
  A handler returns its context and response, throws, or does not return (\<open>None\<close>, only through the
  loop of \<open>create_session\<close>). \<open>total_handler\<close> is a handler without that loop.
\<close>

type_synonym outcome = "(web_context \<times> http_response) res"
type_synonym web_handler = "web_context \<Rightarrow> outcome option"

definition total_handler :: "(web_context \<Rightarrow> outcome) \<Rightarrow> web_handler" where
  "total_handler h cx = Some (h cx)"

text \<open>
  \<open>handler_impl\<close>: the database is that of a transaction, committed when nothing threw. The result is
  the database after the request, the response or the exception, and whether the job server is
  notified.
\<close>

record served =
  sv_db :: db
  sv_response :: "http_response res"
  sv_notified :: bool

definition rolled_back :: "db \<Rightarrow> exn \<Rightarrow> served" where
  "rolled_back d e = \<lparr> sv_db = d, sv_response = Inl e, sv_notified = False \<rparr>"

definition finish_request :: "db \<Rightarrow> outcome \<Rightarrow> served" where
  "finish_request d r =
     (case r of
        Inl e \<Rightarrow> rolled_back d e
      | Inr (cx, resp) \<Rightarrow>
          (case (if cx_session cx \<noteq> None then close_session cx else Inr cx) of
             Inl e \<Rightarrow> rolled_back d e
           | Inr cx' \<Rightarrow> \<lparr> sv_db = cx_db cx', sv_response = Inr resp,
                          sv_notified = cx_notify_job_server cx' \<rparr>))"

definition new_context :: "http_request \<Rightarrow> db \<Rightarrow> web_context" where
  "new_context rq d =
     \<lparr> cx_request = rq, cx_db = d, cx_notify_job_server = False, cx_session = None,
       cx_cookie_changes = [] \<rparr>"

definition handler_impl :: "web_env \<Rightarrow> http_request \<Rightarrow> web_handler \<Rightarrow> db \<Rightarrow> served option" where
  "handler_impl env rq response_maker d =
     (case open_session env (new_context rq d) of
        Inl e \<Rightarrow> Some (rolled_back d e)
      | Inr cx \<Rightarrow> map_option (finish_request d) (response_maker cx))"

definition expected_csrf_token :: "web_context \<Rightarrow> string" where
  "expected_csrf_token cx =
     (case cx_session cx of
        Some s \<Rightarrow> cs_csrf_token s
      | None \<Rightarrow> get_cookie (cx_request cx) csrf_token_cookie)"

definition post_handler :: "web_handler \<Rightarrow> web_handler" where
  "post_handler h cx =
     (if headers_get (rq_headers (cx_request cx)) ''x-csrf-token'' \<noteq> Some (expected_csrf_token cx)
      then Some (Inr (response_400 ''Missing or invalid CSRF token'' cx))
      else h cx)"

section \<open>Sessions\<close>

text \<open>The session row and the user that a request's cookie stands for.\<close>

definition request_session :: "web_env \<Rightarrow> http_request \<Rightarrow> db \<Rightarrow> (session_row \<times> user) option" where
  "request_session env rq d =
     (let sid = get_cookie rq session_id_cookie in if sid = [] then None else live_session env d sid)"

definition ctx_session_of :: "string \<Rightarrow> session_row \<times> user \<Rightarrow> ctx_session" where
  "ctx_session_of sid su =
     \<lparr> cs_id = sid, cs_csrf_token = session_csrf_token (fst su), cs_user_id = session_user_id (fst su),
       cs_user_type = user_type (snd su), cs_username = username (snd su),
       cs_data = session_data (fst su), cs_orig_data = session_data (fst su) \<rparr>"

lemma ctx_session_of_simps [simp]:
  "cs_id (ctx_session_of sid su) = sid" "cs_csrf_token (ctx_session_of sid su) = session_csrf_token (fst su)"
  "cs_user_id (ctx_session_of sid su) = session_user_id (fst su)"
  "cs_user_type (ctx_session_of sid su) = user_type (snd su)"
  "cs_data (ctx_session_of sid su) = session_data (fst su)"
  "cs_orig_data (ctx_session_of sid su) = session_data (fst su)"
  by (simp_all add: ctx_session_of_def)

text \<open>The context in which the handler of a request runs.\<close>

definition opened :: "web_env \<Rightarrow> http_request \<Rightarrow> db \<Rightarrow> web_context" where
  "opened env rq d =
     \<lparr> cx_request = rq, cx_db = d, cx_notify_job_server = False,
       cx_session = map_option (ctx_session_of (get_cookie rq session_id_cookie)) (request_session env rq d),
       cx_cookie_changes =
         (if get_cookie rq session_id_cookie \<noteq> [] \<and> request_session env rq d = None
          then set_cookie [] session_id_cookie [] (Some 0) None False False else []) \<rparr>"

lemma opened_simps [simp]:
  "cx_request (opened env rq d) = rq" "cx_db (opened env rq d) = d"
  "\<not> cx_notify_job_server (opened env rq d)"
  "cx_session (opened env rq d) =
     map_option (ctx_session_of (get_cookie rq session_id_cookie)) (request_session env rq d)"
  by (simp_all add: opened_def)

lemma open_session_new: "open_session env (new_context rq d) = Inr (opened env rq d)"
  by (auto simp: open_session_def new_context_def opened_def request_session_def Let_def ctx_session_of_def
      split: option.splits)

lemma handler_impl_opened:
  "handler_impl env rq h d = map_option (finish_request d) (h (opened env rq d))"
  by (simp add: handler_impl_def open_session_new)

lemma request_session_SomeD:
  assumes "request_session env rq d = Some (s, u)"
  shows "s \<in> set (db_sessions d) \<and> session_id s = get_cookie rq session_id_cookie \<and>
     now_of env \<le> session_expires s \<and> u \<in> set (db_users d) \<and> user_id u = session_user_id s"
  using assms
  by (auto simp: request_session_def live_session_def find_user_def find_Some_iff Let_def
      split: if_splits option.splits)

text \<open>A session that no code changed is closed without a statement.\<close>

definition data_kept :: "web_context \<Rightarrow> bool" where
  "data_kept cx \<longleftrightarrow> (\<forall>s. cx_session cx = Some s \<longrightarrow> cs_data s = cs_orig_data s)"

lemma finish_request_Inr:
  "data_kept cx \<Longrightarrow> finish_request d (Inr (cx, resp)) =
     \<lparr> sv_db = cx_db cx, sv_response = Inr resp, sv_notified = cx_notify_job_server cx \<rparr>"
  by (auto simp: finish_request_def close_session_def data_kept_def split: option.splits)

lemma finish_request_Inl [simp]: "finish_request d (Inl e) = rolled_back d e"
  by (simp add: finish_request_def)

lemma data_kept_opened [simp]: "data_kept (opened env rq d)"
  by (auto simp: data_kept_def)

lemma insert_session_Some:
  "insert_session sids row d = Some (sid, d') \<Longrightarrow>
     sid \<in> set sids \<and> sid \<notin> session_id ` set (db_sessions d) \<and> session_user_id row \<in> user_ids d \<and>
     d' = d\<lparr>db_sessions := db_sessions d @ [row\<lparr>session_id := sid\<rparr>]\<rparr>"
  by (induction sids row d rule: insert_session.induct) (auto split: if_splits)

lemma insert_session_returns:
  "session_user_id row \<in> user_ids d \<Longrightarrow>
     insert_session sids row d \<noteq> None \<longleftrightarrow> \<not> set sids \<subseteq> session_id ` set (db_sessions d)"
  by (induction sids row d rule: insert_session.induct) auto

text \<open>The responses change the context only in its cookies.\<close>

lemma respond_simps [simp]:
  "fst (respond st k c t cx) = cx\<lparr>cx_cookie_changes := []\<rparr>"
  "rs_status_code (snd (respond st k c t cx)) = st"
  "rs_content (snd (respond st k c t cx)) = c"
  "rs_cookies (snd (respond st k c t cx)) = cx_cookie_changes cx"
  by (simp_all add: respond_def)

lemmas responses = response_ok_def response_file_def response_json_def response_400_def response_404_def
  response_403_def

lemma response_fst [simp]:
  "fst (response_ok c t cx) = cx\<lparr>cx_cookie_changes := []\<rparr>"
  "fst (response_file c t cx) = cx\<lparr>cx_cookie_changes := []\<rparr>"
  "fst (response_json c cx) = cx\<lparr>cx_cookie_changes := []\<rparr>"
  "fst (response_400 c cx) = cx\<lparr>cx_cookie_changes := []\<rparr>"
  "fst (response_404 cx) = cx\<lparr>cx_cookie_changes := []\<rparr>"
  "fst (response_403 c cx) = cx\<lparr>cx_cookie_changes := []\<rparr>"
  by (simp_all add: responses split: option.split user_type.split)

lemma response_status [simp]:
  "rs_status_code (snd (response_ok c t cx)) = ''200 OK''"
  "rs_status_code (snd (response_json c cx)) = ''200 OK''"
  "rs_status_code (snd (response_400 c cx)) = ''400 Bad Request''"
  "rs_status_code (snd (response_404 cx)) = ''404 Not Found''"
  by (simp_all add: responses)

lemma response_403_hides: "\<not> is_admin (cx_session cx) \<Longrightarrow> response_403 c cx = response_404 cx"
  by (cases "cx_session cx"; cases "cs_user_type (the (cx_session cx))") (simp_all add: response_403_def)

lemma data_kept_cookies [simp]: "data_kept (cx\<lparr>cx_cookie_changes := c\<rparr>) = data_kept cx"
  by (simp add: data_kept_def)

lemma finish_respond:
  assumes "fst r = cx\<lparr>cx_cookie_changes := []\<rparr>" "data_kept cx"
  shows "finish_request d (Inr r) =
     \<lparr> sv_db = cx_db cx, sv_response = Inr (snd r), sv_notified = cx_notify_job_server cx \<rparr>"
  using finish_request_Inr [of "fst r" d "snd r"] assms by (cases r) simp

section \<open>Cross-site requests\<close>

definition csrf_token_of_request :: "web_env \<Rightarrow> http_request \<Rightarrow> db \<Rightarrow> string" where
  "csrf_token_of_request env rq d =
     (case request_session env rq d of
        Some (s, u) \<Rightarrow> session_csrf_token s
      | None \<Rightarrow> get_cookie rq csrf_token_cookie)"

lemma expected_csrf_token_opened: "expected_csrf_token (opened env rq d) = csrf_token_of_request env rq d"
  by (simp add: expected_csrf_token_def csrf_token_of_request_def split: option.split)

lemma csrf_rejected:
  assumes "headers_get (rq_headers rq) ''x-csrf-token'' \<noteq> Some (csrf_token_of_request env rq d)"
  shows "handler_impl env rq (post_handler h) d =
     Some \<lparr> sv_db = d, sv_response = Inr (snd (response_400 ''Missing or invalid CSRF token'' (opened env rq d))),
            sv_notified = False \<rparr>"
  using assms finish_respond [of "response_400 ''Missing or invalid CSRF token'' (opened env rq d)" "opened env rq d" d]
  by (simp add: handler_impl_opened post_handler_def expected_csrf_token_opened)

lemma csrf_accepted:
  assumes "headers_get (rq_headers rq) ''x-csrf-token'' = Some (csrf_token_of_request env rq d)"
  shows "handler_impl env rq (post_handler h) d = handler_impl env rq h d"
  using assms by (simp add: handler_impl_opened post_handler_def expected_csrf_token_opened)

text \<open>C23. Cross-site request protection of every POST route: when the header x-csrf-token is missing or
  is not the token of the live session that the request's cookie names (or, without a live session,
  the value of the csrf_token cookie), the handler does not run at all: whatever it is, the answer is
  400, the database is unchanged and the job server is not notified.\<close>

theorem post_needs_csrf_token:
  assumes "headers_get (rq_headers rq) ''x-csrf-token'' \<noteq> Some (csrf_token_of_request env rq d)"
  shows "\<exists>resp. handler_impl env rq (post_handler h) d =
      Some \<lparr> sv_db = d, sv_response = Inr resp, sv_notified = False \<rparr> \<and>
    rs_status_code resp = ''400 Bad Request''"
  using csrf_rejected [OF assms] by simp

theorem post_needs_csrf_token_witness:
  "\<exists>resp. handler_impl \<lparr> we_now = 0, we_csrf_token = ''t'', we_session_ids = [], we_salt = [] \<rparr>
      \<lparr> rq_method = Method_POST,
        rq_headers = [(''cookie'', ''session=abc''), (''X-CSRF-Token'', ''guess'')],
        rq_target = ''/api/sign_out'', rq_form_fields = no_fields \<rparr>
      (post_handler (\<lambda>cx. None))
      (empty_db\<lparr>
        db_users := [\<lparr> user_id = 5, user_created_at = [], user_type = User_ADMIN, username = ''joe'',
          first_name = [], last_name = [], email = [], password_salt = [], password_hash = [] \<rparr>],
        db_sessions := [\<lparr> session_id = ''abc'', session_csrf_token = ''secret'', session_user_id = 5,
          session_data = [], session_user_agent = [], session_expires = ''2030-01-01 00:00:00'' \<rparr>]\<rparr>) =
      Some \<lparr> sv_db = empty_db\<lparr>
        db_users := [\<lparr> user_id = 5, user_created_at = [], user_type = User_ADMIN, username = ''joe'',
          first_name = [], last_name = [], email = [], password_salt = [], password_hash = [] \<rparr>],
        db_sessions := [\<lparr> session_id = ''abc'', session_csrf_token = ''secret'', session_user_id = 5,
          session_data = [], session_user_agent = [], session_expires = ''2030-01-01 00:00:00'' \<rparr>]\<rparr>,
        sv_response = Inr resp, sv_notified = False \<rparr> \<and>
    rs_status_code resp = ''400 Bad Request''"
  by (rule post_needs_csrf_token) code_simp

end
