(* ===== verification/Users_Api.thy ===== *)
theory Users_Api
  imports Web_Context
begin

text \<open>
  The users API of the web server (src/subprojects/sim/src/web_server/users/api.cc) with the hashing
  of passwords (src/subprojects/sim/src/sim/users/user.cc) and the parameters of the user interface
  (\<open>sim_template_params\<close> in ui_template.cc). A SQL statement is its effect on the tables of \<open>Sim_Db\<close>;
  SHA3-512 is an argument \<open>sha\<close>, so what is proved holds for every hash function.
\<close>

section \<open>user.cc: passwords\<close>

type_synonym hash = "string \<Rightarrow> string"

definition salt_and_hash_password :: "hash \<Rightarrow> string \<Rightarrow> string \<Rightarrow> string \<times> string" where
  "salt_and_hash_password sha salt_bin password =
     (let salt = to_hex salt_bin in (salt, sha (salt @ password)))"

definition password_matches :: "hash \<Rightarrow> string \<Rightarrow> string \<Rightarrow> string \<Rightarrow> bool" where
  "password_matches sha password salt hashed = slow_equal (sha (salt @ password)) hashed"

section \<open>ui_template.cc: sim_template_params\<close>

definition jobs_list_caps_json :: "jobs_list_caps \<Rightarrow> json" where
  "jobs_list_caps_json caps = J_obj
     [(''query_all'', J_bool (jl_query_all caps)),
      (''query_with_status_pending'', J_bool (jl_query_with_status_pending caps)),
      (''query_with_status_in_progress'', J_bool (jl_query_with_status_in_progress caps)),
      (''query_with_status_done'', J_bool (jl_query_with_status_done caps)),
      (''query_with_status_failed'', J_bool (jl_query_with_status_failed caps)),
      (''query_with_status_cancelled'', J_bool (jl_query_with_status_cancelled caps))]"

definition problems_list_caps_json :: "problems_list_caps \<Rightarrow> json" where
  "problems_list_caps_json caps = J_obj
     [(''query_all'', J_bool (pl_query_all caps)),
      (''query_with_visibility_public'', J_bool (pl_query_with_visibility_public caps)),
      (''query_with_visibility_contest_only'', J_bool (pl_query_with_visibility_contest_only caps)),
      (''query_with_visibility_private'', J_bool (pl_query_with_visibility_private caps))]"

text \<open>A property that is added only when there is a session.\<close>

definition if_session :: "ctx_session option \<Rightarrow> string \<Rightarrow> (ctx_session \<Rightarrow> json) \<Rightarrow> (string \<times> json) list" where
  "if_session session name f = (case session of None \<Rightarrow> [] | Some s \<Rightarrow> [(name, f s)])"

definition sim_template_params :: "ctx_session option \<Rightarrow> string" where
  "sim_template_params session = json_render (J_obj
     [(''capabilities'', J_obj
        [(''contests'', J_obj [(''ui_view'', J_bool (cs_web_ui_view (contests_for session)))]),
         (''jobs'', J_obj
            ([(''ui_view'', J_bool (jobs_web_ui_view session)),
              (''list_all'', jobs_list_caps_json (list_jobs_caps session))] @
             if_session session ''list_my'' (\<lambda>s. jobs_list_caps_json (list_jobs_caps session)))),
         (''logs'', J_obj [(''ui_view'', J_bool (logs_for_view session))]),
         (''problems'', (let caps = problems_caps_of session in J_obj
            ([(''ui_view'', J_bool (ps_web_ui_view caps)),
              (''add_problem'', J_bool (ps_add_problem caps)),
              (''add_problem_with_visibility_private'', J_bool (ps_add_problem_with_visibility_private caps)),
              (''add_problem_with_visibility_contest_only'',
                 J_bool (ps_add_problem_with_visibility_contest_only caps)),
              (''add_problem_with_visibility_public'', J_bool (ps_add_problem_with_visibility_public caps)),
              (''list_all'', problems_list_caps_json (list_problems session))] @
             if_session session ''list_my''
               (\<lambda>s. problems_list_caps_json (list_user_problems session (cs_user_id s)))))),
         (''submissions'', J_obj
            ([(''ui_view'', J_bool (submissions_web_ui_view session)),
              (''list_all'', (let caps = list_submissions_caps session in J_obj
                 [(''query_all'', J_bool (sl_query_all caps)),
                  (''query_with_type_final'', J_bool (sl_query_with_type_final caps)),
                  (''query_with_type_problem_final'', J_bool (sl_query_with_type_problem_final caps)),
                  (''query_with_type_contest_problem_final'',
                     J_bool (sl_query_with_type_contest_problem_final caps)),
                  (''query_with_type_ignored'', J_bool (sl_query_with_type_ignored caps)),
                  (''query_with_type_problem_solution'', J_bool (sl_query_with_type_problem_solution caps)),
                  (''query_with_status_judge_error'', J_bool (sl_query_with_status_judge_error caps))]))] @
             if_session session ''list_my'' (\<lambda>s.
               let caps = list_user_submissions_caps session (cs_user_id s) in J_obj
                 [(''query_all'', J_bool (usl_query_all caps)),
                  (''query_with_type_final'', J_bool (usl_query_with_type_final caps)),
                  (''query_with_type_problem_final'', J_bool (usl_query_with_type_problem_final caps)),
                  (''query_with_type_contest_problem_final'',
                     J_bool (usl_query_with_type_contest_problem_final caps)),
                  (''query_with_type_ignored'', J_bool (usl_query_with_type_ignored caps))]))),
         (''users'', (let caps = users_caps_of session in J_obj
            [(''ui_view'', J_bool (us_web_ui_view caps)),
             (''add_user'', J_bool (us_add_user caps)),
             (''add_admin'', J_bool (us_add_admin caps)),
             (''add_teacher'', J_bool (us_add_teacher caps)),
             (''add_normal_user'', J_bool (us_add_normal_user caps)),
             (''list_all'', (let caps = list_users_caps session in J_obj
                [(''query_all'', J_bool (ul_query_all caps)),
                 (''query_with_type_admin'', J_bool (ul_query_with_type_admin caps)),
                 (''query_with_type_teacher'', J_bool (ul_query_with_type_teacher caps)),
                 (''query_with_type_normal'', J_bool (ul_query_with_type_normal caps))]))])),
         (''contests'', J_obj [(''ui_view'', J_bool (cs_web_ui_view (contests_for session)))])]),
      (''session'', case session of
         None \<Rightarrow> J_null
       | Some s \<Rightarrow> J_obj [(''user_id'', J_int (uint (cs_user_id s))),
                         (''user_type'', J_enum (user_type_to_str (cs_user_type s))),
                         (''username'', J_str (cs_username s))])])"

section \<open>users/api.cc: listing\<close>

text \<open>A JSON array whose elements may throw.\<close>

fun traverse_res :: "('a \<Rightarrow> 'b res) \<Rightarrow> 'a list \<Rightarrow> 'b list res" where
  "traverse_res f [] = Inr []"
| "traverse_res f (x # xs) = bind_res (f x) (\<lambda>y. map_sum id (Cons y) (traverse_res f xs))"

definition user_info_props :: "user \<Rightarrow> user_caps \<Rightarrow> (string \<times> json) list" where
  "user_info_props u caps =
     [(''id'', J_int (uint (user_id u))),
      (''type'', J_enum (user_type_to_str (user_type u))),
      (''username'', J_str (username u)),
      (''first_name'', J_str (first_name u)),
      (''last_name'', J_str (last_name u)),
      (''email'', J_str (email u)),
      (''capabilities'', J_obj
         [(''view'', J_bool (u_view caps)),
          (''edit'', J_bool (u_edit caps)),
          (''edit_username'', J_bool (u_edit_username caps)),
          (''edit_first_name'', J_bool (u_edit_first_name caps)),
          (''edit_last_name'', J_bool (u_edit_last_name caps)),
          (''edit_email'', J_bool (u_edit_email caps)),
          (''change_password'', J_bool (u_change_password caps)),
          (''change_password_without_old_password'', J_bool (u_change_password_without_old_password caps)),
          (''change_type'', J_bool (u_change_type caps)),
          (''make_admin'', J_bool (u_make_admin caps)),
          (''make_teacher'', J_bool (u_make_teacher caps)),
          (''make_normal'', J_bool (u_make_normal caps)),
          (''delete'', J_bool (u_delete caps)),
          (''merge_into_another_user'', J_bool (u_merge_into_another_user caps)),
          (''merge_someone_into_this_user'', J_bool (u_merge_someone_into_this_user caps))])]"

definition user_info_append_to :: "user \<Rightarrow> user_caps \<Rightarrow> (string \<times> json) list res" where
  "user_info_append_to u caps =
     (if u_view caps then Inr (user_info_props u caps) else Inl (Throw_assert ''caps.view''))"

text \<open>The rows of \<open>SELECT ... ORDER BY id LIMIT ?\<close>, and the answer with them.\<close>

definition select_users :: "nat \<Rightarrow> (user \<Rightarrow> bool) \<Rightarrow> db \<Rightarrow> user list" where
  "select_users limit where_cond d = take limit (sort_key user_id (filter where_cond (db_users d)))"

definition list_response :: "nat \<Rightarrow> json list \<Rightarrow> web_context \<Rightarrow> web_context \<times> http_response" where
  "list_response limit rows =
     response_json (json_render (J_obj [(''list'', J_arr rows), (''may_be_more'', J_bool (length rows = limit))]))"

definition users_do_list :: "nat \<Rightarrow> (user \<Rightarrow> bool) \<Rightarrow> web_context \<Rightarrow> outcome" where
  "users_do_list limit where_cond cx =
     map_sum id (\<lambda>rows. list_response limit rows cx)
       (traverse_res (\<lambda>u. map_sum id J_obj
            (user_info_append_to u (user_caps_of (cx_session cx) (user_id u) (user_type u))))
          (select_users limit where_cond (cx_db cx)))"

fun users_is_query_allowed :: "users_list_caps \<Rightarrow> user_type option \<Rightarrow> bool" where
  "users_is_query_allowed caps None = ul_query_all caps"
| "users_is_query_allowed caps (Some User_ADMIN) = ul_query_with_type_admin caps"
| "users_is_query_allowed caps (Some User_TEACHER) = ul_query_with_type_teacher caps"
| "users_is_query_allowed caps (Some User_NORMAL) = ul_query_with_type_normal caps"

definition users_caps_to_condition :: "users_list_caps \<Rightarrow> user_type option \<Rightarrow> user \<Rightarrow> bool" where
  "users_caps_to_condition caps utype u \<longleftrightarrow>
     (ul_view_all_with_type_admin caps \<and> (utype = None \<or> utype = Some User_ADMIN) \<and> user_type u = User_ADMIN) \<or>
     (ul_view_all_with_type_teacher caps \<and> (utype = None \<or> utype = Some User_TEACHER) \<and> user_type u = User_TEACHER) \<or>
     (ul_view_all_with_type_normal caps \<and> (utype = None \<or> utype = Some User_NORMAL) \<and> user_type u = User_NORMAL)"

definition do_list_users :: "nat \<Rightarrow> user_type option \<Rightarrow> (user \<Rightarrow> bool) \<Rightarrow> web_context \<Rightarrow> outcome" where
  "do_list_users limit utype where_cond cx =
     (let caps = list_users_caps (cx_session cx)
      in if \<not> users_is_query_allowed caps utype then Inr (response_403 [] cx)
         else users_do_list limit (\<lambda>u. where_cond u \<and> users_caps_to_condition caps utype u) cx)"

definition users_FIRST_QUERY_LIMIT :: nat where
  "users_FIRST_QUERY_LIMIT = 64"

definition users_NEXT_QUERY_LIMIT :: nat where
  "users_NEXT_QUERY_LIMIT = 200"

definition list_users :: "web_context \<Rightarrow> outcome" where
  "list_users = do_list_users users_FIRST_QUERY_LIMIT None (\<lambda>u. True)"

definition list_users_above_id :: "id \<Rightarrow> web_context \<Rightarrow> outcome" where
  "list_users_above_id uid = do_list_users users_NEXT_QUERY_LIMIT None (\<lambda>u. user_id u > uid)"

definition list_users_with_type :: "user_type \<Rightarrow> web_context \<Rightarrow> outcome" where
  "list_users_with_type utype = do_list_users users_FIRST_QUERY_LIMIT (Some utype) (\<lambda>u. True)"

definition list_users_with_type_and_above_id :: "user_type \<Rightarrow> id \<Rightarrow> web_context \<Rightarrow> outcome" where
  "list_users_with_type_and_above_id utype uid =
     do_list_users users_NEXT_QUERY_LIMIT (Some utype) (\<lambda>u. user_id u > uid)"

definition get_user_type :: "db \<Rightarrow> id \<Rightarrow> user_type option" where
  "get_user_type d uid = map_option user_type (find_user d uid)"

definition get_user_caps :: "web_context \<Rightarrow> id \<Rightarrow> user_caps option" where
  "get_user_caps cx uid =
     (case get_user_type (cx_db cx) uid of
        None \<Rightarrow> None
      | Some utype \<Rightarrow> Some (user_caps_of (cx_session cx) uid utype))"

definition view_user :: "id \<Rightarrow> web_context \<Rightarrow> outcome" where
  "view_user uid cx =
     (case get_user_type (cx_db cx) uid of
        None \<Rightarrow> Inr (response_404 cx)
      | Some utype \<Rightarrow>
          if \<not> u_view (user_caps_of (cx_session cx) uid utype) then Inr (response_403 [] cx)
          else case find_user (cx_db cx) uid of
                 None \<Rightarrow> Inr (response_404 cx)
               | Some u \<Rightarrow>
                   map_sum id (\<lambda>props. response_json (json_render (J_obj props)) cx)
                     (user_info_append_to u (user_caps_of (cx_session cx) uid (user_type u))))"

section \<open>users/api.cc: parameters\<close>

definition param_username :: api_param where
  "param_username = api_param_of ''username'' ''Username''"
definition param_type :: api_param where
  "param_type = api_param_of ''type'' ''Type''"
definition param_first_name :: api_param where
  "param_first_name = api_param_of ''first_name'' ''First name''"
definition param_last_name :: api_param where
  "param_last_name = api_param_of ''last_name'' ''Last name''"
definition param_email :: api_param where
  "param_email = api_param_of ''email'' ''Email''"
definition param_password :: api_param where
  "param_password = api_param_of ''password'' ''Password''"
definition param_password_repeated :: api_param where
  "param_password_repeated = api_param_of ''password_repeated'' ''Password (repeat)''"
definition param_old_password :: api_param where
  "param_old_password = api_param_of ''old_password'' ''Old password''"
definition param_new_password :: api_param where
  "param_new_password = api_param_of ''new_password'' ''New password''"
definition param_new_password_repeated :: api_param where
  "param_new_password_repeated = api_param_of ''new_password_repeated'' ''New password (repeat)''"
definition param_remember_for_a_month :: api_param where
  "param_remember_for_a_month = api_param_of ''remember_for_a_month'' ''Remember for a month''"
definition param_target_user_id :: api_param where
  "param_target_user_id = api_param_of ''target_user_id'' ''Target user ID''"

text \<open>The validators of the columns of \<open>User\<close>.\<close>

definition is_username_description :: string where
  "is_username_description = ''a string consisting only of the characters [a-zA-Z0-9_-]''"

definition validate_username :: "string validator" where
  "validate_username = validate_satisfying (validate_varbinary 30) is_username is_username_description"

definition validate_user_type :: "user_type validator" where
  "validate_user_type = validate_enum user_type_from_str"

abbreviation form_of :: "web_context \<Rightarrow> form_fields" where
  "form_of cx \<equiv> rq_form_fields (cx_request cx)"

section \<open>users/api.cc: sessions and accounts\<close>

definition after_create_session :: "(web_context \<Rightarrow> web_context \<times> http_response) \<Rightarrow> web_context res option \<Rightarrow> outcome option" where
  "after_create_session k = map_option (map_sum id k)"

definition sign_in_session ::
  "web_env \<Rightarrow> id \<Rightarrow> user_type \<Rightarrow> string \<Rightarrow> bool \<Rightarrow> web_context \<Rightarrow> outcome option" where
  "sign_in_session env uid utype uname remember cx =
     (case (if cx_session cx \<noteq> None then destroy_session cx else Inr cx) of
        Inl e \<Rightarrow> Some (Inl e)
      | Inr cx1 \<Rightarrow>
          after_create_session (\<lambda>cx2. response_json (sim_template_params (cx_session cx2)) cx2)
            (create_session env uid utype uname [] remember cx1))"

definition sign_in :: "web_env \<Rightarrow> hash \<Rightarrow> web_handler" where
  "sign_in env sha cx =
     (let caps = users_caps_of (cx_session cx)
      in if \<not> us_sign_in caps then Some (Inr (response_403 [] cx))
         else VALIDATE
           (both (validate_required validate_username param_username (form_of cx))
             (both (validate_required validate_cstring (allow_blank param_password) (form_of cx))
               (validate_required validate_bool param_remember_for_a_month (form_of cx))))
           (\<lambda>errs. Some (Inr (response_400 errs cx)))
           (\<lambda>(uname, password, remember).
             case find (\<lambda>u. username u = uname) (db_users (cx_db cx)) of
               None \<Rightarrow> Some (Inr (response_400 ''Invalid username or password'' cx))
             | Some u \<Rightarrow>
                 if password_matches sha password (password_salt u) (password_hash u)
                 then sign_in_session env (user_id u) (user_type u) uname remember cx
                 else Some (Inr (response_400 ''Invalid username or password'' cx))))"

text \<open>
  \<open>INSERT IGNORE INTO users\<close>: the username is a unique key. The result is the new id, if a row was
  inserted.
\<close>

definition insert_ignore_user :: "user \<Rightarrow> db \<Rightarrow> (id \<times> db) option" where
  "insert_ignore_user u d =
     (if username u \<in> username ` set (db_users d) then None
      else Some (db_next_user_id d,
        d\<lparr>db_users := db_users d @ [u\<lparr>user_id := db_next_user_id d\<rparr>], db_next_user_id := db_next_user_id d + 1\<rparr>))"

definition new_user ::
  "web_env \<Rightarrow> hash \<Rightarrow> user_type \<Rightarrow> string \<Rightarrow> string \<Rightarrow> string \<Rightarrow> string \<Rightarrow> string \<Rightarrow> user" where
  "new_user env sha utype uname fname lname mail password =
     (let (salt, hashed) = salt_and_hash_password sha (we_salt env) password
      in \<lparr> user_id = 0, user_created_at = now_of env, user_type = utype, username = uname,
           first_name = fname, last_name = lname, email = mail, password_salt = salt,
           password_hash = hashed \<rparr>)"

definition sign_up :: "web_env \<Rightarrow> hash \<Rightarrow> web_handler" where
  "sign_up env sha cx =
     (let caps = users_caps_of (cx_session cx)
      in if \<not> us_sign_up caps then Some (Inr (response_403 [] cx))
         else VALIDATE
           (both (validate_required validate_username param_username (form_of cx))
             (both (validate_required (validate_varbinary 60) param_first_name (form_of cx))
               (both (validate_required (validate_varbinary 60) param_last_name (form_of cx))
                 (both (validate_required (validate_varbinary 60) param_email (form_of cx))
                   (both (validate_required validate_cstring (allow_blank param_password) (form_of cx))
                     (validate_required validate_cstring (allow_blank param_password_repeated) (form_of cx)))))))
           (\<lambda>errs. Some (Inr (response_400 errs cx)))
           (\<lambda>(uname, fname, lname, mail, password, password_repeated).
             if password \<noteq> password_repeated then Some (Inr (response_400 ''Passwords do not match'' cx))
             else case insert_ignore_user (new_user env sha User_NORMAL uname fname lname mail password)
                         (cx_db cx) of
               None \<Rightarrow> Some (Inr (response_400 ''Username taken'' cx))
             | Some (uid, d) \<Rightarrow> sign_in_session env uid User_NORMAL uname False (cx\<lparr>cx_db := d\<rparr>)))"

definition sign_out :: "web_context \<Rightarrow> outcome" where
  "sign_out cx =
     (let caps = users_caps_of (cx_session cx)
      in if cx_session cx = None
         then (if us_sign_out caps then Inl (Throw_assert ''!caps.sign_out'')
               else Inr (response_400 ''You are already signed out'' cx))
         else if \<not> us_sign_out caps then Inr (response_400 ''You have no permission to sign out'' cx)
         else map_sum id (\<lambda>cx1. response_json (sim_template_params (cx_session cx1)) cx1) (destroy_session cx))"

fun add_type_caps :: "users_caps \<Rightarrow> user_type \<Rightarrow> bool" where
  "add_type_caps caps User_ADMIN = us_add_admin caps"
| "add_type_caps caps User_TEACHER = us_add_teacher caps"
| "add_type_caps caps User_NORMAL = us_add_normal_user caps"

definition add_user :: "web_env \<Rightarrow> hash \<Rightarrow> web_context \<Rightarrow> outcome" where
  "add_user env sha cx =
     (let caps = users_caps_of (cx_session cx)
      in if \<not> us_add_user caps then Inr (response_403 [] cx)
         else VALIDATE
           (both (enum_caps param_type (add_type_caps caps)
                   (validate_required validate_user_type param_type (form_of cx)))
             (both (validate_required validate_username param_username (form_of cx))
               (both (validate_required (validate_varbinary 60) param_first_name (form_of cx))
                 (both (validate_required (validate_varbinary 60) param_last_name (form_of cx))
                   (both (validate_required (validate_varbinary 60) param_email (form_of cx))
                     (both (validate_required validate_cstring (allow_blank param_password) (form_of cx))
                       (validate_required validate_cstring (allow_blank param_password_repeated)
                         (form_of cx))))))))
           (\<lambda>errs. Inr (response_400 errs cx))
           (\<lambda>(utype, uname, fname, lname, mail, password, password_repeated).
             if password \<noteq> password_repeated then Inr (response_400 ''Passwords do not match'' cx)
             else case insert_ignore_user (new_user env sha utype uname fname lname mail password)
                         (cx_db cx) of
               None \<Rightarrow> Inr (response_400 ''Username taken'' cx)
             | Some (uid, d) \<Rightarrow> Inr (response_ok (int_to_string (uint uid)) text_plain (cx\<lparr>cx_db := d\<rparr>))))"

fun make_type_caps :: "user_caps \<Rightarrow> user_type \<Rightarrow> bool" where
  "make_type_caps caps User_ADMIN = u_make_admin caps"
| "make_type_caps caps User_TEACHER = u_make_teacher caps"
| "make_type_caps caps User_NORMAL = u_make_normal caps"

text \<open>\<open>COALESCE(?, column)\<close>\<close>

definition coalesce :: "'a option \<Rightarrow> 'a \<Rightarrow> 'a" where
  "coalesce x y = (case x of None \<Rightarrow> y | Some v \<Rightarrow> v)"

definition update_user ::
  "user_type option \<Rightarrow> string option \<Rightarrow> string option \<Rightarrow> string option \<Rightarrow> string option \<Rightarrow> id \<Rightarrow> db \<Rightarrow> db" where
  "update_user utype uname fname lname mail uid d =
     d\<lparr>db_users := update_where (\<lambda>u. user_id u = uid)
         (\<lambda>u. u\<lparr>user_type := coalesce utype (user_type u), username := coalesce uname (username u),
                first_name := coalesce fname (first_name u), last_name := coalesce lname (last_name u),
                email := coalesce mail (email u)\<rparr>) (db_users d)\<rparr>"

definition username_taken :: "string option \<Rightarrow> id \<Rightarrow> db \<Rightarrow> bool" where
  "username_taken uname uid d \<longleftrightarrow>
     (case uname of None \<Rightarrow> False
      | Some n \<Rightarrow> list_ex (\<lambda>u. username u = n \<and> user_id u \<noteq> uid) (db_users d))"

definition edit_user :: "id \<Rightarrow> web_context \<Rightarrow> outcome" where
  "edit_user uid cx =
     (case get_user_type (cx_db cx) uid of
        None \<Rightarrow> Inr (response_404 cx)
      | Some old_type \<Rightarrow>
          (let caps = user_caps_of (cx_session cx) uid old_type
           in if \<not> u_edit caps then Inr (response_403 [] cx)
              else VALIDATE
                (both (enum_caps_opt param_type (make_type_caps caps)
                        (validate_allowed_only_if validate_user_type param_type (form_of cx) (u_change_type caps)))
                  (both (validate_allowed_only_if validate_username param_username (form_of cx)
                          (u_edit_username caps))
                    (both (validate_allowed_only_if (validate_varbinary 60) param_first_name (form_of cx)
                            (u_edit_first_name caps))
                      (both (validate_allowed_only_if (validate_varbinary 60) param_last_name (form_of cx)
                              (u_edit_last_name caps))
                        (validate_allowed_only_if (validate_varbinary 60) param_email (form_of cx)
                          (u_edit_email caps))))))
                (\<lambda>errs. Inr (response_400 errs cx))
                (\<lambda>(utype, uname, fname, lname, mail).
                  if username_taken uname uid (cx_db cx) then Inr (response_400 ''Username taken'' cx)
                  else Inr (response_ok [] text_plain
                    (cx\<lparr>cx_db := update_user utype uname fname lname mail uid (cx_db cx)\<rparr>)))))"

definition password_is_valid :: "hash \<Rightarrow> db \<Rightarrow> id \<Rightarrow> string \<Rightarrow> bool" where
  "password_is_valid sha d uid password =
     (case find_user d uid of
        None \<Rightarrow> False
      | Some u \<Rightarrow> password_matches sha password (password_salt u) (password_hash u))"

definition set_password :: "string \<Rightarrow> string \<Rightarrow> id \<Rightarrow> db \<Rightarrow> db" where
  "set_password salt hashed uid d =
     d\<lparr>db_users := update_where (\<lambda>u. user_id u = uid)
         (\<lambda>u. u\<lparr>password_salt := salt, password_hash := hashed\<rparr>) (db_users d)\<rparr>"

definition change_password :: "web_env \<Rightarrow> hash \<Rightarrow> id \<Rightarrow> web_context \<Rightarrow> outcome" where
  "change_password env sha uid cx =
     (case get_user_caps cx uid of
        None \<Rightarrow> Inr (response_404 cx)
      | Some caps \<Rightarrow>
          if \<not> u_change_password caps then Inr (response_403 [] cx)
          else VALIDATE
            (both (validate_required_and_allowed_only_if validate_cstring (allow_blank param_old_password)
                    (form_of cx) (\<not> u_change_password_without_old_password caps))
              (both (validate_required validate_cstring (allow_blank param_new_password) (form_of cx))
                (validate_required validate_cstring (allow_blank param_new_password_repeated) (form_of cx))))
            (\<lambda>errs. Inr (response_400 errs cx))
            (\<lambda>(old_password, new_password, new_password_repeated).
              if new_password \<noteq> new_password_repeated
              then Inr (response_400 ''New passwords do not match'' cx)
              else if (case old_password of None \<Rightarrow> False
                       | Some p \<Rightarrow> \<not> password_is_valid sha (cx_db cx) uid p)
              then Inr (response_400 ''Invalid old password'' cx)
              else
                let (salt, hashed) = salt_and_hash_password sha (we_salt env) new_password;
                    d1 = set_password salt hashed uid (cx_db cx)
                in bind_res (value_of (cx_session cx)) (\<lambda>s.
                     Inr (response_ok [] text_plain
                       (cx\<lparr>cx_db := delete_sessions_where
                          (\<lambda>r. session_user_id r = uid \<and> session_id r \<noteq> cs_id s) d1\<rparr>)))))"

definition job_id_response :: "id \<Rightarrow> web_context \<Rightarrow> web_context \<times> http_response" where
  "job_id_response jid = response_json (json_render (J_obj [(''job_id'', J_int (uint jid))]))"

text \<open>\<open>INSERT INTO jobs\<close> with the notification of the job server and the answer with the id.\<close>

definition queue_job ::
  "web_env \<Rightarrow> ctx_session \<Rightarrow> job_type \<Rightarrow> id option \<Rightarrow> id option \<Rightarrow> web_context \<Rightarrow> outcome" where
  "queue_job env s jtype aux aux2 cx =
     Inr (job_id_response (db_next_job_id (cx_db cx))
       (cx\<lparr>cx_db := insert_job (now_of env) (Some (cs_user_id s)) jtype aux aux2 (cx_db cx),
           cx_notify_job_server := True\<rparr>))"

definition delete_user_api :: "web_env \<Rightarrow> hash \<Rightarrow> id \<Rightarrow> web_context \<Rightarrow> outcome" where
  "delete_user_api env sha uid cx =
     (case get_user_caps cx uid of
        None \<Rightarrow> Inr (response_404 cx)
      | Some caps \<Rightarrow>
          if \<not> u_delete caps then Inr (response_403 [] cx)
          else VALIDATE
            (validate_required validate_cstring (allow_blank param_password) (form_of cx))
            (\<lambda>errs. Inr (response_400 errs cx))
            (\<lambda>password. bind_res (value_of (cx_session cx)) (\<lambda>s.
              if \<not> password_is_valid sha (cx_db cx) (cs_user_id s) password
              then Inr (response_400 ''Invalid password'' cx)
              else queue_job env s DELETE_USER (Some uid) None cx)))"

definition merge_into_another :: "web_env \<Rightarrow> hash \<Rightarrow> id \<Rightarrow> web_context \<Rightarrow> outcome" where
  "merge_into_another env sha uid cx =
     (case get_user_caps cx uid of
        None \<Rightarrow> Inr (response_404 cx)
      | Some caps \<Rightarrow>
          if \<not> u_merge_into_another_user caps then Inr (response_403 [] cx)
          else VALIDATE
            (both (validate_required validate_id param_target_user_id (form_of cx))
              (validate_required validate_cstring (allow_blank param_password) (form_of cx)))
            (\<lambda>errs. Inr (response_400 errs cx))
            (\<lambda>(target_user_id, password). bind_res (value_of (cx_session cx)) (\<lambda>s.
              if \<not> password_is_valid sha (cx_db cx) (cs_user_id s) password
              then Inr (response_400 ''Invalid password'' cx)
              else if target_user_id = uid
              then Inr (response_400 ''You cannot merge the user with themself'' cx)
              else case get_user_type (cx_db cx) target_user_id of
                     None \<Rightarrow> Inr (response_404 cx)
                   | Some target_type \<Rightarrow>
                       if \<not> u_merge_someone_into_this_user
                              (user_caps_of (cx_session cx) target_user_id target_type)
                       then Inr (response_400 ''You cannot merge into this target target user'' cx)
                       else queue_job env s MERGE_USERS (Some uid) (Some target_user_id) cx)))"

section \<open>Listing users\<close>

lemma traverse_res_Inr: "(\<And>x. x \<in> set xs \<Longrightarrow> f x = Inr (g x)) \<Longrightarrow> traverse_res f xs = Inr (map g xs)"
  by (induction xs) auto

definition user_json :: "ctx_session option \<Rightarrow> user \<Rightarrow> json" where
  "user_json session u = J_obj (user_info_props u (user_caps_of session (user_id u) (user_type u)))"

lemma set_select_users: "u \<in> set (select_users limit w d) \<Longrightarrow> u \<in> set (db_users d) \<and> w u"
  using set_take_subset [of limit "sort_key user_id (filter w (db_users d))"]
  by (auto simp: select_users_def)

lemma users_do_list_visible:
  assumes "\<And>u. u \<in> set (db_users (cx_db cx)) \<Longrightarrow> w u \<Longrightarrow> u_view (user_caps_of (cx_session cx) (user_id u) (user_type u))"
  shows "users_do_list limit w cx =
     Inr (list_response limit (map (user_json (cx_session cx)) (select_users limit w (cx_db cx))) cx)"
proof -
  have "traverse_res (\<lambda>u. map_sum id J_obj
      (user_info_append_to u (user_caps_of (cx_session cx) (user_id u) (user_type u))))
      (select_users limit w (cx_db cx)) =
    Inr (map (user_json (cx_session cx)) (select_users limit w (cx_db cx)))"
    using assms set_select_users [of _ limit w "cx_db cx"]
    by (intro traverse_res_Inr) (auto simp: user_info_append_to_def user_json_def)
  then show ?thesis by (simp add: users_do_list_def)
qed

lemma is_query_allowed_users: "users_is_query_allowed (list_users_caps session) utype = is_admin session"
  by (cases "(list_users_caps session, utype)" rule: users_is_query_allowed.cases)
    (auto simp: list_users_caps_def)

lemma users_condition_admin:
  "is_admin session \<Longrightarrow>
     users_caps_to_condition (list_users_caps session) utype u \<longleftrightarrow> (\<forall>t. utype = Some t \<longrightarrow> user_type u = t)"
  by (cases utype; cases "user_type u") (auto simp: users_caps_to_condition_def list_users_caps_def)

lemma do_list_users_exact:
  "do_list_users limit utype w cx =
     Inr (if is_admin (cx_session cx)
          then list_response limit (map (user_json (cx_session cx))
                 (select_users limit (\<lambda>u. w u \<and> (\<forall>t. utype = Some t \<longrightarrow> user_type u = t)) (cx_db cx))) cx
          else response_404 cx)"
proof (cases "is_admin (cx_session cx)")
  case True
  then have "(\<lambda>u. w u \<and> users_caps_to_condition (list_users_caps (cx_session cx)) utype u) =
      (\<lambda>u. w u \<and> (\<forall>t. utype = Some t \<longrightarrow> user_type u = t))"
    by (auto simp: users_condition_admin)
  then show ?thesis
    using True by (simp add: do_list_users_def is_query_allowed_users users_do_list_visible user_caps_unfold)
next
  case False
  then show ?thesis by (simp add: do_list_users_def is_query_allowed_users response_403_hides)
qed

section \<open>Other users are invisible\<close>

lemma user_caps_foreign:
  assumes "\<not> is_admin session" "\<not> is_self session uid"
  shows "\<not> u_view (user_caps_of session uid t)" "\<not> u_edit (user_caps_of session uid t)"
    "\<not> u_change_password (user_caps_of session uid t)" "\<not> u_delete (user_caps_of session uid t)"
    "\<not> u_merge_into_another_user (user_caps_of session uid t)"
  using assms by (simp_all add: user_caps_unfold)

lemma foreign_user_404:
  assumes "\<not> is_admin (cx_session cx)" "\<not> is_self (cx_session cx) uid"
  shows "view_user uid cx = Inr (response_404 cx)" "edit_user uid cx = Inr (response_404 cx)"
    "change_password env sha uid cx = Inr (response_404 cx)"
    "delete_user_api env sha uid cx = Inr (response_404 cx)"
    "merge_into_another env sha uid cx = Inr (response_404 cx)"
  using user_caps_foreign [OF assms] response_403_hides [OF assms(1)]
  by (simp_all add: view_user_def edit_user_def change_password_def delete_user_api_def
      merge_into_another_def get_user_caps_def Let_def split: option.splits)

section \<open>What each operation may change\<close>

text \<open>An answer that leaves everything as it was but the cookies, which it takes.\<close>

definition answered :: "web_context \<Rightarrow> web_context \<times> http_response \<Rightarrow> bool" where
  "answered cx r \<longleftrightarrow> fst r = cx\<lparr>cx_cookie_changes := []\<rparr>"

lemma answered_responses [simp]:
  "answered cx (response_ok c t cx)" "answered cx (response_json c cx)" "answered cx (response_400 c cx)"
  "answered cx (response_404 cx)" "answered cx (response_403 c cx)"
  by (simp_all add: answered_def)

definition answers :: "web_context \<Rightarrow> outcome \<Rightarrow> bool" where
  "answers cx r = (case r of Inl e \<Rightarrow> False | Inr x \<Rightarrow> answered cx x)"

lemma answers_simps [simp]: "answers cx (Inr x) = answered cx x" "\<not> answers cx (Inl e)"
  by (simp_all add: answers_def)

lemma VALIDATE_elim:
  assumes "VALIDATE vars on_errors body = r"
    and "\<And>e. vars [] = (None, e) \<Longrightarrow> on_errors e = r \<Longrightarrow> P"
    and "\<And>x e. vars [] = (Some x, e) \<Longrightarrow> body x = r \<Longrightarrow> P"
  shows P
  by (rule VALIDATE_cases [of vars on_errors body]) (use assms in auto)

lemma validate_username_SomeD:
  "validate_username p s e = (Some x, e') \<Longrightarrow> x = s \<and> is_username x \<and> length x \<le> 30 \<and> (x = [] \<longrightarrow> ap_allow_blank p)"
  by (auto simp: validate_username_def dest!: validate_satisfying_SomeD validate_varbinary_SomeD)

lemma allowed_varbinary:
  "validate_allowed_only_if (validate_varbinary n) p ff c e = (Some y, e') \<Longrightarrow> y = Some x \<Longrightarrow> c \<and> length x \<le> n"
  by (auto dest!: validate_allowed_only_if_SomeD validate_varbinary_SomeD)

lemma allowed_username:
  "validate_allowed_only_if validate_username param_username ff c e = (Some y, e') \<Longrightarrow> y = Some x \<Longrightarrow>
     c \<and> is_username x \<and> x \<noteq> [] \<and> length x \<le> 30"
  by (auto simp: param_username_def dest!: validate_allowed_only_if_SomeD validate_username_SomeD)

lemma required_username:
  "validate_required validate_username param_username ff e = (Some x, e') \<Longrightarrow>
     ff_get ff ''username'' = Some x \<and> is_username x \<and> x \<noteq> [] \<and> length x \<le> 30"
  by (auto simp: param_username_def dest!: validate_required_SomeD validate_username_SomeD)

lemma required_varbinary:
  "validate_required (validate_varbinary n) p ff e = (Some x, e') \<Longrightarrow>
     ff_get ff (ap_name p) = Some x \<and> length x \<le> n"
  by (auto dest!: validate_required_SomeD validate_varbinary_SomeD)

lemma required_cstring:
  "validate_required validate_cstring p ff e = (Some x, e') \<Longrightarrow> ff_get ff (ap_name p) = Some x"
  by (auto simp: validate_cstring_def dest!: validate_required_SomeD split: if_splits)

lemma required_old_password:
  "validate_required_and_allowed_only_if validate_cstring p ff c e = (Some y, e') \<Longrightarrow>
     (c \<longleftrightarrow> y \<noteq> None) \<and> (\<forall>x. y = Some x \<longrightarrow> ff_get ff (ap_name p) = Some x)"
  by (auto simp: validate_cstring_def dest!: validate_required_and_allowed_only_if_SomeD split: if_splits)

text \<open>The well-formedness of the user table: its two unique keys, and the columns' types.\<close>

definition user_row_ok :: "user \<Rightarrow> bool" where
  "user_row_ok u \<longleftrightarrow> is_username (username u) \<and> username u \<noteq> [] \<and> length (username u) \<le> 30 \<and>
     length (first_name u) \<le> 60 \<and> length (last_name u) \<le> 60 \<and> length (email u) \<le> 60"

definition users_ok :: "db \<Rightarrow> bool" where
  "users_ok d \<longleftrightarrow> distinct (map user_id (db_users d)) \<and> distinct (map username (db_users d)) \<and>
     list_all user_row_ok (db_users d)"

text \<open>The next id of the users is beyond every id in use, and has not wrapped.\<close>

definition user_ids_ok :: "db \<Rightarrow> bool" where
  "user_ids_ok d \<longleftrightarrow> (\<forall>u \<in> set (db_users d). user_id u < db_next_user_id d) \<and> db_next_user_id d + 1 \<noteq> 0"

lemma edit_user_result:
  assumes "edit_user uid cx = Inr r"
  obtains (kept) "answered cx r"
  | (edited) u utype uname fname lname mail where
      "r = response_ok [] text_plain (cx\<lparr>cx_db := update_user utype uname fname lname mail uid (cx_db cx)\<rparr>)"
      "find_user (cx_db cx) uid = Some u" "u_edit (user_caps_of (cx_session cx) uid (user_type u))"
      "\<forall>t. utype = Some t \<longrightarrow> make_type_caps (user_caps_of (cx_session cx) uid (user_type u)) t"
      "\<forall>n. uname = Some n \<longrightarrow> is_username n \<and> n \<noteq> [] \<and> length n \<le> 30"
      "\<not> username_taken uname uid (cx_db cx)"
      "\<forall>n. fname = Some n \<longrightarrow> length n \<le> 60" "\<forall>n. lname = Some n \<longrightarrow> length n \<le> 60"
      "\<forall>n. mail = Some n \<longrightarrow> length n \<le> 60"
proof (cases "find_user (cx_db cx) uid")
  case None
  then have "r = response_404 cx" using assms by (simp add: edit_user_def get_user_type_def)
  then show ?thesis using kept by simp
next
  case (Some u)
  let ?caps = "user_caps_of (cx_session cx) uid (user_type u)"
  show ?thesis
  proof (cases "u_edit ?caps")
    case False
    then have "r = response_403 [] cx" using assms Some by (simp add: edit_user_def get_user_type_def)
    then show ?thesis using kept by simp
  next
    case True
    from assms Some True show ?thesis
      apply (simp add: edit_user_def get_user_type_def Let_def)
      apply (erule VALIDATE_elim)
       apply (rule kept)
       apply clarsimp
      apply (clarsimp dest!: both_SomeD enum_caps_opt_SomeD split: if_splits)
       apply (rule kept)
       apply clarsimp
      apply (rule edited, rule sym, assumption)
             apply (auto dest: allowed_username allowed_varbinary)
      done
  qed
qed

lemma edit_user_returns: "\<exists>x. edit_user uid cx = Inr x"
  by (auto simp: edit_user_def Let_def split: option.split VALIDATE_split)

lemma change_password_result:
  "answers cx (change_password env sha uid cx) \<or>
   (\<exists>u s new_password.
      change_password env sha uid cx = Inr (response_ok [] text_plain
         (cx\<lparr>cx_db := delete_sessions_where (\<lambda>r. session_user_id r = uid \<and> session_id r \<noteq> cs_id s)
            (set_password (to_hex (we_salt env)) (sha (to_hex (we_salt env) @ new_password)) uid (cx_db cx))\<rparr>)) \<and>
      cx_session cx = Some s \<and> find_user (cx_db cx) uid = Some u \<and>
      u_change_password (user_caps_of (cx_session cx) uid (user_type u)) \<and>
      ff_get (form_of cx) ''new_password'' = Some new_password \<and>
      ff_get (form_of cx) ''new_password_repeated'' = Some new_password \<and>
      (cs_user_id s = uid \<longrightarrow> (\<exists>p. ff_get (form_of cx) ''old_password'' = Some p \<and>
         password_matches sha p (password_salt u) (password_hash u))))"
proof (cases "find_user (cx_db cx) uid")
  case None
  then show ?thesis by (simp add: change_password_def get_user_caps_def get_user_type_def)
next
  case (Some u)
  let ?caps = "user_caps_of (cx_session cx) uid (user_type u)"
  show ?thesis
  proof (cases "u_change_password ?caps")
    case False
    then show ?thesis using Some by (simp add: change_password_def get_user_caps_def get_user_type_def)
  next
    case True
    then obtain s where s: "cx_session cx = Some s" by (cases "cx_session cx") (auto simp: user_caps_unfold)
    have old: "\<not> u_change_password_without_old_password ?caps \<longleftrightarrow> cs_user_id s = uid"
      using True s by (auto simp: user_caps_unfold)
    show ?thesis
      using Some True s old
      by (auto simp: change_password_def get_user_caps_def get_user_type_def password_is_valid_def
          salt_and_hash_password_def Let_def param_new_password_def param_new_password_repeated_def
          param_old_password_def
          split: VALIDATE_split if_splits
          dest!: both_SomeD required_cstring required_old_password)
  qed
qed

lemma delete_user_api_result:
  "answers cx (delete_user_api env sha uid cx) \<or>
   (\<exists>u s password. delete_user_api env sha uid cx = queue_job env s DELETE_USER (Some uid) None cx \<and>
      cx_session cx = Some s \<and> find_user (cx_db cx) uid = Some u \<and>
      u_delete (user_caps_of (cx_session cx) uid (user_type u)) \<and>
      ff_get (form_of cx) ''password'' = Some password \<and>
      password_is_valid sha (cx_db cx) (cs_user_id s) password)"
proof (cases "find_user (cx_db cx) uid")
  case None
  then show ?thesis by (simp add: delete_user_api_def get_user_caps_def get_user_type_def)
next
  case (Some u)
  let ?caps = "user_caps_of (cx_session cx) uid (user_type u)"
  show ?thesis
  proof (cases "u_delete ?caps")
    case False
    then show ?thesis using Some by (simp add: delete_user_api_def get_user_caps_def get_user_type_def)
  next
    case True
    then obtain s where s: "cx_session cx = Some s" by (cases "cx_session cx") (auto simp: user_caps_unfold)
    show ?thesis
      using Some True s
      by (auto simp: delete_user_api_def get_user_caps_def get_user_type_def param_password_def
          split: VALIDATE_split if_splits dest!: required_cstring)
  qed
qed

lemma merge_into_another_result:
  "answers cx (merge_into_another env sha uid cx) \<or>
   (\<exists>u s password target v. merge_into_another env sha uid cx = queue_job env s MERGE_USERS (Some uid) (Some target) cx \<and>
      cx_session cx = Some s \<and> find_user (cx_db cx) uid = Some u \<and>
      u_merge_into_another_user (user_caps_of (cx_session cx) uid (user_type u)) \<and>
      ff_get (form_of cx) ''password'' = Some password \<and>
      password_is_valid sha (cx_db cx) (cs_user_id s) password \<and>
      target \<noteq> uid \<and> find_user (cx_db cx) target = Some v \<and> target \<noteq> SIM_ROOT_ID)"
proof (cases "find_user (cx_db cx) uid")
  case None
  then show ?thesis by (simp add: merge_into_another_def get_user_caps_def get_user_type_def)
next
  case (Some u)
  let ?caps = "user_caps_of (cx_session cx) uid (user_type u)"
  show ?thesis
  proof (cases "u_merge_into_another_user ?caps")
    case False
    then show ?thesis using Some by (simp add: merge_into_another_def get_user_caps_def get_user_type_def)
  next
    case True
    then obtain s where s: "cx_session cx = Some s" by (cases "cx_session cx") (auto simp: user_caps_unfold)
    have root: "u_merge_someone_into_this_user (user_caps_of sess t ty) \<longleftrightarrow> t \<noteq> SIM_ROOT_ID" for sess t ty
      by (simp add: user_caps_unfold)
    show ?thesis
      using Some True s
      by (auto simp: merge_into_another_def get_user_caps_def get_user_type_def param_password_def root
          split: VALIDATE_split if_splits option.splits dest!: both_SomeD required_cstring)
        (metis option.distinct(1))
  qed
qed

lemma new_user_ok:
  assumes "is_username n" "n \<noteq> []" "length n \<le> 30" "length f \<le> 60" "length l \<le> 60" "length m \<le> 60"
  shows "user_row_ok (new_user env sha t n f l m p)"
    and "username (new_user env sha t n f l m p) = n"
    and "user_type (new_user env sha t n f l m p) = t"
  using assms by (simp_all add: user_row_ok_def new_user_def salt_and_hash_password_def Let_def)

lemma insert_ignore_user_Some:
  "insert_ignore_user u d = Some (uid, d') \<longleftrightarrow>
     username u \<notin> username ` set (db_users d) \<and> uid = db_next_user_id d \<and>
     d' = d\<lparr>db_users := db_users d @ [u\<lparr>user_id := db_next_user_id d\<rparr>], db_next_user_id := db_next_user_id d + 1\<rparr>"
  by (auto simp: insert_ignore_user_def)

lemma add_user_result:
  "answers cx (add_user env sha cx) \<or>
   (\<exists>u uid d. add_user env sha cx = Inr (response_ok (int_to_string (uint uid)) text_plain (cx\<lparr>cx_db := d\<rparr>)) \<and>
      insert_ignore_user u (cx_db cx) = Some (uid, d) \<and> user_row_ok u \<and> is_admin (cx_session cx) \<and>
      add_type_caps (users_caps_of (cx_session cx)) (user_type u))"
proof (cases "us_add_user (users_caps_of (cx_session cx))")
  case False
  then show ?thesis by (simp add: add_user_def)
next
  case True
  then have admin: "is_admin (cx_session cx)" by (simp add: users_caps_of_def)
  show ?thesis
    using True admin
    by (auto simp: add_user_def
        split: VALIDATE_split if_splits option.splits
        dest!: both_SomeD enum_caps_SomeD required_username required_varbinary)
      (metis new_user_ok)+
qed

text \<open>The session row that a sign-in makes, and the context after it.\<close>

definition signed_in_as :: "id \<Rightarrow> web_context \<Rightarrow> web_context \<Rightarrow> bool" where
  "signed_in_as uid cx cx' \<longleftrightarrow>
     (\<exists>row kept s. cx_db cx' = (cx_db cx)\<lparr>db_sessions := kept @ [row]\<rparr> \<and> set kept \<subseteq> set (db_sessions (cx_db cx)) \<and>
        (\<forall>old. cx_session cx = Some old \<longrightarrow> cs_id old \<notin> session_id ` set kept) \<and>
        session_id row \<notin> session_id ` set kept \<and> session_user_id row = uid \<and> uid \<in> user_ids (cx_db cx) \<and>
        cx_session cx' = Some s \<and> cs_id s = session_id row \<and> cs_user_id s = uid \<and> cs_data s = cs_orig_data s \<and>
        cx_notify_job_server cx' = cx_notify_job_server cx)"

lemma create_session_result:
  assumes "create_session env uid t n dat long cx = Some r" "cx_session cx = None"
  shows "\<exists>cx' row s. r = Inr cx' \<and>
     cx_db cx' = (cx_db cx)\<lparr>db_sessions := delete_where (\<lambda>s. session_expires s \<le> now_of env)
       (db_sessions (cx_db cx)) @ [row]\<rparr> \<and>
     session_id row \<notin> session_id ` {s \<in> set (db_sessions (cx_db cx)). \<not> session_expires s \<le> now_of env} \<and>
     session_user_id row = uid \<and> uid \<in> user_ids (cx_db cx) \<and>
     cx_session cx' = Some s \<and> cs_id s = session_id row \<and> cs_user_id s = uid \<and> cs_data s = cs_orig_data s \<and>
     cx_notify_job_server cx' = cx_notify_job_server cx"
proof -
  let ?d = "delete_sessions_where (\<lambda>s. session_expires s \<le> now_of env) (cx_db cx)"
  obtain row sid d' cx' s where c: "insert_session (we_session_ids env) row ?d = Some (sid, d')"
      "session_user_id row = uid" "r = Inr cx'" "cx_db cx' = d'" "cx_session cx' = Some s" "cs_id s = sid"
      "cs_user_id s = uid" "cs_data s = cs_orig_data s" "cx_notify_job_server cx' = cx_notify_job_server cx"
    using assms by (auto simp: create_session_def Let_def split: option.splits)
  from insert_session_Some [OF c(1)] c show ?thesis
    by (intro exI [of _ cx'] exI [of _ "row\<lparr>session_id := sid\<rparr>"] exI [of _ s])
      (auto simp: delete_sessions_where_def user_ids_def)
qed

lemma sign_in_session_result:
  assumes "sign_in_session env uid t n rem cx = Some r"
  shows "\<exists>cx'. r = Inr (response_json (sim_template_params (cx_session cx')) cx') \<and> signed_in_as uid cx cx'"
proof -
  define cx1 where "cx1 = (case cx_session cx of None \<Rightarrow> cx
    | Some s \<Rightarrow> cx\<lparr>cx_db := delete_sessions_where (\<lambda>r. session_id r = cs_id s) (cx_db cx),
            cx_cookie_changes :=
              set_cookie (set_cookie (cx_cookie_changes cx) ''session'' [] (Some 0) (Some ''/'') True True)
                ''csrf_token'' [] (Some 0) (Some ''/'') False True,
            cx_session := None\<rparr>)"
  have 1: "cx_session cx1 = None" by (simp add: cx1_def split: option.split)
  have "(if cx_session cx \<noteq> None then destroy_session cx else Inr cx) = Inr cx1"
    by (auto simp: cx1_def destroy_session_def split: option.split)
  then obtain r1 where r1: "create_session env uid t n [] rem cx1 = Some r1"
      "r = map_sum id (\<lambda>cx2. response_json (sim_template_params (cx_session cx2)) cx2) r1"
    using assms by (auto simp: sign_in_session_def after_create_session_def)
  from create_session_result [OF r1(1) 1] obtain cx' row s where
    *: "r1 = Inr cx'" "cx_db cx' = (cx_db cx1)\<lparr>db_sessions := delete_where (\<lambda>s. session_expires s \<le> now_of env)
       (db_sessions (cx_db cx1)) @ [row]\<rparr>"
     "session_id row \<notin> session_id ` {s \<in> set (db_sessions (cx_db cx1)). \<not> session_expires s \<le> now_of env}"
     "session_user_id row = uid" "uid \<in> user_ids (cx_db cx1)"
     "cx_session cx' = Some s" "cs_id s = session_id row" "cs_user_id s = uid" "cs_data s = cs_orig_data s"
     "cx_notify_job_server cx' = cx_notify_job_server cx1"
    by blast
  let ?kept = "delete_where (\<lambda>s. session_expires s \<le> now_of env) (db_sessions (cx_db cx1))"
  have "cx_db cx' = (cx_db cx)\<lparr>db_sessions := ?kept @ [row]\<rparr>"
    using *(2) by (simp add: cx1_def delete_sessions_where_def split: option.splits)
  moreover have "set ?kept \<subseteq> set (db_sessions (cx_db cx))"
    "\<forall>old. cx_session cx = Some old \<longrightarrow> cs_id old \<notin> session_id ` set ?kept"
    by (auto simp: cx1_def delete_sessions_where_def split: option.split)
  moreover have "uid \<in> user_ids (cx_db cx)" "cx_notify_job_server cx' = cx_notify_job_server cx"
    using *(5,10) by (auto simp: cx1_def user_ids_def delete_sessions_where_def split: option.splits)
  ultimately have "signed_in_as uid cx cx'"
    unfolding signed_in_as_def
    using *(3,4,6,7,8,9) by (intro exI [of _ row] exI [of _ ?kept] exI [of _ s]) simp
  then show ?thesis using r1(2) *(1) by auto
qed

lemma sign_in_result:
  assumes "sign_in env sha cx = Some r"
  shows "answers cx r \<or>
    (\<exists>u cx' password. r = Inr (response_json (sim_template_params (cx_session cx')) cx') \<and>
       signed_in_as (user_id u) cx cx' \<and> u \<in> set (db_users (cx_db cx)) \<and>
       ff_get (form_of cx) ''username'' = Some (username u) \<and> ff_get (form_of cx) ''password'' = Some password \<and>
       password_matches sha password (password_salt u) (password_hash u))"
  using assms
proof -
  have "answers cx r \<or>
    (\<exists>u rem password. sign_in_session env (user_id u) (user_type u) (username u) rem cx = Some r \<and>
       u \<in> set (db_users (cx_db cx)) \<and>
       ff_get (form_of cx) ''username'' = Some (username u) \<and> ff_get (form_of cx) ''password'' = Some password \<and>
       password_matches sha password (password_salt u) (password_hash u))"
    using assms
    by (fastforce simp: sign_in_def Let_def param_password_def users_caps_of_def find_Some_iff
      split: VALIDATE_split_asm if_splits option.splits
      dest!: both_SomeD required_username required_cstring)
  then show ?thesis using sign_in_session_result by blast
qed

lemma sign_up_result:
  assumes "sign_up env sha cx = Some r"
  shows "answers cx r \<or>
    (\<exists>u uid d cx'. insert_ignore_user u (cx_db cx) = Some (uid, d) \<and> user_row_ok u \<and> user_type u = User_NORMAL \<and>
       r = Inr (response_json (sim_template_params (cx_session cx')) cx') \<and>
       signed_in_as uid (cx\<lparr>cx_db := d\<rparr>) cx')"
  using assms
proof -
  have "answers cx r \<or>
    (\<exists>u uid d. insert_ignore_user u (cx_db cx) = Some (uid, d) \<and> user_row_ok u \<and> user_type u = User_NORMAL \<and>
       sign_in_session env uid User_NORMAL (username u) False (cx\<lparr>cx_db := d\<rparr>) = Some r)"
    using assms
    by (auto simp: sign_up_def Let_def users_caps_of_def
        split: VALIDATE_split_asm if_splits option.splits
        dest!: both_SomeD required_username required_varbinary)
      (metis new_user_ok)+
  then show ?thesis using sign_in_session_result by blast
qed

lemma sign_out_result:
  "answers cx (sign_out cx) \<or>
   (\<exists>cx' s. sign_out cx = Inr (response_json (sim_template_params (cx_session cx')) cx') \<and> cx_session cx = Some s \<and>
      cx_db cx' = delete_sessions_where (\<lambda>r. session_id r = cs_id s) (cx_db cx) \<and> cx_session cx' = None \<and>
      cx_notify_job_server cx' = cx_notify_job_server cx)"
proof (cases "cx_session cx")
  case None
  then show ?thesis by (simp add: sign_out_def users_caps_of_def)
next
  case (Some s)
  then obtain cx' where "destroy_session cx = Inr cx'"
      "cx_db cx' = delete_sessions_where (\<lambda>r. session_id r = cs_id s) (cx_db cx)" "cx_session cx' = None"
      "cx_notify_job_server cx' = cx_notify_job_server cx"
    by (simp add: destroy_session_def)
  moreover from this have "sign_out cx = Inr (response_json (sim_template_params (cx_session cx')) cx')"
    using Some by (simp add: sign_out_def users_caps_of_def)
  ultimately show ?thesis using Some by blast
qed

end
