(* ===== verification/Users_Safety.thy ===== *)
theory Users_Safety
  imports Users_Api
begin

text \<open>
  The users API as a whole. Every request makes one step of an abstract transition system whose rules
  name the authority each change needs (\<open>user_step\<close>); the properties of the API are invariants of its
  steps: who may become an administrator, whose row may change, which sessions and jobs appear.
\<close>

section \<open>The API as a transition system\<close>

text \<open>The POST routes of the users API in web_worker.cc.\<close>

datatype user_post =
    Post_sign_in
  | Post_sign_out
  | Post_sign_up
  | Post_change_password id
  | Post_delete_user id
  | Post_edit_user id
  | Post_merge_user id
  | Post_add_user

fun user_post_handler :: "web_env \<Rightarrow> hash \<Rightarrow> user_post \<Rightarrow> web_handler" where
  "user_post_handler env sha Post_sign_in = sign_in env sha"
| "user_post_handler env sha Post_sign_out = total_handler sign_out"
| "user_post_handler env sha Post_sign_up = sign_up env sha"
| "user_post_handler env sha (Post_change_password uid) = total_handler (change_password env sha uid)"
| "user_post_handler env sha (Post_delete_user uid) = total_handler (delete_user_api env sha uid)"
| "user_post_handler env sha (Post_edit_user uid) = total_handler (edit_user uid)"
| "user_post_handler env sha (Post_merge_user uid) = total_handler (merge_into_another env sha uid)"
| "user_post_handler env sha Post_add_user = total_handler (add_user env sha)"

definition serve_user_post :: "web_env \<Rightarrow> hash \<Rightarrow> http_request \<Rightarrow> user_post \<Rightarrow> db \<Rightarrow> served option" where
  "serve_user_post env sha rq post d = handler_impl env rq (post_handler (user_post_handler env sha post)) d"

text \<open>
  What the API promises: the steps that a request of the session \<open>actor\<close> may make on the database.
  Each names the authority it needs.
\<close>

definition edits_allowed :: "user_caps \<Rightarrow> user_type option \<Rightarrow> string option \<Rightarrow> id \<Rightarrow> db \<Rightarrow> bool" where
  "edits_allowed caps utype uname uid d \<longleftrightarrow>
     u_edit caps \<and> (\<forall>t. utype = Some t \<longrightarrow> make_type_caps caps t) \<and>
     (\<forall>n. uname = Some n \<longrightarrow> is_username n \<and> n \<noteq> [] \<and> length n \<le> 30) \<and> \<not> username_taken uname uid d"

definition only_sessions_change :: "db \<Rightarrow> db \<Rightarrow> bool" where
  "only_sessions_change d d' \<longleftrightarrow> (\<exists>ss. d' = d\<lparr>db_sessions := ss\<rparr>)"

inductive user_step :: "hash \<Rightarrow> form_fields \<Rightarrow> ctx_session option \<Rightarrow> db \<Rightarrow> db \<Rightarrow> bool" for sha ff where
  step_none: "user_step sha ff actor d d"
| step_session: "only_sessions_change d d' \<Longrightarrow> set (db_sessions d') \<subseteq> set (db_sessions d) \<Longrightarrow> user_step sha ff actor d d'"
| step_sign_in: "d' = d\<lparr>db_sessions := kept @ [row]\<rparr> \<Longrightarrow> set kept \<subseteq> set (db_sessions d) \<Longrightarrow>
    u \<in> set (db_users d) \<Longrightarrow> ff_get ff ''username'' = Some (username u) \<Longrightarrow>
    ff_get ff ''password'' = Some password \<Longrightarrow> password_matches sha password (password_salt u) (password_hash u) \<Longrightarrow>
    session_user_id row = user_id u \<Longrightarrow> user_step sha ff actor d d'"
| step_sign_up: "insert_ignore_user u d = Some (uid, d1) \<Longrightarrow> user_row_ok u \<Longrightarrow> user_type u = User_NORMAL \<Longrightarrow>
    d' = d1\<lparr>db_sessions := kept @ [row]\<rparr> \<Longrightarrow> set kept \<subseteq> set (db_sessions d) \<Longrightarrow>
    session_user_id row = uid \<Longrightarrow> user_step sha ff actor d d'"
| step_add: "insert_ignore_user u d = Some (uid, d') \<Longrightarrow> user_row_ok u \<Longrightarrow> is_admin actor \<Longrightarrow>
    add_type_caps (users_caps_of actor) (user_type u) \<Longrightarrow> user_step sha ff actor d d'"
| step_edit: "find_user d uid = Some u \<Longrightarrow>
    edits_allowed (user_caps_of actor uid (user_type u)) utype uname uid d \<Longrightarrow>
    \<forall>n. fname = Some n \<longrightarrow> length n \<le> 60 \<Longrightarrow> \<forall>n. lname = Some n \<longrightarrow> length n \<le> 60 \<Longrightarrow>
    \<forall>n. mail = Some n \<longrightarrow> length n \<le> 60 \<Longrightarrow>
    user_step sha ff actor d (update_user utype uname fname lname mail uid d)"
| step_password: "find_user d uid = Some u \<Longrightarrow> actor = Some s \<Longrightarrow>
    u_change_password (user_caps_of actor uid (user_type u)) \<Longrightarrow>
    cs_user_id s = uid \<longrightarrow> (\<exists>p. ff_get ff ''old_password'' = Some p \<and>
      password_matches sha p (password_salt u) (password_hash u)) \<Longrightarrow>
    ff_get ff ''new_password'' = Some new_password \<Longrightarrow>
    user_step sha ff actor d
      (delete_sessions_where (\<lambda>r. session_user_id r = uid \<and> session_id r \<noteq> cs_id s)
        (set_password salt (sha (salt @ new_password)) uid d))"
| step_job: "actor = Some s \<Longrightarrow> ff_get ff ''password'' = Some password \<Longrightarrow> password_is_valid sha d (cs_user_id s) password \<Longrightarrow> find_user d uid = Some u \<Longrightarrow>
    jtype = DELETE_USER \<and> u_delete (user_caps_of actor uid (user_type u)) \<and> aux2 = None \<or>
    jtype = MERGE_USERS \<and> is_admin actor \<and> uid \<noteq> SIM_ROOT_ID \<and> aux2 \<noteq> Some uid \<and> aux2 \<noteq> None \<Longrightarrow>
    user_step sha ff actor d (insert_job now (Some (cs_user_id s)) jtype (Some uid) aux2 d)"

inductive_cases user_stepE: "user_step sha ff actor d d'"

lemma answers_step: "answers cx r \<Longrightarrow> data_kept cx \<Longrightarrow>
    \<exists>cx' resp. r = Inr (cx', resp) \<and> data_kept cx' \<and> user_step sha (form_of cx) (cx_session cx) (cx_db cx) (cx_db cx')"
  by (cases r) (auto simp: answered_def intro: step_none)

lemma responded_step:
  assumes "r = Inr (response_ok c t cx') \<or> r = Inr (response_json c cx')" "data_kept cx'"
    "user_step sha ff actor d (cx_db cx')"
  shows "\<exists>cx' resp. r = Inr (cx', resp) \<and> data_kept cx' \<and> user_step sha ff actor d (cx_db cx')"
proof -
  from assms(1) obtain p where "r = Inr p" "fst p = cx'\<lparr>cx_cookie_changes := []\<rparr>" by fastforce
  then show ?thesis using assms(2,3) by (intro exI [of _ "fst p"] exI [of _ "snd p"]) (simp add: prod_eq_iff)
qed

lemma data_kept_db [simp]: "data_kept (cx\<lparr>cx_db := d\<rparr>) = data_kept cx"
  "data_kept (cx\<lparr>cx_db := d, cx_notify_job_server := b\<rparr>) = data_kept cx"
  by (simp_all add: data_kept_def)

text \<open>Simulation: every handler makes one step.\<close>

lemma user_post_handler_step:
  assumes "user_post_handler env sha post cx = Some r" "data_kept cx"
  shows "\<exists>cx' resp. r = Inr (cx', resp) \<and> data_kept cx' \<and> user_step sha (form_of cx) (cx_session cx) (cx_db cx) (cx_db cx')"
proof (cases post)
  case Post_sign_in
  with assms have "sign_in env sha cx = Some r" by simp
  from sign_in_result [OF this] show ?thesis
  proof
    assume "\<exists>u cx' password. r = Inr (response_json (sim_template_params (cx_session cx')) cx') \<and>
       signed_in_as (user_id u) cx cx' \<and> u \<in> set (db_users (cx_db cx)) \<and>
       ff_get (form_of cx) ''username'' = Some (username u) \<and> ff_get (form_of cx) ''password'' = Some password \<and>
       password_matches sha password (password_salt u) (password_hash u)"
    then obtain u cx' password where *: "r = Inr (response_json (sim_template_params (cx_session cx')) cx')"
       "signed_in_as (user_id u) cx cx'" "u \<in> set (db_users (cx_db cx))"
       "ff_get (form_of cx) ''username'' = Some (username u)" "ff_get (form_of cx) ''password'' = Some password"
       "password_matches sha password (password_salt u) (password_hash u)" by blast
    from *(2) obtain row kept where k: "cx_db cx' = (cx_db cx)\<lparr>db_sessions := kept @ [row]\<rparr>"
        "set kept \<subseteq> set (db_sessions (cx_db cx))" "session_user_id row = user_id u" "data_kept cx'"
      by (auto simp: signed_in_as_def data_kept_def)
    show ?thesis
      by (rule responded_step [OF disjI2 [OF *(1)] k(4)]) (rule step_sign_in [OF k(1,2) *(3,4,5,6) k(3)])
  qed (rule answers_step [OF _ assms(2)])
next
  case Post_sign_up
  with assms have "sign_up env sha cx = Some r" by simp
  from sign_up_result [OF this] show ?thesis
  proof
    assume "\<exists>u uid d cx'. insert_ignore_user u (cx_db cx) = Some (uid, d) \<and> user_row_ok u \<and>
       user_type u = User_NORMAL \<and>
       r = Inr (response_json (sim_template_params (cx_session cx')) cx') \<and>
       signed_in_as uid (cx\<lparr>cx_db := d\<rparr>) cx'"
    then obtain u uid d cx' where *: "insert_ignore_user u (cx_db cx) = Some (uid, d)" "user_row_ok u"
       "user_type u = User_NORMAL" "r = Inr (response_json (sim_template_params (cx_session cx')) cx')"
       "signed_in_as uid (cx\<lparr>cx_db := d\<rparr>) cx'" by blast
    from *(5) obtain row kept where k: "cx_db cx' = d\<lparr>db_sessions := kept @ [row]\<rparr>"
        "set kept \<subseteq> set (db_sessions d)" "session_user_id row = uid" "data_kept cx'"
      by (auto simp: signed_in_as_def data_kept_def)
    have "set kept \<subseteq> set (db_sessions (cx_db cx))" using k(2) *(1) by (simp add: insert_ignore_user_Some)
    from step_sign_up [OF *(1,2,3) k(1) this k(3)] show ?thesis
      by (rule responded_step [OF disjI2 [OF *(4)] k(4)])
  qed (rule answers_step [OF _ assms(2)])
next
  case Post_sign_out
  with assms have r: "r = sign_out cx" by (simp add: total_handler_def)
  have step: "user_step sha ff actor d (delete_sessions_where p d)" for ff actor d p
    by (rule step_session) (auto simp: only_sessions_change_def delete_sessions_where_def)
  from sign_out_result [of cx] show ?thesis
    unfolding r
    apply (elim disjE exE conjE)
     apply (rule answers_step [OF _ assms(2)], assumption)
    apply (rule responded_step, rule disjI2, assumption, simp add: data_kept_def, simp add: step)
    done
next
  case (Post_change_password uid)
  with assms have r: "r = change_password env sha uid cx" by (simp add: total_handler_def)
  from change_password_result [of cx env sha uid] show ?thesis
    unfolding r
    apply (elim disjE exE conjE)
     apply (rule answers_step [OF _ assms(2)], assumption)
    apply (rule responded_step, rule disjI1, assumption, simp add: assms, simp, rule step_password; blast)
    done
next
  case (Post_delete_user uid)
  with assms have r: "r = delete_user_api env sha uid cx" by (simp add: total_handler_def)
  from delete_user_api_result [of cx env sha uid] show ?thesis
    unfolding r
    apply (elim disjE exE conjE)
     apply (rule answers_step [OF _ assms(2)], assumption)
    apply (rule responded_step, rule disjI2, simp add: queue_job_def job_id_response_def, simp add: assms, simp,
        rule step_job; blast)
    done
next
  case (Post_edit_user uid)
  with assms have r: "edit_user uid cx = r" by (simp add: total_handler_def)
  obtain x where x: "r = Inr x" using edit_user_returns [of uid cx] r by auto
  from r x have "edit_user uid cx = Inr x" by simp
  then show ?thesis
  proof (cases rule: edit_user_result)
    case kept
    then show ?thesis using answers_step [of cx r] assms(2) x by simp
  next
    case (edited u utype uname fname lname mail)
    have "user_step sha (form_of cx) (cx_session cx) (cx_db cx) (update_user utype uname fname lname mail uid (cx_db cx))"
      by (rule step_edit [OF edited(2) _ edited(7,8,9)]) (use edited in \<open>simp add: edits_allowed_def\<close>)
    moreover have "r = Inr (response_ok [] text_plain
        (cx\<lparr>cx_db := update_user utype uname fname lname mail uid (cx_db cx)\<rparr>))"
      using edited(1) x by simp
    ultimately show ?thesis
      using responded_step [OF disjI1, of r "[]" text_plain
          "cx\<lparr>cx_db := update_user utype uname fname lname mail uid (cx_db cx)\<rparr>"] assms(2) by simp
  qed
next
  case (Post_merge_user uid)
  with assms have r: "r = merge_into_another env sha uid cx" by (simp add: total_handler_def)
  from merge_into_another_result [of cx env sha uid] show ?thesis
    unfolding r
    apply (elim disjE exE conjE)
     apply (rule answers_step [OF _ assms(2)], assumption)
    apply (rule responded_step, rule disjI2, simp add: queue_job_def job_id_response_def, simp add: assms, simp,
        rule step_job; simp add: user_caps_unfold)
    done
next
  case Post_add_user
  with assms have r: "r = add_user env sha cx" by (simp add: total_handler_def)
  from add_user_result [of cx env sha] show ?thesis
    unfolding r
    apply (elim disjE exE conjE)
     apply (rule answers_step [OF _ assms(2)], assumption)
    apply (rule responded_step, rule disjI1, assumption, simp add: assms, simp, rule step_add; blast)
    done
qed

section \<open>Refinement\<close>

definition actor_of :: "web_env \<Rightarrow> http_request \<Rightarrow> db \<Rightarrow> ctx_session option" where
  "actor_of env rq d =
     map_option (ctx_session_of (get_cookie rq session_id_cookie)) (request_session env rq d)"

lemma serve_user_post_step:
  assumes "serve_user_post env sha rq post d = Some sv"
  shows "(\<exists>resp. sv_response sv = Inr resp) \<and>
    user_step sha (rq_form_fields rq) (actor_of env rq d) d (sv_db sv)"
proof (cases "headers_get (rq_headers rq) ''x-csrf-token'' = Some (csrf_token_of_request env rq d)")
  case False
  then show ?thesis
    using assms csrf_rejected [OF False, of "user_post_handler env sha post"]
    by (auto simp: serve_user_post_def intro: step_none)
next
  case True
  have "map_option (finish_request d) (user_post_handler env sha post (opened env rq d)) = Some sv"
    using assms csrf_accepted [OF True, of "user_post_handler env sha post"]
    by (simp add: serve_user_post_def handler_impl_opened [symmetric])
  then obtain r where r: "user_post_handler env sha post (opened env rq d) = Some r" "sv = finish_request d r"
    by auto
  from user_post_handler_step [OF r(1) data_kept_opened] obtain cx' resp where
    "r = Inr (cx', resp)" "data_kept cx'" "user_step sha (rq_form_fields rq) (actor_of env rq d) d (cx_db cx')"
    by (auto simp: actor_of_def)
  then show ?thesis using r(2) by (simp add: finish_request_Inr)
qed

lemma actor_of_SomeD:
  "actor_of env rq d = Some a \<Longrightarrow>
     \<exists>s u. request_session env rq d = Some (s, u) \<and> cs_user_id a = user_id u \<and> cs_user_type a = user_type u \<and>
       u \<in> set (db_users d) \<and> s \<in> set (db_sessions d) \<and> session_user_id s = user_id u"
  using request_session_SomeD [of env rq d] by (auto simp: actor_of_def)


section \<open>Administrators\<close>

lemma update_user_rows:
  "set (db_users (update_user t n f l m uid d)) =
     (\<lambda>u. if user_id u = uid then u\<lparr>user_type := coalesce t (user_type u), username := coalesce n (username u),
                first_name := coalesce f (first_name u), last_name := coalesce l (last_name u),
                email := coalesce m (email u)\<rparr> else u) ` set (db_users d)"
  by (simp add: update_user_def set_update_where)

lemma set_password_rows:
  "set (db_users (set_password salt hashed uid d)) =
     (\<lambda>u. if user_id u = uid then u\<lparr>password_salt := salt, password_hash := hashed\<rparr> else u) ` set (db_users d)"
  by (simp add: set_password_def set_update_where)

lemma delete_sessions_users [simp]: "db_users (delete_sessions_where p d) = db_users d"
  by (simp add: delete_sessions_where_def)

definition was_admin :: "db \<Rightarrow> id \<Rightarrow> bool" where
  "was_admin d uid \<longleftrightarrow> (\<exists>u \<in> set (db_users d). user_id u = uid \<and> user_type u = User_ADMIN)"

lemma new_admin_by_root:
  assumes "user_step sha ff actor d d'" "was_admin d' uid" "\<not> was_admin d uid"
    "distinct (map user_id (db_users d))"
  shows "\<exists>s. actor = Some s \<and> cs_user_id s = SIM_ROOT_ID"
  using assms
proof (cases rule: user_step.cases)
  case (step_add u i)
  then have "user_type u = User_ADMIN"
    using assms(2,3) by (auto simp: was_admin_def insert_ignore_user_Some)
  then show ?thesis using step_add by (auto simp: users_caps_of_def split: option.splits)
next
  case (step_edit i u t n f l m)
  from assms(2) obtain v where v: "v \<in> set (db_users d')" "user_id v = uid" "user_type v = User_ADMIN"
    unfolding was_admin_def by blast
  then obtain u' where u': "u' \<in> set (db_users d)" and
      v': "v = (if user_id u' = i then u'\<lparr>user_type := coalesce t (user_type u'), username := coalesce n (username u'),
         first_name := coalesce f (first_name u'), last_name := coalesce l (last_name u'),
         email := coalesce m (email u')\<rparr> else u')"
    unfolding step_edit(1) update_user_rows by blast
  have id: "user_id u' = uid" using v(2) v' by (simp split: if_splits)
  then have na: "user_type u' \<noteq> User_ADMIN" using assms(3) u' by (auto simp: was_admin_def)
  then have i: "user_id u' = i" and "t = Some User_ADMIN"
    using v(3) v' by (cases t; simp add: coalesce_def split: if_splits)+
  moreover have "u = u'"
    using step_edit(2) u' i find_key_iff [OF assms(4), of i u'] by (simp add: find_user_def)
  ultimately show ?thesis
    using step_edit(3) na by (auto simp: edits_allowed_def user_caps_unfold split: option.splits)
next
  case (step_sign_up u i d1 kept row)
  then have "db_users d' = db_users d @ [u\<lparr>user_id := db_next_user_id d\<rparr>]"
    by (simp add: insert_ignore_user_Some)
  then show ?thesis using step_sign_up(3) assms(2,3) by (auto simp: was_admin_def)
next
  case (step_password i u s new salt)
  have "was_admin d uid"
    using assms(2) unfolding was_admin_def step_password(1) delete_sessions_users set_password_rows by auto
  then show ?thesis using assms(3) by simp
next
  case (step_job s password i u jtype aux2 now)
  have "was_admin d' uid = was_admin d uid" by (simp add: step_job(1) was_admin_def)
  then show ?thesis using assms(2,3) by simp
qed (use assms(2,3) in \<open>auto simp: was_admin_def only_sessions_change_def\<close>)

text \<open>C20. Only the root user makes administrators. Whatever POST request of the users API is served, when
  a user is an administrator afterwards and was not one before (added, edited, signed up or anything
  else), then the request came with a live session of the root user, user 1, who is in the users table.
  In particular no administrator can promote another user.\<close>

theorem only_root_makes_admins:
  assumes "serve_user_post env sha rq post d = Some sv" "was_admin (sv_db sv) uid" "\<not> was_admin d uid"
    "distinct (map user_id (db_users d))"
  shows "\<exists>s u. request_session env rq d = Some (s, u) \<and> user_id u = SIM_ROOT_ID"
proof -
  have step: "user_step sha (rq_form_fields rq) (actor_of env rq d) d (sv_db sv)"
    using serve_user_post_step [OF assms(1)] by blast
  obtain a where "actor_of env rq d = Some a" "cs_user_id a = SIM_ROOT_ID"
    using new_admin_by_root [OF step assms(2-4)] by blast
  then show ?thesis using actor_of_SomeD by fastforce
qed

section \<open>Who may change what\<close>

lemma non_admin_step:
  assumes "user_step sha ff actor d d'" "\<not> is_admin actor" "u \<in> set (db_users d)"
    "\<not> is_self actor (user_id u)"
  shows "u \<in> set (db_users d')"
  using assms(1)
proof (cases rule: user_step.cases)
  case (step_sign_up u i d1 kept row)
  then show ?thesis using assms(3) by (simp add: insert_ignore_user_Some)
next
  case (step_edit i v t n f l m)
  then have "user_id u \<noteq> i"
    using assms(2,4) user_caps_foreign(2) [OF assms(2), of i] by (auto simp: edits_allowed_def)
  then show ?thesis using assms(3) by (auto simp: step_edit(1) update_user_rows rev_image_eqI)
next
  case (step_password i v s new salt)
  then have "user_id u \<noteq> i" using assms(2,4) user_caps_foreign(3) [OF assms(2), of i] by auto
  then show ?thesis using assms(3) by (auto simp: step_password(1) set_password_rows rev_image_eqI)
qed (use assms(2,3) in \<open>simp_all add: only_sessions_change_def insert_ignore_user_Some, (auto)?\<close>)

lemma non_admin_jobs:
  assumes "user_step sha ff actor d d'" "\<not> is_admin actor"
  shows "db_jobs d' = db_jobs d \<or> (\<exists>s now. actor = Some s \<and>
    db_jobs d' = db_jobs d @ [new_job (db_next_job_id d) now (Some (cs_user_id s)) DELETE_USER (Some (cs_user_id s)) None])"
  using assms(1)
proof (cases rule: user_step.cases)
  case (step_job s password i u jtype aux2 now)
  then have "is_self actor i" using assms(2) user_caps_foreign(4) [OF assms(2), of i] by auto
  then show ?thesis using step_job assms(2) by (auto simp: insert_job_def)
next
  case (step_edit i v t n f l m)
  then show ?thesis by (simp add: update_user_def)
next
  case (step_password i v s new salt)
  then show ?thesis by (simp add: delete_sessions_where_def set_password_def)
qed (use assms(2) in \<open>auto simp: only_sessions_change_def insert_ignore_user_Some\<close>)

text \<open>C22. Whoever is not an administrator can only touch their own account: a request without a live
  administrator session keeps every row of the users table except the actor's own exactly as it is (nobody
  is renamed, promoted, given another password or removed), and the only job it can queue is the
  deletion of the actor's own account.\<close>

theorem non_admins_touch_only_themselves:
  assumes "serve_user_post env sha rq post d = Some sv" "\<not> is_admin (actor_of env rq d)"
  shows "{u \<in> set (db_users d). \<not> is_self (actor_of env rq d) (user_id u)} \<subseteq> set (db_users (sv_db sv)) \<and>
    (db_jobs (sv_db sv) = db_jobs d \<or>
     (\<exists>a now. actor_of env rq d = Some a \<and> db_jobs (sv_db sv) = db_jobs d @
        [new_job (db_next_job_id d) now (Some (cs_user_id a)) DELETE_USER (Some (cs_user_id a)) None]))"
proof -
  have step: "user_step sha (rq_form_fields rq) (actor_of env rq d) d (sv_db sv)"
    using serve_user_post_step [OF assms(1)] by blast
  show ?thesis using non_admin_step [OF step assms(2)] non_admin_jobs [OF step assms(2)] by blast
qed

section \<open>The users table\<close>

definition accounts_ok :: "db \<Rightarrow> bool" where
  "accounts_ok d \<longleftrightarrow> users_ok d \<and> (\<forall>u \<in> set (db_users d). user_id u < db_next_user_id d) \<and>
     (\<forall>s \<in> set (db_sessions d). session_user_id s \<in> user_ids d)"

lemma next_id_plus: "(x :: id) < n \<Longrightarrow> n + 1 \<noteq> 0 \<Longrightarrow> x < n + 1"
  using unatSuc [of n] by (simp add: word_less_nat_alt add.commute)

lemma less_plus_1: "(n :: id) + 1 \<noteq> 0 \<Longrightarrow> n < n + 1"
  using unatSuc [of n] by (simp add: word_less_nat_alt add.commute)

lemma users_ok_append:
  "users_ok d \<Longrightarrow> user_row_ok u \<Longrightarrow> username u \<notin> username ` set (db_users d) \<Longrightarrow>
     user_id u \<notin> user_id ` set (db_users d) \<Longrightarrow> db_users d' = db_users d @ [u] \<Longrightarrow> users_ok d'"
  by (auto simp: users_ok_def)

lemma user_row_ok_id [simp]: "user_row_ok (u\<lparr>user_id := i\<rparr>) = user_row_ok u"
  by (simp add: user_row_ok_def)

lemma accounts_ok_insert:
  assumes "accounts_ok d" "insert_ignore_user u d = Some (uid, d1)" "user_row_ok u" "db_next_user_id d + 1 \<noteq> 0"
  shows "accounts_ok d1 \<and> uid \<in> user_ids d1"
proof -
  have d1: "db_users d1 = db_users d @ [u\<lparr>user_id := db_next_user_id d\<rparr>]" "db_sessions d1 = db_sessions d"
    "db_next_user_id d1 = db_next_user_id d + 1" "uid = db_next_user_id d"
    "username u \<notin> username ` set (db_users d)"
    using assms(2) by (simp_all add: insert_ignore_user_Some)
  have "db_next_user_id d \<notin> user_id ` set (db_users d)" using assms(1) by (auto simp: accounts_ok_def)
  then have "users_ok d1"
    using users_ok_append [of d "u\<lparr>user_id := db_next_user_id d\<rparr>" d1] assms(1,3) d1 by (simp add: accounts_ok_def)
  moreover have "\<forall>v \<in> set (db_users d1). user_id v < db_next_user_id d1"
    using assms(1,4) d1 next_id_plus less_plus_1 [OF assms(4)] by (auto simp: accounts_ok_def)
  ultimately show ?thesis using assms(1) d1 by (auto simp: accounts_ok_def user_ids_def)
qed

lemma accounts_ok_sessions:
  "accounts_ok d \<Longrightarrow> (\<And>s. s \<in> set ss \<Longrightarrow> session_user_id s \<in> user_ids d) \<Longrightarrow> accounts_ok (d\<lparr>db_sessions := ss\<rparr>)"
  by (auto simp: accounts_ok_def users_ok_def user_ids_def)

lemma distinct_usernames_update:
  assumes "distinct (map user_id us)" "distinct (map username us)"
    "\<forall>u \<in> set us. username u = n \<longrightarrow> user_id u = uid"
    "\<And>u. user_id (f u) = user_id u" "\<And>u. username (f u) = n \<or> username (f u) = username u"
  shows "distinct (map username (update_where (\<lambda>u. user_id u = uid) f us))"
  using assms(1-3)
proof (induction us)
  case (Cons u us)
  have IH: "distinct (map username (update_where (\<lambda>u. user_id u = uid) f us))" using Cons by simp
  show ?case
  proof (cases "user_id u = uid")
    case True
    then have "\<forall>v \<in> set us. user_id v \<noteq> uid" using Cons.prems(1) by (auto simp: image_iff)
    then have "update_where (\<lambda>u. user_id u = uid) f us = us" by (intro update_where_none) auto
    moreover have "username (f u) \<notin> username ` set us"
      using assms(5) [of u] Cons.prems True by (metis (mono_tags, lifting) \<open>\<forall>v\<in>set us. user_id v \<noteq> uid\<close> distinct.simps(2) image_iff list.set_intros(2) list.simps(9) set_map)
    ultimately show ?thesis using True Cons.prems(2) by simp
  next
    case False
    have "username u \<notin> username ` set (update_where (\<lambda>u. user_id u = uid) f us)"
    proof
      assume "username u \<in> username ` set (update_where (\<lambda>u. user_id u = uid) f us)"
      then obtain v where v: "v \<in> set us" "username u = username (if user_id v = uid then f v else v)"
        by (auto simp: set_update_where)
      then consider "username u = username v" | "username u = n"
        using assms(5) [of v] by (auto split: if_splits)
      then show False
      proof cases
        case 1
        then show False using Cons.prems(2) v(1) by (metis distinct.simps(2) image_eqI list.simps(9) set_map)
      next
        case 2
        then show False using Cons.prems(3) False by simp
      qed
    qed
    then show ?thesis using False IH by simp
  qed
qed simp

lemma accounts_ok_users:
  assumes "accounts_ok d" "map user_id us = map user_id (db_users d)" "distinct (map username us)"
    "list_all user_row_ok us"
  shows "accounts_ok (d\<lparr>db_users := us\<rparr>)"
proof -
  have ids: "user_id ` set us = user_id ` set (db_users d)" using assms(2) by (metis set_map)
  have "\<forall>u \<in> set us. user_id u < db_next_user_id d"
  proof
    fix u assume "u \<in> set us"
    then have "user_id u \<in> user_id ` set (db_users d)" using ids by blast
    then show "user_id u < db_next_user_id d" using assms(1) by (auto simp: accounts_ok_def)
  qed
  then show ?thesis using assms ids by (simp add: accounts_ok_def users_ok_def user_ids_def)
qed

lemma list_all_update_where:
  "list_all P us \<Longrightarrow> (\<And>u. P u \<Longrightarrow> P (f u)) \<Longrightarrow> list_all P (update_where p f us)"
  by (auto simp: list_all_iff set_update_where)

lemma accounts_ok_step:
  assumes "user_step sha ff actor d d'" "accounts_ok d" "db_next_user_id d + 1 \<noteq> 0"
  shows "accounts_ok d'"
  using assms(1)
proof (cases rule: user_step.cases)
  case step_none
  then show ?thesis using assms(2) by simp
next
  case step_session
  then obtain ss where ss: "d' = d\<lparr>db_sessions := ss\<rparr>" "set ss \<subseteq> set (db_sessions d)"
    by (auto simp: only_sessions_change_def)
  then have "\<And>s. s \<in> set ss \<Longrightarrow> session_user_id s \<in> user_ids d" using assms(2) by (auto simp: accounts_ok_def)
  then show ?thesis unfolding ss(1) by (rule accounts_ok_sessions [OF assms(2)])
next
  case (step_sign_in kept row u password)
  show ?thesis
    unfolding step_sign_in(1)
    by (rule accounts_ok_sessions [OF assms(2)])
      (use step_sign_in assms(2) in \<open>auto simp: accounts_ok_def user_ids_def\<close>)
next
  case (step_sign_up u uid d1 kept row)
  note d1 = accounts_ok_insert [OF assms(2) step_sign_up(1,2) assms(3)]
  have "set (db_sessions d) = set (db_sessions d1)" using step_sign_up(1) by (simp add: insert_ignore_user_Some)
  moreover have "\<forall>s \<in> set (db_sessions d1). session_user_id s \<in> user_ids d1"
    using d1 by (simp add: accounts_ok_def)
  ultimately have "\<And>s. s \<in> set (kept @ [row]) \<Longrightarrow> session_user_id s \<in> user_ids d1"
    using d1 step_sign_up(5,6) by auto
  then show ?thesis unfolding step_sign_up(4) using d1 by (blast intro: accounts_ok_sessions)
next
  case (step_add u uid)
  then show ?thesis using accounts_ok_insert [OF assms(2) step_add(1,2) assms(3)] by simp
next
  case (step_edit uid u t n f l m)
  let ?f = "\<lambda>u. u\<lparr>user_type := coalesce t (user_type u), username := coalesce n (username u),
                first_name := coalesce f (first_name u), last_name := coalesce l (last_name u),
                email := coalesce m (email u)\<rparr>"
  have d: "distinct (map user_id (db_users d))" "distinct (map username (db_users d))"
    "list_all user_row_ok (db_users d)" using assms(2) by (simp_all add: accounts_ok_def users_ok_def)
  have n: "\<forall>k. n = Some k \<longrightarrow> is_username k \<and> k \<noteq> [] \<and> length k \<le> 30" "\<not> username_taken n uid d"
    using step_edit(3) by (simp_all add: edits_allowed_def)
  have "distinct (map username (update_where (\<lambda>u. user_id u = uid) ?f (db_users d)))"
  proof (cases n)
    case None
    then show ?thesis using d(2) by (subst map_update_where_frame) (simp_all add: coalesce_def)
  next
    case (Some k)
    show ?thesis
      by (rule distinct_usernames_update [OF d(1,2), of k])
        (use n(2) Some in \<open>auto simp: username_taken_def coalesce_def list_ex_iff\<close>)
  qed
  moreover have "list_all user_row_ok (update_where (\<lambda>u. user_id u = uid) ?f (db_users d))"
    by (rule list_all_update_where [OF d(3)])
      (use n(1) step_edit(4-6) in \<open>auto simp: user_row_ok_def coalesce_def split: option.split\<close>)
  ultimately show ?thesis
    unfolding step_edit(1) update_user_def
    by (intro accounts_ok_users [OF assms(2)]) (simp_all add: map_update_where_frame)
next
  case (step_password uid u s new salt)
  have "accounts_ok (set_password salt (sha (salt @ new)) uid d)"
    unfolding set_password_def
    by (rule accounts_ok_users [OF assms(2)])
      (use assms(2) in \<open>auto simp: map_update_where_frame accounts_ok_def users_ok_def user_row_ok_def
        intro!: list_all_update_where\<close>)
  then show ?thesis
    by (auto simp: step_password(1) accounts_ok_def users_ok_def user_ids_def delete_sessions_where_def)
next
  case (step_job s password uid u jtype aux2 now)
  then show ?thesis using assms(2) by (simp add: accounts_ok_def users_ok_def user_ids_def insert_job_def)
qed

text \<open>C21. Every POST request of the users API keeps the accounts well formed: ids and user names stay unique
  (the check of edit and the INSERT IGNOREs are enough, whatever the form holds), every name and address
  fits its column and every user name matches the allowed alphabet, and every session belongs to a user
  that exists.\<close>

theorem users_api_keeps_accounts_ok:
  assumes "serve_user_post env sha rq post d = Some sv" "accounts_ok d" "db_next_user_id d + 1 \<noteq> 0"
  shows "accounts_ok (sv_db sv)"
  using serve_user_post_step [OF assms(1)] accounts_ok_step [OF _ assms(2,3)] by blast

section \<open>Sessions and passwords\<close>

lemma new_session_step:
  assumes "user_step sha ff actor d d'" "row \<in> set (db_sessions d')" "row \<notin> set (db_sessions d)"
  shows "(\<exists>u password. u \<in> set (db_users d) \<and> session_user_id row = user_id u \<and>
      ff_get ff ''username'' = Some (username u) \<and> ff_get ff ''password'' = Some password \<and>
      password_matches sha password (password_salt u) (password_hash u)) \<or>
    (\<exists>u. db_users d' = db_users d @ [u] \<and> session_user_id row = user_id u \<and> user_type u = User_NORMAL)"
  using assms(1)
proof (cases rule: user_step.cases)
  case (step_sign_in kept row' u password)
  then have "row = row'" using assms(2,3) by auto
  then show ?thesis using step_sign_in by blast
next
  case (step_sign_up u uid d1 kept row')
  then have "row = row'" using assms(2,3) by auto
  then show ?thesis using step_sign_up by (auto simp: insert_ignore_user_Some)
next
  case (step_password uid u s new salt)
  then show ?thesis using assms(2,3) by (simp add: delete_sessions_where_def set_password_def)
qed (use assms(2,3) in \<open>auto simp: update_user_def insert_ignore_user_Some\<close>)

text \<open>C24. A session is only made for whoever knows the password: when the request adds a row to the sessions
  table, then either it belongs to an existing user whose user name and matching password are in the
  form, or to the user that the request has just created, who is a normal user.\<close>

theorem sessions_need_the_password:
  assumes "serve_user_post env sha rq post d = Some sv" "row \<in> set (db_sessions (sv_db sv))"
    "row \<notin> set (db_sessions d)"
  shows "(\<exists>u password. u \<in> set (db_users d) \<and> session_user_id row = user_id u \<and>
      ff_get (rq_form_fields rq) ''username'' = Some (username u) \<and>
      ff_get (rq_form_fields rq) ''password'' = Some password \<and>
      password_matches sha password (password_salt u) (password_hash u)) \<or>
    (\<exists>u. db_users (sv_db sv) = db_users d @ [u] \<and> session_user_id row = user_id u \<and> user_type u = User_NORMAL)"
  using serve_user_post_step [OF assms(1)] new_session_step [OF _ assms(2,3)] by blast

lemma slow_equal_refl: "slow_equal s s"
  by (simp add: slow_equal_def slow_equal_loop_0)

lemma password_step:
  assumes "user_step sha ff actor d d'" "u \<in> set (db_users d)" "u' \<in> set (db_users d')"
    "user_id u' = user_id u" "(password_salt u', password_hash u') \<noteq> (password_salt u, password_hash u)"
    "accounts_ok d" "db_next_user_id d + 1 \<noteq> 0"
  shows "\<exists>a new_password. actor = Some a \<and> ff_get ff ''new_password'' = Some new_password \<and>
    password_matches sha new_password (password_salt u') (password_hash u') \<and>
    (if cs_user_id a = user_id u
     then \<exists>p. ff_get ff ''old_password'' = Some p \<and> password_matches sha p (password_salt u) (password_hash u)
     else cs_user_type a = User_ADMIN \<and> user_id u \<noteq> SIM_ROOT_ID) \<and>
    (\<forall>s \<in> set (db_sessions d'). session_user_id s = user_id u \<longrightarrow> session_id s = cs_id a)"
proof -
  have key: "distinct (map user_id (db_users d))" using assms(6) by (simp add: accounts_ok_def users_ok_def)
  have same: "v = u" if "v \<in> set (db_users d)" "user_id v = user_id u" for v
    using distinct_key_eq [OF key that(1) assms(2) that(2)] .
  have fresh: "v = u" if "v \<in> set (db_users d @ [w\<lparr>user_id := db_next_user_id d\<rparr>])" "user_id v = user_id u" for v w
    using that same assms(2,6) by (auto simp: accounts_ok_def)
  from assms(1) show ?thesis
  proof (cases rule: user_step.cases)
    case (step_sign_up v i d1 kept row)
    then have "db_users d' = db_users d @ [v\<lparr>user_id := db_next_user_id d\<rparr>]" by (simp add: insert_ignore_user_Some)
    then show ?thesis using fresh [of u' v] assms(3,4,5) by simp
  next
    case (step_add v i)
    then have "db_users d' = db_users d @ [v\<lparr>user_id := db_next_user_id d\<rparr>]" by (simp add: insert_ignore_user_Some)
    then show ?thesis using fresh [of u' v] assms(3,4,5) by simp
  next
    case (step_edit i v t n f l m)
    then obtain v' where "v' \<in> set (db_users d)" "user_id v' = user_id u'"
        "password_salt u' = password_salt v'" "password_hash u' = password_hash v'"
      using assms(3) unfolding step_edit(1) update_user_rows by auto
    then show ?thesis using same [of v'] assms(4,5) by simp
  next
    case (step_password i v a new salt)
    obtain v' where v': "v' \<in> set (db_users d)"
        "u' = (if user_id v' = i then v'\<lparr>password_salt := salt, password_hash := sha (salt @ new)\<rparr> else v')"
      using assms(3) unfolding step_password(1) delete_sessions_users set_password_rows by blast
    have v'u: "v' = u" using same [OF v'(1)] v'(2) assms(4) by (simp split: if_splits)
    have i: "user_id u = i" using v' v'u assms(5) by (simp split: if_splits)
    have "find_user d i = Some u" using find_key_iff [OF key, of i u] assms(2) i by (simp add: find_user_def)
    then have v: "v = u" using step_password(2) by simp
    have "password_matches sha new (password_salt u') (password_hash u')"
      using v'(2) v'u i by (simp add: password_matches_def slow_equal_refl)
    moreover have "cs_user_id a \<noteq> user_id u \<longrightarrow> cs_user_type a = User_ADMIN \<and> user_id u \<noteq> SIM_ROOT_ID"
      using step_password(3,4) i by (auto simp: user_caps_unfold)
    moreover have "\<forall>s \<in> set (db_sessions d'). session_user_id s = user_id u \<longrightarrow> session_id s = cs_id a"
      using i by (simp add: step_password(1) delete_sessions_where_def)
    ultimately show ?thesis using step_password(3,5,6) v i by auto
  qed (use same [of u'] assms(3-5) in \<open>auto simp: only_sessions_change_def\<close>)
qed

text \<open>Changing a password needs the old one and ends the other sessions: when the hash or the salt of a
  user's row differs after a request, then the acting session is the user's own and the form has the
  user's old password, or it is an administrator's and the user is not root; the new password of the
  form matches the stored hash; and no session of the user is left but the acting one.\<close>

theorem password_change_is_authorized:
  assumes "serve_user_post env sha rq post d = Some sv" "u \<in> set (db_users d)" "u' \<in> set (db_users (sv_db sv))"
    "user_id u' = user_id u" "(password_salt u', password_hash u') \<noteq> (password_salt u, password_hash u)"
    "accounts_ok d" "db_next_user_id d + 1 \<noteq> 0"
  shows "\<exists>a new_password. actor_of env rq d = Some a \<and>
    ff_get (rq_form_fields rq) ''new_password'' = Some new_password \<and>
    password_matches sha new_password (password_salt u') (password_hash u') \<and>
    (if cs_user_id a = user_id u
     then \<exists>p. ff_get (rq_form_fields rq) ''old_password'' = Some p \<and>
            password_matches sha p (password_salt u) (password_hash u)
     else cs_user_type a = User_ADMIN \<and> user_id u \<noteq> SIM_ROOT_ID) \<and>
    (\<forall>s \<in> set (db_sessions (sv_db sv)). session_user_id s = user_id u \<longrightarrow> session_id s = cs_id a)"
  using serve_user_post_step [OF assms(1)] password_step [OF _ assms(2-7)] by blast

lemma job_step:
  assumes "user_step sha ff actor d d'" "db_jobs d' \<noteq> db_jobs d"
  shows "\<exists>a password jtype uid aux2 now. actor = Some a \<and> ff_get ff ''password'' = Some password \<and>
    password_is_valid sha d (cs_user_id a) password \<and>
    db_jobs d' = db_jobs d @ [new_job (db_next_job_id d) now (Some (cs_user_id a)) jtype (Some uid) aux2] \<and>
    uid \<in> user_ids d \<and> uid \<noteq> SIM_ROOT_ID \<and>
    (jtype = DELETE_USER \<and> aux2 = None \<and> (cs_user_id a = uid \<or> cs_user_type a = User_ADMIN) \<or>
     jtype = MERGE_USERS \<and> aux2 \<noteq> None \<and> aux2 \<noteq> Some uid \<and> cs_user_type a = User_ADMIN)"
  using assms(1)
proof (cases rule: user_step.cases)
  case (step_job a password uid u jtype aux2 now)
  have "uid \<in> user_ids d" using step_job(5) by (auto simp: find_user_def user_ids_def find_Some_iff)
  moreover have "uid \<noteq> SIM_ROOT_ID \<and>
    (jtype = DELETE_USER \<and> aux2 = None \<and> (cs_user_id a = uid \<or> cs_user_type a = User_ADMIN) \<or>
     jtype = MERGE_USERS \<and> aux2 \<noteq> None \<and> aux2 \<noteq> Some uid \<and> cs_user_type a = User_ADMIN)"
    using step_job(2,6) by (auto simp: user_caps_unfold)
  moreover have "db_jobs d' = db_jobs d @ [new_job (db_next_job_id d) now (Some (cs_user_id a)) jtype (Some uid) aux2]"
    by (simp add: step_job(1) insert_job_def)
  ultimately show ?thesis using step_job(2-4) by blast
qed (use assms(2) in \<open>auto simp: only_sessions_change_def insert_ignore_user_Some update_user_def
      delete_sessions_where_def set_password_def\<close>)

text \<open>Deleting or merging accounts needs the actor's own password: when a request of the users API queues
  a job, it is one job, the form has the password of the user whose session the request came with, the
  account named exists and is not root's, and it is the actor's own or the actor is an administrator; a
  merge is queued by administrators only and never merges an account with itself.\<close>

theorem account_jobs_need_the_password:
  assumes "serve_user_post env sha rq post d = Some sv" "db_jobs (sv_db sv) \<noteq> db_jobs d"
  shows "\<exists>a password jtype uid aux2 now. actor_of env rq d = Some a \<and>
    ff_get (rq_form_fields rq) ''password'' = Some password \<and>
    password_is_valid sha d (cs_user_id a) password \<and>
    db_jobs (sv_db sv) =
      db_jobs d @ [new_job (db_next_job_id d) now (Some (cs_user_id a)) jtype (Some uid) aux2] \<and>
    uid \<in> user_ids d \<and> uid \<noteq> SIM_ROOT_ID \<and>
    (jtype = DELETE_USER \<and> aux2 = None \<and> (cs_user_id a = uid \<or> cs_user_type a = User_ADMIN) \<or>
     jtype = MERGE_USERS \<and> aux2 \<noteq> None \<and> aux2 \<noteq> Some uid \<and> cs_user_type a = User_ADMIN)"
  using serve_user_post_step [OF assms(1)] job_step [OF _ assms(2)] by blast

section \<open>Requests return\<close>

lemma create_session_returns:
  assumes "cx_session cx = None" "uid \<in> user_ids (cx_db cx)"
    "\<not> set (we_session_ids env) \<subseteq> session_id ` set (db_sessions (cx_db cx))"
  shows "create_session env uid t n dat long cx \<noteq> None"
proof -
  let ?d = "delete_sessions_where (\<lambda>s. session_expires s \<le> now_of env) (cx_db cx)"
  have "\<not> set (we_session_ids env) \<subseteq> session_id ` set (db_sessions ?d)"
    using assms(3) by (auto simp: delete_sessions_where_def)
  moreover have "uid \<in> user_ids ?d" using assms(2) by (simp add: user_ids_def)
  ultimately have ins: "insert_session (we_session_ids env) row ?d \<noteq> None" if "session_user_id row = uid" for row
    using insert_session_returns [of row ?d] that by simp
  obtain sid d' where "insert_session (we_session_ids env) (new_session_row env uid dat
      (if long then LONG_SESSION_MAX_LIFETIME else SHORT_SESSION_MAX_LIFETIME) (cx_request cx)) ?d = Some (sid, d')"
    using ins [OF new_session_row_user] by fastforce
  then show ?thesis using assms(1) unfolding create_session_def Let_def by simp
qed

lemma sign_in_session_returns:
  assumes "uid \<in> user_ids (cx_db cx)" "\<not> set (we_session_ids env) \<subseteq> session_id ` set (db_sessions (cx_db cx))"
  shows "sign_in_session env uid t n rem cx \<noteq> None"
proof -
  obtain cx1 where cx1: "(if cx_session cx \<noteq> None then destroy_session cx else Inr cx) = Inr cx1"
      "cx_session cx1 = None" "user_ids (cx_db cx1) = user_ids (cx_db cx)"
      "set (db_sessions (cx_db cx1)) \<subseteq> set (db_sessions (cx_db cx))"
    by (cases "cx_session cx") (auto simp: destroy_session_def delete_sessions_where_def user_ids_def)
  have "create_session env uid t n [] rem cx1 \<noteq> None"
  proof (rule create_session_returns)
    show "\<not> set (we_session_ids env) \<subseteq> session_id ` set (db_sessions (cx_db cx1))"
      using assms(2) cx1(4) by blast
  qed (use cx1 assms in auto)
  then show ?thesis using cx1(1) by (auto simp: sign_in_session_def after_create_session_def)
qed

lemma user_post_handler_returns:
  assumes "\<not> set (we_session_ids env) \<subseteq> session_id ` set (db_sessions (cx_db cx))"
  shows "user_post_handler env sha post cx \<noteq> None"
proof (cases post)
  case Post_sign_in
  have "sign_in_session env (user_id u) t n rem cx \<noteq> None" if "u \<in> set (db_users (cx_db cx))" for u t n rem
    using sign_in_session_returns [OF _ assms] that by (simp add: user_ids_def)
  moreover have "find (\<lambda>u. username u = n) (db_users (cx_db cx)) = Some u \<Longrightarrow> u \<in> set (db_users (cx_db cx))" for n u
    by (auto simp: find_Some_iff)
  ultimately show ?thesis
    using Post_sign_in by (simp add: sign_in_def Let_def split: VALIDATE_split option.split)
next
  case Post_sign_up
  have "sign_in_session env i t n rem (cx\<lparr>cx_db := d'\<rparr>) \<noteq> None"
    if "insert_ignore_user u (cx_db cx) = Some (i, d')" for u i d' t n rem
    using that assms sign_in_session_returns [of i "cx\<lparr>cx_db := d'\<rparr>"]
    by (auto simp: insert_ignore_user_Some user_ids_def)
  then show ?thesis
    using Post_sign_up by (auto simp: sign_up_def Let_def split: VALIDATE_split option.split)
qed (simp_all add: total_handler_def)

lemma serve_user_post_returns:
  assumes "\<not> set (we_session_ids env) \<subseteq> session_id ` set (db_sessions d)"
  shows "\<exists>sv. serve_user_post env sha rq post d = Some sv"
proof (cases "headers_get (rq_headers rq) ''x-csrf-token'' = Some (csrf_token_of_request env rq d)")
  case True
  have "user_post_handler env sha post (opened env rq d) \<noteq> None"
    by (rule user_post_handler_returns) (simp add: assms)
  then show ?thesis
    using csrf_accepted [OF True, of "user_post_handler env sha post"]
    by (auto simp: serve_user_post_def handler_impl_opened)
next
  case False
  then show ?thesis
    using csrf_rejected [OF False, of "user_post_handler env sha post"] by (simp add: serve_user_post_def)
qed

text \<open>Every POST request of the users API returns, the loop of create_session that draws session ids
  included, as soon as one of the ids it draws is not in use.\<close>

theorem users_api_returns:
  assumes "\<not> set (we_session_ids env) \<subseteq> session_id ` set (db_sessions d)"
  shows "\<exists>sv. serve_user_post env sha rq post d = Some sv"
  by (rule serve_user_post_returns [OF assms])

section \<open>Reading\<close>

text \<open>The lists of users are complete, ordered and private. An administrator gets exactly the first 64 or
  200 users of the asked type beyond the asked id, by id, each with its columns and the capabilities the
  administrator has on it, and is told that there may be more exactly when the limit is reached; anyone
  else gets 404. In no case does the assertion in the JSON output throw.\<close>

theorem list_users_exact:
  "list_users cx = Inr (if is_admin (cx_session cx)
     then list_response 64 (map (user_json (cx_session cx)) (select_users 64 (\<lambda>u. True) (cx_db cx))) cx
     else response_404 cx) \<and>
   list_users_above_id uid cx = Inr (if is_admin (cx_session cx)
     then list_response 200 (map (user_json (cx_session cx)) (select_users 200 (\<lambda>u. user_id u > uid) (cx_db cx))) cx
     else response_404 cx) \<and>
   list_users_with_type t cx = Inr (if is_admin (cx_session cx)
     then list_response 64 (map (user_json (cx_session cx)) (select_users 64 (\<lambda>u. user_type u = t) (cx_db cx))) cx
     else response_404 cx) \<and>
   list_users_with_type_and_above_id t uid cx = Inr (if is_admin (cx_session cx)
     then list_response 200
       (map (user_json (cx_session cx)) (select_users 200 (\<lambda>u. user_id u > uid \<and> user_type u = t) (cx_db cx))) cx
     else response_404 cx)"
  by (simp_all add: list_users_def list_users_above_id_def list_users_with_type_def
      list_users_with_type_and_above_id_def do_list_users_exact users_FIRST_QUERY_LIMIT_def users_NEXT_QUERY_LIMIT_def)

text \<open>The existence of an account is hidden: for an account that is not the actor's own, a request
  without an administrator's session gets the very answer that a missing account gives (404 with a text
  that depends on the request's session alone), from every route that names an account.\<close>

theorem foreign_accounts_look_missing:
  assumes "\<not> is_admin (cx_session cx)" "\<not> is_self (cx_session cx) uid"
  shows "view_user uid cx = Inr (response_404 cx) \<and> edit_user uid cx = Inr (response_404 cx) \<and>
    change_password env sha uid cx = Inr (response_404 cx) \<and>
    delete_user_api env sha uid cx = Inr (response_404 cx) \<and>
    merge_into_another env sha uid cx = Inr (response_404 cx)"
  using foreign_user_404 [OF assms] by blast

section \<open>Examples\<close>

text \<open>
  A small installation: root, an administrator and two others, each with the password \<open>pw\<close> and a live
  session, for a hash function that is the identity.
\<close>

definition example_user :: "id \<Rightarrow> user_type \<Rightarrow> string \<Rightarrow> user" where
  "example_user i t n =
     \<lparr> user_id = i, user_created_at = [], user_type = t, username = n, first_name = ''F'', last_name = ''L'',
       email = ''e'', password_salt = ''s'', password_hash = ''spw'' \<rparr>"

definition example_session :: "string \<Rightarrow> string \<Rightarrow> id \<Rightarrow> session_row" where
  "example_session sid tok uid =
     \<lparr> session_id = sid, session_csrf_token = tok, session_user_id = uid, session_data = [],
       session_user_agent = [], session_expires = ''2030-01-01 00:00:00'' \<rparr>"

definition example_accounts :: db where
  "example_accounts = empty_db\<lparr>
     db_users := [example_user 1 User_ADMIN ''root'', example_user 2 User_ADMIN ''ann'',
       example_user 3 User_NORMAL ''bob'', example_user 4 User_NORMAL ''eve''],
     db_sessions := [example_session ''R'' ''tr'' 1, example_session ''A'' ''ta'' 2,
       example_session ''B'' ''tb'' 3, example_session ''B2'' ''tb2'' 3],
     db_next_user_id := 5\<rparr>"

definition example_env :: web_env where
  "example_env = \<lparr> we_now = 0, we_csrf_token = ''c'', we_session_ids = [''A'', ''N''], we_salt = ''x'' \<rparr>"

fun example_fields :: "(string \<times> string) list \<Rightarrow> form_fields" where
  "example_fields [] = no_fields"
| "example_fields ((n, v) # fs) = add_field n v None (example_fields fs)"

definition example_request :: "string \<Rightarrow> string \<Rightarrow> (string \<times> string) list \<Rightarrow> http_request" where
  "example_request sid tok fs =
     \<lparr> rq_method = Method_POST, rq_headers = [(''Cookie'', ''session='' @ sid), (''x-csrf-token'', tok)],
       rq_target = [], rq_form_fields = example_fields fs \<rparr>"

definition example_post :: "string \<Rightarrow> string \<Rightarrow> (string \<times> string) list \<Rightarrow> user_post \<Rightarrow> served" where
  "example_post sid tok fs post =
     (case serve_user_post example_env id (example_request sid tok fs) post example_accounts of
        Some sv \<Rightarrow> sv | None \<Rightarrow> rolled_back example_accounts Terminate)"

lemma example_served:
  "serve_user_post example_env id (example_request sid tok fs) post example_accounts =
     Some (example_post sid tok fs post)"
proof -
  have "\<not> set (we_session_ids example_env) \<subseteq> session_id ` set (db_sessions example_accounts)"
    by (simp add: example_env_def example_accounts_def example_session_def)
  from serve_user_post_returns [OF this] show ?thesis
    unfolding example_post_def by (metis option.simps(5))
qed

section \<open>Witnesses\<close>


theorem only_root_makes_admins_witness:
  "\<exists>s u. request_session example_env (example_request ''R'' ''tr'' [(''type'', ''admin'')]) example_accounts =
     Some (s, u) \<and> user_id u = SIM_ROOT_ID"
proof (rule only_root_makes_admins [OF example_served])
  show "was_admin (sv_db (example_post ''R'' ''tr'' [(''type'', ''admin'')] (Post_edit_user 3))) 3" by code_simp
  show "\<not> was_admin example_accounts 3" by code_simp
  show "distinct (map user_id (db_users example_accounts))" by code_simp
qed

theorem non_admins_touch_only_themselves_witness:
  "{u \<in> set (db_users example_accounts).
      \<not> is_self (actor_of example_env (example_request ''B'' ''tb'' [(''password'', ''pw'')]) example_accounts) (user_id u)}
     \<subseteq> set (db_users (sv_db (example_post ''B'' ''tb'' [(''password'', ''pw'')] (Post_delete_user 3)))) \<and>
    (db_jobs (sv_db (example_post ''B'' ''tb'' [(''password'', ''pw'')] (Post_delete_user 3))) =
       db_jobs example_accounts \<or>
     (\<exists>a now. actor_of example_env (example_request ''B'' ''tb'' [(''password'', ''pw'')]) example_accounts = Some a \<and>
        db_jobs (sv_db (example_post ''B'' ''tb'' [(''password'', ''pw'')] (Post_delete_user 3))) =
          db_jobs example_accounts @
        [new_job (db_next_job_id example_accounts) now (Some (cs_user_id a)) DELETE_USER (Some (cs_user_id a)) None]))"
  by (rule non_admins_touch_only_themselves [OF example_served]) code_simp

theorem users_api_keeps_accounts_ok_witness:
  "accounts_ok (sv_db (example_post ''R'' ''tr'' [(''username'', ''rob''), (''type'', ''teacher'')] (Post_edit_user 3)))"
  by (rule users_api_keeps_accounts_ok [OF example_served]) code_simp+

theorem sessions_need_the_password_witness:
  "(\<exists>u password. u \<in> set (db_users example_accounts) \<and> (3 :: id) = user_id u \<and>
      ff_get (example_fields [(''username'', ''bob''), (''password'', ''pw''), (''remember_for_a_month'', ''false'')])
        ''username'' = Some (username u) \<and>
      ff_get (example_fields [(''username'', ''bob''), (''password'', ''pw''), (''remember_for_a_month'', ''false'')])
        ''password'' = Some password \<and>
      password_matches id password (password_salt u) (password_hash u))"
proof -
  let ?fs = "[(''username'', ''bob''), (''password'', ''pw''), (''remember_for_a_month'', ''false'')]"
  let ?sv = "example_post ''B'' ''tb'' ?fs Post_sign_in"
  have "let d = sv_db ?sv; row = last (db_sessions d)
    in row \<in> set (db_sessions d) \<and> row \<notin> set (db_sessions example_accounts) \<and> session_user_id row = 3 \<and>
      db_users d = db_users example_accounts" by code_simp
  then have row: "last (db_sessions (sv_db ?sv)) \<in> set (db_sessions (sv_db ?sv))"
      "last (db_sessions (sv_db ?sv)) \<notin> set (db_sessions example_accounts)"
    and "session_user_id (last (db_sessions (sv_db ?sv))) = 3"
      "db_users (sv_db ?sv) = db_users example_accounts" unfolding Let_def by blast+
  then show ?thesis
    using sessions_need_the_password [OF example_served row] by (simp add: example_request_def)
qed

theorem password_change_is_authorized_witness:
  "\<exists>a. actor_of example_env (example_request ''B'' ''tb'' [(''old_password'', ''pw''), (''new_password'', ''qq''),
        (''new_password_repeated'', ''qq'')]) example_accounts = Some a \<and>
    (\<forall>s \<in> set (db_sessions (sv_db (example_post ''B'' ''tb'' [(''old_password'', ''pw''), (''new_password'', ''qq''),
        (''new_password_repeated'', ''qq'')] (Post_change_password 3)))).
      session_user_id s = 3 \<longrightarrow> session_id s = cs_id a)"
proof -
  let ?fs = "[(''old_password'', ''pw''), (''new_password'', ''qq''), (''new_password_repeated'', ''qq'')]"
  let ?sv = "example_post ''B'' ''tb'' ?fs (Post_change_password 3)"
  let ?u' = "db_users (sv_db ?sv) ! 2"
  have "example_user 3 User_NORMAL ''bob'' \<in> set (db_users example_accounts)"
    "?u' \<in> set (db_users (sv_db ?sv))" "user_id ?u' = user_id (example_user 3 User_NORMAL ''bob'')"
    "(password_salt ?u', password_hash ?u') \<noteq> (password_salt (example_user 3 User_NORMAL ''bob''),
       password_hash (example_user 3 User_NORMAL ''bob''))"
    "accounts_ok example_accounts" "db_next_user_id example_accounts + 1 \<noteq> 0" by code_simp+
  from password_change_is_authorized [OF example_served this] show ?thesis
    by (auto simp: example_user_def)
qed

theorem account_jobs_need_the_password_witness:
  "\<exists>a password. actor_of example_env (example_request ''A'' ''ta'' [(''target_user_id'', ''4''), (''password'', ''pw'')])
       example_accounts = Some a \<and>
    ff_get (example_fields [(''target_user_id'', ''4''), (''password'', ''pw'')]) ''password'' = Some password \<and>
    password_is_valid id example_accounts (cs_user_id a) password"
proof -
  have "db_jobs (sv_db (example_post ''A'' ''ta'' [(''target_user_id'', ''4''), (''password'', ''pw'')] (Post_merge_user 3))) \<noteq>
      db_jobs example_accounts" by code_simp
  from account_jobs_need_the_password [OF example_served this] show ?thesis
    by (auto simp: example_request_def)
qed

theorem users_api_returns_witness:
  "\<exists>sv. serve_user_post example_env id (example_request ''B'' ''tb'' []) Post_sign_in example_accounts = Some sv"
  by (rule users_api_returns) code_simp

theorem foreign_accounts_look_missing_witness:
  "view_user 2 (opened example_env (example_request ''B'' ''tb'' []) example_accounts) =
     Inr (response_404 (opened example_env (example_request ''B'' ''tb'' []) example_accounts))"
proof -
  have "\<not> is_admin (cx_session (opened example_env (example_request ''B'' ''tb'' []) example_accounts))"
    "\<not> is_self (cx_session (opened example_env (example_request ''B'' ''tb'' []) example_accounts)) 2"
    by code_simp+
  from foreign_accounts_look_missing [OF this, of example_env id] show ?thesis by blast
qed

end
