(* ===== verification/Web_Lists.thy ===== *)
theory Web_Lists
  imports Users_Api "HOL-Library.Multiset"
begin

text \<open>
  What the list routes of the jobs, problems and submissions APIs share: a SELECT that is ordered by
  the id, descending, and limited; the rows rendered one by one, where a row that the session user
  may not view is an exception; and the client that follows the pages, asking each time for the rows
  below the last id it has seen while the answer says \<open>may_be_more\<close>.
\<close>

section \<open>The SELECT\<close>

text \<open>\<open>ORDER BY key DESC LIMIT limit\<close>\<close>

definition order_by_desc :: "('r \<Rightarrow> 'k::linorder) \<Rightarrow> 'r list \<Rightarrow> 'r list" where
  "order_by_desc key rows = rev (sort_key key rows)"

definition select_desc :: "('r \<Rightarrow> 'k::linorder) \<Rightarrow> nat \<Rightarrow> ('r \<Rightarrow> bool) \<Rightarrow> 'r list \<Rightarrow> 'r list" where
  "select_desc key limit w rows = take limit (order_by_desc key (filter w rows))"

lemma set_order_by_desc [simp]: "set (order_by_desc key rows) = set rows"
  by (simp add: order_by_desc_def)

lemma length_order_by_desc [simp]: "length (order_by_desc key rows) = length rows"
  by (simp add: order_by_desc_def)

lemma mset_order_by_desc: "mset (order_by_desc key rows) = mset rows"
  by (simp add: order_by_desc_def)

lemma filter_order_by_desc: "filter p (order_by_desc key rows) = order_by_desc key (filter p rows)"
  by (simp add: order_by_desc_def rev_filter [symmetric] filter_sort)

lemma set_select_desc: "r \<in> set (select_desc key limit w rows) \<Longrightarrow> r \<in> set rows \<and> w r"
  using set_take_subset [of limit "order_by_desc key (filter w rows)"]
  by (auto simp: select_desc_def)

lemma length_select_desc: "length (select_desc key limit w rows) \<le> limit"
  by (simp add: select_desc_def)

lemma select_desc_cong:
  "(\<And>r. r \<in> set rows \<Longrightarrow> w r = w' r) \<Longrightarrow> select_desc key limit w rows = select_desc key limit w' rows"
  by (simp add: select_desc_def cong: filter_cong)

lemma order_by_desc_distinct:
  "distinct (map key rows) \<Longrightarrow> sorted_wrt (\<lambda>a b. key b < key a) (order_by_desc key rows)"
proof -
  assume *: "distinct (map key rows)"
  have "sorted_wrt (<) (map key (sort_key key rows))"
    using * by (simp add: strict_sorted_iff distinct_map)
  then show ?thesis
    by (simp add: order_by_desc_def sorted_wrt_rev sorted_wrt_map)
qed

lemma sort_key_map: "sort_key k (map f xs) = map f (sort_key (\<lambda>x. k (f x)) xs)"
proof -
  have ins: "insort_key k (f x) (map f ys) = map f (insort_key (\<lambda>x. k (f x)) x ys)" for x ys
    by (induction ys) auto
  show ?thesis by (induction xs) (auto simp: ins)
qed

lemma sort_key_cong: "(\<And>x. x \<in> set xs \<Longrightarrow> k x = k' x) \<Longrightarrow> sort_key k xs = sort_key k' xs"
proof (induction xs)
  case (Cons x xs)
  have "insort_key k x ys = insort_key k' x ys" if "set ys \<subseteq> set xs" for ys
    using that Cons.prems by (induction ys) auto
  then show ?case using Cons by simp
qed simp

lemma select_desc_map:
  "select_desc k limit w (map f xs) = map f (select_desc (\<lambda>x. k (f x)) limit (\<lambda>x. w (f x)) xs)"
  by (simp add: select_desc_def order_by_desc_def filter_map sort_key_map rev_map take_map comp_def)

lemma select_desc_sorted:
  "distinct (map key rows) \<Longrightarrow> sorted_wrt (\<lambda>a b. key b < key a) (select_desc key limit w rows)"
  unfolding select_desc_def by (intro sorted_wrt_take order_by_desc_distinct) (simp add: distinct_map_filter)

section \<open>Following the pages\<close>

text \<open>What a client collects that asks for the first page and then, while \<open>may_be_more\<close>, for the rows
  below the last id it got.\<close>

fun next_pages ::
  "nat \<Rightarrow> ('r \<Rightarrow> 'k::linorder) \<Rightarrow> nat \<Rightarrow> ('r \<Rightarrow> bool) \<Rightarrow> 'r list \<Rightarrow> nat \<Rightarrow> 'r list \<Rightarrow> 'r list option" where
  "next_pages fuel key limit w rows last_limit page =
     (if length page \<noteq> last_limit \<or> page = [] then Some page
      else case fuel of
             0 \<Rightarrow> None
           | Suc fuel' \<Rightarrow>
               map_option (\<lambda>rest. page @ rest)
                 (next_pages fuel' key limit w rows limit
                    (select_desc key limit (\<lambda>r. w r \<and> key r < key (last page)) rows)))"

declare next_pages.simps [simp del]

definition all_pages ::
  "nat \<Rightarrow> ('r \<Rightarrow> 'k::linorder) \<Rightarrow> nat \<Rightarrow> nat \<Rightarrow> ('r \<Rightarrow> bool) \<Rightarrow> 'r list \<Rightarrow> 'r list option" where
  "all_pages fuel key first_limit next_limit w rows =
     next_pages fuel key next_limit w rows first_limit (select_desc key first_limit w rows)"

lemma below_last:
  assumes "sorted_wrt (\<lambda>a b. key b < key a) xs" "0 < n" "n \<le> length xs"
  shows "filter (\<lambda>r. key r < (key (last (take n xs)) :: 'k::linorder)) xs = drop n xs"
proof -
  let ?l = "last (take n xs)"
  have ne: "take n xs \<noteq> []" using assms by (cases xs) auto
  have desc: "key (xs ! j) < key (xs ! i)" if "i < j" "j < length xs" for i j
    using sorted_wrt_nth_less [OF assms(1) that] .
  have l: "?l = xs ! (n - 1)"
    using ne assms(2,3) by (simp add: last_conv_nth min_def)
  have "\<not> key r < key ?l" if "r \<in> set (take n xs)" for r
  proof -
    obtain i where "i < n" "r = xs ! i" using \<open>r \<in> set (take n xs)\<close> assms(3) by (auto simp: in_set_conv_nth)
    then show ?thesis using less_imp_not_less [OF desc [of i "n - 1"]] assms(2,3) l
      by (cases "i = n - 1") auto
  qed
  then have "filter (\<lambda>r. key r < key ?l) (take n xs) = []"
    by (simp add: filter_empty_conv)
  moreover have "key r < key ?l" if "r \<in> set (drop n xs)" for r
  proof -
    obtain i where "i < length xs - n" "r = xs ! (n + i)" using \<open>r \<in> set (drop n xs)\<close> by (auto simp: in_set_conv_nth)
    then show ?thesis using desc [of "n - 1" "n + i"] assms(2,3) l by simp
  qed
  then have "filter (\<lambda>r. key r < key ?l) (drop n xs) = drop n xs"
    by (simp add: filter_True)
  ultimately show ?thesis
    using filter_append [of "\<lambda>r. key r < key ?l" "take n xs" "drop n xs"] by simp
qed

lemma next_pages_complete:
  assumes "sorted_wrt (\<lambda>a b. key b < key a) xs" "0 < limit" "0 < last_limit"
    and "xs = order_by_desc key (filter (\<lambda>r. w r \<and> below r) rows)"
    and "\<And>r k. key r < k \<Longrightarrow> k \<in> key ` set xs \<Longrightarrow> below r"
    and "length xs < fuel"
  shows "next_pages fuel key limit w rows last_limit (take last_limit xs) = Some xs"
  using assms
proof (induction fuel arbitrary: xs below last_limit)
  case (Suc fuel)
  let ?page = "take last_limit xs"
  show ?case
  proof (cases "length ?page \<noteq> last_limit \<or> ?page = []")
    case True
    then have "?page = xs" using Suc.prems(3) by auto
    then show ?thesis using True by (simp add: next_pages.simps)
  next
    case False
    then have len: "last_limit \<le> length xs" and ne: "?page \<noteq> []" by auto
    let ?b = "\<lambda>r. key r < key (last ?page)"
    have last_in: "last ?page \<in> set xs" using ne set_take_subset [of last_limit xs] by (meson last_in_set subsetD)
    then have imp: "?b r \<Longrightarrow> below r" for r using Suc.prems(5) by blast
    have "filter (\<lambda>r. w r \<and> ?b r) rows = filter ?b (filter (\<lambda>r. w r \<and> below r) rows)"
      using imp by (simp, intro filter_cong) auto
    then have rest: "order_by_desc key (filter (\<lambda>r. w r \<and> ?b r) rows) = drop last_limit xs"
      using below_last [OF Suc.prems(1,3) len] Suc.prems(4) by (simp add: filter_order_by_desc)
    have "next_pages fuel key limit w rows limit (take limit (drop last_limit xs)) = Some (drop last_limit xs)"
    proof (rule Suc.IH [where below = ?b])
      show "sorted_wrt (\<lambda>a b. key b < key a) (drop last_limit xs)"
        using Suc.prems(1) by (rule sorted_wrt_drop)
      show "0 < limit" "0 < limit" by fact+
      show "drop last_limit xs = order_by_desc key (filter (\<lambda>r. w r \<and> ?b r) rows)"
        by (simp only: rest)
      show "length (drop last_limit xs) < fuel" using Suc.prems(3,6) len by auto
      fix r k
      assume "key r < k" "k \<in> key ` set (drop last_limit xs)"
      moreover have "\<forall>b\<in>set (drop last_limit xs). ?b b"
        by (simp only: rest [symmetric] set_order_by_desc set_filter) simp
      ultimately show "?b r" by (auto intro: less_trans)
    qed
    then show ?thesis
      using False by (subst next_pages.simps) (simp add: select_desc_def rest)
  qed
qed simp

text \<open>The contract between a list route and the client: some key that no two rows share, and limits
  that let a page hold a row.\<close>

locale paged_list =
  fixes key :: "'r \<Rightarrow> 'k::linorder" and first_limit next_limit :: nat
  assumes first_positive: "0 < first_limit" and next_positive: "0 < next_limit"
begin

lemma pages_complete:
  assumes "distinct (map key rows)" "length rows < fuel"
  shows "all_pages fuel key first_limit next_limit w rows = Some (order_by_desc key (filter w rows))"
proof -
  have "length (filter w rows) < fuel" using assms(2) by (meson le_less_trans length_filter_le)
  moreover have "distinct (map key (filter w rows))" using assms(1) by (simp add: distinct_map_filter)
  ultimately show ?thesis
    unfolding all_pages_def select_desc_def
    by (intro next_pages_complete [where below = "\<lambda>r. True"])
      (auto simp: order_by_desc_distinct first_positive next_positive)
qed

lemma pages_exactly_once:
  assumes "distinct (map key rows)" "length rows < fuel"
  shows "\<exists>got. all_pages fuel key first_limit next_limit w rows = Some got \<and>
    mset got = mset (filter w rows)"
  by (simp add: pages_complete [OF assms] mset_order_by_desc)

end

end
