(* ===== verification/Jobs_Api.thy ===== *)
theory Jobs_Api
  imports Web_Lists
begin

text \<open>
  The jobs API of the web server (src/subprojects/sim/src/web_server/jobs/api.cc): the lists of jobs,
  of all, of a user, of a problem and of a submission, and the view of one job. The LEFT JOINs of the
  queries are lookups that may fail; a column of a missing row is NULL.
\<close>

section \<open>JSON\<close>

text \<open>\<open>Datetime::to_json\<close>\<close>

definition datetime_json :: "datetime \<Rightarrow> json" where
  "datetime_json dt = J_raw (CHR 0x22 # take 10 dt @ ''T'' @ drop 11 dt @ ''Z'' @ [CHR 0x22])"

definition id_json :: "id \<Rightarrow> json" where
  "id_json i = J_int (uint i)"

fun job_subject_props :: "job_type \<Rightarrow> id option \<Rightarrow> id option \<Rightarrow> (string \<times> json) list" where
  "job_subject_props JUDGE_SUBMISSION a a2 = [(''submission_id'', J_opt id_json a)]"
| "job_subject_props REJUDGE_SUBMISSION a a2 = [(''submission_id'', J_opt id_json a)]"
| "job_subject_props ADD_PROBLEM a a2 = [(''problem_id'', J_opt id_json a)]"
| "job_subject_props REUPLOAD_PROBLEM a a2 = [(''problem_id'', J_opt id_json a)]"
| "job_subject_props EDIT_PROBLEM a a2 = [(''problem_id'', J_opt id_json a)]"
| "job_subject_props DELETE_PROBLEM a a2 = [(''problem_id'', J_opt id_json a)]"
| "job_subject_props CHANGE_PROBLEM_STATEMENT a a2 = [(''problem_id'', J_opt id_json a)]"
| "job_subject_props RESET_PROBLEM_TIME_LIMITS_USING_MODEL_SOLUTION a a2 = [(''problem_id'', J_opt id_json a)]"
| "job_subject_props RESELECT_FINAL_SUBMISSIONS_IN_CONTEST_PROBLEM a a2 = [(''contest_problem_id'', J_opt id_json a)]"
| "job_subject_props DELETE_CONTEST_PROBLEM a a2 = [(''contest_problem_id'', J_opt id_json a)]"
| "job_subject_props DELETE_USER a a2 = [(''user_id'', J_opt id_json a)]"
| "job_subject_props DELETE_CONTEST a a2 = [(''contest_id'', J_opt id_json a)]"
| "job_subject_props DELETE_CONTEST_ROUND a a2 = [(''contest_round_id'', J_opt id_json a)]"
| "job_subject_props MERGE_PROBLEMS a a2 =
     [(''donor_problem_id'', J_opt id_json a), (''target_problem_id'', J_opt id_json a2)]"
| "job_subject_props DELETE_INTERNAL_FILE a a2 = [(''internal_file_id'', J_opt id_json a)]"
| "job_subject_props MERGE_USERS a a2 =
     [(''donor_user_id'', J_opt id_json a), (''target_user_id'', J_opt id_json a2)]"

text \<open>The creator of a job may have been deleted: then only the id is known.\<close>

definition creator_json :: "db \<Rightarrow> id option \<Rightarrow> json" where
  "creator_json d creator_id =
     (case creator_id of
        None \<Rightarrow> J_null
      | Some uid \<Rightarrow>
          (case find_user d uid of
             Some u \<Rightarrow> J_obj [(''id'', id_json uid), (''username'', J_str (username u)),
               (''first_name'', J_str (first_name u)), (''last_name'', J_str (last_name u))]
           | None \<Rightarrow> J_obj [(''id'', id_json uid), (''username'', J_null), (''first_name'', J_null),
               (''last_name'', J_null)]))"

definition job_info_props :: "db \<Rightarrow> job \<Rightarrow> job_caps \<Rightarrow> (string \<times> json) list" where
  "job_info_props d j caps =
     [(''id'', id_json (job_id j)),
      (''created_at'', datetime_json (job_created_at j)),
      (''creator'', creator_json d (job_creator j)),
      (''type'', J_enum (job_type_to_str (job_type j))),
      (''priority'', J_int (uint (job_priority j))),
      (''status'', J_enum (job_status_to_str (job_status j)))] @
     job_subject_props (job_type j) (job_aux_id j) (job_aux_id_2 j) @
     [(''capabilities'', J_obj
        [(''view'', J_bool (jc_view caps)),
         (''view_log'', J_bool (jc_view_log caps)),
         (''download_attached_file'', J_bool (jc_download_attached_file caps)),
         (''cancel'', J_bool (jc_cancel caps)),
         (''restart'', J_bool (jc_restart caps)),
         (''change_priority'', J_bool (jc_change_priority caps))])]"

definition job_info_append_to :: "db \<Rightarrow> job \<Rightarrow> job_caps \<Rightarrow> (string \<times> json) list res" where
  "job_info_append_to d j caps =
     (if jc_view caps then Inr (job_info_props d j caps) else Inl (Throw_assert ''caps.view''))"

section \<open>Lists\<close>

definition problem_owner :: "db \<Rightarrow> id option \<Rightarrow> id option" where
  "problem_owner d pid =
     (case pid of None \<Rightarrow> None
      | Some p \<Rightarrow> (case find_problem d p of None \<Rightarrow> None | Some x \<Rightarrow> problem_owner_id x))"

text \<open>The owner of a submission's problem, and the session user's mode in the submission's contest.\<close>

definition submission_access ::
  "ctx_session option \<Rightarrow> db \<Rightarrow> id option \<Rightarrow> id option \<times> contest_user_mode option" where
  "submission_access session d sid =
     (case sid of None \<Rightarrow> (None, None)
      | Some i \<Rightarrow>
          (case find_submission d i of
             None \<Rightarrow> (None, None)
           | Some s \<Rightarrow>
               (problem_owner d (Some (sub_problem_id s)),
                (case (sub_contest_id s, session) of
                   (Some cid, Some ss) \<Rightarrow> contest_user_mode_of (db_contest_users d) cid (cs_user_id ss)
                 | _ \<Rightarrow> None))))"

definition problem_job_types :: "job_type list" where
  "problem_job_types = [ADD_PROBLEM, REUPLOAD_PROBLEM, EDIT_PROBLEM, DELETE_PROBLEM, MERGE_PROBLEMS,
     CHANGE_PROBLEM_STATEMENT, RESET_PROBLEM_TIME_LIMITS_USING_MODEL_SOLUTION]"

definition submission_job_types :: "job_type list" where
  "submission_job_types = [JUDGE_SUBMISSION, REJUDGE_SUBMISSION]"

text \<open>The joins of \<open>do_list\<close>, and the capabilities from them.\<close>

definition joined_job_caps :: "ctx_session option \<Rightarrow> db \<Rightarrow> job \<Rightarrow> job_caps" where
  "joined_job_caps session d j =
     (let jp = (if job_type j \<in> set problem_job_types then problem_owner d (job_aux_id j) else None);
          jp2 = (if job_type j = MERGE_PROBLEMS then problem_owner d (job_aux_id_2 j) else None);
          (jsp, mode) = (if job_type j \<in> set submission_job_types
                         then submission_access session d (job_aux_id j) else (None, None))
      in job_caps_of session (job_type j) jp jp2 jsp mode)"

definition select_jobs :: "nat \<Rightarrow> (job \<Rightarrow> bool) \<Rightarrow> db \<Rightarrow> job list" where
  "select_jobs limit where_cond d = select_desc job_id limit where_cond (db_jobs d)"

definition jobs_do_list :: "nat \<Rightarrow> (job \<Rightarrow> bool) \<Rightarrow> web_context \<Rightarrow> outcome" where
  "jobs_do_list limit where_cond cx =
     map_sum id (\<lambda>rows. list_response limit rows cx)
       (traverse_res (\<lambda>j. map_sum id J_obj
            (job_info_append_to (cx_db cx) j (joined_job_caps (cx_session cx) (cx_db cx) j)))
          (select_jobs limit where_cond (cx_db cx)))"

fun jobs_is_query_allowed :: "jobs_list_caps \<Rightarrow> job_status option \<Rightarrow> bool" where
  "jobs_is_query_allowed caps None = jl_query_all caps"
| "jobs_is_query_allowed caps (Some Job_DONE) = jl_query_with_status_done caps"
| "jobs_is_query_allowed caps (Some Job_PENDING) = jl_query_with_status_pending caps"
| "jobs_is_query_allowed caps (Some Job_IN_PROGRESS) = jl_query_with_status_in_progress caps"
| "jobs_is_query_allowed caps (Some Job_FAILED) = jl_query_with_status_failed caps"
| "jobs_is_query_allowed caps (Some Job_CANCELLED) = jl_query_with_status_cancelled caps"

definition do_list_jobs :: "nat \<Rightarrow> job_status option \<Rightarrow> (job \<Rightarrow> bool) \<Rightarrow> web_context \<Rightarrow> outcome" where
  "do_list_jobs limit status where_cond cx =
     (let caps = list_jobs_caps (cx_session cx)
      in if \<not> jobs_is_query_allowed caps status then Inr (response_403 [] cx)
         else jobs_do_list limit where_cond cx)"

definition do_list_user_jobs :: "nat \<Rightarrow> job_status option \<Rightarrow> (job \<Rightarrow> bool) \<Rightarrow> web_context \<Rightarrow> outcome" where
  "do_list_user_jobs limit status where_cond cx =
     (let caps = list_jobs_caps (cx_session cx)
      in if \<not> jobs_is_query_allowed caps status then Inr (response_403 [] cx)
         else jobs_do_list limit where_cond cx)"

definition problem_job_cond :: "id \<Rightarrow> job \<Rightarrow> bool" where
  "problem_job_cond pid j \<longleftrightarrow>
     (job_aux_id j = Some pid \<and> job_type j \<in> set problem_job_types) \<or>
     (job_aux_id_2 j = Some pid \<and> job_type j = MERGE_PROBLEMS)"

definition do_list_problem_jobs ::
  "nat \<Rightarrow> id \<Rightarrow> job_status option \<Rightarrow> (job \<Rightarrow> bool) \<Rightarrow> web_context \<Rightarrow> outcome" where
  "do_list_problem_jobs limit pid status where_cond cx =
     (let caps = list_problem_jobs_caps (cx_session cx) (problem_owner (cx_db cx) (Some pid))
      in if \<not> jobs_is_query_allowed caps status then Inr (response_403 [] cx)
         else jobs_do_list limit (\<lambda>j. problem_job_cond pid j \<and> where_cond j) cx)"

definition submission_job_cond :: "id \<Rightarrow> job \<Rightarrow> bool" where
  "submission_job_cond sid j \<longleftrightarrow> job_aux_id j = Some sid \<and> job_type j \<in> set submission_job_types"

definition do_list_submission_jobs ::
  "nat \<Rightarrow> id \<Rightarrow> job_status option \<Rightarrow> (job \<Rightarrow> bool) \<Rightarrow> web_context \<Rightarrow> outcome" where
  "do_list_submission_jobs limit sid status where_cond cx =
     (let (owner, mode) = submission_access (cx_session cx) (cx_db cx) (Some sid);
          caps = list_submission_jobs_caps (cx_session cx) owner mode
      in if \<not> jobs_is_query_allowed caps status then Inr (response_403 [] cx)
         else jobs_do_list limit (\<lambda>j. submission_job_cond sid j \<and> where_cond j) cx)"

definition jobs_FIRST_QUERY_LIMIT :: nat where
  "jobs_FIRST_QUERY_LIMIT = 64"

definition jobs_NEXT_QUERY_LIMIT :: nat where
  "jobs_NEXT_QUERY_LIMIT = 128"

definition list_jobs :: "web_context \<Rightarrow> outcome" where
  "list_jobs = do_list_jobs jobs_FIRST_QUERY_LIMIT None (\<lambda>j. True)"

definition list_jobs_below_id :: "id \<Rightarrow> web_context \<Rightarrow> outcome" where
  "list_jobs_below_id jid = do_list_jobs jobs_NEXT_QUERY_LIMIT None (\<lambda>j. job_id j < jid)"

definition list_jobs_with_status :: "job_status \<Rightarrow> web_context \<Rightarrow> outcome" where
  "list_jobs_with_status st = do_list_jobs jobs_FIRST_QUERY_LIMIT (Some st) (\<lambda>j. job_status j = st)"

definition list_jobs_with_status_below_id :: "job_status \<Rightarrow> id \<Rightarrow> web_context \<Rightarrow> outcome" where
  "list_jobs_with_status_below_id st jid =
     do_list_jobs jobs_NEXT_QUERY_LIMIT (Some st) (\<lambda>j. job_status j = st \<and> job_id j < jid)"

definition list_user_jobs :: "id \<Rightarrow> web_context \<Rightarrow> outcome" where
  "list_user_jobs uid = do_list_user_jobs jobs_FIRST_QUERY_LIMIT None (\<lambda>j. job_creator j = Some uid)"

definition list_user_jobs_below_id :: "id \<Rightarrow> id \<Rightarrow> web_context \<Rightarrow> outcome" where
  "list_user_jobs_below_id uid jid =
     do_list_user_jobs jobs_NEXT_QUERY_LIMIT None (\<lambda>j. job_creator j = Some uid \<and> job_id j < jid)"

definition list_user_jobs_with_status :: "id \<Rightarrow> job_status \<Rightarrow> web_context \<Rightarrow> outcome" where
  "list_user_jobs_with_status uid st =
     do_list_user_jobs jobs_FIRST_QUERY_LIMIT (Some st) (\<lambda>j. job_creator j = Some uid \<and> job_status j = st)"

definition list_user_jobs_with_status_below_id :: "id \<Rightarrow> job_status \<Rightarrow> id \<Rightarrow> web_context \<Rightarrow> outcome" where
  "list_user_jobs_with_status_below_id uid st jid =
     do_list_user_jobs jobs_NEXT_QUERY_LIMIT (Some st)
       (\<lambda>j. job_creator j = Some uid \<and> job_status j = st \<and> job_id j < jid)"

definition list_problem_jobs :: "id \<Rightarrow> web_context \<Rightarrow> outcome" where
  "list_problem_jobs pid = do_list_problem_jobs jobs_FIRST_QUERY_LIMIT pid None (\<lambda>j. True)"

definition list_problem_jobs_below_id :: "id \<Rightarrow> id \<Rightarrow> web_context \<Rightarrow> outcome" where
  "list_problem_jobs_below_id pid jid =
     do_list_problem_jobs jobs_NEXT_QUERY_LIMIT pid None (\<lambda>j. job_id j < jid)"

definition list_problem_jobs_with_status :: "id \<Rightarrow> job_status \<Rightarrow> web_context \<Rightarrow> outcome" where
  "list_problem_jobs_with_status pid st =
     do_list_problem_jobs jobs_FIRST_QUERY_LIMIT pid (Some st) (\<lambda>j. job_status j = st)"

definition list_problem_jobs_with_status_below_id :: "id \<Rightarrow> job_status \<Rightarrow> id \<Rightarrow> web_context \<Rightarrow> outcome" where
  "list_problem_jobs_with_status_below_id pid st jid =
     do_list_problem_jobs jobs_NEXT_QUERY_LIMIT pid (Some st) (\<lambda>j. job_status j = st \<and> job_id j < jid)"

definition list_submission_jobs :: "id \<Rightarrow> web_context \<Rightarrow> outcome" where
  "list_submission_jobs sid = do_list_submission_jobs jobs_FIRST_QUERY_LIMIT sid None (\<lambda>j. True)"

definition list_submission_jobs_below_id :: "id \<Rightarrow> id \<Rightarrow> web_context \<Rightarrow> outcome" where
  "list_submission_jobs_below_id sid jid =
     do_list_submission_jobs jobs_NEXT_QUERY_LIMIT sid None (\<lambda>j. job_id j < jid)"

definition list_submission_jobs_with_status :: "id \<Rightarrow> job_status \<Rightarrow> web_context \<Rightarrow> outcome" where
  "list_submission_jobs_with_status sid st =
     do_list_submission_jobs jobs_FIRST_QUERY_LIMIT sid (Some st) (\<lambda>j. job_status j = st)"

definition list_submission_jobs_with_status_below_id :: "id \<Rightarrow> job_status \<Rightarrow> id \<Rightarrow> web_context \<Rightarrow> outcome" where
  "list_submission_jobs_with_status_below_id sid st jid =
     do_list_submission_jobs jobs_NEXT_QUERY_LIMIT sid (Some st) (\<lambda>j. job_status j = st \<and> job_id j < jid)"

section \<open>One job\<close>

text \<open>The switch of \<open>view_job\<close>: the queries that a job of each type needs for its capabilities.\<close>

definition view_job_caps :: "ctx_session option \<Rightarrow> db \<Rightarrow> job \<Rightarrow> job_caps" where
  "view_job_caps session d j =
     (case job_type j of
        JUDGE_SUBMISSION \<Rightarrow>
          (let (owner, mode) = submission_access session d (job_aux_id j)
           in job_caps_of session (job_type j) None None owner mode)
      | REJUDGE_SUBMISSION \<Rightarrow>
          (let (owner, mode) = submission_access session d (job_aux_id j)
           in job_caps_of session (job_type j) None None owner mode)
      | ADD_PROBLEM \<Rightarrow> job_caps_of session (job_type j) (problem_owner d (job_aux_id j)) None None None
      | REUPLOAD_PROBLEM \<Rightarrow> job_caps_of session (job_type j) (problem_owner d (job_aux_id j)) None None None
      | EDIT_PROBLEM \<Rightarrow> job_caps_of session (job_type j) (problem_owner d (job_aux_id j)) None None None
      | DELETE_PROBLEM \<Rightarrow> job_caps_of session (job_type j) (problem_owner d (job_aux_id j)) None None None
      | RESET_PROBLEM_TIME_LIMITS_USING_MODEL_SOLUTION \<Rightarrow>
          job_caps_of session (job_type j) (problem_owner d (job_aux_id j)) None None None
      | CHANGE_PROBLEM_STATEMENT \<Rightarrow>
          job_caps_of session (job_type j) (problem_owner d (job_aux_id j)) None None None
      | MERGE_PROBLEMS \<Rightarrow>
          job_caps_of session (job_type j) (problem_owner d (job_aux_id j)) (problem_owner d (job_aux_id_2 j))
            None None
      | RESELECT_FINAL_SUBMISSIONS_IN_CONTEST_PROBLEM \<Rightarrow> job_caps_of session (job_type j) None None None None
      | DELETE_USER \<Rightarrow> job_caps_of session (job_type j) None None None None
      | DELETE_CONTEST \<Rightarrow> job_caps_of session (job_type j) None None None None
      | DELETE_CONTEST_ROUND \<Rightarrow> job_caps_of session (job_type j) None None None None
      | DELETE_CONTEST_PROBLEM \<Rightarrow> job_caps_of session (job_type j) None None None None
      | DELETE_INTERNAL_FILE \<Rightarrow> job_caps_of session (job_type j) None None None None
      | MERGE_USERS \<Rightarrow> job_caps_of session (job_type j) None None None None)"

definition view_job :: "id \<Rightarrow> web_context \<Rightarrow> outcome" where
  "view_job jid cx =
     (case find_job (cx_db cx) jid of
        None \<Rightarrow> Inr (response_404 cx)
      | Some j \<Rightarrow>
          (let caps = view_job_caps (cx_session cx) (cx_db cx) j
           in if \<not> jc_view caps then Inr (response_403 [] cx)
              else case find_job (cx_db cx) jid of
                     None \<Rightarrow> Inl (Throw_assert ''stmt.next()'')
                   | Some row \<Rightarrow>
                       map_sum id (\<lambda>props. response_json (json_render (J_obj
                           (props @ (if jc_view_log caps then [(''log'', J_str (job_log row))] else [])))) cx)
                         (job_info_append_to (cx_db cx) row caps)))"

section \<open>The lists\<close>

definition job_json :: "web_context \<Rightarrow> job \<Rightarrow> json" where
  "job_json cx j = J_obj (job_info_props (cx_db cx) j (joined_job_caps (cx_session cx) (cx_db cx) j))"

lemma jobs_do_list_visible:
  assumes "\<And>j. w j \<Longrightarrow> jc_view (joined_job_caps (cx_session cx) (cx_db cx) j)"
  shows "jobs_do_list limit w cx =
    Inr (list_response limit (map (job_json cx) (select_jobs limit w (cx_db cx))) cx)"
proof -
  have "traverse_res (\<lambda>j. map_sum id J_obj
      (job_info_append_to (cx_db cx) j (joined_job_caps (cx_session cx) (cx_db cx) j)))
      (select_jobs limit w (cx_db cx)) =
    Inr (map (job_json cx) (select_jobs limit w (cx_db cx)))"
    using assms set_select_desc [of _ job_id limit w "db_jobs (cx_db cx)"]
    by (intro traverse_res_Inr) (auto simp: job_info_append_to_def job_json_def select_jobs_def)
  then show ?thesis by (simp add: jobs_do_list_def)
qed

lemma is_query_allowed_jobs:
  "jobs_is_query_allowed (list_jobs_caps session) st = is_admin session"
  "jobs_is_query_allowed (list_problem_jobs_caps session owner) st =
     (is_admin session \<or> is_self_opt session owner)"
  "jobs_is_query_allowed (list_submission_jobs_caps session owner mode) st =
     (is_admin session \<or> is_self_opt session owner \<or> at_least_moderates_contest mode)"
  unfolding list_jobs_caps_def list_problem_jobs_caps_def list_submission_jobs_caps_def Let_def
  by (cases st; simp; rename_tac s, case_tac s; simp)+

lemma joined_caps_admin: "is_admin session \<Longrightarrow> jc_view (joined_job_caps session d j)"
  by (auto simp: joined_job_caps_def job_caps_of_def Let_def split: prod.splits)

lemma joined_caps_problem_owner:
  "is_self_opt session (problem_owner d (Some pid)) \<Longrightarrow> problem_job_cond pid j \<Longrightarrow>
    jc_view (joined_job_caps session d j)"
  by (auto simp: joined_job_caps_def job_caps_of_def problem_job_cond_def problem_job_types_def
      submission_job_types_def Let_def)

lemma joined_caps_submission:
  "is_self_opt session (fst (submission_access session d (Some sid))) \<or>
    at_least_moderates_contest (snd (submission_access session d (Some sid))) \<Longrightarrow>
    submission_job_cond sid j \<Longrightarrow> jc_view (joined_job_caps session d j)"
  by (auto simp: joined_job_caps_def job_caps_of_def submission_job_cond_def
      submission_job_types_def Let_def split: prod.splits)

lemma view_job_caps_joined: "view_job_caps session d j = joined_job_caps session d j"
  by (cases "job_type j")
    (simp_all add: view_job_caps_def joined_job_caps_def problem_job_types_def submission_job_types_def
      split: prod.split)

definition listed_jobs :: "bool \<Rightarrow> nat \<Rightarrow> (job \<Rightarrow> bool) \<Rightarrow> web_context \<Rightarrow> outcome" where
  "listed_jobs allowed limit w cx =
     Inr (if allowed then list_response limit (map (job_json cx) (select_jobs limit w (cx_db cx))) cx
          else response_403 [] cx)"

lemma listed_jobs_intro:
  "(\<And>j. allowed \<Longrightarrow> w j \<Longrightarrow> jc_view (joined_job_caps (cx_session cx) (cx_db cx) j)) \<Longrightarrow>
    (if \<not> allowed then Inr (response_403 [] cx) else jobs_do_list limit w cx) =
      listed_jobs allowed limit w cx"
  by (simp add: listed_jobs_def jobs_do_list_visible)


text \<open>Viewing a job decides by the same capabilities as the lists, though the lists get them from
  one query with joins and the view from a query per job type: a missing job is answered 404, a job
  that the lists would refuse to show 403, and otherwise the answer holds the members that the lists
  show of it, and the log exactly when the capability to view the log is granted. The view never
  throws.\<close>
theorem view_job_agrees_with_lists:
  "view_job jid cx =
     Inr (case find_job (cx_db cx) jid of
            None \<Rightarrow> response_404 cx
          | Some j \<Rightarrow>
              (let caps = joined_job_caps (cx_session cx) (cx_db cx) j
               in if jc_view caps
                  then response_json (json_render (J_obj (job_info_props (cx_db cx) j caps @
                         (if jc_view_log caps then [(''log'', J_str (job_log j))] else [])))) cx
                  else response_403 [] cx))"
  by (simp add: view_job_def view_job_caps_joined job_info_append_to_def Let_def split: option.split)

section \<open>Following the pages of jobs\<close>

interpretation job_pages: paged_list job_id jobs_FIRST_QUERY_LIMIT jobs_NEXT_QUERY_LIMIT
  by unfold_locales (simp_all add: jobs_FIRST_QUERY_LIMIT_def jobs_NEXT_QUERY_LIMIT_def)


section \<open>Examples\<close>

definition listed_job :: "id \<Rightarrow> job" where
  "listed_job i = \<lparr> job_id = i, job_created_at = ''2024-01-01 00:00:00'', job_creator = None,
     job_type = DELETE_USER, job_priority = 3, job_status = Job_DONE, job_aux_id = Some 7,
     job_aux_id_2 = None, job_log = [] \<rparr>"


end
