(* ===== verification/Problems_Api.thy ===== *)
theory Problems_Api
  imports Jobs_Api Judge_Logs
begin

text \<open>
  The problems API of the web server (src/subprojects/sim/src/web_server/problems/api.cc): the lists
  of problems with their tags, the view of one problem, and the requests that add or reupload a
  package. Moving the uploaded file is a parameter of the two last, that tells whether it fails.
\<close>

section \<open>JSON\<close>

definition problem_info_props ::
  "db \<Rightarrow> problem \<Rightarrow> submission_status option \<Rightarrow> problem_caps \<Rightarrow> string list \<Rightarrow> string list
    \<Rightarrow> (string \<times> json) list" where
  "problem_info_props d p final_status caps public_tags hidden_tags =
     [(''id'', id_json (problem_id p)),
      (''visibility'', J_enum (visibility_to_str (problem_visibility p))),
      (''name'', J_str (problem_name p)),
      (''label'', J_str (problem_label p))] @
     (if p_view_owner caps
      then [(''owner'', case problem_owner_id p of
               None \<Rightarrow> J_null
             | Some uid \<Rightarrow>
                 (let u = find_user d uid
                  in J_obj [(''id'', id_json uid), (''username'', J_opt (J_str \<circ> username) u),
                       (''first_name'', J_opt (J_str \<circ> first_name) u),
                       (''last_name'', J_opt (J_str \<circ> last_name) u)]))]
      else []) @
     (if p_view_creation_time caps then [(''created_at'', datetime_json (problem_created_at p))] else []) @
     (if p_view_update_time caps then [(''updated_at'', datetime_json (problem_updated_at p))] else []) @
     (if p_view_final_submission_full_status caps
      then [(''final_submission_full_status'', J_opt (J_enum \<circ> submission_status_to_str) final_status)]
      else []) @
     [(''tags'', J_obj
        ((if p_view_public_tags caps then [(''public'', J_arr (map J_str public_tags))] else []) @
         (if p_view_hidden_tags caps then [(''hidden'', J_arr (map J_str hidden_tags))] else []))),
      (''capabilities'', J_obj
        [(''view'', J_bool (p_view caps)),
         (''view_statement'', J_bool (p_view_statement caps)),
         (''view_public_tags'', J_bool (p_view_public_tags caps)),
         (''view_hidden_tags'', J_bool (p_view_hidden_tags caps)),
         (''view_solutions'', J_bool (p_view_solutions caps)),
         (''view_simfile'', J_bool (p_view_simfile caps)),
         (''view_owner'', J_bool (p_view_owner caps)),
         (''view_creation_time'', J_bool (p_view_creation_time caps)),
         (''view_update_time'', J_bool (p_view_update_time caps)),
         (''view_final_submission_full_status'', J_bool (p_view_final_submission_full_status caps)),
         (''download'', J_bool (p_download caps)),
         (''create_submission'', J_bool (p_create_submission caps)),
         (''edit'', J_bool (p_edit caps)),
         (''reupload'', J_bool (p_reupload caps)),
         (''rejudge_all_submissions'', J_bool (p_rejudge_all_submissions caps)),
         (''reset_time_limits'', J_bool (p_reset_time_limits caps)),
         (''delete'', J_bool (p_delete caps)),
         (''merge_into_another_problem'', J_bool (p_merge_into_another_problem caps)),
         (''merge_other_problem_into_this_problem'',
            J_bool (p_merge_other_problem_into_this_problem caps))])]"

definition problem_info_append_to ::
  "db \<Rightarrow> problem \<Rightarrow> submission_status option \<Rightarrow> problem_caps \<Rightarrow> string list \<Rightarrow> string list
    \<Rightarrow> (string \<times> json) list res" where
  "problem_info_append_to d p final_status caps public_tags hidden_tags =
     (if p_view caps then Inr (problem_info_props d p final_status caps public_tags hidden_tags)
      else Inl (Throw_assert ''caps.view''))"

section \<open>Lists\<close>

text \<open>
  The LEFT JOIN with the session user's final submissions: a row per match, or one row with NULL.
\<close>

definition final_statuses :: "ctx_session option \<Rightarrow> db \<Rightarrow> id \<Rightarrow> submission_status list" where
  "final_statuses session d pid =
     map sub_full_status (filter (\<lambda>s. sub_problem_id s = pid \<and> sub_problem_final s \<and>
         session \<noteq> None \<and> sub_user_id s = map_option cs_user_id session) (db_submissions d))"

definition join_finals ::
  "ctx_session option \<Rightarrow> db \<Rightarrow> problem \<Rightarrow> (problem \<times> submission_status option) list" where
  "join_finals session d p =
     (case final_statuses session d (problem_id p) of
        [] \<Rightarrow> [(p, None)]
      | sts \<Rightarrow> map (\<lambda>st. (p, Some st)) sts)"

definition select_problems ::
  "nat \<Rightarrow> (problem \<Rightarrow> bool) \<Rightarrow> ctx_session option \<Rightarrow> db \<Rightarrow> (problem \<times> submission_status option) list" where
  "select_problems limit where_cond session d =
     select_desc (\<lambda>r. problem_id (fst r)) limit (\<lambda>r. where_cond (fst r))
       (concat (map (join_finals session d) (db_problems d)))"

text \<open>
  The second query: the tags of the problems on the page, ORDER BY problem_id DESC, is_hidden, name.
\<close>

definition order_tags :: "problem_tag list \<Rightarrow> problem_tag list" where
  "order_tags tag_rows = sort_key tag_is_hidden (sort_key tag_name tag_rows)"

definition select_tags :: "nat \<Rightarrow> (problem \<Rightarrow> bool) \<Rightarrow> db \<Rightarrow> problem_tag list" where
  "select_tags limit where_cond d =
     (let pids = map problem_id (select_desc problem_id limit where_cond (db_problems d))
      in rev (sort_key tag_problem_id (rev (order_tags
           (filter (\<lambda>t. tag_problem_id t \<in> set pids) (db_problem_tags d))))))"

text \<open>
  \<open>fill_tags_for_problem\<close>: the cursor over that query moves past the tags of the problem. The
  result is the public tags, the hidden tags and what is left for the next problems.
\<close>

fun fill_tags_loop ::
  "id \<Rightarrow> problem_tag list \<Rightarrow> string list \<Rightarrow> string list \<Rightarrow> string list \<times> string list \<times> problem_tag list" where
  "fill_tags_loop pid [] public_tags hidden_tags = (public_tags, hidden_tags, [])"
| "fill_tags_loop pid (t # ts) public_tags hidden_tags =
     (if tag_problem_id t \<noteq> pid then (public_tags, hidden_tags, t # ts)
      else if tag_is_hidden t then fill_tags_loop pid ts public_tags (hidden_tags @ [tag_name t])
      else fill_tags_loop pid ts (public_tags @ [tag_name t]) hidden_tags)"

definition fill_tags_for_problem ::
  "id \<Rightarrow> problem_tag list \<Rightarrow> string list \<times> string list \<times> problem_tag list" where
  "fill_tags_for_problem pid tag_rows = fill_tags_loop pid tag_rows [] []"

fun problem_rows ::
  "ctx_session option \<Rightarrow> db \<Rightarrow> (problem \<times> submission_status option) list \<Rightarrow> problem_tag list \<Rightarrow> json list res" where
  "problem_rows session d [] tag_rows = Inr []"
| "problem_rows session d ((p, st) # rows) tag_rows =
     (let (public_tags, hidden_tags, rest) = fill_tags_for_problem (problem_id p) tag_rows
      in bind_res (problem_info_append_to d p st
             (problem_caps_of session (problem_visibility p) (problem_owner_id p)) public_tags hidden_tags)
           (\<lambda>props. map_sum id (Cons (J_obj props)) (problem_rows session d rows rest)))"

definition problems_do_list :: "nat \<Rightarrow> (problem \<Rightarrow> bool) \<Rightarrow> web_context \<Rightarrow> outcome" where
  "problems_do_list limit where_cond cx =
     map_sum id (\<lambda>rows. list_response limit rows cx)
       (problem_rows (cx_session cx) (cx_db cx)
          (select_problems limit where_cond (cx_session cx) (cx_db cx))
          (select_tags limit where_cond (cx_db cx)))"

fun problems_is_query_allowed :: "problems_list_caps \<Rightarrow> visibility option \<Rightarrow> bool" where
  "problems_is_query_allowed caps None = pl_query_all caps"
| "problems_is_query_allowed caps (Some PUBLIC) = pl_query_with_visibility_public caps"
| "problems_is_query_allowed caps (Some CONTEST_ONLY) = pl_query_with_visibility_contest_only caps"
| "problems_is_query_allowed caps (Some PRIVATE) = pl_query_with_visibility_private caps"

definition problems_caps_to_condition :: "problems_list_caps \<Rightarrow> visibility option \<Rightarrow> problem \<Rightarrow> bool" where
  "problems_caps_to_condition caps vis p \<longleftrightarrow>
     (pl_view_all_with_visibility_public caps \<and> (vis = None \<or> vis = Some PUBLIC) \<and>
        problem_visibility p = PUBLIC) \<or>
     (pl_view_all_with_visibility_contest_only caps \<and> (vis = None \<or> vis = Some CONTEST_ONLY) \<and>
        problem_visibility p = CONTEST_ONLY) \<or>
     (pl_view_all_with_visibility_private caps \<and> (vis = None \<or> vis = Some PRIVATE) \<and>
        problem_visibility p = PRIVATE)"

definition do_list_problems :: "nat \<Rightarrow> visibility option \<Rightarrow> (problem \<Rightarrow> bool) \<Rightarrow> web_context \<Rightarrow> outcome" where
  "do_list_problems limit vis where_cond cx =
     (let caps = list_problems (cx_session cx)
      in if \<not> problems_is_query_allowed caps vis then Inr (response_403 [] cx)
         else case cx_session cx of
                Some s \<Rightarrow>
                  (let user_caps = list_user_problems (cx_session cx) (cs_user_id s)
                   in problems_do_list limit (\<lambda>p. where_cond p \<and>
                        (problems_caps_to_condition caps vis p \<or>
                         (problem_owner_id p = Some (cs_user_id s) \<and>
                          problems_caps_to_condition user_caps vis p))) cx)
              | None \<Rightarrow>
                  problems_do_list limit (\<lambda>p. where_cond p \<and> problems_caps_to_condition caps vis p) cx)"

definition do_list_user_problems ::
  "nat \<Rightarrow> id \<Rightarrow> visibility option \<Rightarrow> (problem \<Rightarrow> bool) \<Rightarrow> web_context \<Rightarrow> outcome" where
  "do_list_user_problems limit uid vis where_cond cx =
     (let caps = list_user_problems (cx_session cx) uid
      in if \<not> problems_is_query_allowed caps vis then Inr (response_403 [] cx)
         else problems_do_list limit (\<lambda>p. where_cond p \<and> problem_owner_id p = Some uid \<and>
                problems_caps_to_condition caps vis p) cx)"

definition get_problem_caps :: "web_context \<Rightarrow> id \<Rightarrow> problem_caps option" where
  "get_problem_caps cx pid =
     map_option (\<lambda>p. problem_caps_of (cx_session cx) (problem_visibility p) (problem_owner_id p))
       (find_problem (cx_db cx) pid)"

definition problems_FIRST_QUERY_LIMIT :: nat where
  "problems_FIRST_QUERY_LIMIT = 64"

definition problems_NEXT_QUERY_LIMIT :: nat where
  "problems_NEXT_QUERY_LIMIT = 200"

definition problems_list_all :: "web_context \<Rightarrow> outcome" where
  "problems_list_all = do_list_problems problems_FIRST_QUERY_LIMIT None (\<lambda>p. True)"

definition list_problems_below_id :: "id \<Rightarrow> web_context \<Rightarrow> outcome" where
  "list_problems_below_id pid = do_list_problems problems_NEXT_QUERY_LIMIT None (\<lambda>p. problem_id p < pid)"

definition list_problems_with_visibility :: "visibility \<Rightarrow> web_context \<Rightarrow> outcome" where
  "list_problems_with_visibility vis = do_list_problems problems_FIRST_QUERY_LIMIT (Some vis) (\<lambda>p. True)"

definition list_problems_with_visibility_and_below_id :: "visibility \<Rightarrow> id \<Rightarrow> web_context \<Rightarrow> outcome" where
  "list_problems_with_visibility_and_below_id vis pid =
     do_list_problems problems_NEXT_QUERY_LIMIT (Some vis) (\<lambda>p. problem_id p < pid)"

definition user_problems_list_all :: "id \<Rightarrow> web_context \<Rightarrow> outcome" where
  "user_problems_list_all uid = do_list_user_problems problems_FIRST_QUERY_LIMIT uid None (\<lambda>p. True)"

definition list_user_problems_below_id :: "id \<Rightarrow> id \<Rightarrow> web_context \<Rightarrow> outcome" where
  "list_user_problems_below_id uid pid =
     do_list_user_problems problems_NEXT_QUERY_LIMIT uid None (\<lambda>p. problem_id p < pid)"

definition list_user_problems_with_visibility :: "id \<Rightarrow> visibility \<Rightarrow> web_context \<Rightarrow> outcome" where
  "list_user_problems_with_visibility uid vis =
     do_list_user_problems problems_FIRST_QUERY_LIMIT uid (Some vis) (\<lambda>p. True)"

definition list_user_problems_with_visibility_and_below_id ::
  "id \<Rightarrow> visibility \<Rightarrow> id \<Rightarrow> web_context \<Rightarrow> outcome" where
  "list_user_problems_with_visibility_and_below_id uid vis pid =
     do_list_user_problems problems_NEXT_QUERY_LIMIT uid (Some vis) (\<lambda>p. problem_id p < pid)"

section \<open>One problem\<close>

definition tag_names :: "bool \<Rightarrow> problem_tag list \<Rightarrow> string list" where
  "tag_names hidden tag_rows = map tag_name (filter (\<lambda>t. tag_is_hidden t = hidden) tag_rows)"

text \<open>The memory limit that the view shows next to the simfile.\<close>

definition default_memory_limit :: "string \<Rightarrow> int res" where
  "default_memory_limit contents =
     (case load_config_from_string False (add_vars [''memory_limit''] Map.empty) contents of
        Inl (Parse_error msg _) \<Rightarrow> Inl (Throw msg)
      | Inl Out_of_range \<Rightarrow> Inl (Throw ''out of range'')
      | Inr cf \<Rightarrow>
          (case str2num 0 u64_max (cv_str (get_var cf ''memory_limit'')) of
             None \<Rightarrow> Inl Bad_optional_access
           | Some x \<Rightarrow> Inr x))"

definition view_problem :: "id \<Rightarrow> web_context \<Rightarrow> outcome" where
  "view_problem pid cx =
     (case find_problem (cx_db cx) pid of
        None \<Rightarrow> Inr (response_404 cx)
      | Some p \<Rightarrow>
          (let caps = problem_caps_of (cx_session cx) (problem_visibility p) (problem_owner_id p);
               final_status = (case final_statuses (cx_session cx) (cx_db cx) pid of [] \<Rightarrow> None | st # _ \<Rightarrow> Some st);
               tag_rows = order_tags (filter (\<lambda>t. tag_problem_id t = pid) (db_problem_tags (cx_db cx)))
           in if \<not> p_view caps then Inr (response_403 [] cx)
              else bind_res (problem_info_append_to (cx_db cx) p final_status caps
                     (tag_names False tag_rows) (tag_names True tag_rows)) (\<lambda>props.
                   map_sum id (\<lambda>simfile_props. response_json (json_render (J_obj (props @ simfile_props))) cx)
                     (if p_view_simfile caps
                      then map_sum id (\<lambda>ml. [(''simfile'', J_str (problem_simfile p)), (''default_memory_limit'', J_int ml)])
                             (default_memory_limit (problem_simfile p))
                      else Inr []))))"

section \<open>Adding and reuploading a package\<close>

definition param_visibility :: api_param where
  "param_visibility = api_param_of ''visibility'' ''Visibility''"
definition param_ignore_simfile :: api_param where
  "param_ignore_simfile = api_param_of ''ignore_simfile'' ''Ignore simfile''"
definition param_package :: api_param where
  "param_package = api_param_of ''package'' ''Zipped package''"
definition param_problem_name :: api_param where
  "param_problem_name = api_param_of ''name'' ''Name''"
definition param_label :: api_param where
  "param_label = api_param_of ''label'' ''Label''"
definition param_memory_limit_in_mib :: api_param where
  "param_memory_limit_in_mib = api_param_of ''memory_limit_in_mib'' ''Memory limit''"
definition param_time_limits :: api_param where
  "param_time_limits = api_param_of ''time_limits'' ''Time limits''"
definition param_fixed_time_limit_in_nsec :: api_param where
  "param_fixed_time_limit_in_nsec = api_param_of ''fixed_time_limit_in_nsec'' ''Fixed time limit''"
definition param_reset_scoring :: api_param where
  "param_reset_scoring = api_param_of ''reset_scoring'' ''Reset scoring''"
definition param_look_for_new_tests :: api_param where
  "param_look_for_new_tests = api_param_of ''look_for_new_tests'' ''Look for new tests''"

datatype time_limits_kind = KEEP_IF_POSSIBLE | RESET | FIXED

definition time_limits_kind_from_str :: "string \<Rightarrow> time_limits_kind option" where
  "time_limits_kind_from_str s =
     (if s = ''keep_if_possible'' then Some KEEP_IF_POSSIBLE
      else if s = ''reset'' then Some RESET
      else if s = ''fixed'' then Some FIXED
      else None)"

record package_params =
  pp_ignore_simfile :: bool
  pp_package :: submitted_file
  pp_name :: string
  pp_label :: string
  pp_memory_limit_in_mib :: "int option"
  pp_time_limits :: time_limits_kind
  pp_fixed_time_limit :: "int option"
  pp_reset_scoring :: bool
  pp_look_for_new_tests :: bool

text \<open>judging_config.hh, in nanoseconds.\<close>

definition MIN_TIME_LIMIT :: int where
  "MIN_TIME_LIMIT = 300 * 10 ^ 6"

definition MAX_TIME_LIMIT :: int where
  "MAX_TIME_LIMIT = 22 * 10 ^ 9"

text \<open>\<open>to_string\<close> of a duration, which truncates the trailing zeros.\<close>

definition show_duration_trimmed :: "nat \<Rightarrow> int \<Rightarrow> string" where
  "show_duration_trimmed d dur =
     (let dec_dur = dur sdiv 10 ^ d;
          digits = rev (dropWhile (\<lambda>c. c = CHR ''0'') (rev (fraction_digits d (dur - dec_dur * 10 ^ d))))
      in int_to_string dec_dur @ (if digits = [] then [] else ''.'' @ digits))"

definition validate_memory_limit :: "string \<Rightarrow> string + int option" where
  "validate_memory_limit s =
     (if s = [] then Inr None
      else if \<not> is_digit_str s then Inl ''Invalid memory limit: not a number''
      else case str2num 0 (2 ^ 32 - 1) s of
             None \<Rightarrow> Inl ''Invalid memory limit: too big number''
           | Some x \<Rightarrow> Inr (Some x))"

definition validate_fixed_time_limit :: "string \<Rightarrow> string + int" where
  "validate_fixed_time_limit s =
     (if \<not> is_digit_str s then Inl ''Invalid fixed time limit: not a number''
      else case str2num (- (2 ^ 63)) (2 ^ 63 - 1) s of
             None \<Rightarrow> Inl ''Invalid fixed time limit: too big number''
           | Some x \<Rightarrow>
               if x < MIN_TIME_LIMIT
               then Inl (''Invalid fixed time limit: cannot be smaller than '' @
                      show_duration_trimmed 9 MIN_TIME_LIMIT @ ''s'')
               else if x > MAX_TIME_LIMIT
               then Inl (''Invalid fixed time limit: cannot be larger than '' @
                      show_duration_trimmed 9 MAX_TIME_LIMIT @ ''s'')
               else Inr x)"

fun time_limits_kind_caps :: "bool \<Rightarrow> time_limits_kind \<Rightarrow> bool" where
  "time_limits_kind_caps ignore_simfile KEEP_IF_POSSIBLE = (\<not> ignore_simfile)"
| "time_limits_kind_caps ignore_simfile RESET = True"
| "time_limits_kind_caps ignore_simfile FIXED = True"

text \<open>The end of the validation: the fixed time limit and the two flags for an existing simfile.\<close>

definition validate_time_limits :: "time_limits_kind \<Rightarrow> form_fields \<Rightarrow> string + int option" where
  "validate_time_limits kind ff =
     (case kind of
        KEEP_IF_POSSIBLE \<Rightarrow> Inr None
      | RESET \<Rightarrow> Inr None
      | FIXED \<Rightarrow>
          VALIDATE (validate_required validate_cstring param_fixed_time_limit_in_nsec ff) Inl
            (\<lambda>s. map_sum id Some (validate_fixed_time_limit s)))"

definition validate_simfile_flags :: "bool \<Rightarrow> form_fields \<Rightarrow> string + bool \<times> bool" where
  "validate_simfile_flags ignore_simfile ff =
     (if ignore_simfile then Inr (False, True)
      else VALIDATE
        (both (validate_required validate_bool param_reset_scoring ff)
          (validate_required validate_bool param_look_for_new_tests ff))
        Inl Inr)"

definition bind_err :: "string + 'a \<Rightarrow> ('a \<Rightarrow> string + 'b) \<Rightarrow> string + 'b" where
  "bind_err r f = (case r of Inl e \<Rightarrow> Inl e | Inr x \<Rightarrow> f x)"

definition validate_package_params :: "form_fields \<Rightarrow> string + package_params" where
  "validate_package_params ff =
     VALIDATE
       (both (validate_required validate_bool param_ignore_simfile ff) (validate_file_required param_package ff))
       Inl (\<lambda>(ignore_simfile, package).
     VALIDATE
       (both (validate_required (validate_varbinary 128) (allow_blank_if param_problem_name (\<not> ignore_simfile)) ff)
         (both (validate_required (validate_varbinary 64) (allow_blank_if param_label (\<not> ignore_simfile)) ff)
           (validate_required validate_cstring (allow_blank_if param_memory_limit_in_mib (\<not> ignore_simfile)) ff)))
       Inl (\<lambda>(name, label, memory_limit_in_mib_str).
     bind_err (validate_memory_limit memory_limit_in_mib_str) (\<lambda>memory_limit_in_mib.
     VALIDATE
       (enum_caps param_time_limits (time_limits_kind_caps ignore_simfile)
         (validate_required (validate_enum time_limits_kind_from_str) param_time_limits ff))
       Inl (\<lambda>time_limits.
     bind_err (validate_time_limits time_limits ff) (\<lambda>fixed_time_limit.
     bind_err (validate_simfile_flags ignore_simfile ff) (\<lambda>(reset_scoring, look_for_new_tests).
     Inr \<lparr> pp_ignore_simfile = ignore_simfile, pp_package = package, pp_name = name, pp_label = label,
           pp_memory_limit_in_mib = memory_limit_in_mib, pp_time_limits = time_limits,
           pp_fixed_time_limit = fixed_time_limit, pp_reset_scoring = reset_scoring,
           pp_look_for_new_tests = look_for_new_tests \<rparr>))))))"

text \<open>internal_file.hh\<close>

definition path_of :: "id \<Rightarrow> string" where
  "path_of i = ''internal_files/'' @ int_to_string (uint i)"

definition new_internal_file_id :: "datetime \<Rightarrow> db \<Rightarrow> id \<times> db" where
  "new_internal_file_id now d =
     (db_next_internal_file_id d,
      d\<lparr>db_internal_files := db_internal_files d @ [\<lparr> file_id = db_next_internal_file_id d, file_created_at = now \<rparr>],
        db_next_internal_file_id := db_next_internal_file_id d + 1\<rparr>)"

fun problem_visibility_caps :: "problems_caps \<Rightarrow> visibility \<Rightarrow> bool" where
  "problem_visibility_caps caps PRIVATE = ps_add_problem_with_visibility_private caps"
| "problem_visibility_caps caps CONTEST_ONLY = ps_add_problem_with_visibility_contest_only caps"
| "problem_visibility_caps caps PUBLIC = ps_add_problem_with_visibility_public caps"

definition job_response :: "id \<Rightarrow> web_context \<Rightarrow> web_context \<times> http_response" where
  "job_response jid = response_json (json_render (J_obj [(''job'', J_obj [(''id'', id_json jid)])]))"

definition add_problem_job_of :: "id \<Rightarrow> id \<Rightarrow> visibility \<Rightarrow> package_params \<Rightarrow> add_problem_job" where
  "add_problem_job_of jid fid vis pp =
     \<lparr> apj_id = jid, apj_file_id = fid, apj_visibility = vis,
       apj_force_time_limits_reset = (pp_time_limits pp = RESET),
       apj_ignore_simfile = pp_ignore_simfile pp, apj_name = pp_name pp, apj_label = pp_label pp,
       apj_memory_limit_in_mib = map_option word_of_int (pp_memory_limit_in_mib pp),
       apj_fixed_time_limit_in_ns = map_option word_of_int (pp_fixed_time_limit pp),
       apj_reset_scoring = pp_reset_scoring pp, apj_look_for_new_tests = pp_look_for_new_tests pp \<rparr>"

definition reupload_problem_job_of :: "id \<Rightarrow> id \<Rightarrow> package_params \<Rightarrow> reupload_problem_job" where
  "reupload_problem_job_of jid fid pp =
     \<lparr> rpj_id = jid, rpj_file_id = fid,
       rpj_force_time_limits_reset = (pp_time_limits pp = RESET),
       rpj_ignore_simfile = pp_ignore_simfile pp, rpj_name = pp_name pp, rpj_label = pp_label pp,
       rpj_memory_limit_in_mib = map_option word_of_int (pp_memory_limit_in_mib pp),
       rpj_fixed_time_limit_in_ns = map_option word_of_int (pp_fixed_time_limit pp),
       rpj_reset_scoring = pp_reset_scoring pp, rpj_look_for_new_tests = pp_look_for_new_tests pp \<rparr>"

text \<open>\<open>move_fails from to\<close>: what \<open>move\<close> returns for the uploaded file.\<close>

definition add_problem_package ::
  "web_env \<Rightarrow> (string \<Rightarrow> string \<Rightarrow> bool) \<Rightarrow> web_context \<Rightarrow> outcome" where
  "add_problem_package env move_fails cx =
     (let caps = problems_caps_of (cx_session cx)
      in if \<not> ps_add_problem caps then Inr (response_403 [] cx)
         else VALIDATE
           (enum_caps param_visibility (problem_visibility_caps caps)
             (validate_required (validate_enum visibility_from_str) param_visibility (form_of cx)))
           (\<lambda>errs. Inr (response_400 errs cx))
           (\<lambda>vis. case validate_package_params (form_of cx) of
              Inl err \<Rightarrow> Inr (response_400 err cx)
            | Inr pp \<Rightarrow>
                (let (fid, d1) = new_internal_file_id (now_of env) (cx_db cx);
                     jid = db_next_job_id d1
                 in if move_fails (sf_path (pp_package pp)) (path_of fid) then Inl (Throw ''move()'')
                    else bind_res (value_of (cx_session cx)) (\<lambda>s.
                      let d2 = insert_job (now_of env) (Some (cs_user_id s)) ADD_PROBLEM None None d1;
                          d3 = d2\<lparr>db_add_problem_jobs := db_add_problem_jobs d2 @ [add_problem_job_of jid fid vis pp]\<rparr>
                      in Inr (job_response jid (cx\<lparr>cx_db := d3, cx_notify_job_server := True\<rparr>))))))"

definition reupload_problem_package ::
  "web_env \<Rightarrow> (string \<Rightarrow> string \<Rightarrow> bool) \<Rightarrow> id \<Rightarrow> web_context \<Rightarrow> outcome" where
  "reupload_problem_package env move_fails pid cx =
     (case get_problem_caps cx pid of
        None \<Rightarrow> Inr (response_404 cx)
      | Some caps \<Rightarrow>
          if \<not> p_reupload caps then Inr (response_403 [] cx)
          else case validate_package_params (form_of cx) of
                 Inl err \<Rightarrow> Inr (response_400 err cx)
               | Inr pp \<Rightarrow>
                   (let (fid, d1) = new_internal_file_id (now_of env) (cx_db cx);
                        jid = db_next_job_id d1
                    in if move_fails (sf_path (pp_package pp)) (path_of fid) then Inl (Throw ''move()'')
                       else bind_res (value_of (cx_session cx)) (\<lambda>s.
                         let d2 = insert_job (now_of env) (Some (cs_user_id s)) REUPLOAD_PROBLEM (Some pid) None d1;
                             d3 = d2\<lparr>db_reupload_problem_jobs :=
                                   db_reupload_problem_jobs d2 @ [reupload_problem_job_of jid fid pp]\<rparr>
                         in Inr (job_response jid (cx\<lparr>cx_db := d3, cx_notify_job_server := True\<rparr>)))))"

section \<open>The cursor over the tags\<close>

lemma fill_tags_loop_eq:
  "fill_tags_loop pid ts pub hid =
     (pub @ tag_names False (takeWhile (\<lambda>t. tag_problem_id t = pid) ts),
      hid @ tag_names True (takeWhile (\<lambda>t. tag_problem_id t = pid) ts),
      dropWhile (\<lambda>t. tag_problem_id t = pid) ts)"
  by (induction pid ts pub hid rule: fill_tags_loop.induct) (auto simp: tag_names_def)

lemma descending_takeWhile:
  fixes k :: "'a \<Rightarrow> 'k::linorder"
  assumes "sorted_wrt (\<lambda>a b. k b \<le> k a) ts" "\<forall>t\<in>set ts. k t \<le> i"
  shows "takeWhile (\<lambda>t. k t = i) ts = filter (\<lambda>t. k t = i) ts \<and>
    dropWhile (\<lambda>t. k t = i) ts = filter (\<lambda>t. k t \<noteq> i) ts"
  using assms
proof (induction ts)
  case (Cons t ts)
  show ?case
  proof (cases "k t = i")
    case False
    then have "\<forall>u\<in>set ts. k u \<noteq> i" using Cons.prems by (auto simp: order.strict_iff_order)
    then show ?thesis using False by (simp add: filter_False filter_True)
  qed (use Cons in auto)
qed simp

definition problem_props ::
  "web_context \<Rightarrow> problem \<Rightarrow> submission_status option \<Rightarrow> problem_tag list \<Rightarrow> (string \<times> json) list" where
  "problem_props cx p final_status ts =
     problem_info_props (cx_db cx) p final_status
       (problem_caps_of (cx_session cx) (problem_visibility p) (problem_owner_id p))
       (tag_names False ts) (tag_names True ts)"

definition viewable_problem :: "ctx_session option \<Rightarrow> problem \<Rightarrow> bool" where
  "viewable_problem session p \<longleftrightarrow> p_view (problem_caps_of session (problem_visibility p) (problem_owner_id p))"

lemma problem_rows_eq:
  assumes "sorted_wrt (\<lambda>a b. problem_id (fst b) < problem_id (fst a)) rows"
    and "sorted_wrt (\<lambda>a b. tag_problem_id b \<le> tag_problem_id a) ts"
    and "\<forall>t\<in>set ts. tag_problem_id t \<in> (problem_id \<circ> fst) ` set rows"
    and "\<forall>r\<in>set rows. viewable_problem (cx_session cx) (fst r)"
  shows "problem_rows (cx_session cx) (cx_db cx) rows ts =
    Inr (map (\<lambda>r. J_obj (problem_props cx (fst r) (snd r)
      (filter (\<lambda>t. tag_problem_id t = problem_id (fst r)) ts))) rows)"
  using assms
proof (induction rows arbitrary: ts)
  case (Cons r rows)
  obtain p st where r: "r = (p, st)" by force
  let ?i = "problem_id p"
  have "\<forall>t\<in>set ts. tag_problem_id t \<le> ?i" using Cons.prems(1,3) r by fastforce
  note split = descending_takeWhile [OF Cons.prems(2) this]
  let ?rest = "filter (\<lambda>t. tag_problem_id t \<noteq> ?i) ts"
  have "problem_rows (cx_session cx) (cx_db cx) rows ?rest =
      Inr (map (\<lambda>r. J_obj (problem_props cx (fst r) (snd r)
        (filter (\<lambda>t. tag_problem_id t = problem_id (fst r)) ?rest))) rows)"
    using Cons.prems r by (intro Cons.IH) (auto simp: sorted_wrt_filter)
  moreover have "filter (\<lambda>t. tag_problem_id t = problem_id (fst q)) ?rest =
      filter (\<lambda>t. tag_problem_id t = problem_id (fst q)) ts" if "q \<in> set rows" for q
    using Cons.prems(1) that r by (auto intro!: filter_cong)
  ultimately show ?case
    using Cons.prems(4) split
    by (simp add: r fill_tags_for_problem_def fill_tags_loop_eq problem_info_append_to_def
        problem_props_def viewable_problem_def cong: map_cong)
qed simp

lemma sort_key_same: "(\<forall>x\<in>set xs. k x = i) \<Longrightarrow> sort_key k xs = xs"
  by (induction xs) (auto simp: insort_is_Cons)

definition tags_of :: "db \<Rightarrow> id \<Rightarrow> problem_tag list" where
  "tags_of d pid = order_tags (filter (\<lambda>t. tag_problem_id t = pid) (db_problem_tags d))"

lemma filter_order_tags: "filter p (order_tags ts) = order_tags (filter p ts)"
  by (simp add: order_tags_def filter_sort)

lemma select_tags_of:
  assumes "pid \<in> problem_id ` set (select_desc problem_id limit w (db_problems d))"
  shows "filter (\<lambda>t. tag_problem_id t = pid) (select_tags limit w d) = tags_of d pid"
proof -
  let ?S = "problem_id ` set (select_desc problem_id limit w (db_problems d))"
  let ?o = "order_tags (filter (\<lambda>t. tag_problem_id t \<in> ?S) (db_problem_tags d))"
  have "filter (\<lambda>t. tag_problem_id t = pid) (select_tags limit w d) =
      rev (sort_key tag_problem_id (rev (filter (\<lambda>t. tag_problem_id t = pid) ?o)))"
    by (simp add: select_tags_def rev_filter [symmetric] filter_sort)
  also have "\<dots> = filter (\<lambda>t. tag_problem_id t = pid) ?o"
    by (subst sort_key_same [where i = pid]) auto
  also have "\<dots> = tags_of d pid"
    using assms by (auto simp: tags_of_def filter_order_tags intro!: arg_cong [of _ _ order_tags] filter_cong)
  finally show ?thesis .
qed

lemma select_tags_sorted: "sorted_wrt (\<lambda>a b. tag_problem_id b \<le> tag_problem_id a) (select_tags limit w d)"
proof -
  have "sorted_wrt (\<lambda>a b. k a \<le> k b) (sort_key k xs)" for k :: "problem_tag \<Rightarrow> id" and xs
    using sorted_sort_key [of k xs] by (simp add: sorted_map)
  then show ?thesis by (simp add: select_tags_def sorted_wrt_rev)
qed

lemma select_tags_in:
  "t \<in> set (select_tags limit w d) \<Longrightarrow>
    tag_problem_id t \<in> problem_id ` set (select_desc problem_id limit w (db_problems d))"
  by (auto simp: select_tags_def order_tags_def)

section \<open>The lists and the view\<close>

text \<open>The choice of final submissions leaves at most one per user and problem.\<close>

definition one_final_per_problem :: "ctx_session option \<Rightarrow> db \<Rightarrow> bool" where
  "one_final_per_problem session d \<longleftrightarrow>
     list_all (\<lambda>p. length (final_statuses session d (problem_id p)) \<le> 1) (db_problems d)"

definition final_status_of :: "ctx_session option \<Rightarrow> db \<Rightarrow> id \<Rightarrow> submission_status option" where
  "final_status_of session d pid = (case final_statuses session d pid of [] \<Rightarrow> None | st # _ \<Rightarrow> Some st)"

lemma join_finals_one:
  "length (final_statuses session d (problem_id p)) \<le> 1 \<Longrightarrow>
    join_finals session d p = [(p, final_status_of session d (problem_id p))]"
  by (cases "final_statuses session d (problem_id p)") (auto simp: join_finals_def final_status_of_def)

lemma select_problems_one:
  assumes "one_final_per_problem session d"
  shows "select_problems limit w session d =
    map (\<lambda>p. (p, final_status_of session d (problem_id p))) (select_desc problem_id limit w (db_problems d))"
proof -
  have "map (join_finals session d) (db_problems d) =
      map (\<lambda>p. [(p, final_status_of session d (problem_id p))]) (db_problems d)"
    using assms by (simp add: one_final_per_problem_def list_all_iff join_finals_one)
  then have "concat (map (join_finals session d) (db_problems d)) =
      map (\<lambda>p. (p, final_status_of session d (problem_id p))) (db_problems d)"
    by (simp only: concat_map_singleton)
  then show ?thesis by (simp add: select_problems_def select_desc_map)
qed

definition shown_problem :: "web_context \<Rightarrow> problem \<Rightarrow> (string \<times> json) list" where
  "shown_problem cx p =
     problem_props cx p (final_status_of (cx_session cx) (cx_db cx) (problem_id p)) (tags_of (cx_db cx) (problem_id p))"

definition listed_problems :: "nat \<Rightarrow> (problem \<Rightarrow> bool) \<Rightarrow> web_context \<Rightarrow> outcome" where
  "listed_problems limit w cx =
     Inr (list_response limit
       (map (\<lambda>p. J_obj (shown_problem cx p)) (select_desc problem_id limit w (db_problems (cx_db cx)))) cx)"

lemma problems_do_list_visible:
  assumes "distinct (map problem_id (db_problems (cx_db cx)))"
    and "one_final_per_problem (cx_session cx) (cx_db cx)"
    and "\<And>p. w p \<Longrightarrow> viewable_problem (cx_session cx) p"
  shows "problems_do_list limit w cx = listed_problems limit w cx"
proof -
  let ?d = "cx_db cx" and ?s = "cx_session cx"
  let ?rows = "select_problems limit w ?s ?d" and ?ps = "select_desc problem_id limit w (db_problems ?d)"
  note rows = select_problems_one [OF assms(2), of limit w]
  have "problem_rows ?s ?d ?rows (select_tags limit w ?d) =
      Inr (map (\<lambda>r. J_obj (problem_props cx (fst r) (snd r)
        (filter (\<lambda>t. tag_problem_id t = problem_id (fst r)) (select_tags limit w ?d)))) ?rows)"
  proof (rule problem_rows_eq)
    show "sorted_wrt (\<lambda>a b. problem_id (fst b) < problem_id (fst a)) ?rows"
      using select_desc_sorted [OF assms(1), of limit w] by (simp add: rows sorted_wrt_map)
    show "\<forall>t\<in>set (select_tags limit w ?d). tag_problem_id t \<in> (problem_id \<circ> fst) ` set ?rows"
      using select_tags_in [of _ limit w ?d] by (auto simp: rows image_image)
    show "\<forall>r\<in>set ?rows. viewable_problem ?s (fst r)"
      using set_select_desc [of _ problem_id limit w "db_problems ?d"] assms(3) by (auto simp: rows)
  qed (rule select_tags_sorted)
  also have "\<dots> = Inr (map (\<lambda>p. J_obj (shown_problem cx p)) ?ps)"
    by (simp add: rows shown_problem_def select_tags_of cong: map_cong)
  finally show ?thesis by (simp add: problems_do_list_def listed_problems_def)
qed

lemma is_query_allowed_problems:
  "problems_is_query_allowed (list_problems session) vis \<longleftrightarrow> session \<noteq> None \<or> vis = None \<or> vis = Some PUBLIC"
  "problems_is_query_allowed (list_user_problems session uid) vis \<longleftrightarrow> is_self session uid \<or> is_admin session"
  unfolding list_problems_def list_user_problems_def
  by (cases vis; simp; rename_tac v, case_tac v; simp split: option.splits; auto)+

definition may_query_problems :: "ctx_session option \<Rightarrow> visibility option \<Rightarrow> bool" where
  "may_query_problems session vis \<longleftrightarrow> session \<noteq> None \<or> vis = None \<or> vis = Some PUBLIC"

definition has_visibility :: "visibility option \<Rightarrow> problem \<Rightarrow> bool" where
  "has_visibility vis p \<longleftrightarrow> (case vis of None \<Rightarrow> True | Some v \<Rightarrow> problem_visibility p = v)"

lemma problems_condition_viewable:
  "problems_caps_to_condition (list_problems None) vis p \<longleftrightarrow>
     viewable_problem None p \<and> has_visibility vis p"
  "problems_caps_to_condition (list_problems (Some s)) vis p \<or>
     (problem_owner_id p = Some (cs_user_id s) \<and>
      problems_caps_to_condition (list_user_problems (Some s) (cs_user_id s)) vis p) \<longleftrightarrow>
     viewable_problem (Some s) p \<and> has_visibility vis p"
  by (cases "problem_visibility p"; cases vis;
      auto simp: has_visibility_def problems_caps_to_condition_def list_problems_def list_user_problems_def viewable_problem_def
        problem_caps_of_def Let_def is_self_def is_admin_def is_teacher_def split: option.splits)+

lemma user_problems_condition:
  "is_self session uid \<or> is_admin session \<Longrightarrow>
    problems_caps_to_condition (list_user_problems session uid) vis p \<longleftrightarrow>
      has_visibility vis p"
  by (cases "problem_visibility p"; cases vis;
      auto simp: has_visibility_def problems_caps_to_condition_def list_user_problems_def)

lemma owned_problem_viewable:
  "is_self session uid \<or> is_admin session \<Longrightarrow> problem_owner_id p = Some uid \<Longrightarrow> viewable_problem session p"
  by (auto simp: viewable_problem_def problem_caps_of_def Let_def)

lemma do_list_problems_result:
  assumes "distinct (map problem_id (db_problems (cx_db cx)))"
    and "one_final_per_problem (cx_session cx) (cx_db cx)"
  shows "do_list_problems limit vis w cx =
    (if may_query_problems (cx_session cx) vis
     then listed_problems limit (\<lambda>p. w p \<and> viewable_problem (cx_session cx) p \<and> has_visibility vis p) cx
     else Inr (response_403 [] cx))"
proof (cases "cx_session cx")
  case None
  then show ?thesis
    using problems_do_list_visible [OF assms, of "\<lambda>p. w p \<and> viewable_problem None p \<and> has_visibility vis p"]
    by (auto simp: do_list_problems_def Let_def is_query_allowed_problems problems_condition_viewable
        may_query_problems_def)
next
  case (Some s)
  then show ?thesis
    using problems_do_list_visible [OF assms, of "\<lambda>p. w p \<and> viewable_problem (Some s) p \<and> has_visibility vis p"]
    by (auto simp: do_list_problems_def Let_def is_query_allowed_problems problems_condition_viewable
        may_query_problems_def)
qed

lemma do_list_user_problems_result:
  assumes "distinct (map problem_id (db_problems (cx_db cx)))"
    and "one_final_per_problem (cx_session cx) (cx_db cx)"
  shows "do_list_user_problems limit uid vis w cx =
    (if is_self (cx_session cx) uid \<or> is_admin (cx_session cx)
     then listed_problems limit (\<lambda>p. w p \<and> problem_owner_id p = Some uid \<and> has_visibility vis p) cx
     else Inr (response_403 [] cx))"
proof (cases "is_self (cx_session cx) uid \<or> is_admin (cx_session cx)")
  case True
  then show ?thesis
    using problems_do_list_visible [OF assms, of "\<lambda>p. w p \<and> problem_owner_id p = Some uid \<and> has_visibility vis p"]
      owned_problem_viewable [OF True]
    by (simp add: do_list_user_problems_def Let_def is_query_allowed_problems user_problems_condition)
qed (simp add: do_list_user_problems_def Let_def is_query_allowed_problems)


definition simfile_props :: "problem_caps \<Rightarrow> problem \<Rightarrow> (string \<times> json) list res" where
  "simfile_props caps p =
     (if p_view_simfile caps
      then map_sum id (\<lambda>ml. [(''simfile'', J_str (problem_simfile p)), (''default_memory_limit'', J_int ml)])
             (default_memory_limit (problem_simfile p))
      else Inr [])"

text \<open>The view of a problem answers 404 for a missing problem, 403 for one that the lists would not
  show, and otherwise exactly the members that the lists show of the problem, followed by the simfile
  where that is granted. It throws only where the simfile is granted and its text cannot be parsed or
  holds no number as memory limit.\<close>
theorem view_problem_agrees_with_lists:
  "view_problem pid cx =
     (case find_problem (cx_db cx) pid of
        None \<Rightarrow> Inr (response_404 cx)
      | Some p \<Rightarrow>
          if viewable_problem (cx_session cx) p
          then map_sum id (\<lambda>more. response_json (json_render (J_obj (shown_problem cx p @ more))) cx)
                 (simfile_props (problem_caps_of (cx_session cx) (problem_visibility p) (problem_owner_id p)) p)
          else Inr (response_403 [] cx))"
proof (cases "find_problem (cx_db cx) pid")
  case None
  then show ?thesis by (simp add: view_problem_def)
next
  case (Some p)
  then have "problem_id p = pid" by (auto simp: find_problem_def dest: find_key_Some)
  then show ?thesis
    using Some by (simp add: view_problem_def Let_def viewable_problem_def problem_info_append_to_def
        shown_problem_def problem_props_def final_status_of_def tags_of_def simfile_props_def)
qed

section \<open>Uploads\<close>

definition package_params_ok :: "package_params \<Rightarrow> bool" where
  "package_params_ok pp \<longleftrightarrow>
     length (pp_name pp) \<le> 128 \<and> length (pp_label pp) \<le> 64 \<and> sf_filename (pp_package pp) \<noteq> [] \<and>
     (case pp_memory_limit_in_mib pp of None \<Rightarrow> True | Some m \<Rightarrow> 0 \<le> m \<and> m < 2 ^ 32) \<and>
     (case pp_fixed_time_limit pp of
        None \<Rightarrow> pp_time_limits pp \<noteq> FIXED
      | Some t \<Rightarrow> pp_time_limits pp = FIXED \<and> MIN_TIME_LIMIT \<le> t \<and> t \<le> MAX_TIME_LIMIT) \<and>
     (pp_ignore_simfile pp \<longrightarrow>
        pp_name pp \<noteq> [] \<and> pp_label pp \<noteq> [] \<and> pp_memory_limit_in_mib pp \<noteq> None \<and>
        pp_time_limits pp \<noteq> KEEP_IF_POSSIBLE \<and> \<not> pp_reset_scoring pp \<and> pp_look_for_new_tests pp)"

lemma bind_err_Inr [simp]: "bind_err r f = Inr y \<longleftrightarrow> (\<exists>x. r = Inr x \<and> f x = Inr y)"
  by (simp add: bind_err_def split: sum.split)

lemma map_sum_Inr_E: "map_sum id f r = Inr y \<Longrightarrow> (\<And>x. r = Inr x \<Longrightarrow> y = f x \<Longrightarrow> P) \<Longrightarrow> P"
  by (cases r) auto

lemma VALIDATE_Inr:
  "VALIDATE vars Inl body = Inr y \<longleftrightarrow> (\<exists>x e. vars [] = (Some x, e) \<and> body x = Inr y)"
  by (auto simp: VALIDATE_def split: prod.split option.split)

lemma allow_blank_if_sel [simp]:
  "ap_allow_blank (allow_blank_if p c) = c" "ap_name (allow_blank_if p c) = ap_name p"
  by (simp_all add: allow_blank_if_def)

lemma str2num_nonneg: "9 \<le> hi \<Longrightarrow> str2num 0 hi s = Some x \<Longrightarrow> 0 \<le> x \<and> x \<le> hi"
  using str2num_literal [of 0 hi s x] by (auto simp: int_limits_def literal_of_def fits_def)

lemma validate_memory_limit_range:
  assumes "validate_memory_limit s = Inr mo"
  shows "(mo = None \<longleftrightarrow> s = []) \<and> (\<forall>m. mo = Some m \<longrightarrow> 0 \<le> m \<and> m < 2 ^ 32)"
proof (cases "str2num 0 (2 ^ 32 - 1) s")
  case None
  then show ?thesis using assms by (simp add: validate_memory_limit_def split: if_splits)
next
  case (Some x)
  then have "0 \<le> x \<and> x \<le> 2 ^ 32 - 1" by (intro str2num_nonneg) simp_all
  moreover have "mo = (if s = [] then None else Some x)"
    using Some assms unfolding validate_memory_limit_def by (simp split: if_splits)
  ultimately show ?thesis by simp
qed

lemma validate_fixed_time_limit_range:
  "validate_fixed_time_limit s = Inr t \<Longrightarrow> MIN_TIME_LIMIT \<le> t \<and> t \<le> MAX_TIME_LIMIT"
  by (cases "str2num (- (2 ^ 63)) (2 ^ 63 - 1) s") (auto simp: validate_fixed_time_limit_def split: if_splits)

lemma validate_time_limits_range:
  "validate_time_limits kind ff = Inr r \<Longrightarrow>
    (case r of None \<Rightarrow> kind \<noteq> FIXED | Some t \<Rightarrow> kind = FIXED \<and> MIN_TIME_LIMIT \<le> t \<and> t \<le> MAX_TIME_LIMIT)"
  by (cases kind)
    (auto simp: validate_time_limits_def VALIDATE_Inr dest: validate_fixed_time_limit_range
      elim!: map_sum_Inr_E)

lemma validate_file_required_SomeD:
  "validate_file_required p ff e = (Some f, e') \<Longrightarrow> sf_filename f \<noteq> [] \<and> ff_file_path ff (ap_name p) = Some (sf_path f)"
  by (auto simp: validate_file_required_def split: option.splits if_splits)

lemma validate_cstring_SomeD:
  "validate_cstring p s e = (Some x, e') \<Longrightarrow> x = s \<and> (x = [] \<longrightarrow> ap_allow_blank p)"
  by (auto simp: validate_cstring_def split: if_splits)

lemma validate_package_params_ok:
  assumes "validate_package_params ff = Inr pp"
  shows "package_params_ok pp"
proof -
  from assms obtain ign pack nm lb ml e2 mem tl e3 fixed rs ltn e1 where
    1: "both (validate_required validate_bool param_ignore_simfile ff) (validate_file_required param_package ff) []
        = (Some (ign, pack), e1)"
    and 2: "both (validate_required (validate_varbinary 128) (allow_blank_if param_problem_name (\<not> ign)) ff)
         (both (validate_required (validate_varbinary 64) (allow_blank_if param_label (\<not> ign)) ff)
           (validate_required validate_cstring (allow_blank_if param_memory_limit_in_mib (\<not> ign)) ff)) []
        = (Some (nm, lb, ml), e2)"
    and 3: "validate_memory_limit ml = Inr mem"
    and 4: "enum_caps param_time_limits (time_limits_kind_caps ign)
         (validate_required (validate_enum time_limits_kind_from_str) param_time_limits ff) [] = (Some tl, e3)"
    and 5: "validate_time_limits tl ff = Inr fixed" and 6: "validate_simfile_flags ign ff = Inr (rs, ltn)"
    and pp: "pp = \<lparr> pp_ignore_simfile = ign, pp_package = pack, pp_name = nm, pp_label = lb,
      pp_memory_limit_in_mib = mem, pp_time_limits = tl, pp_fixed_time_limit = fixed,
      pp_reset_scoring = rs, pp_look_for_new_tests = ltn \<rparr>"
    unfolding validate_package_params_def
    by (force simp: VALIDATE_Inr split: prod.splits)
  from 1 have "sf_filename pack \<noteq> []" by (auto dest!: both_SomeD validate_file_required_SomeD)
  moreover from 2 have "length nm \<le> 128 \<and> length lb \<le> 64 \<and> (ign \<longrightarrow> nm \<noteq> [] \<and> lb \<noteq> [] \<and> ml \<noteq> [])"
    by (auto dest!: both_SomeD validate_required_SomeD validate_varbinary_SomeD validate_cstring_SomeD)
  moreover from 4 have "ign \<longrightarrow> tl \<noteq> KEEP_IF_POSSIBLE" by (auto dest!: enum_caps_SomeD)
  moreover from 6 have "ign \<longrightarrow> \<not> rs \<and> ltn" by (auto simp: validate_simfile_flags_def split: if_splits)
  ultimately show ?thesis
    using validate_memory_limit_range [OF 3] validate_time_limits_range [OF 5]
    by (auto simp: pp package_params_ok_def split: option.splits)
qed

text \<open>The effect of an upload: a new internal file and a pending job of the session user.\<close>

definition package_queued :: "web_env \<Rightarrow> id \<Rightarrow> job_type \<Rightarrow> id option \<Rightarrow> db \<Rightarrow> db" where
  "package_queued env uid jtype aux d =
     insert_job (now_of env) (Some uid) jtype aux None (snd (new_internal_file_id (now_of env) d))"

definition upload_refused :: "web_context \<Rightarrow> outcome \<Rightarrow> bool" where
  "upload_refused cx r \<longleftrightarrow> answers cx r \<or> r = Inl (Throw ''move()'')"

definition added_package :: "web_env \<Rightarrow> ctx_session \<Rightarrow> visibility \<Rightarrow> package_params \<Rightarrow> db \<Rightarrow> db" where
  "added_package env s vis pp d =
     (package_queued env (cs_user_id s) ADD_PROBLEM None d)
       \<lparr>db_add_problem_jobs := db_add_problem_jobs d @
          [add_problem_job_of (db_next_job_id d) (db_next_internal_file_id d) vis pp]\<rparr>"

definition reuploaded_package :: "web_env \<Rightarrow> ctx_session \<Rightarrow> id \<Rightarrow> package_params \<Rightarrow> db \<Rightarrow> db" where
  "reuploaded_package env s pid pp d =
     (package_queued env (cs_user_id s) REUPLOAD_PROBLEM (Some pid) d)
       \<lparr>db_reupload_problem_jobs := db_reupload_problem_jobs d @
          [reupload_problem_job_of (db_next_job_id d) (db_next_internal_file_id d) pp]\<rparr>"

definition upload_queued :: "web_context \<Rightarrow> db \<Rightarrow> outcome \<Rightarrow> bool" where
  "upload_queued cx d' r \<longleftrightarrow>
     r = Inr (job_response (db_next_job_id (cx_db cx)) (cx\<lparr>cx_db := d', cx_notify_job_server := True\<rparr>))"

lemma add_problem_package_cases:
  "upload_refused cx (add_problem_package env move_fails cx) \<or>
   (\<exists>s vis pp. cx_session cx = Some s \<and> ps_add_problem (problems_caps_of (Some s)) \<and>
      problem_visibility_caps (problems_caps_of (Some s)) vis \<and>
      validate_package_params (form_of cx) = Inr pp \<and>
      upload_queued cx (added_package env s vis pp (cx_db cx)) (add_problem_package env move_fails cx))"
proof (cases "upload_refused cx (add_problem_package env move_fails cx)")
  case False
  let ?caps = "problems_caps_of (cx_session cx)"
  have add: "ps_add_problem ?caps"
    using False by (auto simp: add_problem_package_def upload_refused_def Let_def split: if_splits)
  then obtain s where s: "cx_session cx = Some s"
    by (cases "cx_session cx") (auto simp: problems_caps_of_def)
  from False add obtain vis e where
    vis: "enum_caps param_visibility (problem_visibility_caps ?caps)
        (validate_required (validate_enum visibility_from_str) param_visibility (form_of cx)) [] = (Some vis, e)"
    by (auto simp: add_problem_package_def upload_refused_def Let_def VALIDATE_def split: prod.splits option.splits)
  from False add vis obtain pp where pp: "validate_package_params (form_of cx) = Inr pp"
    by (auto simp: add_problem_package_def upload_refused_def Let_def VALIDATE_def split: sum.splits)
  have "\<not> move_fails (sf_path (pp_package pp)) (path_of (db_next_internal_file_id (cx_db cx)))"
    using False add vis pp
    by (auto simp: add_problem_package_def upload_refused_def Let_def VALIDATE_def new_internal_file_id_def)
  then have "upload_queued cx (added_package env s vis pp (cx_db cx)) (add_problem_package env move_fails cx)"
    using add vis pp s
    by (simp add: add_problem_package_def upload_queued_def added_package_def package_queued_def Let_def
        VALIDATE_def new_internal_file_id_def value_of_def)
  moreover have "problem_visibility_caps ?caps vis" using enum_caps_SomeD [OF vis] by simp
  ultimately show ?thesis using add pp s by auto
qed simp

lemma reupload_problem_package_cases:
  "upload_refused cx (reupload_problem_package env move_fails pid cx) \<or>
   (\<exists>s p pp. cx_session cx = Some s \<and> find_problem (cx_db cx) pid = Some p \<and>
      p_reupload (problem_caps_of (Some s) (problem_visibility p) (problem_owner_id p)) \<and>
      validate_package_params (form_of cx) = Inr pp \<and>
      upload_queued cx (reuploaded_package env s pid pp (cx_db cx))
        (reupload_problem_package env move_fails pid cx))"
proof (cases "upload_refused cx (reupload_problem_package env move_fails pid cx)")
  case False
  then obtain p where p: "find_problem (cx_db cx) pid = Some p"
    by (cases "find_problem (cx_db cx) pid")
      (auto simp: reupload_problem_package_def upload_refused_def get_problem_caps_def)
  let ?caps = "problem_caps_of (cx_session cx) (problem_visibility p) (problem_owner_id p)"
  have caps: "p_reupload ?caps"
    using False p
    by (auto simp: reupload_problem_package_def upload_refused_def get_problem_caps_def split: if_splits)
  then obtain s where s: "cx_session cx = Some s"
    by (cases "cx_session cx") (auto simp: problem_caps_of_def Let_def split: option.splits)
  from False p caps obtain pp where pp: "validate_package_params (form_of cx) = Inr pp"
    by (auto simp: reupload_problem_package_def upload_refused_def get_problem_caps_def split: sum.splits)
  have "\<not> move_fails (sf_path (pp_package pp)) (path_of (db_next_internal_file_id (cx_db cx)))"
    using False p caps pp
    by (auto simp: reupload_problem_package_def upload_refused_def get_problem_caps_def Let_def
        new_internal_file_id_def)
  then have "upload_queued cx (reuploaded_package env s pid pp (cx_db cx))
      (reupload_problem_package env move_fails pid cx)"
    using p caps pp s
    by (simp add: reupload_problem_package_def upload_queued_def reuploaded_package_def package_queued_def
        get_problem_caps_def Let_def new_internal_file_id_def value_of_def)
  then show ?thesis using p caps pp s by auto
qed simp


section \<open>Following the pages of problems\<close>

interpretation problem_pages: paged_list problem_id problems_FIRST_QUERY_LIMIT problems_NEXT_QUERY_LIMIT
  by unfold_locales (simp_all add: problems_FIRST_QUERY_LIMIT_def problems_NEXT_QUERY_LIMIT_def)

lemma problem_pages_complete:
  "distinct (map problem_id (db_problems d)) \<Longrightarrow> length (db_problems d) < fuel \<Longrightarrow>
    all_pages fuel problem_id problems_FIRST_QUERY_LIMIT problems_NEXT_QUERY_LIMIT w (db_problems d) =
      Some (order_by_desc problem_id (filter w (db_problems d)))"
  by (rule problem_pages.pages_complete)

section \<open>An example\<close>

text \<open>A contestant, a public problem of another user with two tags, and a private one.\<close>

definition sample_listed_problem :: "id \<Rightarrow> visibility \<Rightarrow> problem" where
  "sample_listed_problem i vis =
     \<lparr> problem_id = i, problem_created_at = ''2024-01-01 00:00:00'', problem_file_id = i,
       problem_visibility = vis, problem_name = ''A'', problem_label = ''a'', problem_simfile = [],
       problem_owner_id = Some 2, problem_updated_at = ''2024-01-01 00:00:00'' \<rparr>"

definition sample_listing_db :: db where
  "sample_listing_db = empty_db
     \<lparr>db_problems := [sample_listed_problem 1 PUBLIC, sample_listed_problem 2 PRIVATE],
      db_problem_tags := [\<lparr> tag_problem_id = 1, tag_is_hidden = True, tag_name = ''dp'' \<rparr>,
        \<lparr> tag_problem_id = 1, tag_is_hidden = False, tag_name = ''easy'' \<rparr>]\<rparr>"

definition sample_listing_context :: web_context where
  "sample_listing_context =
     (new_context \<lparr> rq_method = Method_GET, rq_headers = [], rq_target = [], rq_form_fields = no_fields \<rparr>
        sample_listing_db)\<lparr>cx_session := Some contestant_session\<rparr>"


end
