(* ===== verification/Submissions_Api.thy ===== *)
theory Submissions_Api
  imports Problems_Api
begin

text \<open>
  The submissions API of the web server (src/subprojects/sim/src/web_server/submissions/api.cc): the
  eighty-one list routes, each with the capability it asks for and its WHERE condition, and the view
  of one submission. The columns that the session user may not see yet, before the full results of a
  contest round, are left out by \<open>SubmissionInfo::append_to\<close>.
\<close>

section \<open>Rows with their joins\<close>

definition find_contest :: "db \<Rightarrow> id \<Rightarrow> contest option" where
  "find_contest d i = find (\<lambda>c. contest_id c = i) (db_contests d)"

definition find_round :: "db \<Rightarrow> id \<Rightarrow> contest_round option" where
  "find_round d i = find (\<lambda>r. round_id r = i) (db_contest_rounds d)"

definition find_contest_problem :: "db \<Rightarrow> id \<Rightarrow> contest_problem option" where
  "find_contest_problem d i = find (\<lambda>p. cp_id p = i) (db_contest_problems d)"

text \<open>A LEFT JOIN on a column that may be NULL.\<close>

definition joined :: "(id \<Rightarrow> 'r option) \<Rightarrow> id option \<Rightarrow> 'r option" where
  "joined find_row i = (case i of None \<Rightarrow> None | Some x \<Rightarrow> find_row x)"

definition joined_full_results :: "db \<Rightarrow> submission \<Rightarrow> datetime option" where
  "joined_full_results d s = map_option round_full_results (joined (find_round d) (sub_round_id s))"

definition session_user_mode :: "ctx_session option \<Rightarrow> db \<Rightarrow> id \<Rightarrow> contest_user_mode option" where
  "session_user_mode session d cid =
     (case session of None \<Rightarrow> None | Some ss \<Rightarrow> contest_user_mode_of (db_contest_users d) cid (cs_user_id ss))"

definition joined_submission_caps ::
  "ctx_session option \<Rightarrow> db \<Rightarrow> datetime \<Rightarrow> problem \<Rightarrow> submission \<Rightarrow> submission_caps" where
  "joined_submission_caps session d now p s =
     submission_caps_of session (sub_user_id s) (sub_type s) (problem_visibility p) (problem_owner_id p)
       (joined (session_user_mode session d) (sub_contest_id s)) (joined_full_results d s)
       (map_option cp_method (joined (find_contest_problem d) (sub_cp_id s)))
       (map_option cp_score_revealing (joined (find_contest_problem d) (sub_cp_id s))) now"

section \<open>JSON\<close>

definition named_json :: "id option \<Rightarrow> string option \<Rightarrow> json" where
  "named_json i n =
     (case i of None \<Rightarrow> J_null | Some x \<Rightarrow> J_obj [(''id'', id_json x), (''name'', J_opt J_str n)])"

definition visible :: "bool \<Rightarrow> json \<Rightarrow> json" where
  "visible c v = (if c then v else J_null)"

text \<open>
  The list binds the contest's id from the joined row of contests, the view from the submission: it
  is a parameter here.
\<close>

definition submission_info_props ::
  "db \<Rightarrow> problem \<Rightarrow> id option \<Rightarrow> submission \<Rightarrow> submission_caps \<Rightarrow> (string \<times> json) list" where
  "submission_info_props d p cid s caps =
     [(''id'', id_json (sub_id s)),
      (''created_at'', datetime_json (sub_created_at s)),
      (''user'', case sub_user_id s of
           None \<Rightarrow> J_null
         | Some uid \<Rightarrow>
             (let u = find_user d uid
              in J_obj [(''id'', id_json uid), (''username'', J_opt (J_str \<circ> username) u),
                   (''first_name'', J_opt (J_str \<circ> first_name) u),
                   (''last_name'', J_opt (J_str \<circ> last_name) u)])),
      (''problem'', J_obj [(''id'', id_json (sub_problem_id s)), (''name'', J_str (problem_name p))]),
      (''contest_problem'', named_json (sub_cp_id s)
         (map_option cp_name (joined (find_contest_problem d) (sub_cp_id s)))),
      (''contest_round'', named_json (sub_round_id s)
         (map_option round_name (joined (find_round d) (sub_round_id s)))),
      (''contest'', named_json cid (map_option contest_name (joined (find_contest d) (sub_contest_id s)))),
      (''type'', J_enum (submission_type_to_str (sub_type s))),
      (''is_problem_final'', visible (sc_view_if_problem_final caps) (J_bool (sub_problem_final s))),
      (''is_contest_problem_initial_final'',
         visible (sc_view_if_contest_problem_initial_final caps) (J_bool (sub_cp_initial_final s))),
      (''is_contest_problem_final'',
         visible (sc_view_if_contest_problem_final caps) (J_bool (sub_cp_final s))),
      (''language'', J_enum (language_to_str (sub_language s))),
      (''initial_status'',
         visible (sc_view_initial_status caps) (J_enum (submission_status_to_str (sub_initial_status s)))),
      (''full_status'',
         visible (sc_view_full_status caps) (J_enum (submission_status_to_str (sub_full_status s)))),
      (''score'', visible (sc_view_score caps) (J_opt J_int (sub_score s))),
      (''capabilities'', J_obj
         [(''view'', J_bool (sc_view caps)),
          (''view_initial_status'', J_bool (sc_view_initial_status caps)),
          (''view_full_status'', J_bool (sc_view_full_status caps)),
          (''view_initial_judgement_protocol'', J_bool (sc_view_initial_judgement_protocol caps)),
          (''view_full_judgement_protocol'', J_bool (sc_view_full_judgement_protocol caps)),
          (''view_score'', J_bool (sc_view_score caps)),
          (''view_if_problem_final'', J_bool (sc_view_if_problem_final caps)),
          (''view_if_contest_problem_initial_final'', J_bool (sc_view_if_contest_problem_initial_final caps)),
          (''view_if_contest_problem_final'', J_bool (sc_view_if_contest_problem_final caps)),
          (''download'', J_bool (sc_download caps)),
          (''change_type'', J_bool (sc_change_type caps)),
          (''rejudge'', J_bool (sc_rejudge caps)),
          (''delete'', J_bool (sc_delete caps)),
          (''view_related_jobs'', J_bool (sc_view_related_jobs caps))])]"

definition submission_info_append_to ::
  "db \<Rightarrow> problem \<Rightarrow> id option \<Rightarrow> submission \<Rightarrow> submission_caps \<Rightarrow> (string \<times> json) list res" where
  "submission_info_append_to d p cid s caps =
     (if sc_view caps then Inr (submission_info_props d p cid s caps)
      else Inl (Throw_assert ''caps.view''))"

section \<open>Lists\<close>

definition select_submissions :: "nat \<Rightarrow> (submission \<Rightarrow> bool) \<Rightarrow> db \<Rightarrow> submission list" where
  "select_submissions limit where_cond d = select_desc sub_id limit where_cond (db_submissions d)"

text \<open>One row of \<open>do_list\<close>. A row without its problem has NULL where no NULL can be bound.\<close>

definition submission_row ::
  "ctx_session option \<Rightarrow> db \<Rightarrow> datetime \<Rightarrow> submission \<Rightarrow> json res" where
  "submission_row session d now s =
     (case find_problem d (sub_problem_id s) of
        None \<Rightarrow> Inl (Throw ''Unexpected NULL'')
      | Some p \<Rightarrow>
          map_sum id J_obj (submission_info_append_to d p
            (map_option contest_id (joined (find_contest d) (sub_contest_id s))) s
            (joined_submission_caps session d now p s)))"

definition submissions_do_list ::
  "web_env \<Rightarrow> nat \<Rightarrow> (submission \<Rightarrow> bool) \<Rightarrow> web_context \<Rightarrow> outcome" where
  "submissions_do_list env limit where_cond cx =
     map_sum id (\<lambda>rows. list_response limit rows cx)
       (traverse_res (submission_row (cx_session cx) (cx_db cx) (now_of env))
          (select_submissions limit where_cond (cx_db cx)))"

definition get_problem_info_for_capabilities ::
  "web_context \<Rightarrow> id \<Rightarrow> (visibility \<times> id option) option" where
  "get_problem_info_for_capabilities cx pid =
     map_option (\<lambda>p. (problem_visibility p, problem_owner_id p)) (find_problem (cx_db cx) pid)"

definition get_contest_info_for_capabilities :: "web_context \<Rightarrow> id \<Rightarrow> contest_user_mode option" where
  "get_contest_info_for_capabilities cx cid = session_user_mode (cx_session cx) (cx_db cx) cid"

definition get_contest_round_info_for_capabilities ::
  "web_context \<Rightarrow> id \<Rightarrow> (datetime \<times> contest_user_mode option) option" where
  "get_contest_round_info_for_capabilities cx rid =
     map_option (\<lambda>r. (round_full_results r, session_user_mode (cx_session cx) (cx_db cx) (round_contest_id r)))
       (find_round (cx_db cx) rid)"

text \<open>The round of a contest problem exists by a foreign key.\<close>

definition get_contest_problem_info_for_capabilities ::
  "web_context \<Rightarrow> id \<Rightarrow> (datetime \<times> contest_user_mode option) option" where
  "get_contest_problem_info_for_capabilities cx cpid =
     (case find_contest_problem (cx_db cx) cpid of
        None \<Rightarrow> None
      | Some c \<Rightarrow>
          map_option (\<lambda>r. (round_full_results r, session_user_mode (cx_session cx) (cx_db cx) (cp_contest_id c)))
            (find_round (cx_db cx) (cp_round_id c)))"

definition submissions_FIRST_QUERY_LIMIT :: nat where
  "submissions_FIRST_QUERY_LIMIT = 64"

definition submissions_NEXT_QUERY_LIMIT :: nat where
  "submissions_NEXT_QUERY_LIMIT = 128"

section \<open>The list routes\<close>

definition list_submissions :: "web_env \<Rightarrow> web_context \<Rightarrow> outcome" where
  "list_submissions env cx =
     (let caps = list_submissions_caps (cx_session cx)
      in if \<not> sl_query_all caps then Inr (response_403 [] cx)
         else submissions_do_list env submissions_FIRST_QUERY_LIMIT (\<lambda>s. True) cx)"

definition list_submissions_below_id ::
  "web_env \<Rightarrow> id \<Rightarrow> web_context \<Rightarrow> outcome" where
  "list_submissions_below_id env sid cx =
     (let caps = list_submissions_caps (cx_session cx)
      in if \<not> sl_query_all caps then Inr (response_403 [] cx)
         else submissions_do_list env submissions_NEXT_QUERY_LIMIT (\<lambda>s. sub_id s < sid) cx)"

definition list_submissions_with_type_contest_problem_final ::
  "web_env \<Rightarrow> web_context \<Rightarrow> outcome" where
  "list_submissions_with_type_contest_problem_final env cx =
     (let caps = list_submissions_caps (cx_session cx)
      in if \<not> sl_query_with_type_contest_problem_final caps then Inr (response_403 [] cx)
         else submissions_do_list env submissions_FIRST_QUERY_LIMIT (\<lambda>s. sub_cp_final s) cx)"

definition list_submissions_with_type_contest_problem_final_below_id ::
  "web_env \<Rightarrow> id \<Rightarrow> web_context \<Rightarrow> outcome" where
  "list_submissions_with_type_contest_problem_final_below_id env sid cx =
     (let caps = list_submissions_caps (cx_session cx)
      in if \<not> sl_query_with_type_contest_problem_final caps then Inr (response_403 [] cx)
         else submissions_do_list env submissions_NEXT_QUERY_LIMIT
           (\<lambda>s. sub_cp_final s \<and> sub_id s < sid) cx)"

definition list_submissions_with_type_problem_final ::
  "web_env \<Rightarrow> web_context \<Rightarrow> outcome" where
  "list_submissions_with_type_problem_final env cx =
     (let caps = list_submissions_caps (cx_session cx)
      in if \<not> sl_query_with_type_problem_final caps then Inr (response_403 [] cx)
         else submissions_do_list env submissions_FIRST_QUERY_LIMIT
           (\<lambda>s. sub_problem_final s) cx)"

definition list_submissions_with_type_problem_final_below_id ::
  "web_env \<Rightarrow> id \<Rightarrow> web_context \<Rightarrow> outcome" where
  "list_submissions_with_type_problem_final_below_id env sid cx =
     (let caps = list_submissions_caps (cx_session cx)
      in if \<not> sl_query_with_type_problem_final caps then Inr (response_403 [] cx)
         else submissions_do_list env submissions_NEXT_QUERY_LIMIT
           (\<lambda>s. sub_problem_final s \<and> sub_id s < sid) cx)"

definition list_submissions_with_type_final ::
  "web_env \<Rightarrow> web_context \<Rightarrow> outcome" where
  "list_submissions_with_type_final env cx =
     (let caps = list_submissions_caps (cx_session cx)
      in if \<not> sl_query_with_type_final caps then Inr (response_403 [] cx)
         else submissions_do_list env submissions_FIRST_QUERY_LIMIT
           (\<lambda>s. sub_cp_final s \<or> sub_problem_final s) cx)"

definition list_submissions_with_type_final_below_id ::
  "web_env \<Rightarrow> id \<Rightarrow> web_context \<Rightarrow> outcome" where
  "list_submissions_with_type_final_below_id env sid cx =
     (let caps = list_submissions_caps (cx_session cx)
      in if \<not> sl_query_with_type_final caps then Inr (response_403 [] cx)
         else submissions_do_list env submissions_NEXT_QUERY_LIMIT
           (\<lambda>s. (sub_cp_final s \<or> sub_problem_final s) \<and> sub_id s < sid) cx)"

definition list_submissions_with_type_ignored ::
  "web_env \<Rightarrow> web_context \<Rightarrow> outcome" where
  "list_submissions_with_type_ignored env cx =
     (let caps = list_submissions_caps (cx_session cx)
      in if \<not> sl_query_with_type_ignored caps then Inr (response_403 [] cx)
         else submissions_do_list env submissions_FIRST_QUERY_LIMIT
           (\<lambda>s. sub_type s = Sub_IGNORED) cx)"

definition list_submissions_with_type_ignored_below_id ::
  "web_env \<Rightarrow> id \<Rightarrow> web_context \<Rightarrow> outcome" where
  "list_submissions_with_type_ignored_below_id env sid cx =
     (let caps = list_submissions_caps (cx_session cx)
      in if \<not> sl_query_with_type_ignored caps then Inr (response_403 [] cx)
         else submissions_do_list env submissions_NEXT_QUERY_LIMIT
           (\<lambda>s. sub_type s = Sub_IGNORED \<and> sub_id s < sid) cx)"

definition list_submissions_with_type_problem_solution ::
  "web_env \<Rightarrow> web_context \<Rightarrow> outcome" where
  "list_submissions_with_type_problem_solution env cx =
     (let caps = list_submissions_caps (cx_session cx)
      in if \<not> sl_query_with_type_problem_solution caps then Inr (response_403 [] cx)
         else submissions_do_list env submissions_FIRST_QUERY_LIMIT
           (\<lambda>s. sub_type s = Sub_PROBLEM_SOLUTION) cx)"

definition list_submissions_with_type_problem_solution_below_id ::
  "web_env \<Rightarrow> id \<Rightarrow> web_context \<Rightarrow> outcome" where
  "list_submissions_with_type_problem_solution_below_id env sid cx =
     (let caps = list_submissions_caps (cx_session cx)
      in if \<not> sl_query_with_type_problem_solution caps then Inr (response_403 [] cx)
         else submissions_do_list env submissions_NEXT_QUERY_LIMIT
           (\<lambda>s. sub_type s = Sub_PROBLEM_SOLUTION \<and> sub_id s < sid) cx)"

definition list_submissions_with_status_judge_error ::
  "web_env \<Rightarrow> web_context \<Rightarrow> outcome" where
  "list_submissions_with_status_judge_error env cx =
     (let caps = list_submissions_caps (cx_session cx)
      in if \<not> sl_query_with_status_judge_error caps then Inr (response_403 [] cx)
         else submissions_do_list env submissions_FIRST_QUERY_LIMIT
           (\<lambda>s. sub_full_status s = Sub_JUDGE_ERROR) cx)"

definition list_submissions_with_status_judge_error_below_id ::
  "web_env \<Rightarrow> id \<Rightarrow> web_context \<Rightarrow> outcome" where
  "list_submissions_with_status_judge_error_below_id env sid cx =
     (let caps = list_submissions_caps (cx_session cx)
      in if \<not> sl_query_with_status_judge_error caps then Inr (response_403 [] cx)
         else submissions_do_list env submissions_NEXT_QUERY_LIMIT
           (\<lambda>s. sub_full_status s = Sub_JUDGE_ERROR \<and> sub_id s < sid) cx)"

definition list_user_submissions ::
  "web_env \<Rightarrow> id \<Rightarrow> web_context \<Rightarrow> outcome" where
  "list_user_submissions env uid cx =
     (let caps = list_user_submissions_caps (cx_session cx) uid
      in if \<not> usl_query_all caps then Inr (response_403 [] cx)
         else submissions_do_list env submissions_FIRST_QUERY_LIMIT
           (\<lambda>s. sub_user_id s = Some uid) cx)"

definition list_user_submissions_below_id ::
  "web_env \<Rightarrow> id \<Rightarrow> id \<Rightarrow> web_context \<Rightarrow> outcome" where
  "list_user_submissions_below_id env uid sid cx =
     (let caps = list_user_submissions_caps (cx_session cx) uid
      in if \<not> usl_query_all caps then Inr (response_403 [] cx)
         else submissions_do_list env submissions_NEXT_QUERY_LIMIT
           (\<lambda>s. sub_user_id s = Some uid \<and> sub_id s < sid) cx)"

definition list_user_submissions_with_type_contest_problem_final ::
  "web_env \<Rightarrow> id \<Rightarrow> web_context \<Rightarrow> outcome" where
  "list_user_submissions_with_type_contest_problem_final env uid cx =
     (let caps = list_user_submissions_caps (cx_session cx) uid
      in if \<not> usl_query_with_type_contest_problem_final caps then Inr (response_403 [] cx)
         else submissions_do_list env submissions_FIRST_QUERY_LIMIT
           (\<lambda>s. sub_user_id s = Some uid \<and> sub_cp_final s) cx)"

definition list_user_submissions_with_type_contest_problem_final_below_id ::
  "web_env \<Rightarrow> id \<Rightarrow> id \<Rightarrow> web_context \<Rightarrow> outcome" where
  "list_user_submissions_with_type_contest_problem_final_below_id env uid sid cx =
     (let caps = list_user_submissions_caps (cx_session cx) uid
      in if \<not> usl_query_with_type_contest_problem_final caps then Inr (response_403 [] cx)
         else submissions_do_list env submissions_NEXT_QUERY_LIMIT
           (\<lambda>s. sub_user_id s = Some uid \<and> sub_cp_final s \<and> sub_id s < sid) cx)"

definition list_user_submissions_with_type_problem_final ::
  "web_env \<Rightarrow> id \<Rightarrow> web_context \<Rightarrow> outcome" where
  "list_user_submissions_with_type_problem_final env uid cx =
     (let caps = list_user_submissions_caps (cx_session cx) uid
      in if \<not> usl_query_with_type_problem_final caps then Inr (response_403 [] cx)
         else submissions_do_list env submissions_FIRST_QUERY_LIMIT
           (\<lambda>s. sub_user_id s = Some uid \<and> sub_problem_final s) cx)"

definition list_user_submissions_with_type_problem_final_below_id ::
  "web_env \<Rightarrow> id \<Rightarrow> id \<Rightarrow> web_context \<Rightarrow> outcome" where
  "list_user_submissions_with_type_problem_final_below_id env uid sid cx =
     (let caps = list_user_submissions_caps (cx_session cx) uid
      in if \<not> usl_query_with_type_problem_final caps then Inr (response_403 [] cx)
         else submissions_do_list env submissions_NEXT_QUERY_LIMIT
           (\<lambda>s. sub_user_id s = Some uid \<and> sub_problem_final s \<and> sub_id s < sid) cx)"

definition list_user_submissions_with_type_final ::
  "web_env \<Rightarrow> id \<Rightarrow> web_context \<Rightarrow> outcome" where
  "list_user_submissions_with_type_final env uid cx =
     (let caps = list_user_submissions_caps (cx_session cx) uid
      in if \<not> usl_query_with_type_final caps then Inr (response_403 [] cx)
         else submissions_do_list env submissions_FIRST_QUERY_LIMIT
           (\<lambda>s. sub_user_id s = Some uid \<and> (sub_cp_final s \<or> sub_problem_final s)) cx)"

definition list_user_submissions_with_type_final_below_id ::
  "web_env \<Rightarrow> id \<Rightarrow> id \<Rightarrow> web_context \<Rightarrow> outcome" where
  "list_user_submissions_with_type_final_below_id env uid sid cx =
     (let caps = list_user_submissions_caps (cx_session cx) uid
      in if \<not> usl_query_with_type_final caps then Inr (response_403 [] cx)
         else submissions_do_list env submissions_NEXT_QUERY_LIMIT
           (\<lambda>s. sub_user_id s = Some uid \<and> (sub_cp_final s \<or> sub_problem_final s) \<and>
             sub_id s < sid) cx)"

definition list_user_submissions_with_type_ignored ::
  "web_env \<Rightarrow> id \<Rightarrow> web_context \<Rightarrow> outcome" where
  "list_user_submissions_with_type_ignored env uid cx =
     (let caps = list_user_submissions_caps (cx_session cx) uid
      in if \<not> usl_query_with_type_ignored caps then Inr (response_403 [] cx)
         else submissions_do_list env submissions_FIRST_QUERY_LIMIT
           (\<lambda>s. sub_user_id s = Some uid \<and> sub_type s = Sub_IGNORED) cx)"

definition list_user_submissions_with_type_ignored_below_id ::
  "web_env \<Rightarrow> id \<Rightarrow> id \<Rightarrow> web_context \<Rightarrow> outcome" where
  "list_user_submissions_with_type_ignored_below_id env uid sid cx =
     (let caps = list_user_submissions_caps (cx_session cx) uid
      in if \<not> usl_query_with_type_ignored caps then Inr (response_403 [] cx)
         else submissions_do_list env submissions_NEXT_QUERY_LIMIT
           (\<lambda>s. sub_user_id s = Some uid \<and> sub_type s = Sub_IGNORED \<and> sub_id s < sid) cx)"

definition list_problem_submissions ::
  "web_env \<Rightarrow> id \<Rightarrow> web_context \<Rightarrow> outcome" where
  "list_problem_submissions env pid cx =
     (let caps = list_problem_submissions_caps (cx_session cx) (Some pid)
      in if \<not> sl_query_all caps then Inr (response_403 [] cx)
         else submissions_do_list env submissions_FIRST_QUERY_LIMIT
           (\<lambda>s. sub_problem_id s = pid) cx)"

definition list_problem_submissions_below_id ::
  "web_env \<Rightarrow> id \<Rightarrow> id \<Rightarrow> web_context \<Rightarrow> outcome" where
  "list_problem_submissions_below_id env pid sid cx =
     (let caps = list_problem_submissions_caps (cx_session cx) (Some pid)
      in if \<not> sl_query_all caps then Inr (response_403 [] cx)
         else submissions_do_list env submissions_NEXT_QUERY_LIMIT
           (\<lambda>s. sub_problem_id s = pid \<and> sub_id s < sid) cx)"

definition list_problem_submissions_with_type_contest_problem_final ::
  "web_env \<Rightarrow> id \<Rightarrow> web_context \<Rightarrow> outcome" where
  "list_problem_submissions_with_type_contest_problem_final env pid cx =
     (let caps = list_problem_submissions_caps (cx_session cx) (Some pid)
      in if \<not> sl_query_with_type_contest_problem_final caps then Inr (response_403 [] cx)
         else submissions_do_list env submissions_FIRST_QUERY_LIMIT
           (\<lambda>s. sub_problem_id s = pid \<and> sub_cp_final s) cx)"

definition list_problem_submissions_with_type_contest_problem_final_below_id ::
  "web_env \<Rightarrow> id \<Rightarrow> id \<Rightarrow> web_context \<Rightarrow> outcome" where
  "list_problem_submissions_with_type_contest_problem_final_below_id env pid sid cx =
     (let caps = list_problem_submissions_caps (cx_session cx) (Some pid)
      in if \<not> sl_query_with_type_contest_problem_final caps then Inr (response_403 [] cx)
         else submissions_do_list env submissions_NEXT_QUERY_LIMIT
           (\<lambda>s. sub_problem_id s = pid \<and> sub_cp_final s \<and> sub_id s < sid) cx)"

definition list_problem_submissions_with_type_problem_final ::
  "web_env \<Rightarrow> id \<Rightarrow> web_context \<Rightarrow> outcome" where
  "list_problem_submissions_with_type_problem_final env pid cx =
     (let caps = list_problem_submissions_caps (cx_session cx) (Some pid)
      in if \<not> sl_query_with_type_problem_final caps then Inr (response_403 [] cx)
         else submissions_do_list env submissions_FIRST_QUERY_LIMIT
           (\<lambda>s. sub_problem_id s = pid \<and> sub_problem_final s) cx)"

definition list_problem_submissions_with_type_problem_final_below_id ::
  "web_env \<Rightarrow> id \<Rightarrow> id \<Rightarrow> web_context \<Rightarrow> outcome" where
  "list_problem_submissions_with_type_problem_final_below_id env pid sid cx =
     (let caps = list_problem_submissions_caps (cx_session cx) (Some pid)
      in if \<not> sl_query_with_type_problem_final caps then Inr (response_403 [] cx)
         else submissions_do_list env submissions_NEXT_QUERY_LIMIT
           (\<lambda>s. sub_problem_id s = pid \<and> sub_problem_final s \<and> sub_id s < sid) cx)"

definition list_problem_submissions_with_type_final ::
  "web_env \<Rightarrow> id \<Rightarrow> web_context \<Rightarrow> outcome" where
  "list_problem_submissions_with_type_final env pid cx =
     (let caps = list_problem_submissions_caps (cx_session cx) (Some pid)
      in if \<not> sl_query_with_type_final caps then Inr (response_403 [] cx)
         else submissions_do_list env submissions_FIRST_QUERY_LIMIT
           (\<lambda>s. sub_problem_id s = pid \<and> (sub_cp_final s \<or> sub_problem_final s)) cx)"

definition list_problem_submissions_with_type_final_below_id ::
  "web_env \<Rightarrow> id \<Rightarrow> id \<Rightarrow> web_context \<Rightarrow> outcome" where
  "list_problem_submissions_with_type_final_below_id env pid sid cx =
     (let caps = list_problem_submissions_caps (cx_session cx) (Some pid)
      in if \<not> sl_query_with_type_final caps then Inr (response_403 [] cx)
         else submissions_do_list env submissions_NEXT_QUERY_LIMIT
           (\<lambda>s. sub_problem_id s = pid \<and> (sub_cp_final s \<or> sub_problem_final s) \<and>
             sub_id s < sid) cx)"

definition list_problem_submissions_with_type_ignored ::
  "web_env \<Rightarrow> id \<Rightarrow> web_context \<Rightarrow> outcome" where
  "list_problem_submissions_with_type_ignored env pid cx =
     (let caps = list_problem_submissions_caps (cx_session cx) (Some pid)
      in if \<not> sl_query_with_type_ignored caps then Inr (response_403 [] cx)
         else submissions_do_list env submissions_FIRST_QUERY_LIMIT
           (\<lambda>s. sub_problem_id s = pid \<and> sub_type s = Sub_IGNORED) cx)"

definition list_problem_submissions_with_type_ignored_below_id ::
  "web_env \<Rightarrow> id \<Rightarrow> id \<Rightarrow> web_context \<Rightarrow> outcome" where
  "list_problem_submissions_with_type_ignored_below_id env pid sid cx =
     (let caps = list_problem_submissions_caps (cx_session cx) (Some pid)
      in if \<not> sl_query_with_type_ignored caps then Inr (response_403 [] cx)
         else submissions_do_list env submissions_NEXT_QUERY_LIMIT
           (\<lambda>s. sub_problem_id s = pid \<and> sub_type s = Sub_IGNORED \<and> sub_id s < sid) cx)"

definition list_problem_submissions_with_type_problem_solution ::
  "web_env \<Rightarrow> id \<Rightarrow> web_context \<Rightarrow> outcome" where
  "list_problem_submissions_with_type_problem_solution env pid cx =
     (let caps = list_problem_submissions_caps (cx_session cx) (Some pid)
      in if \<not> sl_query_with_type_problem_solution caps then Inr (response_403 [] cx)
         else submissions_do_list env submissions_FIRST_QUERY_LIMIT
           (\<lambda>s. sub_problem_id s = pid \<and> sub_type s = Sub_PROBLEM_SOLUTION) cx)"

definition list_problem_submissions_with_type_problem_solution_below_id ::
  "web_env \<Rightarrow> id \<Rightarrow> id \<Rightarrow> web_context \<Rightarrow> outcome" where
  "list_problem_submissions_with_type_problem_solution_below_id env pid sid cx =
     (let caps = list_problem_submissions_caps (cx_session cx) (Some pid)
      in if \<not> sl_query_with_type_problem_solution caps then Inr (response_403 [] cx)
         else submissions_do_list env submissions_NEXT_QUERY_LIMIT
           (\<lambda>s. sub_problem_id s = pid \<and> sub_type s = Sub_PROBLEM_SOLUTION \<and>
             sub_id s < sid) cx)"

definition list_problem_and_user_submissions ::
  "web_env \<Rightarrow> id \<Rightarrow> id \<Rightarrow> web_context \<Rightarrow> outcome" where
  "list_problem_and_user_submissions env pid uid cx =
     (case get_problem_info_for_capabilities cx pid of
        None \<Rightarrow> Inr (response_404 cx)
      | Some (vis, owner) \<Rightarrow>
     (let caps = list_problem_and_user_submissions_caps (cx_session cx) vis owner uid
      in if \<not> usl_query_all caps then Inr (response_403 [] cx)
         else submissions_do_list env submissions_FIRST_QUERY_LIMIT
           (\<lambda>s. sub_problem_id s = pid \<and> sub_user_id s = Some uid) cx))"

definition list_problem_and_user_submissions_below_id ::
  "web_env \<Rightarrow> id \<Rightarrow> id \<Rightarrow> id \<Rightarrow> web_context \<Rightarrow> outcome" where
  "list_problem_and_user_submissions_below_id env pid uid sid cx =
     (case get_problem_info_for_capabilities cx pid of
        None \<Rightarrow> Inr (response_404 cx)
      | Some (vis, owner) \<Rightarrow>
     (let caps = list_problem_and_user_submissions_caps (cx_session cx) vis owner uid
      in if \<not> usl_query_all caps then Inr (response_403 [] cx)
         else submissions_do_list env submissions_NEXT_QUERY_LIMIT
           (\<lambda>s. sub_problem_id s = pid \<and> sub_user_id s = Some uid \<and> sub_id s < sid) cx))"

definition list_problem_and_user_submissions_with_type_contest_problem_final ::
  "web_env \<Rightarrow> id \<Rightarrow> id \<Rightarrow> web_context \<Rightarrow> outcome" where
  "list_problem_and_user_submissions_with_type_contest_problem_final env pid uid cx =
     (case get_problem_info_for_capabilities cx pid of
        None \<Rightarrow> Inr (response_404 cx)
      | Some (vis, owner) \<Rightarrow>
     (let caps = list_problem_and_user_submissions_caps (cx_session cx) vis owner uid
      in if \<not> usl_query_with_type_contest_problem_final caps then Inr (response_403 [] cx)
         else submissions_do_list env submissions_FIRST_QUERY_LIMIT
           (\<lambda>s. sub_problem_id s = pid \<and> sub_user_id s = Some uid \<and> sub_cp_final s) cx))"

definition list_problem_and_user_submissions_with_type_contest_problem_final_below_id ::
  "web_env \<Rightarrow> id \<Rightarrow> id \<Rightarrow> id \<Rightarrow> web_context \<Rightarrow> outcome" where
  "list_problem_and_user_submissions_with_type_contest_problem_final_below_id env pid uid sid cx =
     (case get_problem_info_for_capabilities cx pid of
        None \<Rightarrow> Inr (response_404 cx)
      | Some (vis, owner) \<Rightarrow>
     (let caps = list_problem_and_user_submissions_caps (cx_session cx) vis owner uid
      in if \<not> usl_query_with_type_contest_problem_final caps then Inr (response_403 [] cx)
         else submissions_do_list env submissions_NEXT_QUERY_LIMIT
           (\<lambda>s. sub_problem_id s = pid \<and> sub_user_id s = Some uid \<and> sub_cp_final s \<and>
             sub_id s < sid) cx))"

definition list_problem_and_user_submissions_with_type_problem_final ::
  "web_env \<Rightarrow> id \<Rightarrow> id \<Rightarrow> web_context \<Rightarrow> outcome" where
  "list_problem_and_user_submissions_with_type_problem_final env pid uid cx =
     (case get_problem_info_for_capabilities cx pid of
        None \<Rightarrow> Inr (response_404 cx)
      | Some (vis, owner) \<Rightarrow>
     (let caps = list_problem_and_user_submissions_caps (cx_session cx) vis owner uid
      in if \<not> usl_query_with_type_problem_final caps then Inr (response_403 [] cx)
         else submissions_do_list env submissions_FIRST_QUERY_LIMIT
           (\<lambda>s. sub_problem_id s = pid \<and> sub_user_id s = Some uid \<and> sub_problem_final s) cx))"

definition list_problem_and_user_submissions_with_type_problem_final_below_id ::
  "web_env \<Rightarrow> id \<Rightarrow> id \<Rightarrow> id \<Rightarrow> web_context \<Rightarrow> outcome" where
  "list_problem_and_user_submissions_with_type_problem_final_below_id env pid uid sid cx =
     (case get_problem_info_for_capabilities cx pid of
        None \<Rightarrow> Inr (response_404 cx)
      | Some (vis, owner) \<Rightarrow>
     (let caps = list_problem_and_user_submissions_caps (cx_session cx) vis owner uid
      in if \<not> usl_query_with_type_problem_final caps then Inr (response_403 [] cx)
         else submissions_do_list env submissions_NEXT_QUERY_LIMIT
           (\<lambda>s. sub_problem_id s = pid \<and> sub_user_id s = Some uid \<and>
             sub_problem_final s \<and> sub_id s < sid) cx))"

definition list_problem_and_user_submissions_with_type_final ::
  "web_env \<Rightarrow> id \<Rightarrow> id \<Rightarrow> web_context \<Rightarrow> outcome" where
  "list_problem_and_user_submissions_with_type_final env pid uid cx =
     (case get_problem_info_for_capabilities cx pid of
        None \<Rightarrow> Inr (response_404 cx)
      | Some (vis, owner) \<Rightarrow>
     (let caps = list_problem_and_user_submissions_caps (cx_session cx) vis owner uid
      in if \<not> usl_query_with_type_final caps then Inr (response_403 [] cx)
         else submissions_do_list env submissions_FIRST_QUERY_LIMIT
           (\<lambda>s. sub_problem_id s = pid \<and> sub_user_id s = Some uid \<and>
             (sub_cp_final s \<or> sub_problem_final s)) cx))"

definition list_problem_and_user_submissions_with_type_final_below_id ::
  "web_env \<Rightarrow> id \<Rightarrow> id \<Rightarrow> id \<Rightarrow> web_context \<Rightarrow> outcome" where
  "list_problem_and_user_submissions_with_type_final_below_id env pid uid sid cx =
     (case get_problem_info_for_capabilities cx pid of
        None \<Rightarrow> Inr (response_404 cx)
      | Some (vis, owner) \<Rightarrow>
     (let caps = list_problem_and_user_submissions_caps (cx_session cx) vis owner uid
      in if \<not> usl_query_with_type_final caps then Inr (response_403 [] cx)
         else submissions_do_list env submissions_NEXT_QUERY_LIMIT
           (\<lambda>s. sub_problem_id s = pid \<and> sub_user_id s = Some uid \<and>
             (sub_cp_final s \<or> sub_problem_final s) \<and> sub_id s < sid) cx))"

definition list_problem_and_user_submissions_with_type_ignored ::
  "web_env \<Rightarrow> id \<Rightarrow> id \<Rightarrow> web_context \<Rightarrow> outcome" where
  "list_problem_and_user_submissions_with_type_ignored env pid uid cx =
     (case get_problem_info_for_capabilities cx pid of
        None \<Rightarrow> Inr (response_404 cx)
      | Some (vis, owner) \<Rightarrow>
     (let caps = list_problem_and_user_submissions_caps (cx_session cx) vis owner uid
      in if \<not> usl_query_with_type_ignored caps then Inr (response_403 [] cx)
         else submissions_do_list env submissions_FIRST_QUERY_LIMIT
           (\<lambda>s. sub_problem_id s = pid \<and> sub_user_id s = Some uid \<and>
             sub_type s = Sub_IGNORED) cx))"

definition list_problem_and_user_submissions_with_type_ignored_below_id ::
  "web_env \<Rightarrow> id \<Rightarrow> id \<Rightarrow> id \<Rightarrow> web_context \<Rightarrow> outcome" where
  "list_problem_and_user_submissions_with_type_ignored_below_id env pid uid sid cx =
     (case get_problem_info_for_capabilities cx pid of
        None \<Rightarrow> Inr (response_404 cx)
      | Some (vis, owner) \<Rightarrow>
     (let caps = list_problem_and_user_submissions_caps (cx_session cx) vis owner uid
      in if \<not> usl_query_with_type_ignored caps then Inr (response_403 [] cx)
         else submissions_do_list env submissions_NEXT_QUERY_LIMIT
           (\<lambda>s. sub_problem_id s = pid \<and> sub_user_id s = Some uid \<and>
             sub_type s = Sub_IGNORED \<and> sub_id s < sid) cx))"

definition list_contest_submissions ::
  "web_env \<Rightarrow> id \<Rightarrow> web_context \<Rightarrow> outcome" where
  "list_contest_submissions env cid cx =
     (let mode = get_contest_info_for_capabilities cx cid in
     (let caps = list_contest_submissions_caps (cx_session cx) mode
      in if \<not> csl_query_all caps then Inr (response_403 [] cx)
         else submissions_do_list env submissions_FIRST_QUERY_LIMIT
           (\<lambda>s. sub_contest_id s = Some cid) cx))"

definition list_contest_submissions_below_id ::
  "web_env \<Rightarrow> id \<Rightarrow> id \<Rightarrow> web_context \<Rightarrow> outcome" where
  "list_contest_submissions_below_id env cid sid cx =
     (let mode = get_contest_info_for_capabilities cx cid in
     (let caps = list_contest_submissions_caps (cx_session cx) mode
      in if \<not> csl_query_all caps then Inr (response_403 [] cx)
         else submissions_do_list env submissions_NEXT_QUERY_LIMIT
           (\<lambda>s. sub_contest_id s = Some cid \<and> sub_id s < sid) cx))"

definition list_contest_submissions_with_type_contest_problem_final ::
  "web_env \<Rightarrow> id \<Rightarrow> web_context \<Rightarrow> outcome" where
  "list_contest_submissions_with_type_contest_problem_final env cid cx =
     (let mode = get_contest_info_for_capabilities cx cid in
     (let caps = list_contest_submissions_caps (cx_session cx) mode
      in if \<not> csl_query_with_type_contest_problem_final caps then Inr (response_403 [] cx)
         else submissions_do_list env submissions_FIRST_QUERY_LIMIT
           (\<lambda>s. sub_contest_id s = Some cid \<and> sub_cp_final s) cx))"

definition list_contest_submissions_with_type_contest_problem_final_below_id ::
  "web_env \<Rightarrow> id \<Rightarrow> id \<Rightarrow> web_context \<Rightarrow> outcome" where
  "list_contest_submissions_with_type_contest_problem_final_below_id env cid sid cx =
     (let mode = get_contest_info_for_capabilities cx cid in
     (let caps = list_contest_submissions_caps (cx_session cx) mode
      in if \<not> csl_query_with_type_contest_problem_final caps then Inr (response_403 [] cx)
         else submissions_do_list env submissions_NEXT_QUERY_LIMIT
           (\<lambda>s. sub_contest_id s = Some cid \<and> sub_cp_final s \<and> sub_id s < sid) cx))"

definition list_contest_submissions_with_type_ignored ::
  "web_env \<Rightarrow> id \<Rightarrow> web_context \<Rightarrow> outcome" where
  "list_contest_submissions_with_type_ignored env cid cx =
     (let mode = get_contest_info_for_capabilities cx cid in
     (let caps = list_contest_submissions_caps (cx_session cx) mode
      in if \<not> csl_query_with_type_ignored caps then Inr (response_403 [] cx)
         else submissions_do_list env submissions_FIRST_QUERY_LIMIT
           (\<lambda>s. sub_contest_id s = Some cid \<and> sub_type s = Sub_IGNORED) cx))"

definition list_contest_submissions_with_type_ignored_below_id ::
  "web_env \<Rightarrow> id \<Rightarrow> id \<Rightarrow> web_context \<Rightarrow> outcome" where
  "list_contest_submissions_with_type_ignored_below_id env cid sid cx =
     (let mode = get_contest_info_for_capabilities cx cid in
     (let caps = list_contest_submissions_caps (cx_session cx) mode
      in if \<not> csl_query_with_type_ignored caps then Inr (response_403 [] cx)
         else submissions_do_list env submissions_NEXT_QUERY_LIMIT
           (\<lambda>s. sub_contest_id s = Some cid \<and> sub_type s = Sub_IGNORED \<and> sub_id s < sid) cx))"

definition list_contest_and_user_submissions ::
  "web_env \<Rightarrow> id \<Rightarrow> id \<Rightarrow> web_context \<Rightarrow> outcome" where
  "list_contest_and_user_submissions env cid uid cx =
     (let mode = get_contest_info_for_capabilities cx cid in
     (let caps = list_contest_and_user_submissions_caps (cx_session cx) mode uid
      in if \<not> cusl_query_all caps then Inr (response_403 [] cx)
         else submissions_do_list env submissions_FIRST_QUERY_LIMIT
           (\<lambda>s. sub_contest_id s = Some cid \<and> sub_user_id s = Some uid) cx))"

definition list_contest_and_user_submissions_below_id ::
  "web_env \<Rightarrow> id \<Rightarrow> id \<Rightarrow> id \<Rightarrow> web_context \<Rightarrow> outcome" where
  "list_contest_and_user_submissions_below_id env cid uid sid cx =
     (let mode = get_contest_info_for_capabilities cx cid in
     (let caps = list_contest_and_user_submissions_caps (cx_session cx) mode uid
      in if \<not> cusl_query_all caps then Inr (response_403 [] cx)
         else submissions_do_list env submissions_NEXT_QUERY_LIMIT
           (\<lambda>s. sub_contest_id s = Some cid \<and> sub_user_id s = Some uid \<and> sub_id s < sid) cx))"

definition list_contest_and_user_submissions_with_type_contest_problem_final ::
  "web_env \<Rightarrow> id \<Rightarrow> id \<Rightarrow> web_context \<Rightarrow> outcome" where
  "list_contest_and_user_submissions_with_type_contest_problem_final env cid uid cx =
     (let mode = get_contest_info_for_capabilities cx cid in
     (let caps = list_contest_and_user_submissions_caps (cx_session cx) mode uid
      in if \<not> cusl_query_with_type_contest_problem_final caps then Inr (response_403 [] cx)
         else if cusl_query_with_type_contest_problem_final_always_show_full_results caps
         then submissions_do_list env submissions_FIRST_QUERY_LIMIT
           (\<lambda>s. sub_contest_id s = Some cid \<and> sub_user_id s = Some uid \<and> sub_cp_final s) cx
         else submissions_do_list env submissions_FIRST_QUERY_LIMIT
           (\<lambda>s. sub_contest_id s = Some cid \<and> sub_user_id s = Some uid \<and>
           (sub_cp_final s \<or> sub_cp_initial_final s) \<and>
           (if full_results_reached (now_of env) (joined_full_results (cx_db cx) s) then sub_cp_final s else sub_cp_initial_final s)) cx))"

definition list_contest_and_user_submissions_with_type_contest_problem_final_below_id ::
  "web_env \<Rightarrow> id \<Rightarrow> id \<Rightarrow> id \<Rightarrow> web_context \<Rightarrow> outcome" where
  "list_contest_and_user_submissions_with_type_contest_problem_final_below_id env cid uid sid cx =
     (let mode = get_contest_info_for_capabilities cx cid in
     (let caps = list_contest_and_user_submissions_caps (cx_session cx) mode uid
      in if \<not> cusl_query_with_type_contest_problem_final caps then Inr (response_403 [] cx)
         else if cusl_query_with_type_contest_problem_final_always_show_full_results caps
         then submissions_do_list env submissions_NEXT_QUERY_LIMIT
           (\<lambda>s. sub_contest_id s = Some cid \<and> sub_user_id s = Some uid \<and>
             sub_cp_final s \<and> sub_id s < sid) cx
         else submissions_do_list env submissions_NEXT_QUERY_LIMIT
           (\<lambda>s. sub_contest_id s = Some cid \<and> sub_user_id s = Some uid \<and>
           (sub_cp_final s \<or> sub_cp_initial_final s) \<and>
           (if full_results_reached (now_of env) (joined_full_results (cx_db cx) s) then sub_cp_final s else sub_cp_initial_final s) \<and> sub_id s < sid) cx))"

definition list_contest_and_user_submissions_with_type_ignored ::
  "web_env \<Rightarrow> id \<Rightarrow> id \<Rightarrow> web_context \<Rightarrow> outcome" where
  "list_contest_and_user_submissions_with_type_ignored env cid uid cx =
     (let mode = get_contest_info_for_capabilities cx cid in
     (let caps = list_contest_and_user_submissions_caps (cx_session cx) mode uid
      in if \<not> cusl_query_with_type_ignored caps then Inr (response_403 [] cx)
         else submissions_do_list env submissions_FIRST_QUERY_LIMIT
           (\<lambda>s. sub_contest_id s = Some cid \<and> sub_user_id s = Some uid \<and>
             sub_type s = Sub_IGNORED) cx))"

definition list_contest_and_user_submissions_with_type_ignored_below_id ::
  "web_env \<Rightarrow> id \<Rightarrow> id \<Rightarrow> id \<Rightarrow> web_context \<Rightarrow> outcome" where
  "list_contest_and_user_submissions_with_type_ignored_below_id env cid uid sid cx =
     (let mode = get_contest_info_for_capabilities cx cid in
     (let caps = list_contest_and_user_submissions_caps (cx_session cx) mode uid
      in if \<not> cusl_query_with_type_ignored caps then Inr (response_403 [] cx)
         else submissions_do_list env submissions_NEXT_QUERY_LIMIT
           (\<lambda>s. sub_contest_id s = Some cid \<and> sub_user_id s = Some uid \<and>
             sub_type s = Sub_IGNORED \<and> sub_id s < sid) cx))"

definition list_contest_round_submissions ::
  "web_env \<Rightarrow> id \<Rightarrow> web_context \<Rightarrow> outcome" where
  "list_contest_round_submissions env rid cx =
     (case get_contest_round_info_for_capabilities cx rid of
        None \<Rightarrow> Inr (response_404 cx)
      | Some (full_results, mode) \<Rightarrow>
     (let caps = list_contest_submissions_caps (cx_session cx) mode
      in if \<not> csl_query_all caps then Inr (response_403 [] cx)
         else submissions_do_list env submissions_FIRST_QUERY_LIMIT
           (\<lambda>s. sub_round_id s = Some rid) cx))"

definition list_contest_round_submissions_below_id ::
  "web_env \<Rightarrow> id \<Rightarrow> id \<Rightarrow> web_context \<Rightarrow> outcome" where
  "list_contest_round_submissions_below_id env rid sid cx =
     (case get_contest_round_info_for_capabilities cx rid of
        None \<Rightarrow> Inr (response_404 cx)
      | Some (full_results, mode) \<Rightarrow>
     (let caps = list_contest_submissions_caps (cx_session cx) mode
      in if \<not> csl_query_all caps then Inr (response_403 [] cx)
         else submissions_do_list env submissions_NEXT_QUERY_LIMIT
           (\<lambda>s. sub_round_id s = Some rid \<and> sub_id s < sid) cx))"

definition list_contest_round_submissions_with_type_contest_problem_final ::
  "web_env \<Rightarrow> id \<Rightarrow> web_context \<Rightarrow> outcome" where
  "list_contest_round_submissions_with_type_contest_problem_final env rid cx =
     (case get_contest_round_info_for_capabilities cx rid of
        None \<Rightarrow> Inr (response_404 cx)
      | Some (full_results, mode) \<Rightarrow>
     (let caps = list_contest_submissions_caps (cx_session cx) mode
      in if \<not> csl_query_with_type_contest_problem_final caps then Inr (response_403 [] cx)
         else submissions_do_list env submissions_FIRST_QUERY_LIMIT
           (\<lambda>s. sub_round_id s = Some rid \<and> sub_cp_final s) cx))"

definition list_contest_round_submissions_with_type_contest_problem_final_below_id ::
  "web_env \<Rightarrow> id \<Rightarrow> id \<Rightarrow> web_context \<Rightarrow> outcome" where
  "list_contest_round_submissions_with_type_contest_problem_final_below_id env rid sid cx =
     (case get_contest_round_info_for_capabilities cx rid of
        None \<Rightarrow> Inr (response_404 cx)
      | Some (full_results, mode) \<Rightarrow>
     (let caps = list_contest_submissions_caps (cx_session cx) mode
      in if \<not> csl_query_with_type_contest_problem_final caps then Inr (response_403 [] cx)
         else submissions_do_list env submissions_NEXT_QUERY_LIMIT
           (\<lambda>s. sub_round_id s = Some rid \<and> sub_cp_final s \<and> sub_id s < sid) cx))"

definition list_contest_round_submissions_with_type_ignored ::
  "web_env \<Rightarrow> id \<Rightarrow> web_context \<Rightarrow> outcome" where
  "list_contest_round_submissions_with_type_ignored env rid cx =
     (case get_contest_round_info_for_capabilities cx rid of
        None \<Rightarrow> Inr (response_404 cx)
      | Some (full_results, mode) \<Rightarrow>
     (let caps = list_contest_submissions_caps (cx_session cx) mode
      in if \<not> csl_query_with_type_ignored caps then Inr (response_403 [] cx)
         else submissions_do_list env submissions_FIRST_QUERY_LIMIT
           (\<lambda>s. sub_round_id s = Some rid \<and> sub_type s = Sub_IGNORED) cx))"

definition list_contest_round_submissions_with_type_ignored_below_id ::
  "web_env \<Rightarrow> id \<Rightarrow> id \<Rightarrow> web_context \<Rightarrow> outcome" where
  "list_contest_round_submissions_with_type_ignored_below_id env rid sid cx =
     (case get_contest_round_info_for_capabilities cx rid of
        None \<Rightarrow> Inr (response_404 cx)
      | Some (full_results, mode) \<Rightarrow>
     (let caps = list_contest_submissions_caps (cx_session cx) mode
      in if \<not> csl_query_with_type_ignored caps then Inr (response_403 [] cx)
         else submissions_do_list env submissions_NEXT_QUERY_LIMIT
           (\<lambda>s. sub_round_id s = Some rid \<and> sub_type s = Sub_IGNORED \<and> sub_id s < sid) cx))"

definition list_contest_round_and_user_submissions ::
  "web_env \<Rightarrow> id \<Rightarrow> id \<Rightarrow> web_context \<Rightarrow> outcome" where
  "list_contest_round_and_user_submissions env rid uid cx =
     (case get_contest_round_info_for_capabilities cx rid of
        None \<Rightarrow> Inr (response_404 cx)
      | Some (full_results, mode) \<Rightarrow>
     (let caps = list_contest_round_and_user_submissions_caps (cx_session cx) mode uid full_results (now_of env)
      in if \<not> crusl_query_all caps then Inr (response_403 [] cx)
         else submissions_do_list env submissions_FIRST_QUERY_LIMIT
           (\<lambda>s. sub_round_id s = Some rid \<and> sub_user_id s = Some uid) cx))"

definition list_contest_round_and_user_submissions_below_id ::
  "web_env \<Rightarrow> id \<Rightarrow> id \<Rightarrow> id \<Rightarrow> web_context \<Rightarrow> outcome" where
  "list_contest_round_and_user_submissions_below_id env rid uid sid cx =
     (case get_contest_round_info_for_capabilities cx rid of
        None \<Rightarrow> Inr (response_404 cx)
      | Some (full_results, mode) \<Rightarrow>
     (let caps = list_contest_round_and_user_submissions_caps (cx_session cx) mode uid full_results (now_of env)
      in if \<not> crusl_query_all caps then Inr (response_403 [] cx)
         else submissions_do_list env submissions_NEXT_QUERY_LIMIT
           (\<lambda>s. sub_round_id s = Some rid \<and> sub_user_id s = Some uid \<and> sub_id s < sid) cx))"

definition list_contest_round_and_user_submissions_with_type_contest_problem_final ::
  "web_env \<Rightarrow> id \<Rightarrow> id \<Rightarrow> web_context \<Rightarrow> outcome" where
  "list_contest_round_and_user_submissions_with_type_contest_problem_final env rid uid cx =
     (case get_contest_round_info_for_capabilities cx rid of
        None \<Rightarrow> Inr (response_404 cx)
      | Some (full_results, mode) \<Rightarrow>
     (let caps = list_contest_round_and_user_submissions_caps (cx_session cx) mode uid full_results (now_of env)
      in if \<not> crusl_query_with_type_contest_problem_final caps then Inr (response_403 [] cx)
         else submissions_do_list env submissions_FIRST_QUERY_LIMIT
           (\<lambda>s. sub_round_id s = Some rid \<and> sub_user_id s = Some uid \<and>
             (if crusl_query_with_type_contest_problem_final_show_full_instead_of_initial_results caps then sub_cp_final s else sub_cp_initial_final s)) cx))"

definition list_contest_round_and_user_submissions_with_type_contest_problem_final_below_id ::
  "web_env \<Rightarrow> id \<Rightarrow> id \<Rightarrow> id \<Rightarrow> web_context \<Rightarrow> outcome" where
  "list_contest_round_and_user_submissions_with_type_contest_problem_final_below_id env rid uid sid cx =
     (case get_contest_round_info_for_capabilities cx rid of
        None \<Rightarrow> Inr (response_404 cx)
      | Some (full_results, mode) \<Rightarrow>
     (let caps = list_contest_round_and_user_submissions_caps (cx_session cx) mode uid full_results (now_of env)
      in if \<not> crusl_query_with_type_contest_problem_final caps then Inr (response_403 [] cx)
         else submissions_do_list env submissions_NEXT_QUERY_LIMIT
           (\<lambda>s. sub_round_id s = Some rid \<and> sub_user_id s = Some uid \<and>
             (if crusl_query_with_type_contest_problem_final_show_full_instead_of_initial_results caps then sub_cp_final s else sub_cp_initial_final s) \<and>
             sub_id s < sid) cx))"

definition list_contest_round_and_user_submissions_with_type_ignored ::
  "web_env \<Rightarrow> id \<Rightarrow> id \<Rightarrow> web_context \<Rightarrow> outcome" where
  "list_contest_round_and_user_submissions_with_type_ignored env rid uid cx =
     (case get_contest_round_info_for_capabilities cx rid of
        None \<Rightarrow> Inr (response_404 cx)
      | Some (full_results, mode) \<Rightarrow>
     (let caps = list_contest_round_and_user_submissions_caps (cx_session cx) mode uid full_results (now_of env)
      in if \<not> crusl_query_with_type_ignored caps then Inr (response_403 [] cx)
         else submissions_do_list env submissions_FIRST_QUERY_LIMIT
           (\<lambda>s. sub_round_id s = Some rid \<and> sub_user_id s = Some uid \<and>
             sub_type s = Sub_IGNORED) cx))"

definition list_contest_round_and_user_submissions_with_type_ignored_below_id ::
  "web_env \<Rightarrow> id \<Rightarrow> id \<Rightarrow> id \<Rightarrow> web_context \<Rightarrow> outcome" where
  "list_contest_round_and_user_submissions_with_type_ignored_below_id env rid uid sid cx =
     (case get_contest_round_info_for_capabilities cx rid of
        None \<Rightarrow> Inr (response_404 cx)
      | Some (full_results, mode) \<Rightarrow>
     (let caps = list_contest_round_and_user_submissions_caps (cx_session cx) mode uid full_results (now_of env)
      in if \<not> crusl_query_with_type_ignored caps then Inr (response_403 [] cx)
         else submissions_do_list env submissions_NEXT_QUERY_LIMIT
           (\<lambda>s. sub_round_id s = Some rid \<and> sub_user_id s = Some uid \<and>
             sub_type s = Sub_IGNORED \<and> sub_id s < sid) cx))"

definition list_contest_problem_submissions ::
  "web_env \<Rightarrow> id \<Rightarrow> web_context \<Rightarrow> outcome" where
  "list_contest_problem_submissions env cpid cx =
     (case get_contest_problem_info_for_capabilities cx cpid of
        None \<Rightarrow> Inr (response_404 cx)
      | Some (full_results, mode) \<Rightarrow>
     (let caps = list_contest_submissions_caps (cx_session cx) mode
      in if \<not> csl_query_all caps then Inr (response_403 [] cx)
         else submissions_do_list env submissions_FIRST_QUERY_LIMIT
           (\<lambda>s. sub_cp_id s = Some cpid) cx))"

definition list_contest_problem_submissions_below_id ::
  "web_env \<Rightarrow> id \<Rightarrow> id \<Rightarrow> web_context \<Rightarrow> outcome" where
  "list_contest_problem_submissions_below_id env cpid sid cx =
     (case get_contest_problem_info_for_capabilities cx cpid of
        None \<Rightarrow> Inr (response_404 cx)
      | Some (full_results, mode) \<Rightarrow>
     (let caps = list_contest_submissions_caps (cx_session cx) mode
      in if \<not> csl_query_all caps then Inr (response_403 [] cx)
         else submissions_do_list env submissions_NEXT_QUERY_LIMIT
           (\<lambda>s. sub_cp_id s = Some cpid \<and> sub_id s < sid) cx))"

definition list_contest_problem_submissions_with_type_contest_problem_final ::
  "web_env \<Rightarrow> id \<Rightarrow> web_context \<Rightarrow> outcome" where
  "list_contest_problem_submissions_with_type_contest_problem_final env cpid cx =
     (case get_contest_problem_info_for_capabilities cx cpid of
        None \<Rightarrow> Inr (response_404 cx)
      | Some (full_results, mode) \<Rightarrow>
     (let caps = list_contest_submissions_caps (cx_session cx) mode
      in if \<not> csl_query_with_type_contest_problem_final caps then Inr (response_403 [] cx)
         else submissions_do_list env submissions_FIRST_QUERY_LIMIT
           (\<lambda>s. sub_cp_id s = Some cpid \<and> sub_cp_final s) cx))"

definition list_contest_problem_submissions_with_type_contest_problem_final_below_id ::
  "web_env \<Rightarrow> id \<Rightarrow> id \<Rightarrow> web_context \<Rightarrow> outcome" where
  "list_contest_problem_submissions_with_type_contest_problem_final_below_id env cpid sid cx =
     (case get_contest_problem_info_for_capabilities cx cpid of
        None \<Rightarrow> Inr (response_404 cx)
      | Some (full_results, mode) \<Rightarrow>
     (let caps = list_contest_submissions_caps (cx_session cx) mode
      in if \<not> csl_query_with_type_contest_problem_final caps then Inr (response_403 [] cx)
         else submissions_do_list env submissions_NEXT_QUERY_LIMIT
           (\<lambda>s. sub_cp_id s = Some cpid \<and> sub_cp_final s \<and> sub_id s < sid) cx))"

definition list_contest_problem_submissions_with_type_ignored ::
  "web_env \<Rightarrow> id \<Rightarrow> web_context \<Rightarrow> outcome" where
  "list_contest_problem_submissions_with_type_ignored env cpid cx =
     (case get_contest_problem_info_for_capabilities cx cpid of
        None \<Rightarrow> Inr (response_404 cx)
      | Some (full_results, mode) \<Rightarrow>
     (let caps = list_contest_submissions_caps (cx_session cx) mode
      in if \<not> csl_query_with_type_ignored caps then Inr (response_403 [] cx)
         else submissions_do_list env submissions_FIRST_QUERY_LIMIT
           (\<lambda>s. sub_cp_id s = Some cpid \<and> sub_type s = Sub_IGNORED) cx))"

definition list_contest_problem_submissions_with_type_ignored_below_id ::
  "web_env \<Rightarrow> id \<Rightarrow> id \<Rightarrow> web_context \<Rightarrow> outcome" where
  "list_contest_problem_submissions_with_type_ignored_below_id env cpid sid cx =
     (case get_contest_problem_info_for_capabilities cx cpid of
        None \<Rightarrow> Inr (response_404 cx)
      | Some (full_results, mode) \<Rightarrow>
     (let caps = list_contest_submissions_caps (cx_session cx) mode
      in if \<not> csl_query_with_type_ignored caps then Inr (response_403 [] cx)
         else submissions_do_list env submissions_NEXT_QUERY_LIMIT
           (\<lambda>s. sub_cp_id s = Some cpid \<and> sub_type s = Sub_IGNORED \<and> sub_id s < sid) cx))"

definition list_contest_problem_and_user_submissions ::
  "web_env \<Rightarrow> id \<Rightarrow> id \<Rightarrow> web_context \<Rightarrow> outcome" where
  "list_contest_problem_and_user_submissions env cpid uid cx =
     (case get_contest_problem_info_for_capabilities cx cpid of
        None \<Rightarrow> Inr (response_404 cx)
      | Some (full_results, mode) \<Rightarrow>
     (let caps = list_contest_round_and_user_submissions_caps (cx_session cx) mode uid full_results (now_of env)
      in if \<not> crusl_query_all caps then Inr (response_403 [] cx)
         else submissions_do_list env submissions_FIRST_QUERY_LIMIT
           (\<lambda>s. sub_cp_id s = Some cpid \<and> sub_user_id s = Some uid) cx))"

definition list_contest_problem_and_user_submissions_below_id ::
  "web_env \<Rightarrow> id \<Rightarrow> id \<Rightarrow> id \<Rightarrow> web_context \<Rightarrow> outcome" where
  "list_contest_problem_and_user_submissions_below_id env cpid uid sid cx =
     (case get_contest_problem_info_for_capabilities cx cpid of
        None \<Rightarrow> Inr (response_404 cx)
      | Some (full_results, mode) \<Rightarrow>
     (let caps = list_contest_round_and_user_submissions_caps (cx_session cx) mode uid full_results (now_of env)
      in if \<not> crusl_query_all caps then Inr (response_403 [] cx)
         else submissions_do_list env submissions_NEXT_QUERY_LIMIT
           (\<lambda>s. sub_cp_id s = Some cpid \<and> sub_user_id s = Some uid \<and> sub_id s < sid) cx))"

definition list_contest_problem_and_user_submissions_with_type_contest_problem_final ::
  "web_env \<Rightarrow> id \<Rightarrow> id \<Rightarrow> web_context \<Rightarrow> outcome" where
  "list_contest_problem_and_user_submissions_with_type_contest_problem_final env cpid uid cx =
     (case get_contest_problem_info_for_capabilities cx cpid of
        None \<Rightarrow> Inr (response_404 cx)
      | Some (full_results, mode) \<Rightarrow>
     (let caps = list_contest_round_and_user_submissions_caps (cx_session cx) mode uid full_results (now_of env)
      in if \<not> crusl_query_with_type_contest_problem_final caps then Inr (response_403 [] cx)
         else submissions_do_list env submissions_FIRST_QUERY_LIMIT
           (\<lambda>s. sub_cp_id s = Some cpid \<and> sub_user_id s = Some uid \<and>
             (if crusl_query_with_type_contest_problem_final_show_full_instead_of_initial_results caps then sub_cp_final s else sub_cp_initial_final s)) cx))"

definition list_contest_problem_and_user_submissions_with_type_ignored ::
  "web_env \<Rightarrow> id \<Rightarrow> id \<Rightarrow> web_context \<Rightarrow> outcome" where
  "list_contest_problem_and_user_submissions_with_type_ignored env cpid uid cx =
     (case get_contest_problem_info_for_capabilities cx cpid of
        None \<Rightarrow> Inr (response_404 cx)
      | Some (full_results, mode) \<Rightarrow>
     (let caps = list_contest_round_and_user_submissions_caps (cx_session cx) mode uid full_results (now_of env)
      in if \<not> crusl_query_with_type_ignored caps then Inr (response_403 [] cx)
         else submissions_do_list env submissions_FIRST_QUERY_LIMIT
           (\<lambda>s. sub_cp_id s = Some cpid \<and> sub_user_id s = Some uid \<and>
             sub_type s = Sub_IGNORED) cx))"

definition list_contest_problem_and_user_submissions_with_type_ignored_below_id ::
  "web_env \<Rightarrow> id \<Rightarrow> id \<Rightarrow> id \<Rightarrow> web_context \<Rightarrow> outcome" where
  "list_contest_problem_and_user_submissions_with_type_ignored_below_id env cpid uid sid cx =
     (case get_contest_problem_info_for_capabilities cx cpid of
        None \<Rightarrow> Inr (response_404 cx)
      | Some (full_results, mode) \<Rightarrow>
     (let caps = list_contest_round_and_user_submissions_caps (cx_session cx) mode uid full_results (now_of env)
      in if \<not> crusl_query_with_type_ignored caps then Inr (response_403 [] cx)
         else submissions_do_list env submissions_NEXT_QUERY_LIMIT
           (\<lambda>s. sub_cp_id s = Some cpid \<and> sub_user_id s = Some uid \<and>
             sub_type s = Sub_IGNORED \<and> sub_id s < sid) cx))"

section \<open>One submission\<close>

definition view_submission :: "web_env \<Rightarrow> id \<Rightarrow> web_context \<Rightarrow> outcome" where
  "view_submission env sid cx =
     (case find_submission (cx_db cx) sid of
        None \<Rightarrow> Inr (response_404 cx)
      | Some s \<Rightarrow>
          (case find_problem (cx_db cx) (sub_problem_id s) of
             None \<Rightarrow> Inl (Throw ''Unexpected NULL'')
           | Some p \<Rightarrow>
               (let caps = joined_submission_caps (cx_session cx) (cx_db cx) (now_of env) p s
                in if \<not> sc_view caps then Inr (response_403 [] cx)
                   else map_sum id (\<lambda>props. response_json (json_render (J_obj (props @
                          (if sc_view_initial_judgement_protocol caps
                           then [(''initial_judgement_protocol'', J_str (sub_initial_report s))] else []) @
                          (if sc_view_full_judgement_protocol caps
                           then [(''full_judgement_protocol'', J_str (sub_final_report s))] else [])))) cx)
                        (submission_info_append_to (cx_db cx) p (sub_contest_id s) s caps))))"

end
