(* ===== verification/Submission_Lists.thy ===== *)
theory Submission_Lists
  imports Submissions_Api Handler_Effects
begin

text \<open>
  What the list routes of the submissions API show. Every route has the form of a guard and a WHERE
  condition; \<open>route_ok\<close> says that the rows a route selects may all be viewed, and that the selection
  does not depend on columns that are hidden from the session user. It is proved once for every
  route, on the database that the job handlers keep consistent, and has two consequences: the routes
  never throw, and they do not tell the results of a contest before they are published.
\<close>

section \<open>Consistency of the submissions\<close>

definition submission_linked :: "db \<Rightarrow> submission \<Rightarrow> bool" where
  "submission_linked d s \<longleftrightarrow>
     find_problem d (sub_problem_id s) \<noteq> None \<and>
     (case joined (find_round d) (sub_round_id s) of
        None \<Rightarrow> True | Some r \<Rightarrow> sub_contest_id s = Some (round_contest_id r)) \<and>
     (case joined (find_contest_problem d) (sub_cp_id s) of
        None \<Rightarrow> True
      | Some c \<Rightarrow> sub_contest_id s = Some (cp_contest_id c) \<and> sub_round_id s = Some (cp_round_id c))"

definition submissions_linked :: "db \<Rightarrow> bool" where
  "submissions_linked d \<longleftrightarrow> list_all (submission_linked d) (db_submissions d)"

lemma joined_simps [simp]: "joined g None = None" "joined g (Some i) = g i"
  by (simp_all add: joined_def)

lemma submissions_linked_consistent:
  assumes "keys_ok d" "refs_ok d" "contests_consistent d"
  shows "submissions_linked d"
  unfolding submissions_linked_def list_all_iff
proof
  fix s
  assume s: "s \<in> set (db_submissions d)"
  have "sub_problem_id s \<in> problem_ids d" using assms(2) s by (simp add: refs_ok_def sub_refs_def)
  then have "find_problem d (sub_problem_id s) \<noteq> None"
    by (auto simp: find_problem_def problem_ids_def find_key_None)
  moreover have rounds: "find_round d i = Some r \<longleftrightarrow> r \<in> set (db_contest_rounds d) \<and> round_id r = i" for i r
    using assms(1) by (simp add: find_round_def keys_ok_def find_key_iff)
  moreover have cps: "find_contest_problem d i = Some c \<longleftrightarrow> c \<in> set (db_contest_problems d) \<and> cp_id c = i" for i c
    using assms(1) by (simp add: find_contest_problem_def keys_ok_def find_key_iff)
  moreover have "sub_contest_id s = Some (round_contest_id r)"
    if r: "joined (find_round d) (sub_round_id s) = Some r" for r
  proof -
    obtain rid where rid: "sub_round_id s = Some rid" "r \<in> set (db_contest_rounds d)" "round_id r = rid"
      using r rounds by (cases "sub_round_id s") auto
    then obtain c where c: "c \<in> set (db_contest_problems d)" "cp_round_id c = rid"
        "sub_contest_id s = Some (cp_contest_id c)"
      using assms(3) s unfolding contests_consistent_def by (fastforce split: option.splits)
    then obtain r' where "r' \<in> set (db_contest_rounds d)" "round_id r' = rid" "round_contest_id r' = cp_contest_id c"
      using assms(3) unfolding contests_consistent_def by metis
    then have "r' = r" using rid rounds by (metis option.inject)
    then show ?thesis using c \<open>round_contest_id r' = cp_contest_id c\<close> by simp
  qed
  moreover have "sub_contest_id s = Some (cp_contest_id c) \<and> sub_round_id s = Some (cp_round_id c)"
    if c: "joined (find_contest_problem d) (sub_cp_id s) = Some c" for c
  proof -
    obtain i where i: "sub_cp_id s = Some i" "find_contest_problem d i = Some c"
      using c by (cases "sub_cp_id s") auto
    then obtain c' where "c' \<in> set (db_contest_problems d)" "cp_id c' = i"
        "sub_round_id s = Some (cp_round_id c')" "sub_contest_id s = Some (cp_contest_id c')"
      using assms(3) s unfolding contests_consistent_def by (fastforce split: option.splits)
    then show ?thesis using i cps by (metis option.inject)
  qed
  ultimately show "submission_linked d s"
    by (auto simp: submission_linked_def split: option.splits)
qed

section \<open>Who sees a submission\<close>

definition submission_problem :: "db \<Rightarrow> submission \<Rightarrow> problem" where
  "submission_problem d s = the (find_problem d (sub_problem_id s))"

definition caps_on :: "web_env \<Rightarrow> web_context \<Rightarrow> submission \<Rightarrow> submission_caps" where
  "caps_on env cx s =
     joined_submission_caps (cx_session cx) (cx_db cx) (now_of env) (submission_problem (cx_db cx) s) s"

definition submission_props :: "web_env \<Rightarrow> web_context \<Rightarrow> id option \<Rightarrow> submission \<Rightarrow> (string \<times> json) list" where
  "submission_props env cx cid s =
     submission_info_props (cx_db cx) (submission_problem (cx_db cx) s) cid s (caps_on env cx s)"

definition listed_submission :: "web_env \<Rightarrow> web_context \<Rightarrow> submission \<Rightarrow> json" where
  "listed_submission env cx s =
     J_obj (submission_props env cx (map_option contest_id (joined (find_contest (cx_db cx)) (sub_contest_id s))) s)"

definition manages :: "web_context \<Rightarrow> submission \<Rightarrow> bool" where
  "manages cx s \<longleftrightarrow> is_admin (cx_session cx) \<or>
     is_self_opt (cx_session cx) (problem_owner_id (submission_problem (cx_db cx) s))"

definition moderates :: "web_context \<Rightarrow> submission \<Rightarrow> bool" where
  "moderates cx s \<longleftrightarrow>
     at_least_moderates_contest (joined (session_user_mode (cx_session cx) (cx_db cx)) (sub_contest_id s))"

lemma caps_on_flags:
  "sc_view (caps_on env cx s) \<longleftrightarrow> manages cx s \<or> moderates cx s \<or> is_self_opt (cx_session cx) (sub_user_id s)"
  "manages cx s \<or> moderates cx s \<Longrightarrow> sc_view_full_status (caps_on env cx s)"
  "manages cx s \<Longrightarrow> sc_view_if_problem_final (caps_on env cx s)"
  "is_self_opt (cx_session cx) (sub_user_id s) \<Longrightarrow>
     p_view (problem_caps_of (cx_session cx) (problem_visibility (submission_problem (cx_db cx) s))
       (problem_owner_id (submission_problem (cx_db cx) s))) \<Longrightarrow> sc_view_if_problem_final (caps_on env cx s)"
  "manages cx s \<or> moderates cx s \<or> is_self_opt (cx_session cx) (sub_user_id s) \<and>
       full_results_reached (now_of env) (joined_full_results (cx_db cx) s) \<Longrightarrow>
     joined_full_results (cx_db cx) s \<noteq> None \<Longrightarrow> sc_view_if_contest_problem_final (caps_on env cx s)"
  by (auto simp: caps_on_def joined_submission_caps_def submission_caps_of_def Let_def manages_def
      moderates_def is_self_opt_case)

lemma submission_row_visible:
  "submission_linked (cx_db cx) s \<Longrightarrow> sc_view (caps_on env cx s) \<Longrightarrow>
    submission_row (cx_session cx) (cx_db cx) (now_of env) s = Inr (listed_submission env cx s)"
  by (auto simp: submission_row_def listed_submission_def submission_props_def submission_info_append_to_def
      caps_on_def submission_problem_def submission_linked_def)

definition listed_submissions :: "web_env \<Rightarrow> nat \<Rightarrow> (submission \<Rightarrow> bool) \<Rightarrow> web_context \<Rightarrow> outcome" where
  "listed_submissions env limit w cx =
     Inr (list_response limit (map (listed_submission env cx) (select_submissions limit w (cx_db cx))) cx)"

lemma submissions_do_list_visible:
  assumes "submissions_linked (cx_db cx)"
    and "\<And>s. s \<in> set (db_submissions (cx_db cx)) \<Longrightarrow> w s \<Longrightarrow> sc_view (caps_on env cx s)"
  shows "submissions_do_list env limit w cx = listed_submissions env limit w cx"
proof -
  have "s \<in> set (db_submissions (cx_db cx)) \<and> w s"
    if "s \<in> set (select_submissions limit w (cx_db cx))" for s
    using that set_select_desc [of s sub_id limit w] by (auto simp: select_submissions_def)
  then have "traverse_res (submission_row (cx_session cx) (cx_db cx) (now_of env))
      (select_submissions limit w (cx_db cx)) =
    Inr (map (listed_submission env cx) (select_submissions limit w (cx_db cx)))"
    using assms by (intro traverse_res_Inr submission_row_visible) (auto simp: submissions_linked_def list_all_iff)
  then show ?thesis by (simp add: submissions_do_list_def listed_submissions_def)
qed

section \<open>Changes of hidden columns\<close>

text \<open>
  Two rows that agree on everything the session user may see: they differ at most in the full status,
  the score, the full judgement protocol and in being final, each only where it is hidden.
\<close>

definition alike :: "web_env \<Rightarrow> web_context \<Rightarrow> submission \<Rightarrow> submission \<Rightarrow> bool" where
  "alike env cx s s' \<longleftrightarrow>
     s' = s\<lparr>sub_full_status := sub_full_status s', sub_score := sub_score s',
            sub_final_report := sub_final_report s', sub_cp_final := sub_cp_final s',
            sub_problem_final := sub_problem_final s'\<rparr> \<and>
     (sc_view_full_status (caps_on env cx s) \<longrightarrow> sub_full_status s' = sub_full_status s) \<and>
     (sc_view_score (caps_on env cx s) \<longrightarrow> sub_score s' = sub_score s) \<and>
     (sc_view_full_judgement_protocol (caps_on env cx s) \<longrightarrow> sub_final_report s' = sub_final_report s) \<and>
     (sub_cp_final s' = sub_cp_final s \<or>
        joined_full_results (cx_db cx) s \<noteq> None \<and> \<not> sc_view_if_contest_problem_final (caps_on env cx s)) \<and>
     (sc_view_if_problem_final (caps_on env cx s) \<longrightarrow> sub_problem_final s' = sub_problem_final s)"

definition hidden_change :: "web_env \<Rightarrow> web_context \<Rightarrow> (submission \<Rightarrow> submission) \<Rightarrow> bool" where
  "hidden_change env cx f \<longleftrightarrow> list_all (\<lambda>s. alike env cx s (f s)) (db_submissions (cx_db cx))"

definition with_change :: "(submission \<Rightarrow> submission) \<Rightarrow> web_context \<Rightarrow> web_context" where
  "with_change f cx = cx\<lparr>cx_db := (cx_db cx)\<lparr>db_submissions := map f (db_submissions (cx_db cx))\<rparr>\<rparr>"

lemma with_change_simps [simp]:
  "cx_session (with_change f cx) = cx_session cx"
  "cx_request (with_change f cx) = cx_request cx"
  "cx_cookie_changes (with_change f cx) = cx_cookie_changes cx"
  "db_submissions (cx_db (with_change f cx)) = map f (db_submissions (cx_db cx))"
  "find_problem (cx_db (with_change f cx)) = find_problem (cx_db cx)"
  "find_user (cx_db (with_change f cx)) = find_user (cx_db cx)"
  "find_round (cx_db (with_change f cx)) = find_round (cx_db cx)"
  "find_contest (cx_db (with_change f cx)) = find_contest (cx_db cx)"
  "find_contest_problem (cx_db (with_change f cx)) = find_contest_problem (cx_db cx)"
  "session_user_mode session (cx_db (with_change f cx)) = session_user_mode session (cx_db cx)"
  by (simp_all add: with_change_def fun_eq_iff find_problem_def find_user_def find_round_def
      find_contest_def find_contest_problem_def session_user_mode_def split: option.split)

lemma alike_keys:
  assumes "alike env cx s s'"
  shows "sub_id s' = sub_id s" "sub_created_at s' = sub_created_at s" "sub_user_id s' = sub_user_id s"
    "sub_problem_id s' = sub_problem_id s" "sub_cp_id s' = sub_cp_id s" "sub_round_id s' = sub_round_id s"
    "sub_contest_id s' = sub_contest_id s" "sub_type s' = sub_type s" "sub_language s' = sub_language s"
    "sub_cp_initial_final s' = sub_cp_initial_final s" "sub_initial_status s' = sub_initial_status s"
    "sub_initial_report s' = sub_initial_report s"
proof -
  have "s' = s\<lparr>sub_full_status := sub_full_status s', sub_score := sub_score s',
      sub_final_report := sub_final_report s', sub_cp_final := sub_cp_final s',
      sub_problem_final := sub_problem_final s'\<rparr>"
    using assms by (simp only: alike_def)
  then obtain a b c e g where s': "s' = s\<lparr>sub_full_status := a, sub_score := b, sub_final_report := c,
      sub_cp_final := e, sub_problem_final := g\<rparr>" by blast
  show "sub_id s' = sub_id s" "sub_created_at s' = sub_created_at s" "sub_user_id s' = sub_user_id s"
    "sub_problem_id s' = sub_problem_id s" "sub_cp_id s' = sub_cp_id s" "sub_round_id s' = sub_round_id s"
    "sub_contest_id s' = sub_contest_id s" "sub_type s' = sub_type s" "sub_language s' = sub_language s"
    "sub_cp_initial_final s' = sub_cp_initial_final s" "sub_initial_status s' = sub_initial_status s"
    "sub_initial_report s' = sub_initial_report s"
    by (simp_all add: s')
qed

lemma alike_same:
  assumes "alike env cx s s'"
  shows "manages cx s \<or> moderates cx s \<Longrightarrow> sub_cp_final s' = sub_cp_final s"
    "manages cx s \<Longrightarrow> sub_problem_final s' = sub_problem_final s"
    "manages cx s \<Longrightarrow> sub_full_status s' = sub_full_status s"
    "is_self_opt (cx_session cx) (sub_user_id s) \<Longrightarrow>
       full_results_reached (now_of env) (joined_full_results (cx_db cx) s) \<Longrightarrow> sub_cp_final s' = sub_cp_final s"
    "is_self_opt (cx_session cx) (sub_user_id s) \<Longrightarrow>
       p_view (problem_caps_of (cx_session cx) (problem_visibility (submission_problem (cx_db cx) s))
         (problem_owner_id (submission_problem (cx_db cx) s))) \<Longrightarrow> sub_problem_final s' = sub_problem_final s"
  using assms caps_on_flags [where env = env and cx = cx and s = s] by (auto simp: alike_def)

section \<open>Routes\<close>

text \<open>\<open>r'\<close> is the route's answer after the change.\<close>

inductive route_ok ::
  "web_env \<Rightarrow> (submission \<Rightarrow> submission) \<Rightarrow> web_context \<Rightarrow> outcome \<Rightarrow> outcome \<Rightarrow> bool"
  for env f cx where
  not_found: "route_ok env f cx (Inr (response_404 cx)) (Inr (response_404 (with_change f cx)))"
| forbidden: "route_ok env f cx (Inr (response_403 [] cx)) (Inr (response_403 [] (with_change f cx)))"
| listed: "(\<And>s. s \<in> set (db_submissions (cx_db cx)) \<Longrightarrow> w s \<Longrightarrow> sc_view (caps_on env cx s)) \<Longrightarrow>
    (\<And>s. s \<in> set (db_submissions (cx_db cx)) \<Longrightarrow> w' (f s) = w s) \<Longrightarrow>
    route_ok env f cx (submissions_do_list env limit w cx) (submissions_do_list env limit w' (with_change f cx))"

lemma route_ok_guarded:
  assumes "\<And>s. guard \<Longrightarrow> s \<in> set (db_submissions (cx_db cx)) \<Longrightarrow> w s \<Longrightarrow>
      manages cx s \<or> moderates cx s \<or> is_self_opt (cx_session cx) (sub_user_id s)"
    and "\<And>s. guard \<Longrightarrow> s \<in> set (db_submissions (cx_db cx)) \<Longrightarrow> w' (f s) = w s"
  shows "route_ok env f cx
    (if \<not> guard then Inr (response_403 [] cx) else submissions_do_list env limit w cx)
    (if \<not> guard then Inr (response_403 [] (with_change f cx))
     else submissions_do_list env limit w' (with_change f cx))"
  using assms by (auto intro: route_ok.intros simp: caps_on_flags(1))

lemma admin_manages: "is_admin (cx_session cx) \<Longrightarrow> manages cx s"
  by (simp add: manages_def)

lemma is_self_opt_Some [simp]: "is_self_opt session (Some uid) = is_self session uid"
  by (simp add: is_self_opt_def is_self_def split: option.split)

definition all_routes ::
  "web_env \<Rightarrow> id \<Rightarrow> web_context \<Rightarrow> outcome list" where
  "all_routes env sid cx =
     [list_submissions env cx,
      list_submissions_below_id env sid cx,
      list_submissions_with_type_contest_problem_final env cx,
      list_submissions_with_type_contest_problem_final_below_id env sid cx,
      list_submissions_with_type_problem_final env cx,
      list_submissions_with_type_problem_final_below_id env sid cx,
      list_submissions_with_type_final env cx,
      list_submissions_with_type_final_below_id env sid cx,
      list_submissions_with_type_ignored env cx,
      list_submissions_with_type_ignored_below_id env sid cx,
      list_submissions_with_type_problem_solution env cx,
      list_submissions_with_type_problem_solution_below_id env sid cx,
      list_submissions_with_status_judge_error env cx,
      list_submissions_with_status_judge_error_below_id env sid cx]"

lemmas all_routes_defs = all_routes_def
  list_submissions_def
  list_submissions_below_id_def
  list_submissions_with_type_contest_problem_final_def
  list_submissions_with_type_contest_problem_final_below_id_def
  list_submissions_with_type_problem_final_def
  list_submissions_with_type_problem_final_below_id_def
  list_submissions_with_type_final_def
  list_submissions_with_type_final_below_id_def
  list_submissions_with_type_ignored_def
  list_submissions_with_type_ignored_below_id_def
  list_submissions_with_type_problem_solution_def
  list_submissions_with_type_problem_solution_below_id_def
  list_submissions_with_status_judge_error_def
  list_submissions_with_status_judge_error_below_id_def


lemma all_routes_ok:
  assumes "hidden_change env cx f"
  shows "list_all2 (route_ok env f cx) (all_routes env sid cx) (all_routes env sid (with_change f cx))"
proof -
  have same: "alike env cx s (f s)" if "s \<in> set (db_submissions (cx_db cx))" for s
    using assms that by (simp add: hidden_change_def list_all_iff)
  note keys = alike_keys [OF same] and cols = alike_same [OF same]
  show ?thesis
    unfolding all_routes_defs list_submissions_caps_def Let_def submissions_list_caps.select_convs
      list.rel_inject with_change_simps
    by (intro conjI list_all2_Nil [THEN iffD2] route_ok_guarded) (auto simp: admin_manages keys cols)
qed

definition user_routes ::
  "web_env \<Rightarrow> id \<Rightarrow> id \<Rightarrow> web_context \<Rightarrow> outcome list" where
  "user_routes env uid sid cx =
     [list_user_submissions env uid cx,
      list_user_submissions_below_id env uid sid cx,
      list_user_submissions_with_type_contest_problem_final env uid cx,
      list_user_submissions_with_type_contest_problem_final_below_id env uid sid cx,
      list_user_submissions_with_type_problem_final env uid cx,
      list_user_submissions_with_type_problem_final_below_id env uid sid cx,
      list_user_submissions_with_type_final env uid cx,
      list_user_submissions_with_type_final_below_id env uid sid cx,
      list_user_submissions_with_type_ignored env uid cx,
      list_user_submissions_with_type_ignored_below_id env uid sid cx]"

lemmas user_routes_defs = user_routes_def
  list_user_submissions_def
  list_user_submissions_below_id_def
  list_user_submissions_with_type_contest_problem_final_def
  list_user_submissions_with_type_contest_problem_final_below_id_def
  list_user_submissions_with_type_problem_final_def
  list_user_submissions_with_type_problem_final_below_id_def
  list_user_submissions_with_type_final_def
  list_user_submissions_with_type_final_below_id_def
  list_user_submissions_with_type_ignored_def
  list_user_submissions_with_type_ignored_below_id_def

lemma user_routes_ok:
  assumes "hidden_change env cx f"
  shows "list_all2 (route_ok env f cx) (user_routes env uid sid cx) (user_routes env uid sid (with_change f cx))"
proof -
  have same: "alike env cx s (f s)" if "s \<in> set (db_submissions (cx_db cx))" for s
    using assms(1) that by (simp add: hidden_change_def list_all_iff)
  note keys = alike_keys [OF same] and cols = alike_same [OF same]
  show ?thesis
    unfolding user_routes_defs list_user_submissions_caps_def Let_def user_submissions_list_caps.select_convs
      list.rel_inject with_change_simps
    by (intro conjI list_all2_Nil [THEN iffD2] route_ok_guarded) (auto simp: admin_manages keys cols)
qed

definition problem_user_routes ::
  "web_env \<Rightarrow> id \<Rightarrow> id \<Rightarrow> id \<Rightarrow> web_context \<Rightarrow> outcome list" where
  "problem_user_routes env pid uid sid cx =
     [list_problem_and_user_submissions env pid uid cx,
      list_problem_and_user_submissions_below_id env pid uid sid cx,
      list_problem_and_user_submissions_with_type_contest_problem_final env pid uid cx,
      list_problem_and_user_submissions_with_type_contest_problem_final_below_id env pid uid sid cx,
      list_problem_and_user_submissions_with_type_problem_final env pid uid cx,
      list_problem_and_user_submissions_with_type_problem_final_below_id env pid uid sid cx,
      list_problem_and_user_submissions_with_type_final env pid uid cx,
      list_problem_and_user_submissions_with_type_final_below_id env pid uid sid cx,
      list_problem_and_user_submissions_with_type_ignored env pid uid cx,
      list_problem_and_user_submissions_with_type_ignored_below_id env pid uid sid cx]"

lemmas problem_user_routes_defs = problem_user_routes_def
  list_problem_and_user_submissions_def
  list_problem_and_user_submissions_below_id_def
  list_problem_and_user_submissions_with_type_contest_problem_final_def
  list_problem_and_user_submissions_with_type_contest_problem_final_below_id_def
  list_problem_and_user_submissions_with_type_problem_final_def
  list_problem_and_user_submissions_with_type_problem_final_below_id_def
  list_problem_and_user_submissions_with_type_final_def
  list_problem_and_user_submissions_with_type_final_below_id_def
  list_problem_and_user_submissions_with_type_ignored_def
  list_problem_and_user_submissions_with_type_ignored_below_id_def

lemma problem_user_routes_ok:
  assumes "hidden_change env cx f"
  shows "list_all2 (route_ok env f cx) (problem_user_routes env pid uid sid cx)
    (problem_user_routes env pid uid sid (with_change f cx))"
proof -
  have same: "alike env cx s (f s)" if "s \<in> set (db_submissions (cx_db cx))" for s
    using assms(1) that by (simp add: hidden_change_def list_all_iff)
  note keys = alike_keys [OF same] and cols = alike_same [OF same]
  show ?thesis
  proof (cases "find_problem (cx_db cx) pid")
    case None
    then have "get_problem_info_for_capabilities cx pid = None"
        "get_problem_info_for_capabilities (with_change f cx) pid = None"
      by (simp_all add: get_problem_info_for_capabilities_def)
    then show ?thesis
      unfolding problem_user_routes_defs list.rel_inject by (simp add: route_ok.not_found)
  next
    case (Some p)
    then have info: "get_problem_info_for_capabilities cx pid = Some (problem_visibility p, problem_owner_id p)"
        "get_problem_info_for_capabilities (with_change f cx) pid = Some (problem_visibility p, problem_owner_id p)"
      by (simp_all add: get_problem_info_for_capabilities_def)
    have p: "submission_problem (cx_db cx) s = p" if "sub_problem_id s = pid" for s
      using Some that by (simp add: submission_problem_def)
    have m: "manages cx s" if "sub_problem_id s = pid" "is_self_opt (cx_session cx) (problem_owner_id p)" for s
      using p [OF that(1)] that(2) by (simp add: manages_def)
    show ?thesis
      unfolding problem_user_routes_defs info option.case prod.case list_problem_and_user_submissions_caps_def
        list_problem_submissions_caps_def is_self_opt_case Let_def
        user_submissions_list_caps.select_convs submissions_list_caps.select_convs
        list.rel_inject with_change_simps
      by (intro conjI list_all2_Nil [THEN iffD2] route_ok_guarded) (auto simp: admin_manages m p keys cols)
  qed
qed

lemma route_ok_guarded_if:
  assumes "\<And>s. guard \<Longrightarrow> s \<in> set (db_submissions (cx_db cx)) \<Longrightarrow> (if c then w s else v s) \<Longrightarrow>
      manages cx s \<or> moderates cx s \<or> is_self_opt (cx_session cx) (sub_user_id s)"
    and "\<And>s. guard \<Longrightarrow> c \<Longrightarrow> s \<in> set (db_submissions (cx_db cx)) \<Longrightarrow> w' (f s) = w s"
    and "\<And>s. guard \<Longrightarrow> \<not> c \<Longrightarrow> s \<in> set (db_submissions (cx_db cx)) \<Longrightarrow> v' (f s) = v s"
  shows "route_ok env f cx
    (if \<not> guard then Inr (response_403 [] cx)
     else if c then submissions_do_list env limit w cx else submissions_do_list env limit v cx)
    (if \<not> guard then Inr (response_403 [] (with_change f cx))
     else if c then submissions_do_list env limit w' (with_change f cx)
     else submissions_do_list env limit v' (with_change f cx))"
  using assms by (auto intro: route_ok.intros simp: caps_on_flags(1))

lemma moderates_contest:
  "at_least_moderates_contest (session_user_mode (cx_session cx) (cx_db cx) cid) \<Longrightarrow>
    sub_contest_id s = Some cid \<Longrightarrow> moderates cx s"
  by (simp add: moderates_def)

lemma joined_full_results_change:
  "alike env cx s (f s) \<Longrightarrow>
    joined_full_results (cx_db (with_change f cx)) (f s) = joined_full_results (cx_db cx) s"
  by (simp add: joined_full_results_def alike_keys)

lemmas contest_caps_unfolds = list_contest_and_user_submissions_caps_def list_contest_submissions_caps_def
  list_contest_round_and_user_submissions_caps_def
  contest_submissions_list_caps.select_convs contest_and_user_submissions_list_caps.select_convs
  contest_round_and_user_submissions_list_caps.select_convs

definition contest_routes ::
  "web_env \<Rightarrow> id \<Rightarrow> id \<Rightarrow> web_context \<Rightarrow> outcome list" where
  "contest_routes env cid sid cx =
     [list_contest_submissions env cid cx,
      list_contest_submissions_below_id env cid sid cx,
      list_contest_submissions_with_type_contest_problem_final env cid cx,
      list_contest_submissions_with_type_contest_problem_final_below_id env cid sid cx,
      list_contest_submissions_with_type_ignored env cid cx,
      list_contest_submissions_with_type_ignored_below_id env cid sid cx]"

lemmas contest_routes_defs = contest_routes_def
  list_contest_submissions_def
  list_contest_submissions_below_id_def
  list_contest_submissions_with_type_contest_problem_final_def
  list_contest_submissions_with_type_contest_problem_final_below_id_def
  list_contest_submissions_with_type_ignored_def
  list_contest_submissions_with_type_ignored_below_id_def

lemma contest_routes_ok:
  assumes "hidden_change env cx f"
  shows "list_all2 (route_ok env f cx) (contest_routes env cid sid cx) (contest_routes env cid sid (with_change f cx))"
proof -
  have same: "alike env cx s (f s)" if "s \<in> set (db_submissions (cx_db cx))" for s
    using assms(1) that by (simp add: hidden_change_def list_all_iff)
  note keys = alike_keys [OF same] and cols = alike_same [OF same]
  show ?thesis
    unfolding contest_routes_defs get_contest_info_for_capabilities_def contest_caps_unfolds Let_def
      list.rel_inject with_change_simps
    by (intro conjI list_all2_Nil [THEN iffD2] route_ok_guarded)
      (auto simp: admin_manages moderates_contest keys cols)
qed

definition contest_user_routes ::
  "web_env \<Rightarrow> id \<Rightarrow> id \<Rightarrow> id \<Rightarrow> web_context \<Rightarrow> outcome list" where
  "contest_user_routes env cid uid sid cx =
     [list_contest_and_user_submissions env cid uid cx,
      list_contest_and_user_submissions_below_id env cid uid sid cx,
      list_contest_and_user_submissions_with_type_contest_problem_final env cid uid cx,
      list_contest_and_user_submissions_with_type_contest_problem_final_below_id env cid uid sid cx,
      list_contest_and_user_submissions_with_type_ignored env cid uid cx,
      list_contest_and_user_submissions_with_type_ignored_below_id env cid uid sid cx]"

lemmas contest_user_routes_defs = contest_user_routes_def
  list_contest_and_user_submissions_def
  list_contest_and_user_submissions_below_id_def
  list_contest_and_user_submissions_with_type_contest_problem_final_def
  list_contest_and_user_submissions_with_type_contest_problem_final_below_id_def
  list_contest_and_user_submissions_with_type_ignored_def
  list_contest_and_user_submissions_with_type_ignored_below_id_def

lemma contest_user_routes_ok:
  assumes "hidden_change env cx f"
  shows "list_all2 (route_ok env f cx) (contest_user_routes env cid uid sid cx)
    (contest_user_routes env cid uid sid (with_change f cx))"
proof -
  have same: "alike env cx s (f s)" if "s \<in> set (db_submissions (cx_db cx))" for s
    using assms(1) that by (simp add: hidden_change_def list_all_iff)
  note keys = alike_keys [OF same] and cols = alike_same [OF same]
  note results = joined_full_results_change [where f = f, OF same]
  show ?thesis
    unfolding contest_user_routes_defs get_contest_info_for_capabilities_def contest_caps_unfolds Let_def
      list.rel_inject with_change_simps(3-10) with_change_simps(1)
    by (intro conjI list_all2_Nil [THEN iffD2] route_ok_guarded route_ok_guarded_if)
      (auto simp: admin_manages moderates_contest keys cols results split: if_split_asm)
qed

text \<open>The round of a contest problem exists by a foreign key.\<close>

lemma round_submission:
  assumes "submissions_linked (cx_db cx)" "s \<in> set (db_submissions (cx_db cx))"
    and "find_round (cx_db cx) rid = Some r" "sub_round_id s = Some rid"
  shows "sub_contest_id s = Some (round_contest_id r)"
    and "joined_full_results (cx_db cx) s = Some (round_full_results r)"
  using assms by (auto simp: submissions_linked_def submission_linked_def list_all_iff joined_full_results_def)

lemma contest_problem_submission:
  assumes "submissions_linked (cx_db cx)" "s \<in> set (db_submissions (cx_db cx))"
    and "find_contest_problem (cx_db cx) cpid = Some c" "sub_cp_id s = Some cpid"
  shows "sub_contest_id s = Some (cp_contest_id c)" and "sub_round_id s = Some (cp_round_id c)"
  using assms by (auto simp: submissions_linked_def submission_linked_def list_all_iff)

lemma full_results_reached_Some: "full_results_reached t (Some fr) \<longleftrightarrow> fr \<le> t"
  by (simp add: full_results_reached_def)

lemma round_info:
  "get_contest_round_info_for_capabilities (with_change f cx) rid = get_contest_round_info_for_capabilities cx rid"
  "get_contest_problem_info_for_capabilities (with_change f cx) cpid =
     get_contest_problem_info_for_capabilities cx cpid"
  by (simp_all add: get_contest_round_info_for_capabilities_def get_contest_problem_info_for_capabilities_def
      split: option.split)

definition round_routes ::
  "web_env \<Rightarrow> id \<Rightarrow> id \<Rightarrow> web_context \<Rightarrow> outcome list" where
  "round_routes env rid sid cx =
     [list_contest_round_submissions env rid cx,
      list_contest_round_submissions_below_id env rid sid cx,
      list_contest_round_submissions_with_type_contest_problem_final env rid cx,
      list_contest_round_submissions_with_type_contest_problem_final_below_id env rid sid cx,
      list_contest_round_submissions_with_type_ignored env rid cx,
      list_contest_round_submissions_with_type_ignored_below_id env rid sid cx]"

lemmas round_routes_defs = round_routes_def
  list_contest_round_submissions_def
  list_contest_round_submissions_below_id_def
  list_contest_round_submissions_with_type_contest_problem_final_def
  list_contest_round_submissions_with_type_contest_problem_final_below_id_def
  list_contest_round_submissions_with_type_ignored_def
  list_contest_round_submissions_with_type_ignored_below_id_def

lemma round_routes_ok:
  assumes "hidden_change env cx f" "submissions_linked (cx_db cx)"
  shows "list_all2 (route_ok env f cx) (round_routes env rid sid cx)
    (round_routes env rid sid (with_change f cx))"
proof -
  have same: "alike env cx s (f s)" if "s \<in> set (db_submissions (cx_db cx))" for s
    using assms(1) that by (simp add: hidden_change_def list_all_iff)
  note keys = alike_keys [OF same] and cols = alike_same [OF same]
  show ?thesis
  proof (cases "get_contest_round_info_for_capabilities cx rid")
    case None
    then show ?thesis
      unfolding round_routes_defs list.rel_inject by (simp add: round_info route_ok.not_found)
  next
    case (Some info)
    then obtain r where
      r: "find_round (cx_db cx) rid = Some r" "info = (round_full_results r, session_user_mode (cx_session cx) (cx_db cx) (round_contest_id r))"
      by (auto simp: get_contest_round_info_for_capabilities_def split: option.splits)
    have linked: "sub_contest_id s = Some (round_contest_id r)"
        "joined_full_results (cx_db cx) s = Some (round_full_results r)"
      if "s \<in> set (db_submissions (cx_db cx))" "sub_round_id s = Some rid" for s
      using that round_submission [OF assms(2) that(1) r(1) that(2)] by auto
    show ?thesis
      unfolding round_routes_defs round_info Some r(2) option.case prod.case contest_caps_unfolds Let_def
        list.rel_inject with_change_simps
      by (intro conjI list_all2_Nil [THEN iffD2] route_ok_guarded)
        (auto simp: admin_manages moderates_contest keys cols linked full_results_reached_Some split: if_split_asm)
  qed
qed

definition round_user_routes ::
  "web_env \<Rightarrow> id \<Rightarrow> id \<Rightarrow> id \<Rightarrow> web_context \<Rightarrow> outcome list" where
  "round_user_routes env rid uid sid cx =
     [list_contest_round_and_user_submissions env rid uid cx,
      list_contest_round_and_user_submissions_below_id env rid uid sid cx,
      list_contest_round_and_user_submissions_with_type_contest_problem_final env rid uid cx,
      list_contest_round_and_user_submissions_with_type_contest_problem_final_below_id env rid uid sid cx,
      list_contest_round_and_user_submissions_with_type_ignored env rid uid cx,
      list_contest_round_and_user_submissions_with_type_ignored_below_id env rid uid sid cx]"

lemmas round_user_routes_defs = round_user_routes_def
  list_contest_round_and_user_submissions_def
  list_contest_round_and_user_submissions_below_id_def
  list_contest_round_and_user_submissions_with_type_contest_problem_final_def
  list_contest_round_and_user_submissions_with_type_contest_problem_final_below_id_def
  list_contest_round_and_user_submissions_with_type_ignored_def
  list_contest_round_and_user_submissions_with_type_ignored_below_id_def

lemma round_user_routes_ok:
  assumes "hidden_change env cx f" "submissions_linked (cx_db cx)"
  shows "list_all2 (route_ok env f cx) (round_user_routes env rid uid sid cx)
    (round_user_routes env rid uid sid (with_change f cx))"
proof -
  have same: "alike env cx s (f s)" if "s \<in> set (db_submissions (cx_db cx))" for s
    using assms(1) that by (simp add: hidden_change_def list_all_iff)
  note keys = alike_keys [OF same] and cols = alike_same [OF same]
  show ?thesis
  proof (cases "get_contest_round_info_for_capabilities cx rid")
    case None
    then show ?thesis
      unfolding round_user_routes_defs list.rel_inject by (simp add: round_info route_ok.not_found)
  next
    case (Some info)
    then obtain r where
      r: "find_round (cx_db cx) rid = Some r" "info = (round_full_results r, session_user_mode (cx_session cx) (cx_db cx) (round_contest_id r))"
      by (auto simp: get_contest_round_info_for_capabilities_def split: option.splits)
    have linked: "sub_contest_id s = Some (round_contest_id r)"
        "joined_full_results (cx_db cx) s = Some (round_full_results r)"
      if "s \<in> set (db_submissions (cx_db cx))" "sub_round_id s = Some rid" for s
      using that round_submission [OF assms(2) that(1) r(1) that(2)] by auto
    show ?thesis
      unfolding round_user_routes_defs round_info Some r(2) option.case prod.case contest_caps_unfolds Let_def
        list.rel_inject with_change_simps
      by (intro conjI list_all2_Nil [THEN iffD2] route_ok_guarded)
        (auto simp: admin_manages moderates_contest keys cols linked full_results_reached_Some split: if_split_asm)
  qed
qed

definition contest_problem_routes ::
  "web_env \<Rightarrow> id \<Rightarrow> id \<Rightarrow> web_context \<Rightarrow> outcome list" where
  "contest_problem_routes env cpid sid cx =
     [list_contest_problem_submissions env cpid cx,
      list_contest_problem_submissions_below_id env cpid sid cx,
      list_contest_problem_submissions_with_type_contest_problem_final env cpid cx,
      list_contest_problem_submissions_with_type_contest_problem_final_below_id env cpid sid cx,
      list_contest_problem_submissions_with_type_ignored env cpid cx,
      list_contest_problem_submissions_with_type_ignored_below_id env cpid sid cx]"

lemmas contest_problem_routes_defs = contest_problem_routes_def
  list_contest_problem_submissions_def
  list_contest_problem_submissions_below_id_def
  list_contest_problem_submissions_with_type_contest_problem_final_def
  list_contest_problem_submissions_with_type_contest_problem_final_below_id_def
  list_contest_problem_submissions_with_type_ignored_def
  list_contest_problem_submissions_with_type_ignored_below_id_def

lemma contest_problem_routes_ok:
  assumes "hidden_change env cx f" "submissions_linked (cx_db cx)"
  shows "list_all2 (route_ok env f cx) (contest_problem_routes env cpid sid cx)
    (contest_problem_routes env cpid sid (with_change f cx))"
proof -
  have same: "alike env cx s (f s)" if "s \<in> set (db_submissions (cx_db cx))" for s
    using assms(1) that by (simp add: hidden_change_def list_all_iff)
  note keys = alike_keys [OF same] and cols = alike_same [OF same]
  show ?thesis
  proof (cases "get_contest_problem_info_for_capabilities cx cpid")
    case None
    then show ?thesis
      unfolding contest_problem_routes_defs list.rel_inject by (simp add: round_info route_ok.not_found)
  next
    case (Some info)
    then obtain c r where
      r: "find_contest_problem (cx_db cx) cpid = Some c" "find_round (cx_db cx) (cp_round_id c) = Some r"
         "info = (round_full_results r, session_user_mode (cx_session cx) (cx_db cx) (cp_contest_id c))"
      by (auto simp: get_contest_problem_info_for_capabilities_def split: option.splits)
    have linked: "sub_contest_id s = Some (cp_contest_id c)"
        "joined_full_results (cx_db cx) s = Some (round_full_results r)"
      if "s \<in> set (db_submissions (cx_db cx))" "sub_cp_id s = Some cpid" for s
      using that contest_problem_submission [OF assms(2) that(1) r(1) that(2)]
        round_submission [OF assms(2) that(1) r(2)] by auto
    show ?thesis
      unfolding contest_problem_routes_defs round_info Some r(3) option.case prod.case contest_caps_unfolds Let_def
        list.rel_inject with_change_simps
      by (intro conjI list_all2_Nil [THEN iffD2] route_ok_guarded)
        (auto simp: admin_manages moderates_contest keys cols linked full_results_reached_Some split: if_split_asm)
  qed
qed

definition contest_problem_user_routes ::
  "web_env \<Rightarrow> id \<Rightarrow> id \<Rightarrow> id \<Rightarrow> web_context \<Rightarrow> outcome list" where
  "contest_problem_user_routes env cpid uid sid cx =
     [list_contest_problem_and_user_submissions env cpid uid cx,
      list_contest_problem_and_user_submissions_below_id env cpid uid sid cx,
      list_contest_problem_and_user_submissions_with_type_contest_problem_final env cpid uid cx,
      list_contest_problem_and_user_submissions_with_type_ignored env cpid uid cx,
      list_contest_problem_and_user_submissions_with_type_ignored_below_id env cpid uid sid cx]"

lemmas contest_problem_user_routes_defs = contest_problem_user_routes_def
  list_contest_problem_and_user_submissions_def
  list_contest_problem_and_user_submissions_below_id_def
  list_contest_problem_and_user_submissions_with_type_contest_problem_final_def
  list_contest_problem_and_user_submissions_with_type_ignored_def
  list_contest_problem_and_user_submissions_with_type_ignored_below_id_def

lemma contest_problem_user_routes_ok:
  assumes "hidden_change env cx f" "submissions_linked (cx_db cx)"
  shows "list_all2 (route_ok env f cx) (contest_problem_user_routes env cpid uid sid cx)
    (contest_problem_user_routes env cpid uid sid (with_change f cx))"
proof -
  have same: "alike env cx s (f s)" if "s \<in> set (db_submissions (cx_db cx))" for s
    using assms(1) that by (simp add: hidden_change_def list_all_iff)
  note keys = alike_keys [OF same] and cols = alike_same [OF same]
  show ?thesis
  proof (cases "get_contest_problem_info_for_capabilities cx cpid")
    case None
    then show ?thesis
      unfolding contest_problem_user_routes_defs list.rel_inject by (simp add: round_info route_ok.not_found)
  next
    case (Some info)
    then obtain c r where
      r: "find_contest_problem (cx_db cx) cpid = Some c" "find_round (cx_db cx) (cp_round_id c) = Some r"
         "info = (round_full_results r, session_user_mode (cx_session cx) (cx_db cx) (cp_contest_id c))"
      by (auto simp: get_contest_problem_info_for_capabilities_def split: option.splits)
    have linked: "sub_contest_id s = Some (cp_contest_id c)"
        "joined_full_results (cx_db cx) s = Some (round_full_results r)"
      if "s \<in> set (db_submissions (cx_db cx))" "sub_cp_id s = Some cpid" for s
      using that contest_problem_submission [OF assms(2) that(1) r(1) that(2)]
        round_submission [OF assms(2) that(1) r(2)] by auto
    show ?thesis
      unfolding contest_problem_user_routes_defs round_info Some r(3) option.case prod.case contest_caps_unfolds Let_def
        list.rel_inject with_change_simps
      by (intro conjI list_all2_Nil [THEN iffD2] route_ok_guarded)
        (auto simp: admin_manages moderates_contest keys cols linked full_results_reached_Some split: if_split_asm)
  qed
qed

section \<open>What the answers tell\<close>

lemma traverse_res_map: "traverse_res g (map f xs) = traverse_res (\<lambda>x. g (f x)) xs"
  by (induction xs) auto

lemma traverse_res_cong: "(\<And>x. x \<in> set xs \<Longrightarrow> g x = h x) \<Longrightarrow> traverse_res g xs = traverse_res h xs"
  by (induction xs) auto

lemma caps_on_change: "alike env cx s (f s) \<Longrightarrow> caps_on env (with_change f cx) (f s) = caps_on env cx s"
  by (simp add: caps_on_def joined_submission_caps_def joined_full_results_change submission_problem_def alike_keys)

lemma visible_cong: "(c \<Longrightarrow> v = v') \<Longrightarrow> visible c v = visible c v'"
  by (simp add: visible_def)

lemma submission_info_props_change:
  assumes "alike env cx s (f s)"
  shows "submission_info_props (cx_db (with_change f cx)) p cid (f s) (caps_on env cx s) =
    submission_info_props (cx_db cx) p cid s (caps_on env cx s)"
proof -
  have "visible (sc_view_full_status (caps_on env cx s)) (J_enum (submission_status_to_str (sub_full_status (f s)))) =
      visible (sc_view_full_status (caps_on env cx s)) (J_enum (submission_status_to_str (sub_full_status s)))"
    "visible (sc_view_score (caps_on env cx s)) (J_opt J_int (sub_score (f s))) =
      visible (sc_view_score (caps_on env cx s)) (J_opt J_int (sub_score s))"
    "visible (sc_view_if_problem_final (caps_on env cx s)) (J_bool (sub_problem_final (f s))) =
      visible (sc_view_if_problem_final (caps_on env cx s)) (J_bool (sub_problem_final s))"
    "visible (sc_view_if_contest_problem_final (caps_on env cx s)) (J_bool (sub_cp_final (f s))) =
      visible (sc_view_if_contest_problem_final (caps_on env cx s)) (J_bool (sub_cp_final s))"
    using assms by (auto simp: alike_def intro!: visible_cong)
  then show ?thesis
    by (simp only: submission_info_props_def alike_keys [OF assms] with_change_simps)
qed

lemma submission_row_change:
  assumes "alike env cx s (f s)"
  shows "submission_row (cx_session cx) (cx_db (with_change f cx)) (now_of env) (f s) =
    submission_row (cx_session cx) (cx_db cx) (now_of env) s"
proof (cases "find_problem (cx_db cx) (sub_problem_id s)")
  case None
  then show ?thesis by (simp add: submission_row_def alike_keys [OF assms])
next
  case (Some p)
  have caps: "joined_submission_caps (cx_session cx) (cx_db cx) (now_of env) p s = caps_on env cx s"
    "joined_submission_caps (cx_session cx) (cx_db (with_change f cx)) (now_of env) p (f s) = caps_on env cx s"
    using Some caps_on_change [where f = f, OF assms] by (simp_all add: caps_on_def submission_problem_def alike_keys [OF assms])
  show ?thesis
    by (simp add: submission_row_def Some caps alike_keys [OF assms] submission_info_append_to_def
        submission_info_props_change [where f = f, OF assms])
qed

definition response_of :: "outcome \<Rightarrow> http_response res" where
  "response_of r = map_sum id snd r"

lemma response_change [simp]:
  "snd (response_json c (with_change f cx)) = snd (response_json c cx)"
  "snd (response_404 (with_change f cx)) = snd (response_404 cx)"
  "snd (response_403 c (with_change f cx)) = snd (response_403 c cx)"
  by (simp_all add: response_json_def response_404_def response_403_def respond_def session_has_expired_def
      split: option.split user_type.split)

lemma select_submissions_change:
  assumes "\<And>s. s \<in> set (db_submissions (cx_db cx)) \<Longrightarrow> sub_id (f s) = sub_id s \<and> w' (f s) = w s"
  shows "select_submissions limit w' (cx_db (with_change f cx)) = map f (select_submissions limit w (cx_db cx))"
proof -
  have "filter (\<lambda>s. w' (f s)) (db_submissions (cx_db cx)) = filter w (db_submissions (cx_db cx))"
    using assms by (auto intro: filter_cong)
  moreover have "sort_key (\<lambda>s. sub_id (f s)) (filter w (db_submissions (cx_db cx))) =
      sort_key sub_id (filter w (db_submissions (cx_db cx)))"
    using assms by (intro sort_key_cong) auto
  ultimately show ?thesis
    by (simp add: select_submissions_def select_desc_map) (simp add: select_desc_def order_by_desc_def)
qed

lemma submissions_do_list_change:
  assumes change: "hidden_change env cx f"
    and "\<And>s. s \<in> set (db_submissions (cx_db cx)) \<Longrightarrow> w' (f s) = w s"
  shows "response_of (submissions_do_list env limit w' (with_change f cx)) =
    response_of (submissions_do_list env limit w cx)"
proof -
  have same: "alike env cx s (f s)" if "s \<in> set (db_submissions (cx_db cx))" for s
    using change that by (simp add: hidden_change_def list_all_iff)
  let ?row = "submission_row (cx_session cx) (cx_db cx) (now_of env)"
  let ?row' = "submission_row (cx_session cx) (cx_db (with_change f cx)) (now_of env)"
  have "select_submissions limit w' (cx_db (with_change f cx)) = map f (select_submissions limit w (cx_db cx))"
    using assms(2) alike_keys(1) [OF same] by (intro select_submissions_change) simp
  moreover have "traverse_res (\<lambda>s. ?row' (f s)) (select_submissions limit w (cx_db cx)) =
      traverse_res ?row (select_submissions limit w (cx_db cx))"
  proof (rule traverse_res_cong)
    fix s
    assume "s \<in> set (select_submissions limit w (cx_db cx))"
    then have "s \<in> set (db_submissions (cx_db cx))"
      using set_select_desc [of s sub_id limit w] by (auto simp: select_submissions_def)
    then show "?row' (f s) = ?row s" by (intro submission_row_change same)
  qed
  ultimately show ?thesis
    by (cases "traverse_res ?row (select_submissions limit w (cx_db cx))")
      (simp_all add: submissions_do_list_def response_of_def traverse_res_map list_response_def)
qed

lemma route_ok_same: "route_ok env f cx r r' \<Longrightarrow> hidden_change env cx f \<Longrightarrow> response_of r' = response_of r"
  by (induction rule: route_ok.induct) (simp_all add: response_of_def submissions_do_list_change [unfolded response_of_def])

definition checked_routes ::
  "web_env \<Rightarrow> id \<Rightarrow> id \<Rightarrow> id \<Rightarrow> id \<Rightarrow> id \<Rightarrow> id \<Rightarrow> web_context \<Rightarrow> outcome list" where
  "checked_routes env uid pid cid rid cpid sid cx =
     all_routes env sid cx @ user_routes env uid sid cx @ problem_user_routes env pid uid sid cx @
     contest_routes env cid sid cx @ contest_user_routes env cid uid sid cx @
     round_routes env rid sid cx @ round_user_routes env rid uid sid cx @
     contest_problem_routes env cpid sid cx @ contest_problem_user_routes env cpid uid sid cx"

lemma checked_routes_ok:
  assumes "hidden_change env cx f" "submissions_linked (cx_db cx)"
  shows "list_all2 (route_ok env f cx) (checked_routes env uid pid cid rid cpid sid cx)
    (checked_routes env uid pid cid rid cpid sid (with_change f cx))"
  unfolding checked_routes_def
  by (intro list_all2_appendI all_routes_ok user_routes_ok problem_user_routes_ok contest_routes_ok
      contest_user_routes_ok round_routes_ok round_user_routes_ok contest_problem_routes_ok
      contest_problem_user_routes_ok assms)

lemma no_change: "hidden_change env cx (\<lambda>s. s)" "with_change (\<lambda>s. s) cx = cx"
  by (simp_all add: hidden_change_def alike_def with_change_def list_all_iff)

definition shows_visible :: "web_env \<Rightarrow> web_context \<Rightarrow> outcome \<Rightarrow> bool" where
  "shows_visible env cx r \<longleftrightarrow>
     r = Inr (response_404 cx) \<or> r = Inr (response_403 [] cx) \<or>
     (\<exists>limit rows. length rows \<le> limit \<and> set rows \<subseteq> set (db_submissions (cx_db cx)) \<and>
        list_all (\<lambda>s. sc_view (caps_on env cx s)) rows \<and>
        sorted_wrt (\<lambda>s s'. sub_id s' < sub_id s) rows \<and>
        r = Inr (list_response limit (map (listed_submission env cx) rows) cx))"

lemma route_ok_shows:
  assumes "route_ok env (\<lambda>s. s) cx r r'" "submissions_linked (cx_db cx)"
    and keys: "distinct (map sub_id (db_submissions (cx_db cx)))"
  shows "shows_visible env cx r"
  using assms(1)
proof cases
  case (listed w w' limit)
  let ?rows = "select_submissions limit w (cx_db cx)"
  have "s \<in> set (db_submissions (cx_db cx)) \<and> sc_view (caps_on env cx s)" if "s \<in> set ?rows" for s
    using that listed set_select_desc [of s sub_id limit w] by (auto simp: select_submissions_def)
  moreover have "length ?rows \<le> limit" "sorted_wrt (\<lambda>s s'. sub_id s' < sub_id s) ?rows"
    using select_desc_sorted [OF keys] by (simp_all add: select_submissions_def length_select_desc)
  ultimately show ?thesis
    using listed(1) submissions_do_list_visible [OF assms(2) listed(3)]
    unfolding shows_visible_def listed_submissions_def list_all_iff by blast
qed (simp_all add: shows_visible_def)

lemma checked_routes_show:
  assumes "submissions_linked (cx_db cx)" "distinct (map sub_id (db_submissions (cx_db cx)))"
  shows "list_all (shows_visible env cx) (checked_routes env uid pid cid rid cpid sid cx)"
proof -
  have "list_all2 (route_ok env (\<lambda>s. s) cx) (checked_routes env uid pid cid rid cpid sid cx)
      (checked_routes env uid pid cid rid cpid sid cx)"
    using checked_routes_ok [OF no_change(1) assms(1)] by (simp only: no_change(2))
  then show ?thesis
    unfolding list_all2_conv_all_nth list_all_length by (blast intro: route_ok_shows [OF _ assms])
qed

lemma view_submission_change:
  assumes change: "hidden_change env cx f"
  shows "response_of (view_submission env sid (with_change f cx)) = response_of (view_submission env sid cx)"
proof -
  have same: "alike env cx s (f s)" if "s \<in> set (db_submissions (cx_db cx))" for s
    using change that by (simp add: hidden_change_def list_all_iff)
  have "find (\<lambda>s. sub_id s = sid) (map f ss) = map_option f (find (\<lambda>s. sub_id s = sid) ss)"
    if "set ss \<subseteq> set (db_submissions (cx_db cx))" for ss
    using that by (induction ss) (auto simp: alike_keys(1) [OF same])
  then have found: "find_submission (cx_db (with_change f cx)) sid =
      map_option f (find_submission (cx_db cx) sid)"
    by (simp add: find_submission_def)
  show ?thesis
  proof (cases "find_submission (cx_db cx) sid")
    case None
    then show ?thesis by (simp add: view_submission_def found response_of_def)
  next
    case (Some s)
    then have alike: "alike env cx s (f s)"
      using same by (auto simp: find_submission_def dest: find_key_Some)
    note keys = alike_keys [OF alike]
    show ?thesis
    proof (cases "find_problem (cx_db cx) (sub_problem_id s)")
      case None
      then show ?thesis by (simp add: view_submission_def found Some keys response_of_def)
    next
      case p: (Some p)
      have caps: "joined_submission_caps (cx_session cx) (cx_db cx) (now_of env) p s = caps_on env cx s"
        "joined_submission_caps (cx_session cx) (cx_db (with_change f cx)) (now_of env) p (f s) = caps_on env cx s"
        using p caps_on_change [where f = f, OF alike] by (simp_all add: caps_on_def submission_problem_def keys)
      have "sc_view_full_judgement_protocol (caps_on env cx s) \<Longrightarrow> sub_final_report (f s) = sub_final_report s"
        using alike by (simp add: alike_def)
      then show ?thesis
        by (simp add: view_submission_def found Some p caps keys Let_def submission_info_append_to_def
            submission_info_props_change [where f = f, OF alike] response_of_def)
    qed
  qed
qed

text \<open>C11. Whatever the session and whatever ids are asked for, each of the sixty-nine list routes of all,
  of a user's, of a contest's, a round's and a contest problem's submissions, and of a user's in each of
  them, answers 404, 403, or a page of at most its limit of stored submissions, newest first, each of
  which its viewer may view; none of them throws. It holds on every database with the keys, references
  and contest links that the job handlers preserve.\<close>
theorem submission_lists_show_only_visible:
  assumes "keys_ok (cx_db cx)" "refs_ok (cx_db cx)" "contests_consistent (cx_db cx)"
  shows "list_all (shows_visible env cx) (checked_routes env uid pid cid rid cpid sid cx)"
  using checked_routes_show [OF submissions_linked_consistent [OF assms]] assms(1)
  by (simp add: keys_ok_def)

text \<open>C10. The API does not tell the results of a contest before they are published. Take two databases
  that differ only in what is hidden from the session user: the full status, score and full judgement
  protocol of submissions whose capabilities hide them, and which of them are final. Each of the
  sixty-nine list routes and the view of a submission answer the same bytes on both, so neither a value,
  nor the selection and order of a list, nor a capability depends on a hidden result.\<close>
theorem embargoed_results_do_not_flow:
  assumes "hidden_change env cx f"
    and "keys_ok (cx_db cx)" "refs_ok (cx_db cx)" "contests_consistent (cx_db cx)"
  shows "list_all2 (\<lambda>r r'. response_of r' = response_of r)
      (checked_routes env uid pid cid rid cpid sid cx)
      (checked_routes env uid pid cid rid cpid sid (with_change f cx)) \<and>
    response_of (view_submission env vid (with_change f cx)) = response_of (view_submission env vid cx)"
proof -
  have "list_all2 (\<lambda>r r'. response_of r' = response_of r)
      (checked_routes env uid pid cid rid cpid sid cx)
      (checked_routes env uid pid cid rid cpid sid (with_change f cx))"
    by (rule list_all2_mono [OF checked_routes_ok [OF assms(1) submissions_linked_consistent [OF assms(2-4)]]])
      (rule route_ok_same [OF _ assms(1)])
  then show ?thesis using view_submission_change [OF assms(1)] by simp
qed

section \<open>An example\<close>

text \<open>
  A contestant with one submission to a problem of a contest whose full results are published later
  than the request, and what a better result of it changes.
\<close>

definition sample_embargo_db :: db where
  "sample_embargo_db = empty_db
     \<lparr>db_users := [\<lparr> user_id = 7, user_created_at = ''2024-01-01 00:00:00'', user_type = User_NORMAL,
        username = ''kid'', first_name = ''K'', last_name = ''K'', email = ''k@k'', password_salt = [],
        password_hash = [] \<rparr>],
      db_problems := [\<lparr> problem_id = 3, problem_created_at = ''2024-01-01 00:00:00'', problem_file_id = 12,
        problem_visibility = PUBLIC, problem_name = ''sum'', problem_label = ''s'', problem_simfile = [],
        problem_owner_id = None, problem_updated_at = ''2024-01-01 00:00:00'' \<rparr>],
      db_contests := [\<lparr> contest_id = 4, contest_created_at = ''2024-01-01 00:00:00'', contest_name = ''c'',
        contest_is_public = False \<rparr>],
      db_contest_rounds := [\<lparr> round_id = 6, round_created_at = ''2024-01-01 00:00:00'',
        round_contest_id = 4, round_name = ''r'', round_item = 0, round_begins = ''2024-01-01 00:00:00'',
        round_ends = ''2024-01-02 00:00:00'', round_full_results = ''2024-01-03 00:00:00'',
        round_ranking_exposure = ''2024-01-03 00:00:00'' \<rparr>],
      db_contest_problems := [sample_contest_problem\<lparr>cp_method := HIGHEST_SCORE\<rparr>],
      db_contest_users := [\<lparr> cu_user_id = 7, cu_contest_id = 4, cu_mode = CONTESTANT \<rparr>],
      db_submissions := [sample_submission]\<rparr>"

definition sample_embargo_context :: web_context where
  "sample_embargo_context =
     (new_context \<lparr> rq_method = Method_GET, rq_headers = [], rq_target = [], rq_form_fields = no_fields \<rparr>
        sample_embargo_db)\<lparr>cx_session := Some contestant_session\<rparr>"

definition sample_embargo_env :: web_env where
  "sample_embargo_env = \<lparr> we_now = 0, we_csrf_token = ''c'', we_session_ids = [], we_salt = [] \<rparr>"

definition better_result :: "submission \<Rightarrow> submission" where
  "better_result s = s\<lparr>sub_full_status := Sub_OK, sub_score := Some 100, sub_cp_final := True,
     sub_final_report := ''ok''\<rparr>"

lemma sample_embargo_ok:
  "cx_db sample_embargo_context = sample_embargo_db"
  "cx_session sample_embargo_context = Some contestant_session"
  "keys_ok sample_embargo_db" "refs_ok sample_embargo_db" "contests_consistent sample_embargo_db"
  by (simp_all add: sample_embargo_context_def new_context_def keys_ok_def refs_ok_def refs_defs ids_defs
      contests_consistent_def sample_embargo_db_def empty_db_def sample_submission_def sample_contest_problem_def)

lemma sample_embargo_caps:
  "\<not> sc_view_full_status (caps_on sample_embargo_env sample_embargo_context sample_submission)"
  "\<not> sc_view_score (caps_on sample_embargo_env sample_embargo_context sample_submission)"
  "\<not> sc_view_full_judgement_protocol (caps_on sample_embargo_env sample_embargo_context sample_submission)"
  "\<not> sc_view_if_contest_problem_final (caps_on sample_embargo_env sample_embargo_context sample_submission)"
  "sc_view (caps_on sample_embargo_env sample_embargo_context sample_submission)"
  "joined_full_results sample_embargo_db sample_submission \<noteq> None"
  by code_simp+

lemma sample_embargo_change: "hidden_change sample_embargo_env sample_embargo_context better_result"
  using sample_embargo_caps
  by (simp add: hidden_change_def sample_embargo_ok alike_def better_result_def)
    (simp add: sample_embargo_db_def)

theorem submission_lists_show_only_visible_witness:
  "list_all (shows_visible sample_embargo_env sample_embargo_context)
     (checked_routes sample_embargo_env 7 3 4 6 5 9 sample_embargo_context)"
  by (rule submission_lists_show_only_visible) (simp_all only: sample_embargo_ok)

theorem embargoed_results_do_not_flow_witness:
  "response_of (view_submission sample_embargo_env 1 (with_change better_result sample_embargo_context)) =
     response_of (view_submission sample_embargo_env 1 sample_embargo_context) \<and>
   db_submissions (cx_db (with_change better_result sample_embargo_context)) \<noteq>
     db_submissions (cx_db sample_embargo_context)"
  using embargoed_results_do_not_flow [OF sample_embargo_change, where vid = 1]
  by (simp add: sample_embargo_ok) (simp add: sample_embargo_db_def better_result_def sample_submission_def)

section \<open>The lists of a problem\<close>

text \<open>
  These twelve routes give the problem's id to the capability where it expects the id of the
  problem's owner, without looking the problem up.
\<close>

definition problem_routes ::
  "web_env \<Rightarrow> id \<Rightarrow> id \<Rightarrow> web_context \<Rightarrow> outcome list" where
  "problem_routes env pid sid cx =
     [list_problem_submissions env pid cx,
      list_problem_submissions_below_id env pid sid cx,
      list_problem_submissions_with_type_contest_problem_final env pid cx,
      list_problem_submissions_with_type_contest_problem_final_below_id env pid sid cx,
      list_problem_submissions_with_type_problem_final env pid cx,
      list_problem_submissions_with_type_problem_final_below_id env pid sid cx,
      list_problem_submissions_with_type_final env pid cx,
      list_problem_submissions_with_type_final_below_id env pid sid cx,
      list_problem_submissions_with_type_ignored env pid cx,
      list_problem_submissions_with_type_ignored_below_id env pid sid cx,
      list_problem_submissions_with_type_problem_solution env pid cx,
      list_problem_submissions_with_type_problem_solution_below_id env pid sid cx]"

lemmas problem_routes_defs = problem_routes_def
  list_problem_submissions_def
  list_problem_submissions_below_id_def
  list_problem_submissions_with_type_contest_problem_final_def
  list_problem_submissions_with_type_contest_problem_final_below_id_def
  list_problem_submissions_with_type_problem_final_def
  list_problem_submissions_with_type_problem_final_below_id_def
  list_problem_submissions_with_type_final_def
  list_problem_submissions_with_type_final_below_id_def
  list_problem_submissions_with_type_ignored_def
  list_problem_submissions_with_type_ignored_below_id_def
  list_problem_submissions_with_type_problem_solution_def
  list_problem_submissions_with_type_problem_solution_below_id_def

lemma problem_routes_other:
  assumes "\<not> is_admin (cx_session cx)" "\<not> is_self (cx_session cx) pid"
  shows "problem_routes env pid sid cx = replicate 12 (Inr (response_403 [] cx))"
  using assms
  by (simp add: problem_routes_defs list_problem_submissions_caps_def Let_def numeral_nat replicate_Suc)


definition sample_owner_context :: web_context where
  "sample_owner_context = sample_embargo_context
     \<lparr>cx_db := sample_embargo_db\<lparr>db_problems :=
        map (\<lambda>p. p\<lparr>problem_owner_id := Some 7\<rparr>) (db_problems sample_embargo_db)\<rparr>\<rparr>"


text \<open>
  The session user whose id is the problem's id gets past the check, and then the page throws, because
  the submissions of others are not his to view.
\<close>

definition sample_namesake_context :: web_context where
  "sample_namesake_context = sample_embargo_context
     \<lparr>cx_session := Some (contestant_session\<lparr>cs_user_id := 3\<rparr>)\<rparr>"

lemma namesake_throws:
  "map_sum id (\<lambda>answer. ()) (list_problem_submissions sample_embargo_env 3 sample_namesake_context) =
     Inl (Throw_assert ''caps.view'')"
  by code_simp

end
