(* ===== verification/Contest_Entry_Tokens_Api.thy ===== *)
theory Contest_Entry_Tokens_Api
  imports Submissions_Api
begin

text \<open>
  Contest entry tokens (src/subprojects/sim/src/web_server/contest_entry_tokens/api.cc): the moderators
  of a contest keep at most one token and, with it, at most one short token that lives for an hour;
  whoever knows one may join the contest. Random numbers are drawn from a list of functions, one per
  token; \<open>None\<close>: the list is used up and the loop goes on.
\<close>

section \<open>random.cc\<close>

definition token_chars :: string where
  "token_chars = ''abcdefghijklmnopqrstuvwxyzABCDEFGHIJKLMNOPQRSTUVWXYZ0123456789''"

definition generate_random_token :: "nat \<Rightarrow> (nat \<Rightarrow> nat) \<Rightarrow> string" where
  "generate_random_token len get_random = map (\<lambda>i. token_chars ! get_random i) [0..<len]"

definition token_len :: nat where
  "token_len = 48"

definition short_token_len :: nat where
  "short_token_len = 8"

definition SHORT_TOKEN_MAX_LIFETIME :: int where
  "SHORT_TOKEN_MAX_LIFETIME = 60 * 60"

lemma length_random_token [simp]: "length (generate_random_token len get_random) = len"
  by (simp add: generate_random_token_def)

section \<open>Tokens of a contest\<close>

record tokens_info =
  ti_contest_is_public :: bool
  ti_cu_mode :: "contest_user_mode option"
  ti_token :: "string option"
  ti_short_token :: "string option"
  ti_short_token_real_value :: "string option"
  ti_short_token_expiration :: "datetime option"
  ti_caps_contest :: contest_caps

definition token_of_contest :: "db \<Rightarrow> id \<Rightarrow> contest_entry_token option" where
  "token_of_contest d cid = find (\<lambda>t. cet_contest_id t = cid) (db_contest_entry_tokens d)"

definition get_tokens_info_for :: "web_env \<Rightarrow> web_context \<Rightarrow> id \<Rightarrow> tokens_info option res" where
  "get_tokens_info_for env cx cid =
     (case find_contest (cx_db cx) cid of
        None \<Rightarrow> Inr None
      | Some c \<Rightarrow>
          (let mode = session_user_mode (cx_session cx) (cx_db cx) cid;
               row = token_of_contest (cx_db cx) cid;
               short_token = (case row of None \<Rightarrow> None | Some t \<Rightarrow> cet_short_token t);
               expiration = (case row of None \<Rightarrow> None | Some t \<Rightarrow> cet_short_token_expiration t)
           in if (short_token = None) \<noteq> (expiration = None)
              then Inl (Throw_assert ''ti.short_token.has_value() == ti.short_token_expiration.has_value()'')
              else
                let expired = (case expiration of None \<Rightarrow> False | Some e \<Rightarrow> e \<le> now_of env)
                in Inr (Some
                     \<lparr> ti_contest_is_public = contest_is_public c, ti_cu_mode = mode,
                       ti_token = map_option cet_token row,
                       ti_short_token = (if expired then None else short_token),
                       ti_short_token_real_value = short_token,
                       ti_short_token_expiration = (if expired then None else expiration),
                       ti_caps_contest = contest_for (cx_session cx) (contest_is_public c) mode \<rparr>)))"

definition with_tokens_info :: "web_env \<Rightarrow> id \<Rightarrow> (tokens_info \<Rightarrow> web_handler) \<Rightarrow> web_handler" where
  "with_tokens_info env cid func cx =
     (case get_tokens_info_for env cx cid of
        Inl e \<Rightarrow> Some (Inl e)
      | Inr None \<Rightarrow> Some (Inr (response_404 cx))
      | Inr (Some ti) \<Rightarrow> func ti cx)"

definition token_caps_of :: "contest_entry_token_kind \<Rightarrow> web_context \<Rightarrow> tokens_info \<Rightarrow> contest_entry_token_caps" where
  "token_caps_of kind cx ti = contest_entry_token_for kind (cx_session cx) (ti_caps_contest ti) (ti_cu_mode ti)"

section \<open>The contest of a token\<close>

record token_contest_info =
  tci_contest_id :: id
  tci_contest_name :: string
  tci_caps_contest :: contest_caps
  tci_caps_token :: contest_entry_token_caps

definition token_matches :: "datetime \<Rightarrow> string \<Rightarrow> contest_entry_token \<Rightarrow> bool" where
  "token_matches now text t \<longleftrightarrow>
     cet_token t = text \<or>
     cet_short_token t = Some text \<and>
       (case cet_short_token_expiration t of None \<Rightarrow> False | Some e \<Rightarrow> now < e)"

definition get_token_contest_info_for :: "web_env \<Rightarrow> web_context \<Rightarrow> string \<Rightarrow> token_contest_info option res" where
  "get_token_contest_info_for env cx text =
     (let kind = (if length text = token_len then Token_NORMAL else Token_SHORT)
      in case find (token_matches (now_of env) text) (db_contest_entry_tokens (cx_db cx)) of
           None \<Rightarrow> Inr None
         | Some t \<Rightarrow>
             (case find_contest (cx_db cx) (cet_contest_id t) of
                None \<Rightarrow> Inl (Throw ''Unexpected NULL'')
              | Some c \<Rightarrow>
                  (let mode = session_user_mode (cx_session cx) (cx_db cx) (contest_id c);
                       caps = contest_for (cx_session cx) (contest_is_public c) mode
                   in Inr (Some
                        \<lparr> tci_contest_id = contest_id c, tci_contest_name = contest_name c,
                          tci_caps_contest = caps,
                          tci_caps_token = contest_entry_token_for kind (cx_session cx) caps mode \<rparr>))))"

definition with_token_contest_info ::
  "web_env \<Rightarrow> string \<Rightarrow> (token_contest_info \<Rightarrow> web_context \<Rightarrow> outcome) \<Rightarrow> web_context \<Rightarrow> outcome" where
  "with_token_contest_info env text func cx =
     (case get_token_contest_info_for env cx text of
        Inl e \<Rightarrow> Inl e
      | Inr None \<Rightarrow> Inr (response_404 cx)
      | Inr (Some tci) \<Rightarrow> func tci cx)"

section \<open>JSON\<close>

definition prop_capabilites :: "contest_entry_token_caps \<Rightarrow> string \<times> json" where
  "prop_capabilites caps =
     (''capabilities'', J_obj [(''create'', J_bool (tok_create caps)),
        (''regenerate'', J_bool (tok_regenerate caps)), (''delete'', J_bool (tok_delete caps))])"

definition prop_token :: "tokens_info \<Rightarrow> contest_entry_token_caps \<Rightarrow> (string \<times> json) list" where
  "prop_token ti caps =
     (if tok_view caps
      then [(''token'', J_obj [(''value'', J_opt J_str (ti_token ti)), prop_capabilites caps])]
      else [])"

definition prop_short_token :: "tokens_info \<Rightarrow> contest_entry_token_caps \<Rightarrow> (string \<times> json) list" where
  "prop_short_token ti caps =
     (if tok_view caps
      then [(''short_token'', J_obj [(''value'', J_opt J_str (ti_short_token ti)),
              (''expires_at'', J_opt datetime_json (ti_short_token_expiration ti)), prop_capabilites caps])]
      else [])"

section \<open>Statements\<close>

text \<open>The primary key on \<open>token\<close> and the unique keys on \<open>contest_id\<close> and \<open>short_token\<close> raise an error.\<close>

definition insert_token :: "contest_entry_token \<Rightarrow> db \<Rightarrow> db res" where
  "insert_token row d =
     (if cet_token row \<in> cet_token ` set (db_contest_entry_tokens d) \<or>
         cet_contest_id row \<in> cet_contest_id ` set (db_contest_entry_tokens d)
      then Inl (Throw ''Duplicate entry'')
      else Inr (d\<lparr>db_contest_entry_tokens := db_contest_entry_tokens d @ [row]\<rparr>))"

definition update_tokens ::
  "id \<Rightarrow> (contest_entry_token \<Rightarrow> contest_entry_token) \<Rightarrow> db \<Rightarrow> db" where
  "update_tokens cid f d =
     d\<lparr>db_contest_entry_tokens := update_where (\<lambda>t. cet_contest_id t = cid) f (db_contest_entry_tokens d)\<rparr>"

definition set_token :: "string \<Rightarrow> id \<Rightarrow> db \<Rightarrow> db res" where
  "set_token new_token cid d =
     (if list_ex (\<lambda>t. cet_token t = new_token \<and> cet_contest_id t \<noteq> cid) (db_contest_entry_tokens d)
      then Inl (Throw ''Duplicate entry'')
      else Inr (update_tokens cid (\<lambda>t. t\<lparr>cet_token := new_token\<rparr>) d))"

definition set_short_token :: "string \<Rightarrow> datetime \<Rightarrow> id \<Rightarrow> db \<Rightarrow> db res" where
  "set_short_token short_token expiration cid d =
     (if list_ex (\<lambda>t. cet_short_token t = Some short_token \<and> cet_contest_id t \<noteq> cid) (db_contest_entry_tokens d)
      then Inl (Throw ''Duplicate entry'')
      else Inr (update_tokens cid
        (\<lambda>t. t\<lparr>cet_short_token := Some short_token, cet_short_token_expiration := Some expiration\<rparr>) d))"

definition delete_tokens_where :: "(contest_entry_token \<Rightarrow> bool) \<Rightarrow> db \<Rightarrow> db" where
  "delete_tokens_where p d = d\<lparr>db_contest_entry_tokens := delete_where p (db_contest_entry_tokens d)\<rparr>"

text \<open>INSERT IGNORE skips a row whose key is taken or whose references do not exist.\<close>

definition insert_ignore_contest_user :: "contest_user \<Rightarrow> db \<Rightarrow> db option" where
  "insert_ignore_contest_user row d =
     (if (cu_user_id row, cu_contest_id row) \<in> (\<lambda>cu. (cu_user_id cu, cu_contest_id cu)) ` set (db_contest_users d) \<or>
         cu_user_id row \<notin> user_ids d \<or> cu_contest_id row \<notin> contest_ids d
      then None
      else Some (d\<lparr>db_contest_users := db_contest_users d @ [row]\<rparr>))"

section \<open>Operations\<close>

definition view_tokens :: "web_env \<Rightarrow> id \<Rightarrow> web_handler" where
  "view_tokens env cid =
     with_tokens_info env cid (\<lambda>ti cx.
       if \<not> co_entry_tokens_view (ti_caps_contest ti) then Some (Inr (response_403 [] cx))
       else Some (Inr (response_json (json_render (J_obj
              (prop_token ti (token_caps_of Token_NORMAL cx ti) @
               prop_short_token ti (token_caps_of Token_SHORT cx ti)))) cx)))"

definition token_written :: "db res \<Rightarrow> (string \<times> json) list \<Rightarrow> web_context \<Rightarrow> outcome" where
  "token_written r props cx =
     map_sum id (\<lambda>d. response_json (json_render (J_obj props)) (cx\<lparr>cx_db := d\<rparr>)) r"

definition add_token :: "web_env \<Rightarrow> (nat \<Rightarrow> nat) list \<Rightarrow> id \<Rightarrow> web_handler" where
  "add_token env draws cid =
     with_tokens_info env cid (\<lambda>ti cx.
       let token_caps = token_caps_of Token_NORMAL cx ti
       in if \<not> tok_create token_caps then Some (Inr (response_403 [] cx))
          else if ti_token ti \<noteq> None
          then Some (Inr (response_400 ''Contest already has an entry token'' cx))
          else case draws of
                 [] \<Rightarrow> None
               | r # rs \<Rightarrow>
                   let token = generate_random_token token_len r
                   in Some (token_written
                        (insert_token \<lparr> cet_token = token, cet_contest_id = cid, cet_short_token = None,
                           cet_short_token_expiration = None \<rparr> (cx_db cx))
                        (prop_token (ti\<lparr>ti_token := Some token\<rparr>) token_caps) cx))"

text \<open>The loops that draw until the token differs from the old one.\<close>

fun draw_other :: "nat \<Rightarrow> (nat \<Rightarrow> nat) list \<Rightarrow> string option \<Rightarrow> string option" where
  "draw_other len [] old = None"
| "draw_other len (r # rs) old =
     (let token = generate_random_token len r
      in if Some token = old then draw_other len rs old else Some token)"

definition regenerate_token :: "web_env \<Rightarrow> (nat \<Rightarrow> nat) list \<Rightarrow> id \<Rightarrow> web_handler" where
  "regenerate_token env draws cid =
     with_tokens_info env cid (\<lambda>ti cx.
       let token_caps = token_caps_of Token_NORMAL cx ti
       in if \<not> tok_regenerate token_caps then Some (Inr (response_403 [] cx))
          else if ti_token ti = None
          then Some (Inr (response_400 ''Contest does not have an entry token'' cx))
          else map_option (\<lambda>new_token.
                 token_written (set_token new_token cid (cx_db cx))
                   (prop_token (ti\<lparr>ti_token := Some new_token\<rparr>) token_caps) cx)
               (draw_other token_len draws (ti_token ti)))"

definition delete_token :: "web_env \<Rightarrow> id \<Rightarrow> web_handler" where
  "delete_token env cid =
     with_tokens_info env cid (\<lambda>ti cx.
       if \<not> tok_delete (token_caps_of Token_NORMAL cx ti) then Some (Inr (response_403 [] cx))
       else if \<not> tok_delete (token_caps_of Token_SHORT cx ti)
       then Some (Inl (Throw_assert ''contest_entry_token_for(SHORT).delete_''))
       else Some (Inr (response_ok [] text_plain
              (cx\<lparr>cx_db := delete_tokens_where (\<lambda>t. cet_contest_id t = cid) (cx_db cx)\<rparr>))))"

definition set_or_regen_short_token ::
  "web_env \<Rightarrow> (nat \<Rightarrow> nat) list \<Rightarrow> id \<Rightarrow> tokens_info \<Rightarrow> contest_entry_token_caps \<Rightarrow> web_handler" where
  "set_or_regen_short_token env draws cid ti caps cx =
     map_option (\<lambda>short_token.
         let expiration = utc_mysql_datetime (we_now env + SHORT_TOKEN_MAX_LIFETIME)
         in token_written (set_short_token short_token expiration cid (cx_db cx))
              (prop_short_token (ti\<lparr>ti_short_token := Some short_token,
                 ti_short_token_expiration := Some expiration\<rparr>) caps) cx)
       (draw_other short_token_len draws (ti_short_token_real_value ti))"

definition add_short_token :: "web_env \<Rightarrow> (nat \<Rightarrow> nat) list \<Rightarrow> id \<Rightarrow> web_handler" where
  "add_short_token env draws cid =
     with_tokens_info env cid (\<lambda>ti cx.
       let short_token_caps = token_caps_of Token_SHORT cx ti
       in if \<not> tok_create short_token_caps then Some (Inr (response_403 [] cx))
          else if ti_token ti = None
          then Some (Inr (response_400 ''Contest does not have an entry token'' cx))
          else if ti_short_token ti \<noteq> None
          then Some (Inr (response_400 ''Contest already has a short entry token'' cx))
          else set_or_regen_short_token env draws cid ti short_token_caps cx)"

definition regenerate_short_token :: "web_env \<Rightarrow> (nat \<Rightarrow> nat) list \<Rightarrow> id \<Rightarrow> web_handler" where
  "regenerate_short_token env draws cid =
     with_tokens_info env cid (\<lambda>ti cx.
       let short_token_caps = token_caps_of Token_SHORT cx ti
       in if \<not> tok_regenerate short_token_caps then Some (Inr (response_403 [] cx))
          else if ti_short_token ti = None
          then Some (Inr (response_400 ''Contest does not have a short entry token'' cx))
          else set_or_regen_short_token env draws cid ti short_token_caps cx)"

definition delete_short_token :: "web_env \<Rightarrow> id \<Rightarrow> web_handler" where
  "delete_short_token env cid =
     with_tokens_info env cid (\<lambda>ti cx.
       if \<not> tok_delete (token_caps_of Token_SHORT cx ti) then Some (Inr (response_403 [] cx))
       else Some (Inr (response_ok [] text_plain
              (cx\<lparr>cx_db := update_tokens cid
                 (\<lambda>t. t\<lparr>cet_short_token := None, cet_short_token_expiration := None\<rparr>) (cx_db cx)\<rparr>))))"

definition view_contest_name :: "web_env \<Rightarrow> string \<Rightarrow> web_context \<Rightarrow> outcome" where
  "view_contest_name env text =
     with_token_contest_info env text (\<lambda>ci cx.
       if \<not> tok_view_contest_name (tci_caps_token ci) then Inr (response_403 [] cx)
       else Inr (response_json (json_render (J_obj [(''contest'', J_obj
              [(''id'', id_json (tci_contest_id ci)), (''name'', J_str (tci_contest_name ci))])])) cx))"

definition use_token :: "web_env \<Rightarrow> string \<Rightarrow> web_context \<Rightarrow> outcome" where
  "use_token env text =
     with_token_contest_info env text (\<lambda>ci cx.
       if \<not> tok_use (tci_caps_token ci) then Inr (response_403 [] cx)
       else case cx_session cx of
              None \<Rightarrow> Inl (Throw_assert ''ctx.session'')
            | Some s \<Rightarrow>
                (case insert_ignore_contest_user
                        \<lparr> cu_user_id = cs_user_id s, cu_contest_id = tci_contest_id ci, cu_mode = CONTESTANT \<rparr>
                        (cx_db cx) of
                   None \<Rightarrow> Inr (response_400 ''You already participate in the contest'' cx)
                 | Some d \<Rightarrow> Inr (response_ok [] text_plain (cx\<lparr>cx_db := d\<rparr>))))"

end
