(* ===== verification/Entry_Token_Safety.thy ===== *)
theory Entry_Token_Safety
  imports Contest_Entry_Tokens_Api Users_Safety
begin

text \<open>
  The contest entry tokens API as a whole: the steps a request may make and the authority each needs
  (\<open>token_step\<close>), the invariant of the tokens, what may be thrown, and which texts open a contest after
  each operation (\<open>openers\<close>, \<open>token_effect\<close>).
\<close>

section \<open>The API as a transition system\<close>

text \<open>The POST routes of the tokens in web_worker.cc.\<close>

datatype token_post =
    Post_add_token id
  | Post_add_short_token id
  | Post_delete_token id
  | Post_delete_short_token id
  | Post_regenerate_token id
  | Post_regenerate_short_token id
  | Post_use_token string

fun token_post_handler :: "web_env \<Rightarrow> (nat \<Rightarrow> nat) list \<Rightarrow> token_post \<Rightarrow> web_handler" where
  "token_post_handler env draws (Post_add_token cid) = add_token env draws cid"
| "token_post_handler env draws (Post_add_short_token cid) = add_short_token env draws cid"
| "token_post_handler env draws (Post_delete_token cid) = delete_token env cid"
| "token_post_handler env draws (Post_delete_short_token cid) = delete_short_token env cid"
| "token_post_handler env draws (Post_regenerate_token cid) = regenerate_token env draws cid"
| "token_post_handler env draws (Post_regenerate_short_token cid) = regenerate_short_token env draws cid"
| "token_post_handler env draws (Post_use_token text) = total_handler (use_token env text)"

definition serve_token_post ::
  "web_env \<Rightarrow> (nat \<Rightarrow> nat) list \<Rightarrow> http_request \<Rightarrow> token_post \<Rightarrow> db \<Rightarrow> served option" where
  "serve_token_post env draws rq post d = handler_impl env rq (post_handler (token_post_handler env draws post)) d"

definition manages_tokens :: "ctx_session option \<Rightarrow> db \<Rightarrow> id \<Rightarrow> bool" where
  "manages_tokens session d cid \<longleftrightarrow>
     find_contest d cid \<noteq> None \<and>
     (is_admin session \<or> session_user_mode session d cid \<in> {Some OWNER, Some MODERATOR})"

definition short_expiration :: "web_env \<Rightarrow> datetime" where
  "short_expiration env = utc_mysql_datetime (we_now env + SHORT_TOKEN_MAX_LIFETIME)"

text \<open>What a request of \<open>actor\<close> may do to the database, with the authority each change needs.\<close>

inductive token_step :: "web_env \<Rightarrow> ctx_session option \<Rightarrow> db \<Rightarrow> token_post \<Rightarrow> db \<Rightarrow> bool" for env actor d where
  tok_nothing: "token_step env actor d post d"
| tok_add: "manages_tokens actor d cid \<Longrightarrow> token_of_contest d cid = None \<Longrightarrow> length token = token_len \<Longrightarrow>
    insert_token \<lparr> cet_token = token, cet_contest_id = cid, cet_short_token = None,
      cet_short_token_expiration = None \<rparr> d = Inr d' \<Longrightarrow> token_step env actor d (Post_add_token cid) d'"
| tok_regenerate: "manages_tokens actor d cid \<Longrightarrow> token_of_contest d cid = Some t \<Longrightarrow> token \<noteq> cet_token t \<Longrightarrow>
    length token = token_len \<Longrightarrow> set_token token cid d = Inr d' \<Longrightarrow>
    token_step env actor d (Post_regenerate_token cid) d'"
| tok_delete: "manages_tokens actor d cid \<Longrightarrow>
    token_step env actor d (Post_delete_token cid) (delete_tokens_where (\<lambda>t. cet_contest_id t = cid) d)"
| tok_short: "manages_tokens actor d cid \<Longrightarrow> token_of_contest d cid = Some t \<Longrightarrow>
    cet_short_token t \<noteq> Some short_token \<Longrightarrow> length short_token = short_token_len \<Longrightarrow>
    set_short_token short_token (short_expiration env) cid d = Inr d' \<Longrightarrow>
    post = Post_add_short_token cid \<or> post = Post_regenerate_short_token cid \<Longrightarrow>
    token_step env actor d post d'"
| tok_delete_short: "manages_tokens actor d cid \<Longrightarrow>
    token_step env actor d (Post_delete_short_token cid)
      (update_tokens cid (\<lambda>t. t\<lparr>cet_short_token := None, cet_short_token_expiration := None\<rparr>) d)"
| tok_join: "actor = Some s \<Longrightarrow> t \<in> set (db_contest_entry_tokens d) \<Longrightarrow> token_matches (now_of env) text t \<Longrightarrow>
    insert_ignore_contest_user \<lparr> cu_user_id = cs_user_id s, cu_contest_id = cet_contest_id t,
      cu_mode = CONTESTANT \<rparr> d = Some d' \<Longrightarrow> token_step env actor d (Post_use_token text) d'"

definition shorts_differ :: "contest_entry_token \<Rightarrow> contest_entry_token \<Rightarrow> bool" where
  "shorts_differ t t' \<longleftrightarrow> cet_short_token t = None \<or> cet_short_token t \<noteq> cet_short_token t'"

definition token_row_ok :: "contest_entry_token \<Rightarrow> bool" where
  "token_row_ok t \<longleftrightarrow> length (cet_token t) = token_len \<and>
     (cet_short_token t = None) = (cet_short_token_expiration t = None) \<and>
     (case cet_short_token t of None \<Rightarrow> True | Some s \<Rightarrow> length s = short_token_len)"

definition short_tokens_ok :: "contest_entry_token list \<Rightarrow> bool" where
  "short_tokens_ok ts \<longleftrightarrow> sorted_wrt shorts_differ ts \<and> list_all token_row_ok ts"

definition tokens_consistent :: "db \<Rightarrow> bool" where
  "tokens_consistent d \<longleftrightarrow> keys_ok d \<and> refs_ok d \<and> short_tokens_ok (db_contest_entry_tokens d)"

section \<open>Handlers make steps\<close>

lemma token_caps_flags:
  assumes "get_tokens_info_for env cx cid = Inr (Some ti)"
  shows "tok_create (token_caps_of kind cx ti) = manages_tokens (cx_session cx) (cx_db cx) cid"
    "tok_regenerate (token_caps_of kind cx ti) = manages_tokens (cx_session cx) (cx_db cx) cid"
    "tok_delete (token_caps_of kind cx ti) = manages_tokens (cx_session cx) (cx_db cx) cid"
  using assms
  by (auto simp: get_tokens_info_for_def token_caps_of_def manages_tokens_def contest_for_def Let_def
      split: option.splits if_split_asm)

lemma tokens_info_fields:
  assumes "get_tokens_info_for env cx cid = Inr (Some ti)"
  shows "ti_token ti = map_option cet_token (token_of_contest (cx_db cx) cid)"
    "ti_short_token_real_value ti =
       (case token_of_contest (cx_db cx) cid of None \<Rightarrow> None | Some t \<Rightarrow> cet_short_token t)"
    "ti_short_token ti = Some x \<Longrightarrow> token_of_contest (cx_db cx) cid \<noteq> None"
  using assms
  by (auto simp: get_tokens_info_for_def Let_def split: option.splits if_split_asm)

lemma draw_other_Some: "draw_other len draws old = Some token \<Longrightarrow> Some token \<noteq> old \<and> length token = len"
  by (induction len draws old rule: draw_other.induct) (auto simp: Let_def split: if_split_asm)

text \<open>What a handler may answer, and that the rest of the context stays.\<close>

definition step_made :: "web_env \<Rightarrow> web_context \<Rightarrow> token_post \<Rightarrow> outcome \<Rightarrow> bool" where
  "step_made env cx post r \<longleftrightarrow>
     (case r of
        Inl e \<Rightarrow> True
      | Inr (cx', resp) \<Rightarrow> cx_session cx' = cx_session cx \<and>
          token_step env (cx_session cx) (cx_db cx) post (cx_db cx'))"

lemma step_made_simps [simp]:
  "step_made env cx post (Inl e)"
  "step_made env cx post (Inr (response_404 cx))"
  "step_made env cx post (Inr (response_403 c cx))"
  "step_made env cx post (Inr (response_400 m cx))"
  "step_made env cx post (Inr (response_ok c k (cx\<lparr>cx_db := d\<rparr>))) =
     token_step env (cx_session cx) (cx_db cx) post d"
  "step_made env cx post (token_written (Inr d) props cx) =
     token_step env (cx_session cx) (cx_db cx) post d"
  "step_made env cx post (token_written (Inl e) props cx)"
  by (simp_all add: step_made_def token_written_def response_404_def response_403_def response_400_def
      response_ok_def response_json_def respond_def tok_nothing split: option.split user_type.split)

lemma step_made_written:
  "(\<And>d. r = Inr d \<Longrightarrow> token_step env (cx_session cx) (cx_db cx) post d) \<Longrightarrow>
    step_made env cx post (token_written r props cx)"
  by (cases r) simp_all

lemma with_tokens_info_step:
  assumes "with_tokens_info env cid func cx = Some r"
    and "\<And>ti. get_tokens_info_for env cx cid = Inr (Some ti) \<Longrightarrow> func ti cx = Some r \<Longrightarrow> step_made env cx post r"
  shows "step_made env cx post r"
  using assms by (auto simp: with_tokens_info_def split: sum.splits option.splits)

lemma set_or_regen_short_token_step:
  assumes "get_tokens_info_for env cx cid = Inr (Some ti)"
    and "set_or_regen_short_token env draws cid ti caps cx = Some r"
    and "manages_tokens (cx_session cx) (cx_db cx) cid" "token_of_contest (cx_db cx) cid = Some t"
    and "post = Post_add_short_token cid \<or> post = Post_regenerate_short_token cid"
  shows "step_made env cx post r"
proof -
  obtain short_token where drawn: "draw_other short_token_len draws (cet_short_token t) = Some short_token"
      and r: "r = token_written (set_short_token short_token (short_expiration env) cid (cx_db cx))
        (prop_short_token (ti\<lparr>ti_short_token := Some short_token,
           ti_short_token_expiration := Some (short_expiration env)\<rparr>) caps) cx"
    using assms(2,4) tokens_info_fields(2) [OF assms(1)]
    by (auto simp: set_or_regen_short_token_def Let_def short_expiration_def)
  show ?thesis
    unfolding r using draw_other_Some [OF drawn]
    by (intro step_made_written tok_short [OF assms(3,4) _ _ _ assms(5)]) auto
qed

lemma add_token_step: "add_token env draws cid cx = Some r \<Longrightarrow> step_made env cx (Post_add_token cid) r"
  unfolding add_token_def
  by (erule with_tokens_info_step)
    (auto simp: Let_def token_caps_flags tokens_info_fields split: if_split_asm list.split_asm
      intro!: step_made_written tok_add)

lemma regenerate_token_step:
  assumes "regenerate_token env draws cid cx = Some r"
  shows "step_made env cx (Post_regenerate_token cid) r"
  using assms unfolding regenerate_token_def
proof (rule with_tokens_info_step)
  fix ti
  let ?caps = "token_caps_of Token_NORMAL cx ti"
  assume info: "get_tokens_info_for env cx cid = Inr (Some ti)"
    and r: "(let token_caps = ?caps
       in if \<not> tok_regenerate token_caps then Some (Inr (response_403 [] cx))
          else if ti_token ti = None then Some (Inr (response_400 ''Contest does not have an entry token'' cx))
          else map_option (\<lambda>new_token. token_written (set_token new_token cid (cx_db cx))
                 (prop_token (ti\<lparr>ti_token := Some new_token\<rparr>) token_caps) cx)
               (draw_other token_len draws (ti_token ti))) = Some r"
  show "step_made env cx (Post_regenerate_token cid) r"
  proof (cases "manages_tokens (cx_session cx) (cx_db cx) cid \<and> ti_token ti \<noteq> None")
    case False
    then show ?thesis using r token_caps_flags [OF info] by (auto simp: Let_def split: if_split_asm)
  next
    case True
    then obtain t where t: "token_of_contest (cx_db cx) cid = Some t" "ti_token ti = Some (cet_token t)"
      using tokens_info_fields(1) [OF info] by auto
    then obtain token where token: "draw_other token_len draws (Some (cet_token t)) = Some token"
        and r': "r = token_written (set_token token cid (cx_db cx))
          (prop_token (ti\<lparr>ti_token := Some token\<rparr>) ?caps) cx"
      using r True token_caps_flags [OF info] by (auto simp: Let_def)
    have "token \<noteq> cet_token t" "length token = token_len" using draw_other_Some [OF token] by auto
    then show ?thesis
      unfolding r' using True t(1) by (blast intro: step_made_written tok_regenerate)
  qed
qed

lemma delete_token_step: "delete_token env cid cx = Some r \<Longrightarrow> step_made env cx (Post_delete_token cid) r"
  unfolding delete_token_def
  by (erule with_tokens_info_step) (auto simp: token_caps_flags split: if_split_asm intro!: tok_delete)

lemma delete_short_token_step:
  "delete_short_token env cid cx = Some r \<Longrightarrow> step_made env cx (Post_delete_short_token cid) r"
  unfolding delete_short_token_def
  by (erule with_tokens_info_step) (auto simp: token_caps_flags split: if_split_asm intro!: tok_delete_short)

lemma add_short_token_step:
  "add_short_token env draws cid cx = Some r \<Longrightarrow> step_made env cx (Post_add_short_token cid) r"
  unfolding add_short_token_def
  by (erule with_tokens_info_step)
    (auto simp: Let_def token_caps_flags tokens_info_fields split: if_split_asm
      intro: set_or_regen_short_token_step)

lemma regenerate_short_token_step:
  "regenerate_short_token env draws cid cx = Some r \<Longrightarrow> step_made env cx (Post_regenerate_short_token cid) r"
  unfolding regenerate_short_token_def
  by (erule with_tokens_info_step)
    (auto simp: Let_def token_caps_flags split: if_split_asm dest: tokens_info_fields(3)
      intro: set_or_regen_short_token_step)

lemma use_token_step: "use_token env text cx = r \<Longrightarrow> step_made env cx (Post_use_token text) r"
proof (cases "find (token_matches (now_of env) text) (db_contest_entry_tokens (cx_db cx))")
  case None
  assume "use_token env text cx = r"
  then show ?thesis
    using None by (auto simp: use_token_def with_token_contest_info_def get_token_contest_info_for_def Let_def)
next
  case (Some t)
  assume r: "use_token env text cx = r"
  have t: "t \<in> set (db_contest_entry_tokens (cx_db cx))" "token_matches (now_of env) text t"
    using Some by (auto simp: find_Some_iff)
  have "contest_id c = cet_contest_id t" if "find_contest (cx_db cx) (cet_contest_id t) = Some c" for c
    using that by (auto simp: find_contest_def dest: find_key_Some)
  then show ?thesis
    using Some r
    by (auto simp: use_token_def with_token_contest_info_def get_token_contest_info_for_def Let_def
        split: option.split_asm if_split_asm intro!: tok_join [OF _ t])
qed

lemma token_post_handler_step:
  "token_post_handler env draws post cx = Some r \<Longrightarrow> step_made env cx post r"
  by (cases post)
    (simp_all add: add_token_step regenerate_token_step delete_token_step delete_short_token_step
      add_short_token_step regenerate_short_token_step use_token_step total_handler_def)

section \<open>What may be thrown\<close>

lemma token_of_contest_Some:
  "token_of_contest d cid = Some t \<Longrightarrow> t \<in> set (db_contest_entry_tokens d) \<and> cet_contest_id t = cid"
  by (auto simp: token_of_contest_def dest: find_key_Some)

lemma tokens_info_returns:
  assumes "tokens_consistent (cx_db cx)"
  shows "get_tokens_info_for env cx cid \<noteq> Inl e"
  using assms token_of_contest_Some [of "cx_db cx" cid]
  by (auto simp: get_tokens_info_for_def Let_def tokens_consistent_def short_tokens_ok_def list_all_iff
      token_row_ok_def split: option.splits)

lemma with_tokens_info_raises:
  assumes "with_tokens_info env cid func cx = Some (Inl e)" "tokens_consistent (cx_db cx)"
    and "\<And>ti. get_tokens_info_for env cx cid = Inr (Some ti) \<Longrightarrow> func ti cx = Some (Inl e) \<Longrightarrow>
      e = Throw ''Duplicate entry''"
  shows "e = Throw ''Duplicate entry''"
  using assms tokens_info_returns [OF assms(2)]
  by (auto simp: with_tokens_info_def split: sum.splits option.splits)

lemma token_written_raises:
  "token_written (insert_token row d) props cx = Inl e \<Longrightarrow> e = Throw ''Duplicate entry''"
  "token_written (set_token token cid d) props cx = Inl e \<Longrightarrow> e = Throw ''Duplicate entry''"
  "token_written (set_short_token token expiration cid d) props cx = Inl e \<Longrightarrow> e = Throw ''Duplicate entry''"
  by (auto simp: token_written_def insert_token_def set_token_def set_short_token_def split: if_split_asm)

lemma short_token_raises:
  "set_or_regen_short_token env draws cid ti caps cx = Some (Inl e) \<Longrightarrow> e = Throw ''Duplicate entry''"
  by (auto simp: set_or_regen_short_token_def Let_def dest: token_written_raises)

lemma use_token_raises:
  assumes "tokens_consistent (cx_db cx)"
  shows "use_token env text cx \<noteq> Inl e"
proof -
  have "find_contest (cx_db cx) (cet_contest_id t) \<noteq> None"
    if "find (token_matches (now_of env) text) (db_contest_entry_tokens (cx_db cx)) = Some t" for t
  proof -
    have "t \<in> set (db_contest_entry_tokens (cx_db cx))" using that by (auto simp: find_Some_iff)
    then have "cet_contest_id t \<in> contest_ids (cx_db cx)"
      using assms by (auto simp: tokens_consistent_def refs_ok_def)
    then show ?thesis by (auto simp: find_contest_def contest_ids_def find_key_None)
  qed
  then show ?thesis
    by (auto simp: use_token_def with_token_contest_info_def get_token_contest_info_for_def Let_def
        split: option.split)
qed

lemma token_post_handler_raises:
  assumes "token_post_handler env draws post cx = Some (Inl e)" "tokens_consistent (cx_db cx)"
  shows "e = Throw ''Duplicate entry''"
proof (cases post)
  case (Post_add_token cid)
  then have "add_token env draws cid cx = Some (Inl e)" using assms(1) by simp
  then show ?thesis
    unfolding add_token_def
    by (rule with_tokens_info_raises [OF _ assms(2)])
      (auto simp: Let_def split: if_split_asm list.split_asm dest: token_written_raises)
next
  case (Post_add_short_token cid)
  then have "add_short_token env draws cid cx = Some (Inl e)" using assms(1) by simp
  then show ?thesis
    unfolding add_short_token_def
    by (rule with_tokens_info_raises [OF _ assms(2)])
      (auto simp: Let_def split: if_split_asm dest: short_token_raises)
next
  case (Post_delete_token cid)
  then have "delete_token env cid cx = Some (Inl e)" using assms(1) by simp
  then show ?thesis
    unfolding delete_token_def
    by (rule with_tokens_info_raises [OF _ assms(2)])
      (auto simp: token_caps_flags split: if_split_asm)
next
  case (Post_delete_short_token cid)
  then have "delete_short_token env cid cx = Some (Inl e)" using assms(1) by simp
  then show ?thesis
    unfolding delete_short_token_def
    by (rule with_tokens_info_raises [OF _ assms(2)]) (auto split: if_split_asm)
next
  case (Post_regenerate_token cid)
  then have "regenerate_token env draws cid cx = Some (Inl e)" using assms(1) by simp
  then show ?thesis
    unfolding regenerate_token_def
    by (rule with_tokens_info_raises [OF _ assms(2)])
      (auto simp: Let_def split: if_split_asm dest: token_written_raises)
next
  case (Post_regenerate_short_token cid)
  then have "regenerate_short_token env draws cid cx = Some (Inl e)" using assms(1) by simp
  then show ?thesis
    unfolding regenerate_short_token_def
    by (rule with_tokens_info_raises [OF _ assms(2)])
      (auto simp: Let_def split: if_split_asm dest: short_token_raises)
next
  case (Post_use_token word)
  then show ?thesis using assms use_token_raises by (auto simp: total_handler_def)
qed

section \<open>The invariant\<close>

lemma distinct_map_pairwise: "distinct (map k xs) \<longleftrightarrow> sorted_wrt (\<lambda>a b. k a \<noteq> k b) xs"
  by (induction xs) auto

text \<open>Changing the only row with a key keeps what holds between every two rows.\<close>

lemma sorted_wrt_update:
  assumes "sorted_wrt P ts" "distinct (map c ts)"
    and "\<And>a b. a \<in> set ts \<Longrightarrow> b \<in> set ts \<Longrightarrow> c a = cid \<Longrightarrow> c b \<noteq> cid \<Longrightarrow> P (f a) b \<and> P b (f a)"
  shows "sorted_wrt P (update_where (\<lambda>t. c t = cid) f ts)"
  using assms
proof (induction ts)
  case Nil
  then show ?case by (simp add: update_where_def)
next
  case (Cons x ts)
  show ?case
  proof (cases "c x = cid")
    case True
    have others: "c b \<noteq> cid" if "b \<in> set ts" for b
      using Cons.prems(2) True image_eqI [OF refl that, of c] by auto
    then have "update_where (\<lambda>t. c t = cid) f ts = ts"
      by (auto simp: update_where_def intro!: map_idI)
    then show ?thesis
      using Cons.prems(1,3) True others by (auto simp: update_where_def)
  next
    case False
    then show ?thesis
      using Cons by (auto simp: update_where_def)
  qed
qed

lemma tokens_consistent_update:
  assumes "tokens_consistent d" "distinct (map cet_token ts)" "distinct (map cet_contest_id ts)"
    and "cet_contest_id ` set ts \<subseteq> contest_ids d" "short_tokens_ok ts"
  shows "tokens_consistent (d\<lparr>db_contest_entry_tokens := ts\<rparr>)"
proof -
  have "keys_ok (d\<lparr>db_contest_entry_tokens := ts\<rparr>)"
    using assms(1-3) by (simp add: tokens_consistent_def keys_ok_def)
  moreover have "refs_ok (d\<lparr>db_contest_entry_tokens := ts\<rparr>)"
    using assms(1,4) by (auto simp: tokens_consistent_def refs_ok_def refs_defs ids_defs)
  ultimately show ?thesis using assms(5) by (simp add: tokens_consistent_def)
qed

lemma tokens_consistentD:
  assumes "tokens_consistent d"
  shows "distinct (map cet_token (db_contest_entry_tokens d))"
    "distinct (map cet_contest_id (db_contest_entry_tokens d))"
    "cet_contest_id ` set (db_contest_entry_tokens d) \<subseteq> contest_ids d"
    "short_tokens_ok (db_contest_entry_tokens d)"
  using assms by (auto simp: tokens_consistent_def keys_ok_def refs_ok_def)

lemma tokens_consistent_map:
  assumes ok: "tokens_consistent d"
    and f: "\<And>t. cet_contest_id (f t) = cet_contest_id t"
    and token: "\<And>a b. a \<in> set (db_contest_entry_tokens d) \<Longrightarrow> b \<in> set (db_contest_entry_tokens d) \<Longrightarrow>
      cet_contest_id a = cid \<Longrightarrow> cet_contest_id b \<noteq> cid \<Longrightarrow> cet_token (f a) \<noteq> cet_token b"
    and short: "\<And>a b. a \<in> set (db_contest_entry_tokens d) \<Longrightarrow> b \<in> set (db_contest_entry_tokens d) \<Longrightarrow>
      cet_contest_id a = cid \<Longrightarrow> cet_contest_id b \<noteq> cid \<Longrightarrow> shorts_differ (f a) b \<and> shorts_differ b (f a)"
    and row: "\<And>a. a \<in> set (db_contest_entry_tokens d) \<Longrightarrow> token_row_ok a \<Longrightarrow> token_row_ok (f a)"
  shows "tokens_consistent (update_tokens cid f d)"
proof -
  let ?ts = "db_contest_entry_tokens d" and ?ts' = "update_where (\<lambda>t. cet_contest_id t = cid) f (db_contest_entry_tokens d)"
  note D = tokens_consistentD [OF ok]
  have ids: "map cet_contest_id ?ts' = map cet_contest_id ?ts" by (simp add: update_where_def f)
  have "sorted_wrt (\<lambda>a b. cet_token a \<noteq> cet_token b) ?ts'"
  proof (rule sorted_wrt_update [OF _ D(2)])
    show "sorted_wrt (\<lambda>a b. cet_token a \<noteq> cet_token b) ?ts" using D(1) by (simp only: distinct_map_pairwise)
    fix a b
    assume "a \<in> set ?ts" "b \<in> set ?ts" "cet_contest_id a = cid" "cet_contest_id b \<noteq> cid"
    from token [OF this] show "cet_token (f a) \<noteq> cet_token b \<and> cet_token b \<noteq> cet_token (f a)"
      by (simp add: eq_commute)
  qed
  moreover have "sorted_wrt shorts_differ ?ts'"
    using D(4) by (intro sorted_wrt_update [OF _ D(2)] short) (simp_all add: short_tokens_ok_def)
  then have "short_tokens_ok ?ts'"
    using D(4) row by (auto simp: short_tokens_ok_def list_all_iff update_where_def)
  moreover have "cet_contest_id ` set ?ts' \<subseteq> contest_ids d"
    using D(3) ids by (metis list.set_map)
  ultimately show ?thesis
    unfolding update_tokens_def using D(2) ids
    by (intro tokens_consistent_update [OF ok]) (simp_all add: distinct_map_pairwise [symmetric])
qed

lemma insert_token_consistent:
  assumes "tokens_consistent d" "insert_token row d = Inr d'" "cet_contest_id row \<in> contest_ids d"
    and "token_row_ok row" "cet_short_token row = None"
  shows "tokens_consistent d'"
proof -
  note D = tokens_consistentD [OF assms(1)]
  have d': "d' = d\<lparr>db_contest_entry_tokens := db_contest_entry_tokens d @ [row]\<rparr>"
      "cet_token row \<notin> cet_token ` set (db_contest_entry_tokens d)"
      "cet_contest_id row \<notin> cet_contest_id ` set (db_contest_entry_tokens d)"
    using assms(2) by (simp_all add: insert_token_def split: if_split_asm)
  have "short_tokens_ok (db_contest_entry_tokens d @ [row])"
    using D(4) assms(4,5) by (auto simp: short_tokens_ok_def sorted_wrt_append shorts_differ_def)
  then show ?thesis
    unfolding d'(1) using D(1-3) d'(2,3) assms(3) by (intro tokens_consistent_update [OF assms(1)]) auto
qed

lemma shorts_differ_rows:
  "sorted_wrt shorts_differ ts \<Longrightarrow> a \<in> set ts \<Longrightarrow> b \<in> set ts \<Longrightarrow> a \<noteq> b \<Longrightarrow> shorts_differ a b"
  by (induction ts) (auto simp: shorts_differ_def)

lemma set_token_consistent:
  assumes "tokens_consistent d" "set_token token cid d = Inr d'" "length token = token_len"
  shows "tokens_consistent d'"
proof -
  have d': "d' = update_tokens cid (\<lambda>t. t\<lparr>cet_token := token\<rparr>) d"
      "\<forall>t \<in> set (db_contest_entry_tokens d). cet_contest_id t \<noteq> cid \<longrightarrow> cet_token t \<noteq> token"
    using assms(2) by (auto simp: set_token_def list_ex_iff split: if_split_asm)
  have sorted: "sorted_wrt shorts_differ (db_contest_entry_tokens d)"
    using tokens_consistentD [OF assms(1)] by (simp add: short_tokens_ok_def)
  have differ: "shorts_differ a b"
    if "a \<in> set (db_contest_entry_tokens d)" "b \<in> set (db_contest_entry_tokens d)"
      "cet_contest_id a \<noteq> cet_contest_id b" for a b
    by (rule shorts_differ_rows [OF sorted that(1,2)]) (use that(3) in auto)
  show ?thesis
    unfolding d'(1)
  proof (rule tokens_consistent_map [OF assms(1)])
    fix a b
    assume "a \<in> set (db_contest_entry_tokens d)" "b \<in> set (db_contest_entry_tokens d)"
      "cet_contest_id a = cid" "cet_contest_id b \<noteq> cid"
    then show "cet_token (a\<lparr>cet_token := token\<rparr>) \<noteq> cet_token b"
      "shorts_differ (a\<lparr>cet_token := token\<rparr>) b \<and> shorts_differ b (a\<lparr>cet_token := token\<rparr>)"
      using d'(2) differ [of a b] differ [of b a] by (auto simp: shorts_differ_def)
  qed (use assms(3) in \<open>simp_all add: token_row_ok_def\<close>)
qed

lemma set_short_token_consistent:
  assumes "tokens_consistent d" "set_short_token short_token expiration cid d = Inr d'"
    and "length short_token = short_token_len"
  shows "tokens_consistent d'"
proof -
  let ?f = "\<lambda>t. t\<lparr>cet_short_token := Some short_token, cet_short_token_expiration := Some expiration\<rparr>"
  have d': "d' = update_tokens cid ?f d"
      "\<forall>t \<in> set (db_contest_entry_tokens d). cet_contest_id t \<noteq> cid \<longrightarrow> cet_short_token t \<noteq> Some short_token"
    using assms(2) by (auto simp: set_short_token_def list_ex_iff split: if_split_asm)
  have token: "cet_token a \<noteq> cet_token b"
    if "a \<in> set (db_contest_entry_tokens d)" "b \<in> set (db_contest_entry_tokens d)"
      "cet_contest_id a = cid" "cet_contest_id b \<noteq> cid" for a b
    using tokens_consistentD(1) [OF assms(1)] that by (metis distinct_map inj_onD)
  show ?thesis
    unfolding d'(1)
    by (rule tokens_consistent_map [OF assms(1)])
      (use d'(2) assms(3) token in \<open>auto simp: shorts_differ_def token_row_ok_def\<close>)
qed

lemma delete_short_consistent:
  assumes "tokens_consistent d"
  shows "tokens_consistent
    (update_tokens cid (\<lambda>t. t\<lparr>cet_short_token := None, cet_short_token_expiration := None\<rparr>) d)"
proof -
  have token: "cet_token a \<noteq> cet_token b"
    if "a \<in> set (db_contest_entry_tokens d)" "b \<in> set (db_contest_entry_tokens d)"
      "cet_contest_id a = cid" "cet_contest_id b \<noteq> cid" for a b
    using tokens_consistentD(1) [OF assms(1)] that by (metis distinct_map inj_onD)
  show ?thesis
    by (rule tokens_consistent_map [OF assms(1)])
      (use token in \<open>auto simp: shorts_differ_def token_row_ok_def\<close>)
qed

lemma delete_tokens_consistent:
  assumes "tokens_consistent d"
  shows "tokens_consistent (delete_tokens_where p d)"
  using tokens_consistentD [OF assms] unfolding delete_tokens_where_def
  by (intro tokens_consistent_update [OF assms])
    (auto simp: delete_where_def distinct_map_filter short_tokens_ok_def list_all_iff intro: sorted_wrt_filter)

lemma join_consistent:
  assumes "tokens_consistent d" "insert_ignore_contest_user row d = Some d'"
  shows "tokens_consistent d'"
proof -
  have d': "d' = d\<lparr>db_contest_users := db_contest_users d @ [row]\<rparr>"
      "(cu_user_id row, cu_contest_id row) \<notin> (\<lambda>cu. (cu_user_id cu, cu_contest_id cu)) ` set (db_contest_users d)"
      "cu_user_id row \<in> user_ids d" "cu_contest_id row \<in> contest_ids d"
    using assms(2) by (simp_all add: insert_ignore_contest_user_def split: if_split_asm)
  have ids: "user_ids d' = user_ids d" "problem_ids d' = problem_ids d" "contest_ids d' = contest_ids d"
      "round_ids d' = round_ids d" "cp_ids d' = cp_ids d"
    by (simp_all add: d'(1) ids_defs)
  have "keys_ok d'"
    using assms(1) d'(2) by (simp add: tokens_consistent_def keys_ok_def d'(1))
  moreover have "refs_ok d'"
    using assms(1) d'(3,4) unfolding tokens_consistent_def refs_ok_def refs_defs ids by (simp add: d'(1))
  ultimately show ?thesis using assms(1) by (simp add: tokens_consistent_def d'(1))
qed

lemma token_step_consistent:
  assumes "token_step env actor d post d'" "tokens_consistent d"
  shows "tokens_consistent d'"
  using assms(1)
proof cases
  case (tok_add cid token)
  have "cid \<in> contest_ids d"
    using tok_add(2) by (auto simp: manages_tokens_def find_contest_def contest_ids_def dest: find_key_Some)
  with tok_add(4) show ?thesis
    by (intro insert_token_consistent [OF assms(2) tok_add(5)]) (simp_all add: token_row_ok_def)
next
  case tok_nothing
  then show ?thesis using assms(2) by simp
next
  case (tok_regenerate cid t token)
  show ?thesis by (rule set_token_consistent [OF assms(2) tok_regenerate(6,5)])
next
  case (tok_delete cid)
  then show ?thesis by (simp add: delete_tokens_consistent [OF assms(2)])
next
  case (tok_short cid t short_token)
  show ?thesis by (rule set_short_token_consistent [OF assms(2) tok_short(5,4)])
next
  case (tok_delete_short cid)
  then show ?thesis by (simp only: delete_short_consistent [OF assms(2)])
next
  case (tok_join s t word)
  show ?thesis by (rule join_consistent [OF assms(2) tok_join(5)])
qed

section \<open>What opens a contest\<close>

text \<open>The texts with which somebody may join a contest at a given time.\<close>

definition openers :: "datetime \<Rightarrow> db \<Rightarrow> id \<Rightarrow> string set" where
  "openers now d cid =
     {w. \<exists>t \<in> set (db_contest_entry_tokens d). cet_contest_id t = cid \<and> token_matches now w t}"

definition opened_by :: "datetime \<Rightarrow> contest_entry_token option \<Rightarrow> string set" where
  "opened_by now row = {w. \<exists>t. row = Some t \<and> token_matches now w t}"

lemma openers_eq:
  assumes "distinct (map cet_contest_id (db_contest_entry_tokens d))"
  shows "openers now d cid = opened_by now (token_of_contest d cid)"
  using assms by (auto simp: openers_def opened_by_def token_of_contest_def find_key_iff)

lemma opened_by_row:
  "opened_by now None = {}"
  "opened_by now (Some t) = insert (cet_token t)
     {w. cet_short_token t = Some w \<and>
       (case cet_short_token_expiration t of None \<Rightarrow> False | Some e \<Rightarrow> now < e)}"
  by (auto simp: opened_by_def token_matches_def)

lemma token_of_contest_update:
  assumes "\<And>t. cet_contest_id (f t) = cet_contest_id t"
  shows "token_of_contest (update_tokens cid f d) cid = map_option f (token_of_contest d cid)"
proof -
  have "find (\<lambda>t. cet_contest_id t = cid) (update_where (\<lambda>t. cet_contest_id t = cid) f ts) =
      map_option f (find (\<lambda>t. cet_contest_id t = cid) ts)" for ts
    by (induction ts) (simp_all add: update_where_def assms)
  then show ?thesis by (simp add: token_of_contest_def update_tokens_def)
qed

lemma token_of_contest_delete:
  "token_of_contest (delete_tokens_where (\<lambda>t. cet_contest_id t = cid) d) cid = None"
  by (auto simp: token_of_contest_def delete_tokens_where_def find_None_iff)

lemma token_of_contest_insert:
  "insert_token row d = Inr d' \<Longrightarrow> token_of_contest d' (cet_contest_id row) = Some row"
proof -
  assume "insert_token row d = Inr d'"
  then have d': "d' = d\<lparr>db_contest_entry_tokens := db_contest_entry_tokens d @ [row]\<rparr>"
      "cet_contest_id row \<notin> cet_contest_id ` set (db_contest_entry_tokens d)"
    by (simp_all add: insert_token_def split: if_split_asm)
  have "find (\<lambda>t. cet_contest_id t = cet_contest_id row) (ts @ [row]) = Some row"
    if "cet_contest_id row \<notin> cet_contest_id ` set ts" for ts
    using that by (induction ts) auto
  then show ?thesis using d' by (simp add: token_of_contest_def)
qed

text \<open>What a request that changed something did to the ways into its contest.\<close>

definition token_effect ::
  "web_env \<Rightarrow> ctx_session option \<Rightarrow> db \<Rightarrow> token_post \<Rightarrow> db \<Rightarrow> bool" where
  "token_effect env actor d post d' \<longleftrightarrow>
     (case post of
        Post_add_token cid \<Rightarrow>
          \<exists>token. \<forall>now. openers now d cid = {} \<and> openers now d' cid = {token}
      | Post_regenerate_token cid \<Rightarrow>
          \<exists>t token. token_of_contest d cid = Some t \<and> token \<noteq> cet_token t \<and>
            (\<forall>now. openers now d' cid = insert token (openers now d cid - {cet_token t}))
      | Post_delete_token cid \<Rightarrow> \<forall>now. openers now d' cid = {}
      | Post_add_short_token cid \<Rightarrow>
          \<exists>t short. token_of_contest d cid = Some t \<and> cet_short_token t \<noteq> Some short \<and>
            (\<forall>now. openers now d' cid = {cet_token t} \<union> (if now < short_expiration env then {short} else {}))
      | Post_regenerate_short_token cid \<Rightarrow>
          \<exists>t short. token_of_contest d cid = Some t \<and> cet_short_token t \<noteq> Some short \<and>
            (\<forall>now. openers now d' cid = {cet_token t} \<union> (if now < short_expiration env then {short} else {}))
      | Post_delete_short_token cid \<Rightarrow>
          \<exists>t. token_of_contest d cid = Some t \<and> (\<forall>now. openers now d' cid = {cet_token t})
      | Post_use_token w \<Rightarrow>
          \<exists>s cid. actor = Some s \<and> w \<in> openers (now_of env) d cid \<and>
            session_user_mode actor d cid = None \<and>
            d' = d\<lparr>db_contest_users := db_contest_users d @
              [\<lparr> cu_user_id = cs_user_id s, cu_contest_id = cid, cu_mode = CONTESTANT \<rparr>]\<rparr>)"

lemma token_step_effect:
  assumes step: "token_step env actor d post d'" and ok: "tokens_consistent d" and ne: "d' \<noteq> d"
  shows "token_effect env actor d post d'"
proof -
  have "tokens_consistent d'" by (rule token_step_consistent [OF step ok])
  note open' = openers_eq [OF tokens_consistentD(2) [OF this]]
  note opens = openers_eq [OF tokens_consistentD(2) [OF ok]]
  show ?thesis
    using step
  proof cases
    case tok_nothing
    then show ?thesis using ne by simp
  next
    case (tok_add cid token)
    then show ?thesis
      using token_of_contest_insert [OF tok_add(5)]
      by (auto simp: token_effect_def open' opens opened_by_row)
  next
    case (tok_regenerate cid t token)
    have "d' = update_tokens cid (\<lambda>t. t\<lparr>cet_token := token\<rparr>) d"
      using tok_regenerate(6) by (simp add: set_token_def split: if_split_asm)
    then have row: "token_of_contest d' cid = Some (t\<lparr>cet_token := token\<rparr>)"
      using tok_regenerate(3) by (simp add: token_of_contest_update)
    have "token_row_ok t"
      using ok token_of_contest_Some [OF tok_regenerate(3)]
      by (auto simp: tokens_consistent_def short_tokens_ok_def list_all_iff)
    then have "cet_short_token t \<noteq> Some (cet_token t)"
      by (auto simp: token_row_ok_def token_len_def short_token_len_def)
    then have "openers now d' cid = insert token (openers now d cid - {cet_token t})" for now
      unfolding open' opens row tok_regenerate(3) by (auto simp: opened_by_row)
    then show ?thesis using tok_regenerate by (auto simp: token_effect_def)
  next
    case (tok_delete cid)
    then show ?thesis by (simp add: token_effect_def open' [unfolded tok_delete] token_of_contest_delete opened_by_row)
  next
    case (tok_short cid t short_token)
    have "d' = update_tokens cid (\<lambda>t. t\<lparr>cet_short_token := Some short_token,
        cet_short_token_expiration := Some (short_expiration env)\<rparr>) d"
      using tok_short(5) by (simp add: set_short_token_def split: if_split_asm)
    then have row: "token_of_contest d' cid = Some (t\<lparr>cet_short_token := Some short_token,
        cet_short_token_expiration := Some (short_expiration env)\<rparr>)"
      using tok_short(2) by (simp add: token_of_contest_update)
    have "openers now d' cid = {cet_token t} \<union> (if now < short_expiration env then {short_token} else {})" for now
      unfolding open' row by (auto simp: opened_by_row)
    then have "\<exists>t short. token_of_contest d cid = Some t \<and> cet_short_token t \<noteq> Some short \<and>
        (\<forall>now. openers now d' cid = {cet_token t} \<union> (if now < short_expiration env then {short} else {}))"
      using tok_short(2,3) by blast
    then show ?thesis using tok_short(6) by (auto simp: token_effect_def)
  next
    case (tok_delete_short cid)
    have row: "token_of_contest d' cid = map_option
        (\<lambda>t. t\<lparr>cet_short_token := None, cet_short_token_expiration := None\<rparr>) (token_of_contest d cid)"
      unfolding tok_delete_short(2) by (rule token_of_contest_update) simp
    show ?thesis
    proof (cases "token_of_contest d cid")
      case None
      then have "update_where (\<lambda>t. cet_contest_id t = cid) f (db_contest_entry_tokens d) = db_contest_entry_tokens d" for f
        by (auto simp: token_of_contest_def find_None_iff intro: update_where_none)
      then show ?thesis using ne tok_delete_short(2) by (simp add: update_tokens_def)
    next
      case (Some t)
      then have "openers now d' cid = {cet_token t}" for now
        unfolding open' row by (auto simp: opened_by_row)
      then show ?thesis using tok_delete_short(1) Some by (simp add: token_effect_def)
    qed
  next
    case (tok_join s t w)
    have d': "d' = d\<lparr>db_contest_users := db_contest_users d @
          [\<lparr> cu_user_id = cs_user_id s, cu_contest_id = cet_contest_id t, cu_mode = CONTESTANT \<rparr>]\<rparr>"
        "(cs_user_id s, cet_contest_id t) \<notin> (\<lambda>cu. (cu_user_id cu, cu_contest_id cu)) ` set (db_contest_users d)"
      using tok_join(5) by (simp_all add: insert_ignore_contest_user_def split: if_split_asm)
    have "cu_contest_id x \<noteq> cet_contest_id t \<or> cu_user_id x \<noteq> cs_user_id s" if "x \<in> set (db_contest_users d)" for x
      using d'(2) imageI [OF that, of "\<lambda>cu. (cu_user_id cu, cu_contest_id cu)"] by auto
    then have "session_user_mode actor d (cet_contest_id t) = None"
      using tok_join(2) by (auto simp: session_user_mode_def contest_user_mode_of_def find_None_iff)
    moreover have "w \<in> openers (now_of env) d (cet_contest_id t)"
      using tok_join(3,4) by (auto simp: openers_def)
    ultimately show ?thesis using tok_join(1,2) d'(1) by (auto simp: token_effect_def)
  qed
qed

section \<open>Requests\<close>

lemma serve_token_post_cases:
  assumes "serve_token_post env draws rq post d = Some sv" "tokens_consistent d"
  shows "token_step env (actor_of env rq d) d post (sv_db sv) \<and>
    ((\<exists>resp. sv_response sv = Inr resp) \<or>
     sv_response sv = Inl (Throw ''Duplicate entry'') \<and> sv_db sv = d)"
proof (cases "headers_get (rq_headers rq) ''x-csrf-token'' = Some (csrf_token_of_request env rq d)")
  case False
  then show ?thesis
    using assms(1) csrf_rejected [OF False, of "token_post_handler env draws post"]
    by (auto simp: serve_token_post_def intro: tok_nothing)
next
  case True
  have "map_option (finish_request d) (token_post_handler env draws post (opened env rq d)) = Some sv"
    using assms(1) csrf_accepted [OF True, of "token_post_handler env draws post"]
    by (simp add: serve_token_post_def handler_impl_opened [symmetric])
  then obtain r where r: "token_post_handler env draws post (opened env rq d) = Some r" "sv = finish_request d r"
    by auto
  show ?thesis
  proof (cases r)
    case (Inl e)
    then show ?thesis
      using r token_post_handler_raises [of env draws post "opened env rq d" e] assms(2)
      by (simp add: rolled_back_def tok_nothing)
  next
    case (Inr p)
    then obtain cx' resp where p: "r = Inr (cx', resp)" by (cases p) auto
    have "cx_session cx' = cx_session (opened env rq d)"
        and step: "token_step env (actor_of env rq d) d post (cx_db cx')"
      using token_post_handler_step [OF r(1)] by (simp_all add: step_made_def p actor_of_def)
    then have "data_kept cx'" using data_kept_opened [of env rq d] by (simp add: data_kept_def)
    then show ?thesis using step by (simp add: r(2) p finish_request_Inr)
  qed
qed


text \<open>C14. The life of entry tokens. A request that changes the database has exactly this effect on the
  texts that open its contest, at every later time: adding makes one token where nothing opened the
  contest; regenerating replaces the token by another and revokes the old one; deleting closes the
  contest, short token included; adding or regenerating a short token makes another that opens the
  contest beside the token for one hour from now, and no other text does; deleting it leaves the token;
  and using a text adds the session user, who had no role in it, as a contestant to a contest that the
  text opens now, and changes nothing else.\<close>
theorem entry_tokens_open_exactly:
  assumes "serve_token_post env draws rq post d = Some sv" "tokens_consistent d" "sv_db sv \<noteq> d"
  shows "token_effect env (actor_of env rq d) d post (sv_db sv)"
  using serve_token_post_cases [OF assms(1,2)] token_step_effect [OF _ assms(2,3)] by blast

section \<open>An example\<close>

text \<open>A contest of user 3, and the request that gives it a token.\<close>

definition sample_token_db :: db where
  "sample_token_db = example_accounts
     \<lparr>db_contests := [\<lparr> contest_id = 4, contest_created_at = ''2024-01-01 00:00:00'', contest_name = ''c'',
        contest_is_public = False \<rparr>],
      db_contest_users := [\<lparr> cu_user_id = 3, cu_contest_id = 4, cu_mode = OWNER \<rparr>]\<rparr>"

definition sample_token_request :: "token_post \<Rightarrow> served" where
  "sample_token_request post =
     the (serve_token_post example_env [\<lambda>i. i] (example_request ''B'' ''tb'' []) post sample_token_db)"

lemma sample_token_served:
  "serve_token_post example_env [\<lambda>i. i] (example_request ''B'' ''tb'' []) (Post_add_token 4) sample_token_db =
     Some (sample_token_request (Post_add_token 4))"
proof -
  have "serve_token_post example_env [\<lambda>i. i] (example_request ''B'' ''tb'' []) (Post_add_token 4) sample_token_db
      \<noteq> None"
    by code_simp
  then show ?thesis by (auto simp: sample_token_request_def)
qed

lemma sample_token_consistent: "tokens_consistent sample_token_db"
proof -
  have "keys_ok sample_token_db" by code_simp
  moreover have "refs_ok sample_token_db"
    by (simp add: sample_token_db_def example_accounts_def refs_ok_def refs_defs ids_defs empty_db_def
        example_session_def example_user_def)
  ultimately show ?thesis
    by (simp add: tokens_consistent_def short_tokens_ok_def sample_token_db_def example_accounts_def empty_db_def)
qed

lemma sample_token_added:
  "map cet_contest_id (db_contest_entry_tokens (sv_db (sample_token_request (Post_add_token 4)))) = [4]"
  by code_simp


theorem entry_tokens_open_exactly_witness:
  "\<exists>token. openers ''2024-01-01 00:00:00'' (sv_db (sample_token_request (Post_add_token 4))) 4 = {token}"
proof -
  have "db_contest_entry_tokens sample_token_db = []"
    by (simp add: sample_token_db_def example_accounts_def empty_db_def)
  then have "sv_db (sample_token_request (Post_add_token 4)) \<noteq> sample_token_db"
    using sample_token_added by auto
  from entry_tokens_open_exactly [OF sample_token_served sample_token_consistent this] show ?thesis
    by (auto simp: token_effect_def)
qed

end
