(* ===== verification/Spec2Isabelle.thy ===== *)
theory Spec2Isabelle
  imports Permissions Scheduler_Safety Handler_Effects Simfile_Dump Judge_Submission Users_Safety Submission_Lists Entry_Token_Safety
begin

text \<open>
  Verification of sim, an online judge: a web server, a job server and the library simlib that both
  use (src/subprojects/sim, src/subprojects/simlib). Users submit solutions to problems, in contests
  or outside them; the job server judges them and maintains the database that the web server shows.

  How the parts interact. The web server decides with capabilities what a request may do and adds
  rows to the table of jobs. The job server takes jobs in the order of their priority, runs those
  that do not conflict in parallel worker threads, and each job's handler changes the database in
  transactions that are repeated when the database reports a deadlock. A judging job loads the
  package of a problem, described by its Simfile, judges the tests in the sandbox and stores the
  result; after each result the final submissions of the user are selected again.

  Theories, in the order of the program's layers.

    \<^item> \<open>Sim_Prelude\<close>: identifiers, exceptions as values (\<open>res\<close>, \<open>bind_res\<close>), SQL's three-valued
      conditions, UPDATE, DELETE and the first row of an ORDER BY on lists of rows.
    \<^item> \<open>Sim_Types\<close>: the enums and the rows of the tables (include/sim/*/*.hh).
    \<^item> \<open>Sim_Db\<close>: the database as a record of tables, its keys, foreign keys and their referential
      actions (src/sim/db/schema.cc).
    \<^item> \<open>Capabilities\<close>, \<open>Permissions\<close>: src/web_server/capabilities and the older permission bit sets of
      src/sim/*/permissions.cc; the lemmas relate the two and state what is protected.
    \<^item> \<open>Submission_Finals\<close>: src/sim/submissions/update_final.cc; the locale \<open>final_flag\<close> proves once
      what unset, select and set do, and is interpreted on every flag and order.
    \<^item> \<open>Job_Filter\<close>, \<open>Bounded_Queue\<close>, \<open>Job_Scheduler\<close>, \<open>Scheduler_Safety\<close>: src/job_server/main.cc, the
      condition that keeps conflicting jobs apart, the queue between threads, and the interleaved
      steps of the main thread, the workers and the shutdown, with invariants by rule induction.
    \<^item> \<open>Job_Handlers\<close>, \<open>Merge_Handlers\<close>, \<open>Process_Task\<close>, \<open>Handler_Effects\<close>: src/job_server/job_handlers,
      each handler as a function of the database and its log; the dispatch with its retries; and
      what each handler leaves behind. The locale \<open>job_handler\<close> is the contract of every handler.
    \<^item> \<open>String_Utils\<close>, \<open>Path_Utils\<close>, \<open>Config_File\<close>: simlib's conversions and escapes, paths, and the
      parser of configuration files with its errors.
    \<^item> \<open>Test_Names\<close>, \<open>Simfile\<close>, \<open>Simfile_Dump\<close>: simlib's src/sim/simfile.cc: loading, validation and
      dump of the description of a package, and the round trip through the parser.
    \<^item> \<open>Judge_Worker\<close>: simlib's src/sim/judge_worker.cc and src/sim/judge: the verdict on a test and
      the two rounds of judging the groups.
    \<^item> \<open>Judge_Logs\<close>, \<open>Judge_Submission\<close>: job_handlers/judge_logger.hh and judge_or_rejudge_submission.cc:
      the log, the HTML report, and the handler with its five transactions.

    \<^item> \<open>Web_Http\<close>, \<open>Web_Context\<close>: src/web_server/http and web_worker: headers, cookies, form fields, the
      validation of parameters, JSON, sessions, the answers, the transaction around a handler and the
      CSRF check of every POST route.
    \<^item> \<open>Users_Api\<close>, \<open>Users_Safety\<close>: users/api.cc, every route, and the API as a transition system
      (\<open>user_step\<close>) with its invariants: who becomes an administrator, whose row may change.
    \<^item> \<open>Web_Lists\<close>: the ORDER BY id DESC LIMIT of every list; the locale \<open>paged_list\<close> proves that a
      client that follows the pages gets every row once, and is interpreted on the limits of each API.
    \<^item> \<open>Jobs_Api\<close>, \<open>Problems_Api\<close>: jobs/api.cc and problems/api.cc: lists, views and the uploads of
      packages; the lemmas say exactly which rows a session sees and that no answer throws.
    \<^item> \<open>Submissions_Api\<close>, \<open>Submission_Lists\<close>: submissions/api.cc, its eighty-one list routes and the view;
      what a list shows may be viewed, and hidden results of a contest do not influence any answer.
    \<^item> \<open>Contest_Entry_Tokens_Api\<close>, \<open>Entry_Token_Safety\<close>: contest_entry_tokens/api.cc, the steps it may make
      (\<open>token_step\<close>), its invariant, and which texts open a contest after each operation.

  Bounds. \<open>repeat_if_deadlocked\<close> is called with the limit 128 of the code; its recursion is bounded by
  the limit and no fuel is needed. Parsers recurse on the text that is left. Following the pages of a
  list takes fuel; more fuel than rows is enough. Loops that draw random ids or tokens take the list of
  what is drawn; \<open>None\<close> says that all of it was refused and the loop goes on.

  Parameters. The sandbox, compilers, the file system, floating point arithmetic, SHA3-512, the clock,
  random numbers and the failures of the database are arguments of the definitions that use them;
  hypotheses on them are stated in the theorems (\<open>double_laws\<close>, \<open>reliable\<close>, \<open>deadlocks\<close>) and hold in the
  witnesses. The clock does not move during a request. SQL statements are effects on the tables of
  \<open>Sim_Db\<close>; a LEFT JOIN is a lookup that may find nothing. Whether an uploaded file can be moved is a
  parameter; the files that a request leaves behind are not modelled.

  Not modelled: sockets and the parsing of HTTP messages, the dispatch of URLs, libmysqlclient and the
  builder of SQL texts (the models state what a statement does), system calls of the sandbox, archives of
  packages and what unpacks and converts them, the old APIs and the HTML of the old pages, the tool sip,
  and the merger of two installations. They are input and output, or code that is being replaced.
\<close>

end
